(* ===== verification/Prelude.thy ===== *)
theory Prelude
  imports Main "HOL-Library.Word" "HOL-Library.AList" "HOL-Library.Sublist"
begin

text \<open>
  What every component of the development shares: the names of the model's
  types, the two error-carrying combinators that stand for Rust's \<open>?\<close>
  operator (pure and with a mutable state), the calculus of what a stateful
  operation keeps, and association lists as hash maps and SQL tables.

  A Rust \<open>u8\<close> inside a byte buffer is a HOL \<open>char\<close> (the type with exactly
  256 values), so a \<open>Vec<u8>\<close> and the UTF-8 bytes of a \<open>String\<close> are both
  \<open>char list\<close> and \<open>as_bytes\<close> is the identity.  Integers that are computed
  with keep their width as words.
\<close>

section \<open>Names of types\<close>

type_synonym bytes = "char list"
type_synonym u8 = "8 word"
type_synonym u16 = "16 word"
type_synonym u32 = "32 word"
type_synonym u64 = "64 word"
type_synonym i64 = "64 word"

text \<open>
  An \<open>Instant\<close> is the number of nanoseconds since the monotonic clock's
  origin; \<open>checked_sub\<close> fails below the origin and \<open>duration_since\<close>
  saturates at zero.
\<close>

type_synonym instant = nat

definition secs :: "nat \<Rightarrow> nat" where
  "secs n = 1000000000 * n"

definition instant_back :: "instant \<Rightarrow> nat \<Rightarrow> instant" where
  "instant_back now d = (if d \<le> now then now - d else now)"

definition duration_since :: "instant \<Rightarrow> instant \<Rightarrow> nat" where
  "duration_since now t = now - t"

section \<open>Collections of facts\<close>

named_theorems result_simps "unfolding of the result combinators"
named_theorems wf_intros "preservation of well-formedness invariants"

section \<open>Results and the question-mark operator\<close>

definition bind_res :: "'e + 'a \<Rightarrow> ('a \<Rightarrow> 'e + 'b) \<Rightarrow> 'e + 'b" where
  "bind_res r f = (case r of Inl e \<Rightarrow> Inl e | Inr x \<Rightarrow> f x)"

definition map_err :: "('d \<Rightarrow> 'e) \<Rightarrow> 'd + 'a \<Rightarrow> 'e + 'a" where
  "map_err f r = (case r of Inl e \<Rightarrow> Inl (f e) | Inr x \<Rightarrow> Inr x)"

definition ok_or :: "'e \<Rightarrow> 'a option \<Rightarrow> 'e + 'a" where
  "ok_or e x = (case x of None \<Rightarrow> Inl e | Some y \<Rightarrow> Inr y)"

definition guard_res :: "bool \<Rightarrow> 'e \<Rightarrow> 'e + unit" where
  "guard_res b e = (if b then Inr () else Inl e)"

lemma bind_res_simps [simp]:
  "bind_res (Inl e) f = Inl e"
  "bind_res (Inr x) f = f x"
  by (simp_all add: bind_res_def)

lemma bind_res_Inr_iff: "bind_res r f = Inr y \<longleftrightarrow> (\<exists>x. r = Inr x \<and> f x = Inr y)"
  by (cases r) auto

lemma bind_res_cong [fundef_cong]:
  "r = r' \<Longrightarrow> (\<And>x. r' = Inr x \<Longrightarrow> f x = g x) \<Longrightarrow> bind_res r f = bind_res r' g"
  by (cases r') auto

lemma map_err_simps [simp]:
  "map_err f (Inl e) = Inl (f e)"
  "map_err f (Inr x) = Inr x"
  by (simp_all add: map_err_def)

lemma map_err_Inr_iff [simp]: "map_err f r = Inr x \<longleftrightarrow> r = Inr x"
  by (cases r) auto

lemma ok_or_simps [simp]:
  "ok_or e None = Inl e"
  "ok_or e (Some y) = Inr y"
  by (simp_all add: ok_or_def)

lemma ok_or_Inr_iff [simp]: "ok_or e x = Inr y \<longleftrightarrow> x = Some y"
  by (cases x) auto

lemma guard_res_Inr_iff [simp]: "guard_res b e = Inr u \<longleftrightarrow> b"
  by (simp add: guard_res_def)

lemma guard_res_simps [simp]:
  "guard_res True e = Inr ()"
  "guard_res False e = Inl e"
  by (simp_all add: guard_res_def)

text \<open>A loop that collects results and returns at the first error.\<close>

fun map_res :: "('a \<Rightarrow> 'e + 'b) \<Rightarrow> 'a list \<Rightarrow> 'e + 'b list" where
  "map_res f [] = Inr []"
| "map_res f (x # xs) = bind_res (f x) (\<lambda>y. bind_res (map_res f xs) (\<lambda>ys. Inr (y # ys)))"

lemma map_res_Inr: "map_res f xs = Inr ys \<longleftrightarrow> list_all2 (\<lambda>x y. f x = Inr y) xs ys"
  by (induction xs arbitrary: ys) (auto simp: bind_res_Inr_iff list_all2_Cons1)

lemma map_res_map: "(\<And>x. x \<in> set xs \<Longrightarrow> f x = Inr (g x)) \<Longrightarrow> map_res f xs = Inr (map g xs)"
  by (induction xs) auto

lemma map_res_mapI: "(\<And>x. x \<in> set xs \<Longrightarrow> f (g x) = Inr x) \<Longrightarrow> map_res f (map g xs) = Inr xs"
  by (induction xs) auto

text \<open>The same with a mutable state: an early return keeps what was written.\<close>

definition ret_st :: "'a \<Rightarrow> 's \<Rightarrow> ('e + 'a) \<times> 's" where
  "ret_st x s = (Inr x, s)"

definition fail_st :: "'e \<Rightarrow> 's \<Rightarrow> ('e + 'a) \<times> 's" where
  "fail_st e s = (Inl e, s)"

definition bind_st ::
  "('s \<Rightarrow> ('e + 'a) \<times> 's) \<Rightarrow> ('a \<Rightarrow> 's \<Rightarrow> ('e + 'b) \<times> 's) \<Rightarrow> 's \<Rightarrow> ('e + 'b) \<times> 's" where
  "bind_st m f s = (case m s of (Inl e, s') \<Rightarrow> (Inl e, s') | (Inr x, s') \<Rightarrow> f x s')"

definition lift_st :: "('s \<Rightarrow> 'e + 'a) \<Rightarrow> 's \<Rightarrow> ('e + 'a) \<times> 's" where
  "lift_st f s = (f s, s)"

definition gets_st :: "('s \<Rightarrow> 'a) \<Rightarrow> 's \<Rightarrow> ('e + 'a) \<times> 's" where
  "gets_st f s = (Inr (f s), s)"

definition modify_st :: "('s \<Rightarrow> 's) \<Rightarrow> 's \<Rightarrow> ('e + unit) \<times> 's" where
  "modify_st f s = (Inr (), f s)"

definition when_st :: "bool \<Rightarrow> ('s \<Rightarrow> ('e + unit) \<times> 's) \<Rightarrow> 's \<Rightarrow> ('e + unit) \<times> 's" where
  "when_st b m s = (if b then m s else (Inr (), s))"

lemmas st_defs = ret_st_def fail_st_def bind_st_def lift_st_def gets_st_def modify_st_def
  when_st_def

lemma bind_st_Inr_iff:
  "bind_st m f s = (Inr y, s') \<longleftrightarrow> (\<exists>x s1. m s = (Inr x, s1) \<and> f x s1 = (Inr y, s'))"
  by (auto simp: bind_st_def split: prod.splits sum.splits)

lemma bind_st_Inl_iff:
  "bind_st m f s = (Inl e, s') \<longleftrightarrow>
     m s = (Inl e, s') \<or> (\<exists>x s1. m s = (Inr x, s1) \<and> f x s1 = (Inl e, s'))"
  by (auto simp: bind_st_def split: prod.splits sum.splits)

text \<open>
  An invariant of the state that two steps keep is kept by their sequence,
  whether the first one returns early or not.
\<close>

definition keeps :: "('s \<Rightarrow> bool) \<Rightarrow> ('s \<Rightarrow> ('e + 'a) \<times> 's) \<Rightarrow> bool" where
  "keeps P m \<longleftrightarrow> (\<forall>s. P s \<longrightarrow> P (snd (m s)))"

lemma keepsI: "(\<And>s. P s \<Longrightarrow> P (snd (m s))) \<Longrightarrow> keeps P m"
  by (simp add: keeps_def)

lemma keepsD: "keeps P m \<Longrightarrow> P s \<Longrightarrow> P (snd (m s))"
  by (simp add: keeps_def)

lemma keeps_bind [wf_intros]:
  "keeps P m \<Longrightarrow> (\<And>x. keeps P (f x)) \<Longrightarrow> keeps P (bind_st m f)"
  unfolding keeps_def bind_st_def
  by (simp split: prod.splits sum.splits) (metis snd_conv)

lemma keeps_basic [wf_intros]:
  "keeps P (ret_st x)" "keeps P (fail_st e)" "keeps P (lift_st g)" "keeps P (gets_st h)"
  by (simp_all add: keeps_def st_defs)

lemma keeps_modify [wf_intros]: "(\<And>s. P s \<Longrightarrow> P (f s)) \<Longrightarrow> keeps P (modify_st f)"
  by (simp add: keeps_def st_defs)

lemma keeps_when [wf_intros]: "(b \<Longrightarrow> keeps P m) \<Longrightarrow> keeps P (when_st b m)"
  by (simp add: keeps_def st_defs)

lemma keeps_if [wf_intros]:
  "(b \<Longrightarrow> keeps P m) \<Longrightarrow> (\<not> b \<Longrightarrow> keeps P n) \<Longrightarrow> keeps P (if b then m else n)"
  by simp

lemma keeps_option [wf_intros]:
  "(x = None \<Longrightarrow> keeps P m) \<Longrightarrow> (\<And>y. x = Some y \<Longrightarrow> keeps P (f y)) \<Longrightarrow>
   keeps P (case x of None \<Rightarrow> m | Some y \<Rightarrow> f y)"
  by (cases x) auto

section \<open>Tables\<close>

text \<open>
  A SQL table with a primary key is the list of its rows in rowid order.
  \<open>INSERT OR REPLACE\<close> deletes the conflicting row and appends the new one;
  an upsert's \<open>DO UPDATE\<close> changes the row in place; \<open>DELETE\<close> filters.
\<close>

type_synonym ('k, 'v) table = "('k \<times> 'v) list"

definition tbl_replace :: "'k \<Rightarrow> 'v \<Rightarrow> ('k, 'v) table \<Rightarrow> ('k, 'v) table" where
  "tbl_replace k v t = filter (\<lambda>(k', _). k' \<noteq> k) t @ [(k, v)]"

definition tbl_update :: "'k \<Rightarrow> ('v \<Rightarrow> 'v) \<Rightarrow> ('k, 'v) table \<Rightarrow> ('k, 'v) table" where
  "tbl_update k f t = map (\<lambda>(k', v). if k' = k then (k', f v) else (k', v)) t"

definition tbl_delete :: "('k \<Rightarrow> bool) \<Rightarrow> ('k, 'v) table \<Rightarrow> ('k, 'v) table" where
  "tbl_delete P t = filter (\<lambda>(k, _). \<not> P k) t"

definition tbl_upsert :: "'k \<Rightarrow> 'v \<Rightarrow> ('v \<Rightarrow> 'v) \<Rightarrow> ('k, 'v) table \<Rightarrow> ('k, 'v) table" where
  "tbl_upsert k v f t =
     (if map_of t k = None then t @ [(k, v)] else tbl_update k f t)"

lemma map_of_filter_key:
  "map_of (filter (\<lambda>(k, _). P k) t) k = (if P k then map_of t k else None)"
  by (induction t) auto

text \<open>\<open>retain\<close> and \<open>values_mut\<close> on a map without duplicate keys.\<close>

lemma map_of_retain:
  "distinct (map fst t) \<Longrightarrow> map_of (filter (\<lambda>(_, v). P v) t) k =
     (case map_of t k of None \<Rightarrow> None | Some v \<Rightarrow> if P v then Some v else None)"
  by (induction t) (auto split: option.splits dest: map_of_SomeD simp: rev_image_eqI)

lemma map_of_map_values: "map_of (map (\<lambda>(k, v). (k, f v)) t) k = map_option f (map_of t k)"
  by (induction t) auto

lemma keys_map_values [simp]: "map (fst \<circ> (\<lambda>(k, v). (k, f v))) t = map fst t"
  by (induction t) auto

lemma distinct_retain: "distinct (map fst t) \<Longrightarrow> distinct (map fst (filter P t))"
  by (simp add: distinct_map_filter)

lemma tbl_replace_lookup [simp]: "map_of (tbl_replace k v t) = (map_of t)(k \<mapsto> v)"
proof
  fix x
  show "map_of (tbl_replace k v t) x = ((map_of t)(k \<mapsto> v)) x"
    by (simp add: tbl_replace_def map_add_def map_of_filter_key split: option.split)
qed

lemma tbl_delete_lookup [simp]:
  "map_of (tbl_delete P t) k = (if P k then None else map_of t k)"
  by (simp add: tbl_delete_def map_of_filter_key)

lemma tbl_update_lookup [simp]:
  "map_of (tbl_update k f t) k' =
     (if k' = k then map_option f (map_of t k) else map_of t k')"
  by (induction t) (auto simp: tbl_update_def)

lemma tbl_upsert_lookup [simp]:
  "map_of (tbl_upsert k v f t) k' =
     (if k' = k then Some (case map_of t k of None \<Rightarrow> v | Some w \<Rightarrow> f w) else map_of t k')"
  by (auto simp: tbl_upsert_def map_add_def split: option.splits)

lemma tbl_replace_keys:
  "map fst (tbl_replace k v t) = filter (\<lambda>k'. k' \<noteq> k) (map fst t) @ [k]"
  by (induction t) (auto simp: tbl_replace_def)

lemma tbl_update_keys [simp]: "map fst (tbl_update k f t) = map fst t"
  by (induction t) (auto simp: tbl_update_def)

lemma tbl_delete_keys: "map fst (tbl_delete P t) = filter (\<lambda>k. \<not> P k) (map fst t)"
  by (induction t) (auto simp: tbl_delete_def)

lemma tbl_distinct [wf_intros]:
  "distinct (map fst t) \<Longrightarrow> distinct (map fst (tbl_replace k v t))"
  "distinct (map fst t) \<Longrightarrow> distinct (map fst (tbl_delete P t))"
  "distinct (map fst t) \<Longrightarrow> distinct (map fst (tbl_upsert k v f t))"
  by (auto simp: tbl_replace_keys tbl_delete_keys tbl_upsert_def map_of_eq_None_iff
      simp del: map_map)

lemma tbl_set_replace: "x \<in> set (tbl_replace k v t) \<Longrightarrow> x = (k, v) \<or> x \<in> set t"
  by (auto simp: tbl_replace_def)

lemma tbl_set_delete: "x \<in> set (tbl_delete P t) \<Longrightarrow> x \<in> set t"
  by (auto simp: tbl_delete_def)

lemma tbl_set_upsert:
  "(k', w) \<in> set (tbl_upsert k v f t) \<Longrightarrow>
     (k', w) = (k, v) \<or> (k', w) \<in> set t \<or> (k' = k \<and> (\<exists>u. (k, u) \<in> set t \<and> w = f u))"
  by (auto simp: tbl_upsert_def tbl_update_def split: if_splits)

end
