(* ===== verification/Rust_Str.thy ===== *)
theory Rust_Str
  imports Prelude
begin

text \<open>
  The part of Rust's string library the sources call, on UTF-8 bytes:
  character boundaries and validity (\<open>is_char_boundary\<close>, \<open>chars\<close>,
  \<open>String::from_utf8\<close>), \<open>strip_prefix\<close>, \<open>split_once\<close>, \<open>find\<close>, \<open>split\<close>,
  \<open>trim\<close>, \<open>split_whitespace\<close> (on the Unicode property \<open>White_Space\<close>), and
  the decimal \<open>Display\<close> and \<open>FromStr\<close> of integers with their error texts.
  Unicode case mapping is not defined here: a definition that lower-cases
  takes \<open>str::to_lowercase\<close> as an argument, and ASCII case mapping is exact.
\<close>

section \<open>Bytes as numbers\<close>

abbreviation byte_val :: "char \<Rightarrow> nat" where
  "byte_val c \<equiv> of_char c"

abbreviation byte_of :: "nat \<Rightarrow> char" where
  "byte_of n \<equiv> char_of n"

lemma byte_val_less [simp]: "byte_val c < 256"
  by (metis of_char_def nat_of_char_less_256)

lemma byte_of_inject: "m < 256 \<Longrightarrow> n < 256 \<Longrightarrow> byte_of m = byte_of n \<longleftrightarrow> m = n"
  by (metis of_char_of mod_less)

section \<open>UTF-8\<close>

definition is_cont :: "char \<Rightarrow> bool" where
  "is_cont c \<longleftrightarrow> 128 \<le> byte_val c \<and> byte_val c < 192"

definition in_range :: "nat \<Rightarrow> nat \<Rightarrow> char \<Rightarrow> bool" where
  "in_range lo hi c \<longleftrightarrow> lo \<le> byte_val c \<and> byte_val c \<le> hi"

text \<open>
  The byte length of the well-formed UTF-8 sequence a string starts with, 0
  if it starts with none (Unicode table 3-7, which \<open>core::str\<close> validates):
  the lead byte fixes the length and the range of the second byte.
\<close>

fun utf8_lead :: "char \<Rightarrow> nat \<times> nat \<times> nat" where
  "utf8_lead b =
     (if byte_val b < 128 then (1, 128, 191)
      else if byte_val b < 194 then (0, 128, 191)
      else if byte_val b < 224 then (2, 128, 191)
      else if byte_val b = 224 then (3, 160, 191)
      else if byte_val b = 237 then (3, 128, 159)
      else if byte_val b < 240 then (3, 128, 191)
      else if byte_val b = 240 then (4, 144, 191)
      else if byte_val b < 244 then (4, 128, 191)
      else if byte_val b = 244 then (4, 128, 143)
      else (0, 128, 191))"

definition utf8_len :: "bytes \<Rightarrow> nat" where
  "utf8_len s =
     (case s of
        [] \<Rightarrow> 0
      | b # r \<Rightarrow>
          (case utf8_lead b of (n, lo, hi) \<Rightarrow>
             if n \<le> 1 then n
             else if n \<le> length s \<and> in_range lo hi (r ! 0) \<and> list_all is_cont (take (n - 1) r)
             then n else 0))"

lemma utf8_lead_le4: "utf8_lead b = (n, lo, hi) \<Longrightarrow> n \<le> 4"
  by (auto split: if_splits)

lemma utf8_lead_not_cont: "utf8_lead b = (n, lo, hi) \<Longrightarrow> 0 < n \<Longrightarrow> \<not> is_cont b"
  by (auto simp: is_cont_def split: if_splits)

declare utf8_lead.simps [simp del]

lemma utf8_len_Nil [simp]: "utf8_len [] = 0"
  by (simp add: utf8_len_def)

lemma utf8_len_le: "utf8_len s \<le> length s"
  by (auto simp: utf8_len_def split: list.splits prod.splits)

lemma utf8_len_4: "utf8_len s \<le> 4"
  by (auto simp: utf8_len_def dest: utf8_lead_le4 split: list.splits prod.splits)

lemma utf8_len_tail_cont:
  assumes "0 < i" "i < utf8_len s"
  shows "is_cont (s ! i)"
proof -
  from assms obtain b r n lo hi where s: "s = b # r" and l: "utf8_lead b = (n, lo, hi)"
    by (cases s) (auto intro: prod_cases3 [of "utf8_lead (hd s)"])
  with assms have n: "i < n" "n \<le> length s" "list_all is_cont (take (n - 1) r)"
    by (auto simp: utf8_len_def split: if_splits)
  then have "i - 1 < length (take (n - 1) r)" using assms s by auto
  with n(3) have "is_cont (take (n - 1) r ! (i - 1))" by (simp add: list_all_length)
  with n(1) assms(1) s show ?thesis by (simp add: nth_Cons')
qed

lemma utf8_len_head: "0 < utf8_len s \<Longrightarrow> s \<noteq> [] \<and> \<not> is_cont (hd s)"
  by (auto simp: utf8_len_def dest: utf8_lead_not_cont split: list.splits prod.splits if_splits)

lemma utf8_len_append: "0 < utf8_len s \<Longrightarrow> utf8_len (s @ r) = utf8_len s"
  by (auto simp: utf8_len_def nth_append split: list.splits prod.splits if_splits)

lemma utf8_len_take:
  assumes "0 < utf8_len s" "utf8_len s \<le> n"
  shows "utf8_len (take n s) = utf8_len s"
proof -
  from assms obtain b r where s: "s = b # r" by (cases s) auto
  from assms have "0 < n" by simp
  then obtain m where n: "n = Suc m" by (cases n) auto
  show ?thesis using assms unfolding s n
    by (auto simp: utf8_len_def min_def split: prod.splits if_splits)
qed

text \<open>\<open>str::chars\<close>: each character is the bytes of its encoding.\<close>

function utf8_chars :: "bytes \<Rightarrow> bytes list" where
  "utf8_chars [] = []"
| "utf8_chars (b # s) =
     (let k = max 1 (utf8_len (b # s)) in take k (b # s) # utf8_chars (drop k (b # s)))"
  by pat_completeness auto
termination
  by (relation "measure length") (auto simp: Let_def)

text \<open>\<open>String::from_utf8\<close> accepts exactly the strings that split into sequences.\<close>

function utf8_valid :: "bytes \<Rightarrow> bool" where
  "utf8_valid [] = True"
| "utf8_valid (b # s) =
     (let k = utf8_len (b # s) in if k = 0 then False else utf8_valid (drop k (b # s)))"
  by pat_completeness auto
termination
  by (relation "measure length") auto

declare utf8_chars.simps(2) [simp del] utf8_valid.simps(2) [simp del]

lemma utf8_valid_Cons:
  "s \<noteq> [] \<Longrightarrow> utf8_valid s \<longleftrightarrow> 0 < utf8_len s \<and> utf8_valid (drop (utf8_len s) s)"
  by (cases s) (auto simp: utf8_valid.simps(2) Let_def)

lemma concat_utf8_chars: "concat (utf8_chars s) = s"
proof (induction s rule: utf8_chars.induct)
  case (2 b s)
  then show ?case by (simp add: utf8_chars.simps(2) Let_def del: take_Suc_Cons drop_Suc_Cons)
qed simp

lemma ascii_valid: "(\<And>c. c \<in> set s \<Longrightarrow> byte_val c < 128) \<Longrightarrow> utf8_valid s"
proof (induction s)
  case (Cons c s)
  then have "utf8_len (c # s) = 1" by (simp add: utf8_len_def utf8_lead.simps)
  with Cons show ?case by (simp add: utf8_valid.simps(2) Let_def)
qed simp

text \<open>\<open>str::is_char_boundary\<close>.\<close>

definition is_char_boundary :: "bytes \<Rightarrow> nat \<Rightarrow> bool" where
  "is_char_boundary s i \<longleftrightarrow>
     i = 0 \<or> (if i < length s then \<not> is_cont (s ! i) else i = length s)"

lemma boundary_len: "is_char_boundary s (length s)"
  by (simp add: is_char_boundary_def)

text \<open>A boundary of valid text splits it into two valid texts.\<close>

lemma utf8_valid_append: "utf8_valid s \<Longrightarrow> utf8_valid t \<Longrightarrow> utf8_valid (s @ t)"
proof (induction "length s" arbitrary: s rule: less_induct)
  case less
  show ?case
  proof (cases "s = []")
    case False
    then have k: "0 < utf8_len s" "utf8_valid (drop (utf8_len s) s)" using less.prems(1) by (auto simp: utf8_valid_Cons)
    then have "utf8_valid (drop (utf8_len s) s @ t)" using less False by (intro less.hyps) auto
    then show ?thesis using k utf8_len_le [of s] False by (simp add: utf8_valid_Cons utf8_len_append)
  qed (simp add: less.prems)
qed

lemma utf8_valid_split:
  "utf8_valid s \<Longrightarrow> is_char_boundary s i \<Longrightarrow> utf8_valid (take i s) \<and> utf8_valid (drop i s)"
proof (induction "length s" arbitrary: s i rule: less_induct)
  case less
  show ?case
  proof (cases "s = [] \<or> i = 0")
    case True
    with less.prems show ?thesis by auto
  next
    case False
    let ?k = "utf8_len s"
    from False less.prems(1) have k: "0 < ?k" and v: "utf8_valid (drop ?k s)"
      by (auto simp: utf8_valid_Cons)
    show ?thesis
    proof (cases "i < ?k")
      case True
      with False utf8_len_tail_cont [of i s] have "is_cont (s ! i)" by auto
      moreover from True utf8_len_le [of s] have "i < length s" by linarith
      ultimately show ?thesis using less.prems(2) False by (simp add: is_char_boundary_def)
    next
      case False2: False
      have "is_char_boundary (drop ?k s) (i - ?k)"
        using less.prems(2) False2 k utf8_len_le [of s] by (auto simp: is_char_boundary_def split: if_splits)
      moreover have "length (drop ?k s) < length s" using False k by simp
      ultimately have IH: "utf8_valid (take (i - ?k) (drop ?k s)) \<and> utf8_valid (drop (i - ?k) (drop ?k s))"
        using less.hyps v by blast
      from k False2 have "utf8_len (take i s) = ?k" by (simp add: utf8_len_take)
      with IH k False False2 show ?thesis
        by (auto simp: utf8_valid_Cons [of "take i s"] drop_take)
    qed
  qed
qed

text \<open>Every position of valid text has a boundary at most three bytes before it.\<close>

lemma boundary_near:
  "utf8_valid s \<Longrightarrow> i \<le> length s \<Longrightarrow> \<exists>j. j \<le> i \<and> i < j + 4 \<and> is_char_boundary s j"
proof (induction "length s" arbitrary: s i rule: less_induct)
  case less
  let ?k = "utf8_len s"
  show ?case
  proof (cases "s = [] \<or> i < ?k")
    case True
    with less.prems utf8_len_4 [of s] show ?thesis
      by (intro exI [of _ 0]) (auto simp: is_char_boundary_def)
  next
    case False
    with less.prems have k: "0 < ?k" "utf8_valid (drop ?k s)" by (auto simp: utf8_valid_Cons)
    moreover have "length (drop ?k s) < length s" using False k by simp
    moreover have "i - ?k \<le> length (drop ?k s)" using less.prems by simp
    ultimately obtain j where j: "j \<le> i - ?k" "i - ?k < j + 4" "is_char_boundary (drop ?k s) j"
      using less.hyps by blast
    show ?thesis
    proof (cases "j = 0 \<and> ?k < length s")
      case True
      then have "\<not> is_cont (hd (drop ?k s))"
        using k by (intro utf8_len_head [THEN conjunct2]) (auto simp: utf8_valid_Cons)
      then have "is_char_boundary s ?k" using True by (simp add: is_char_boundary_def hd_drop_conv_nth)
      with True j False show ?thesis by (intro exI [of _ ?k]) auto
    next
      case False2: False
      then have "is_char_boundary s (?k + j)"
        using j utf8_len_le [of s] by (auto simp: is_char_boundary_def split: if_splits)
      with j False show ?thesis by (intro exI [of _ "?k + j"]) auto
    qed
  qed
qed

section \<open>Searching and cutting\<close>

text \<open>\<open>str::strip_prefix\<close> and \<open>starts_with\<close> with a string pattern.\<close>

fun strip_prefix :: "bytes \<Rightarrow> bytes \<Rightarrow> bytes option" where
  "strip_prefix [] s = Some s"
| "strip_prefix (p # ps) [] = None"
| "strip_prefix (p # ps) (c # s) = (if p = c then strip_prefix ps s else None)"

definition starts_with :: "bytes \<Rightarrow> bytes \<Rightarrow> bool" where
  "starts_with p s \<longleftrightarrow> strip_prefix p s \<noteq> None"

lemma strip_prefix_append [simp]: "strip_prefix p (p @ s) = Some s"
  by (induction p) auto

lemma strip_prefix_Some: "strip_prefix p s = Some r \<longleftrightarrow> s = p @ r"
  by (induction p s rule: strip_prefix.induct) auto

lemma starts_with_iff: "starts_with p s \<longleftrightarrow> (\<exists>r. s = p @ r)"
  by (auto simp: starts_with_def strip_prefix_Some)

text \<open>\<open>str::find\<close> with an ASCII character, and \<open>split_once\<close> at its first occurrence.\<close>

fun find_char :: "char \<Rightarrow> bytes \<Rightarrow> nat option" where
  "find_char c [] = None"
| "find_char c (x # s) = (if x = c then Some 0 else map_option Suc (find_char c s))"

fun split_once :: "char \<Rightarrow> bytes \<Rightarrow> (bytes \<times> bytes) option" where
  "split_once c [] = None"
| "split_once c (x # s) =
     (if x = c then Some ([], s)
      else map_option (\<lambda>(a, b). (x # a, b)) (split_once c s))"

lemma split_once_append [simp]: "c \<notin> set a \<Longrightarrow> split_once c (a @ c # b) = Some (a, b)"
  by (induction a) auto

lemma split_once_None [simp]: "split_once c s = None \<longleftrightarrow> c \<notin> set s"
  by (induction s) auto

lemma split_once_Some: "split_once c s = Some (a, b) \<longleftrightarrow> s = a @ c # b \<and> c \<notin> set a"
proof
  show "split_once c s = Some (a, b) \<Longrightarrow> s = a @ c # b \<and> c \<notin> set a"
    by (induction s arbitrary: a) (auto split: if_splits)
qed simp

lemma find_char_None [simp]: "find_char c s = None \<longleftrightarrow> c \<notin> set s"
  by (induction s) auto

lemma find_char_Some:
  "find_char c s = Some i \<longleftrightarrow> i < length s \<and> s ! i = c \<and> c \<notin> set (take i s)"
proof (induction s arbitrary: i)
  case (Cons x s)
  then show ?case by (cases i) auto
qed simp

text \<open>\<open>str::split\<close> at every occurrence of a character, \<open>join\<close> and \<open>concat\<close>.\<close>

fun split_on :: "char \<Rightarrow> bytes \<Rightarrow> bytes list" where
  "split_on c [] = [[]]"
| "split_on c (x # s) =
     (if x = c then [] # split_on c s
      else (case split_on c s of [] \<Rightarrow> [[x]] | t # ts \<Rightarrow> (x # t) # ts))"

fun join_str :: "bytes \<Rightarrow> bytes list \<Rightarrow> bytes" where
  "join_str sep [] = []"
| "join_str sep [s] = s"
| "join_str sep (s # t # ts) = s @ sep @ join_str sep (t # ts)"

lemma split_on_nonempty [simp]: "split_on c s \<noteq> []"
  by (induction s) (auto split: list.splits)

lemma join_split_on: "join_str [c] (split_on c s) = s"
proof (induction s)
  case (Cons x s)
  then show ?case
    by (cases "split_on c s"; cases "tl (split_on c s)") auto
qed simp

lemma split_plain: "c \<notin> set s \<Longrightarrow> split_on c s = [s]"
  by (induction s) auto

lemma split_append: "c \<notin> set s \<Longrightarrow> split_on c (s @ c # r) = s # split_on c r"
  by (induction s) auto

section \<open>ASCII case\<close>

definition ascii_lower_char :: "char \<Rightarrow> char" where
  "ascii_lower_char c =
     (if 65 \<le> byte_val c \<and> byte_val c \<le> 90 then byte_of (byte_val c + 32) else c)"

definition ascii_upper_char :: "char \<Rightarrow> char" where
  "ascii_upper_char c =
     (if 97 \<le> byte_val c \<and> byte_val c \<le> 122 then byte_of (byte_val c - 32) else c)"

definition ascii_lower :: "bytes \<Rightarrow> bytes" where
  "ascii_lower = map ascii_lower_char"

definition ascii_upper :: "bytes \<Rightarrow> bytes" where
  "ascii_upper = map ascii_upper_char"

definition eq_ignore_ascii_case :: "bytes \<Rightarrow> bytes \<Rightarrow> bool" where
  "eq_ignore_ascii_case a b \<longleftrightarrow> ascii_lower a = ascii_lower b"

lemma ascii_lower_char_idem [simp]: "ascii_lower_char (ascii_lower_char c) = ascii_lower_char c"
  by (simp add: ascii_lower_char_def)

lemma ascii_lower_idem [simp]: "ascii_lower (ascii_lower s) = ascii_lower s"
  by (simp add: ascii_lower_def)

lemma eq_ignore_ascii_case_refl [simp]: "eq_ignore_ascii_case s s"
  by (simp add: eq_ignore_ascii_case_def)

lemma eq_ignore_ascii_case_sym: "eq_ignore_ascii_case a b \<longleftrightarrow> eq_ignore_ascii_case b a"
  by (auto simp: eq_ignore_ascii_case_def)

section \<open>White space\<close>

text \<open>
  The byte length of the Unicode white-space character a string starts with,
  0 if it starts with another character: U+0009 to U+000D, U+0020, U+0085,
  U+00A0, U+1680, U+2000 to U+200A, U+2028, U+2029, U+202F, U+205F, U+3000.
\<close>

fun ws_len :: "bytes \<Rightarrow> nat" where
  "ws_len [] = 0"
| "ws_len (a # s) =
     (if byte_val a = 32 \<or> in_range 9 13 a then 1
      else if byte_val a = 194 then
        (case s of b # _ \<Rightarrow> if byte_val b = 133 \<or> byte_val b = 160 then 2 else 0 | [] \<Rightarrow> 0)
      else if byte_val a = 225 \<or> byte_val a = 226 \<or> byte_val a = 227 then
        (case s of b # c # _ \<Rightarrow>
           if (byte_val a = 225 \<and> byte_val b = 154 \<and> byte_val c = 128) \<or>
              (byte_val a = 226 \<and> byte_val b = 128 \<and>
                 (in_range 128 138 c \<or> byte_val c = 168 \<or> byte_val c = 169 \<or> byte_val c = 175)) \<or>
              (byte_val a = 226 \<and> byte_val b = 129 \<and> byte_val c = 159) \<or>
              (byte_val a = 227 \<and> byte_val b = 128 \<and> byte_val c = 128)
           then 3 else 0
         | _ \<Rightarrow> 0)
      else 0)"

lemma ws_len_pos: "0 < ws_len s \<Longrightarrow> s \<noteq> []"
  by (cases s) auto

text \<open>\<open>trim_start\<close> and \<open>split_whitespace\<close>; \<open>trim\<close> also drops white space at the end.\<close>

function trim_start :: "bytes \<Rightarrow> bytes" where
  "trim_start s = (if ws_len s = 0 then s else trim_start (drop (ws_len s) s))"
  by pat_completeness auto
termination
  by (relation "measure length") (auto simp: ws_len_pos)

function split_ws_aux :: "bytes \<Rightarrow> bytes \<Rightarrow> bytes list" where
  "split_ws_aux cur [] = (if cur = [] then [] else [cur])"
| "split_ws_aux cur (c # s) =
     (if ws_len (c # s) = 0 then split_ws_aux (cur @ [c]) s
      else (if cur = [] then [] else [cur]) @ split_ws_aux [] (drop (ws_len (c # s)) (c # s)))"
  by pat_completeness auto
termination
  by (relation "measure (\<lambda>(cur, s). length s)") auto

definition split_whitespace :: "bytes \<Rightarrow> bytes list" where
  "split_whitespace s = split_ws_aux [] s"

declare trim_start.simps [simp del] split_ws_aux.simps(2) [simp del] ws_len.simps(2) [simp del]

text \<open>A token: no position of it starts a white-space character.\<close>

fun no_ws :: "bytes \<Rightarrow> bool" where
  "no_ws [] = True"
| "no_ws (c # s) = (ws_len (c # s) = 0 \<and> no_ws s)"

lemma ws_len_space: "ws_len (CHR 0x20 # s) = 1"
  by (simp add: ws_len.simps)

lemma ws_len_append_ascii:
  "s \<noteq> [] \<Longrightarrow> ws_len s = 0 \<Longrightarrow> byte_val c < 128 \<Longrightarrow> ws_len (s @ c # r) = 0"
  by (cases s) (auto simp: ws_len.simps in_range_def split: list.splits if_splits)

lemma ws_len_ascii:
  "byte_val c < 128 \<Longrightarrow> ws_len (c # s) = (if byte_val c = 32 \<or> in_range 9 13 c then 1 else 0)"
  by (simp add: ws_len.simps)

lemma split_ws_token:
  "no_ws t \<Longrightarrow> split_ws_aux cur (t @ CHR 0x20 # s) =
     (if cur @ t = [] then [] else [cur @ t]) @ split_ws_aux [] s"
proof (induction t arbitrary: cur)
  case Nil
  then show ?case by (simp add: split_ws_aux.simps ws_len_space)
next
  case (Cons c t)
  then have "ws_len ((c # t) @ CHR 0x20 # s) = 0"
    by (intro ws_len_append_ascii) auto
  with Cons show ?case by (simp add: split_ws_aux.simps)
qed

lemma split_ws_last: "no_ws t \<Longrightarrow> split_ws_aux cur t = (if cur @ t = [] then [] else [cur @ t])"
  by (induction t arbitrary: cur) (auto simp: split_ws_aux.simps)

text \<open>Tokens joined by single spaces are read back.\<close>

lemma split_whitespace_join:
  "(\<And>t. t \<in> set ts \<Longrightarrow> t \<noteq> [] \<and> no_ws t) \<Longrightarrow> split_whitespace (join_str '' '' ts) = ts"
  unfolding split_whitespace_def
proof (induction ts rule: induct_list012)
  case 1
  show ?case by simp
next
  case (2 t)
  then show ?case by (simp add: split_ws_last)
next
  case (3 t u ts)
  then show ?case by (simp add: split_ws_token)
qed

lemma no_ws_append:
  "no_ws a \<Longrightarrow> no_ws b \<Longrightarrow> (\<And>c. c \<in> set a \<Longrightarrow> byte_val c < 128) \<Longrightarrow> no_ws (a @ b)"
  by (induction a) (auto simp: ws_len_ascii split: if_splits)

definition plain_char :: "char \<Rightarrow> bool" where
  "plain_char c \<longleftrightarrow> 32 < byte_val c \<and> byte_val c < 128"

lemma plain_no_ws: "list_all plain_char s \<Longrightarrow> no_ws s"
  by (induction s) (auto simp: plain_char_def in_range_def ws_len_ascii)

lemma trim_start_id: "ws_len s = 0 \<Longrightarrow> trim_start s = s"
  by (subst trim_start.simps) simp

lemma trim_start_space: "trim_start (CHR 0x20 # s) = trim_start s"
  by (subst trim_start.simps) (simp add: ws_len_space)

text \<open>\<open>str::trim\<close>: white space is cut at both ends, character by character.\<close>

definition is_ws_char :: "bytes \<Rightarrow> bool" where
  "is_ws_char c \<longleftrightarrow> c \<noteq> [] \<and> ws_len c = length c"

definition trim_end :: "bytes \<Rightarrow> bytes" where
  "trim_end s = concat (rev (dropWhile is_ws_char (rev (utf8_chars s))))"

definition trim :: "bytes \<Rightarrow> bytes" where
  "trim s = trim_end (trim_start s)"

section \<open>Decimal integers\<close>

text \<open>\<open>Display\<close> of unsigned and signed integers.\<close>

fun show_nat :: "nat \<Rightarrow> bytes" where
  "show_nat n =
     (if n < 10 then [byte_of (48 + n)] else show_nat (n div 10) @ [byte_of (48 + n mod 10)])"

definition show_int :: "int \<Rightarrow> bytes" where
  "show_int i = (if i < 0 then CHR ''-'' # show_nat (nat (- i)) else show_nat (nat i))"

text \<open>
  \<open>FromStr\<close>: an optional sign (a minus only for signed types), at least one
  digit, and an overflow check after every digit; the first error wins.
\<close>

definition digit_val :: "char \<Rightarrow> nat option" where
  "digit_val c = (if in_range 48 57 c then Some (byte_val c - 48) else None)"

fun parse_digits :: "bytes \<Rightarrow> nat \<Rightarrow> nat \<Rightarrow> bytes \<Rightarrow> bytes + nat" where
  "parse_digits ovf lim acc [] = Inr acc"
| "parse_digits ovf lim acc (c # s) =
     (case digit_val c of
        None \<Rightarrow> Inl ''invalid digit found in string''
      | Some d \<Rightarrow>
          if lim < acc * 10 + d then Inl ovf else parse_digits ovf lim (acc * 10 + d) s)"

definition too_large :: bytes where
  "too_large = ''number too large to fit in target type''"

definition too_small :: bytes where
  "too_small = ''number too small to fit in target type''"

definition parse_unsigned :: "nat \<Rightarrow> bytes \<Rightarrow> bytes + nat" where
  "parse_unsigned lim s =
     (case s of
        [] \<Rightarrow> Inl ''cannot parse integer from empty string''
      | c # r \<Rightarrow>
          if (c = CHR ''+'' \<or> c = CHR ''-'') \<and> r = [] then Inl ''invalid digit found in string''
          else parse_digits too_large lim 0 (if c = CHR ''+'' then r else s))"

definition parse_signed :: "nat \<Rightarrow> bytes \<Rightarrow> bytes + int" where
  "parse_signed lim s =
     (case s of
        [] \<Rightarrow> Inl ''cannot parse integer from empty string''
      | c # r \<Rightarrow>
          if (c = CHR ''+'' \<or> c = CHR ''-'') \<and> r = [] then Inl ''invalid digit found in string''
          else if c = CHR ''-'' then
            (case parse_digits too_small (Suc lim) 0 r of Inl e \<Rightarrow> Inl e | Inr n \<Rightarrow> Inr (- int n))
          else
            (case parse_digits too_large lim 0 (if c = CHR ''+'' then r else s) of
               Inl e \<Rightarrow> Inl e | Inr n \<Rightarrow> Inr (int n)))"

definition parse_u8 :: "bytes \<Rightarrow> bytes + u8" where
  "parse_u8 s = (case parse_unsigned 255 s of Inl e \<Rightarrow> Inl e | Inr n \<Rightarrow> Inr (of_nat n))"

definition parse_u16 :: "bytes \<Rightarrow> bytes + u16" where
  "parse_u16 s = (case parse_unsigned 65535 s of Inl e \<Rightarrow> Inl e | Inr n \<Rightarrow> Inr (of_nat n))"

definition parse_u32 :: "bytes \<Rightarrow> bytes + u32" where
  "parse_u32 s = (case parse_unsigned 4294967295 s of Inl e \<Rightarrow> Inl e | Inr n \<Rightarrow> Inr (of_nat n))"

definition parse_i64 :: "bytes \<Rightarrow> bytes + i64" where
  "parse_i64 s =
     (case parse_signed 9223372036854775807 s of Inl e \<Rightarrow> Inl e | Inr n \<Rightarrow> Inr (of_int n))"

declare show_nat.simps [simp del]

lemma digit_val_byte [simp]: "d < 10 \<Longrightarrow> digit_val (byte_of (48 + d)) = Some d"
  by (simp add: digit_val_def in_range_def)

lemma show_nat_digits: "c \<in> set (show_nat n) \<Longrightarrow> in_range 48 57 c"
proof (induction n rule: show_nat.induct)
  case (1 n)
  then show ?case
    by (subst (asm) (2) show_nat.simps) (auto simp: in_range_def split: if_splits)
qed

lemma show_nat_nonempty [simp]: "show_nat n \<noteq> []"
  by (subst show_nat.simps) simp

lemma show_nat_plain: "list_all plain_char (show_nat n)"
  using show_nat_digits by (fastforce simp: list_all_iff plain_char_def in_range_def)

lemma show_nat_no_char: "\<not> in_range 48 57 c \<Longrightarrow> c \<notin> set (show_nat n)"
  using show_nat_digits by blast

lemma show_int_plain: "list_all plain_char (show_int i)"
  by (simp add: show_int_def show_nat_plain plain_char_def)

lemma show_int_nonempty [simp]: "show_int i \<noteq> []"
  by (simp add: show_int_def)

lemma parse_digits_append:
  "parse_digits ovf lim acc a = Inr n \<Longrightarrow>
   parse_digits ovf lim acc (a @ b) = parse_digits ovf lim n b"
  by (induction a arbitrary: acc) (auto split: option.splits if_splits)

lemma parse_digits_show: "n \<le> lim \<Longrightarrow> parse_digits ovf lim 0 (show_nat n) = Inr n"
proof (induction n rule: show_nat.induct)
  case (1 n)
  show ?case
  proof (cases "n < 10")
    case True
    with "1.prems" show ?thesis by (subst show_nat.simps) simp
  next
    case False
    with "1.prems" have "parse_digits ovf lim 0 (show_nat (n div 10)) = Inr (n div 10)"
      by (intro "1.IH") auto
    then show ?thesis using False "1.prems"
      by (subst show_nat.simps) (simp add: parse_digits_append)
  qed
qed

lemma show_nat_head: "\<exists>c r. show_nat n = c # r \<and> in_range 48 57 c"
  using show_nat_digits [of _ n] by (cases "show_nat n") auto

lemma parse_unsigned_show: "n \<le> lim \<Longrightarrow> parse_unsigned lim (show_nat n) = Inr n"
proof -
  assume n: "n \<le> lim"
  obtain c r where s: "show_nat n = c # r" "in_range 48 57 c" using show_nat_head by blast
  then have "c \<noteq> CHR ''+'' \<and> c \<noteq> CHR ''-''" by (auto simp: in_range_def)
  then show ?thesis
    using s(1) parse_digits_show [OF n] by (simp add: parse_unsigned_def)
qed

lemma parse_u8_show [simp]: "parse_u8 (show_nat (unat (x :: u8))) = Inr x"
  using unsigned_less [where 'a = nat, of x] by (simp add: parse_u8_def parse_unsigned_show)

lemma parse_u16_show [simp]: "parse_u16 (show_nat (unat (x :: u16))) = Inr x"
  using unsigned_less [where 'a = nat, of x] by (simp add: parse_u16_def parse_unsigned_show)

lemma parse_u32_show [simp]: "parse_u32 (show_nat (unat (x :: u32))) = Inr x"
  using unsigned_less [where 'a = nat, of x] by (simp add: parse_u32_def parse_unsigned_show)

lemma parse_signed_show:
  assumes "- int (Suc lim) \<le> i" "i \<le> int lim"
  shows "parse_signed lim (show_int i) = Inr i"
proof (cases "i < 0")
  case True
  then have "nat (- i) \<le> Suc lim" using assms by linarith
  then show ?thesis using True
    by (simp add: parse_signed_def show_int_def parse_digits_show)
next
  case False
  then have n: "nat i \<le> lim" using assms by linarith
  obtain c r where s: "show_nat (nat i) = c # r" "in_range 48 57 c" using show_nat_head by blast
  then have "c \<noteq> CHR ''+'' \<and> c \<noteq> CHR ''-''" by (auto simp: in_range_def)
  then show ?thesis using False s(1) parse_digits_show [OF n]
    by (simp add: parse_signed_def show_int_def)
qed

lemma parse_i64_show [simp]: "parse_i64 (show_int (sint (x :: i64))) = Inr x"
  using sint_greater_eq [of x] sint_less [of x]
  by (simp add: parse_i64_def parse_signed_show)

end
