(* ===== verification/E2e_Base.thy ===== *)
theory E2e_Base
  imports Rust_Str
begin

text \<open>
  The foundations of the RPE2E protocol (\<open>src/src/e2e/mod.rs\<close>,
  \<open>error.rs\<close> and \<open>crypto/\<close>): the error type, the protocol constants, the
  keyring context of a conversation, and the wrappers around the third-party
  cryptography.  The primitives themselves (Ed25519, X25519, HKDF, SHA-256,
  XChaCha20-Poly1305, AES-GCM, hex, base64) come from crates: they are the
  fields of the record \<open>crypto\<close>, an argument of every definition that calls
  them.  The predicates at the end state what the crates document.
\<close>

section \<open>Errors and constants\<close>

datatype e2e_error =
    Crypto bytes
  | Wire bytes
  | KeyringErr bytes
  | HandshakeErr bytes
  | PeerNotTrusted bytes bytes
  | HandleMismatch bytes bytes
  | ReplayWindow i64 i64
  | ChunkLimit u8
  | RateLimit bytes
  | Io bytes
  | Sqlite bytes
  | Base64Err bytes
  | HexErr bytes

text \<open>The \<open>Display\<close> of an error.\<close>

definition display_error :: "e2e_error \<Rightarrow> bytes" where
  "display_error e =
     (case e of
        Crypto s \<Rightarrow> ''crypto error: '' @ s
      | Wire s \<Rightarrow> ''wire format parse error: '' @ s
      | KeyringErr s \<Rightarrow> ''keyring error: '' @ s
      | HandshakeErr s \<Rightarrow> ''handshake error: '' @ s
      | PeerNotTrusted h c \<Rightarrow> ''peer not trusted: handle='' @ h @ '' channel='' @ c
      | HandleMismatch x g \<Rightarrow> ''handle mismatch: expected '' @ x @ '', got '' @ g
      | ReplayWindow ts now \<Rightarrow> ''replay window violation: ts='' @ show_int (sint ts) @ '' now='' @ show_int (sint now)
      | ChunkLimit n \<Rightarrow> ''chunk limit exceeded: '' @ show_nat (unat n) @ '' > 16''
      | RateLimit p \<Rightarrow> ''rate limit exceeded for peer '' @ p
      | Io s \<Rightarrow> ''io error: '' @ s
      | Sqlite s \<Rightarrow> ''sqlite error: '' @ s
      | Base64Err s \<Rightarrow> ''base64 error: '' @ s
      | HexErr s \<Rightarrow> ''hex error: '' @ s)"

definition proto :: bytes where
  "proto = ''RPE2E01''"

definition max_chunks :: u8 where
  "max_chunks = 16"

definition max_plaintext_per_chunk :: nat where
  "max_plaintext_per_chunk = 180"

definition default_ts_tolerance_secs :: i64 where
  "default_ts_tolerance_secs = 300"

text \<open>
  The keyring context of a conversation: a channel name as it is, the
  pseudo-channel \<open>@ident@host\<close> for a private message.
\<close>

definition is_channel_target :: "bytes \<Rightarrow> bool" where
  "is_channel_target t \<longleftrightarrow>
     (case t of [] \<Rightarrow> False | c # _ \<Rightarrow> c = CHR ''#'' \<or> c = CHR ''&'' \<or> c = CHR ''!'' \<or> c = CHR ''+'')"

definition context_key :: "bytes \<Rightarrow> bytes \<Rightarrow> bytes" where
  "context_key target peer_handle =
     (if is_channel_target target then target else CHR ''@'' # peer_handle)"

section \<open>Third-party primitives\<close>

record crypto =
  cr_hex_encode :: "bytes \<Rightarrow> bytes"
  cr_hex_decode :: "bytes \<Rightarrow> bytes + bytes"
  cr_b64_encode :: "bytes \<Rightarrow> bytes"
  cr_b64_decode :: "bytes \<Rightarrow> bytes + bytes"
  cr_b64url_encode :: "bytes \<Rightarrow> bytes"
  cr_b64url_decode :: "bytes \<Rightarrow> bytes + bytes"
  cr_sha256 :: "bytes \<Rightarrow> bytes"
  cr_ed_public :: "bytes \<Rightarrow> bytes"
  cr_ed_sign :: "bytes \<Rightarrow> bytes \<Rightarrow> bytes"
  cr_vk_from_bytes :: "bytes \<Rightarrow> bytes + unit"
  cr_ed_verify :: "bytes \<Rightarrow> bytes \<Rightarrow> bytes \<Rightarrow> bytes + unit"
  cr_to_montgomery :: "bytes \<Rightarrow> bytes"
  cr_to_scalar :: "bytes \<Rightarrow> bytes"
  cr_x_public :: "bytes \<Rightarrow> bytes"
  cr_x_dh :: "bytes \<Rightarrow> bytes \<Rightarrow> bytes"
  cr_hkdf :: "bytes \<Rightarrow> bytes \<Rightarrow> bytes \<Rightarrow> bytes"
  cr_aead_encrypt :: "bytes \<Rightarrow> bytes \<Rightarrow> bytes \<Rightarrow> bytes \<Rightarrow> bytes + bytes"
  cr_aead_decrypt :: "bytes \<Rightarrow> bytes \<Rightarrow> bytes \<Rightarrow> bytes \<Rightarrow> bytes + bytes"
  cr_gcm_encrypt :: "bytes \<Rightarrow> bytes \<Rightarrow> bytes \<Rightarrow> bytes + bytes"
  cr_gcm_decrypt :: "bytes \<Rightarrow> bytes \<Rightarrow> bytes \<Rightarrow> bytes + bytes"

section \<open>The wrappers of the crypto modules\<close>

definition key_len :: nat where
  "key_len = 32"

definition nonce_len :: nat where
  "nonce_len = 24"

definition fingerprint :: "crypto \<Rightarrow> bytes \<Rightarrow> bytes" where
  "fingerprint cr pubkey = take 16 (cr_sha256 cr (''RPE2E01-FP:'' @ pubkey))"

definition sig_sign :: "crypto \<Rightarrow> bytes \<Rightarrow> bytes \<Rightarrow> bytes" where
  "sig_sign cr seed msg = cr_ed_sign cr seed msg"

definition sig_verify :: "crypto \<Rightarrow> bytes \<Rightarrow> bytes \<Rightarrow> bytes \<Rightarrow> e2e_error + unit" where
  "sig_verify cr pubkey msg sg =
     bind_res (map_err (\<lambda>e. Crypto (''invalid verifying key: '' @ e)) (cr_vk_from_bytes cr pubkey))
       (\<lambda>_. map_err (\<lambda>e. Crypto (''signature verify: '' @ e)) (cr_ed_verify cr pubkey msg sg))"

text \<open>
  \<open>aead::encrypt\<close> draws a fresh nonce; the model takes the drawn bytes as an
  argument.
\<close>

definition aead_encrypt ::
  "crypto \<Rightarrow> bytes \<Rightarrow> bytes \<Rightarrow> bytes \<Rightarrow> bytes \<Rightarrow> e2e_error + bytes \<times> bytes" where
  "aead_encrypt cr nonce key aad pt =
     bind_res (map_err (\<lambda>e. Crypto (''aead encrypt: '' @ e)) (cr_aead_encrypt cr key nonce aad pt))
       (\<lambda>ct. Inr (nonce, ct))"

definition aead_decrypt ::
  "crypto \<Rightarrow> bytes \<Rightarrow> bytes \<Rightarrow> bytes \<Rightarrow> bytes \<Rightarrow> e2e_error + bytes" where
  "aead_decrypt cr key nonce aad ct =
     map_err (\<lambda>e. Crypto (''aead decrypt: '' @ e)) (cr_aead_decrypt cr key nonce aad ct)"

definition wrap_salt :: bytes where
  "wrap_salt = ''RPE2E01-WRAP''"

definition derive_wrap_key :: "crypto \<Rightarrow> bytes \<Rightarrow> bytes \<Rightarrow> bytes \<Rightarrow> bytes" where
  "derive_wrap_key cr secret peer_pub info = cr_hkdf cr wrap_salt (cr_x_dh cr secret peer_pub) info"

definition ed25519_pub_to_x25519 :: "crypto \<Rightarrow> bytes \<Rightarrow> e2e_error + bytes" where
  "ed25519_pub_to_x25519 cr ed_pub =
     bind_res (map_err (\<lambda>e. Crypto (''invalid ed25519 pub: '' @ e)) (cr_vk_from_bytes cr ed_pub))
       (\<lambda>_. Inr (cr_to_montgomery cr ed_pub))"

definition ed25519_seed_to_x25519 :: "crypto \<Rightarrow> bytes \<Rightarrow> bytes" where
  "ed25519_seed_to_x25519 cr seed = cr_to_scalar cr seed"

definition wrap_info :: "bytes \<Rightarrow> bytes" where
  "wrap_info channel = ''RPE2E01-WRAP:'' @ channel"

definition rekey_info :: "bytes \<Rightarrow> bytes" where
  "rekey_info channel = ''RPE2E01-REKEY:'' @ channel"

section \<open>What the crates document\<close>

text \<open>Encodings are inverted by their decoders and stay in their alphabets.\<close>

definition hex_ok :: "crypto \<Rightarrow> bool" where
  "hex_ok cr \<longleftrightarrow>
     (\<forall>b. cr_hex_decode cr (cr_hex_encode cr b) = Inr b) \<and>
     (\<forall>b. length (cr_hex_encode cr b) = 2 * length b) \<and>
     (\<forall>b. list_all plain_char (cr_hex_encode cr b)) \<and>
     (\<forall>s b. cr_hex_decode cr s = Inr b \<longrightarrow> length s = 2 * length b)"

definition b64_ok :: "crypto \<Rightarrow> bool" where
  "b64_ok cr \<longleftrightarrow>
     (\<forall>b. cr_b64_decode cr (cr_b64_encode cr b) = Inr b) \<and>
     (\<forall>b. list_all (\<lambda>c. plain_char c \<and> c \<noteq> CHR '':'') (cr_b64_encode cr b))"

definition b64url_ok :: "crypto \<Rightarrow> bool" where
  "b64url_ok cr \<longleftrightarrow>
     (\<forall>b. cr_b64url_decode cr (cr_b64url_encode cr b) = Inr b) \<and>
     (\<forall>b. list_all plain_char (cr_b64url_encode cr b))"

text \<open>Authenticated encryption under a 32-byte key and a 24-byte nonce.\<close>

definition aead_ok :: "crypto \<Rightarrow> bool" where
  "aead_ok cr \<longleftrightarrow>
     (\<forall>k n a p. length k = 32 \<longrightarrow> length n = 24 \<longrightarrow> length p \<le> 4096 \<longrightarrow>
        (\<exists>c. cr_aead_encrypt cr k n a p = Inr c \<and> cr_aead_decrypt cr k n a c = Inr p))"

text \<open>Signatures, key agreement and output lengths.\<close>

definition keys_ok :: "crypto \<Rightarrow> bool" where
  "keys_ok cr \<longleftrightarrow>
     (\<forall>s. length s = 32 \<longrightarrow> length (cr_ed_public cr s) = 32) \<and>
     (\<forall>s. length s = 32 \<longrightarrow> cr_vk_from_bytes cr (cr_ed_public cr s) = Inr ()) \<and>
     (\<forall>s m. length s = 32 \<longrightarrow> length (cr_ed_sign cr s m) = 64) \<and>
     (\<forall>s m. length s = 32 \<longrightarrow> cr_ed_verify cr (cr_ed_public cr s) m (cr_ed_sign cr s m) = Inr ()) \<and>
     (\<forall>s. length s = 32 \<longrightarrow> length (cr_x_public cr s) = 32) \<and>
     (\<forall>a b. length a = 32 \<longrightarrow> length b = 32 \<longrightarrow>
        cr_x_dh cr a (cr_x_public cr b) = cr_x_dh cr b (cr_x_public cr a)) \<and>
     (\<forall>s. length s = 32 \<longrightarrow> length (cr_to_scalar cr s) = 32) \<and>
     (\<forall>s. length s = 32 \<longrightarrow> cr_to_montgomery cr (cr_ed_public cr s) = cr_x_public cr (cr_to_scalar cr s)) \<and>
     (\<forall>salt k i. length (cr_hkdf cr salt k i) = 32) \<and>
     (\<forall>m. length (cr_sha256 cr m) = 32)"

lemma fingerprint_length: "keys_ok cr \<Longrightarrow> length (fingerprint cr pk) = 16"
  by (simp add: keys_ok_def fingerprint_def)

lemma sig_verify_sign:
  "keys_ok cr \<Longrightarrow> length seed = 32 \<Longrightarrow>
   sig_verify cr (cr_ed_public cr seed) m (sig_sign cr seed m) = Inr ()"
  by (simp add: keys_ok_def sig_verify_def sig_sign_def)

lemma sig_verify_ok:
  "sig_verify cr pk m sg = Inr u \<longleftrightarrow>
     cr_vk_from_bytes cr pk = Inr () \<and> cr_ed_verify cr pk m sg = Inr ()"
  by (auto simp: sig_verify_def bind_res_Inr_iff)

lemma aead_roundtrip:
  assumes "aead_ok cr" "length k = 32" "length n = 24" "length p \<le> 4096"
  obtains c where "aead_encrypt cr n k a p = Inr (n, c)" "aead_decrypt cr k n a c = Inr p"
proof -
  from assms obtain c where
    "cr_aead_encrypt cr k n a p = Inr c" "cr_aead_decrypt cr k n a c = Inr p"
    unfolding aead_ok_def by blast
  then show thesis by (intro that [of c]) (simp_all add: aead_encrypt_def aead_decrypt_def)
qed

lemma wrap_key_agree:
  "keys_ok cr \<Longrightarrow> length a = 32 \<Longrightarrow> length b = 32 \<Longrightarrow>
   derive_wrap_key cr a (cr_x_public cr b) i = derive_wrap_key cr b (cr_x_public cr a) i"
  by (simp add: keys_ok_def derive_wrap_key_def)

lemma wrap_key_length: "keys_ok cr \<Longrightarrow> length (derive_wrap_key cr a b i) = 32"
  by (simp add: keys_ok_def derive_wrap_key_def)

text \<open>
  A concrete instance of the documented laws, for the witnesses: letters for
  the encodings, a key-and-context prefix as the authentication tag, byte-wise
  addition as the commutative key agreement.
\<close>

fun toy_encode :: "bytes \<Rightarrow> bytes" where
  "toy_encode [] = []"
| "toy_encode (c # s) =
     byte_of (97 + byte_val c div 16) # byte_of (97 + byte_val c mod 16) # toy_encode s"

fun toy_decode :: "bytes \<Rightarrow> bytes + bytes" where
  "toy_decode [] = Inr []"
| "toy_decode [c] = Inl ''odd length''"
| "toy_decode (c # d # s) =
     (if in_range 97 112 c \<and> in_range 97 112 d then
        bind_res (toy_decode s) (\<lambda>r. Inr (byte_of ((byte_val c - 97) * 16 + (byte_val d - 97)) # r))
      else Inl ''invalid character'')"

definition toy_verify :: "bytes \<Rightarrow> bytes \<Rightarrow> bytes \<Rightarrow> bytes + unit" where
  "toy_verify pk m sg = (if sg = pk @ pk then Inr () else Inl ''bad signature'')"

definition toy_open :: "bytes \<Rightarrow> bytes \<Rightarrow> bytes + bytes" where
  "toy_open tag c = (case strip_prefix tag c of None \<Rightarrow> Inl ''bad tag'' | Some p \<Rightarrow> Inr p)"

definition toy_dh :: "bytes \<Rightarrow> bytes \<Rightarrow> bytes" where
  "toy_dh a b = map2 (\<lambda>x y. byte_of (byte_val x + byte_val y)) a b"

definition pad32 :: "bytes \<Rightarrow> bytes" where
  "pad32 s = take 32 (s @ replicate 32 (byte_of 0))"

definition toy_crypto :: crypto where
  "toy_crypto = \<lparr>
     cr_hex_encode = toy_encode, cr_hex_decode = toy_decode,
     cr_b64_encode = toy_encode, cr_b64_decode = toy_decode,
     cr_b64url_encode = toy_encode, cr_b64url_decode = toy_decode,
     cr_sha256 = (\<lambda>m. pad32 (drop 11 m)),
     cr_ed_public = id,
     cr_ed_sign = (\<lambda>s m. s @ s),
     cr_vk_from_bytes = (\<lambda>_. Inr ()),
     cr_ed_verify = toy_verify,
     cr_to_montgomery = id, cr_to_scalar = id,
     cr_x_public = id, cr_x_dh = toy_dh,
     cr_hkdf = (\<lambda>salt k i. pad32 k),
     cr_aead_encrypt = (\<lambda>k n a p. Inr (k @ a @ p)),
     cr_aead_decrypt = (\<lambda>k n a c. toy_open (k @ a) c),
     cr_gcm_encrypt = (\<lambda>k n p. Inr (take 16 k @ p)),
     cr_gcm_decrypt = (\<lambda>k n c. toy_open (take 16 k) c)\<rparr>"

lemma toy_encode_plain: "list_all (\<lambda>c. plain_char c \<and> c \<noteq> CHR '':'') (toy_encode b)"
proof (induction b)
  case (Cons c b)
  have "byte_val c div 16 < 16" by (simp add: less_mult_imp_div_less)
  then have "97 + byte_val c div 16 < 256" "97 + byte_val c mod 16 < 256" by simp_all
  moreover have "byte_val c mod 16 < 16" by simp
  ultimately have "plain_char (byte_of (97 + byte_val c div 16))"
    "plain_char (byte_of (97 + byte_val c mod 16))"
    "byte_of (97 + byte_val c div 16) \<noteq> byte_of 58" "byte_of (97 + byte_val c mod 16) \<noteq> byte_of 58"
    using \<open>byte_val c div 16 < 16\<close> by (simp_all add: plain_char_def byte_of_inject)
  moreover have "byte_of 58 = CHR '':''" by code_simp
  ultimately show ?case using Cons by simp
qed simp

lemma toy_encode_length: "length (toy_encode b) = 2 * length b"
  by (induction b) auto

lemma toy_decode_encode: "toy_decode (toy_encode b) = Inr b"
proof (induction b)
  case (Cons c b)
  have "byte_val c div 16 < 16" by (simp add: less_mult_imp_div_less)
  then have "in_range 97 112 (byte_of (97 + byte_val c div 16))"
    "in_range 97 112 (byte_of (97 + byte_val c mod 16))"
    "byte_val (byte_of (97 + byte_val c div 16)) - 97 = byte_val c div 16"
    "byte_val (byte_of (97 + byte_val c mod 16)) - 97 = byte_val c mod 16"
    by (simp_all add: in_range_def)
  moreover have "byte_val c div 16 * 16 + byte_val c mod 16 = byte_val c" by simp
  ultimately show ?case using Cons by (simp del: of_char_of)
qed simp

lemma toy_decode_length: "toy_decode s = Inr b \<Longrightarrow> length s = 2 * length b"
  by (induction s arbitrary: b rule: toy_decode.induct) (auto simp: bind_res_Inr_iff split: if_splits)

lemma toy_plain: "list_all plain_char (toy_encode b)"
  using toy_encode_plain [of b] by (simp add: list_all_iff)

lemma toy_ok [simp]: "hex_ok toy_crypto" "b64_ok toy_crypto" "b64url_ok toy_crypto"
  using toy_encode_plain toy_plain
  by (auto simp: hex_ok_def b64_ok_def b64url_ok_def toy_crypto_def toy_decode_encode
      toy_encode_length toy_decode_length)

lemma toy_aead_ok [simp]: "aead_ok toy_crypto"
proof -
  have "toy_open (k @ a) (k @ a @ p) = Inr p" for k a p
    using strip_prefix_append [of "k @ a" p] by (simp add: toy_open_def)
  then show ?thesis by (simp add: aead_ok_def toy_crypto_def)
qed

lemma toy_dh_comm: "toy_dh a b = toy_dh b a"
  unfolding toy_dh_def
  by (rule nth_equalityI) (auto simp: add.commute)

lemma pad32_length [simp]: "length (pad32 s) = 32"
  by (simp add: pad32_def)

lemma toy_keys_ok [simp]: "keys_ok toy_crypto"
  by (simp add: keys_ok_def toy_crypto_def toy_verify_def toy_dh_comm)

end
