(* ===== verification/E2e_Chunker.thy ===== *)
theory E2e_Chunker
  imports E2e_Base
begin

text \<open>
  \<open>src/src/e2e/chunker.rs\<close>: cutting a plaintext into at most sixteen pieces
  of at most 180 bytes, each ending at a character boundary.  The two
  \<open>while\<close> loops are recursions; the outer one stops because every round
  that does not return moves the cursor.
\<close>

section \<open>The loops\<close>

definition u8_saturate :: "nat \<Rightarrow> u8" where
  "u8_saturate n = (if n < 256 then of_nat n else 255)"

text \<open>Walk back from \<open>e\<close> to a boundary, but not past the cursor.\<close>

fun walk_back :: "bytes \<Rightarrow> nat \<Rightarrow> nat \<Rightarrow> nat" where
  "walk_back s cursor 0 = 0"
| "walk_back s cursor (Suc e) =
     (if cursor < Suc e \<and> \<not> is_char_boundary s (Suc e) then walk_back s cursor e else Suc e)"

definition chunk_end :: "bytes \<Rightarrow> nat \<Rightarrow> nat" where
  "chunk_end s cursor =
     walk_back s cursor (min (cursor + max_plaintext_per_chunk) (length s))"

definition err_empty_plaintext :: e2e_error where
  "err_empty_plaintext = Wire ''empty plaintext''"

definition err_unsplittable :: e2e_error where
  "err_unsplittable = Wire ''cannot split: single UTF-8 char exceeds chunk budget''"

lemma walk_back_ge: "cursor \<le> e \<Longrightarrow> cursor \<le> walk_back s cursor e"
  by (induction e) auto

lemma walk_back_le: "walk_back s cursor e \<le> e"
  by (induction e) auto

lemma walk_back_boundary: "cursor < walk_back s cursor e \<Longrightarrow> is_char_boundary s (walk_back s cursor e)"
  by (induction e) (auto split: if_splits)

lemma walk_back_max:
  "is_char_boundary s j \<Longrightarrow> cursor \<le> j \<Longrightarrow> j \<le> e \<Longrightarrow> j \<le> walk_back s cursor e"
  by (induction e) (auto simp: le_Suc_eq)

lemma chunk_end_ge: "cursor \<le> length s \<Longrightarrow> cursor \<le> chunk_end s cursor"
  by (simp add: chunk_end_def walk_back_ge)

lemma chunk_end_le: "chunk_end s cursor \<le> length s \<and> chunk_end s cursor \<le> cursor + 180"
  using walk_back_le [of s cursor "min (cursor + max_plaintext_per_chunk) (length s)"]
  by (simp add: chunk_end_def max_plaintext_per_chunk_def)

function chunk_loop :: "bytes \<Rightarrow> nat \<Rightarrow> bytes list \<Rightarrow> e2e_error + bytes list" where
  "chunk_loop s cursor chunks =
     (if cursor < length s then
        let e = chunk_end s cursor in
        if e = cursor then Inl err_unsplittable
        else
          let chunks' = chunks @ [take (e - cursor) (drop cursor s)] in
          if unat max_chunks < length chunks' then Inl (ChunkLimit (u8_saturate (length chunks')))
          else chunk_loop s e chunks'
      else Inr chunks)"
  by pat_completeness auto
termination
proof (relation "measure (\<lambda>(s, cursor, chunks). length s - cursor)")
  show "wf (measure (\<lambda>(s, cursor, chunks). length s - cursor))" by simp
next
  fix s cursor chunks e chunks'
  assume "cursor < length s" "e = chunk_end s cursor" "e \<noteq> cursor"
  moreover have "cursor \<le> chunk_end s cursor"
    using \<open>cursor < length s\<close> by (simp add: chunk_end_ge)
  ultimately have "length s - e < length s - cursor" by linarith
  then show "((s, e, chunks'), s, cursor, chunks)
    \<in> measure (\<lambda>(s, cursor, chunks). length s - cursor)" by simp
qed

declare chunk_loop.simps [simp del]

definition split_plaintext :: "bytes \<Rightarrow> e2e_error + bytes list" where
  "split_plaintext plaintext =
     (if plaintext = [] then Inl err_empty_plaintext
      else bind_res (chunk_loop plaintext 0 [])
        (\<lambda>chunks.
           if unat max_chunks < length chunks
           then Inl (ChunkLimit (u8_saturate (length chunks))) else Inr chunks))"

section \<open>What one round does\<close>

lemma unat_max_chunks [simp]: "unat max_chunks = 16"
  by (simp add: max_chunks_def)

lemma chunk_loop_step:
  assumes "cursor < length s" "chunk_end s cursor \<noteq> cursor" "length chunks < 16"
  shows "chunk_loop s cursor chunks =
           chunk_loop s (chunk_end s cursor)
             (chunks @ [take (chunk_end s cursor - cursor) (drop cursor s)])"
  using assms by (subst chunk_loop.simps) (simp add: Let_def)

lemma chunk_loop_full:
  assumes "cursor < length s" "chunk_end s cursor \<noteq> cursor" "length chunks = 16"
  shows "chunk_loop s cursor chunks = Inl (ChunkLimit 17)"
  using assms by (subst chunk_loop.simps) (simp add: Let_def u8_saturate_def)

text \<open>Valid text always lets the cursor move, by at least 177 bytes or to the end.\<close>

lemma chunk_end_progress:
  assumes v: "utf8_valid (drop cursor s)" and c: "cursor < length s"
  shows "min (cursor + 177) (length s) \<le> chunk_end s cursor" "cursor < chunk_end s cursor"
    "utf8_valid (take (chunk_end s cursor - cursor) (drop cursor s))"
    "utf8_valid (drop (chunk_end s cursor) s)"
proof -
  let ?e = "min (cursor + 180) (length s)"
  have ce: "chunk_end s cursor = walk_back s cursor ?e"
    by (simp add: chunk_end_def max_plaintext_per_chunk_def)
  have lift: "is_char_boundary s (cursor + j)"
    if "is_char_boundary (drop cursor s) j" "j \<noteq> 0" for j
    using that c by (auto simp: is_char_boundary_def split: if_splits)
  show ge: "min (cursor + 177) (length s) \<le> chunk_end s cursor"
  proof (cases "?e = length s")
    case True
    then have "length s \<le> walk_back s cursor (length s)"
      using c boundary_len by (intro walk_back_max) auto
    with True ce show ?thesis by simp
  next
    case False
    then have "180 \<le> length (drop cursor s)" by auto
    from boundary_near [OF v this] obtain j where
      j: "j \<le> 180" "180 < j + 4" "is_char_boundary (drop cursor s) j" by auto
    then have "cursor + j \<le> walk_back s cursor ?e"
      using False by (intro walk_back_max lift) auto
    with j ce show ?thesis by simp
  qed
  with c show gt: "cursor < chunk_end s cursor" by linarith
  then have "is_char_boundary s (chunk_end s cursor)"
    using ce walk_back_boundary [of cursor s ?e] by simp
  then have "is_char_boundary (drop cursor s) (chunk_end s cursor - cursor)"
    using gt c chunk_end_le [of s cursor] by (auto simp: is_char_boundary_def split: if_splits)
  from utf8_valid_split [OF v this] gt
  show "utf8_valid (take (chunk_end s cursor - cursor) (drop cursor s))"
    and "utf8_valid (drop (chunk_end s cursor) s)" by simp_all
qed

section \<open>The loop's result\<close>

definition chunk_ok :: "bytes \<Rightarrow> bool" where
  "chunk_ok c \<longleftrightarrow> c \<noteq> [] \<and> length c \<le> 180"

lemma chunk_loop_sound:
  "cursor \<le> length s \<Longrightarrow> length acc \<le> 16 \<Longrightarrow> chunk_loop s cursor acc = Inr cs \<Longrightarrow>
   \<exists>ds. cs = acc @ ds \<and> concat ds = drop cursor s \<and> list_all chunk_ok ds \<and> length cs \<le> 16"
proof (induction s cursor acc rule: chunk_loop.induct)
  case (1 s cursor acc)
  let ?e = "chunk_end s cursor" and ?c = "take (chunk_end s cursor - cursor) (drop cursor s)"
  show ?case
  proof (cases "cursor < length s")
    case False
    with 1 show ?thesis by (subst (asm) chunk_loop.simps) auto
  next
    case True
    from True "1.prems"(3) have ne: "?e \<noteq> cursor"
      by (subst (asm) chunk_loop.simps) (auto simp: Let_def split: if_splits)
    with True "1.prems" have lt: "length acc < 16"
      using chunk_loop_full [of cursor s acc] by (cases "length acc = 16") auto
    have e: "cursor < ?e" "?e \<le> length s" "?e \<le> cursor + 180"
      using chunk_end_ge [of cursor s] chunk_end_le [of s cursor] ne "1.prems"(1) by linarith+
    from chunk_loop_step [OF True ne lt] "1.prems"(3)
    have step: "chunk_loop s ?e (acc @ [?c]) = Inr cs" by simp
    have "\<exists>ds. cs = (acc @ [?c]) @ ds \<and> concat ds = drop ?e s \<and> list_all chunk_ok ds \<and> length cs \<le> 16"
      using True ne lt e step by (intro "1.IH") auto
    then obtain ds where ds: "cs = acc @ ?c # ds" "concat ds = drop ?e s" "list_all chunk_ok ds"
      "length cs \<le> 16" by auto
    have "?c @ drop ?e s = drop cursor s"
      using e append_take_drop_id [of "?e - cursor" "drop cursor s"] by simp
    moreover have "chunk_ok ?c" using e True by (auto simp: chunk_ok_def)
    ultimately show ?thesis using ds by (intro exI [of _ "?c # ds"]) simp
  qed
qed

lemma chunk_loop_valid:
  "utf8_valid (drop cursor s) \<Longrightarrow> list_all utf8_valid acc \<Longrightarrow> length acc \<le> 16 \<Longrightarrow>
   chunk_loop s cursor acc = Inr cs \<Longrightarrow> list_all utf8_valid cs"
proof (induction s cursor acc rule: chunk_loop.induct)
  case (1 s cursor acc)
  show ?case
  proof (cases "cursor < length s")
    case False
    with 1 show ?thesis by (subst (asm) chunk_loop.simps) auto
  next
    case True
    note p = chunk_end_progress [OF "1.prems"(1) True]
    from True "1.prems" p have lt: "length acc < 16"
      using chunk_loop_full [of cursor s acc] by (cases "length acc = 16") auto
    show ?thesis
      using True p lt "1.prems" chunk_loop_step [OF True _ lt]
      by (intro "1.IH" [OF True refl _ refl]) auto
  qed
qed

text \<open>Enough room for the rest: the loop succeeds; too little: it stops at the limit.\<close>

lemma chunk_loop_succeeds:
  "utf8_valid (drop cursor s) \<Longrightarrow> length acc \<le> 16 \<Longrightarrow>
   length s - cursor \<le> 177 * (16 - length acc) \<Longrightarrow> \<exists>cs. chunk_loop s cursor acc = Inr cs"
proof (induction s cursor acc rule: chunk_loop.induct)
  case (1 s cursor acc)
  show ?case
  proof (cases "cursor < length s")
    case False
    then show ?thesis by (subst chunk_loop.simps) auto
  next
    case True
    note p = chunk_end_progress [OF "1.prems"(1) True]
    from True "1.prems" have lt: "length acc < 16" by (cases "length acc = 16") auto
    have "length s - chunk_end s cursor \<le> 177 * (16 - Suc (length acc))"
      using p(1) "1.prems"(3) lt by (simp add: min_def split: if_splits)
    then have "\<exists>cs. chunk_loop s (chunk_end s cursor)
        (acc @ [take (chunk_end s cursor - cursor) (drop cursor s)]) = Inr cs"
      using True p lt by (intro "1.IH" [OF True refl _ refl]) auto
    with chunk_loop_step [OF True _ lt] p show ?thesis by simp
  qed
qed

lemma chunk_loop_limit:
  "utf8_valid (drop cursor s) \<Longrightarrow> length acc \<le> 16 \<Longrightarrow>
   180 * (16 - length acc) < length s - cursor \<Longrightarrow>
   chunk_loop s cursor acc = Inl (ChunkLimit 17)"
proof (induction s cursor acc rule: chunk_loop.induct)
  case (1 s cursor acc)
  then have c: "cursor < length s" by linarith
  note p = chunk_end_progress [OF "1.prems"(1) c]
  show ?case
  proof (cases "length acc = 16")
    case True
    with c p show ?thesis by (simp add: chunk_loop_full)
  next
    case False
    with "1.prems" have lt: "length acc < 16" by simp
    have "180 * (16 - Suc (length acc)) < length s - chunk_end s cursor"
      using chunk_end_le [of s cursor] "1.prems"(3) lt by linarith
    then have "chunk_loop s (chunk_end s cursor)
        (acc @ [take (chunk_end s cursor - cursor) (drop cursor s)]) = Inl (ChunkLimit 17)"
      using c p lt by (intro "1.IH" [OF c refl _ refl]) auto
    with chunk_loop_step [OF c _ lt] p show ?thesis by simp
  qed
qed

lemma split_errors [simp]:
  "err_unsplittable \<noteq> err_empty_plaintext" "err_empty_plaintext \<noteq> err_unsplittable"
  "ChunkLimit n \<noteq> err_unsplittable"
  by (simp_all add: err_unsplittable_def err_empty_plaintext_def)

lemma chunk_loop_never_stuck:
  "utf8_valid (drop cursor s) \<Longrightarrow> length acc \<le> 16 \<Longrightarrow>
   chunk_loop s cursor acc \<noteq> Inl err_unsplittable"
proof (induction s cursor acc rule: chunk_loop.induct)
  case (1 s cursor acc)
  show ?case
  proof (cases "cursor < length s")
    case False
    then show ?thesis by (subst chunk_loop.simps) simp
  next
    case True
    note p = chunk_end_progress [OF "1.prems"(1) True]
    show ?thesis
    proof (cases "length acc = 16")
      case True2: True
      with True p show ?thesis by (simp add: chunk_loop_full)
    next
      case False
      with "1.prems" have lt: "length acc < 16" by simp
      then have "chunk_loop s (chunk_end s cursor)
          (acc @ [take (chunk_end s cursor - cursor) (drop cursor s)]) \<noteq> Inl err_unsplittable"
        using True p by (intro "1.IH" [OF True refl _ refl]) auto
      with chunk_loop_step [OF True _ lt] p show ?thesis by simp
    qed
  qed
qed

lemma split_plaintext_Inr:
  assumes "split_plaintext s = Inr cs"
  shows "concat cs = s" "list_all chunk_ok cs" "cs \<noteq> []" "length cs \<le> 16"
proof -
  from assms have s: "s \<noteq> []" and r: "chunk_loop s 0 [] = Inr cs"
    by (auto simp: split_plaintext_def bind_res_Inr_iff split: if_splits)
  from chunk_loop_sound [OF _ _ r] show c: "concat cs = s" "list_all chunk_ok cs" "length cs \<le> 16"
    by auto
  with s show "cs \<noteq> []" by auto
qed

lemma split_plaintext_valid:
  "split_plaintext s = Inr cs \<Longrightarrow> utf8_valid s \<Longrightarrow> list_all utf8_valid cs"
  using chunk_loop_valid [of 0 s "[]" cs]
  by (auto simp: split_plaintext_def bind_res_Inr_iff split: if_splits)

text \<open>
  Chunking is lossless.  Whatever \<open>split_plaintext\<close> returns concatenates
  to the input, has between one and sixteen pieces of 1 to 180 bytes each,
  and on text the pieces are themselves text, so each can be rendered alone.
\<close>

theorem chunks_lossless:
  assumes "split_plaintext s = Inr cs"
  shows "concat cs = s \<and> 1 \<le> length cs \<and> length cs \<le> 16 \<and> list_all chunk_ok cs \<and>
         (utf8_valid s \<longrightarrow> list_all utf8_valid cs)"
  using split_plaintext_Inr [OF assms] split_plaintext_valid [OF assms]
  by (simp add: Suc_le_eq)

lemma chunks_lossless_witness:
  "split_plaintext ''hi'' = Inr [''hi''] \<and> concat [''hi''] = ''hi''"
proof -
  have h: "split_plaintext ''hi'' = Inr [''hi'']"
    by (simp add: split_plaintext_def chunk_loop.simps chunk_end_def is_char_boundary_def
        max_plaintext_per_chunk_def numeral_eq_Suc)
  from chunks_lossless [OF h] h show ?thesis by simp
qed

text \<open>
  The size limits.  A non-empty text of at most 2832 bytes (16 times 177,
  a character having at most four bytes) is always cut; one of more than
  2880 bytes is always refused with the chunk limit, never truncated; and the
  "single character exceeds the budget" error cannot occur on text.
\<close>

theorem chunk_limits:
  assumes "utf8_valid s" "s \<noteq> []"
  shows "(length s \<le> 2832 \<longrightarrow> (\<exists>cs. split_plaintext s = Inr cs)) \<and>
         (2880 < length s \<longrightarrow> split_plaintext s = Inl (ChunkLimit 17)) \<and>
         split_plaintext s \<noteq> Inl err_unsplittable"
proof (intro conjI impI)
  assume "length s \<le> 2832"
  then obtain cs where "chunk_loop s 0 [] = Inr cs"
    using chunk_loop_succeeds [of 0 s "[]"] assms by auto
  moreover from this have "length cs \<le> 16" using chunk_loop_sound [of 0 s "[]" cs] by auto
  ultimately show "\<exists>cs. split_plaintext s = Inr cs"
    using assms by (simp add: split_plaintext_def)
next
  assume "2880 < length s"
  then show "split_plaintext s = Inl (ChunkLimit 17)"
    using chunk_loop_limit [of 0 s "[]"] assms by (simp add: split_plaintext_def)
next
  show "split_plaintext s \<noteq> Inl err_unsplittable"
    using chunk_loop_never_stuck [of 0 s "[]"] assms
    by (auto simp: split_plaintext_def bind_res_def split_errors split: sum.splits if_splits)
qed

lemma chunk_limits_witness:
  "(\<exists>cs. split_plaintext ''ok'' = Inr cs) \<and> split_plaintext ''ok'' \<noteq> Inl err_unsplittable"
proof -
  have v: "utf8_valid ''ok''" by (rule ascii_valid) auto
  from chunk_limits [OF v] show ?thesis by simp
qed

end
