(* ===== verification/E2e_Wire.thy ===== *)
theory E2e_Wire
  imports E2e_Base
begin

text \<open>
  \<open>src/src/e2e/wire.rs\<close>: the one-line format of an encrypted chunk and the
  additional authenticated data that binds a ciphertext to its conversation,
  message, time and position.
\<close>

section \<open>Chunks\<close>

record wire_chunk =
  wc_msgid :: bytes
  wc_ts :: i64
  wc_part :: u8
  wc_total :: u8
  wc_nonce :: bytes
  wc_ciphertext :: bytes

definition wire_prefix :: bytes where
  "wire_prefix = ''+RPE2E01''"

definition part_total_ok :: "u8 \<Rightarrow> u8 \<Rightarrow> bool" where
  "part_total_ok part tot \<longleftrightarrow> \<not> (tot = 0 \<or> max_chunks < tot \<or> part = 0 \<or> tot < part)"

definition show_part_total :: "u8 \<Rightarrow> u8 \<Rightarrow> bytes" where
  "show_part_total part tot = show_nat (unat part) @ ''/'' @ show_nat (unat tot)"

definition wire_encode :: "crypto \<Rightarrow> wire_chunk \<Rightarrow> e2e_error + bytes" where
  "wire_encode cr c =
     (if wc_total c = 0 \<or> max_chunks < wc_total c then Inl (ChunkLimit (wc_total c))
      else if wc_part c = 0 \<or> wc_total c < wc_part c then
        Inl (Wire (''invalid part/total: '' @ show_part_total (wc_part c) (wc_total c)))
      else
        Inr (wire_prefix @ '' '' @ cr_hex_encode cr (wc_msgid c)
          @ '' '' @ show_int (sint (wc_ts c))
          @ '' '' @ show_part_total (wc_part c) (wc_total c)
          @ '' '' @ cr_b64_encode cr (wc_nonce c) @ '':'' @ cr_b64_encode cr (wc_ciphertext c)))"

text \<open>The body of \<open>parse\<close> after the four fields have been taken.\<close>

definition wire_parse_fields ::
  "crypto \<Rightarrow> bytes \<Rightarrow> bytes \<Rightarrow> bytes \<Rightarrow> bytes \<Rightarrow> e2e_error + wire_chunk" where
  "wire_parse_fields cr msgid_hex ts_str parttot body =
     bind_res (guard_res (length msgid_hex = 16) (Wire ''msgid must be 16 hex chars'')) (\<lambda>_.
     bind_res (map_err HexErr (cr_hex_decode cr msgid_hex)) (\<lambda>msgid.
     bind_res (map_err (\<lambda>e. Wire (''bad ts: '' @ e)) (parse_i64 ts_str)) (\<lambda>ts.
     bind_res (ok_or (Wire ''part/total missing slash'') (split_once CHR ''/'' parttot)) (\<lambda>(p, t).
     bind_res (map_err (\<lambda>e. Wire (''bad part: '' @ e)) (parse_u8 p)) (\<lambda>part.
     bind_res (map_err (\<lambda>e. Wire (''bad total: '' @ e)) (parse_u8 t)) (\<lambda>tot.
     bind_res (guard_res (part_total_ok part tot)
       (Wire (''bad part/total '' @ show_part_total part tot))) (\<lambda>_.
     bind_res (ok_or (Wire ''missing nonce:ct separator'') (split_once CHR '':'' body))
       (\<lambda>(nonce_b64, ct_b64).
     bind_res (map_err Base64Err (cr_b64_decode cr nonce_b64)) (\<lambda>nonce.
     bind_res (guard_res (length nonce = 24)
       (Wire (''nonce must be 24 bytes, got '' @ show_nat (length nonce)))) (\<lambda>_.
     bind_res (map_err Base64Err (cr_b64_decode cr ct_b64)) (\<lambda>ciphertext.
     Inr \<lparr>wc_msgid = msgid, wc_ts = ts, wc_part = part, wc_total = tot,
          wc_nonce = nonce, wc_ciphertext = ciphertext\<rparr>)))))))))))"

definition wire_parse :: "crypto \<Rightarrow> bytes \<Rightarrow> e2e_error + wire_chunk option" where
  "wire_parse cr line =
     (case strip_prefix wire_prefix line of
        None \<Rightarrow> Inr None
      | Some r \<Rightarrow>
          (case split_whitespace (trim_start r) of
             [] \<Rightarrow> Inl (Wire ''missing msgid'')
           | [a] \<Rightarrow> Inl (Wire ''missing ts'')
           | [a, b] \<Rightarrow> Inl (Wire ''missing part/total'')
           | [a, b, c] \<Rightarrow> Inl (Wire ''missing body'')
           | [a, b, c, d] \<Rightarrow> bind_res (wire_parse_fields cr a b c d) (\<lambda>w. Inr (Some w))
           | _ \<Rightarrow> Inl (Wire ''extra fields'')))"

section \<open>Additional authenticated data\<close>

text \<open>\<open>to_be_bytes\<close> of a \<open>k\<close>-byte integer.\<close>

fun be_bytes :: "nat \<Rightarrow> nat \<Rightarrow> bytes" where
  "be_bytes 0 n = []"
| "be_bytes (Suc k) n = be_bytes k (n div 256) @ [byte_of n]"

definition be16 :: "nat \<Rightarrow> bytes" where
  "be16 n = be_bytes 2 n"

definition be64 :: "i64 \<Rightarrow> bytes" where
  "be64 w = be_bytes 8 (unat w)"

definition build_aad :: "bytes \<Rightarrow> bytes \<Rightarrow> i64 \<Rightarrow> u8 \<Rightarrow> u8 \<Rightarrow> bytes" where
  "build_aad channel msgid ts part tot =
     proto
     @ be16 (if length channel \<le> 65535 then length channel else 65535) @ channel
     @ be16 8 @ msgid
     @ be16 8 @ be64 ts
     @ be16 1 @ [byte_of (unat part)]
     @ be16 1 @ [byte_of (unat tot)]"

lemma be_bytes_length [simp]: "length (be_bytes k n) = k"
  by (induction k arbitrary: n) auto

lemma be_lengths [simp]: "length (be16 n) = 2" "length (be64 w) = 8"
  by (simp_all add: be16_def be64_def)

lemma be_bytes_inject:
  "m < 256 ^ k \<Longrightarrow> n < 256 ^ k \<Longrightarrow> be_bytes k m = be_bytes k n \<Longrightarrow> m = n"
proof (induction k arbitrary: m n)
  case (Suc k)
  from Suc.prems(3) have b: "be_bytes k (m div 256) = be_bytes k (n div 256)" "m mod 256 = n mod 256"
    by (auto simp: char_of_eq_iff take_bit_eq_mod)
  have "m div 256 < 256 ^ k" "n div 256 < 256 ^ k"
    using Suc.prems(1,2) by (simp_all add: less_mult_imp_div_less mult.commute)
  with Suc.IH b(1) have "m div 256 = n div 256" by blast
  with b(2) show ?case by (metis div_mult_mod_eq)
qed simp

lemma be64_inject [simp]: "be64 x = be64 y \<longleftrightarrow> x = y"
proof
  assume "be64 x = be64 y"
  then have "be_bytes 8 (unat x) = be_bytes 8 (unat y)" by (simp add: be64_def)
  then have "unat x = unat y"
    using unsigned_less [where 'a = nat, of x] unsigned_less [where 'a = nat, of y]
    by (intro be_bytes_inject [of _ 8]) simp_all
  then show "x = y" by (simp add: word_unat_eq_iff)
qed simp

lemma unat_u8_mod [simp]: "unat (x :: u8) mod 256 = unat x"
  using unsigned_less [where 'a = nat, of x] by simp

lemma byte_of_unat_inject [simp]: "byte_of (unat x) = byte_of (unat y) \<longleftrightarrow> x = (y :: u8)"
  using unsigned_less [where 'a = nat, of x] unsigned_less [where 'a = nat, of y]
  by (simp add: byte_of_inject word_unat_eq_iff)

text \<open>
  The authenticated data determines everything it binds.  Two chunks with
  the same data have the same conversation, message id, time stamp, part and
  total, whatever bytes the channel name holds, so no channel name shifts a
  later field, not even one too long for its length prefix.
\<close>

theorem aad_injective:
  assumes "length m1 = 8" "length m2 = 8"
  shows "build_aad c1 m1 t1 p1 n1 = build_aad c2 m2 t2 p2 n2 \<longleftrightarrow>
         c1 = c2 \<and> m1 = m2 \<and> t1 = t2 \<and> p1 = p2 \<and> n1 = n2"
proof
  assume eq: "build_aad c1 m1 t1 p1 n1 = build_aad c2 m2 t2 p2 n2"
  from arg_cong [OF eq, of length] have l: "length c1 = length c2"
    using assms by (simp add: build_aad_def)
  with eq assms show "c1 = c2 \<and> m1 = m2 \<and> t1 = t2 \<and> p1 = p2 \<and> n1 = n2"
    by (simp add: build_aad_def word_unat_eq_iff)
qed simp

lemma aad_injective_witness:
  "length ''abcdefgh'' = 8 \<and> build_aad ''#a'' ''abcdefgh'' 1 1 1 \<noteq> build_aad ''#a:b'' ''abcdefgh'' 1 1 1"
  using aad_injective [of "''abcdefgh''" "''abcdefgh''" "''#a''" 1 1 1 "''#a:b''" 1 1 1] by simp

section \<open>Parsing what was encoded\<close>

definition wire_wf :: "wire_chunk \<Rightarrow> bool" where
  "wire_wf c \<longleftrightarrow> length (wc_msgid c) = 8 \<and> length (wc_nonce c) = 24 \<and>
     part_total_ok (wc_part c) (wc_total c)"

lemma wire_encode_Inr:
  "wire_encode cr c = Inr s \<longleftrightarrow>
     part_total_ok (wc_part c) (wc_total c) \<and>
     s = wire_prefix @ '' '' @ join_str '' ''
       [cr_hex_encode cr (wc_msgid c), show_int (sint (wc_ts c)),
        show_part_total (wc_part c) (wc_total c),
        cr_b64_encode cr (wc_nonce c) @ '':'' @ cr_b64_encode cr (wc_ciphertext c)]"
  by (auto simp: wire_encode_def part_total_ok_def)

lemma show_part_total_plain: "list_all plain_char (show_part_total p t)"
  by (simp add: show_part_total_def show_nat_plain plain_char_def)

lemma split_part_total [simp]:
  "split_once CHR ''/'' (show_part_total p t) = Some (show_nat (unat p), show_nat (unat t))"
proof -
  have "CHR ''/'' \<notin> set (show_nat (unat p))"
    by (rule show_nat_no_char) (simp add: in_range_def)
  then show ?thesis by (simp add: show_part_total_def)
qed

lemma wire_parse_encode:
  assumes ok: "hex_ok cr" "b64_ok cr"
    and len: "length (wc_msgid c) = 8" "length (wc_nonce c) = 24"
    and enc: "wire_encode cr c = Inr line"
  shows "wire_parse cr line = Inr (Some c)"
proof -
  let ?ts = "[cr_hex_encode cr (wc_msgid c), show_int (sint (wc_ts c)),
        show_part_total (wc_part c) (wc_total c),
        cr_b64_encode cr (wc_nonce c) @ '':'' @ cr_b64_encode cr (wc_ciphertext c)]"
  from enc have pt: "part_total_ok (wc_part c) (wc_total c)"
    and line: "line = wire_prefix @ '' '' @ join_str '' '' ?ts" by (auto simp: wire_encode_Inr)
  have hexl: "length (cr_hex_encode cr (wc_msgid c)) = 16" using ok len by (simp add: hex_ok_def)
  have plain: "t \<noteq> [] \<and> list_all plain_char t" if "t \<in> set ?ts" for t
  proof -
    have "list_all plain_char (cr_b64_encode cr (wc_nonce c) @ '':'' @ cr_b64_encode cr (wc_ciphertext c))"
      using ok by (auto simp: b64_ok_def list_all_iff plain_char_def)
    moreover have "list_all plain_char (cr_hex_encode cr (wc_msgid c))"
      using ok by (simp add: hex_ok_def)
    moreover have "cr_hex_encode cr (wc_msgid c) \<noteq> []" using hexl by (metis list.size(3) zero_neq_numeral)
    moreover have "show_part_total (wc_part c) (wc_total c) \<noteq> []" by (simp add: show_part_total_def)
    ultimately show ?thesis using that show_int_plain show_part_total_plain by auto
  qed
  then have "t \<noteq> [] \<and> no_ws t" if "t \<in> set ?ts" for t
    using that plain_no_ws by blast
  then have split: "split_whitespace (join_str '' '' ?ts) = ?ts"
    by (rule split_whitespace_join)
  have "ws_len (join_str '' '' ?ts) = 0"
  proof -
    obtain a r where ar: "cr_hex_encode cr (wc_msgid c) = a # r"
      using hexl by (cases "cr_hex_encode cr (wc_msgid c)") auto
    then have "plain_char a" using plain [of "a # r"] by simp
    then show ?thesis by (simp add: ar ws_len_ascii plain_char_def in_range_def)
  qed
  then have "trim_start ('' '' @ join_str '' '' ?ts) = join_str '' '' ?ts"
    by (simp add: trim_start_space trim_start_id del: join_str.simps)
  with split have parse: "wire_parse cr line =
      bind_res (wire_parse_fields cr (?ts ! 0) (?ts ! 1) (?ts ! 2) (?ts ! 3)) (\<lambda>w. Inr (Some w))"
    by (simp add: wire_parse_def line del: join_str.simps)
  have colon: "CHR '':'' \<notin> set (cr_b64_encode cr (wc_nonce c))"
    using ok by (auto simp: b64_ok_def list_all_iff)
  have "wire_parse_fields cr (?ts ! 0) (?ts ! 1) (?ts ! 2) (?ts ! 3) = Inr c"
    using ok len hexl pt colon by (simp add: wire_parse_fields_def hex_ok_def b64_ok_def)
  with parse show ?thesis by simp
qed

text \<open>
  C24: the wire format is read back.  A chunk with an 8-byte message id and a
  24-byte nonce that can be encoded is parsed to exactly itself.
\<close>

theorem wire_roundtrip:
  assumes ok: "hex_ok cr" "b64_ok cr"
    and len: "length (wc_msgid c) = 8" "length (wc_nonce c) = 24"
    and enc: "wire_encode cr c = Inr line"
  shows "wire_parse cr line = Inr (Some c)"
  using assms by (rule wire_parse_encode)

definition example_chunk :: wire_chunk where
  "example_chunk = \<lparr>wc_msgid = ''abcdefgh'', wc_ts = 1712000000, wc_part = 1, wc_total = 2,
     wc_nonce = ''abcdefghijklmnopqrstuvwx'', wc_ciphertext = ''zz''\<rparr>"

lemma wire_roundtrip_witness:
  "\<exists>line. wire_encode toy_crypto example_chunk = Inr line \<and>
     wire_parse toy_crypto line = Inr (Some example_chunk)"
proof -
  have "\<exists>line. wire_encode toy_crypto example_chunk = Inr line"
    by (simp add: wire_encode_Inr part_total_ok_def max_chunks_def example_chunk_def)
  then obtain line where l: "wire_encode toy_crypto example_chunk = Inr line" ..
  have "length (wc_msgid example_chunk) = 8" "length (wc_nonce example_chunk) = 24"
    by (simp_all add: example_chunk_def)
  with wire_roundtrip [OF toy_ok(1,2) _ _ l] l show ?thesis by blast
qed

lemma wire_parse_Some:
  "wire_parse cr line = Inr (Some c) \<Longrightarrow>
     \<exists>h t p b. wire_parse_fields cr h t p b = Inr c \<and> (\<exists>r. line = wire_prefix @ r)"
  by (auto simp: wire_parse_def bind_res_Inr_iff strip_prefix_Some
      split: option.splits list.splits)

lemma wire_parse_fields_wf:
  "hex_ok cr \<Longrightarrow> wire_parse_fields cr h t p b = Inr c \<Longrightarrow> wire_wf c"
  by (auto simp: wire_parse_fields_def bind_res_Inr_iff wire_wf_def hex_ok_def)

text \<open>
  What the parser accepts is well formed.  A line is cleartext exactly
  when it lacks the prefix; every accepted chunk has an 8-byte id, a 24-byte
  nonce and a position within a message of at most sixteen parts, so it can
  be encoded again, and the new line parses to the same chunk.
\<close>

theorem wire_parse_wellformed:
  assumes "hex_ok cr" "b64_ok cr"
  shows "(wire_parse cr line = Inr None \<longleftrightarrow> \<not> starts_with wire_prefix line) \<and>
         (wire_parse cr line = Inr (Some c) \<longrightarrow>
            wire_wf c \<and> (\<exists>line'. wire_encode cr c = Inr line' \<and> wire_parse cr line' = Inr (Some c)))"
proof (intro conjI impI)
  show "wire_parse cr line = Inr None \<longleftrightarrow> \<not> starts_with wire_prefix line"
    by (auto simp: wire_parse_def starts_with_def bind_res_Inr_iff split: option.splits list.splits)
next
  assume "wire_parse cr line = Inr (Some c)"
  then show wf: "wire_wf c" using wire_parse_Some wire_parse_fields_wf assms(1) by blast
  then obtain line' where l: "wire_encode cr c = Inr line'"
    by (auto simp: wire_encode_Inr wire_wf_def)
  with wf assms wire_parse_encode [OF assms _ _ l]
  show "\<exists>line'. wire_encode cr c = Inr line' \<and> wire_parse cr line' = Inr (Some c)"
    by (auto simp: wire_wf_def)
qed

lemma wire_parse_wellformed_witness:
  "wire_parse toy_crypto ''hello'' = Inr None \<longleftrightarrow> \<not> starts_with wire_prefix ''hello''"
  using wire_parse_wellformed [OF toy_ok(1,2), of "''hello''"] by blast

end
