(* ===== verification/Limiter.thy ===== *)
theory Limiter
  imports Prelude
begin

text \<open>
  The contract the rate limiters of the program share, and the bound it gives.

  \<open>RateLimiter::allow_incoming\<close> (\<open>src/src/e2e/handshake.rs\<close>) and the checks
  of \<open>FloodState\<close> (\<open>src/src/irc/flood.rs\<close>) keep, for every key, the recent
  times at which a call was let through and a time until which everything is
  refused.  The locale states what such a limiter does with one call; from it
  follows, once, that no closed window of its length ever contains more
  accepted calls of a key than its limit, however the calls of different keys
  interleave.
\<close>

section \<open>Runs\<close>

text \<open>The calls that a sequence of calls with their times lets through.\<close>

fun accepted ::
  "('k \<Rightarrow> instant \<Rightarrow> 's \<Rightarrow> bool \<times> 's) \<Rightarrow> ('k \<times> instant) list \<Rightarrow> 's \<Rightarrow> ('k \<times> instant) list" where
  "accepted step [] s = []"
| "accepted step ((k, now) # evs) s =
     (if fst (step k now s) then [(k, now)] else []) @ accepted step evs (snd (step k now s))"

definition in_window :: "nat \<Rightarrow> instant \<Rightarrow> instant \<Rightarrow> bool" where
  "in_window W now t \<longleftrightarrow> now \<le> t + W"

definition times_of :: "'k \<Rightarrow> ('k \<times> instant) list \<Rightarrow> instant list" where
  "times_of k evs = map snd (filter (\<lambda>e. fst e = k) evs)"

definition window_count :: "nat \<Rightarrow> instant \<Rightarrow> instant list \<Rightarrow> nat" where
  "window_count W u ts = length (filter (\<lambda>t. u \<le> t \<and> t \<le> u + W) ts)"

lemma window_now [simp]: "in_window W now now"
  by (simp add: in_window_def)

lemma times_of_simps [simp]:
  "times_of k [] = []"
  "times_of k ((k', t) # evs) = (if k' = k then t # times_of k evs else times_of k evs)"
  "times_of k (as @ bs) = times_of k as @ times_of k bs"
  by (simp_all add: times_of_def)

text \<open>A limiter that works on an image of its keys and on a part of its state.\<close>

lemma accepted_sim:
  assumes "\<And>k now s. fst (f k now s) = fst (g (h k) now (p s))"
    and "\<And>k now s. p (snd (f k now s)) = snd (g (h k) now (p s))"
  shows "map (apfst h) (accepted f evs s) = accepted g (map (apfst h) evs) (p s)"
proof (induction evs arbitrary: s)
  case (Cons e evs)
  then show ?case using assms by (cases e) simp
qed simp

lemma window_count_image:
  "window_count W u (times_of k evs) \<le> window_count W u (times_of (h k) (map (apfst h) evs))"
  by (induction evs) (auto simp: window_count_def times_of_def)

text \<open>What a sequence of calls answers.\<close>

fun outcomes :: "('k \<Rightarrow> instant \<Rightarrow> 's \<Rightarrow> 'r \<times> 's) \<Rightarrow> ('k \<times> instant) list \<Rightarrow> 's \<Rightarrow> ('k \<times> 'r) list" where
  "outcomes step [] s = []"
| "outcomes step ((k, now) # evs) s = (k, fst (step k now s)) # outcomes step evs (snd (step k now s))"

lemma outcomes_sim:
  assumes "\<And>k now s. fst (f k now s) = fst (g k now (p s))"
    and "\<And>k now s. p (snd (f k now s)) = snd (g k now (p s))"
  shows "outcomes f evs s = outcomes g evs (p s)"
proof (induction evs arbitrary: s)
  case (Cons e evs)
  then show ?case using assms by (cases e) simp
qed simp

lemma filter_window_mono:
  "filter (in_window W now) xs = filter (in_window W now) ys \<Longrightarrow> now \<le> now' \<Longrightarrow>
   filter (in_window W now') xs = filter (in_window W now') ys"
proof -
  assume eq: "filter (in_window W now) xs = filter (in_window W now) ys" and le: "now \<le> now'"
  have "filter (in_window W now') zs = filter (in_window W now') (filter (in_window W now) zs)" for zs
    using le by (auto simp: in_window_def intro!: filter_cong)
  then show ?thesis using eq by metis
qed

lemma window_count_snoc:
  assumes "window_count W u ts \<le> N" and "length (filter (in_window W now) ts) < N"
  shows "window_count W u (ts @ [now]) \<le> N"
proof (cases "u \<le> now \<and> now \<le> u + W")
  case True
  have "filter (\<lambda>t. u \<le> t \<and> t \<le> u + W) ts =
      filter (\<lambda>t. u \<le> t \<and> t \<le> u + W) (filter (in_window W now) ts)"
    using True by (auto simp: in_window_def intro!: filter_cong)
  then have "window_count W u ts < N"
    using assms(2) length_filter_le [of "\<lambda>t. u \<le> t \<and> t \<le> u + W" "filter (in_window W now) ts"]
    by (simp add: window_count_def)
  then show ?thesis by (simp add: window_count_def)
qed (use assms(1) in \<open>auto simp: window_count_def\<close>)

text \<open>Evicting from the front of an ordered queue is filtering.\<close>

lemma dropWhile_filter_sorted:
  "sorted ts \<Longrightarrow> (\<And>a b. a \<le> b \<Longrightarrow> P b \<Longrightarrow> P a) \<Longrightarrow> dropWhile P ts = filter (\<lambda>t. \<not> P t) ts"
proof (induction ts)
  case (Cons a ts)
  show ?case
  proof (cases "P a")
    case False
    then have "\<not> P b" if "b \<in> set ts" for b using that Cons.prems by auto
    then show ?thesis using False by (simp add: filter_id_conv)
  qed (use Cons in auto)
qed simp

section \<open>The contract\<close>

locale limiter =
  fixes step :: "'k \<Rightarrow> instant \<Rightarrow> 's \<Rightarrow> bool \<times> 's"
    and gate :: "'s \<Rightarrow> 'k \<Rightarrow> instant option"
    and recent :: "'s \<Rightarrow> 'k \<Rightarrow> instant list"
    and inv :: "'s \<Rightarrow> instant \<Rightarrow> bool"
    and W :: nat and N :: nat and base :: instant
  assumes inv_step: "inv s prev \<Longrightarrow> prev \<le> now \<Longrightarrow> base \<le> now \<Longrightarrow> inv (snd (step k now s)) now"
    and closed: "inv s prev \<Longrightarrow> prev \<le> now \<Longrightarrow> base \<le> now \<Longrightarrow> gate s k = Some u \<Longrightarrow> now < u \<Longrightarrow>
      \<not> fst (step k now s)"
    and open_accept: "inv s prev \<Longrightarrow> prev \<le> now \<Longrightarrow> base \<le> now \<Longrightarrow> fst (step k now s) \<Longrightarrow>
      length (filter (in_window W now) (if gate s k = None then recent s k else [])) < N \<and>
      gate (snd (step k now s)) k = None \<and>
      filter (in_window W now) (recent (snd (step k now s)) k) =
        filter (in_window W now) (if gate s k = None then recent s k else []) @ [now]"
    and refuse: "inv s prev \<Longrightarrow> prev \<le> now \<Longrightarrow> base \<le> now \<Longrightarrow> \<not> fst (step k now s) \<Longrightarrow>
      (\<exists>u. gate (snd (step k now s)) k = Some u \<and> (now + W < u \<or> gate s k = Some u)) \<or>
      (gate (snd (step k now s)) k = None \<and> gate s k = None \<and>
        filter (in_window W now) (recent (snd (step k now s)) k) = filter (in_window W now) (recent s k))"
    and others: "inv s prev \<Longrightarrow> prev \<le> now \<Longrightarrow> base \<le> now \<Longrightarrow> k' \<noteq> k \<Longrightarrow>
      (gate (snd (step k now s)) k' = gate s k' \<and>
       (gate s k' = None \<longrightarrow>
        filter (in_window W now) (recent (snd (step k now s)) k') = filter (in_window W now) (recent s k'))) \<or>
      (\<exists>u\<le>now. gate s k' = Some u \<and> gate (snd (step k now s)) k' = None \<and>
        filter (in_window W now) (recent (snd (step k now s)) k') = [])"
begin

text \<open>
  The queue of a key whose gate is open holds exactly its accepted calls that
  are still in the window; a closed gate opens only after all have left it.
\<close>

definition covers :: "'s \<Rightarrow> ('k \<times> instant) list \<Rightarrow> instant \<Rightarrow> bool" where
  "covers s acc now \<longleftrightarrow>
     (\<forall>k. case gate s k of
        Some u \<Rightarrow> \<forall>t\<in>set (times_of k acc). t + W < u
      | None \<Rightarrow> filter (in_window W now) (times_of k acc) = filter (in_window W now) (recent s k))"

lemma covers_Some: "covers s acc now \<Longrightarrow> gate s k = Some u \<Longrightarrow> t \<in> set (times_of k acc) \<Longrightarrow> t + W < u"
  unfolding covers_def by (drule spec [of _ k]) simp

lemma covers_None:
  "covers s acc now \<Longrightarrow> gate s k = None \<Longrightarrow>
   filter (in_window W now) (times_of k acc) = filter (in_window W now) (recent s k)"
  unfolding covers_def by (drule spec [of _ k]) simp

lemma coversI:
  assumes "\<And>k u t. gate s k = Some u \<Longrightarrow> t \<in> set (times_of k acc) \<Longrightarrow> t + W < u"
    and "\<And>k. gate s k = None \<Longrightarrow>
      filter (in_window W now) (times_of k acc) = filter (in_window W now) (recent s k)"
  shows "covers s acc now"
  unfolding covers_def
proof
  fix k
  show "case gate s k of
      Some u \<Rightarrow> \<forall>t\<in>set (times_of k acc). t + W < u
    | None \<Rightarrow> filter (in_window W now) (times_of k acc) = filter (in_window W now) (recent s k)"
    using assms(1) [of k] assms(2) [of k] by (cases "gate s k") auto
qed

lemma covers_out:
  assumes "covers s acc prev" "gate s k = Some u" "u \<le> now"
  shows "filter (in_window W now) (times_of k acc) = []"
proof -
  have "\<not> in_window W now t" if "t \<in> set (times_of k acc)" for t
    using covers_Some [OF assms(1,2) that] assms(3) by (simp add: in_window_def)
  then show ?thesis by (simp add: filter_empty_conv)
qed

lemma covers_eff:
  assumes "covers s acc prev" "prev \<le> now" "\<And>u. gate s k = Some u \<Longrightarrow> u \<le> now"
  shows "filter (in_window W now) (times_of k acc) =
         filter (in_window W now) (if gate s k = None then recent s k else [])"
proof (cases "gate s k")
  case None
  from filter_window_mono [OF covers_None [OF assms(1) None] assms(2)] None show ?thesis by simp
next
  case (Some u)
  from covers_out [OF assms(1) Some assms(3)] Some show ?thesis by simp
qed

lemma accept_open:
  "inv s prev \<Longrightarrow> prev \<le> now \<Longrightarrow> base \<le> now \<Longrightarrow> fst (step k now s) \<Longrightarrow> gate s k = Some u \<Longrightarrow> u \<le> now"
  using closed not_less by blast

lemma covers_step:
  assumes i: "inv s prev" and c: "covers s acc prev" and le: "prev \<le> now" "base \<le> now"
    and past: "\<forall>e\<in>set acc. snd e \<le> prev"
  shows "covers (snd (step k now s)) (acc @ (if fst (step k now s) then [(k, now)] else [])) now"
    (is "covers ?s ?acc now")
proof (rule coversI)
  fix k' u t
  assume g: "gate ?s k' = Some u" and t: "t \<in> set (times_of k' ?acc)"
  show "t + W < u"
  proof (cases "k' = k")
    case True
    then have n: "\<not> fst (step k now s)" using open_accept [OF i le] g by auto
    then have t': "t \<in> set (times_of k acc)" using t True by simp
    then have "t \<le> prev" using past by (auto simp: times_of_def)
    moreover have "now + W < u \<or> gate s k = Some u" using refuse [OF i le n] g True by auto
    ultimately show ?thesis using covers_Some [OF c _ t'] le by auto
  next
    case False
    then have t': "t \<in> set (times_of k' acc)" using t by (auto split: if_splits)
    have "gate s k' = Some u" using others [OF i le False] g by auto
    then show ?thesis using covers_Some [OF c _ t'] by blast
  qed
next
  fix k'
  assume g: "gate ?s k' = None"
  show "filter (in_window W now) (times_of k' ?acc) = filter (in_window W now) (recent ?s k')"
  proof (cases "k' = k")
    case True
    show ?thesis
    proof (cases "fst (step k now s)")
      case False
      then have "gate s k = None"
        "filter (in_window W now) (recent ?s k) = filter (in_window W now) (recent s k)"
        using refuse [OF i le False] g True by auto
      then show ?thesis using True False filter_window_mono [OF covers_None [OF c] le(1), of k] by simp
    next
    case a: True
    from covers_eff [OF c le(1) accept_open [OF i le a]]
    have "filter (in_window W now) (times_of k ?acc) =
        filter (in_window W now) (if gate s k = None then recent s k else []) @ [now]"
      using a by (simp add: in_window_def)
    also have "\<dots> = filter (in_window W now) (recent ?s k)" using open_accept [OF i le a] by simp
    finally show ?thesis using True by simp
    qed
  next
    case False
    then have eq: "times_of k' ?acc = times_of k' acc" by auto
    from others [OF i le False] show ?thesis
    proof
      assume "gate ?s k' = gate s k' \<and> (gate s k' = None \<longrightarrow>
        filter (in_window W now) (recent ?s k') = filter (in_window W now) (recent s k'))"
      then show ?thesis using g eq filter_window_mono [OF covers_None [OF c] le(1)] by auto
    next
      assume "\<exists>u\<le>now. gate s k' = Some u \<and> gate ?s k' = None \<and> filter (in_window W now) (recent ?s k') = []"
      then show ?thesis using eq covers_out [OF c] by auto
    qed
  qed
qed

lemma count_step:
  assumes i: "inv s prev" and c: "covers s acc prev" and le: "prev \<le> now" "base \<le> now"
    and b: "\<And>k u. window_count W u (times_of k acc) \<le> N"
  shows "window_count W u (times_of k (acc @ (if fst (step k0 now s) then [(k0, now)] else []))) \<le> N"
proof (cases "k = k0 \<and> fst (step k0 now s)")
  case True
  then have a: "fst (step k0 now s)" by simp
  have "length (filter (in_window W now) (times_of k0 acc)) < N"
    using covers_eff [OF c le(1) accept_open [OF i le a]] open_accept [OF i le a] by simp
  then show ?thesis using window_count_snoc [OF b] True by simp
qed (use b in auto)

theorem window_bound:
  assumes "inv s prev" "covers s acc prev" "\<forall>e\<in>set acc. snd e \<le> prev"
    and "\<And>k u. window_count W u (times_of k acc) \<le> N"
    and "sorted (prev # map snd evs)" "\<forall>e\<in>set evs. base \<le> snd e"
  shows "window_count W u (times_of k (acc @ accepted step evs s)) \<le> N"
  using assms
proof (induction evs arbitrary: s prev acc)
  case (Cons e evs)
  obtain k0 now where e: "e = (k0, now)" by force
  have le: "prev \<le> now" "base \<le> now" using Cons.prems(5,6) by (simp_all add: e)
  let ?s = "snd (step k0 now s)" and ?new = "if fst (step k0 now s) then [(k0, now)] else []"
  have "window_count W u (times_of k ((acc @ ?new) @ accepted step evs ?s)) \<le> N"
  proof (rule Cons.IH)
    show "inv ?s now" by (rule inv_step [OF Cons.prems(1) le])
    show "covers ?s (acc @ ?new) now" by (rule covers_step [OF Cons.prems(1,2) le Cons.prems(3)])
    show "\<forall>e\<in>set (acc @ ?new). snd e \<le> now" using Cons.prems(3) le by fastforce
    show "window_count W u (times_of k (acc @ ?new)) \<le> N" for k u
      by (rule count_step [OF Cons.prems(1,2) le Cons.prems(4)])
    show "sorted (now # map snd evs)" "\<forall>e\<in>set evs. base \<le> snd e"
      using Cons.prems(5,6) by (simp_all add: e)
  qed
  then show ?case by (simp add: e)
qed simp

lemma window_bound_init:
  assumes "inv s 0" "\<And>k. gate s k = None" "\<And>k. recent s k = []"
    and "sorted (map snd evs)" "\<forall>e\<in>set evs. base \<le> snd e"
  shows "window_count W u (times_of k (accepted step evs s)) \<le> N"
proof -
  have "covers s [] 0" using assms(2,3) by (intro coversI) simp_all
  from window_bound [OF assms(1) this _ _ _ assms(5), of u k] assms(4)
  show ?thesis by (simp add: window_count_def)
qed

end

end
