(* ===== verification/E2e_Handshake.thy ===== *)
theory E2e_Handshake
  imports E2e_Base Limiter
begin

text \<open>
  \<open>src/src/e2e/handshake.rs\<close>: the KEYREQ, KEYRSP and REKEY messages, the
  payloads their signatures cover, their textual form inside a CTCP, and the
  rate limiter of the handshake.  A byte array of fixed size is a byte list;
  \<open>keyreq_wf\<close> and its siblings state the sizes that the Rust types enforce.
\<close>

section \<open>Messages\<close>

definition ctcp_tag :: bytes where
  "ctcp_tag = ''RPEE2E''"

definition proto_version :: u8 where
  "proto_version = 1"

record key_req =
  kq_channel :: bytes
  kq_pubkey :: bytes
  kq_eph_x25519 :: bytes
  kq_nonce :: bytes
  kq_sig :: bytes

record key_rsp =
  kp_channel :: bytes
  kp_pubkey :: bytes
  kp_ephemeral_pub :: bytes
  kp_wrap_nonce :: bytes
  kp_wrap_ct :: bytes
  kp_nonce :: bytes
  kp_sig :: bytes

record key_rekey =
  kk_channel :: bytes
  kk_pubkey :: bytes
  kk_eph_pub :: bytes
  kk_wrap_nonce :: bytes
  kk_wrap_ct :: bytes
  kk_nonce :: bytes
  kk_sig :: bytes

datatype handshake_msg = Req key_req | Rsp key_rsp | Rekey key_rekey

section \<open>Signed payloads\<close>

definition sig_payload_keyreq :: "bytes \<Rightarrow> bytes \<Rightarrow> bytes \<Rightarrow> bytes \<Rightarrow> bytes" where
  "sig_payload_keyreq channel pubkey eph nonce =
     ''KEYREQ:'' @ channel @ '':'' @ pubkey @ '':'' @ eph @ '':'' @ nonce"

definition sig_payload_keyrsp ::
  "bytes \<Rightarrow> bytes \<Rightarrow> bytes \<Rightarrow> bytes \<Rightarrow> bytes \<Rightarrow> bytes \<Rightarrow> bytes" where
  "sig_payload_keyrsp channel pubkey eph wrap_nonce wrap_ct nonce =
     ''KEYRSP:'' @ channel @ '':'' @ pubkey @ '':'' @ eph @ '':'' @ wrap_nonce @ '':'' @ wrap_ct
     @ '':'' @ nonce"

definition sig_payload_keyrekey ::
  "bytes \<Rightarrow> bytes \<Rightarrow> bytes \<Rightarrow> bytes \<Rightarrow> bytes \<Rightarrow> bytes \<Rightarrow> bytes" where
  "sig_payload_keyrekey channel pubkey eph wrap_nonce wrap_ct nonce =
     ''REKEY:'' @ channel @ '':'' @ pubkey @ '':'' @ eph @ '':'' @ wrap_nonce @ '':'' @ wrap_ct
     @ '':'' @ nonce"

lemma keyreq_inject:
  assumes "length p1 = length p2" "length e1 = length e2" "length n1 = length n2"
  shows "sig_payload_keyreq c1 p1 e1 n1 = sig_payload_keyreq c2 p2 e2 n2 \<longleftrightarrow>
         c1 = c2 \<and> p1 = p2 \<and> e1 = e2 \<and> n1 = n2"
proof
  assume eq: "sig_payload_keyreq c1 p1 e1 n1 = sig_payload_keyreq c2 p2 e2 n2"
  have "length c1 = length c2"
    using arg_cong [OF eq, of length] assms by (simp add: sig_payload_keyreq_def)
  with eq assms show "c1 = c2 \<and> p1 = p2 \<and> e1 = e2 \<and> n1 = n2"
    by (simp add: sig_payload_keyreq_def)
qed simp

lemma keyrsp_inject:
  assumes "length p1 = length p2" "length e1 = length e2" "length wn1 = length wn2"
    "length w1 = length w2" "length n1 = length n2"
  shows "sig_payload_keyrsp c1 p1 e1 wn1 w1 n1 = sig_payload_keyrsp c2 p2 e2 wn2 w2 n2 \<longleftrightarrow>
         c1 = c2 \<and> p1 = p2 \<and> e1 = e2 \<and> wn1 = wn2 \<and> w1 = w2 \<and> n1 = n2"
proof
  assume eq: "sig_payload_keyrsp c1 p1 e1 wn1 w1 n1 = sig_payload_keyrsp c2 p2 e2 wn2 w2 n2"
  have "length c1 = length c2"
    using arg_cong [OF eq, of length] assms by (simp add: sig_payload_keyrsp_def)
  with eq assms show "c1 = c2 \<and> p1 = p2 \<and> e1 = e2 \<and> wn1 = wn2 \<and> w1 = w2 \<and> n1 = n2"
    by (simp add: sig_payload_keyrsp_def)
qed simp

lemma keyrekey_inject:
  assumes "length p1 = length p2" "length e1 = length e2" "length wn1 = length wn2"
    "length w1 = length w2" "length n1 = length n2"
  shows "sig_payload_keyrekey c1 p1 e1 wn1 w1 n1 = sig_payload_keyrekey c2 p2 e2 wn2 w2 n2 \<longleftrightarrow>
         c1 = c2 \<and> p1 = p2 \<and> e1 = e2 \<and> wn1 = wn2 \<and> w1 = w2 \<and> n1 = n2"
proof
  assume eq: "sig_payload_keyrekey c1 p1 e1 wn1 w1 n1 = sig_payload_keyrekey c2 p2 e2 wn2 w2 n2"
  have "length c1 = length c2"
    using arg_cong [OF eq, of length] assms by (simp add: sig_payload_keyrekey_def)
  with eq assms show "c1 = c2 \<and> p1 = p2 \<and> e1 = e2 \<and> wn1 = wn2 \<and> w1 = w2 \<and> n1 = n2"
    by (simp add: sig_payload_keyrekey_def)
qed simp

lemma payload_domains:
  "sig_payload_keyreq c1 p1 e1 n1 \<noteq> sig_payload_keyrsp c2 p2 e2 wn2 w2 n2"
  "sig_payload_keyreq c1 p1 e1 n1 \<noteq> sig_payload_keyrekey c2 p2 e2 wn2 w2 n2"
  "sig_payload_keyrsp c1 p1 e1 wn1 w1 n1 \<noteq> sig_payload_keyrekey c2 p2 e2 wn2 w2 n2"
  by (simp_all add: sig_payload_keyreq_def sig_payload_keyrsp_def sig_payload_keyrekey_def)

text \<open>
  The canonical payload of a message.  Messages of different kinds never share
  a payload, and within a kind the payload determines every signed field, for
  messages whose fixed-size fields have their sizes and whose wrapped keys
  have the size of an encrypted session key.
\<close>

definition payload_of :: "handshake_msg \<Rightarrow> bytes" where
  "payload_of m =
     (case m of
        Req r \<Rightarrow> sig_payload_keyreq (kq_channel r) (kq_pubkey r) (kq_eph_x25519 r) (kq_nonce r)
      | Rsp r \<Rightarrow> sig_payload_keyrsp (kp_channel r) (kp_pubkey r) (kp_ephemeral_pub r)
          (kp_wrap_nonce r) (kp_wrap_ct r) (kp_nonce r)
      | Rekey r \<Rightarrow> sig_payload_keyrekey (kk_channel r) (kk_pubkey r) (kk_eph_pub r)
          (kk_wrap_nonce r) (kk_wrap_ct r) (kk_nonce r))"

definition keyreq_wf :: "key_req \<Rightarrow> bool" where
  "keyreq_wf r \<longleftrightarrow> length (kq_pubkey r) = 32 \<and> length (kq_eph_x25519 r) = 32 \<and>
     length (kq_nonce r) = 16 \<and> length (kq_sig r) = 64"

definition keyrsp_wf :: "key_rsp \<Rightarrow> bool" where
  "keyrsp_wf r \<longleftrightarrow> length (kp_pubkey r) = 32 \<and> length (kp_ephemeral_pub r) = 32 \<and>
     length (kp_wrap_nonce r) = 24 \<and> length (kp_nonce r) = 16 \<and> length (kp_sig r) = 64"

definition keyrekey_wf :: "key_rekey \<Rightarrow> bool" where
  "keyrekey_wf r \<longleftrightarrow> length (kk_pubkey r) = 32 \<and> length (kk_eph_pub r) = 32 \<and>
     length (kk_wrap_nonce r) = 24 \<and> length (kk_nonce r) = 16 \<and> length (kk_sig r) = 64"

definition msg_wf :: "handshake_msg \<Rightarrow> bool" where
  "msg_wf m = (case m of Req r \<Rightarrow> keyreq_wf r | Rsp r \<Rightarrow> keyrsp_wf r | Rekey r \<Rightarrow> keyrekey_wf r)"

definition wrap_len :: "handshake_msg \<Rightarrow> nat" where
  "wrap_len m = (case m of Req r \<Rightarrow> 0 | Rsp r \<Rightarrow> length (kp_wrap_ct r) | Rekey r \<Rightarrow> length (kk_wrap_ct r))"

text \<open>Erasing the signature leaves exactly the signed part of a message.\<close>

definition unsigned_part :: "handshake_msg \<Rightarrow> handshake_msg" where
  "unsigned_part m =
     (case m of
        Req r \<Rightarrow> Req (r\<lparr>kq_sig := []\<rparr>)
      | Rsp r \<Rightarrow> Rsp (r\<lparr>kp_sig := []\<rparr>)
      | Rekey r \<Rightarrow> Rekey (r\<lparr>kk_sig := []\<rparr>))"

text \<open>
  A signature binds its message.  Two handshake messages whose fixed-size
  fields have their sizes and whose wrapped keys are equally long have the
  same signed payload exactly when they are the same kind of message and
  agree on every field but the signature.
\<close>

theorem payload_binds_message:
  assumes "msg_wf m1" "msg_wf m2" "wrap_len m1 = wrap_len m2"
  shows "payload_of m1 = payload_of m2 \<longleftrightarrow> unsigned_part m1 = unsigned_part m2"
proof (cases m1; cases m2)
  fix a b assume m: "m1 = Req a" "m2 = Req b"
  then show ?thesis using assms keyreq_inject [of "kq_pubkey a" "kq_pubkey b"]
    by (cases a; cases b) (auto simp: payload_of_def unsigned_part_def msg_wf_def keyreq_wf_def)
next
  fix a b assume m: "m1 = Rsp a" "m2 = Rsp b"
  then show ?thesis using assms keyrsp_inject [of "kp_pubkey a" "kp_pubkey b"]
    by (cases a; cases b) (auto simp: payload_of_def unsigned_part_def msg_wf_def keyrsp_wf_def wrap_len_def)
next
  fix a b assume m: "m1 = Rekey a" "m2 = Rekey b"
  then show ?thesis using assms keyrekey_inject [of "kk_pubkey a" "kk_pubkey b"]
    by (cases a; cases b) (auto simp: payload_of_def unsigned_part_def msg_wf_def keyrekey_wf_def wrap_len_def)
qed (use payload_domains in \<open>auto simp: payload_of_def unsigned_part_def dest: sym\<close>)

definition example_req :: "bytes \<Rightarrow> key_req" where
  "example_req c = \<lparr>kq_channel = c, kq_pubkey = replicate 32 CHR ''p'',
     kq_eph_x25519 = replicate 32 CHR ''e'', kq_nonce = replicate 16 CHR ''n'',
     kq_sig = replicate 64 CHR ''s''\<rparr>"

lemma payload_binds_message_witness:
  "payload_of (Req (example_req ''#a'')) \<noteq> payload_of (Req (example_req ''#b''))"
  using payload_binds_message [of "Req (example_req ''#a'')" "Req (example_req ''#b'')"]
  by (simp add: msg_wf_def keyreq_wf_def wrap_len_def unsigned_part_def example_req_def)

section \<open>Encoding\<close>

definition b64_encode :: "crypto \<Rightarrow> bytes \<Rightarrow> bytes" where
  "b64_encode cr b = cr_b64url_encode cr b"

definition encode_keyreq :: "crypto \<Rightarrow> key_req \<Rightarrow> bytes" where
  "encode_keyreq cr r =
     ctcp_tag @ '' KEYREQ v='' @ show_nat (unat proto_version)
     @ '' c='' @ kq_channel r
     @ '' p='' @ b64_encode cr (kq_pubkey r)
     @ '' e='' @ b64_encode cr (kq_eph_x25519 r)
     @ '' n='' @ b64_encode cr (kq_nonce r)
     @ '' s='' @ b64_encode cr (kq_sig r)"

definition encode_keyrsp :: "crypto \<Rightarrow> key_rsp \<Rightarrow> bytes" where
  "encode_keyrsp cr r =
     ctcp_tag @ '' KEYRSP v='' @ show_nat (unat proto_version)
     @ '' c='' @ kp_channel r
     @ '' p='' @ b64_encode cr (kp_pubkey r)
     @ '' e='' @ b64_encode cr (kp_ephemeral_pub r)
     @ '' wn='' @ b64_encode cr (kp_wrap_nonce r)
     @ '' w='' @ cr_b64url_encode cr (kp_wrap_ct r)
     @ '' n='' @ b64_encode cr (kp_nonce r)
     @ '' s='' @ b64_encode cr (kp_sig r)"

definition encode_keyrekey :: "crypto \<Rightarrow> key_rekey \<Rightarrow> bytes" where
  "encode_keyrekey cr r =
     ctcp_tag @ '' REKEY v='' @ show_nat (unat proto_version)
     @ '' c='' @ kk_channel r
     @ '' p='' @ b64_encode cr (kk_pubkey r)
     @ '' e='' @ b64_encode cr (kk_eph_pub r)
     @ '' wn='' @ b64_encode cr (kk_wrap_nonce r)
     @ '' w='' @ cr_b64url_encode cr (kk_wrap_ct r)
     @ '' n='' @ b64_encode cr (kk_nonce r)
     @ '' s='' @ b64_encode cr (kk_sig r)"

section \<open>Parsing\<close>

text \<open>Fields without an equals sign are skipped; a repeated key is an error.\<close>

fun parse_kv_aux :: "bytes list \<Rightarrow> (bytes, bytes) table \<Rightarrow> e2e_error + (bytes, bytes) table" where
  "parse_kv_aux [] out = Inr out"
| "parse_kv_aux (f # fs) out =
     (case split_once CHR ''='' f of
        None \<Rightarrow> parse_kv_aux fs out
      | Some (k, v) \<Rightarrow>
          if map_of out k \<noteq> None then Inl (Wire (''duplicate key: '' @ k))
          else parse_kv_aux fs (AList.update k v out))"

definition parse_kv :: "bytes list \<Rightarrow> e2e_error + (bytes, bytes) table" where
  "parse_kv fds = parse_kv_aux fds []"

definition kv_get :: "(bytes, bytes) table \<Rightarrow> bytes \<Rightarrow> e2e_error + bytes" where
  "kv_get kv key = ok_or (HandshakeErr key) (map_of kv key)"

definition b64_decode :: "crypto \<Rightarrow> bytes \<Rightarrow> e2e_error + bytes" where
  "b64_decode cr s = map_err (\<lambda>e. HandshakeErr (''bad b64: '' @ e)) (cr_b64url_decode cr s)"

definition b64_fixed :: "crypto \<Rightarrow> nat \<Rightarrow> bytes \<Rightarrow> e2e_error + bytes" where
  "b64_fixed cr n s =
     bind_res (b64_decode cr s) (\<lambda>raw.
     if length raw \<noteq> n then
       Inl (HandshakeErr (''expected '' @ show_nat n @ '' bytes, got '' @ show_nat (length raw)))
     else Inr raw)"

definition parse_wrap_nonce :: "crypto \<Rightarrow> (bytes, bytes) table \<Rightarrow> e2e_error + bytes" where
  "parse_wrap_nonce cr kv =
     bind_res (kv_get kv ''wn'') (\<lambda>s.
     bind_res (b64_decode cr s) (\<lambda>raw.
     if length raw \<noteq> nonce_len then
       Inl (HandshakeErr (''wn len '' @ show_nat (length raw) @ '' != '' @ show_nat nonce_len))
     else Inr raw))"

definition parse_wrap_ct :: "crypto \<Rightarrow> (bytes, bytes) table \<Rightarrow> e2e_error + bytes" where
  "parse_wrap_ct cr kv =
     bind_res (kv_get kv ''w'') (\<lambda>s.
     map_err (\<lambda>e. HandshakeErr (''bad wrap b64: '' @ e)) (cr_b64url_decode cr s))"

definition parse_keyreq :: "crypto \<Rightarrow> (bytes, bytes) table \<Rightarrow> e2e_error + key_req" where
  "parse_keyreq cr kv =
     bind_res (kv_get kv ''c'') (\<lambda>channel.
     bind_res (bind_res (kv_get kv ''p'') (b64_fixed cr 32)) (\<lambda>pubkey.
     bind_res (bind_res (kv_get kv ''e'') (b64_fixed cr 32)) (\<lambda>eph.
     bind_res (bind_res (kv_get kv ''n'') (b64_fixed cr 16)) (\<lambda>nonce.
     bind_res (bind_res (kv_get kv ''s'') (b64_fixed cr 64)) (\<lambda>sg.
     Inr \<lparr>kq_channel = channel, kq_pubkey = pubkey, kq_eph_x25519 = eph, kq_nonce = nonce,
          kq_sig = sg\<rparr>)))))"

definition parse_keyrsp :: "crypto \<Rightarrow> (bytes, bytes) table \<Rightarrow> e2e_error + key_rsp" where
  "parse_keyrsp cr kv =
     bind_res (kv_get kv ''c'') (\<lambda>channel.
     bind_res (bind_res (kv_get kv ''p'') (b64_fixed cr 32)) (\<lambda>pubkey.
     bind_res (bind_res (kv_get kv ''e'') (b64_fixed cr 32)) (\<lambda>eph.
     bind_res (parse_wrap_nonce cr kv) (\<lambda>wn.
     bind_res (parse_wrap_ct cr kv) (\<lambda>w.
     bind_res (bind_res (kv_get kv ''n'') (b64_fixed cr 16)) (\<lambda>nonce.
     bind_res (bind_res (kv_get kv ''s'') (b64_fixed cr 64)) (\<lambda>sg.
     Inr \<lparr>kp_channel = channel, kp_pubkey = pubkey, kp_ephemeral_pub = eph, kp_wrap_nonce = wn,
          kp_wrap_ct = w, kp_nonce = nonce, kp_sig = sg\<rparr>)))))))"

definition parse_keyrekey :: "crypto \<Rightarrow> (bytes, bytes) table \<Rightarrow> e2e_error + key_rekey" where
  "parse_keyrekey cr kv =
     bind_res (kv_get kv ''c'') (\<lambda>channel.
     bind_res (bind_res (kv_get kv ''p'') (b64_fixed cr 32)) (\<lambda>pubkey.
     bind_res (bind_res (kv_get kv ''e'') (b64_fixed cr 32)) (\<lambda>eph.
     bind_res (parse_wrap_nonce cr kv) (\<lambda>wn.
     bind_res (parse_wrap_ct cr kv) (\<lambda>w.
     bind_res (bind_res (kv_get kv ''n'') (b64_fixed cr 16)) (\<lambda>nonce.
     bind_res (bind_res (kv_get kv ''s'') (b64_fixed cr 64)) (\<lambda>sg.
     Inr \<lparr>kk_channel = channel, kk_pubkey = pubkey, kk_eph_pub = eph, kk_wrap_nonce = wn,
          kk_wrap_ct = w, kk_nonce = nonce, kk_sig = sg\<rparr>)))))))"

definition handshake_parse_fields ::
  "crypto \<Rightarrow> bytes \<Rightarrow> bytes list \<Rightarrow> e2e_error + handshake_msg" where
  "handshake_parse_fields cr kind rest =
     bind_res (parse_kv rest) (\<lambda>kv.
     bind_res (ok_or (HandshakeErr ''missing v'') (map_of kv ''v'')) (\<lambda>vs.
     bind_res (map_err (\<lambda>e. HandshakeErr (''bad v: '' @ e)) (parse_u8 vs)) (\<lambda>v.
     if v \<noteq> proto_version then Inl (HandshakeErr (''unsupported version '' @ show_nat (unat v)))
     else if kind = ''KEYREQ'' then bind_res (parse_keyreq cr kv) (\<lambda>r. Inr (Req r))
     else if kind = ''KEYRSP'' then bind_res (parse_keyrsp cr kv) (\<lambda>r. Inr (Rsp r))
     else if kind = ''REKEY'' then bind_res (parse_keyrekey cr kv) (\<lambda>r. Inr (Rekey r))
     else Inl (HandshakeErr (''unknown type '' @ kind)))))"

definition handshake_parse :: "crypto \<Rightarrow> bytes \<Rightarrow> e2e_error + handshake_msg option" where
  "handshake_parse cr body =
     (case split_whitespace body of
        [] \<Rightarrow> Inr None
      | tag # parts \<Rightarrow>
          if tag \<noteq> ctcp_tag then Inr None
          else (case parts of
                  [] \<Rightarrow> Inl (HandshakeErr ''missing type'')
                | kind # rest \<Rightarrow> bind_res (handshake_parse_fields cr kind rest) (\<lambda>m. Inr (Some m))))"

section \<open>Round trip\<close>

definition encode_msg :: "crypto \<Rightarrow> handshake_msg \<Rightarrow> bytes" where
  "encode_msg cr m =
     (case m of Req r \<Rightarrow> encode_keyreq cr r | Rsp r \<Rightarrow> encode_keyrsp cr r | Rekey r \<Rightarrow> encode_keyrekey cr r)"

definition msg_channel :: "handshake_msg \<Rightarrow> bytes" where
  "msg_channel m =
     (case m of Req r \<Rightarrow> kq_channel r | Rsp r \<Rightarrow> kp_channel r | Rekey r \<Rightarrow> kk_channel r)"

definition msg_tokens :: "crypto \<Rightarrow> handshake_msg \<Rightarrow> bytes list" where
  "msg_tokens cr m =
     (case m of
        Req r \<Rightarrow> [''KEYREQ'', ''v=1'', ''c='' @ kq_channel r, ''p='' @ b64_encode cr (kq_pubkey r),
          ''e='' @ b64_encode cr (kq_eph_x25519 r), ''n='' @ b64_encode cr (kq_nonce r),
          ''s='' @ b64_encode cr (kq_sig r)]
      | Rsp r \<Rightarrow> [''KEYRSP'', ''v=1'', ''c='' @ kp_channel r, ''p='' @ b64_encode cr (kp_pubkey r),
          ''e='' @ b64_encode cr (kp_ephemeral_pub r), ''wn='' @ b64_encode cr (kp_wrap_nonce r),
          ''w='' @ cr_b64url_encode cr (kp_wrap_ct r), ''n='' @ b64_encode cr (kp_nonce r),
          ''s='' @ b64_encode cr (kp_sig r)]
      | Rekey r \<Rightarrow> [''REKEY'', ''v=1'', ''c='' @ kk_channel r, ''p='' @ b64_encode cr (kk_pubkey r),
          ''e='' @ b64_encode cr (kk_eph_pub r), ''wn='' @ b64_encode cr (kk_wrap_nonce r),
          ''w='' @ cr_b64url_encode cr (kk_wrap_ct r), ''n='' @ b64_encode cr (kk_nonce r),
          ''s='' @ b64_encode cr (kk_sig r)])"

lemma show_version: "show_nat (unat proto_version) = ''1''"
  by code_simp

lemma encode_tokens: "encode_msg cr m = join_str '' '' (ctcp_tag # msg_tokens cr m)"
  by (cases m) (simp_all add: encode_msg_def msg_tokens_def encode_keyreq_def encode_keyrsp_def
      encode_keyrekey_def show_version)

lemma no_ws_plain_Cons: "plain_char c \<Longrightarrow> no_ws (c # s) \<longleftrightarrow> no_ws s"
  by (simp add: plain_char_def ws_len_ascii in_range_def)

lemma no_ws_key: "list_all plain_char k \<Longrightarrow> no_ws v \<Longrightarrow> no_ws (k @ v)"
  by (induction k) (simp_all add: no_ws_plain_Cons del: no_ws.simps(2))

lemma plain_words:
  "list_all (list_all plain_char) [''RPEE2E'', ''KEYREQ'', ''KEYRSP'', ''REKEY'', ''v=1'', ''c='', ''p='',
     ''e='', ''wn='', ''w='', ''n='', ''s='']"
  by code_simp

lemma tokens_no_ws:
  assumes "b64url_ok cr" "no_ws (msg_channel m)" "t \<in> set (ctcp_tag # msg_tokens cr m)"
  shows "t \<noteq> [] \<and> no_ws t"
proof -
  have b: "no_ws (cr_b64url_encode cr b)" for b
    using assms(1) by (simp add: b64url_ok_def plain_no_ws)
  note w = plain_words [unfolded list.pred_inject(2)]
  have "list_all no_ws (ctcp_tag # msg_tokens cr m)"
    unfolding msg_tokens_def ctcp_tag_def b64_encode_def using w assms(2)
    by (cases m) (simp_all only: list.pred_inject handshake_msg.case plain_no_ws no_ws_key b
        msg_channel_def simp_thms)
  moreover have "list_all (\<lambda>t. t \<noteq> []) (ctcp_tag # msg_tokens cr m)"
    by (cases m) (simp_all add: msg_tokens_def ctcp_tag_def)
  ultimately show ?thesis using assms(3) unfolding list_all_iff by blast
qed

lemma b64_fixed_encode [simp]:
  "b64url_ok cr \<Longrightarrow> length b = n \<Longrightarrow> b64_fixed cr n (b64_encode cr b) = Inr b"
  by (simp add: b64_fixed_def b64_decode_def b64_encode_def b64url_ok_def)

lemma b64_decode_encode [simp]: "b64url_ok cr \<Longrightarrow> b64_decode cr (b64_encode cr b) = Inr b"
  by (simp add: b64_decode_def b64_encode_def b64url_ok_def)

definition msg_table :: "crypto \<Rightarrow> handshake_msg \<Rightarrow> (bytes, bytes) table" where
  "msg_table cr m =
     (case m of
        Req r \<Rightarrow> [(''v'', ''1''), (''c'', kq_channel r), (''p'', b64_encode cr (kq_pubkey r)),
          (''e'', b64_encode cr (kq_eph_x25519 r)), (''n'', b64_encode cr (kq_nonce r)),
          (''s'', b64_encode cr (kq_sig r))]
      | Rsp r \<Rightarrow> [(''v'', ''1''), (''c'', kp_channel r), (''p'', b64_encode cr (kp_pubkey r)),
          (''e'', b64_encode cr (kp_ephemeral_pub r)), (''wn'', b64_encode cr (kp_wrap_nonce r)),
          (''w'', b64_encode cr (kp_wrap_ct r)), (''n'', b64_encode cr (kp_nonce r)),
          (''s'', b64_encode cr (kp_sig r))]
      | Rekey r \<Rightarrow> [(''v'', ''1''), (''c'', kk_channel r), (''p'', b64_encode cr (kk_pubkey r)),
          (''e'', b64_encode cr (kk_eph_pub r)), (''wn'', b64_encode cr (kk_wrap_nonce r)),
          (''w'', b64_encode cr (kk_wrap_ct r)), (''n'', b64_encode cr (kk_nonce r)),
          (''s'', b64_encode cr (kk_sig r))])"

lemma parse_kv_tokens: "parse_kv (tl (msg_tokens cr m)) = Inr (msg_table cr m)"
  by (cases m) (simp_all add: msg_tokens_def msg_table_def parse_kv_def b64_encode_def)

lemma parse_version: "parse_u8 ''1'' = Inr proto_version"
  by code_simp

lemma parse_msg_table:
  assumes "b64url_ok cr" "msg_wf m"
  shows "(case m of
      Req r \<Rightarrow> parse_keyreq cr (msg_table cr m) = Inr r
    | Rsp r \<Rightarrow> parse_keyrsp cr (msg_table cr m) = Inr r
    | Rekey r \<Rightarrow> parse_keyrekey cr (msg_table cr m) = Inr r)"
proof -
  have w: "map_err e (cr_b64url_decode cr (b64_encode cr b)) = Inr b" for b and e :: "bytes \<Rightarrow> e2e_error"
    using assms(1) by (simp add: b64_encode_def b64url_ok_def)
  show ?thesis
    using assms
    by (cases m) (simp_all add: msg_table_def parse_keyreq_def parse_keyrsp_def parse_keyrekey_def
        kv_get_def parse_wrap_nonce_def parse_wrap_ct_def w nonce_len_def msg_wf_def
        keyreq_wf_def keyrsp_wf_def keyrekey_wf_def)
qed

lemma handshake_parse_encode:
  assumes "b64url_ok cr" "msg_wf m" "no_ws (msg_channel m)"
  shows "handshake_parse cr (encode_msg cr m) = Inr (Some m)"
proof -
  let ?kind = "case m of Req _ \<Rightarrow> ''KEYREQ'' | Rsp _ \<Rightarrow> ''KEYRSP'' | Rekey _ \<Rightarrow> ''REKEY''"
  have "split_whitespace (encode_msg cr m) = ctcp_tag # msg_tokens cr m"
    unfolding encode_tokens using tokens_no_ws [OF assms(1,3)] by (rule split_whitespace_join)
  moreover obtain rest where rest: "msg_tokens cr m = ?kind # rest"
    by (cases m) (simp_all add: msg_tokens_def)
  ultimately have "handshake_parse cr (encode_msg cr m) =
      bind_res (handshake_parse_fields cr ?kind (tl (msg_tokens cr m))) (\<lambda>x. Inr (Some x))"
    unfolding handshake_parse_def by (simp only: list.case list.sel simp_thms if_False)
  moreover have "map_of (msg_table cr m) ''v'' = Some ''1''" by (cases m) (simp_all add: msg_table_def)
  then have "handshake_parse_fields cr ?kind (tl (msg_tokens cr m)) = Inr m"
    using parse_msg_table [OF assms(1,2)]
    by (cases m) (simp_all add: handshake_parse_fields_def parse_kv_tokens parse_version)
  ultimately show ?thesis by simp
qed

text \<open>
  C22: the handshake format is read back.  Every KEYREQ, KEYRSP and REKEY whose
  fixed-size fields have their sizes and whose channel holds no white space is
  parsed to exactly itself.
\<close>

theorem handshake_roundtrip:
  assumes "b64url_ok cr" "msg_wf m" "no_ws (msg_channel m)"
  shows "handshake_parse cr (encode_msg cr m) = Inr (Some m)"
  using assms by (rule handshake_parse_encode)

lemma example_req_ok [simp]:
  "msg_wf (Req (example_req c))" "msg_channel (Req (example_req c)) = c" "no_ws ''#rust''"
proof -
  show "no_ws ''#rust''" by code_simp
qed (simp_all add: msg_wf_def keyreq_wf_def example_req_def msg_channel_def del: no_ws.simps)

lemma handshake_roundtrip_witness:
  "handshake_parse toy_crypto (encode_msg toy_crypto (Req (example_req ''#rust''))) =
     Inr (Some (Req (example_req ''#rust'')))"
  by (rule handshake_roundtrip) (simp_all del: no_ws.simps)

lemma parse_kv_aux_keeps:
  "parse_kv_aux fs out = Inr kv \<Longrightarrow> map_of out k = Some v \<Longrightarrow> map_of kv k = Some v"
proof (induction fs out rule: parse_kv_aux.induct)
  case (2 f fs out)
  show ?case
  proof (cases "split_once CHR ''='' f")
    case None
    then show ?thesis using "2.IH"(1) [OF None] "2.prems" by (simp del: split_once_None)
  next
    case (Some kv')
    obtain a b where ab: "kv' = (a, b)" by force
    have n: "map_of out a = None" "parse_kv_aux fs (AList.update a b out) = Inr kv"
      using "2.prems"(1) Some ab by (auto split: if_splits)
    then have "map_of (AList.update a b out) k = Some v"
      using "2.prems"(2) by (auto simp: update_conv')
    then show ?thesis using "2.IH"(2) [OF Some ab [symmetric]] n by simp
  qed
qed simp

lemma parse_kv_aux_token:
  "parse_kv_aux fs out = Inr kv \<Longrightarrow> f \<in> set fs \<Longrightarrow> split_once CHR ''='' f = Some (k, v) \<Longrightarrow>
   map_of kv k = Some v"
proof (induction fs out rule: parse_kv_aux.induct)
  case (2 g fs out)
  show ?case
  proof (cases "f = g")
    case True
    with "2.prems" have "map_of out k = None" "parse_kv_aux fs (AList.update k v out) = Inr kv"
      by (auto split: if_splits)
    then show ?thesis using parse_kv_aux_keeps by (fastforce simp: update_conv')
  next
    case False
    with "2.prems" have "f \<in> set fs" by simp
    with "2.IH" "2.prems" show ?thesis by (auto split: option.splits if_splits)
  qed
qed simp

lemma b64_fixed_length: "b64_fixed cr n s = Inr b \<Longrightarrow> length b = n"
  by (auto simp: b64_fixed_def bind_res_Inr_iff split: if_splits)

lemma parse_wrap_nonce_length: "parse_wrap_nonce cr kv = Inr b \<Longrightarrow> length b = 24"
  by (auto simp: parse_wrap_nonce_def nonce_len_def bind_res_Inr_iff split: if_splits)

lemmas parse_msg_defs = parse_keyreq_def parse_keyrsp_def parse_keyrekey_def
  keyreq_wf_def keyrsp_wf_def keyrekey_wf_def bind_res_Inr_iff kv_get_def

lemma parse_msg_wf:
  "parse_keyreq cr kv = Inr r \<Longrightarrow> keyreq_wf r \<and> map_of kv ''c'' = Some (kq_channel r)"
  "parse_keyrsp cr kv = Inr r' \<Longrightarrow> keyrsp_wf r' \<and> map_of kv ''c'' = Some (kp_channel r')"
  "parse_keyrekey cr kv = Inr r'' \<Longrightarrow> keyrekey_wf r'' \<and> map_of kv ''c'' = Some (kk_channel r'')"
  by (auto simp: parse_msg_defs dest: b64_fixed_length parse_wrap_nonce_length)

lemma handshake_parse_fields_wf:
  assumes "handshake_parse_fields cr kind rest = Inr m"
  shows "msg_wf m \<and> (\<exists>kv. parse_kv rest = Inr kv \<and> map_of kv ''c'' = Some (msg_channel m)) \<and>
         kind \<in> {''KEYREQ'', ''KEYRSP'', ''REKEY''}"
  using assms parse_msg_wf
  by (auto simp: handshake_parse_fields_def bind_res_Inr_iff msg_wf_def msg_channel_def split: if_splits)

text \<open>
  An accepted handshake message is well sized and its channel is not
  ambiguous.  Whatever body the parser accepts, every fixed-size field has its
  size, and every field \<open>c=\<close> that occurs anywhere in the body carries exactly
  the channel of the parsed message, so a second \<open>c=\<close> cannot shift it.
\<close>

theorem handshake_unambiguous:
  assumes "handshake_parse cr body = Inr (Some m)"
  shows "msg_wf m \<and>
    (\<forall>f v. f \<in> set (split_whitespace body) \<and> split_once CHR ''='' f = Some (''c'', v) \<longrightarrow> v = msg_channel m)"
proof -
  from assms obtain kind rest where
    body: "split_whitespace body = ctcp_tag # kind # rest" and m: "handshake_parse_fields cr kind rest = Inr m"
    by (auto simp: handshake_parse_def bind_res_Inr_iff split: list.splits if_splits)
  from handshake_parse_fields_wf [OF m] obtain kv where
    kv: "msg_wf m" "parse_kv rest = Inr kv" "map_of kv ''c'' = Some (msg_channel m)"
    "kind \<in> {''KEYREQ'', ''KEYRSP'', ''REKEY''}" by blast
  have "v = msg_channel m" if "f \<in> set rest" "split_once CHR ''='' f = Some (''c'', v)" for f v
    using parse_kv_aux_token [OF _ that] kv(2,3) by (simp add: parse_kv_def)
  moreover have "split_once CHR ''='' ctcp_tag = None" "split_once CHR ''='' kind = None"
    using kv(4) by (auto simp: ctcp_tag_def)
  ultimately have "v = msg_channel m"
    if "f \<in> set (ctcp_tag # kind # rest)" "split_once CHR ''='' f = Some (''c'', v)" for f v
    using that by (metis option.distinct(1) set_ConsD)
  then show ?thesis using kv(1) unfolding body by blast
qed

lemma handshake_unambiguous_witness:
  "msg_wf (Req (example_req ''#rust''))"
proof -
  have "handshake_parse toy_crypto (encode_msg toy_crypto (Req (example_req ''#rust''))) =
     Inr (Some (Req (example_req ''#rust'')))"
    by (rule handshake_parse_encode) (simp_all del: no_ws.simps)
  from handshake_unambiguous [OF this] show ?thesis ..
qed

section \<open>The rate limiter\<close>

definition rate_limit_window :: nat where
  "rate_limit_window = secs 30"

definition incoming_window :: nat where
  "incoming_window = secs 60"

definition incoming_max_per_window :: nat where
  "incoming_max_per_window = 3"

definition incoming_backoff :: nat where
  "incoming_backoff = secs 300"

record incoming_bucket =
  ib_recent :: "instant list"
  ib_backoff_until :: "instant option"

record rate_limiter =
  rl_last_sent :: "(bytes, instant) table"
  rl_incoming :: "(bytes, incoming_bucket) table"

definition rate_limiter_new :: rate_limiter where
  "rate_limiter_new = \<lparr>rl_last_sent = [], rl_incoming = []\<rparr>"

definition empty_bucket :: incoming_bucket where
  "empty_bucket = \<lparr>ib_recent = [], ib_backoff_until = None\<rparr>"

definition allow_outgoing :: "bytes \<Rightarrow> instant \<Rightarrow> rate_limiter \<Rightarrow> bool \<times> rate_limiter" where
  "allow_outgoing peer now rl =
     (let send = (True, rl\<lparr>rl_last_sent := AList.update peer now (rl_last_sent rl)\<rparr>)
      in case map_of (rl_last_sent rl) peer of
           None \<Rightarrow> send
         | Some ts \<Rightarrow> if duration_since now ts < rate_limit_window then (False, rl) else send)"

text \<open>The part of \<open>allow_incoming\<close> after the back-off check.\<close>

definition bucket_admit :: "instant \<Rightarrow> incoming_bucket \<Rightarrow> bool \<times> incoming_bucket" where
  "bucket_admit now b =
     (let recent = dropWhile (\<lambda>t. incoming_window < duration_since now t) (ib_recent b)
      in if incoming_max_per_window \<le> length recent then
           (False, b\<lparr>ib_recent := recent, ib_backoff_until := Some (now + incoming_backoff)\<rparr>)
         else (True, b\<lparr>ib_recent := recent @ [now]\<rparr>))"

definition allow_incoming :: "bytes \<Rightarrow> instant \<Rightarrow> rate_limiter \<Rightarrow> bool \<times> rate_limiter" where
  "allow_incoming peer now rl =
     (let bucket = (case map_of (rl_incoming rl) peer of None \<Rightarrow> empty_bucket | Some b \<Rightarrow> b);
          put = (\<lambda>b. rl\<lparr>rl_incoming := AList.update peer b (rl_incoming rl)\<rparr>)
      in case ib_backoff_until bucket of
           Some until \<Rightarrow>
             if now < until then (False, put bucket)
             else (case bucket_admit now (bucket\<lparr>ib_backoff_until := None, ib_recent := []\<rparr>) of
                     (ok, b) \<Rightarrow> (ok, put b))
         | None \<Rightarrow> (case bucket_admit now bucket of (ok, b) \<Rightarrow> (ok, put b)))"

definition bucket_of :: "rate_limiter \<Rightarrow> bytes \<Rightarrow> incoming_bucket" where
  "bucket_of rl peer = (case map_of (rl_incoming rl) peer of None \<Rightarrow> empty_bucket | Some b \<Rightarrow> b)"

definition bucket_ordered :: "instant \<Rightarrow> incoming_bucket \<Rightarrow> bool" where
  "bucket_ordered now b \<longleftrightarrow> sorted (ib_recent b) \<and> (\<forall>t\<in>set (ib_recent b). t \<le> now)"

definition incoming_ordered :: "rate_limiter \<Rightarrow> instant \<Rightarrow> bool" where
  "incoming_ordered rl now \<longleftrightarrow> (\<forall>peer. bucket_ordered now (bucket_of rl peer))"

lemma bucket_of_put [simp]:
  "bucket_of (rl\<lparr>rl_incoming := AList.update p b (rl_incoming rl)\<rparr>) q = (if q = p then b else bucket_of rl q)"
  by (simp add: bucket_of_def update_conv')

lemma allow_incoming_cases:
  "allow_incoming peer now rl =
     (let b = bucket_of rl peer;
          r = (case ib_backoff_until b of
                 Some u \<Rightarrow> if now < u then (False, b)
                   else bucket_admit now (b\<lparr>ib_backoff_until := None, ib_recent := []\<rparr>)
               | None \<Rightarrow> bucket_admit now b)
      in (fst r, rl\<lparr>rl_incoming := AList.update peer (snd r) (rl_incoming rl)\<rparr>))"
  by (simp add: allow_incoming_def bucket_of_def Let_def split: option.split prod.split)

lemma evict_sorted:
  "sorted ts \<Longrightarrow>
   dropWhile (\<lambda>t. incoming_window < duration_since now t) ts = filter (in_window incoming_window now) ts"
  by (subst dropWhile_filter_sorted) (auto simp: duration_since_def in_window_def intro!: filter_cong)

lemma bucket_admit_cases:
  assumes "sorted (ib_recent b)"
  shows "bucket_admit now b =
     (let recent = filter (in_window incoming_window now) (ib_recent b)
      in if length recent < incoming_max_per_window then (True, b\<lparr>ib_recent := recent @ [now]\<rparr>)
         else (False, b\<lparr>ib_recent := recent, ib_backoff_until := Some (now + incoming_backoff)\<rparr>))"
  by (simp add: bucket_admit_def evict_sorted [OF assms] Let_def)

lemma bucket_admit_ordered: "bucket_ordered now b \<Longrightarrow> bucket_ordered now (snd (bucket_admit now b))"
  by (auto simp: bucket_ordered_def bucket_admit_cases Let_def sorted_append sorted_wrt_filter)

lemma bucket_ordered_reset: "bucket_ordered now (b\<lparr>ib_backoff_until := None, ib_recent := []\<rparr>)"
  by (simp add: bucket_ordered_def)

lemma allow_incoming_ordered:
  assumes "incoming_ordered rl prev" "prev \<le> now"
  shows "incoming_ordered (snd (allow_incoming peer now rl)) now"
proof -
  have "bucket_ordered now (bucket_of rl p)" for p
    using assms unfolding incoming_ordered_def bucket_ordered_def by (meson le_trans)
  then show ?thesis
    by (simp add: incoming_ordered_def allow_incoming_cases Let_def bucket_admit_ordered
        bucket_ordered_reset split: option.split)
qed

interpretation incoming: limiter allow_incoming "\<lambda>rl p. ib_backoff_until (bucket_of rl p)"
  "\<lambda>rl p. ib_recent (bucket_of rl p)" incoming_ordered incoming_window incoming_max_per_window 0
proof (unfold_locales, goal_cases)
  case (1 s prev now k)
  then show ?case by (simp add: allow_incoming_ordered)
next
  case (2 s prev now k u)
  then show ?case by (simp add: allow_incoming_cases)
next
  case (3 s prev now k)
  then have s: "sorted (ib_recent (bucket_of s k))" by (simp add: incoming_ordered_def bucket_ordered_def)
  from 3(4) show ?case
    by (auto simp: allow_incoming_cases bucket_admit_cases [OF s] bucket_admit_cases Let_def
        incoming_max_per_window_def split: option.splits if_splits)
next
  case (4 s prev now k)
  then have s: "sorted (ib_recent (bucket_of s k))" by (simp add: incoming_ordered_def bucket_ordered_def)
  from 4(4) show ?case
    by (auto simp: allow_incoming_cases bucket_admit_cases [OF s] bucket_admit_cases Let_def
        incoming_max_per_window_def incoming_window_def incoming_backoff_def secs_def
        split: option.splits if_splits)
next
  case (5 s prev now k' k)
  then show ?case by (simp add: allow_incoming_cases Let_def)
qed

interpretation outgoing: limiter allow_outgoing "\<lambda>rl p. None"
  "\<lambda>rl p. case map_of (rl_last_sent rl) p of None \<Rightarrow> [] | Some t \<Rightarrow> [t]" "\<lambda>_ _. True"
  "rate_limit_window - 1" 1 0
  by unfold_locales
    (auto simp: allow_outgoing_def Let_def update_conv' in_window_def duration_since_def
      rate_limit_window_def secs_def split: option.splits if_splits)

text \<open>
  C8: no peer can make the client work on more than three KEYREQs a minute.
  In every run of \<open>allow_incoming\<close> over calls of any peers at non-decreasing
  times, each closed 60-second window holds at most three accepted calls of
  any one peer, also across the back-off, whose end empties the queue.
\<close>

theorem incoming_bounded:
  assumes "sorted (map snd calls)"
  shows "window_count (secs 60) u
    (times_of peer (accepted allow_incoming calls rate_limiter_new)) \<le> 3"
  using incoming.window_bound_init [of rate_limiter_new calls u peer] assms
  by (simp add: incoming_ordered_def bucket_ordered_def bucket_of_def rate_limiter_new_def empty_bucket_def
      incoming_window_def incoming_max_per_window_def)

lemma incoming_bounded_witness:
  "window_count (secs 60) 0 (times_of ''~bob@b.host'' (accepted allow_incoming
     [(''~bob@b.host'', 1), (''~eve@e.host'', 2), (''~bob@b.host'', 3)] rate_limiter_new)) \<le> 3"
  by (rule incoming_bounded) simp

text \<open>
  A peer that has spent its three calls is refused for five minutes.
  When the window is full, the call is refused, and so is every further call
  of that peer, at whatever times, before the back-off has ended.
\<close>

theorem incoming_backs_off:
  assumes full: "sorted (ib_recent (bucket_of rl peer))" "ib_backoff_until (bucket_of rl peer) = None"
      "3 \<le> length (filter (in_window (secs 60) now) (ib_recent (bucket_of rl peer)))"
    and later: "\<forall>e\<in>set calls. fst e = peer \<and> snd e < now + secs 300"
  shows "accepted allow_incoming ((peer, now) # calls) rl = []"
proof -
  have closed: "accepted allow_incoming calls s = []"
    if "ib_backoff_until (bucket_of s peer) = Some (now + secs 300)" for s
    using later that
  proof (induction calls arbitrary: s)
    case (Cons e calls)
    then obtain t where e: "e = (peer, t)" "t < now + secs 300" by (cases e) auto
    with Cons.prems(2) have "allow_incoming peer t s =
        (False, s\<lparr>rl_incoming := AList.update peer (bucket_of s peer) (rl_incoming s)\<rparr>)"
      by (simp add: allow_incoming_cases)
    with Cons e show ?case by simp
  qed simp
  have "allow_incoming peer now rl = (False, rl\<lparr>rl_incoming := AList.update peer
      (bucket_of rl peer\<lparr>ib_recent := filter (in_window incoming_window now) (ib_recent (bucket_of rl peer)),
        ib_backoff_until := Some (now + incoming_backoff)\<rparr>) (rl_incoming rl)\<rparr>)"
    using full by (simp add: allow_incoming_cases bucket_admit_cases incoming_max_per_window_def
        incoming_window_def Let_def)
  then show ?thesis using closed by (simp add: incoming_backoff_def)
qed

lemma incoming_backs_off_witness:
  "accepted allow_incoming ([(''b'', 4), (''b'', secs 200)])
     \<lparr>rl_last_sent = [], rl_incoming = [(''b'', \<lparr>ib_recent = [1, 2, 3], ib_backoff_until = None\<rparr>)]\<rparr> = []"
  by (rule incoming_backs_off) (simp_all add: bucket_of_def in_window_def secs_def)

text \<open>
  Two KEYREQs to the same peer are at least thirty seconds apart.  Over
  any calls of \<open>allow_outgoing\<close> at non-decreasing times, a window shorter
  than thirty seconds holds at most one that was let through to a peer.
\<close>

theorem outgoing_spaced:
  assumes "sorted (map snd calls)"
  shows "window_count (secs 30 - 1) u
    (times_of peer (accepted allow_outgoing calls rate_limiter_new)) \<le> 1"
  using outgoing.window_bound_init [of rate_limiter_new calls u peer] assms
  by (simp add: rate_limiter_new_def rate_limit_window_def)

lemma outgoing_spaced_witness:
  "window_count (secs 30 - 1) 0 (times_of ''b'' (accepted allow_outgoing
     [(''b'', 1), (''b'', 2), (''b'', secs 31)] rate_limiter_new)) \<le> 1"
  by (rule outgoing_spaced) (simp add: secs_def)

end
