(* ===== verification/E2e_Keyring.thy ===== *)
theory E2e_Keyring
  imports E2e_Base "HOL-Library.Char_ord" "HOL-Library.List_Lexorder"
begin

text \<open>
  \<open>src/src/e2e/keyring.rs\<close>: the seven \<open>e2e_*\<close> tables behind the
  \<open>Keyring\<close>, with the encryption of the stored secrets by
  \<open>src/src/storage/crypto.rs\<close>.

  A table is the list of its rows in rowid order, keyed by its primary key; a
  row keeps what the columns hold (text for an enum, a blob for a key), so the
  checks and conversions of the readers are part of the model.  The SQL engine
  is assumed to run its statements; where a statement can violate a constraint
  the model returns the error.  The twelve bytes that \<open>encrypt_bytes\<close> draws
  are an argument.
\<close>

section \<open>Statuses and modes\<close>

datatype trust_status = Pending | Trusted | Revoked

definition trust_as_str :: "trust_status \<Rightarrow> bytes" where
  "trust_as_str s = (case s of Pending \<Rightarrow> ''pending'' | Trusted \<Rightarrow> ''trusted'' | Revoked \<Rightarrow> ''revoked'')"

definition trust_parse :: "bytes \<Rightarrow> trust_status" where
  "trust_parse s =
     (if s = ''trusted'' then Trusted else if s = ''revoked'' then Revoked else Pending)"

datatype channel_mode = AutoAccept | Normal | Quiet

definition mode_as_str :: "channel_mode \<Rightarrow> bytes" where
  "mode_as_str m =
     (case m of AutoAccept \<Rightarrow> ''auto-accept'' | Normal \<Rightarrow> ''normal'' | Quiet \<Rightarrow> ''quiet'')"

definition mode_parse :: "bytes \<Rightarrow> channel_mode" where
  "mode_parse s =
     (if s = ''auto-accept'' \<or> s = ''auto'' then AutoAccept
      else if s = ''quiet'' then Quiet else Normal)"

lemma trust_parse_as_str [simp]: "trust_parse (trust_as_str s) = s"
  by (cases s) (simp_all add: trust_parse_def trust_as_str_def)

lemma mode_parse_as_str [simp]: "mode_parse (mode_as_str m) = m"
  by (cases m) (simp_all add: mode_parse_def mode_as_str_def)

lemma trust_as_str_inject [simp]: "trust_as_str s = trust_as_str t \<longleftrightarrow> s = t"
  by (metis trust_parse_as_str)

lemma trust_as_str_trusted [simp]: "trust_as_str s = ''trusted'' \<longleftrightarrow> s = Trusted"
  by (cases s) (simp_all add: trust_as_str_def)

section \<open>Records and rows\<close>

record peer_record =
  pr_fingerprint :: bytes
  pr_pubkey :: bytes
  pr_last_handle :: "bytes option"
  pr_last_nick :: "bytes option"
  pr_first_seen :: i64
  pr_last_seen :: i64
  pr_status :: trust_status

record incoming_session =
  is_handle :: bytes
  is_channel :: bytes
  is_fingerprint :: bytes
  is_sk :: bytes
  is_status :: trust_status
  is_created_at :: i64

record outgoing_session =
  os_channel :: bytes
  os_sk :: bytes
  os_created_at :: i64
  os_pending_rotation :: bool

record channel_config =
  cc_channel :: bytes
  cc_enabled :: bool
  cc_mode :: channel_mode

record identity_row =
  iy_pubkey :: bytes
  iy_privkey :: bytes
  iy_fingerprint :: bytes
  iy_created_at :: i64

record peer_row =
  pw_pubkey :: bytes
  pw_last_handle :: "bytes option"
  pw_last_nick :: "bytes option"
  pw_first_seen :: i64
  pw_last_seen :: i64
  pw_status :: bytes

record incoming_row =
  iw_fingerprint :: bytes
  iw_sk :: bytes
  iw_status :: bytes
  iw_created_at :: i64

record outgoing_row =
  ow_sk :: bytes
  ow_created_at :: i64
  ow_pending_rotation :: i64

record keyring =
  kr_secret_key :: "bytes option"
  kr_identity :: "identity_row option"
  kr_peers :: "(bytes, peer_row) table"
  kr_incoming :: "(bytes \<times> bytes, incoming_row) table"
  kr_outgoing :: "(bytes, outgoing_row) table"
  kr_config :: "(bytes, i64 \<times> bytes) table"
  kr_autotrust :: "(bytes \<times> bytes, i64) table"
  kr_recipients :: "(bytes \<times> bytes, bytes \<times> i64) table"

definition keyring_new :: "bytes option \<Rightarrow> keyring" where
  "keyring_new key = \<lparr>kr_secret_key = key, kr_identity = None, kr_peers = [], kr_incoming = [],
     kr_outgoing = [], kr_config = [], kr_autotrust = [], kr_recipients = []\<rparr>"

section \<open>Stored secrets\<close>

definition secret_blob_version :: char where
  "secret_blob_version = byte_of 1"

definition encrypt_bytes :: "crypto \<Rightarrow> bytes \<Rightarrow> bytes \<Rightarrow> bytes \<Rightarrow> bytes + bytes" where
  "encrypt_bytes cr iv key plaintext =
     bind_res (map_err (\<lambda>e. ''encryption failed: '' @ e) (cr_gcm_encrypt cr key iv plaintext))
       (\<lambda>ct. Inr (secret_blob_version # iv @ ct))"

definition decrypt_bytes :: "crypto \<Rightarrow> bytes \<Rightarrow> bytes \<Rightarrow> bytes + bytes" where
  "decrypt_bytes cr key blob =
     (if length blob < 13 then Inl ''ciphertext too short''
      else if hd blob \<noteq> secret_blob_version then
        Inl (''unsupported secret blob version '' @ show_nat (byte_val (hd blob)))
      else map_err (\<lambda>e. ''decryption failed: '' @ e)
        (cr_gcm_decrypt cr key (take 12 (drop 1 blob)) (drop 13 blob)))"

definition encode_secret :: "crypto \<Rightarrow> bytes \<Rightarrow> keyring \<Rightarrow> bytes \<Rightarrow> e2e_error + bytes" where
  "encode_secret cr iv kr b =
     (case kr_secret_key kr of
        None \<Rightarrow> Inr b
      | Some key \<Rightarrow> map_err KeyringErr (encrypt_bytes cr iv key b))"

definition err_length :: "bytes \<Rightarrow> nat \<Rightarrow> e2e_error" where
  "err_length fld n = KeyringErr (fld @ '' has unexpected length '' @ show_nat n)"

definition decode_secret :: "crypto \<Rightarrow> nat \<Rightarrow> keyring \<Rightarrow> bytes \<Rightarrow> bytes \<Rightarrow> e2e_error + bytes" where
  "decode_secret cr n kr blob fld =
     bind_res
       (case kr_secret_key kr of
          Some key \<Rightarrow> if length blob \<noteq> n then map_err KeyringErr (decrypt_bytes cr key blob) else Inr blob
        | None \<Rightarrow> Inr blob)
       (\<lambda>decoded. if length decoded \<noteq> n then Inl (err_length fld (length decoded)) else Inr decoded)"

text \<open>What AES-GCM documents: decryption inverts encryption and a 16-byte tag is added.\<close>

definition gcm_ok :: "crypto \<Rightarrow> bool" where
  "gcm_ok cr \<longleftrightarrow>
     (\<forall>k iv p. length k = 32 \<longrightarrow> length iv = 12 \<longrightarrow> length p \<le> 4096 \<longrightarrow>
        (\<exists>c. cr_gcm_encrypt cr k iv p = Inr c \<and> cr_gcm_decrypt cr k iv c = Inr p \<and>
             length c = length p + 16))"

definition key_ok :: "keyring \<Rightarrow> bool" where
  "key_ok kr \<longleftrightarrow> (\<forall>k. kr_secret_key kr = Some k \<longrightarrow> length k = 32)"

lemma encrypt_decrypt_bytes:
  assumes "gcm_ok cr" "length key = 32" "length iv = 12" "length p \<le> 4096"
  obtains blob where "encrypt_bytes cr iv key p = Inr blob" "decrypt_bytes cr key blob = Inr p"
    "length blob = length p + 29"
proof -
  from assms obtain c where c: "cr_gcm_encrypt cr key iv p = Inr c" "cr_gcm_decrypt cr key iv c = Inr p"
    "length c = length p + 16" unfolding gcm_ok_def by blast
  show thesis
  proof
    show "encrypt_bytes cr iv key p = Inr (secret_blob_version # iv @ c)"
      using c by (simp add: encrypt_bytes_def)
    show "decrypt_bytes cr key (secret_blob_version # iv @ c) = Inr p"
      using c assms(3) by (simp add: decrypt_bytes_def)
  qed (use c assms in simp)
qed

lemma encode_decode_secret:
  assumes "gcm_ok cr" "key_ok kr" "length iv = 12" "length p = n" "n \<le> 4096"
  obtains blob where "encode_secret cr iv kr p = Inr blob"
    "\<And>kr' fld. kr_secret_key kr' = kr_secret_key kr \<Longrightarrow> decode_secret cr n kr' blob fld = Inr p"
proof (cases "kr_secret_key kr")
  case None
  with assms(4) show thesis
    by (intro that [of p]) (simp_all add: encode_secret_def decode_secret_def)
next
  case (Some key)
  with assms obtain blob where "encrypt_bytes cr iv key p = Inr blob" "decrypt_bytes cr key blob = Inr p"
    "length blob = length p + 29"
    using encrypt_decrypt_bytes [of cr key iv p] unfolding key_ok_def by metis
  with Some assms(4) show thesis
    by (intro that [of blob]) (simp_all add: encode_secret_def decode_secret_def)
qed

lemma encode_secret_total:
  assumes "gcm_ok cr" "key_ok kr" "length iv = 12" "length p \<le> 4096"
  shows "\<exists>enc. encode_secret cr iv kr p = Inr enc"
  by (rule encode_decode_secret [OF assms(1-3) refl assms(4)]) blast

section \<open>Identity\<close>

definition save_identity ::
  "crypto \<Rightarrow> bytes \<Rightarrow> bytes \<Rightarrow> bytes \<Rightarrow> bytes \<Rightarrow> i64 \<Rightarrow> keyring \<Rightarrow> e2e_error + keyring" where
  "save_identity cr iv pubkey privkey fp created_at kr =
     bind_res (encode_secret cr iv kr privkey) (\<lambda>enc.
     Inr (kr\<lparr>kr_identity := Some \<lparr>iy_pubkey = pubkey, iy_privkey = enc, iy_fingerprint = fp,
            iy_created_at = created_at\<rparr>\<rparr>))"

definition err_identity_lengths :: "bytes \<Rightarrow> bytes \<Rightarrow> e2e_error" where
  "err_identity_lengths pk fp =
     KeyringErr (''e2e_identity row has unexpected blob lengths (pk='' @ show_nat (length pk)
       @ '', fp='' @ show_nat (length fp) @ '')'')"

definition load_identity ::
  "crypto \<Rightarrow> keyring \<Rightarrow> e2e_error + (bytes \<times> bytes \<times> bytes \<times> i64) option" where
  "load_identity cr kr =
     (case kr_identity kr of
        None \<Rightarrow> Inr None
      | Some row \<Rightarrow>
          if length (iy_pubkey row) \<noteq> 32 \<or> length (iy_fingerprint row) \<noteq> 16 then
            Inl (err_identity_lengths (iy_pubkey row) (iy_fingerprint row))
          else
            bind_res (decode_secret cr 32 kr (iy_privkey row) ''e2e_identity privkey'') (\<lambda>sk.
            Inr (Some (iy_pubkey row, sk, iy_fingerprint row, iy_created_at row))))"

section \<open>Peers\<close>

definition peer_to_row :: "peer_record \<Rightarrow> peer_row" where
  "peer_to_row r = \<lparr>pw_pubkey = pr_pubkey r, pw_last_handle = pr_last_handle r,
     pw_last_nick = pr_last_nick r, pw_first_seen = pr_first_seen r, pw_last_seen = pr_last_seen r,
     pw_status = trust_as_str (pr_status r)\<rparr>"

definition row_to_peer :: "bytes \<Rightarrow> peer_row \<Rightarrow> peer_record" where
  "row_to_peer fp w = \<lparr>pr_fingerprint = fp, pr_pubkey = pw_pubkey w, pr_last_handle = pw_last_handle w,
     pr_last_nick = pw_last_nick w, pr_first_seen = pw_first_seen w, pr_last_seen = pw_last_seen w,
     pr_status = trust_parse (pw_status w)\<rparr>"

definition upsert_peer :: "peer_record \<Rightarrow> keyring \<Rightarrow> keyring" where
  "upsert_peer r kr =
     kr\<lparr>kr_peers := tbl_upsert (pr_fingerprint r) (peer_to_row r)
         (\<lambda>w. w\<lparr>pw_last_handle := pr_last_handle r, pw_last_nick := pr_last_nick r,
                pw_last_seen := pr_last_seen r, pw_status := trust_as_str (pr_status r)\<rparr>)
         (kr_peers kr)\<rparr>"

definition get_peer_by_fingerprint :: "keyring \<Rightarrow> bytes \<Rightarrow> e2e_error + peer_record option" where
  "get_peer_by_fingerprint kr fp =
     (case map_of (kr_peers kr) fp of
        None \<Rightarrow> Inr None
      | Some w \<Rightarrow>
          if length (pw_pubkey w) \<noteq> 32 then
            Inl (err_length ''e2e_peers row pubkey'' (length (pw_pubkey w)))
          else Inr (Some (row_to_peer fp w)))"

text \<open>
  \<open>ORDER BY last_seen DESC LIMIT 1\<close>.  SQL leaves the order of equal keys open;
  the model takes the row with the smallest rowid.
\<close>

fun latest_row :: "(bytes \<times> peer_row) list \<Rightarrow> (bytes \<times> peer_row) option" where
  "latest_row [] = None"
| "latest_row (r # rs) =
     (case latest_row rs of
        None \<Rightarrow> Some r
      | Some b \<Rightarrow> if sint (pw_last_seen (snd r)) < sint (pw_last_seen (snd b)) then Some b else Some r)"

definition err_peer_lengths :: "bytes \<Rightarrow> bytes \<Rightarrow> e2e_error" where
  "err_peer_lengths fp pk =
     KeyringErr (''e2e_peers row has unexpected blob lengths (fp='' @ show_nat (length fp)
       @ '', pk='' @ show_nat (length pk) @ '')'')"

definition get_peer_by_handle :: "keyring \<Rightarrow> bytes \<Rightarrow> e2e_error + peer_record option" where
  "get_peer_by_handle kr handle =
     (case latest_row (filter (\<lambda>(_, w). pw_last_handle w = Some handle) (kr_peers kr)) of
        None \<Rightarrow> Inr None
      | Some (fp, w) \<Rightarrow>
          if length fp \<noteq> 16 \<or> length (pw_pubkey w) \<noteq> 32 then
            Inl (err_peer_lengths fp (pw_pubkey w))
          else Inr (Some (row_to_peer fp w)))"

definition delete_peer_by_fingerprint :: "bytes \<Rightarrow> keyring \<Rightarrow> keyring" where
  "delete_peer_by_fingerprint fp kr = kr\<lparr>kr_peers := tbl_delete (\<lambda>k. k = fp) (kr_peers kr)\<rparr>"

definition list_all_peers :: "keyring \<Rightarrow> e2e_error + peer_record list" where
  "list_all_peers kr =
     map_res (\<lambda>(fp, w).
       if length fp \<noteq> 16 \<or> length (pw_pubkey w) \<noteq> 32 then Inl (err_peer_lengths fp (pw_pubkey w))
       else Inr (row_to_peer fp w))
     (sort_key (\<lambda>(_, w). sint (pw_first_seen w)) (kr_peers kr))"

section \<open>Outgoing sessions\<close>

definition set_outgoing_session ::
  "crypto \<Rightarrow> bytes \<Rightarrow> bytes \<Rightarrow> bytes \<Rightarrow> i64 \<Rightarrow> keyring \<Rightarrow> e2e_error + keyring" where
  "set_outgoing_session cr iv channel sk created_at kr =
     bind_res (encode_secret cr iv kr sk) (\<lambda>enc.
     Inr (kr\<lparr>kr_outgoing := tbl_replace channel
         \<lparr>ow_sk = enc, ow_created_at = created_at, ow_pending_rotation = 0\<rparr> (kr_outgoing kr)\<rparr>))"

definition row_to_outgoing ::
  "crypto \<Rightarrow> keyring \<Rightarrow> bytes \<Rightarrow> outgoing_row \<Rightarrow> e2e_error + outgoing_session" where
  "row_to_outgoing cr kr channel w =
     bind_res (decode_secret cr 32 kr (ow_sk w) ''e2e_outgoing_sessions sk'') (\<lambda>k.
     Inr \<lparr>os_channel = channel, os_sk = k, os_created_at = ow_created_at w,
          os_pending_rotation = (ow_pending_rotation w \<noteq> 0)\<rparr>)"

definition get_outgoing_session ::
  "crypto \<Rightarrow> keyring \<Rightarrow> bytes \<Rightarrow> e2e_error + outgoing_session option" where
  "get_outgoing_session cr kr channel =
     (case map_of (kr_outgoing kr) channel of
        None \<Rightarrow> Inr None
      | Some w \<Rightarrow> bind_res (row_to_outgoing cr kr channel w) (\<lambda>s. Inr (Some s)))"

definition mark_outgoing_pending_rotation :: "bytes \<Rightarrow> keyring \<Rightarrow> keyring" where
  "mark_outgoing_pending_rotation channel kr =
     kr\<lparr>kr_outgoing := tbl_update channel (\<lambda>w. w\<lparr>ow_pending_rotation := 1\<rparr>) (kr_outgoing kr)\<rparr>"

definition clear_outgoing_pending_rotation :: "bytes \<Rightarrow> keyring \<Rightarrow> keyring" where
  "clear_outgoing_pending_rotation channel kr =
     kr\<lparr>kr_outgoing := tbl_update channel (\<lambda>w. w\<lparr>ow_pending_rotation := 0\<rparr>) (kr_outgoing kr)\<rparr>"

definition list_all_outgoing_sessions :: "crypto \<Rightarrow> keyring \<Rightarrow> e2e_error + outgoing_session list" where
  "list_all_outgoing_sessions cr kr =
     map_res (\<lambda>(channel, w). row_to_outgoing cr kr channel w) (sort_key fst (kr_outgoing kr))"

section \<open>Incoming sessions\<close>

definition put_incoming :: "incoming_session \<Rightarrow> bytes \<Rightarrow> keyring \<Rightarrow> keyring" where
  "put_incoming s enc kr =
     kr\<lparr>kr_incoming := tbl_replace (is_handle s, is_channel s)
         \<lparr>iw_fingerprint = is_fingerprint s, iw_sk = enc, iw_status = trust_as_str (is_status s),
          iw_created_at = is_created_at s\<rparr> (kr_incoming kr)\<rparr>"

definition set_incoming_session ::
  "crypto \<Rightarrow> bytes \<Rightarrow> incoming_session \<Rightarrow> keyring \<Rightarrow> e2e_error + keyring" where
  "set_incoming_session cr iv s kr =
     bind_res (encode_secret cr iv kr (is_sk s)) (\<lambda>enc. Inr (put_incoming s enc kr))"

definition err_session_mismatch :: "crypto \<Rightarrow> bytes \<Rightarrow> bytes \<Rightarrow> e2e_error" where
  "err_session_mismatch cr old new =
     HandleMismatch (''fp='' @ cr_hex_encode cr old) (''fp='' @ cr_hex_encode cr new)"

definition install_incoming_session_strict ::
  "crypto \<Rightarrow> bytes \<Rightarrow> incoming_session \<Rightarrow> keyring \<Rightarrow> e2e_error + keyring" where
  "install_incoming_session_strict cr iv s kr =
     bind_res (encode_secret cr iv kr (is_sk s)) (\<lambda>enc.
     (case map_of (kr_incoming kr) (is_handle s, is_channel s) of
        Some w \<Rightarrow>
          if iw_fingerprint w \<noteq> is_fingerprint s then
            Inl (err_session_mismatch cr (iw_fingerprint w) (is_fingerprint s))
          else Inr (put_incoming s enc kr)
      | None \<Rightarrow> Inr (put_incoming s enc kr)))"

definition err_session_lengths :: "bytes \<Rightarrow> e2e_error" where
  "err_session_lengths fp =
     KeyringErr (''e2e_incoming_sessions row has unexpected blob lengths (fp=''
       @ show_nat (length fp) @ '')'')"

definition row_to_incoming ::
  "crypto \<Rightarrow> keyring \<Rightarrow> bytes \<times> bytes \<Rightarrow> incoming_row \<Rightarrow> e2e_error + incoming_session" where
  "row_to_incoming cr kr key w =
     (if length (iw_fingerprint w) \<noteq> 16 then Inl (err_session_lengths (iw_fingerprint w))
      else bind_res (decode_secret cr 32 kr (iw_sk w) ''e2e_incoming_sessions sk'') (\<lambda>sk.
        Inr \<lparr>is_handle = fst key, is_channel = snd key, is_fingerprint = iw_fingerprint w,
             is_sk = sk, is_status = trust_parse (iw_status w), is_created_at = iw_created_at w\<rparr>))"

definition get_incoming_session ::
  "crypto \<Rightarrow> keyring \<Rightarrow> bytes \<Rightarrow> bytes \<Rightarrow> e2e_error + incoming_session option" where
  "get_incoming_session cr kr handle channel =
     (case map_of (kr_incoming kr) (handle, channel) of
        None \<Rightarrow> Inr None
      | Some w \<Rightarrow> bind_res (row_to_incoming cr kr (handle, channel) w) (\<lambda>s. Inr (Some s)))"

definition update_incoming_status :: "bytes \<Rightarrow> bytes \<Rightarrow> trust_status \<Rightarrow> keyring \<Rightarrow> keyring" where
  "update_incoming_status handle channel st kr =
     kr\<lparr>kr_incoming := tbl_update (handle, channel) (\<lambda>w. w\<lparr>iw_status := trust_as_str st\<rparr>) (kr_incoming kr)\<rparr>"

definition delete_incoming_session :: "bytes \<Rightarrow> bytes \<Rightarrow> keyring \<Rightarrow> keyring" where
  "delete_incoming_session handle channel kr =
     kr\<lparr>kr_incoming := tbl_delete (\<lambda>k. k = (handle, channel)) (kr_incoming kr)\<rparr>"

text \<open>The number of rows that a \<open>DELETE\<close> removes is the difference of the lengths.\<close>

definition delete_incoming_sessions_for_handle :: "bytes \<Rightarrow> keyring \<Rightarrow> nat \<times> keyring" where
  "delete_incoming_sessions_for_handle handle kr =
     (let t = tbl_delete (\<lambda>(h, _). h = handle) (kr_incoming kr)
      in (length (kr_incoming kr) - length t, kr\<lparr>kr_incoming := t\<rparr>))"

definition delete_outgoing_recipients_for_handle :: "bytes \<Rightarrow> keyring \<Rightarrow> nat \<times> keyring" where
  "delete_outgoing_recipients_for_handle handle kr =
     (let t = tbl_delete (\<lambda>(_, h). h = handle) (kr_recipients kr)
      in (length (kr_recipients kr) - length t, kr\<lparr>kr_recipients := t\<rparr>))"

definition list_trusted_peers_for_channel ::
  "crypto \<Rightarrow> keyring \<Rightarrow> bytes \<Rightarrow> e2e_error + incoming_session list" where
  "list_trusted_peers_for_channel cr kr channel =
     map_res (\<lambda>(key, w). row_to_incoming cr kr key w)
       (filter (\<lambda>((_, c), w). c = channel \<and> iw_status w = ''trusted'') (kr_incoming kr))"

definition list_all_incoming_sessions :: "crypto \<Rightarrow> keyring \<Rightarrow> e2e_error + incoming_session list" where
  "list_all_incoming_sessions cr kr =
     map_res (\<lambda>(key, w). row_to_incoming cr kr key w)
       (sort_key (\<lambda>((_, c), _). c) (sort_key (\<lambda>((h, _), _). h) (kr_incoming kr)))"

section \<open>Channel configuration\<close>

definition sql_bool :: "bool \<Rightarrow> i64" where
  "sql_bool b = (if b then 1 else 0)"

definition set_channel_config :: "channel_config \<Rightarrow> keyring \<Rightarrow> keyring" where
  "set_channel_config cfg kr =
     kr\<lparr>kr_config := tbl_replace (cc_channel cfg) (sql_bool (cc_enabled cfg), mode_as_str (cc_mode cfg))
         (kr_config kr)\<rparr>"

definition row_to_config :: "bytes \<Rightarrow> i64 \<times> bytes \<Rightarrow> channel_config" where
  "row_to_config channel w =
     \<lparr>cc_channel = channel, cc_enabled = (fst w \<noteq> 0), cc_mode = mode_parse (snd w)\<rparr>"

definition get_channel_config :: "keyring \<Rightarrow> bytes \<Rightarrow> channel_config option" where
  "get_channel_config kr channel = map_option (row_to_config channel) (map_of (kr_config kr) channel)"

definition list_all_channel_configs :: "keyring \<Rightarrow> channel_config list" where
  "list_all_channel_configs kr = map (\<lambda>(c, w). row_to_config c w) (sort_key fst (kr_config kr))"

section \<open>Autotrust rules\<close>

text \<open>
  \<open>glob_matches_ci\<close>.  The loop's variables are those of the code, with
  \<open>ii = star_inp + d\<close>: without a star \<open>star_inp\<close> is 0 and \<open>d\<close> is \<open>ii\<close>.  The
  elements are characters, so the loop is polymorphic in them; \<open>q\<close> and \<open>a\<close>
  are the characters \<open>?\<close> and \<open>*\<close>.
\<close>

function glob_loop ::
  "'c \<Rightarrow> 'c \<Rightarrow> 'c list \<Rightarrow> 'c list \<Rightarrow> nat \<Rightarrow> nat option \<Rightarrow> nat \<Rightarrow> nat \<Rightarrow> bool" where
  "glob_loop q a pat inp pi star_pat star_inp d =
     (let ii = star_inp + d in
      if ii < length inp then
        if pi < length pat \<and> (pat ! pi = q \<or> pat ! pi = inp ! ii) then
          glob_loop q a pat inp (pi + 1) star_pat star_inp (d + 1)
        else if pi < length pat \<and> pat ! pi = a then
          glob_loop q a pat inp (pi + 1) (Some pi) ii 0
        else (case star_pat of
                Some sp \<Rightarrow> glob_loop q a pat inp (sp + 1) star_pat (star_inp + 1) 0
              | None \<Rightarrow> False)
      else dropWhile (\<lambda>c. c = a) (drop pi pat) = [])"
  by pat_completeness auto

termination
  by (relation "measures [\<lambda>(q, a, pat, inp, pi, star_pat, star_inp, d). length inp - star_inp,
      \<lambda>(q, a, pat, inp, pi, star_pat, star_inp, d). length inp - (star_inp + d),
      \<lambda>(q, a, pat, inp, pi, star_pat, star_inp, d). length pat - pi]") auto

declare glob_loop.simps [simp del]

text \<open>
  \<open>chars().flat_map(char::to_lowercase)\<close>; the Unicode table \<open>lower\<close> of the
  standard library is an argument.
\<close>

definition lower_chars :: "(bytes \<Rightarrow> bytes list) \<Rightarrow> bytes \<Rightarrow> bytes list" where
  "lower_chars lower s = concat (map lower (utf8_chars s))"

definition glob_matches_ci :: "(bytes \<Rightarrow> bytes list) \<Rightarrow> bytes \<Rightarrow> bytes \<Rightarrow> bool" where
  "glob_matches_ci lower pattern input =
     glob_loop ''?'' ''*'' (lower_chars lower pattern) (lower_chars lower input) 0 None 0 0"

definition add_autotrust :: "bytes \<Rightarrow> bytes \<Rightarrow> i64 \<Rightarrow> keyring \<Rightarrow> keyring" where
  "add_autotrust scope pattern created_at kr =
     (if map_of (kr_autotrust kr) (scope, pattern) = None
      then kr\<lparr>kr_autotrust := kr_autotrust kr @ [((scope, pattern), created_at)]\<rparr> else kr)"

definition list_autotrust :: "keyring \<Rightarrow> (bytes \<times> bytes) list" where
  "list_autotrust kr = map fst (kr_autotrust kr)"

definition get_autotrust_rules_for_scope :: "keyring \<Rightarrow> bytes \<Rightarrow> bytes list" where
  "get_autotrust_rules_for_scope kr channel =
     map (snd \<circ> fst) (filter (\<lambda>((scope, _), _). scope = ''global'' \<or> scope = channel) (kr_autotrust kr))"

definition autotrust_matches ::
  "(bytes \<Rightarrow> bytes list) \<Rightarrow> keyring \<Rightarrow> bytes \<Rightarrow> bytes \<Rightarrow> bool" where
  "autotrust_matches lower kr handle channel =
     list_ex (\<lambda>((scope, pat), _). (scope = ''global'' \<or> scope = channel) \<and> glob_matches_ci lower pat handle)
       (kr_autotrust kr)"

definition remove_autotrust :: "bytes \<Rightarrow> keyring \<Rightarrow> keyring" where
  "remove_autotrust pattern kr =
     kr\<lparr>kr_autotrust := tbl_delete (\<lambda>(_, p). p = pattern) (kr_autotrust kr)\<rparr>"

section \<open>Recipients of the outgoing key\<close>

definition record_outgoing_recipient :: "bytes \<Rightarrow> bytes \<Rightarrow> bytes \<Rightarrow> i64 \<Rightarrow> keyring \<Rightarrow> keyring" where
  "record_outgoing_recipient channel handle fp first_sent_at kr =
     kr\<lparr>kr_recipients := tbl_upsert (channel, handle) (fp, first_sent_at)
         (\<lambda>(_, t). (fp, t)) (kr_recipients kr)\<rparr>"

definition remove_outgoing_recipient :: "bytes \<Rightarrow> bytes \<Rightarrow> keyring \<Rightarrow> keyring" where
  "remove_outgoing_recipient channel handle kr =
     kr\<lparr>kr_recipients := tbl_delete (\<lambda>k. k = (channel, handle)) (kr_recipients kr)\<rparr>"

definition list_outgoing_recipients :: "keyring \<Rightarrow> bytes \<Rightarrow> e2e_error + (bytes \<times> bytes) list" where
  "list_outgoing_recipients kr channel =
     map_res (\<lambda>((_, h), (fp, _)).
       if length fp \<noteq> 16 then
         Inl (err_length ''e2e_outgoing_recipients row fingerprint'' (length fp))
       else Inr (h, fp))
     (sort_key (\<lambda>(_, (_, t)). sint t) (filter (\<lambda>((c, _), _). c = channel) (kr_recipients kr)))"

section \<open>Replacing everything on import\<close>

definition err_unique :: e2e_error where
  "err_unique = Sqlite ''UNIQUE constraint failed''"

definition insert_row :: "'k \<Rightarrow> 'v \<Rightarrow> ('k, 'v) table \<Rightarrow> e2e_error + ('k, 'v) table" where
  "insert_row k v t = (if map_of t k = None then Inr (t @ [(k, v)]) else Inl err_unique)"

fun insert_rows :: "('k \<times> 'v) list \<Rightarrow> ('k, 'v) table \<Rightarrow> e2e_error + ('k, 'v) table" where
  "insert_rows [] t = Inr t"
| "insert_rows ((k, v) # rs) t = bind_res (insert_row k v t) (insert_rows rs)"

fun import_incoming ::
  "crypto \<Rightarrow> (nat \<Rightarrow> bytes) \<Rightarrow> nat \<Rightarrow> incoming_session list \<Rightarrow> keyring \<Rightarrow> e2e_error + keyring" where
  "import_incoming cr ivs n [] kr = Inr kr"
| "import_incoming cr ivs n (s # ss) kr =
     bind_res (encode_secret cr (ivs n) kr (is_sk s)) (\<lambda>enc.
     bind_res (insert_row (is_handle s, is_channel s)
       \<lparr>iw_fingerprint = is_fingerprint s, iw_sk = enc, iw_status = trust_as_str (is_status s),
        iw_created_at = is_created_at s\<rparr> (kr_incoming kr)) (\<lambda>t.
     import_incoming cr ivs (Suc n) ss (kr\<lparr>kr_incoming := t\<rparr>)))"

fun import_outgoing ::
  "crypto \<Rightarrow> (nat \<Rightarrow> bytes) \<Rightarrow> nat \<Rightarrow> outgoing_session list \<Rightarrow> keyring \<Rightarrow> e2e_error + keyring" where
  "import_outgoing cr ivs n [] kr = Inr kr"
| "import_outgoing cr ivs n (s # ss) kr =
     bind_res (encode_secret cr (ivs n) kr (os_sk s)) (\<lambda>enc.
     bind_res (insert_row (os_channel s)
       \<lparr>ow_sk = enc, ow_created_at = os_created_at s,
        ow_pending_rotation = sql_bool (os_pending_rotation s)\<rparr> (kr_outgoing kr)) (\<lambda>t.
     import_outgoing cr ivs (Suc n) ss (kr\<lparr>kr_outgoing := t\<rparr>)))"

text \<open>
  One transaction: the result is the new keyring, or an error, and then the
  caller's keyring stands because nothing was committed.
\<close>

definition replace_all_for_import ::
  "crypto \<Rightarrow> (nat \<Rightarrow> bytes) \<Rightarrow> bytes \<times> bytes \<times> bytes \<times> i64 \<Rightarrow> peer_record list \<Rightarrow>
   incoming_session list \<Rightarrow> outgoing_session list \<Rightarrow> channel_config list \<Rightarrow>
   (bytes \<times> bytes \<times> i64) list \<Rightarrow> keyring \<Rightarrow> e2e_error + keyring" where
  "replace_all_for_import cr ivs ident peers incoming outgoing channels autotrust kr =
     (let kr0 = keyring_new (kr_secret_key kr); (pubkey, privkey, fp, created_at) = ident in
      bind_res (save_identity cr (ivs 0) pubkey privkey fp created_at kr0) (\<lambda>kr1.
      bind_res (insert_rows (map (\<lambda>r. (pr_fingerprint r, peer_to_row r)) peers) (kr_peers kr1)) (\<lambda>ps.
      bind_res (import_incoming cr ivs 1 incoming (kr1\<lparr>kr_peers := ps\<rparr>)) (\<lambda>kr2.
      bind_res (import_outgoing cr ivs (1 + length incoming) outgoing kr2) (\<lambda>kr3.
      bind_res (insert_rows (map (\<lambda>c. (cc_channel c, (sql_bool (cc_enabled c), mode_as_str (cc_mode c))))
        channels) (kr_config kr3)) (\<lambda>cs.
      bind_res (insert_rows (map (\<lambda>(scope, pat, t). ((scope, pat), t)) autotrust) (kr_autotrust kr3)) (\<lambda>au.
      Inr (kr3\<lparr>kr_config := cs, kr_autotrust := au\<rparr>))))))))"

section \<open>The glob matcher is the declarative one\<close>

fun glob_ref :: "'c \<Rightarrow> 'c \<Rightarrow> 'c list \<Rightarrow> 'c list \<Rightarrow> bool" where
  "glob_ref q a [] i = (i = [])"
| "glob_ref q a (p # ps) i =
     (if p = a then glob_ref q a ps i \<or> (case i of [] \<Rightarrow> False | _ # i' \<Rightarrow> glob_ref q a (p # ps) i')
      else (case i of [] \<Rightarrow> False | c # i' \<Rightarrow> (p = q \<or> p = c) \<and> glob_ref q a ps i'))"

lemma glob_ref_star: "glob_ref q a (a # ps) i \<longleftrightarrow> (\<exists>k\<le>length i. glob_ref q a ps (drop k i))"
proof (induction i)
  case (Cons c i)
  have "(\<exists>k\<le>length (c # i). glob_ref q a ps (drop k (c # i))) \<longleftrightarrow>
      glob_ref q a ps (c # i) \<or> (\<exists>k\<le>length i. glob_ref q a ps (drop k i))"
    by (metis (no_types, lifting) Suc_le_mono drop0 drop_Suc_Cons le0 length_Cons not0_implies_Suc)
  with Cons show ?case by simp
qed simp

lemma glob_ref_empty: "glob_ref q a ps [] \<longleftrightarrow> dropWhile (\<lambda>c. c = a) ps = []"
  by (induction ps) auto

lemma glob_ref_plain:
  "a \<notin> set u \<Longrightarrow> glob_ref q a (u @ ps) i \<Longrightarrow> length u \<le> length i \<and> glob_ref q a ps (drop (length u) i)"
  by (induction u arbitrary: i) (auto split: list.splits)

text \<open>
  What the loop still has to try, in terms of the declarative matcher: the rest
  from here, or the pattern after the last star on a later suffix of the input.
  Alternatives of an earlier star need not be kept, because what they could
  match is matched by the last one.
\<close>

definition glob_open :: "'c \<Rightarrow> 'c \<Rightarrow> 'c list \<Rightarrow> 'c list \<Rightarrow> nat \<Rightarrow> nat option \<Rightarrow> nat \<Rightarrow> nat \<Rightarrow> bool" where
  "glob_open q a pat inp pi star_pat star_inp d \<longleftrightarrow>
     glob_ref q a (drop pi pat) (drop (star_inp + d) inp) \<or>
     (\<exists>sp k. star_pat = Some sp \<and> 0 < k \<and> star_inp + k \<le> length inp \<and>
        glob_ref q a (drop (sp + 1) pat) (drop (star_inp + k) inp))"

definition glob_inv :: "'c \<Rightarrow> 'c list \<Rightarrow> 'c list \<Rightarrow> nat \<Rightarrow> nat option \<Rightarrow> nat \<Rightarrow> nat \<Rightarrow> bool" where
  "glob_inv a pat inp pi star_pat star_inp d \<longleftrightarrow>
     star_inp + d \<le> length inp \<and>
     (\<forall>sp. star_pat = Some sp \<longrightarrow>
        (\<exists>u. drop (sp + 1) pat = u @ drop pi pat \<and> length u = d \<and> a \<notin> set u))"

lemma glob_step_match:
  assumes "pi < length pat" "star_inp + d < length inp" "pat ! pi \<noteq> a"
    "pat ! pi = q \<or> pat ! pi = inp ! (star_inp + d)"
  shows "glob_open q a pat inp (pi + 1) star_pat star_inp (d + 1) =
         glob_open q a pat inp pi star_pat star_inp d"
  using assms by (simp add: glob_open_def Cons_nth_drop_Suc [symmetric])

lemma glob_step_star:
  assumes "glob_inv a pat inp pi star_pat star_inp d" "pi < length pat" "pat ! pi = a"
  shows "glob_open q a pat inp (pi + 1) (Some pi) (star_inp + d) 0 =
         glob_open q a pat inp pi star_pat star_inp d"
proof -
  let ?ii = "star_inp + d" and ?rest = "drop (Suc pi) pat"
  have p: "drop pi pat = a # ?rest" using assms(2,3) by (metis Cons_nth_drop_Suc)
  have le: "?ii \<le> length inp" using assms(1) by (simp add: glob_inv_def)
  have star: "glob_ref q a (a # ?rest) (drop ?ii inp) \<longleftrightarrow> (\<exists>k. ?ii + k \<le> length inp \<and> glob_ref q a ?rest (drop (?ii + k) inp))"
    unfolding glob_ref_star length_drop drop_drop using le
    by (simp add: le_diff_conv2 add.commute)
  have new: "glob_open q a pat inp (pi + 1) (Some pi) ?ii 0 \<longleftrightarrow> glob_ref q a (a # ?rest) (drop ?ii inp)"
  proof -
    have "glob_open q a pat inp (pi + 1) (Some pi) ?ii 0 \<longleftrightarrow>
        (\<exists>k. ?ii + k \<le> length inp \<and> glob_ref q a ?rest (drop (?ii + k) inp))"
      using le unfolding glob_open_def by (auto intro: exI [of _ 0]) (metis add.right_neutral not_gr_zero)
    with star show ?thesis by blast
  qed
  have "glob_ref q a (a # ?rest) (drop ?ii inp)"
    if "star_pat = Some sp" "star_inp + k \<le> length inp"
      "glob_ref q a (drop (sp + 1) pat) (drop (star_inp + k) inp)" for sp k
  proof -
    from assms(1) that(1) obtain u where u: "drop (sp + 1) pat = u @ drop pi pat" "length u = d" "a \<notin> set u"
      unfolding glob_inv_def by blast
    from glob_ref_plain [OF u(3), of q "drop pi pat" "drop (star_inp + k) inp"] that(3) u(1,2) p
    have r: "d \<le> length inp - (star_inp + k)" "glob_ref q a (a # ?rest) (drop (?ii + k) inp)"
      by (simp_all add: add.commute add.left_commute)
    then obtain j where "j \<le> length (drop (?ii + k) inp)" "glob_ref q a ?rest (drop j (drop (?ii + k) inp))"
      unfolding glob_ref_star by blast
    then have "?ii + (k + j) \<le> length inp \<and> glob_ref q a ?rest (drop (?ii + (k + j)) inp)"
      using r(1) that(2) by (auto simp: add.commute add.left_commute)
    then show ?thesis unfolding star by blast
  qed
  then have "glob_open q a pat inp pi star_pat star_inp d \<longleftrightarrow> glob_ref q a (a # ?rest) (drop ?ii inp)"
    unfolding glob_open_def p by blast
  with new show ?thesis by simp
qed

lemma glob_step_back:
  assumes "star_inp + d < length inp" "star_pat = Some sp"
    "\<not> glob_ref q a (drop pi pat) (drop (star_inp + d) inp)"
  shows "glob_open q a pat inp (sp + 1) (Some sp) (star_inp + 1) 0 =
         glob_open q a pat inp pi star_pat star_inp d"
proof -
  have "(\<exists>k. 0 < k \<and> star_inp + k \<le> length inp \<and> P (star_inp + k)) \<longleftrightarrow>
      P (star_inp + 1) \<or> (\<exists>k. 0 < k \<and> star_inp + 1 + k \<le> length inp \<and> P (star_inp + 1 + k))" for P
  proof -
    have "(\<exists>k. 0 < k \<and> star_inp + k \<le> length inp \<and> P (star_inp + k)) \<longleftrightarrow>
        (\<exists>j. star_inp + Suc j \<le> length inp \<and> P (star_inp + Suc j))"
      by (metis Suc_pred zero_less_Suc)
    also have "\<dots> \<longleftrightarrow> P (star_inp + 1) \<or> (\<exists>j. 0 < j \<and> star_inp + Suc j \<le> length inp \<and> P (star_inp + Suc j))"
      using assms(1) by (metis One_nat_def Suc_leI add_Suc_right add_lessD1 not_gr_zero le_add1 add.right_neutral)
    finally show ?thesis by simp
  qed
  from this [of "\<lambda>i. glob_ref q a (drop (sp + 1) pat) (drop i inp)"] assms(2,3)
  show ?thesis by (simp add: glob_open_def)
qed

lemma glob_step_end:
  assumes "glob_inv a pat inp pi star_pat star_inp d" "length inp \<le> star_inp + d"
  shows "glob_open q a pat inp pi star_pat star_inp d \<longleftrightarrow> dropWhile (\<lambda>c. c = a) (drop pi pat) = []"
proof -
  have "\<not> glob_ref q a (drop (sp + 1) pat) (drop (star_inp + k) inp)"
    if "star_pat = Some sp" "0 < k" "star_inp + k \<le> length inp" for sp k
  proof
    assume m: "glob_ref q a (drop (sp + 1) pat) (drop (star_inp + k) inp)"
    from assms(1) that(1) obtain u where u: "drop (sp + 1) pat = u @ drop pi pat" "length u = d" "a \<notin> set u"
      unfolding glob_inv_def by blast
    from glob_ref_plain [OF u(3), of q "drop pi pat" "drop (star_inp + k) inp"] m u(1,2) have "d \<le> length inp - (star_inp + k)" by simp
    with assms(2) that(2,3) show False by simp
  qed
  then show ?thesis using assms(2) by (auto simp: glob_open_def glob_ref_empty)
qed

lemma glob_mismatch:
  assumes "star_inp + d < length inp"
    "\<not> (pi < length pat \<and> (pat ! pi = q \<or> pat ! pi = inp ! (star_inp + d)))"
    "\<not> (pi < length pat \<and> pat ! pi = a)"
  shows "\<not> glob_ref q a (drop pi pat) (drop (star_inp + d) inp)"
proof (cases "pi < length pat")
  case True
  with assms show ?thesis by (simp add: Cons_nth_drop_Suc [symmetric])
qed (use assms(1) in simp)

lemma glob_loop_open:
  "glob_inv a pat inp pi star_pat star_inp d \<Longrightarrow> q \<noteq> a \<Longrightarrow> a \<notin> set inp \<Longrightarrow>
   glob_loop q a pat inp pi star_pat star_inp d \<longleftrightarrow> glob_open q a pat inp pi star_pat star_inp d"
proof (induction q a pat inp pi star_pat star_inp d rule: glob_loop.induct)
  case (1 q a pat inp pi star_pat star_inp d)
  let ?ii = "star_inp + d"
  note IH = "1.IH" [OF refl]
  note inv = "1.prems"(1)
  show ?case
  proof (cases "?ii < length inp")
    case False
    then show ?thesis using glob_step_end [OF inv] by (simp add: glob_loop.simps [of q a])
  next
    case lt: True
    show ?thesis
    proof (cases "pi < length pat \<and> (pat ! pi = q \<or> pat ! pi = inp ! ?ii)")
      case True
      have na: "pat ! pi \<noteq> a" using True "1.prems"(2,3) lt nth_mem by metis
      have "glob_inv a pat inp (pi + 1) star_pat star_inp (d + 1)"
        unfolding glob_inv_def
      proof (intro conjI allI impI)
        fix sp assume "star_pat = Some sp"
        with inv obtain u where u: "drop (sp + 1) pat = u @ drop pi pat" "length u = d" "a \<notin> set u"
          unfolding glob_inv_def by blast
        have "drop pi pat = pat ! pi # drop (pi + 1) pat" using True by (simp add: Cons_nth_drop_Suc)
        with u na show "\<exists>u. drop (sp + 1) pat = u @ drop (pi + 1) pat \<and> length u = d + 1 \<and> a \<notin> set u"
          by (intro exI [of _ "u @ [pat ! pi]"]) simp
      qed (use lt in simp)
      from IH(1) [OF lt True this "1.prems"(2,3)] glob_step_match [of pi pat star_inp d inp a q] True lt na
      show ?thesis by (simp add: glob_loop.simps [of q a pat inp pi])
    next
      case nm: False
      show ?thesis
      proof (cases "pi < length pat \<and> pat ! pi = a")
        case True
        have "glob_inv a pat inp (pi + 1) (Some pi) ?ii 0" using lt by (simp add: glob_inv_def)
        from IH(2) [OF lt nm True this "1.prems"(2,3)] glob_step_star [OF inv, of q] True lt nm
        show ?thesis by (simp add: glob_loop.simps [of q a pat inp pi])
      next
        case ns: False
        note mis = glob_mismatch [OF lt nm ns]
        show ?thesis
        proof (cases star_pat)
          case None
          with mis lt nm ns show ?thesis by (simp add: glob_loop.simps [of q a pat inp pi] glob_open_def)
        next
          case (Some sp)
          have "glob_inv a pat inp (sp + 1) star_pat (star_inp + 1) 0"
            using lt Some by (simp add: glob_inv_def)
          from IH(3) [OF lt nm ns Some this "1.prems"(2,3)] glob_step_back [OF lt Some mis] lt nm ns Some
          show ?thesis
            by (cases "pi < length pat") (simp_all add: glob_loop.simps [of q a pat inp pi] Let_def)
        qed
      qed
    qed
  qed
qed

text \<open>In one direction the loop needs no condition: what it matches, the pattern means.\<close>

lemma glob_ref_one: "glob_ref q a ps i \<Longrightarrow> p = a \<or> p = q \<or> p = c \<Longrightarrow> glob_ref q a (p # ps) (c # i)"
  by (cases ps; cases i) auto

lemma glob_loop_sound:
  "glob_loop q a pat inp pi star_pat star_inp d \<Longrightarrow> star_inp + d \<le> length inp \<Longrightarrow> glob_open q a pat inp pi star_pat star_inp d"
proof (induction q a pat inp pi star_pat star_inp d rule: glob_loop.induct)
  case (1 q a pat inp pi star_pat star_inp d)
  let ?ii = "star_inp + d"
  note IH = "1.IH" [OF refl]
  note run = "1.prems"(1) [unfolded glob_loop.simps [of q a pat inp pi] Let_def]
  show ?case
  proof (cases "?ii < length inp")
    case False
    then have "glob_ref q a (drop pi pat) (drop ?ii inp)" using run by (simp add: glob_ref_empty)
    then show ?thesis by (simp add: glob_open_def)
  next
    case lt: True
    have inp: "drop ?ii inp = inp ! ?ii # drop (?ii + 1) inp" using lt by (simp add: Cons_nth_drop_Suc)
    show ?thesis
    proof (cases "pi < length pat \<and> (pat ! pi = q \<or> pat ! pi = inp ! ?ii)")
      case True
      have "drop pi pat = pat ! pi # drop (pi + 1) pat" using True by (simp add: Cons_nth_drop_Suc)
      moreover have "glob_open q a pat inp (pi + 1) star_pat star_inp (d + 1)"
        using IH(1) [OF lt True] run lt True by simp
      ultimately show ?thesis using True inp glob_ref_one [of q a "drop (pi + 1) pat" "drop (?ii + 1) inp" "pat ! pi" "inp ! ?ii"]
        unfolding glob_open_def by (auto simp: add.assoc)
    next
      case nm: False
      show ?thesis
      proof (cases "pi < length pat \<and> pat ! pi = a")
        case True
        then have p: "drop pi pat = a # drop (pi + 1) pat" by (metis Cons_nth_drop_Suc Suc_eq_plus1)
        have "glob_open q a pat inp (pi + 1) (Some pi) ?ii 0" using IH(2) [OF lt nm True] run lt nm True by simp
        then have "\<exists>k. ?ii + k \<le> length inp \<and> glob_ref q a (drop (pi + 1) pat) (drop (?ii + k) inp)"
        proof (unfold glob_open_def, elim disjE exE conjE)
          assume "glob_ref q a (drop (pi + 1) pat) (drop (?ii + 0) inp)"
          with lt show ?thesis by (intro exI [of _ 0]) simp
        next
          fix sp k assume "Some pi = Some sp" "?ii + k \<le> length inp" "glob_ref q a (drop (sp + 1) pat) (drop (?ii + k) inp)"
          then show ?thesis by (intro exI [of _ k]) simp
        qed
        then obtain k where k: "?ii + k \<le> length inp" "glob_ref q a (drop (pi + 1) pat) (drop (?ii + k) inp)" by blast
        have "k \<le> length (drop ?ii inp)" using k(1) by simp
        moreover have "glob_ref q a (drop (pi + 1) pat) (drop k (drop ?ii inp))" using k(2) by (simp add: add.commute)
        ultimately have "glob_ref q a (drop pi pat) (drop ?ii inp)" unfolding p glob_ref_star by blast
        then show ?thesis by (simp add: glob_open_def)
      next
        case ns: False
        then obtain sp where sp: "star_pat = Some sp" "glob_loop q a pat inp (sp + 1) star_pat (star_inp + 1) 0"
          using run lt nm by (auto split: option.splits if_splits)
        have "glob_open q a pat inp (sp + 1) star_pat (star_inp + 1) 0" using IH(3) [OF lt nm ns sp(1,2)] lt by simp
        then have "\<exists>k>0. star_inp + k \<le> length inp \<and> glob_ref q a (drop (sp + 1) pat) (drop (star_inp + k) inp)"
        proof (unfold glob_open_def, elim disjE exE conjE)
          assume "glob_ref q a (drop (sp + 1) pat) (drop (star_inp + 1 + 0) inp)"
          with lt show ?thesis by (intro exI [of _ 1]) simp
        next
          fix sp' k assume "star_pat = Some sp'" "star_inp + 1 + k \<le> length inp" "glob_ref q a (drop (sp' + 1) pat) (drop (star_inp + 1 + k) inp)"
          then show ?thesis using sp(1) by (intro exI [of _ "k + 1"]) simp
        qed
        then show ?thesis unfolding glob_open_def using sp(1) by blast
      qed
    qed
  qed
qed

text \<open>
  C25: the autotrust glob matcher and the meaning of a pattern, in which a star
  takes any sequence, a question mark one character, and any other character
  itself.  Whatever the matcher accepts, every handle included, the lower-cased
  pattern means, so no rule trusts more than it says.  Conversely it accepts every
  handle the pattern means, as long as the handle has no asterisk; with one it can
  refuse a handle that the pattern means (\<open>glob_star_defeated\<close>).
\<close>

theorem glob_correct:
  "(glob_matches_ci lower pattern handle \<longrightarrow>
      glob_ref ''?'' ''*'' (lower_chars lower pattern) (lower_chars lower handle)) \<and>
   (''*'' \<notin> set (lower_chars lower handle) \<and>
      glob_ref ''?'' ''*'' (lower_chars lower pattern) (lower_chars lower handle) \<longrightarrow>
      glob_matches_ci lower pattern handle)"
  using glob_loop_open [of "''*''" "lower_chars lower pattern" "lower_chars lower handle" 0 None 0 0 "''?''"]
    glob_loop_sound [of "''?''" "''*''" "lower_chars lower pattern" "lower_chars lower handle" 0 None 0 0]
  by (auto simp: glob_matches_ci_def glob_inv_def glob_open_def)

definition ascii_lower_table :: "bytes \<Rightarrow> bytes list" where
  "ascii_lower_table c = [ascii_lower c]"

lemma glob_correct_witness:
  "glob_matches_ci ascii_lower_table ''*@*.Host'' ''~bob@b.host'' \<and>
   \<not> glob_matches_ci ascii_lower_table ''*@*.Host'' ''*bob@b.net''"
proof
  have "''*'' \<notin> set (lower_chars ascii_lower_table ''~bob@b.host'')" by code_simp
  moreover have "glob_ref ''?'' ''*'' (lower_chars ascii_lower_table ''*@*.Host'') (lower_chars ascii_lower_table ''~bob@b.host'')"
    by code_simp
  ultimately show "glob_matches_ci ascii_lower_table ''*@*.Host'' ''~bob@b.host''" using glob_correct by blast
  have "\<not> glob_ref ''?'' ''*'' (lower_chars ascii_lower_table ''*@*.Host'') (lower_chars ascii_lower_table ''*bob@b.net'')"
    by code_simp
  then show "\<not> glob_matches_ci ascii_lower_table ''*@*.Host'' ''*bob@b.net''" using glob_correct by blast
qed

text \<open>
  The literal comparison comes before the star, so a handle with an asterisk
  defeats even the pattern that should match everything.
\<close>

lemma glob_star_defeated: "\<not> glob_matches_ci ascii_lower_table ''*'' ''*ab''"
  by code_simp

section \<open>Laws of the tables\<close>

lemma get_peer_after_upsert:
  assumes "length (pr_pubkey r) = 32" "\<And>w. map_of (kr_peers kr) (pr_fingerprint r) = Some w \<Longrightarrow>
    pw_pubkey w = pr_pubkey r"
  shows "get_peer_by_fingerprint (upsert_peer r kr) fp =
    (if fp = pr_fingerprint r then
       Inr (Some (case map_of (kr_peers kr) fp of
         None \<Rightarrow> r | Some w \<Rightarrow> r\<lparr>pr_first_seen := pw_first_seen w\<rparr>))
     else get_peer_by_fingerprint kr fp)"
  using assms by (auto simp: get_peer_by_fingerprint_def upsert_peer_def peer_to_row_def row_to_peer_def
      split: option.splits)

lemma keyring_frames [simp]:
  "kr_secret_key (upsert_peer r kr) = kr_secret_key kr"
  "kr_incoming (upsert_peer r kr) = kr_incoming kr"
  "kr_outgoing (upsert_peer r kr) = kr_outgoing kr"
  "kr_config (upsert_peer r kr) = kr_config kr"
  "kr_autotrust (upsert_peer r kr) = kr_autotrust kr"
  "kr_recipients (upsert_peer r kr) = kr_recipients kr"
  "kr_identity (upsert_peer r kr) = kr_identity kr"
  "kr_secret_key (put_incoming s enc kr) = kr_secret_key kr"
  "kr_peers (put_incoming s enc kr) = kr_peers kr"
  "kr_outgoing (put_incoming s enc kr) = kr_outgoing kr"
  "kr_config (put_incoming s enc kr) = kr_config kr"
  "kr_autotrust (put_incoming s enc kr) = kr_autotrust kr"
  "kr_recipients (put_incoming s enc kr) = kr_recipients kr"
  "kr_identity (put_incoming s enc kr) = kr_identity kr"
  "kr_peers (record_outgoing_recipient c h fp t kr) = kr_peers kr"
  "kr_incoming (record_outgoing_recipient c h fp t kr) = kr_incoming kr"
  "kr_outgoing (record_outgoing_recipient c h fp t kr) = kr_outgoing kr"
  "kr_config (record_outgoing_recipient c h fp t kr) = kr_config kr"
  "kr_autotrust (record_outgoing_recipient c h fp t kr) = kr_autotrust kr"
  "kr_secret_key (record_outgoing_recipient c h fp t kr) = kr_secret_key kr"
  "kr_identity (record_outgoing_recipient c h fp t kr) = kr_identity kr"
  by (simp_all add: upsert_peer_def put_incoming_def record_outgoing_recipient_def)

text \<open>A reader looks only at its table and at the key of the stored secrets.\<close>

lemma decode_frame: "kr_secret_key kr' = kr_secret_key kr \<Longrightarrow> decode_secret cr n kr' = decode_secret cr n kr"
  by (intro ext) (simp add: decode_secret_def)

lemma row_to_incoming_frame:
  assumes "kr_secret_key kr' = kr_secret_key kr"
  shows "row_to_incoming cr kr' = row_to_incoming cr kr"
  by (intro ext) (simp only: row_to_incoming_def decode_frame [OF assms])

lemma get_incoming_frame:
  assumes "kr_secret_key kr' = kr_secret_key kr" "kr_incoming kr' = kr_incoming kr"
  shows "get_incoming_session cr kr' = get_incoming_session cr kr"
  by (intro ext) (simp only: get_incoming_session_def row_to_incoming_frame [OF assms(1)] assms(2))

lemma get_outgoing_frame:
  assumes "kr_secret_key kr' = kr_secret_key kr" "kr_outgoing kr' = kr_outgoing kr"
  shows "get_outgoing_session cr kr' = get_outgoing_session cr kr"
  by (intro ext) (simp only: get_outgoing_session_def row_to_outgoing_def decode_frame [OF assms(1)] assms(2))

lemma put_incoming_lookup [simp]:
  "map_of (kr_incoming (put_incoming s enc kr)) =
     (map_of (kr_incoming kr))((is_handle s, is_channel s) \<mapsto>
       \<lparr>iw_fingerprint = is_fingerprint s, iw_sk = enc, iw_status = trust_as_str (is_status s),
        iw_created_at = is_created_at s\<rparr>)"
  by (simp add: put_incoming_def)

lemma install_strict_Inr:
  "install_incoming_session_strict cr iv s kr = Inr kr' \<longleftrightarrow>
     (\<exists>enc. encode_secret cr iv kr (is_sk s) = Inr enc \<and> kr' = put_incoming s enc kr \<and>
       (\<forall>w. map_of (kr_incoming kr) (is_handle s, is_channel s) = Some w \<longrightarrow>
          iw_fingerprint w = is_fingerprint s))"
  by (auto simp: install_incoming_session_strict_def bind_res_Inr_iff split: option.splits if_splits)

lemma set_outgoing_Inr:
  "set_outgoing_session cr iv channel sk t kr = Inr kr' \<longleftrightarrow>
     (\<exists>enc. encode_secret cr iv kr sk = Inr enc \<and>
       kr' = kr\<lparr>kr_outgoing := tbl_replace channel
         \<lparr>ow_sk = enc, ow_created_at = t, ow_pending_rotation = 0\<rparr> (kr_outgoing kr)\<rparr>)"
  by (auto simp: set_outgoing_session_def bind_res_Inr_iff)

text \<open>
  The contract of a store that pins a value per key on first use, and what it
  gives: however many installs are attempted, a pinned key keeps its pin.
\<close>

locale pin_store =
  fixes install :: "'v \<Rightarrow> 's \<Rightarrow> 'e + 's"
    and pin :: "'s \<Rightarrow> 'k \<Rightarrow> 'p option"
    and key_of :: "'v \<Rightarrow> 'k"
    and pin_of :: "'v \<Rightarrow> 'p"
  assumes install_fresh: "install v s = Inr s' \<Longrightarrow> pin s (key_of v) = None \<or> pin s (key_of v) = Some (pin_of v)"
    and install_pins: "install v s = Inr s' \<Longrightarrow> pin s' (key_of v) = Some (pin_of v)"
    and install_frame: "install v s = Inr s' \<Longrightarrow> k \<noteq> key_of v \<Longrightarrow> pin s' k = pin s k"
begin

lemma pin_kept: "install v s = Inr s' \<Longrightarrow> pin s k = Some p \<Longrightarrow> pin s' k = Some p"
  using install_fresh install_pins install_frame by (cases "k = key_of v") fastforce+

lemma run_keeps_pin:
  "pin s k = Some p \<Longrightarrow> pin (fold (\<lambda>v s. case install v s of Inl e \<Rightarrow> s | Inr s' \<Rightarrow> s') vs s) k = Some p"
proof (induction vs arbitrary: s)
  case (Cons v vs)
  then have "pin (case install v s of Inl e \<Rightarrow> s | Inr s' \<Rightarrow> s') k = Some p"
    using pin_kept by (simp split: sum.split)
  from Cons.IH [OF this] show ?case by simp
qed simp

end

definition session_pin :: "keyring \<Rightarrow> bytes \<times> bytes \<Rightarrow> bytes option" where
  "session_pin kr key = map_option iw_fingerprint (map_of (kr_incoming kr) key)"

interpretation sessions: pin_store "\<lambda>(iv, s) kr. install_incoming_session_strict cr iv s kr" session_pin
  "\<lambda>(iv, s). (is_handle s, is_channel s)" "\<lambda>(iv, s). is_fingerprint s" for cr
  by unfold_locales (auto simp: session_pin_def install_strict_Inr split: if_splits)

text \<open>
  A session's fingerprint is pinned on first use.  Whatever sequence of
  sessions is offered to the strict install, for any handles and channels, a
  conversation that is bound to a fingerprint stays bound to it.
\<close>

theorem strict_install_pins:
  assumes "session_pin kr (handle, channel) = Some fp"
  shows "session_pin (fold (\<lambda>(iv, s) kr. case install_incoming_session_strict cr iv s kr of
      Inl e \<Rightarrow> kr | Inr kr' \<Rightarrow> kr') offers kr) (handle, channel) = Some fp"
  using sessions.run_keeps_pin [OF assms, of cr offers] by (simp add: case_prod_unfold)

definition example_session :: "bytes \<Rightarrow> incoming_session" where
  "example_session fp = \<lparr>is_handle = ''~bob@b.host'', is_channel = ''#x'', is_fingerprint = fp,
     is_sk = replicate 32 CHR ''k'', is_status = Trusted, is_created_at = 100\<rparr>"

lemma strict_install_pins_witness:
  "session_pin (fold (\<lambda>(iv, s) kr. case install_incoming_session_strict toy_crypto iv s kr of
      Inl e \<Rightarrow> kr | Inr kr' \<Rightarrow> kr') [(''iv'', example_session ''f2'')]
      (put_incoming (example_session ''f1'') [] (keyring_new None))) (''~bob@b.host'', ''#x'') = Some ''f1''"
  by (rule strict_install_pins) (simp add: session_pin_def example_session_def)

lemma install_result:
  assumes "gcm_ok cr" "key_ok kr" "length iv = 12"
    and "length (is_fingerprint s) = 16" "length (is_sk s) = 32"
  shows "case install_incoming_session_strict cr iv s kr of
      Inr kr' \<Rightarrow> get_incoming_session cr kr' (is_handle s) (is_channel s) = Inr (Some s) \<and>
        (\<forall>h c. (h, c) \<noteq> (is_handle s, is_channel s) \<longrightarrow>
           get_incoming_session cr kr' h c = get_incoming_session cr kr h c)
    | Inl e \<Rightarrow> \<exists>fp. session_pin kr (is_handle s, is_channel s) = Some fp \<and> fp \<noteq> is_fingerprint s \<and>
        e = err_session_mismatch cr fp (is_fingerprint s)"
proof -
  from encode_decode_secret [OF assms(1,2,3,5)] obtain enc where
    enc: "encode_secret cr iv kr (is_sk s) = Inr enc"
    and dec: "\<And>kr' fld. kr_secret_key kr' = kr_secret_key kr \<Longrightarrow> decode_secret cr 32 kr' enc fld = Inr (is_sk s)"
    by auto
  have frame: "decode_secret cr n (put_incoming s enc kr) = decode_secret cr n kr" for n
    by (intro ext) (simp add: decode_secret_def)
  have "get_incoming_session cr (put_incoming s enc kr) (is_handle s) (is_channel s) = Inr (Some s)"
    using assms(4) dec [of kr] by (simp add: get_incoming_session_def row_to_incoming_def frame)
  moreover have "get_incoming_session cr (put_incoming s enc kr) h c = get_incoming_session cr kr h c"
    if "(h, c) \<noteq> (is_handle s, is_channel s)" for h c
    using that by (auto simp: get_incoming_session_def row_to_incoming_def frame split: option.splits)
  ultimately show ?thesis
    using enc by (auto simp: install_incoming_session_strict_def session_pin_def split: option.splits)
qed

text \<open>
  An installed session is read back.  When the strict install accepts a
  session with a 16-byte fingerprint and a 32-byte key, looking it up yields
  exactly that session, also through the encryption of the stored key, and
  every other conversation reads as before; it refuses only a conversation
  pinned to another fingerprint.
\<close>

theorem install_reads_back:
  assumes "gcm_ok cr" "key_ok kr" "length iv = 12"
    and "length (is_fingerprint s) = 16" "length (is_sk s) = 32"
  shows "case install_incoming_session_strict cr iv s kr of
      Inr kr' \<Rightarrow> get_incoming_session cr kr' (is_handle s) (is_channel s) = Inr (Some s) \<and>
        (\<forall>h c. (h, c) \<noteq> (is_handle s, is_channel s) \<longrightarrow>
           get_incoming_session cr kr' h c = get_incoming_session cr kr h c)
    | Inl e \<Rightarrow> \<exists>fp. session_pin kr (is_handle s, is_channel s) = Some fp \<and> fp \<noteq> is_fingerprint s \<and>
        e = err_session_mismatch cr fp (is_fingerprint s)"
  using assms by (rule install_result)

lemma toy_gcm_ok [simp]: "gcm_ok toy_crypto"
  by (simp add: gcm_ok_def toy_crypto_def toy_open_def)

definition example_keyring :: keyring where
  "example_keyring = keyring_new (Some (replicate 32 CHR ''m''))"

lemma install_reads_back_witness:
  "case install_incoming_session_strict toy_crypto (replicate 12 CHR ''i'')
      (example_session (replicate 16 CHR ''f'')) example_keyring of
      Inr kr' \<Rightarrow> get_incoming_session toy_crypto kr' ''~bob@b.host'' ''#x'' =
        Inr (Some (example_session (replicate 16 CHR ''f'')))
    | Inl e \<Rightarrow> False"
  using install_reads_back [OF toy_gcm_ok, of example_keyring "replicate 12 CHR ''i''"
      "example_session (replicate 16 CHR ''f'')"]
  by (simp add: example_keyring_def key_ok_def keyring_new_def example_session_def session_pin_def
      split: sum.splits)

end
