(* ===== verification/E2e_Manager.thy ===== *)
theory E2e_Manager
  imports E2e_Chunker E2e_Wire E2e_Handshake E2e_Keyring
begin

text \<open>
  \<open>src/src/e2e/manager.rs\<close>: the \<open>E2eManager\<close>, which owns the identity, the
  keyring, the rate limiter and the queues, and is driven by the IRC event
  handlers and the \<open>/e2e\<close> commands.

  A method that changes state is a function of the state-and-error monad of
  the prelude; an early return keeps what was already written.  Each field of
  the struct is a field of \<open>e2e_manager\<close> (the mutexes protect single calls
  and are left out).  The clocks and the random number generator are an
  environment: the \<open>k\<close>-th reading gets the \<open>k\<close>-th value of a tape.
\<close>

section \<open>State\<close>

record environment =
  ev_clock :: "nat \<Rightarrow> i64"
  ev_instant :: "nat \<Rightarrow> instant"
  ev_rand :: "nat \<Rightarrow> nat \<Rightarrow> char"
  ev_tick :: nat

record pending_handshake =
  ph_channel :: bytes
  ph_peer_handle :: "bytes option"
  ph_secret :: bytes

record pending_rekey_send =
  rs_target_handle :: bytes
  rs_notice_text :: bytes

record pending_outbound_keyreq =
  ok_peer_handle :: bytes
  ok_channel :: bytes
  ok_req :: key_req

record pending_accept_request =
  ar_nick :: "bytes option"
  ar_handle :: bytes
  ar_channel :: bytes

datatype trust_change =
    New
  | Known
  | HandleChanged bytes bytes bytes
  | FingerprintChanged bytes bytes bytes
  | RevokedPeer bytes bytes

record pending_trust_notice =
  tn_handle :: bytes
  tn_channel :: bytes
  tn_change :: trust_change
  tn_new_pubkey :: "bytes option"

datatype reverify_outcome = Applied bytes bytes | Cleared nat | NotFound

datatype decrypt_outcome = Plaintext bytes | MissingKey bytes bytes | Rejected bytes

record e2e_manager =
  mg_seed :: bytes
  mg_keyring :: keyring
  mg_limiter :: rate_limiter
  mg_tolerance :: i64
  mg_pending :: "(bytes \<times> bytes, pending_handshake) table"
  mg_trust_changes :: "pending_trust_notice list"
  mg_rekey_sends :: "pending_rekey_send list"
  mg_outbound :: "pending_outbound_keyreq list"
  mg_inbound :: "(bytes \<times> bytes, key_req) table"
  mg_accepts :: "pending_accept_request list"
  mg_env :: environment

type_synonym 'a mgr = "e2e_manager \<Rightarrow> (e2e_error + 'a) \<times> e2e_manager"

section \<open>Environment and keyring steps\<close>

definition tick :: "unit mgr" where
  "tick = modify_st (\<lambda>m. m\<lparr>mg_env := (mg_env m)\<lparr>ev_tick := Suc (ev_tick (mg_env m))\<rparr>\<rparr>)"

definition draw :: "nat \<Rightarrow> bytes mgr" where
  "draw n = bind_st (gets_st (\<lambda>m. map (ev_rand (mg_env m) (ev_tick (mg_env m))) [0..<n])) (\<lambda>b.
     bind_st tick (\<lambda>_. ret_st b))"

definition now_unix :: "i64 mgr" where
  "now_unix = bind_st (gets_st (\<lambda>m. ev_clock (mg_env m) (ev_tick (mg_env m)))) (\<lambda>t.
     bind_st tick (\<lambda>_. ret_st t))"

definition instant_now :: "instant mgr" where
  "instant_now = bind_st (gets_st (\<lambda>m. ev_instant (mg_env m) (ev_tick (mg_env m)))) (\<lambda>t.
     bind_st tick (\<lambda>_. ret_st t))"

definition kr_read :: "(keyring \<Rightarrow> e2e_error + 'a) \<Rightarrow> 'a mgr" where
  "kr_read f = lift_st (\<lambda>m. f (mg_keyring m))"

definition kr_write :: "(keyring \<Rightarrow> keyring) \<Rightarrow> unit mgr" where
  "kr_write f = modify_st (\<lambda>m. m\<lparr>mg_keyring := f (mg_keyring m)\<rparr>)"

definition kr_try :: "(keyring \<Rightarrow> e2e_error + keyring) \<Rightarrow> unit mgr" where
  "kr_try f = bind_st (kr_read f) (\<lambda>kr. kr_write (\<lambda>_. kr))"

definition kr_count :: "(keyring \<Rightarrow> nat \<times> keyring) \<Rightarrow> nat mgr" where
  "kr_count f = bind_st (gets_st (\<lambda>m. f (mg_keyring m))) (\<lambda>(n, kr).
     bind_st (kr_write (\<lambda>_. kr)) (\<lambda>_. ret_st n))"

text \<open>A call whose error is looked at instead of returned.\<close>

definition catch_st :: "('s \<Rightarrow> ('e + 'a) \<times> 's) \<Rightarrow> 's \<Rightarrow> ('e + ('e + 'a)) \<times> 's" where
  "catch_st m s = (case m s of (r, s') \<Rightarrow> (Inr r, s'))"

definition identity_pub :: "crypto \<Rightarrow> e2e_manager \<Rightarrow> bytes" where
  "identity_pub cr m = cr_ed_public cr (mg_seed m)"

definition own_fingerprint :: "crypto \<Rightarrow> e2e_manager \<Rightarrow> bytes" where
  "own_fingerprint cr m = fingerprint cr (identity_pub cr m)"

section \<open>Construction\<close>

definition manager_new :: "environment \<Rightarrow> keyring \<Rightarrow> i64 \<Rightarrow> bytes \<Rightarrow> e2e_manager" where
  "manager_new env kr tol seed = \<lparr>mg_seed = seed, mg_keyring = kr, mg_limiter = rate_limiter_new,
     mg_tolerance = tol, mg_pending = [], mg_trust_changes = [], mg_rekey_sends = [],
     mg_outbound = [], mg_inbound = [], mg_accepts = [], mg_env = env\<rparr>"

definition maybe_corrupted :: bytes where
  "maybe_corrupted = '' '' @ map byte_of [226, 128, 148] @ '' keyring may be corrupted''"

definition err_stored_pk :: e2e_error where
  "err_stored_pk = Crypto (''stored identity public key does not match secret'' @ maybe_corrupted)"

definition err_stored_fp :: e2e_error where
  "err_stored_fp = Crypto (''stored identity fingerprint does not match pubkey'' @ maybe_corrupted)"

text \<open>The seed, the clock reading and the nonce are drawn from the tape when no identity is stored.\<close>

definition load_or_init_with_tolerance ::
  "crypto \<Rightarrow> environment \<Rightarrow> keyring \<Rightarrow> i64 \<Rightarrow> e2e_error + e2e_manager" where
  "load_or_init_with_tolerance cr env kr tol =
     bind_res (load_identity cr kr) (\<lambda>stored.
     (case stored of
        Some (stored_pk, sk, stored_fp, _) \<Rightarrow>
          let computed_pk = cr_ed_public cr sk in
          if computed_pk \<noteq> stored_pk then Inl err_stored_pk
          else if fingerprint cr computed_pk \<noteq> stored_fp then Inl err_stored_fp
          else Inr (manager_new env kr tol sk)
      | None \<Rightarrow>
          (case (bind_st (draw 32) (\<lambda>seed. bind_st now_unix (\<lambda>now. bind_st (draw 12) (\<lambda>iv.
                   ret_st (seed, now, iv))))) (manager_new env kr tol []) of
             (Inl e, _) \<Rightarrow> Inl e
           | (Inr (seed, now, iv), m) \<Rightarrow>
               let pk = cr_ed_public cr seed in
               bind_res (save_identity cr iv pk seed (fingerprint cr pk) now kr) (\<lambda>kr'.
               Inr (m\<lparr>mg_seed := seed, mg_keyring := kr'\<rparr>)))))"

definition load_or_init :: "crypto \<Rightarrow> environment \<Rightarrow> keyring \<Rightarrow> e2e_error + e2e_manager" where
  "load_or_init cr env kr = load_or_init_with_tolerance cr env kr default_ts_tolerance_secs"

section \<open>Trust on first use\<close>

definition classify_peer_change :: "keyring \<Rightarrow> bytes \<Rightarrow> bytes \<Rightarrow> e2e_error + trust_change" where
  "classify_peer_change kr new_fp new_handle =
     bind_res (get_peer_by_fingerprint kr new_fp) (\<lambda>by_fp.
     (case by_fp of
        Some existing \<Rightarrow>
          if pr_status existing = Revoked then Inr (RevokedPeer new_handle new_fp)
          else if pr_last_handle existing \<noteq> Some new_handle then
            Inr (HandleChanged (case pr_last_handle existing of None \<Rightarrow> [] | Some h \<Rightarrow> h) new_handle new_fp)
          else Inr Known
      | None \<Rightarrow>
          bind_res (get_peer_by_handle kr new_handle) (\<lambda>by_handle.
          (case by_handle of
             Some existing \<Rightarrow> Inr (FingerprintChanged new_handle (pr_fingerprint existing) new_fp)
           | None \<Rightarrow> Inr New))))"

definition handle_mismatch_for :: "crypto \<Rightarrow> trust_change \<Rightarrow> bytes \<Rightarrow> e2e_error" where
  "handle_mismatch_for cr change got =
     HandleMismatch
       (case change of
          HandleChanged old_handle _ _ \<Rightarrow> old_handle
        | FingerprintChanged handle old_fp _ \<Rightarrow> handle @ '' (fp='' @ cr_hex_encode cr old_fp @ '')''
        | RevokedPeer handle fp \<Rightarrow> handle @ '' (revoked, fp='' @ cr_hex_encode cr fp @ '')''
        | New \<Rightarrow> [] | Known \<Rightarrow> [])
       got"

definition record_trust_change :: "pending_trust_notice \<Rightarrow> unit mgr" where
  "record_trust_change n = modify_st (\<lambda>m. m\<lparr>mg_trust_changes := mg_trust_changes m @ [n]\<rparr>)"

text \<open>
  The three rejecting outcomes, as every handler treats them: queue a notice
  (with the offered key when the fingerprint changed) and fail.
\<close>

definition reject_change :: "crypto \<Rightarrow> trust_change \<Rightarrow> bytes \<Rightarrow> bytes \<Rightarrow> bytes \<Rightarrow> 'a mgr" where
  "reject_change cr change handle channel pubkey =
     bind_st (record_trust_change \<lparr>tn_handle = handle, tn_channel = channel, tn_change = change,
       tn_new_pubkey = (case change of FingerprintChanged _ _ _ \<Rightarrow> Some pubkey | _ \<Rightarrow> None)\<rparr>) (\<lambda>_.
     fail_st (handle_mismatch_for cr change handle))"

definition take_pending_trust_changes :: "pending_trust_notice list mgr" where
  "take_pending_trust_changes = bind_st (gets_st mg_trust_changes) (\<lambda>l.
     bind_st (modify_st (\<lambda>m. m\<lparr>mg_trust_changes := []\<rparr>)) (\<lambda>_. ret_st l))"

definition take_pending_rekey_sends :: "pending_rekey_send list mgr" where
  "take_pending_rekey_sends = bind_st (gets_st mg_rekey_sends) (\<lambda>l.
     bind_st (modify_st (\<lambda>m. m\<lparr>mg_rekey_sends := []\<rparr>)) (\<lambda>_. ret_st l))"

definition take_pending_outbound_keyreqs :: "pending_outbound_keyreq list mgr" where
  "take_pending_outbound_keyreqs = bind_st (gets_st mg_outbound) (\<lambda>l.
     bind_st (modify_st (\<lambda>m. m\<lparr>mg_outbound := []\<rparr>)) (\<lambda>_. ret_st l))"

definition take_pending_accept_requests :: "pending_accept_request list mgr" where
  "take_pending_accept_requests = bind_st (gets_st mg_accepts) (\<lambda>l.
     bind_st (modify_st (\<lambda>m. m\<lparr>mg_accepts := []\<rparr>)) (\<lambda>_. ret_st l))"

section \<open>Forgetting and reverifying peers\<close>

definition clear_pending_state_for_handle :: "bytes \<Rightarrow> nat mgr" where
  "clear_pending_state_for_handle handle m =
     (let pending = filter (\<lambda>(_, ph). ph_peer_handle ph \<noteq> Some handle) (mg_pending m);
          inbound = filter (\<lambda>((h, _), _). h \<noteq> handle) (mg_inbound m);
          accepts = filter (\<lambda>r. ar_handle r \<noteq> handle) (mg_accepts m);
          notices = filter (\<lambda>n. tn_handle n \<noteq> handle) (mg_trust_changes m);
          outbound = filter (\<lambda>r. ok_peer_handle r \<noteq> handle) (mg_outbound m)
      in (Inr ((length (mg_pending m) - length pending) + (length (mg_inbound m) - length inbound)
             + (length (mg_accepts m) - length accepts)
             + (length (mg_trust_changes m) - length notices)
             + (length (mg_outbound m) - length outbound)),
          m\<lparr>mg_pending := pending, mg_inbound := inbound, mg_accepts := accepts,
            mg_trust_changes := notices, mg_outbound := outbound\<rparr>))"

text \<open>The first queued notice for the handle that carries a changed key.\<close>

fun find_applied :: "bytes \<Rightarrow> pending_trust_notice list \<Rightarrow> (bytes \<times> bytes \<times> bytes) option" where
  "find_applied h [] = None"
| "find_applied h (n # ns) =
     (if tn_handle n \<noteq> h then find_applied h ns
      else (case (tn_change n, tn_new_pubkey n) of
              (FingerprintChanged _ old_fp new_fp, Some pk) \<Rightarrow> Some (old_fp, new_fp, pk)
            | _ \<Rightarrow> find_applied h ns))"

definition forget_peer_everywhere :: "bytes \<Rightarrow> nat mgr" where
  "forget_peer_everywhere handle =
     bind_st (kr_read (\<lambda>kr. get_peer_by_handle kr handle)) (\<lambda>peer.
     bind_st (case peer of
         Some p \<Rightarrow> bind_st (kr_write (delete_peer_by_fingerprint (pr_fingerprint p))) (\<lambda>_. ret_st 1)
       | None \<Rightarrow> ret_st 0) (\<lambda>n0.
     bind_st (kr_count (delete_incoming_sessions_for_handle handle)) (\<lambda>n1.
     bind_st (kr_count (delete_outgoing_recipients_for_handle handle)) (\<lambda>n2.
     bind_st (clear_pending_state_for_handle handle) (\<lambda>n3.
     ret_st (n0 + n1 + n2 + n3))))))"

definition reverify_peer :: "bytes \<Rightarrow> reverify_outcome mgr" where
  "reverify_peer handle =
     bind_st (gets_st mg_trust_changes) (\<lambda>notices.
     bind_st (modify_st (\<lambda>m. m\<lparr>mg_trust_changes := filter (\<lambda>n. tn_handle n \<noteq> handle) notices\<rparr>)) (\<lambda>_.
     (case find_applied handle notices of
        Some (old_fp, new_fp, new_pubkey) \<Rightarrow>
          bind_st (kr_write (delete_peer_by_fingerprint old_fp)) (\<lambda>_.
          bind_st (kr_count (delete_incoming_sessions_for_handle handle)) (\<lambda>_.
          bind_st (kr_count (delete_outgoing_recipients_for_handle handle)) (\<lambda>_.
          bind_st (clear_pending_state_for_handle handle) (\<lambda>_.
          bind_st now_unix (\<lambda>now.
          bind_st (kr_write (upsert_peer \<lparr>pr_fingerprint = new_fp, pr_pubkey = new_pubkey,
            pr_last_handle = Some handle, pr_last_nick = None, pr_first_seen = now,
            pr_last_seen = now, pr_status = Trusted\<rparr>)) (\<lambda>_.
          ret_st (Applied old_fp new_fp)))))))
      | None \<Rightarrow>
          bind_st (forget_peer_everywhere handle) (\<lambda>deleted.
          ret_st (if deleted = 0 then NotFound else Cleared deleted)))))"

definition forget_peer_on_channel :: "crypto \<Rightarrow> bytes \<Rightarrow> bytes \<Rightarrow> nat mgr" where
  "forget_peer_on_channel cr handle channel =
     bind_st (kr_read (\<lambda>kr. get_incoming_session cr kr handle channel)) (\<lambda>sess.
     bind_st (when_st (sess \<noteq> None) (kr_write (delete_incoming_session handle channel))) (\<lambda>_.
     (\<lambda>m. let inbound = filter (\<lambda>(k, _). k \<noteq> (handle, channel)) (mg_inbound m);
              accepts = filter (\<lambda>r. \<not> (ar_handle r = handle \<and> ar_channel r = channel)) (mg_accepts m);
              pending = filter (\<lambda>((c, _), ph). \<not> (c = channel \<and> ph_peer_handle ph = Some handle)) (mg_pending m);
              outbound = filter (\<lambda>r. \<not> (ok_peer_handle r = handle \<and> ok_channel r = channel)) (mg_outbound m)
          in (Inr ((if sess \<noteq> None then 1 else 0)
                + (if map_of (mg_inbound m) (handle, channel) \<noteq> None then 1 else 0)
                + (length (mg_accepts m) - length accepts)
                + (length (mg_pending m) - length pending)
                + (length (mg_outbound m) - length outbound)),
              m\<lparr>mg_inbound := inbound, mg_accepts := accepts, mg_pending := pending,
                mg_outbound := outbound\<rparr>))))"

section \<open>The outgoing key and its lazy rotation\<close>

definition build_rekey_for_peer :: "crypto \<Rightarrow> bytes \<Rightarrow> peer_record \<Rightarrow> bytes \<Rightarrow> key_rekey mgr" where
  "build_rekey_for_peer cr channel peer new_sk =
     bind_st (draw 32) (\<lambda>eph_sk.
     bind_st (lift_st (\<lambda>_. ed25519_pub_to_x25519 cr (pr_pubkey peer))) (\<lambda>peer_x.
     let info = rekey_info channel; wrap_key = derive_wrap_key cr eph_sk peer_x info;
         eph_pub = cr_x_public cr eph_sk in
     bind_st (draw 24) (\<lambda>aead_nonce.
     bind_st (lift_st (\<lambda>_. aead_encrypt cr aead_nonce wrap_key info new_sk)) (\<lambda>(wrap_nonce, wrap_ct).
     bind_st (draw 16) (\<lambda>nonce.
     bind_st (gets_st (identity_pub cr)) (\<lambda>pubkey.
     bind_st (gets_st mg_seed) (\<lambda>seed.
     ret_st \<lparr>kk_channel = channel, kk_pubkey = pubkey, kk_eph_pub = eph_pub,
       kk_wrap_nonce = wrap_nonce, kk_wrap_ct = wrap_ct, kk_nonce = nonce,
       kk_sig = sig_sign cr seed
         (sig_payload_keyrekey channel pubkey eph_pub wrap_nonce wrap_ct nonce)\<rparr>)))))))"

definition ctcp_frame :: "bytes \<Rightarrow> bytes" where
  "ctcp_frame b = byte_of 1 # b @ [byte_of 1]"

text \<open>One recipient of the distribution loop: a missing peer row or a failed build is skipped.\<close>

definition distribute_one :: "crypto \<Rightarrow> bytes \<Rightarrow> bytes \<Rightarrow> bytes \<times> bytes \<Rightarrow> unit mgr" where
  "distribute_one cr channel fresh recipient =
     bind_st (kr_read (\<lambda>kr. get_peer_by_fingerprint kr (snd recipient))) (\<lambda>peer.
     (case peer of
        None \<Rightarrow> ret_st ()
      | Some p \<Rightarrow>
          bind_st (catch_st (build_rekey_for_peer cr channel p fresh)) (\<lambda>r.
          (case r of
             Inl e \<Rightarrow> ret_st ()
           | Inr rk \<Rightarrow> modify_st (\<lambda>m. m\<lparr>mg_rekey_sends := mg_rekey_sends m @
               [\<lparr>rs_target_handle = fst recipient, rs_notice_text = ctcp_frame (encode_keyrekey cr rk)\<rparr>]\<rparr>)))))"

fun distribute_rekeys :: "crypto \<Rightarrow> bytes \<Rightarrow> bytes \<Rightarrow> (bytes \<times> bytes) list \<Rightarrow> unit mgr" where
  "distribute_rekeys cr channel fresh [] = ret_st ()"
| "distribute_rekeys cr channel fresh (r # rs) =
     bind_st (distribute_one cr channel fresh r) (\<lambda>_. distribute_rekeys cr channel fresh rs)"

definition generate_outgoing_key :: "crypto \<Rightarrow> bytes \<Rightarrow> bytes mgr" where
  "generate_outgoing_key cr channel =
     bind_st (kr_read (\<lambda>kr. get_outgoing_session cr kr channel)) (\<lambda>sess.
     let had_pending_rotation = (case sess of None \<Rightarrow> False | Some s \<Rightarrow> os_pending_rotation s) in
     bind_st (draw 32) (\<lambda>fresh.
     bind_st now_unix (\<lambda>now.
     bind_st (draw 12) (\<lambda>iv.
     bind_st (kr_try (set_outgoing_session cr iv channel fresh now)) (\<lambda>_.
     bind_st (when_st had_pending_rotation
       (bind_st (kr_read (\<lambda>kr. list_outgoing_recipients kr channel)) (distribute_rekeys cr channel fresh))) (\<lambda>_.
     ret_st fresh))))))"

definition get_or_generate_outgoing_key :: "crypto \<Rightarrow> bytes \<Rightarrow> bytes mgr" where
  "get_or_generate_outgoing_key cr channel =
     bind_st (kr_read (\<lambda>kr. get_outgoing_session cr kr channel)) (\<lambda>sess.
     (case sess of
        Some s \<Rightarrow> if \<not> os_pending_rotation s then ret_st (os_sk s) else generate_outgoing_key cr channel
      | None \<Rightarrow> generate_outgoing_key cr channel))"

section \<open>Messages\<close>

fun encrypt_chunks ::
  "crypto \<Rightarrow> bytes \<Rightarrow> bytes \<Rightarrow> bytes \<Rightarrow> i64 \<Rightarrow> u8 \<Rightarrow> nat \<Rightarrow> bytes list \<Rightarrow> bytes list mgr" where
  "encrypt_chunks cr sk channel msgid ts tot idx [] = ret_st []"
| "encrypt_chunks cr sk channel msgid ts tot idx (plain # rest) =
     (if 255 < idx + 1 then fail_st (ChunkLimit 255)
      else
        let part = of_nat (idx + 1); aad = build_aad channel msgid ts part tot in
        bind_st (draw 24) (\<lambda>aead_nonce.
        bind_st (lift_st (\<lambda>_. aead_encrypt cr aead_nonce sk aad plain)) (\<lambda>(nonce, ct).
        bind_st (lift_st (\<lambda>_. wire_encode cr \<lparr>wc_msgid = msgid, wc_ts = ts, wc_part = part,
          wc_total = tot, wc_nonce = nonce, wc_ciphertext = ct\<rparr>)) (\<lambda>line.
        bind_st (encrypt_chunks cr sk channel msgid ts tot (idx + 1) rest) (\<lambda>lines.
        ret_st (line # lines))))))"

definition err_zero_chunks :: e2e_error where
  "err_zero_chunks = Wire ''chunker produced zero chunks''"

definition encrypt_outgoing :: "crypto \<Rightarrow> bytes \<Rightarrow> bytes \<Rightarrow> bytes list mgr" where
  "encrypt_outgoing cr channel plaintext =
     bind_st (get_or_generate_outgoing_key cr channel) (\<lambda>sk.
     bind_st (lift_st (\<lambda>_. split_plaintext plaintext)) (\<lambda>chunks.
     if 255 < length chunks then fail_st (ChunkLimit 255)
     else if length chunks = 0 then fail_st err_zero_chunks
     else
       bind_st (draw 8) (\<lambda>msgid.
       bind_st now_unix (\<lambda>ts.
       encrypt_chunks cr sk channel msgid ts (of_nat (length chunks)) 0 chunks))))"

text \<open>\<open>i64::abs\<close> wraps at the minimum in a release build.\<close>

definition i64_abs :: "i64 \<Rightarrow> i64" where
  "i64_abs w = (if sint w < 0 then - w else w)"

definition status_debug :: "trust_status \<Rightarrow> bytes" where
  "status_debug s = (case s of Pending \<Rightarrow> ''Pending'' | Trusted \<Rightarrow> ''Trusted'' | Revoked \<Rightarrow> ''Revoked'')"

definition msg_skew :: "i64 \<Rightarrow> bytes" where
  "msg_skew skew = ''ts outside tolerance window ('' @ show_int (sint skew) @ ''s skew)''"

definition msg_untrusted :: "trust_status \<Rightarrow> bytes" where
  "msg_untrusted s = ''peer not trusted (status='' @ status_debug s @ '')''"

text \<open>The positions that the standard library adds to this message are left out.\<close>

definition msg_utf8 :: bytes where
  "msg_utf8 = ''utf8: invalid utf-8''"

definition msg_aead :: "e2e_error \<Rightarrow> bytes" where
  "msg_aead e = ''aead failed: '' @ display_error e"

definition open_chunk :: "crypto \<Rightarrow> bytes \<Rightarrow> bytes \<Rightarrow> wire_chunk \<Rightarrow> decrypt_outcome" where
  "open_chunk cr sk channel w =
     (case aead_decrypt cr sk (wc_nonce w)
        (build_aad channel (wc_msgid w) (wc_ts w) (wc_part w) (wc_total w)) (wc_ciphertext w) of
        Inr pt \<Rightarrow> if utf8_valid pt then Plaintext pt else Rejected msg_utf8
      | Inl e \<Rightarrow> Rejected (msg_aead e))"

definition decrypt_incoming :: "crypto \<Rightarrow> bytes \<Rightarrow> bytes \<Rightarrow> bytes \<Rightarrow> decrypt_outcome mgr" where
  "decrypt_incoming cr sender_handle channel wire_line =
     bind_st (lift_st (\<lambda>_. wire_parse cr wire_line)) (\<lambda>parsed.
     (case parsed of
        None \<Rightarrow> ret_st (Plaintext wire_line)
      | Some w \<Rightarrow>
          bind_st now_unix (\<lambda>now.
          bind_st (gets_st mg_tolerance) (\<lambda>tol.
          let skew = i64_abs (now - wc_ts w) in
          if sint tol < sint skew then ret_st (Rejected (msg_skew skew))
          else
            bind_st (kr_read (\<lambda>kr. get_incoming_session cr kr sender_handle channel)) (\<lambda>sess.
            (case sess of
               None \<Rightarrow> ret_st (MissingKey sender_handle channel)
             | Some s \<Rightarrow>
                 if is_status s \<noteq> Trusted then ret_st (Rejected (msg_untrusted (is_status s)))
                 else ret_st (open_chunk cr (is_sk s) channel w)))))))"

section \<open>Initiating a handshake\<close>

definition build_keyreq_for_peer :: "crypto \<Rightarrow> bytes \<Rightarrow> bytes option \<Rightarrow> key_req mgr" where
  "build_keyreq_for_peer cr channel peer_handle =
     bind_st (draw 16) (\<lambda>nonce.
     bind_st (draw 32) (\<lambda>eph_secret.
     let eph_pub = cr_x_public cr eph_secret in
     bind_st (gets_st (identity_pub cr)) (\<lambda>pubkey.
     bind_st (gets_st mg_seed) (\<lambda>seed.
     bind_st (modify_st (\<lambda>m. m\<lparr>mg_pending := AList.update (channel, nonce)
       \<lparr>ph_channel = channel, ph_peer_handle = peer_handle, ph_secret = eph_secret\<rparr> (mg_pending m)\<rparr>)) (\<lambda>_.
     ret_st \<lparr>kq_channel = channel, kq_pubkey = pubkey, kq_eph_x25519 = eph_pub, kq_nonce = nonce,
       kq_sig = sig_sign cr seed (sig_payload_keyreq channel pubkey eph_pub nonce)\<rparr>)))))"

definition build_keyreq :: "crypto \<Rightarrow> bytes \<Rightarrow> key_req mgr" where
  "build_keyreq cr channel = build_keyreq_for_peer cr channel None"

definition has_pending_keyreq :: "e2e_manager \<Rightarrow> bytes \<Rightarrow> bool" where
  "has_pending_keyreq m channel = list_ex (\<lambda>((c, _), _). c = channel) (mg_pending m)"

definition encode_keyreq_ctcp :: "crypto \<Rightarrow> key_req \<Rightarrow> bytes" where
  "encode_keyreq_ctcp cr r = ctcp_frame (encode_keyreq cr r)"

definition encode_keyrsp_ctcp :: "crypto \<Rightarrow> key_rsp \<Rightarrow> bytes" where
  "encode_keyrsp_ctcp cr r = ctcp_frame (encode_keyrsp cr r)"

definition encode_keyrekey_ctcp :: "crypto \<Rightarrow> key_rekey \<Rightarrow> bytes" where
  "encode_keyrekey_ctcp cr r = ctcp_frame (encode_keyrekey cr r)"

definition limiter_step :: "(instant \<Rightarrow> rate_limiter \<Rightarrow> bool \<times> rate_limiter) \<Rightarrow> bool mgr" where
  "limiter_step f =
     bind_st instant_now (\<lambda>now.
     bind_st (gets_st (\<lambda>m. f now (mg_limiter m))) (\<lambda>(ok, rl).
     bind_st (modify_st (\<lambda>m. m\<lparr>mg_limiter := rl\<rparr>)) (\<lambda>_. ret_st ok)))"

definition allow_keyreq :: "bytes \<Rightarrow> bool mgr" where
  "allow_keyreq peer = limiter_step (allow_outgoing peer)"

definition allow_incoming_keyreq :: "bytes \<Rightarrow> bool mgr" where
  "allow_incoming_keyreq peer = limiter_step (allow_incoming peer)"

section \<open>Answering a handshake\<close>

definition effective_channel_mode ::
  "(bytes \<Rightarrow> bytes list) \<Rightarrow> keyring \<Rightarrow> bytes \<Rightarrow> bytes \<Rightarrow> channel_mode option" where
  "effective_channel_mode lower kr sender_handle channel =
     (case get_channel_config kr channel of
        None \<Rightarrow> None
      | Some cfg \<Rightarrow>
          if \<not> cc_enabled cfg then None
          else if autotrust_matches lower kr sender_handle channel then Some AutoAccept
          else Some (cc_mode cfg))"

definition tofu_upsert_on_keyreq ::
  "crypto \<Rightarrow> bytes \<Rightarrow> bytes option \<Rightarrow> key_req \<Rightarrow> bytes \<Rightarrow> unit mgr" where
  "tofu_upsert_on_keyreq cr sender_handle sender_nick req fp =
     bind_st now_unix (\<lambda>now.
     bind_st (kr_read (\<lambda>kr. classify_peer_change kr fp sender_handle)) (\<lambda>change.
     if change = New \<or> change = Known then
       bind_st (if change = Known then kr_read (\<lambda>kr. get_peer_by_fingerprint kr fp) else ret_st None) (\<lambda>known.
       kr_write (upsert_peer \<lparr>pr_fingerprint = fp, pr_pubkey = kq_pubkey req,
         pr_last_handle = Some sender_handle, pr_last_nick = sender_nick,
         pr_first_seen = now, pr_last_seen = now,
         pr_status = (case known of None \<Rightarrow> Pending | Some p \<Rightarrow> pr_status p)\<rparr>))
     else reject_change cr change sender_handle (kq_channel req) (kq_pubkey req)))"

definition zero_key :: bytes where
  "zero_key = replicate 32 (byte_of 0)"

definition cache_pending_inbound_normal_mode ::
  "crypto \<Rightarrow> bytes \<Rightarrow> bytes option \<Rightarrow> key_req \<Rightarrow> bytes \<Rightarrow> unit mgr" where
  "cache_pending_inbound_normal_mode cr sender_handle sender_nick req fp =
     bind_st now_unix (\<lambda>now.
     bind_st (draw 12) (\<lambda>iv.
     bind_st (catch_st (kr_try (install_incoming_session_strict cr iv
       \<lparr>is_handle = sender_handle, is_channel = kq_channel req, is_fingerprint = fp, is_sk = zero_key,
        is_status = Pending, is_created_at = now\<rparr>))) (\<lambda>_.
     modify_st (\<lambda>m. m\<lparr>
       mg_inbound := AList.update (sender_handle, kq_channel req) req (mg_inbound m),
       mg_accepts := mg_accepts m @
         [\<lparr>ar_nick = sender_nick, ar_handle = sender_handle, ar_channel = kq_channel req\<rparr>]\<rparr>))))"

definition is_trusted_session :: "incoming_session option \<Rightarrow> bool" where
  "is_trusted_session s = (case s of None \<Rightarrow> False | Some s \<Rightarrow> is_status s = Trusted)"

text \<open>
  From the outgoing key on, \<open>handle_keyreq_with_nick\<close> and
  \<open>build_keyrsp_for_accepted_request\<close> have the same statements: record the
  recipient, wrap the key for the requester's ephemeral key, sign, and queue a
  reciprocal KEYREQ unless a trusted session exists or the limiter refuses.
\<close>

definition queue_reciprocal :: "crypto \<Rightarrow> bytes \<Rightarrow> bytes \<Rightarrow> unit mgr" where
  "queue_reciprocal cr sender_handle channel =
     bind_st (kr_read (\<lambda>kr. get_incoming_session cr kr sender_handle channel)) (\<lambda>sess.
     bind_st (allow_keyreq sender_handle) (\<lambda>allow_out.
     when_st (\<not> is_trusted_session sess \<and> allow_out)
       (bind_st (build_keyreq_for_peer cr channel (Some sender_handle)) (\<lambda>reciprocal.
        modify_st (\<lambda>m. m\<lparr>mg_outbound := mg_outbound m @
          [\<lparr>ok_peer_handle = sender_handle, ok_channel = channel, ok_req = reciprocal\<rparr>]\<rparr>)))))"

definition serve_keyrsp :: "crypto \<Rightarrow> bytes \<Rightarrow> key_req \<Rightarrow> key_rsp mgr" where
  "serve_keyrsp cr sender_handle req =
     bind_st (get_or_generate_outgoing_key cr (kq_channel req)) (\<lambda>our_sk.
     bind_st now_unix (\<lambda>now.
     bind_st (kr_write (record_outgoing_recipient (kq_channel req) sender_handle
       (fingerprint cr (kq_pubkey req)) now)) (\<lambda>_.
     bind_st (draw 32) (\<lambda>our_eph_secret.
     let our_eph_pub = cr_x_public cr our_eph_secret; info = wrap_info (kq_channel req);
         wrap_key = derive_wrap_key cr our_eph_secret (kq_eph_x25519 req) info in
     bind_st (draw 24) (\<lambda>aead_nonce.
     bind_st (lift_st (\<lambda>_. aead_encrypt cr aead_nonce wrap_key info our_sk)) (\<lambda>(wrap_nonce, wrap_ct).
     bind_st (gets_st (identity_pub cr)) (\<lambda>our_pubkey.
     bind_st (draw 16) (\<lambda>rsp_nonce.
     bind_st (gets_st mg_seed) (\<lambda>seed.
     bind_st (queue_reciprocal cr sender_handle (kq_channel req)) (\<lambda>_.
     ret_st \<lparr>kp_channel = kq_channel req, kp_pubkey = our_pubkey, kp_ephemeral_pub = our_eph_pub,
       kp_wrap_nonce = wrap_nonce, kp_wrap_ct = wrap_ct, kp_nonce = rsp_nonce,
       kp_sig = sig_sign cr seed (sig_payload_keyrsp (kq_channel req) our_pubkey our_eph_pub
         wrap_nonce wrap_ct rsp_nonce)\<rparr>))))))))))"

definition handle_keyreq_with_nick ::
  "(bytes \<Rightarrow> bytes list) \<Rightarrow> crypto \<Rightarrow> bytes \<Rightarrow> bytes option \<Rightarrow> key_req \<Rightarrow> key_rsp option mgr" where
  "handle_keyreq_with_nick lower cr sender_handle sender_nick req =
     bind_st (allow_incoming_keyreq sender_handle) (\<lambda>allowed.
     if \<not> allowed then fail_st (RateLimit sender_handle)
     else
       bind_st (lift_st (\<lambda>_. sig_verify cr (kq_pubkey req)
         (sig_payload_keyreq (kq_channel req) (kq_pubkey req) (kq_eph_x25519 req) (kq_nonce req))
         (kq_sig req))) (\<lambda>_.
       bind_st (gets_st (\<lambda>m. effective_channel_mode lower (mg_keyring m) sender_handle (kq_channel req)))
         (\<lambda>effective.
       (case effective of
          None \<Rightarrow> ret_st None
        | Some mode \<Rightarrow>
            let fp = fingerprint cr (kq_pubkey req) in
            bind_st (tofu_upsert_on_keyreq cr sender_handle sender_nick req fp) (\<lambda>_.
            bind_st (kr_read (\<lambda>kr. get_incoming_session cr kr sender_handle (kq_channel req))) (\<lambda>sess.
            let already_trusted = is_trusted_session sess in
            if mode = Normal \<and> \<not> already_trusted then
              bind_st (cache_pending_inbound_normal_mode cr sender_handle sender_nick req fp)
                (\<lambda>_. ret_st None)
            else if mode = Quiet \<and> \<not> already_trusted then ret_st None
            else bind_st (serve_keyrsp cr sender_handle req) (\<lambda>rsp. ret_st (Some rsp))))))))"

definition handle_keyreq :: "(bytes \<Rightarrow> bytes list) \<Rightarrow> crypto \<Rightarrow> bytes \<Rightarrow> key_req \<Rightarrow> key_rsp option mgr" where
  "handle_keyreq lower cr sender_handle req = handle_keyreq_with_nick lower cr sender_handle None req"

definition build_keyrsp_for_accepted_request :: "crypto \<Rightarrow> bytes \<Rightarrow> key_req \<Rightarrow> key_rsp mgr" where
  "build_keyrsp_for_accepted_request cr sender_handle req =
     (let fp = fingerprint cr (kq_pubkey req) in
      bind_st now_unix (\<lambda>now.
      bind_st (kr_read (\<lambda>kr. get_peer_by_fingerprint kr fp)) (\<lambda>existing.
      bind_st (kr_write (upsert_peer \<lparr>pr_fingerprint = fp, pr_pubkey = kq_pubkey req,
        pr_last_handle = Some sender_handle,
        pr_last_nick = (case existing of None \<Rightarrow> None | Some p \<Rightarrow> pr_last_nick p),
        pr_first_seen = (case existing of None \<Rightarrow> now | Some p \<Rightarrow> pr_first_seen p),
        pr_last_seen = now, pr_status = Trusted\<rparr>)) (\<lambda>_.
      serve_keyrsp cr sender_handle req))))"

definition accept_pending_inbound :: "crypto \<Rightarrow> bytes \<Rightarrow> bytes \<Rightarrow> key_rsp option mgr" where
  "accept_pending_inbound cr sender_handle channel =
     bind_st (gets_st (\<lambda>m. map_of (mg_inbound m) (sender_handle, channel))) (\<lambda>cached.
     bind_st (modify_st (\<lambda>m. m\<lparr>mg_inbound := AList.delete (sender_handle, channel) (mg_inbound m)\<rparr>)) (\<lambda>_.
     (case cached of
        None \<Rightarrow> ret_st None
      | Some req \<Rightarrow> bind_st (build_keyrsp_for_accepted_request cr sender_handle req) (\<lambda>rsp. ret_st (Some rsp)))))"

section \<open>Consuming an answer\<close>

text \<open>The session key that a stored ephemeral secret unwraps, if any.\<close>

definition try_unwrap :: "crypto \<Rightarrow> key_rsp \<Rightarrow> bytes \<Rightarrow> bytes option" where
  "try_unwrap cr rsp secret =
     (let info = wrap_info (kp_channel rsp);
          wrap_key = derive_wrap_key cr secret (kp_ephemeral_pub rsp) info
      in case aead_decrypt cr wrap_key (kp_wrap_nonce rsp) info (kp_wrap_ct rsp) of
           Inr sk \<Rightarrow> if length sk \<noteq> 32 then None else Some sk
         | Inl e \<Rightarrow> None)"

fun find_unwrap ::
  "crypto \<Rightarrow> key_rsp \<Rightarrow> ((bytes \<times> bytes) \<times> pending_handshake) list \<Rightarrow> (bytes \<times> bytes \<times> bytes) option" where
  "find_unwrap cr rsp [] = None"
| "find_unwrap cr rsp ((key, ph) # rest) =
     (case try_unwrap cr rsp (ph_secret ph) of
        Some sk \<Rightarrow> Some (sk, key)
      | None \<Rightarrow> find_unwrap cr rsp rest)"

definition err_no_pending :: e2e_error where
  "err_no_pending = HandshakeErr ''no pending handshake for channel''"

definition err_no_match :: e2e_error where
  "err_no_match = Crypto ''KEYRSP did not match any pending handshake for channel''"

definition consume_matching_pending_for_keyrsp :: "crypto \<Rightarrow> key_rsp \<Rightarrow> bytes mgr" where
  "consume_matching_pending_for_keyrsp cr rsp =
     bind_st (gets_st (\<lambda>m. filter (\<lambda>((c, _), _). c = kp_channel rsp) (mg_pending m))) (\<lambda>candidates.
     if candidates = [] then fail_st err_no_pending
     else (case find_unwrap cr rsp candidates of
             None \<Rightarrow> fail_st err_no_match
           | Some (sk, key) \<Rightarrow>
               bind_st (modify_st (\<lambda>m. m\<lparr>mg_pending := AList.delete key (mg_pending m)\<rparr>)) (\<lambda>_.
               ret_st sk)))"

definition is_handle_mismatch :: "e2e_error \<Rightarrow> bool" where
  "is_handle_mismatch e = (case e of HandleMismatch _ _ \<Rightarrow> True | _ \<Rightarrow> False)"

definition zero_fp :: bytes where
  "zero_fp = replicate 16 (byte_of 0)"

definition handle_keyrsp :: "crypto \<Rightarrow> bytes \<Rightarrow> key_rsp \<Rightarrow> unit mgr" where
  "handle_keyrsp cr sender_handle rsp =
     bind_st (lift_st (\<lambda>_. sig_verify cr (kp_pubkey rsp)
       (sig_payload_keyrsp (kp_channel rsp) (kp_pubkey rsp) (kp_ephemeral_pub rsp) (kp_wrap_nonce rsp)
         (kp_wrap_ct rsp) (kp_nonce rsp)) (kp_sig rsp))) (\<lambda>_.
     bind_st (consume_matching_pending_for_keyrsp cr rsp) (\<lambda>sk.
     let fp = fingerprint cr (kp_pubkey rsp) in
     bind_st now_unix (\<lambda>now.
     bind_st (kr_read (\<lambda>kr. classify_peer_change kr fp sender_handle)) (\<lambda>change.
     if change \<noteq> New \<and> change \<noteq> Known then
       reject_change cr change sender_handle (kp_channel rsp) (kp_pubkey rsp)
     else
       bind_st (kr_write (upsert_peer \<lparr>pr_fingerprint = fp, pr_pubkey = kp_pubkey rsp,
         pr_last_handle = Some sender_handle, pr_last_nick = None, pr_first_seen = now,
         pr_last_seen = now, pr_status = Trusted\<rparr>)) (\<lambda>_.
       bind_st (draw 12) (\<lambda>iv.
       bind_st (catch_st (kr_try (install_incoming_session_strict cr iv
         \<lparr>is_handle = sender_handle, is_channel = kp_channel rsp, is_fingerprint = fp, is_sk = sk,
          is_status = Trusted, is_created_at = now\<rparr>))) (\<lambda>r.
       (case r of
          Inr _ \<Rightarrow> ret_st ()
        | Inl e \<Rightarrow>
            bind_st (when_st (is_handle_mismatch e)
              (bind_st (kr_read (\<lambda>kr. get_incoming_session cr kr sender_handle (kp_channel rsp))) (\<lambda>sess.
               record_trust_change \<lparr>tn_handle = sender_handle, tn_channel = kp_channel rsp,
                 tn_change = FingerprintChanged sender_handle
                   (case sess of None \<Rightarrow> zero_fp | Some s \<Rightarrow> is_fingerprint s) fp,
                 tn_new_pubkey = Some (kp_pubkey rsp)\<rparr>))) (\<lambda>_.
            fail_st e)))))))))"

definition err_unknown_rekey :: e2e_error where
  "err_unknown_rekey = HandshakeErr ''REKEY from unknown peer; ignoring''"

definition handle_rekey :: "crypto \<Rightarrow> bytes \<Rightarrow> key_rekey \<Rightarrow> unit mgr" where
  "handle_rekey cr sender_handle rekey =
     bind_st (lift_st (\<lambda>_. sig_verify cr (kk_pubkey rekey)
       (sig_payload_keyrekey (kk_channel rekey) (kk_pubkey rekey) (kk_eph_pub rekey) (kk_wrap_nonce rekey)
         (kk_wrap_ct rekey) (kk_nonce rekey)) (kk_sig rekey))) (\<lambda>_.
     let new_fp = fingerprint cr (kk_pubkey rekey) in
     bind_st (kr_read (\<lambda>kr. classify_peer_change kr new_fp sender_handle)) (\<lambda>change.
     if change = New then fail_st err_unknown_rekey
     else if change \<noteq> Known then
       reject_change cr change sender_handle (kk_channel rekey) (kk_pubkey rekey)
     else
       bind_st (gets_st (\<lambda>m. ed25519_seed_to_x25519 cr (mg_seed m))) (\<lambda>my_sk.
       let info = rekey_info (kk_channel rekey);
           wrap_key = derive_wrap_key cr my_sk (kk_eph_pub rekey) info in
       bind_st (lift_st (\<lambda>_. aead_decrypt cr wrap_key (kk_wrap_nonce rekey) info (kk_wrap_ct rekey))) (\<lambda>new_sk.
       if length new_sk \<noteq> 32 then
         fail_st (Crypto (''rekey sk has unexpected length '' @ show_nat (length new_sk)))
       else
         bind_st now_unix (\<lambda>now.
         bind_st (draw 12) (\<lambda>iv.
         kr_try (install_incoming_session_strict cr iv
           \<lparr>is_handle = sender_handle, is_channel = kk_channel rekey, is_fingerprint = new_fp,
            is_sk = new_sk, is_status = Trusted, is_created_at = now\<rparr>)))))))"

section \<open>Symbolic execution\<close>

text \<open>
  Rewriting a sequence of steps on a state: reads of the environment advance
  the tape and touch nothing else.
\<close>

definition step_env :: "e2e_manager \<Rightarrow> e2e_manager" where
  "step_env m = m\<lparr>mg_env := (mg_env m)\<lparr>ev_tick := Suc (ev_tick (mg_env m))\<rparr>\<rparr>"

definition drawn :: "nat \<Rightarrow> e2e_manager \<Rightarrow> bytes" where
  "drawn n m = map (ev_rand (mg_env m) (ev_tick (mg_env m))) [0..<n]"

definition clock_of :: "e2e_manager \<Rightarrow> i64" where
  "clock_of m = ev_clock (mg_env m) (ev_tick (mg_env m))"

definition instant_of :: "e2e_manager \<Rightarrow> instant" where
  "instant_of m = ev_instant (mg_env m) (ev_tick (mg_env m))"

lemma drawn_length [simp]: "length (drawn n m) = n"
  by (simp add: drawn_def)

lemma step_env_sel [simp]:
  "mg_seed (step_env m) = mg_seed m" "mg_keyring (step_env m) = mg_keyring m"
  "mg_limiter (step_env m) = mg_limiter m" "mg_tolerance (step_env m) = mg_tolerance m"
  "mg_pending (step_env m) = mg_pending m" "mg_trust_changes (step_env m) = mg_trust_changes m"
  "mg_rekey_sends (step_env m) = mg_rekey_sends m" "mg_outbound (step_env m) = mg_outbound m"
  "mg_inbound (step_env m) = mg_inbound m" "mg_accepts (step_env m) = mg_accepts m"
  "ev_clock (mg_env (step_env m)) = ev_clock (mg_env m)"
  "ev_instant (mg_env (step_env m)) = ev_instant (mg_env m)"
  "ev_rand (mg_env (step_env m)) = ev_rand (mg_env m)"
  by (simp_all add: step_env_def)

named_theorems exec "symbolic execution of the state-and-error monad"

lemma env_exec [exec]:
  "draw n m = (Inr (drawn n m), step_env m)"
  "now_unix m = (Inr (clock_of m), step_env m)"
  "instant_now m = (Inr (instant_of m), step_env m)"
  "bind_st (draw n) f m = f (drawn n m) (step_env m)"
  "bind_st now_unix g m = g (clock_of m) (step_env m)"
  "bind_st instant_now h m = h (instant_of m) (step_env m)"
  by (simp_all add: draw_def now_unix_def instant_now_def tick_def st_defs drawn_def step_env_def
      clock_of_def instant_of_def)

lemma bind_exec [exec]:
  "bind_st (ret_st x) f s = f x s"
  "bind_st (fail_st e) f s = (Inl e, s)"
  "bind_st (gets_st g) f s = f (g s) s"
  "bind_st (modify_st u) h s = h () (u s)"
  "bind_st (when_st b c) h s = (if b then bind_st c h s else h () s)"
  "bind_st (bind_st a k) f s = bind_st a (\<lambda>x. bind_st (k x) f) s"
  "when_st b c s = (if b then c s else (Inr (), s))"
  "ret_st x s = (Inr x, s)"
  "fail_st e s = (Inl e, s)"
  "gets_st g s = (Inr (g s), s)"
  "modify_st u s = (Inr (), u s)"
  by (auto simp: st_defs split: prod.splits sum.splits)

lemma kr_exec [exec]:
  "kr_read q m = (q (mg_keyring m), m)"
  "bind_st (kr_read q) f m = (case q (mg_keyring m) of Inl e \<Rightarrow> (Inl e, m) | Inr x \<Rightarrow> f x m)"
  "kr_write u m = (Inr (), m\<lparr>mg_keyring := u (mg_keyring m)\<rparr>)"
  "bind_st (kr_write u) h m = h () (m\<lparr>mg_keyring := u (mg_keyring m)\<rparr>)"
  "kr_try t m = (case t (mg_keyring m) of Inl e \<Rightarrow> (Inl e, m) | Inr kr \<Rightarrow> (Inr (), m\<lparr>mg_keyring := kr\<rparr>))"
  "bind_st (kr_try t) h m =
     (case t (mg_keyring m) of Inl e \<Rightarrow> (Inl e, m) | Inr kr \<Rightarrow> h () (m\<lparr>mg_keyring := kr\<rparr>))"
  "kr_count c m = (Inr (fst (c (mg_keyring m))), m\<lparr>mg_keyring := snd (c (mg_keyring m))\<rparr>)"
  "bind_st (kr_count c) n m = n (fst (c (mg_keyring m))) (m\<lparr>mg_keyring := snd (c (mg_keyring m))\<rparr>)"
  by (auto simp: kr_read_def kr_write_def kr_try_def kr_count_def st_defs split: sum.splits prod.splits)

lemma lift_exec [exec]:
  "lift_st q s = (q s, s)"
  "bind_st (lift_st q) f s = (case q s of Inl e \<Rightarrow> (Inl e, s) | Inr x \<Rightarrow> f x s)"
  by (auto simp: st_defs split: sum.splits prod.splits)

lemma catch_exec [exec]:
  "catch_st c s = (Inr (fst (c s)), snd (c s))"
  "bind_st (catch_st c) f s = f (fst (c s)) (snd (c s))"
  by (auto simp: catch_st_def st_defs split: prod.splits)

section \<open>What a step leaves alone\<close>

text \<open>An invariant that does not look at the environment is kept by its reads.\<close>

definition env_blind :: "(e2e_manager \<Rightarrow> bool) \<Rightarrow> bool" where
  "env_blind P \<longleftrightarrow> (\<forall>m. P (step_env m) = P m)"

lemma keeps_env [wf_intros]:
  assumes "env_blind P"
  shows "keeps P (draw n)" "keeps P now_unix" "keeps P instant_now"
  using assms by (simp_all add: keeps_def exec env_blind_def)

lemma keeps_prod [wf_intros]: "(\<And>a b. keeps P (f a b)) \<Longrightarrow> keeps P (case x of (a, b) \<Rightarrow> f a b)"
  by (simp split: prod.split)

lemma keeps_sum [wf_intros]:
  "(\<And>e. x = Inl e \<Longrightarrow> keeps P (f e)) \<Longrightarrow> (\<And>y. x = Inr y \<Longrightarrow> keeps P (g y)) \<Longrightarrow>
   keeps P (case x of Inl e \<Rightarrow> f e | Inr y \<Rightarrow> g y)"
  by (cases x) auto

lemma keeps_let [wf_intros]: "keeps P (f x) \<Longrightarrow> keeps P (let y = x in f y)"
  by simp

lemma keeps_catch [wf_intros]: "keeps P c \<Longrightarrow> keeps P (catch_st c)"
  by (simp add: keeps_def exec)

lemma keeps_kr_read [wf_intros]: "keeps P (kr_read q)"
  by (simp add: keeps_def exec)

lemma keeps_kr_write: "(\<And>m. P m \<Longrightarrow> P (m\<lparr>mg_keyring := u (mg_keyring m)\<rparr>)) \<Longrightarrow> keeps P (kr_write u)"
  by (simp add: keeps_def exec)

lemma keeps_kr_try:
  "(\<And>m kr. P m \<Longrightarrow> t (mg_keyring m) = Inr kr \<Longrightarrow> P (m\<lparr>mg_keyring := kr\<rparr>)) \<Longrightarrow> keeps P (kr_try t)"
  by (simp add: keeps_def exec split: sum.splits)

end
