(* ===== verification/E2e_Network.thy ===== *)
theory E2e_Network
  imports E2e_Manager
begin

text \<open>
  What network traffic can and cannot do to the keyring.  A transition is any
  call that a remote party or a plain message can cause: the three handshake
  handlers, decryption, encryption (with its lazy rotation), building a
  KEYREQ, the rate-limit checks and the drains.  The explicit decisions of
  the user (accept, reverify, forget, import) are not transitions.

  The locale collects what a predicate of the keyring has to tolerate to be
  kept by all of them; the invariants of the trust model are interpretations.
\<close>

section \<open>Transitions\<close>

inductive net_step :: "(bytes \<Rightarrow> bytes list) \<Rightarrow> crypto \<Rightarrow> e2e_manager \<Rightarrow> e2e_manager \<Rightarrow> bool"
  for lower cr where
  keyreq: "net_step lower cr m (snd (handle_keyreq_with_nick lower cr h n req m))"
| keyrsp: "net_step lower cr m (snd (handle_keyrsp cr h rsp m))"
| rekey: "net_step lower cr m (snd (handle_rekey cr h rk m))"
| decrypt: "net_step lower cr m (snd (decrypt_incoming cr h c line m))"
| encrypt: "net_step lower cr m (snd (encrypt_outgoing cr c text m))"
| initiate: "net_step lower cr m (snd (build_keyreq_for_peer cr c h' m))"
| allow_out: "net_step lower cr m (snd (allow_keyreq h m))"
| allow_in: "net_step lower cr m (snd (allow_incoming_keyreq h m))"
| drain_notices: "net_step lower cr m (snd (take_pending_trust_changes m))"
| drain_rekeys: "net_step lower cr m (snd (take_pending_rekey_sends m))"
| drain_keyreqs: "net_step lower cr m (snd (take_pending_outbound_keyreqs m))"
| drain_accepts: "net_step lower cr m (snd (take_pending_accept_requests m))"

inductive net_run :: "(bytes \<Rightarrow> bytes list) \<Rightarrow> crypto \<Rightarrow> e2e_manager \<Rightarrow> e2e_manager \<Rightarrow> bool"
  for lower cr m where
  run_refl: "net_run lower cr m m"
| run_step: "net_run lower cr m m' \<Longrightarrow> net_step lower cr m' m'' \<Longrightarrow> net_run lower cr m m''"

inductive_cases net_runE: "net_run lower cr m m'"

section \<open>Keyring invariants\<close>

lemmas mgr_defs = limiter_step_def allow_keyreq_def allow_incoming_keyreq_def record_trust_change_def
  reject_change_def take_pending_trust_changes_def take_pending_rekey_sends_def
  take_pending_outbound_keyreqs_def take_pending_accept_requests_def

text \<open>A predicate that handing out the outgoing key keeps: it looks at neither outgoing table.\<close>

locale serving_invariant =
  fixes Q :: "keyring \<Rightarrow> bool"
  assumes tolerates_outgoing: "Q kr \<Longrightarrow> Q (kr\<lparr>kr_outgoing := t\<rparr>)"
    and tolerates_recipient: "Q kr \<Longrightarrow> Q (record_outgoing_recipient c h fp now kr)"
begin

abbreviation I :: "e2e_manager \<Rightarrow> bool" where
  "I m \<equiv> Q (mg_keyring m)"

lemma env_blind_I: "env_blind I"
  by (simp add: env_blind_def)

lemmas I_intros = wf_intros keeps_env [OF env_blind_I]

lemma keeps_queues:
  "keeps I (limiter_step f)" "keeps I (record_trust_change n)" "keeps I (reject_change cr' c h ch pk)"
  "keeps I take_pending_trust_changes" "keeps I take_pending_rekey_sends"
  "keeps I take_pending_outbound_keyreqs" "keeps I take_pending_accept_requests"
  unfolding mgr_defs by (intro I_intros; simp)+

lemma keeps_distribute_one: "keeps I (distribute_one cr' c k r)"
  unfolding distribute_one_def build_rekey_for_peer_def by (intro I_intros) simp_all

lemma keeps_distribute: "keeps I (distribute_rekeys cr' c k rs)"
  by (induction rs) (auto intro!: I_intros keeps_distribute_one)

lemma keeps_outgoing_key: "keeps I (get_or_generate_outgoing_key cr' c)"
proof -
  have "keeps I (kr_try (set_outgoing_session cr' iv c sk t))" for iv sk t
    by (rule keeps_kr_try) (auto simp: set_outgoing_Inr tolerates_outgoing)
  then show ?thesis
    unfolding get_or_generate_outgoing_key_def generate_outgoing_key_def
    by (intro I_intros keeps_distribute) simp_all
qed

lemma keeps_encrypt_chunks: "keeps I (encrypt_chunks cr' sk c i t n k ps)"
  by (induction ps arbitrary: k) (auto intro!: I_intros simp: Let_def)

lemma keeps_encrypt: "keeps I (encrypt_outgoing cr' c text)"
  unfolding encrypt_outgoing_def by (intro I_intros keeps_outgoing_key keeps_encrypt_chunks)

lemma keeps_decrypt: "keeps I (decrypt_incoming cr' h c line)"
  unfolding decrypt_incoming_def by (intro I_intros)

lemma keeps_build_keyreq: "keeps I (build_keyreq_for_peer cr' c h)"
  unfolding build_keyreq_for_peer_def by (intro I_intros) simp

lemma keeps_reciprocal: "keeps I (queue_reciprocal cr' h c)"
  unfolding queue_reciprocal_def allow_keyreq_def
  by (intro I_intros keeps_queues keeps_build_keyreq) simp

lemma keeps_serve: "keeps I (serve_keyrsp cr' h req)"
  unfolding serve_keyrsp_def
  by (intro I_intros keeps_outgoing_key keeps_reciprocal keeps_kr_write) (simp add: tolerates_recipient)

lemma keeps_consume: "keeps I (consume_matching_pending_for_keyrsp cr' rsp)"
  unfolding consume_matching_pending_for_keyrsp_def by (intro I_intros) simp

end

text \<open>A predicate that also survives strict installs and the upsert of a peer classified as new or known.\<close>

locale keyring_invariant = serving_invariant Q for Q :: "keyring \<Rightarrow> bool" +
  fixes cr :: crypto
  assumes tolerates_install: "Q kr \<Longrightarrow> install_incoming_session_strict cr iv s kr = Inr kr' \<Longrightarrow> Q kr'"
    and tolerates_upsert: "Q kr \<Longrightarrow> classify_peer_change kr (pr_fingerprint r) h = Inr change \<Longrightarrow>
      change = New \<or> change = Known \<Longrightarrow> pr_last_handle r = Some h \<Longrightarrow> Q (upsert_peer r kr)"
begin

lemma keeps_install: "keeps I (kr_try (install_incoming_session_strict cr iv s))"
  by (rule keeps_kr_try) (simp add: tolerates_install)

lemma keeps_cache: "keeps I (cache_pending_inbound_normal_mode cr h n req fp)"
  unfolding cache_pending_inbound_normal_mode_def by (intro I_intros keeps_install) simp

lemma keeps_tofu: "keeps I (tofu_upsert_on_keyreq cr h n req fp)"
proof (rule keepsI)
  fix m assume m: "I m"
  show "I (snd (tofu_upsert_on_keyreq cr h n req fp m))"
    using m keepsD [OF keeps_queues(3), of "step_env m"] tolerates_upsert [OF m]
    by (auto simp: tofu_upsert_on_keyreq_def exec Let_def split: sum.split)
qed

lemma keeps_keyreq: "keeps I (handle_keyreq_with_nick lower cr h n req)"
  unfolding handle_keyreq_with_nick_def allow_incoming_keyreq_def
  by (intro I_intros keeps_queues keeps_tofu keeps_cache keeps_serve)

lemma keeps_classified:
  assumes "pr_fingerprint r = fp" "pr_last_handle r = Some h" "keeps I k" "\<And>c. keeps I (other c)"
  shows "keeps I (bind_st (kr_read (\<lambda>kr. classify_peer_change kr fp h)) (\<lambda>change.
    if change \<noteq> New \<and> change \<noteq> Known then other change
    else bind_st (kr_write (upsert_peer r)) (\<lambda>_. k)))"
proof (rule keepsI)
  fix m assume m: "I m"
  have "I (m\<lparr>mg_keyring := upsert_peer r (mg_keyring m)\<rparr>)"
    if "classify_peer_change (mg_keyring m) fp h = Inr c" "c = New \<or> c = Known" for c
    using tolerates_upsert [OF m, of r h c] that assms(1,2) by simp
  then show "I (snd (bind_st (kr_read (\<lambda>kr. classify_peer_change kr fp h)) (\<lambda>change.
    if change \<noteq> New \<and> change \<noteq> Known then other change
    else bind_st (kr_write (upsert_peer r)) (\<lambda>_. k)) m))"
    using m keepsD [OF assms(3)] keepsD [OF assms(4)] by (auto simp: exec split: sum.split)
qed

lemma keeps_keyrsp: "keeps I (handle_keyrsp cr h rsp)"
  unfolding handle_keyrsp_def Let_def
  by (intro I_intros keeps_consume keeps_classified keeps_install keeps_queues) simp_all

lemma keeps_rekey: "keeps I (handle_rekey cr h rk)"
  unfolding handle_rekey_def by (intro I_intros keeps_install keeps_queues)

theorem step_keeps: "net_step lower cr m m' \<Longrightarrow> I m \<Longrightarrow> I m'"
proof (induction rule: net_step.induct)
qed (auto intro: keepsD keeps_keyreq keeps_keyrsp keeps_rekey keeps_decrypt keeps_encrypt
    keeps_build_keyreq keeps_queues simp: allow_keyreq_def allow_incoming_keyreq_def)

theorem run_keeps: "net_run lower cr m m' \<Longrightarrow> I m \<Longrightarrow> I m'"
  by (induction rule: net_run.induct) (auto intro: step_keeps)

end

end
