(* ===== verification/E2e_Trust.thy ===== *)
theory E2e_Trust
  imports E2e_Network
begin

text \<open>
  The trust model of the end-to-end encryption: what network traffic can
  never change, who is handed a session key, what decryption accepts, and
  what the trust commands of the user do
  (\<open>src/src/commands/handlers_e2e.rs\<close>).
\<close>

section \<open>What classification says\<close>

lemma latest_row_None [simp]: "latest_row rs = None \<longleftrightarrow> rs = []"
  by (cases rs) (auto split: option.splits)

lemma latest_row_in: "latest_row rs = Some r \<Longrightarrow> r \<in> set rs"
  by (induction rs arbitrary: r) (auto split: option.splits if_splits)

lemma classify_New:
  "classify_peer_change kr fp h = Inr New \<longleftrightarrow>
     map_of (kr_peers kr) fp = None \<and> (\<forall>f w. (f, w) \<in> set (kr_peers kr) \<longrightarrow> pw_last_handle w \<noteq> Some h)"
  by (auto simp: classify_peer_change_def get_peer_by_fingerprint_def get_peer_by_handle_def
      bind_res_Inr_iff filter_empty_conv split: option.splits if_splits dest!: latest_row_in
      intro!: exI)

lemma classify_Known:
  "classify_peer_change kr fp h = Inr Known \<longleftrightarrow>
     (\<exists>w. map_of (kr_peers kr) fp = Some w \<and> length (pw_pubkey w) = 32 \<and>
        trust_parse (pw_status w) \<noteq> Revoked \<and> pw_last_handle w = Some h)"
  by (auto simp: classify_peer_change_def get_peer_by_fingerprint_def row_to_peer_def
      bind_res_Inr_iff split: option.splits if_splits)

lemma upsert_peer_lookup [simp]:
  "map_of (kr_peers (upsert_peer r kr)) fp =
     (if fp = pr_fingerprint r then
        Some (case map_of (kr_peers kr) fp of
          None \<Rightarrow> peer_to_row r
        | Some w \<Rightarrow> w\<lparr>pw_last_handle := pr_last_handle r, pw_last_nick := pr_last_nick r,
            pw_last_seen := pr_last_seen r, pw_status := trust_as_str (pr_status r)\<rparr>)
      else map_of (kr_peers kr) fp)"
  by (simp add: upsert_peer_def)

section \<open>Invariants of network traffic\<close>

interpretation pinned_session: keyring_invariant "\<lambda>kr. session_pin kr key = Some fp" cr for cr key fp
proof
  fix kr iv s kr'
  assume "session_pin kr key = Some fp" "install_incoming_session_strict cr iv s kr = Inr kr'"
  then show "session_pin kr' key = Some fp"
    using sessions.pin_kept [of cr "(iv, s)" kr kr' key fp] by simp
qed (simp_all add: session_pin_def)

text \<open>
  C5: no network traffic rebinds a conversation.  Once a handle's session on
  a channel is bound to a fingerprint, it is bound to that fingerprint after
  every run of handshakes, messages, rotations and drains, from whatever
  senders.
\<close>

theorem network_keeps_session_pins:
  assumes "net_run lower cr m m'" "session_pin (mg_keyring m) (handle, channel) = Some fp"
  shows "session_pin (mg_keyring m') (handle, channel) = Some fp"
  using pinned_session.run_keeps [OF assms] .

definition example_env :: environment where
  "example_env = \<lparr>ev_clock = (\<lambda>_. 1000), ev_instant = id, ev_rand = (\<lambda>k i. byte_of (k + i)), ev_tick = 0\<rparr>"

definition example_manager :: "keyring \<Rightarrow> e2e_manager" where
  "example_manager kr = manager_new example_env kr 300 (replicate 32 CHR ''s'')"

lemma network_keeps_session_pins_witness:
  "session_pin (mg_keyring (snd (handle_keyrsp toy_crypto ''~eve@e.host''
      \<lparr>kp_channel = ''#x'', kp_pubkey = [], kp_ephemeral_pub = [], kp_wrap_nonce = [], kp_wrap_ct = [],
       kp_nonce = [], kp_sig = []\<rparr>
      (example_manager (put_incoming (example_session ''f1'') [] (keyring_new None))))))
     (''~bob@b.host'', ''#x'') = Some ''f1''"
  by (rule network_keeps_session_pins [where m = "example_manager (put_incoming (example_session ''f1'') [] (keyring_new None))"
        and lower = ascii_lower_table and cr = toy_crypto])
    (auto intro: net_run.intros net_step.intros
      simp: example_manager_def manager_new_def session_pin_def example_session_def)

definition peer_fixed :: "bytes \<Rightarrow> bytes \<Rightarrow> bytes option \<Rightarrow> i64 \<Rightarrow> bool \<Rightarrow> keyring \<Rightarrow> bool" where
  "peer_fixed fp pk handle first rvk kr \<longleftrightarrow>
     (\<exists>w. map_of (kr_peers kr) fp = Some w \<and> pw_pubkey w = pk \<and> pw_last_handle w = handle \<and>
        pw_first_seen w = first \<and> (rvk \<longrightarrow> trust_parse (pw_status w) = Revoked))"

interpretation fixed_peer: keyring_invariant "peer_fixed fp pk handle first rvk" cr
  for cr fp pk handle first rvk
proof
  fix kr :: keyring and r :: peer_record and h change
  assume "peer_fixed fp pk handle first rvk kr" "classify_peer_change kr (pr_fingerprint r) h = Inr change"
    "change = New \<or> change = Known" "pr_last_handle r = Some h"
  then show "peer_fixed fp pk handle first rvk (upsert_peer r kr)"
    by (auto simp: peer_fixed_def classify_New classify_Known)
qed (auto simp: peer_fixed_def install_strict_Inr)

text \<open>
  C6: no network traffic changes who a known peer is.  A recorded peer keeps
  its public key, the handle it was seen under and its first sighting, and is
  never removed; and a peer whose global status is revoked stays revoked.
\<close>

theorem network_keeps_peers:
  assumes "net_run lower cr m m'" "map_of (kr_peers (mg_keyring m)) fp = Some w"
  shows "\<exists>w'. map_of (kr_peers (mg_keyring m')) fp = Some w' \<and>
    pw_pubkey w' = pw_pubkey w \<and> pw_last_handle w' = pw_last_handle w \<and>
    pw_first_seen w' = pw_first_seen w \<and>
    (trust_parse (pw_status w) = Revoked \<longrightarrow> trust_parse (pw_status w') = Revoked)"
proof -
  have "peer_fixed fp (pw_pubkey w) (pw_last_handle w) (pw_first_seen w)
      (trust_parse (pw_status w) = Revoked) (mg_keyring m)"
    using assms(2) by (simp add: peer_fixed_def)
  from fixed_peer.run_keeps [OF assms(1) this] show ?thesis by (auto simp: peer_fixed_def)
qed

definition example_peer :: "bytes \<Rightarrow> trust_status \<Rightarrow> peer_record" where
  "example_peer pk st = \<lparr>pr_fingerprint = fingerprint toy_crypto pk, pr_pubkey = pk,
     pr_last_handle = Some ''~bob@b.host'', pr_last_nick = None, pr_first_seen = 5, pr_last_seen = 5,
     pr_status = st\<rparr>"

lemma network_keeps_peers_witness:
  "\<exists>w'. map_of (kr_peers (mg_keyring (snd (encrypt_outgoing toy_crypto ''#x'' ''hi'' (example_manager
      (upsert_peer (example_peer (replicate 32 CHR ''b'') Revoked) (keyring_new None)))))))
      (fingerprint toy_crypto (replicate 32 CHR ''b'')) = Some w' \<and>
    pw_last_handle w' = Some ''~bob@b.host'' \<and> trust_parse (pw_status w') = Revoked"
proof -
  let ?m = "example_manager (upsert_peer (example_peer (replicate 32 CHR ''b'') Revoked) (keyring_new None))"
  have "net_run ascii_lower_table toy_crypto ?m (snd (encrypt_outgoing toy_crypto ''#x'' ''hi'' ?m))"
    by (meson net_run.intros net_step.encrypt)
  moreover have "map_of (kr_peers (mg_keyring ?m)) (fingerprint toy_crypto (replicate 32 CHR ''b'')) =
      Some (peer_to_row (example_peer (replicate 32 CHR ''b'') Revoked))"
    by (simp add: example_manager_def manager_new_def keyring_new_def example_peer_def)
  ultimately show ?thesis
    by (drule_tac network_keeps_peers) (auto simp: peer_to_row_def example_peer_def)
qed

definition handles_unique :: "keyring \<Rightarrow> bool" where
  "handles_unique kr \<longleftrightarrow>
     (\<forall>f1 w1 f2 w2 h. map_of (kr_peers kr) f1 = Some w1 \<and> map_of (kr_peers kr) f2 = Some w2 \<and>
        pw_last_handle w1 = Some h \<and> pw_last_handle w2 = Some h \<longrightarrow> f1 = f2)"

interpretation unique_handles: keyring_invariant handles_unique cr for cr
proof
  fix kr :: keyring and r :: peer_record and h change
  assume u: "handles_unique kr" and c: "classify_peer_change kr (pr_fingerprint r) h = Inr change"
    "change = New \<or> change = Known" and r: "pr_last_handle r = Some h"
  have other: "f = pr_fingerprint r"
    if "map_of (kr_peers kr) f = Some w" "pw_last_handle w = Some h" for f w
  proof (cases "change = New")
    case True
    with c(1) that show ?thesis by (auto simp: classify_New dest: map_of_SomeD)
  next
    case False
    with c that u show ?thesis unfolding handles_unique_def by (auto simp: classify_Known)
  qed
  then show "handles_unique (upsert_peer r kr)"
    using u r unfolding handles_unique_def by (auto simp: peer_to_row_def split: if_splits option.splits)
qed (auto simp: handles_unique_def install_strict_Inr)

text \<open>
  A handle names at most one identity.  If no two recorded peers share
  their last handle, then none do after any run of network traffic, so the
  lookup by handle that detects a changed fingerprint is unambiguous.
\<close>

theorem network_keeps_handles_unique:
  assumes "net_run lower cr m m'" "handles_unique (mg_keyring m)"
  shows "handles_unique (mg_keyring m')"
  using unique_handles.run_keeps [OF assms] .

lemma network_keeps_handles_unique_witness:
  "handles_unique (mg_keyring (snd (encrypt_outgoing toy_crypto ''#x'' ''hi'' (example_manager (keyring_new None)))))"
  by (rule network_keeps_handles_unique [where m = "example_manager (keyring_new None)"
        and lower = ascii_lower_table and cr = toy_crypto])
    (auto intro: net_run.intros net_step.intros
      simp: example_manager_def manager_new_def handles_unique_def keyring_new_def)

section \<open>Decryption\<close>

lemma decrypt_exec:
  "decrypt_incoming cr h c line m =
     (case wire_parse cr line of
        Inl e \<Rightarrow> (Inl e, m)
      | Inr None \<Rightarrow> (Inr (Plaintext line), m)
      | Inr (Some w) \<Rightarrow>
          let skew = i64_abs (clock_of m - wc_ts w) in
          if sint (mg_tolerance m) < sint skew then (Inr (Rejected (msg_skew skew)), step_env m)
          else (case get_incoming_session cr (mg_keyring m) h c of
                  Inl e \<Rightarrow> (Inl e, step_env m)
                | Inr None \<Rightarrow> (Inr (MissingKey h c), step_env m)
                | Inr (Some s) \<Rightarrow>
                    (Inr (if is_status s = Trusted then open_chunk cr (is_sk s) c w
                          else Rejected (msg_untrusted (is_status s))), step_env m)))"
  by (auto simp: decrypt_incoming_def exec Let_def split: sum.split option.split)

lemma i64_abs_diff:
  fixes a b :: i64
  assumes "\<bar>sint a - sint b\<bar> < 2 ^ 63"
  shows "sint (i64_abs (a - b)) = \<bar>sint a - sint b\<bar>"
proof -
  have d: "sint (a - b) = sint a - sint b"
    using assms by (simp add: sint_word_ariths signed_take_bit_int_eq_self abs_less_iff)
  show ?thesis
  proof (cases "sint a < sint b")
    case True
    have "sint (- (a - b)) = - sint (a - b)"
      using assms True d by (simp add: sint_word_ariths signed_take_bit_int_eq_self)
    with True d show ?thesis by (simp add: i64_abs_def)
  qed (use d in \<open>simp add: i64_abs_def\<close>)
qed

text \<open>
  The replay window is a distance in seconds.  Whenever clock and time
  stamp are less than 2^63 seconds apart, the check accepts exactly the time
  stamps at most the tolerance before or after the clock.
\<close>

theorem replay_window_exact:
  fixes now ts tol :: i64
  assumes "\<bar>sint now - sint ts\<bar> < 2 ^ 63"
  shows "sint (i64_abs (now - ts)) \<le> sint tol \<longleftrightarrow> \<bar>sint now - sint ts\<bar> \<le> sint tol"
  by (simp add: i64_abs_diff [OF assms])

lemma replay_window_exact_witness:
  "sint (i64_abs (1000 - 1301)) \<le> sint (300 :: i64) \<longleftrightarrow> \<bar>sint (1000 :: i64) - sint (1301 :: i64)\<bar> \<le> sint (300 :: i64)"
  by (rule replay_window_exact) simp

text \<open>
  Beyond that distance the subtraction wraps, and the absolute value of the
  smallest integer is itself: one time stamp, 2^63 seconds away, is inside
  every window.
\<close>

lemma replay_window_wraps:
  fixes now :: i64
  assumes "0 \<le> sint tol"
  shows "sint (i64_abs (now - (now - 2 ^ 63))) \<le> sint tol"
proof -
  have "now - (now - 2 ^ 63) = (2 ^ 63 :: i64)" by simp
  moreover have "i64_abs (2 ^ 63) = 2 ^ 63" "sint (2 ^ 63 :: i64) < 0" by code_simp+
  ultimately show ?thesis using assms by simp
qed

section \<open>What a KEYREQ can do\<close>

definition trusted_row :: "keyring \<Rightarrow> bytes \<times> bytes \<Rightarrow> incoming_row option" where
  "trusted_row kr key =
     (case map_of (kr_incoming kr) key of
        Some w \<Rightarrow> if trust_parse (iw_status w) = Trusted then Some w else None
      | None \<Rightarrow> None)"

interpretation trusted_rows: serving_invariant "\<lambda>kr. trusted_row kr key = R" for key R
  by unfold_locales (simp_all add: trusted_row_def)

lemma keeps_trusted_tofu:
  "keeps (\<lambda>m. trusted_row (mg_keyring m) key = R) (tofu_upsert_on_keyreq cr h n req fp)"
  unfolding tofu_upsert_on_keyreq_def
  by (intro trusted_rows.I_intros trusted_rows.keeps_queues keeps_kr_write) (simp add: trusted_row_def)

lemma untrusted_get:
  assumes "get_incoming_session cr kr h c = Inr sess" "\<not> is_trusted_session sess"
  shows "trusted_row kr (h, c) = None"
  using assms by (auto simp: get_incoming_session_def row_to_incoming_def trusted_row_def
      is_trusted_session_def bind_res_Inr_iff split: option.splits if_splits)

lemma cache_keeps_trusted:
  assumes "trusted_row (mg_keyring m) (h, kq_channel req) = None"
  shows "trusted_row (mg_keyring (snd (cache_pending_inbound_normal_mode cr h n req fp m))) key =
         trusted_row (mg_keyring m) key"
  using assms
  by (auto simp: cache_pending_inbound_normal_mode_def exec install_strict_Inr trusted_row_def
      split: sum.splits option.splits if_splits)

text \<open>
  C7: a KEYREQ never makes anybody trusted.  Whatever KEYREQ arrives from
  whatever handle, the trusted sessions after handling it, with their keys,
  fingerprints and times, are exactly the trusted sessions before.
\<close>

theorem keyreq_grants_no_trust:
  "trusted_row (mg_keyring (snd (handle_keyreq_with_nick lower cr handle nick req m))) key =
   trusted_row (mg_keyring m) key"
proof -
  let ?P = "\<lambda>s. trusted_row (mg_keyring s) key = trusted_row (mg_keyring m) key"
  have tail: "keeps ?P (bind_st (kr_read (\<lambda>kr. get_incoming_session cr kr handle (kq_channel req))) (\<lambda>sess.
      let already_trusted = is_trusted_session sess in
      if mode = Normal \<and> \<not> already_trusted then
        bind_st (cache_pending_inbound_normal_mode cr handle nick req fp) (\<lambda>_. ret_st None)
      else if mode = Quiet \<and> \<not> already_trusted then ret_st None
      else bind_st (serve_keyrsp cr handle req) (\<lambda>rsp. ret_st (Some rsp))))" for mode fp
  proof (rule keepsI)
    fix s :: e2e_manager assume s: "?P s"
    have serve: "keeps ?P (bind_st (serve_keyrsp cr handle req) (\<lambda>rsp. ret_st (Some rsp)))"
      by (intro trusted_rows.I_intros trusted_rows.keeps_serve)
    have cache: "?P (snd (bind_st (cache_pending_inbound_normal_mode cr handle nick req fp) (\<lambda>_. ret_st None) s))"
      if "get_incoming_session cr (mg_keyring s) handle (kq_channel req) = Inr sess"
        "\<not> is_trusted_session sess" for sess
      using s cache_keeps_trusted [OF untrusted_get [OF that]]
      by (simp add: bind_st_def ret_st_def split: prod.split sum.split)
        (metis snd_conv)
    show "?P (snd (bind_st (kr_read (\<lambda>kr. get_incoming_session cr kr handle (kq_channel req))) (\<lambda>sess.
      let already_trusted = is_trusted_session sess in
      if mode = Normal \<and> \<not> already_trusted then
        bind_st (cache_pending_inbound_normal_mode cr handle nick req fp) (\<lambda>_. ret_st None)
      else if mode = Quiet \<and> \<not> already_trusted then ret_st None
      else bind_st (serve_keyrsp cr handle req) (\<lambda>rsp. ret_st (Some rsp))) s))"
      using s cache keepsD [OF serve s]
      by (auto simp: kr_exec bind_exec Let_def split: sum.split)
  qed
  have "keeps ?P (handle_keyreq_with_nick lower cr handle nick req)"
    unfolding handle_keyreq_with_nick_def allow_incoming_keyreq_def
    by (intro trusted_rows.I_intros trusted_rows.keeps_queues keeps_trusted_tofu tail)
  from keepsD [OF this refl] show ?thesis .
qed

lemma limiter_exec [exec]:
  "bind_st (limiter_step f) g m =
     g (fst (f (instant_of m) (mg_limiter m)))
       ((step_env m)\<lparr>mg_limiter := snd (f (instant_of m) (mg_limiter m))\<rparr>)"
  by (simp add: limiter_step_def exec split: prod.split)

lemma tofu_accepts:
  assumes "tofu_upsert_on_keyreq cr h n req fp m = (Inr u, m')"
  shows "classify_peer_change (mg_keyring m) fp h \<in> {Inr New, Inr Known}"
    and "kr_incoming (mg_keyring m') = kr_incoming (mg_keyring m)"
    and "kr_secret_key (mg_keyring m') = kr_secret_key (mg_keyring m)"
    and "kr_outgoing (mg_keyring m') = kr_outgoing (mg_keyring m)"
    and "mg_seed m' = mg_seed m"
  using assms by (auto simp: tofu_upsert_on_keyreq_def reject_change_def record_trust_change_def exec
      split: sum.splits if_splits)

text \<open>What it takes for a KEYREQ to be answered, and the call that answers it.\<close>

lemma keyreq_answered:
  assumes "handle_keyreq_with_nick lower cr handle nick req m = (Inr (Some rsp), m')"
  obtains mode u m2 sess where
    "fst (allow_incoming handle (instant_of m) (mg_limiter m))"
    "sig_verify cr (kq_pubkey req)
      (sig_payload_keyreq (kq_channel req) (kq_pubkey req) (kq_eph_x25519 req) (kq_nonce req))
      (kq_sig req) = Inr ()"
    "effective_channel_mode lower (mg_keyring m) handle (kq_channel req) = Some mode"
    "tofu_upsert_on_keyreq cr handle nick req (fingerprint cr (kq_pubkey req))
      ((step_env m)\<lparr>mg_limiter := snd (allow_incoming handle (instant_of m) (mg_limiter m))\<rparr>) = (Inr u, m2)"
    "get_incoming_session cr (mg_keyring m2) handle (kq_channel req) = Inr sess"
    "mode = AutoAccept \<or> is_trusted_session sess"
    "serve_keyrsp cr handle req m2 = (Inr rsp, m')"
proof -
  let ?m1 = "(step_env m)\<lparr>mg_limiter := snd (allow_incoming handle (instant_of m) (mg_limiter m))\<rparr>"
  let ?fp = "fingerprint cr (kq_pubkey req)"
  from assms have allowed: "fst (allow_incoming handle (instant_of m) (mg_limiter m))"
    by (auto simp: handle_keyreq_with_nick_def allow_incoming_keyreq_def exec split: if_splits)
  with assms have vs: "sig_verify cr (kq_pubkey req)
      (sig_payload_keyreq (kq_channel req) (kq_pubkey req) (kq_eph_x25519 req) (kq_nonce req))
      (kq_sig req) = Inr ()"
    by (auto simp: handle_keyreq_with_nick_def allow_incoming_keyreq_def exec split: sum.splits)
  from assms allowed vs obtain mode where
    mode: "effective_channel_mode lower (mg_keyring m) handle (kq_channel req) = Some mode"
    by (auto simp: handle_keyreq_with_nick_def allow_incoming_keyreq_def exec split: option.splits)
  with assms allowed vs obtain u m2 where
    tofu: "tofu_upsert_on_keyreq cr handle nick req ?fp ?m1 = (Inr u, m2)"
    by (auto simp: handle_keyreq_with_nick_def allow_incoming_keyreq_def exec Let_def bind_st_Inr_iff)
  from assms allowed vs mode tofu obtain sess where
    sess: "get_incoming_session cr (mg_keyring m2) handle (kq_channel req) = Inr sess"
      "mode = AutoAccept \<or> is_trusted_session sess" "serve_keyrsp cr handle req m2 = (Inr rsp, m')"
    by (cases mode)
      (auto simp: handle_keyreq_with_nick_def allow_incoming_keyreq_def exec Let_def
        bind_st_Inr_iff kr_exec split: sum.splits if_splits)
  from that [OF allowed vs mode tofu sess] show thesis .
qed

text \<open>
  C3: who is handed our session key.  A KEYRSP is produced only for a request
  within the rate limit, whose signature verifies, on a channel where
  encryption is enabled, from a peer that is new or known under this very
  handle and not revoked; and only in auto-accept mode, under a matching
  autotrust rule, or when the handle already has a trusted session there.
\<close>

theorem keyrsp_policy:
  assumes "handle_keyreq_with_nick lower cr handle nick req m = (Inr (Some rsp), m')"
  shows "fst (allow_incoming handle (instant_of m) (mg_limiter m)) \<and>
    sig_verify cr (kq_pubkey req)
      (sig_payload_keyreq (kq_channel req) (kq_pubkey req) (kq_eph_x25519 req) (kq_nonce req))
      (kq_sig req) = Inr () \<and>
    classify_peer_change (mg_keyring m) (fingerprint cr (kq_pubkey req)) handle \<in> {Inr New, Inr Known} \<and>
    (\<exists>cfg. get_channel_config (mg_keyring m) (kq_channel req) = Some cfg \<and> cc_enabled cfg \<and>
      (cc_mode cfg = AutoAccept \<or> autotrust_matches lower (mg_keyring m) handle (kq_channel req) \<or>
       (\<exists>s. get_incoming_session cr (mg_keyring m) handle (kq_channel req) = Inr (Some s) \<and>
          is_status s = Trusted)))"
proof -
  from assms obtain mode u m2 sess where
    ok: "fst (allow_incoming handle (instant_of m) (mg_limiter m))"
      "sig_verify cr (kq_pubkey req)
        (sig_payload_keyreq (kq_channel req) (kq_pubkey req) (kq_eph_x25519 req) (kq_nonce req))
        (kq_sig req) = Inr ()" and
    mode: "effective_channel_mode lower (mg_keyring m) handle (kq_channel req) = Some mode" and
    tofu: "tofu_upsert_on_keyreq cr handle nick req (fingerprint cr (kq_pubkey req))
      ((step_env m)\<lparr>mg_limiter := snd (allow_incoming handle (instant_of m) (mg_limiter m))\<rparr>) = (Inr u, m2)" and
    sess: "get_incoming_session cr (mg_keyring m2) handle (kq_channel req) = Inr sess"
      "mode = AutoAccept \<or> is_trusted_session sess"
    by (rule keyreq_answered)
  note t = tofu_accepts [OF tofu, simplified]
  have "get_incoming_session cr (mg_keyring m2) = get_incoming_session cr (mg_keyring m)"
    using t(2,3) by (intro get_incoming_frame)
  with sess have "mode = AutoAccept \<or> (\<exists>s. get_incoming_session cr (mg_keyring m) handle (kq_channel req) =
      Inr (Some s) \<and> is_status s = Trusted)"
    by (auto simp: is_trusted_session_def split: option.splits)
  with mode have "\<exists>cfg. get_channel_config (mg_keyring m) (kq_channel req) = Some cfg \<and> cc_enabled cfg \<and>
      (cc_mode cfg = AutoAccept \<or> autotrust_matches lower (mg_keyring m) handle (kq_channel req) \<or>
       (\<exists>s. get_incoming_session cr (mg_keyring m) handle (kq_channel req) = Inr (Some s) \<and>
          is_status s = Trusted))"
    by (auto simp: effective_channel_mode_def split: option.splits if_splits)
  with ok t(1) show ?thesis by simp
qed

end
