(* ===== verification/E2e_Sessions.thy ===== *)
theory E2e_Sessions
  imports E2e_Trust
begin

text \<open>
  What two honest clients achieve together: a message encrypted by one is
  decrypted by the other, a handshake gives the initiator the responder's
  key, a rotation reaches the remaining recipients, and what the trust
  commands of the user really undo.
\<close>

section \<open>The outgoing key\<close>

definition good_crypto :: "crypto \<Rightarrow> bool" where
  "good_crypto cr \<longleftrightarrow> hex_ok cr \<and> b64_ok cr \<and> b64url_ok cr \<and> aead_ok cr \<and> keys_ok cr \<and> gcm_ok cr"

lemma toy_good [simp]: "good_crypto toy_crypto"
  by (simp add: good_crypto_def)

text \<open>Distributing REKEYs touches only its queue and the tape.\<close>

lemma keeps_distribute_field:
  assumes "\<And>m. f (step_env m) = f m" "\<And>m q. f (m\<lparr>mg_rekey_sends := q\<rparr>) = f m"
  shows "f (snd (distribute_rekeys cr c k rs m)) = f m"
proof -
  let ?P = "\<lambda>s. f s = f m"
  have env: "env_blind ?P" using assms(1) by (simp add: env_blind_def)
  have "keeps ?P (distribute_rekeys cr c k rs)"
  proof (induction rs)
    case (Cons r rs)
    have "keeps ?P (distribute_one cr c k r)"
      unfolding distribute_one_def build_rekey_for_peer_def
      by (intro wf_intros keeps_env [OF env]) (simp_all add: assms(2))
    with Cons show ?case by (auto intro!: wf_intros)
  qed (auto intro!: wf_intros)
  from keepsD [OF this refl] show ?thesis .
qed

definition same_but_sends :: "e2e_manager \<Rightarrow> e2e_manager \<Rightarrow> bool" where
  "same_but_sends m m' \<longleftrightarrow>
     mg_seed m' = mg_seed m \<and> mg_limiter m' = mg_limiter m \<and> mg_tolerance m' = mg_tolerance m \<and>
     mg_pending m' = mg_pending m \<and> mg_trust_changes m' = mg_trust_changes m \<and>
     mg_outbound m' = mg_outbound m \<and> mg_inbound m' = mg_inbound m \<and> mg_accepts m' = mg_accepts m \<and>
     ev_clock (mg_env m') = ev_clock (mg_env m)"

lemma distribute_same: "same_but_sends m (snd (distribute_rekeys cr c k rs m))"
  unfolding same_but_sends_def
  by (simp add: keeps_distribute_field keeps_distribute_field [where f = "\<lambda>m. ev_clock (mg_env m)"])

lemma same_but_sends_env [simp]:
  "same_but_sends m m" "same_but_sends m (step_env m') \<longleftrightarrow> same_but_sends m m'"
  "same_but_sends (step_env m) m' \<longleftrightarrow> same_but_sends m m'"
  "same_but_sends m (m'\<lparr>mg_keyring := kr\<rparr>) \<longleftrightarrow> same_but_sends m m'"
  "same_but_sends (m\<lparr>mg_keyring := kr\<rparr>) m' \<longleftrightarrow> same_but_sends m m'"
  by (auto simp: same_but_sends_def step_env_def)

definition rotation_pending :: "outgoing_session option \<Rightarrow> bool" where
  "rotation_pending sess = (case sess of None \<Rightarrow> False | Some s \<Rightarrow> os_pending_rotation s)"

lemma generate_exec:
  assumes "get_outgoing_session cr (mg_keyring m) c = Inr sess"
    and "set_outgoing_session cr (drawn 12 (step_env (step_env m))) c (drawn 32 m) (clock_of (step_env m))
      (mg_keyring m) = Inr kr"
  shows "generate_outgoing_key cr c m =
    (let m4 = (step_env (step_env (step_env m)))\<lparr>mg_keyring := kr\<rparr> in
     if rotation_pending sess then
       (case list_outgoing_recipients kr c of
          Inl e \<Rightarrow> (Inl e, m4)
        | Inr rs \<Rightarrow> (case distribute_rekeys cr c (drawn 32 m) rs m4 of
            (Inl e, m5) \<Rightarrow> (Inl e, m5) | (Inr _, m5) \<Rightarrow> (Inr (drawn 32 m), m5)))
     else (Inr (drawn 32 m), m4))"
proof -
  have b: "bind_st k (\<lambda>_. ret_st x) s = (case k s of (Inl e, s') \<Rightarrow> (Inl e, s') | (Inr _, s') \<Rightarrow> (Inr x, s'))"
    for k :: "unit mgr" and x :: bytes and s
    by (simp add: bind_st_def ret_st_def split: prod.split sum.split)
  show ?thesis
    using assms by (simp add: generate_outgoing_key_def exec Let_def b rotation_pending_def
        split: sum.split option.split)
qed

text \<open>The keyring after the outgoing key was fetched or renewed.\<close>

lemma outgoing_key_result:
  assumes cr: "gcm_ok cr" "key_ok (mg_keyring m)"
    and get: "get_or_generate_outgoing_key cr c m = (Inr sk, m')"
  shows "length sk = 32" "\<exists>os. get_outgoing_session cr (mg_keyring m') c = Inr (Some os) \<and> os_sk os = sk \<and> \<not> os_pending_rotation os"
    "\<exists>t. mg_keyring m' = (mg_keyring m)\<lparr>kr_outgoing := t\<rparr>" "same_but_sends m m'"
proof -
  have "length sk = 32 \<and> (\<exists>os. get_outgoing_session cr (mg_keyring m') c = Inr (Some os) \<and> os_sk os = sk \<and> \<not> os_pending_rotation os) \<and>
    (\<exists>t. mg_keyring m' = (mg_keyring m)\<lparr>kr_outgoing := t\<rparr>) \<and> same_but_sends m m'"
  proof (cases "\<exists>os. get_outgoing_session cr (mg_keyring m) c = Inr (Some os) \<and> \<not> os_pending_rotation os")
    case True
    then obtain os where os: "get_outgoing_session cr (mg_keyring m) c = Inr (Some os)" "\<not> os_pending_rotation os"
      by blast
    then have "length (os_sk os) = 32"
      by (auto simp: get_outgoing_session_def row_to_outgoing_def decode_secret_def bind_res_Inr_iff
          split: option.splits if_splits)
    moreover have "\<exists>t. mg_keyring m = (mg_keyring m)\<lparr>kr_outgoing := t\<rparr>"
      by (rule exI [of _ "kr_outgoing (mg_keyring m)"]) simp
    moreover have "m' = m" "sk = os_sk os"
      using get os by (simp_all add: get_or_generate_outgoing_key_def exec)
    ultimately show ?thesis using os by (simp only: same_but_sends_env) blast
  next
    case False
    let ?fresh = "drawn 32 m" and ?m3 = "step_env (step_env (step_env m))"
    obtain enc where enc: "encode_secret cr (drawn 12 (step_env (step_env m))) (mg_keyring m) ?fresh = Inr enc"
      "\<And>kr' fld. kr_secret_key kr' = kr_secret_key (mg_keyring m) \<Longrightarrow> decode_secret cr 32 kr' enc fld = Inr ?fresh"
      using encode_decode_secret [OF cr, of "drawn 12 (step_env (step_env m))" ?fresh 32] by auto
    let ?kr = "(mg_keyring m)\<lparr>kr_outgoing := tbl_replace c
        \<lparr>ow_sk = enc, ow_created_at = clock_of (step_env m), ow_pending_rotation = 0\<rparr> (kr_outgoing (mg_keyring m))\<rparr>"
    have st: "set_outgoing_session cr (drawn 12 (step_env (step_env m))) c ?fresh (clock_of (step_env m))
        (mg_keyring m) = Inr ?kr"
      using enc(1) by (simp add: set_outgoing_session_def)
    have eq: "get_or_generate_outgoing_key cr c m = generate_outgoing_key cr c m"
      using False get by (auto simp: get_or_generate_outgoing_key_def exec split: sum.splits option.splits)
    obtain sess where sess: "get_outgoing_session cr (mg_keyring m) c = Inr sess"
      using get by (auto simp: get_or_generate_outgoing_key_def exec split: sum.splits)
    have g: "(Inr sk, m') = (let m4 = ?m3\<lparr>mg_keyring := ?kr\<rparr> in
     if rotation_pending sess then
       (case list_outgoing_recipients ?kr c of
          Inl e \<Rightarrow> (Inl e, m4)
        | Inr rs \<Rightarrow> (case distribute_rekeys cr c ?fresh rs m4 of
            (Inl e, m5) \<Rightarrow> (Inl e, m5) | (Inr _, m5) \<Rightarrow> (Inr ?fresh, m5)))
     else (Inr ?fresh, m4))"
      by (rule trans [OF get [symmetric] trans [OF eq generate_exec [OF sess st]]])
    have "sk = ?fresh \<and> (m' = ?m3\<lparr>mg_keyring := ?kr\<rparr> \<or>
        (\<exists>rs. m' = snd (distribute_rekeys cr c ?fresh rs (?m3\<lparr>mg_keyring := ?kr\<rparr>))))"
    proof (cases "rotation_pending sess")
      case True
      with g obtain rs where "list_outgoing_recipients ?kr c = Inr rs"
        by (simp add: Let_def split: sum.splits)
      with True g have "m' = snd (distribute_rekeys cr c ?fresh rs (?m3\<lparr>mg_keyring := ?kr\<rparr>))" "sk = ?fresh"
        by (simp_all add: Let_def split: prod.splits sum.splits)
      then show ?thesis by blast
    qed (use g in simp)
    then have "sk = ?fresh \<and> mg_keyring m' = ?kr \<and> same_but_sends m m'"
      using distribute_same [of "?m3\<lparr>mg_keyring := ?kr\<rparr>" cr c ?fresh]
      by (auto simp: keeps_distribute_field)
    then have r: "sk = ?fresh" "mg_keyring m' = ?kr" "same_but_sends m m'" by simp_all
    moreover have "get_outgoing_session cr ?kr c = Inr (Some \<lparr>os_channel = c, os_sk = ?fresh,
        os_created_at = clock_of (step_env m), os_pending_rotation = False\<rparr>)"
      using enc(2) [of ?kr] by (simp add: get_outgoing_session_def row_to_outgoing_def)
    ultimately show ?thesis by (intro conjI) auto
  qed
  then show "length sk = 32" "\<exists>os. get_outgoing_session cr (mg_keyring m') c = Inr (Some os) \<and> os_sk os = sk \<and> \<not> os_pending_rotation os"
    "\<exists>t. mg_keyring m' = (mg_keyring m)\<lparr>kr_outgoing := t\<rparr>" "same_but_sends m m'" by blast+
qed

section \<open>Messages arrive\<close>

lemma aead_encrypt_opens:
  assumes "aead_ok cr" "length k = 32" "length n = 24" "length p \<le> 4096"
    and "aead_encrypt cr n k a p = Inr (n', ct)"
  shows "n' = n \<and> aead_decrypt cr k n a ct = Inr p"
proof -
  from aead_roundtrip [OF assms(1-4), of a] obtain c where
    c: "aead_encrypt cr n k a p = Inr (n, c)" "aead_decrypt cr k n a c = Inr p" by blast
  with assms(5) show ?thesis by simp
qed

definition carries :: "crypto \<Rightarrow> bytes \<Rightarrow> bytes \<Rightarrow> i64 \<Rightarrow> bytes \<Rightarrow> bytes \<Rightarrow> bool" where
  "carries cr sk c ts line p \<longleftrightarrow>
     (\<exists>w. wire_parse cr line = Inr (Some w) \<and> wc_ts w = ts \<and>
        aead_decrypt cr sk (wc_nonce w) (build_aad c (wc_msgid w) (wc_ts w) (wc_part w) (wc_total w))
          (wc_ciphertext w) = Inr p)"

lemma encrypt_chunks_sound:
  assumes cr: "good_crypto cr" and len: "length sk = 32" "length msgid = 8"
  shows "encrypt_chunks cr sk c msgid ts tot idx ps m = (Inr lines, m') \<Longrightarrow>
    (\<forall>p\<in>set ps. length p \<le> 4096) \<Longrightarrow> list_all2 (carries cr sk c ts) lines ps"
proof (induction ps arbitrary: idx m m' lines)
  case (Cons p ps)
  let ?aad = "build_aad c msgid ts (of_nat (idx + 1)) tot"
  from Cons.prems(1) obtain nonce ct line lines' m1 m2 where
    ok: "idx + 1 \<le> 255" and
    enc: "aead_encrypt cr (drawn 24 m) sk ?aad p = Inr (nonce, ct)" and
    line: "wire_encode cr \<lparr>wc_msgid = msgid, wc_ts = ts, wc_part = of_nat (idx + 1), wc_total = tot,
      wc_nonce = nonce, wc_ciphertext = ct\<rparr> = Inr line" and
    rest: "encrypt_chunks cr sk c msgid ts tot (idx + 1) ps m1 = (Inr lines', m2)" "lines = line # lines'"
    by (auto simp: exec Let_def bind_st_Inr_iff split: if_splits sum.splits prod.splits)
  have hb: "hex_ok cr" "b64_ok cr" "aead_ok cr" using cr by (simp_all add: good_crypto_def)
  have o: "nonce = drawn 24 m" "aead_decrypt cr sk nonce ?aad ct = Inr p"
    using aead_encrypt_opens [OF hb(3) len(1) _ _ enc] Cons.prems(2) by simp_all
  have "carries cr sk c ts line p"
    unfolding carries_def
    using wire_parse_encode [OF hb(1,2) _ _ line] len(2) o by auto
  with Cons.IH [OF rest(1)] Cons.prems(2) rest(2) show ?case by simp
qed (simp add: exec)

lemma decrypt_carries:
  assumes "carries cr (is_sk s) c ts line p" "utf8_valid p"
    and "get_incoming_session cr (mg_keyring m) h c = Inr (Some s)" "is_status s = Trusted"
    and "sint (i64_abs (clock_of m - ts)) \<le> sint (mg_tolerance m)"
  shows "decrypt_incoming cr h c line m = (Inr (Plaintext p), step_env m)"
  using assms by (auto simp: carries_def decrypt_exec open_chunk_def Let_def)

lemma encrypt_outgoing_Inr:
  assumes "encrypt_outgoing cr c text m = (Inr lines, m')"
  obtains sk chunks m1 where
    "get_or_generate_outgoing_key cr c m = (Inr sk, m1)" "split_plaintext text = Inr chunks"
    "encrypt_chunks cr sk c (drawn 8 m1) (clock_of (step_env m1)) (of_nat (length chunks)) 0 chunks
       (step_env (step_env m1)) = (Inr lines, m')"
proof -
  from assms obtain sk m1 where key: "get_or_generate_outgoing_key cr c m = (Inr sk, m1)"
    and rest: "bind_st (lift_st (\<lambda>_. split_plaintext text)) (\<lambda>chunks.
     if 255 < length chunks then fail_st (ChunkLimit 255)
     else if length chunks = 0 then fail_st err_zero_chunks
     else
       bind_st (draw 8) (\<lambda>msgid.
       bind_st now_unix (\<lambda>ts.
       encrypt_chunks cr sk c msgid ts (of_nat (length chunks)) 0 chunks))) m1 = (Inr lines, m')"
    unfolding encrypt_outgoing_def bind_st_Inr_iff by blast
  then obtain chunks where chunks: "split_plaintext text = Inr chunks"
    by (cases "split_plaintext text") (simp_all add: exec)
  with rest have "encrypt_chunks cr sk c (drawn 8 m1) (clock_of (step_env m1)) (of_nat (length chunks)) 0 chunks
       (step_env (step_env m1)) = (Inr lines, m')"
    by (simp add: exec split: if_splits)
  with key chunks show thesis by (rule that)
qed

lemma encrypt_chunks_keyring: "mg_keyring (snd (encrypt_chunks cr sk c i ts tot idx ps m)) = mg_keyring m"
proof -
  have "keeps (\<lambda>s. mg_keyring s = mg_keyring m) (encrypt_chunks cr sk c i ts tot idx ps)"
  proof (induction ps arbitrary: idx)
    case (Cons p ps)
    have "env_blind (\<lambda>s. mg_keyring s = mg_keyring m)" by (simp add: env_blind_def)
    from wf_intros keeps_env [OF this] Cons show ?case
      by (auto intro!: wf_intros keeps_env simp: Let_def env_blind_def)
  qed (auto intro: wf_intros)
  from keepsD [OF this refl] show ?thesis .
qed

lemma message_delivery:
  assumes cr: "good_crypto cr" "key_ok (mg_keyring sender)" and utf8: "utf8_valid text"
    and enc: "encrypt_outgoing cr c text sender = (Inr lines, sender')"
  shows "\<exists>pieces os ts. concat pieces = text \<and> length pieces = length lines \<and>
    get_outgoing_session cr (mg_keyring sender') c = Inr (Some os) \<and>
    fst (get_or_generate_outgoing_key cr c sender) = Inr (os_sk os) \<and>
    ts \<in> range (ev_clock (mg_env sender)) \<and>
    (\<forall>receiver handle s i. i < length lines \<and>
       get_incoming_session cr (mg_keyring receiver) handle c = Inr (Some s) \<and>
       is_status s = Trusted \<and> is_sk s = os_sk os \<and>
       sint (i64_abs (clock_of receiver - ts)) \<le> sint (mg_tolerance receiver) \<longrightarrow>
       decrypt_incoming cr handle c (lines ! i) receiver =
         (Inr (Plaintext (pieces ! i)), step_env receiver))"
proof -
  from encrypt_outgoing_Inr [OF enc] obtain sk chunks m1 where
    key: "get_or_generate_outgoing_key cr c sender = (Inr sk, m1)" and
    split: "split_plaintext text = Inr chunks" and
    loop: "encrypt_chunks cr sk c (drawn 8 m1) (clock_of (step_env m1)) (of_nat (length chunks)) 0 chunks
       (step_env (step_env m1)) = (Inr lines, sender')" .
  have gcm: "gcm_ok cr" using cr(1) by (simp add: good_crypto_def)
  note k = outgoing_key_result [OF gcm cr(2) key]
  have valid: "list_all utf8_valid chunks" by (rule split_plaintext_valid [OF split utf8])
  have "\<forall>p\<in>set chunks. length p \<le> 4096"
    using split_plaintext_Inr(2) [OF split] by (auto simp: list_all_iff chunk_ok_def)
  from encrypt_chunks_sound [OF cr(1) k(1) _ loop this]
  have car: "list_all2 (carries cr sk c (clock_of (step_env m1))) lines chunks" by simp
  have "mg_keyring sender' = mg_keyring m1"
    using encrypt_chunks_keyring [of cr sk c "drawn 8 m1" "clock_of (step_env m1)" "of_nat (length chunks)"
      0 chunks "step_env (step_env m1)"] loop by simp
  with k(2) obtain os where os: "get_outgoing_session cr (mg_keyring sender') c = Inr (Some os)" "os_sk os = sk"
    by auto
  have "ev_clock (mg_env (step_env m1)) = ev_clock (mg_env sender)"
    using k(4) by (simp add: same_but_sends_def)
  then have ts: "clock_of (step_env m1) \<in> range (ev_clock (mg_env sender))"
    by (simp add: clock_of_def)
  have "decrypt_incoming cr handle c (lines ! i) receiver = (Inr (Plaintext (chunks ! i)), step_env receiver)"
    if "i < length lines" "get_incoming_session cr (mg_keyring receiver) handle c = Inr (Some s)"
      "is_status s = Trusted" "is_sk s = os_sk os"
      "sint (i64_abs (clock_of receiver - clock_of (step_env m1))) \<le> sint (mg_tolerance receiver)"
    for receiver handle s i
  proof (rule decrypt_carries)
    show "carries cr (is_sk s) c (clock_of (step_env m1)) (lines ! i) (chunks ! i)"
      using car that(1,4) os(2) by (auto dest: list_all2_nthD)
    show "utf8_valid (chunks ! i)"
      using valid car that(1) by (auto simp: list_all_length dest: list_all2_lengthD)
  qed (use that in simp_all)
  moreover have "concat chunks = text" by (rule split_plaintext_Inr(1) [OF split])
  moreover have "length chunks = length lines" using car by (auto dest: list_all2_lengthD)
  moreover have "fst (get_or_generate_outgoing_key cr c sender) = Inr (os_sk os)" using key os(2) by simp
  ultimately show ?thesis using os(1) ts by blast
qed

text \<open>
  C1: an encrypted message is delivered.  When a client encrypts a text, any
  client that holds the sender's channel key as a trusted session for the
  sender's handle, and whose clock is within its tolerance of the sender's
  time stamp, decrypts the lines, each alone and in any order, to text pieces
  that concatenate to exactly the message.
\<close>

theorem message_roundtrip:
  assumes cr: "good_crypto cr" "key_ok (mg_keyring sender)" and utf8: "utf8_valid text"
    and enc: "encrypt_outgoing cr c text sender = (Inr lines, sender')"
  shows "\<exists>pieces os ts. concat pieces = text \<and> length pieces = length lines \<and>
    get_outgoing_session cr (mg_keyring sender') c = Inr (Some os) \<and>
    ts \<in> range (ev_clock (mg_env sender)) \<and>
    (\<forall>receiver handle s i. i < length lines \<and>
       get_incoming_session cr (mg_keyring receiver) handle c = Inr (Some s) \<and>
       is_status s = Trusted \<and> is_sk s = os_sk os \<and>
       sint (i64_abs (clock_of receiver - ts)) \<le> sint (mg_tolerance receiver) \<longrightarrow>
       decrypt_incoming cr handle c (lines ! i) receiver =
         (Inr (Plaintext (pieces ! i)), step_env receiver))"
  using message_delivery [OF assms] by blast

lemma part_total_nat:
  assumes "i < n" "n \<le> 16"
  shows "part_total_ok (of_nat (i + 1)) (of_nat n)"
proof -
  have u: "unat (of_nat k :: u8) = k" if "k \<le> 16" for k
    using that by (simp add: unat_of_nat)
  have le: "i + 1 \<le> 16" using assms by simp
  show ?thesis
    using assms unfolding part_total_ok_def max_chunks_def word_less_nat_alt word_unat_eq_iff
      u [OF le] u [OF assms(2)] by simp
qed

lemma encrypt_chunks_total:
  assumes cr: "aead_ok cr" and len: "length sk = 32" "n \<le> 16"
  shows "idx + length ps \<le> n \<Longrightarrow> (\<forall>p\<in>set ps. length p \<le> 4096) \<Longrightarrow>
    \<exists>lines m'. encrypt_chunks cr sk c msgid ts (of_nat n) idx ps m = (Inr lines, m')"
proof (induction ps arbitrary: idx m)
  case (Cons p ps)
  let ?aad = "build_aad c msgid ts (of_nat (idx + 1)) (of_nat n)"
  from aead_roundtrip [OF cr len(1), of "drawn 24 m" p ?aad] Cons.prems(2) obtain ct
    where ct: "aead_encrypt cr (drawn 24 m) sk ?aad p = Inr (drawn 24 m, ct)" by auto
  have "part_total_ok (of_nat (idx + 1)) (of_nat n)"
    using Cons.prems(1) len(2) by (intro part_total_nat) auto
  then obtain line where line: "wire_encode cr \<lparr>wc_msgid = msgid, wc_ts = ts, wc_part = of_nat (idx + 1),
      wc_total = of_nat n, wc_nonce = drawn 24 m, wc_ciphertext = ct\<rparr> = Inr line"
    by (auto simp: wire_encode_Inr)
  from Cons.IH [of "idx + 1" "step_env m"] Cons.prems obtain lines m' where
    "encrypt_chunks cr sk c msgid ts (of_nat n) (idx + 1) ps (step_env m) = (Inr lines, m')" by auto
  with ct line Cons.prems(1) len(2) show ?case
    by (simp add: exec Let_def) (simp add: bind_st_def ret_st_def)
qed (simp add: exec)

text \<open>On a channel without a session yet, a key is generated, and a text that can be cut is always encrypted.\<close>

lemma fresh_key:
  assumes cr: "good_crypto cr" "key_ok (mg_keyring m)" and new: "map_of (kr_outgoing (mg_keyring m)) c = None"
  obtains m1 where "get_or_generate_outgoing_key cr c m = (Inr (drawn 32 m), m1)"
proof -
  have none: "get_outgoing_session cr (mg_keyring m) c = Inr None"
    using new by (simp add: get_outgoing_session_def)
  have "\<exists>enc. encode_secret cr (drawn 12 (step_env (step_env m))) (mg_keyring m) (drawn 32 m) = Inr enc"
    using cr by (intro encode_secret_total) (simp_all add: good_crypto_def)
  then obtain kr where "set_outgoing_session cr (drawn 12 (step_env (step_env m))) c (drawn 32 m)
      (clock_of (step_env m)) (mg_keyring m) = Inr kr"
    by (auto simp: set_outgoing_Inr)
  from generate_exec [OF none this] none show thesis
    by (intro that) (simp add: get_or_generate_outgoing_key_def exec rotation_pending_def)
qed

lemma encrypt_given_key:
  assumes cr: "good_crypto cr" and key: "get_or_generate_outgoing_key cr c m = (Inr sk, m1)"
    and len: "length sk = 32" and sp: "split_plaintext text = Inr chunks"
  obtains lines m' where "encrypt_outgoing cr c text m = (Inr lines, m')"
proof -
  have ok: "aead_ok cr" using cr(1) by (simp add: good_crypto_def)
  note s = split_plaintext_Inr [OF sp]
  have "\<forall>p\<in>set chunks. length p \<le> 4096" using s(2) by (auto simp: list_all_iff chunk_ok_def)
  from encrypt_chunks_total [OF ok len s(4) _ this, of 0 c "drawn 8 m1"
      "clock_of (step_env m1)" "step_env (step_env m1)"]
  obtain lines m' where "encrypt_chunks cr sk c (drawn 8 m1) (clock_of (step_env m1))
      (of_nat (length chunks)) 0 chunks (step_env (step_env m1)) = (Inr lines, m')" by auto
  then have "encrypt_outgoing cr c text m = (Inr lines, m')"
    unfolding encrypt_outgoing_def bind_st_def [of "get_or_generate_outgoing_key cr c"] key
    using sp s(3,4) by (simp add: exec)
  then show thesis by (rule that)
qed

lemma encrypt_succeeds:
  assumes cr: "good_crypto cr" "key_ok (mg_keyring m)"
    and "map_of (kr_outgoing (mg_keyring m)) c = None" "split_plaintext text = Inr chunks"
  obtains lines m' where "encrypt_outgoing cr c text m = (Inr lines, m')"
proof -
  from fresh_key [OF cr assms(3)] obtain m1 where "get_or_generate_outgoing_key cr c m = (Inr (drawn 32 m), m1)" .
  from encrypt_given_key [OF cr(1) this _ assms(4)] that show thesis by auto
qed

lemma encrypt_with_key:
  assumes cr: "good_crypto cr"
    and os: "get_outgoing_session cr (mg_keyring m) c = Inr (Some os)" "\<not> os_pending_rotation os"
    and sp: "split_plaintext text = Inr chunks"
  obtains lines m' where "encrypt_outgoing cr c text m = (Inr lines, m')"
proof -
  have "get_or_generate_outgoing_key cr c m = (Inr (os_sk os), m)"
    using os by (simp add: get_or_generate_outgoing_key_def exec)
  moreover have "length (os_sk os) = 32"
    using os(1) by (auto simp: get_outgoing_session_def row_to_outgoing_def decode_secret_def bind_res_Inr_iff
        split: option.splits if_splits)
  ultimately show thesis using encrypt_given_key [OF cr _ _ sp] that by blast
qed

lemma message_roundtrip_witness:
  "\<exists>lines sender'. encrypt_outgoing toy_crypto ''#x'' ''hi'' (example_manager (keyring_new None)) =
     (Inr lines, sender') \<and>
   (\<exists>pieces os. concat pieces = ''hi'' \<and> length pieces = length lines \<and>
      get_outgoing_session toy_crypto (mg_keyring sender') ''#x'' = Inr (Some os))"
proof -
  let ?m = "example_manager (keyring_new None)"
  have k: "key_ok (mg_keyring ?m)" "map_of (kr_outgoing (mg_keyring ?m)) ''#x'' = None"
    by (simp_all add: example_manager_def manager_new_def keyring_new_def key_ok_def)
  have v: "utf8_valid ''hi''" by (rule ascii_valid) auto
  have s: "split_plaintext ''hi'' = Inr [''hi'']" by code_simp
  obtain lines m' where e: "encrypt_outgoing toy_crypto ''#x'' ''hi'' ?m = (Inr lines, m')"
    by (rule encrypt_succeeds [OF toy_good k s])
  from message_roundtrip [OF toy_good k(1) v e] e show ?thesis by blast
qed

section \<open>A handshake hands over the key\<close>

lemma build_keyreq_exec:
  "build_keyreq_for_peer cr c h m =
    (let nonce = drawn 16 m; sec = drawn 32 (step_env m); pk = identity_pub cr m; eph = cr_x_public cr sec in
     (Inr \<lparr>kq_channel = c, kq_pubkey = pk, kq_eph_x25519 = eph, kq_nonce = nonce,
        kq_sig = sig_sign cr (mg_seed m) (sig_payload_keyreq c pk eph nonce)\<rparr>,
      (step_env (step_env m))\<lparr>mg_pending := AList.update (c, nonce)
        \<lparr>ph_channel = c, ph_peer_handle = h, ph_secret = sec\<rparr> (mg_pending m)\<rparr>))"
  by (simp add: build_keyreq_for_peer_def exec Let_def identity_pub_def)

lemma queue_reciprocal_keyring:
  "mg_keyring (snd (queue_reciprocal cr h c m)) = mg_keyring m"
  "mg_seed (snd (queue_reciprocal cr h c m)) = mg_seed m"
proof -
  have "keeps (\<lambda>s. f s = f m) (queue_reciprocal cr h c)"
    if "\<And>s. f (step_env s) = f s" "\<And>s x. f (s\<lparr>mg_limiter := x\<rparr>) = f s"
      "\<And>s x. f (s\<lparr>mg_outbound := x\<rparr>) = f s" "\<And>s x. f (s\<lparr>mg_pending := x\<rparr>) = f s"
    for f :: "e2e_manager \<Rightarrow> 'z"
  proof -
    have env: "env_blind (\<lambda>s. f s = f m)" using that(1) by (simp add: env_blind_def)
    show ?thesis
      unfolding queue_reciprocal_def allow_keyreq_def limiter_step_def build_keyreq_for_peer_def
      by (intro wf_intros keeps_env [OF env]) (simp_all add: that)
  qed
  from keepsD [OF this [of mg_keyring] refl] keepsD [OF this [of mg_seed] refl]
  show "mg_keyring (snd (queue_reciprocal cr h c m)) = mg_keyring m"
    "mg_seed (snd (queue_reciprocal cr h c m)) = mg_seed m" by simp_all
qed

lemma serve_result:
  assumes cr: "gcm_ok cr" "key_ok (mg_keyring m)" and serve: "serve_keyrsp cr h req m = (Inr rsp, m')"
  obtains sk os secret where
    "get_outgoing_session cr (mg_keyring m') (kq_channel req) = Inr (Some os)" "os_sk os = sk"
    "\<not> os_pending_rotation os" "kr_secret_key (mg_keyring m') = kr_secret_key (mg_keyring m)"
    "length sk = 32" "length secret = 32" "length (kp_wrap_nonce rsp) = 24"
    "kp_channel rsp = kq_channel req" "kp_pubkey rsp = identity_pub cr m" "kp_ephemeral_pub rsp = cr_x_public cr secret"
    "aead_encrypt cr (kp_wrap_nonce rsp) (derive_wrap_key cr secret (kq_eph_x25519 req) (wrap_info (kq_channel req)))
       (wrap_info (kq_channel req)) sk = Inr (kp_wrap_nonce rsp, kp_wrap_ct rsp)"
    "kp_sig rsp = sig_sign cr (mg_seed m) (sig_payload_keyrsp (kp_channel rsp) (kp_pubkey rsp)
       (kp_ephemeral_pub rsp) (kp_wrap_nonce rsp) (kp_wrap_ct rsp) (kp_nonce rsp))"
proof -
  let ?c = "kq_channel req"
  from serve obtain sk m1 where key: "get_or_generate_outgoing_key cr ?c m = (Inr sk, m1)"
    by (auto simp: serve_keyrsp_def bind_st_Inr_iff)
  note k = outgoing_key_result [OF cr key]
  define kr where "kr = record_outgoing_recipient ?c h (fingerprint cr (kq_pubkey req)) (clock_of m1) (mg_keyring m1)"
  define m2 where "m2 = (step_env m1)\<lparr>mg_keyring := kr\<rparr>"
  define sec where "sec = drawn 32 m2"
  define n where "n = drawn 24 (step_env m2)"
  define wk where "wk = derive_wrap_key cr sec (kq_eph_x25519 req) (wrap_info ?c)"
  have seed: "mg_seed m2 = mg_seed m" using k(4) by (simp add: m2_def same_but_sends_def)
  from serve key obtain ct where ct: "aead_encrypt cr n wk (wrap_info ?c) sk = Inr (n, ct)"
    and q: "\<exists>u. queue_reciprocal cr h ?c (step_env (step_env (step_env m2))) = (Inr u, m')"
    and rsp: "rsp = (let pk = cr_ed_public cr (mg_seed m); e = cr_x_public cr sec;
         rn = drawn 16 (step_env (step_env m2)) in
       \<lparr>kp_channel = ?c, kp_pubkey = pk, kp_ephemeral_pub = e, kp_wrap_nonce = n, kp_wrap_ct = ct,
        kp_nonce = rn, kp_sig = sig_sign cr (mg_seed m) (sig_payload_keyrsp ?c pk e n ct rn)\<rparr>)"
    by (auto simp: serve_keyrsp_def bind_st_def [of "get_or_generate_outgoing_key cr ?c"] exec Let_def
        bind_st_Inr_iff identity_pub_def seed [symmetric] aead_encrypt_def bind_res_Inr_iff
        n_def wk_def sec_def m2_def kr_def split: sum.splits prod.splits)
  have "mg_keyring m' = kr"
    using q queue_reciprocal_keyring(1) [of cr h ?c "step_env (step_env (step_env m2))"]
    by (auto simp: m2_def)
  then have sec_key: "kr_secret_key (mg_keyring m') = kr_secret_key (mg_keyring m)"
    and "get_outgoing_session cr (mg_keyring m') = get_outgoing_session cr (mg_keyring m1)"
    using k(3) by (auto simp: kr_def intro!: get_outgoing_frame)
  with k(2) obtain os where "get_outgoing_session cr (mg_keyring m') ?c = Inr (Some os)" "os_sk os = sk"
    "\<not> os_pending_rotation os" by auto
  then show thesis
    using k(1) ct rsp sec_key by (intro that [of os sk sec])
      (simp_all add: Let_def sec_def n_def wk_def identity_pub_def)
qed

text \<open>The initiator's side: the pending ephemeral secret unwraps the key, which is installed.\<close>

lemma filter_pending_update:
  "\<forall>e\<in>set t. fst (fst e) \<noteq> c \<Longrightarrow> filter (\<lambda>((c', _), _). c' = c) (AList.update (c, n) v t) = [((c, n), v)]"
  by (induction t) (auto simp: filter_empty_conv)

lemma consume_single:
  assumes "filter (\<lambda>((c, _), _). c = kp_channel rsp) (mg_pending m) = [(key, ph)]"
    and "try_unwrap cr rsp (ph_secret ph) = Some sk"
  shows "consume_matching_pending_for_keyrsp cr rsp m = (Inr sk, m\<lparr>mg_pending := AList.delete key (mg_pending m)\<rparr>)"
  using assms by (simp add: consume_matching_pending_for_keyrsp_def exec)

lemma keyrsp_installs:
  assumes cr: "gcm_ok cr" "keys_ok cr" "key_ok (mg_keyring m)" and len: "length sk = 32"
    and sig: "sig_verify cr (kp_pubkey rsp) (sig_payload_keyrsp (kp_channel rsp) (kp_pubkey rsp)
       (kp_ephemeral_pub rsp) (kp_wrap_nonce rsp) (kp_wrap_ct rsp) (kp_nonce rsp)) (kp_sig rsp) = Inr ()"
    and use: "consume_matching_pending_for_keyrsp cr rsp m = (Inr sk, m1)" "mg_keyring m1 = mg_keyring m"
    and known: "classify_peer_change (mg_keyring m) (fingerprint cr (kp_pubkey rsp)) h \<in> {Inr New, Inr Known}"
    and pin: "\<And>fp. session_pin (mg_keyring m) (h, kp_channel rsp) = Some fp \<Longrightarrow> fp = fingerprint cr (kp_pubkey rsp)"
  obtains m' t where "handle_keyrsp cr h rsp m = (Inr (), m')"
    "get_incoming_session cr (mg_keyring m') h (kp_channel rsp) = Inr (Some \<lparr>is_handle = h,
       is_channel = kp_channel rsp, is_fingerprint = fingerprint cr (kp_pubkey rsp), is_sk = sk,
       is_status = Trusted, is_created_at = t\<rparr>)"
proof -
  let ?fp = "fingerprint cr (kp_pubkey rsp)" and ?now = "clock_of m1" and ?iv = "drawn 12 (step_env m1)"
  define r where "r = \<lparr>pr_fingerprint = ?fp, pr_pubkey = kp_pubkey rsp,
     pr_last_handle = Some h, pr_last_nick = None, pr_first_seen = ?now, pr_last_seen = ?now, pr_status = Trusted\<rparr>"
  define kr1 where "kr1 = upsert_peer r (mg_keyring m)"
  define s where "s = \<lparr>is_handle = h, is_channel = kp_channel rsp, is_fingerprint = ?fp, is_sk = sk,
     is_status = Trusted, is_created_at = ?now\<rparr>"
  have fr: "session_pin kr1 k = session_pin (mg_keyring m) k" "key_ok kr1" for k
    using cr(3) by (simp_all add: kr1_def session_pin_def key_ok_def)
  have iv: "length ?iv = 12" and fp: "length (is_fingerprint s) = 16" and sk: "length (is_sk s) = 32"
    using len cr(2) by (simp_all add: s_def fingerprint_length)
  from install_result [OF cr(1) fr(2) iv fp sk] pin fr(1) obtain kr2 where
    inst: "install_incoming_session_strict cr ?iv s kr1 = Inr kr2"
      "get_incoming_session cr kr2 h (kp_channel rsp) = Inr (Some s)"
    by (auto simp: s_def split: sum.splits)
  let ?m2 = "(step_env m1)\<lparr>mg_keyring := kr1\<rparr>"
  have iv': "drawn 12 ?m2 = ?iv" by (simp add: drawn_def)
  from known obtain change where change: "classify_peer_change (mg_keyring m) ?fp h = Inr change"
    "change = New \<or> change = Known" by auto
  have "handle_keyrsp cr h rsp m = (Inr (), (step_env ?m2)\<lparr>mg_keyring := kr2\<rparr>)"
    unfolding handle_keyrsp_def Let_def lift_exec sig sum.case
    unfolding bind_st_def [of "consume_matching_pending_for_keyrsp cr rsp"] use(1) prod.case sum.case
    using change(2) inst(1) by (auto simp: exec use(2) change(1) iv' r_def [symmetric] kr1_def [symmetric] s_def [symmetric])
  with inst(2) show thesis by (intro that [where t = "clock_of m1" and m' = "(step_env ?m2)\<lparr>mg_keyring := kr2\<rparr>"]) (simp_all add: s_def)
qed

text \<open>
  When one client asks for the key of a channel it has no other request open
  on, and the other answers, then the first accepts the answer, provided it
  has not met the responder under another identity, and ends up with the
  responder's outgoing key as a trusted session bound to its fingerprint.
\<close>

lemma handshake_completes:
  assumes cr: "good_crypto cr" "key_ok (mg_keyring a)" "key_ok (mg_keyring b)" "length (mg_seed b) = 32"
    and ask: "build_keyreq_for_peer cr c to_h a0 = (Inr req, a1)" "\<forall>e\<in>set (mg_pending a0). fst (fst e) \<noteq> c"
    and wait: "mg_pending a = mg_pending a1"
    and serve: "handle_keyreq_with_nick lower cr ha nick req b = (Inr (Some rsp), b')"
    and known: "classify_peer_change (mg_keyring a) (own_fingerprint cr b) hb \<in> {Inr New, Inr Known}"
    and pin: "\<And>fp. session_pin (mg_keyring a) (hb, c) = Some fp \<Longrightarrow> fp = own_fingerprint cr b"
  obtains a' os s where "handle_keyrsp cr hb rsp a = (Inr (), a')"
    "get_outgoing_session cr (mg_keyring b') c = Inr (Some os)" "\<not> os_pending_rotation os"
    "get_incoming_session cr (mg_keyring a') hb c = Inr (Some s)"
    "is_status s = Trusted" "is_sk s = os_sk os" "is_fingerprint s = own_fingerprint cr b"
    "key_ok (mg_keyring b')"
proof -
  have ok: "gcm_ok cr" "keys_ok cr" "aead_ok cr" using cr(1) by (simp_all add: good_crypto_def)
  define sec_a where "sec_a = drawn 32 (step_env a0)"
  define ph where "ph = \<lparr>ph_channel = c, ph_peer_handle = to_h, ph_secret = sec_a\<rparr>"
  from ask(1) have req: "kq_channel req = c" "kq_eph_x25519 req = cr_x_public cr sec_a"
    and pend: "mg_pending a1 = AList.update (c, drawn 16 a0) ph (mg_pending a0)"
    by (auto simp: build_keyreq_exec Let_def sec_a_def ph_def)
  from serve obtain u b2 where
    tofu: "tofu_upsert_on_keyreq cr ha nick req (fingerprint cr (kq_pubkey req))
      ((step_env b)\<lparr>mg_limiter := snd (allow_incoming ha (instant_of b) (mg_limiter b))\<rparr>) = (Inr u, b2)" and
    srv: "serve_keyrsp cr ha req b2 = (Inr rsp, b')"
    by (rule keyreq_answered)
  note t = tofu_accepts [OF tofu, simplified]
  have kb: "key_ok (mg_keyring b2)" using cr(3) t(3) by (simp add: key_ok_def)
  have id_b: "identity_pub cr b2 = identity_pub cr b" using t(5) by (simp add: identity_pub_def)
  from serve_result [OF ok(1) kb srv] obtain sk os sec_b where
    os: "get_outgoing_session cr (mg_keyring b') c = Inr (Some os)" "os_sk os = sk" "\<not> os_pending_rotation os" and
    kb': "kr_secret_key (mg_keyring b') = kr_secret_key (mg_keyring b2)" and
    len: "length sk = 32" "length sec_b = 32" "length (kp_wrap_nonce rsp) = 24" and
    rsp: "kp_channel rsp = c" "kp_pubkey rsp = identity_pub cr b" "kp_ephemeral_pub rsp = cr_x_public cr sec_b" and
    enc: "aead_encrypt cr (kp_wrap_nonce rsp) (derive_wrap_key cr sec_b (cr_x_public cr sec_a) (wrap_info c))
       (wrap_info c) sk = Inr (kp_wrap_nonce rsp, kp_wrap_ct rsp)" and
    sg: "kp_sig rsp = sig_sign cr (mg_seed b) (sig_payload_keyrsp (kp_channel rsp) (kp_pubkey rsp)
       (kp_ephemeral_pub rsp) (kp_wrap_nonce rsp) (kp_wrap_ct rsp) (kp_nonce rsp))"
    unfolding req id_b t(5) by blast
  have "length sec_a = 32" by (simp add: sec_a_def)
  then have "try_unwrap cr rsp (ph_secret ph) = Some sk"
    using aead_encrypt_opens [OF ok(3) wrap_key_length [OF ok(2)] len(3) _ enc]
      wrap_key_agree [OF ok(2), of sec_a sec_b "wrap_info c"] len
    by (simp add: try_unwrap_def Let_def rsp ph_def)
  moreover have "filter (\<lambda>((c, _), _). c = kp_channel rsp) (mg_pending a) = [((c, drawn 16 a0), ph)]"
    unfolding wait pend rsp(1) by (rule filter_pending_update [OF ask(2)])
  ultimately have use: "consume_matching_pending_for_keyrsp cr rsp a =
      (Inr sk, a\<lparr>mg_pending := AList.delete (c, drawn 16 a0) (mg_pending a)\<rparr>)" by (rule consume_single [rotated])
  have sig: "sig_verify cr (kp_pubkey rsp) (sig_payload_keyrsp (kp_channel rsp) (kp_pubkey rsp)
       (kp_ephemeral_pub rsp) (kp_wrap_nonce rsp) (kp_wrap_ct rsp) (kp_nonce rsp)) (kp_sig rsp) = Inr ()"
    unfolding sg rsp(2) identity_pub_def by (rule sig_verify_sign [OF ok(2) cr(4)])
  have fp: "fingerprint cr (kp_pubkey rsp) = own_fingerprint cr b" by (simp add: rsp own_fingerprint_def)
  from keyrsp_installs [OF ok(1,2) cr(2) len(1) sig use, of hb, unfolded fp rsp(1), simplified] known pin
  obtain a' t where "handle_keyrsp cr hb rsp a = (Inr (), a')"
    "get_incoming_session cr (mg_keyring a') hb c = Inr (Some \<lparr>is_handle = hb,
       is_channel = c, is_fingerprint = own_fingerprint cr b, is_sk = sk,
       is_status = Trusted, is_created_at = t\<rparr>)" by auto
  with os show thesis using kb kb' by (intro that) (auto simp: key_ok_def)
qed

text \<open>
  C2: a handshake opens the conversation.  One client asks for the key of a
  channel it has no other request open on, the other answers, and the first
  has not met the responder under another identity.  Then the first accepts
  the answer, and whatever the responder encrypts next for the channel is
  decrypted by the first, line by line, to pieces that concatenate to the text.
\<close>

theorem handshake_then_message:
  assumes cr: "good_crypto cr" "key_ok (mg_keyring a)" "key_ok (mg_keyring b)" "length (mg_seed b) = 32"
    and ask: "build_keyreq_for_peer cr c to_h a0 = (Inr req, a1)" "\<forall>e\<in>set (mg_pending a0). fst (fst e) \<noteq> c"
    and wait: "mg_pending a = mg_pending a1"
    and serve: "handle_keyreq_with_nick lower cr ha nick req b = (Inr (Some rsp), b')"
    and known: "classify_peer_change (mg_keyring a) (own_fingerprint cr b) hb \<in> {Inr New, Inr Known}"
    and pin: "\<And>fp. session_pin (mg_keyring a) (hb, c) = Some fp \<Longrightarrow> fp = own_fingerprint cr b"
    and send: "encrypt_outgoing cr c text b' = (Inr lines, b'')" "utf8_valid text"
  shows "\<exists>a' pieces ts. handle_keyrsp cr hb rsp a = (Inr (), a') \<and>
    concat pieces = text \<and> length pieces = length lines \<and> ts \<in> range (ev_clock (mg_env b')) \<and>
    (\<forall>r i. mg_keyring r = mg_keyring a' \<and> i < length lines \<and>
       sint (i64_abs (clock_of r - ts)) \<le> sint (mg_tolerance r) \<longrightarrow>
       decrypt_incoming cr hb c (lines ! i) r = (Inr (Plaintext (pieces ! i)), step_env r))"
proof -
  from handshake_completes [OF cr ask wait serve known pin] obtain a' os s where
    fin: "handle_keyrsp cr hb rsp a = (Inr (), a')" and
    os: "get_outgoing_session cr (mg_keyring b') c = Inr (Some os)" "\<not> os_pending_rotation os" and
    s: "get_incoming_session cr (mg_keyring a') hb c = Inr (Some s)" "is_status s = Trusted"
      "is_sk s = os_sk os" and
    kb: "key_ok (mg_keyring b')" by metis
  have key: "fst (get_or_generate_outgoing_key cr c b') = Inr (os_sk os)"
    using os by (simp add: get_or_generate_outgoing_key_def exec)
  from message_delivery [OF cr(1) kb send(2,1)] obtain pieces os' ts where
    "concat pieces = text \<and> length pieces = length lines \<and>
     get_outgoing_session cr (mg_keyring b'') c = Inr (Some os') \<and>
     fst (get_or_generate_outgoing_key cr c b') = Inr (os_sk os') \<and> ts \<in> range (ev_clock (mg_env b')) \<and>
     (\<forall>receiver handle s i. i < length lines \<and>
       get_incoming_session cr (mg_keyring receiver) handle c = Inr (Some s) \<and>
       is_status s = Trusted \<and> is_sk s = os_sk os' \<and>
       sint (i64_abs (clock_of receiver - ts)) \<le> sint (mg_tolerance receiver) \<longrightarrow>
       decrypt_incoming cr handle c (lines ! i) receiver = (Inr (Plaintext (pieces ! i)), step_env receiver))"
    by (elim exE) (rule that)
  then have d: "concat pieces = text" "length pieces = length lines" "ts \<in> range (ev_clock (mg_env b'))"
    and key': "fst (get_or_generate_outgoing_key cr c b') = Inr (os_sk os')"
    and dec: "\<And>receiver handle s i. i < length lines \<Longrightarrow>
       get_incoming_session cr (mg_keyring receiver) handle c = Inr (Some s) \<Longrightarrow>
       is_status s = Trusted \<Longrightarrow> is_sk s = os_sk os' \<Longrightarrow>
       sint (i64_abs (clock_of receiver - ts)) \<le> sint (mg_tolerance receiver) \<Longrightarrow>
       decrypt_incoming cr handle c (lines ! i) receiver = (Inr (Plaintext (pieces ! i)), step_env receiver)"
    by simp_all
  have "decrypt_incoming cr hb c (lines ! i) r = (Inr (Plaintext (pieces ! i)), step_env r)"
    if "mg_keyring r = mg_keyring a'" "i < length lines" "sint (i64_abs (clock_of r - ts)) \<le> sint (mg_tolerance r)"
    for r i using dec [OF that(2) _ s(2) _ that(3)] s(1,3) key key' that(1) by simp
  with fin d show ?thesis by blast
qed

text \<open>When an answer succeeds: an auto-accepting channel without a key yet, asked by a new peer.\<close>

lemma queue_reciprocal_succeeds:
  assumes "get_incoming_session cr (mg_keyring m) h c = Inr sess"
  obtains m' where "queue_reciprocal cr h c m = (Inr (), m')"
proof -
  have "\<exists>m'. queue_reciprocal cr h c m = (Inr (), m')"
    using assms by (auto simp: queue_reciprocal_def allow_keyreq_def build_keyreq_for_peer_def exec Let_def)
  then show thesis by (elim exE) (rule that)
qed

lemma serve_succeeds:
  assumes cr: "good_crypto cr" "key_ok (mg_keyring m)"
    and new: "map_of (kr_outgoing (mg_keyring m)) (kq_channel req) = None"
    and sess: "get_incoming_session cr (mg_keyring m) h (kq_channel req) = Inr sess"
  obtains rsp m' where "serve_keyrsp cr h req m = (Inr rsp, m')"
proof -
  have ok: "gcm_ok cr" "aead_ok cr" "keys_ok cr" using cr(1) by (simp_all add: good_crypto_def)
  from fresh_key [OF cr new] obtain m1 where
    key: "get_or_generate_outgoing_key cr (kq_channel req) m = (Inr (drawn 32 m), m1)" .
  note k = outgoing_key_result [OF ok(1) cr(2) key]
  define kr where "kr = record_outgoing_recipient (kq_channel req) h (fingerprint cr (kq_pubkey req))
    (clock_of m1) (mg_keyring m1)"
  define m2 where "m2 = (step_env m1)\<lparr>mg_keyring := kr\<rparr>"
  define wk where "wk = derive_wrap_key cr (drawn 32 m2) (kq_eph_x25519 req) (wrap_info (kq_channel req))"
  have "length wk = 32" by (simp add: wk_def wrap_key_length [OF ok(3)])
  from aead_roundtrip [OF ok(2) this, of "drawn 24 (step_env m2)" "drawn 32 m" "wrap_info (kq_channel req)"]
  obtain ct where ct: "aead_encrypt cr (drawn 24 (step_env m2)) wk (wrap_info (kq_channel req)) (drawn 32 m) =
      Inr (drawn 24 (step_env m2), ct)" by auto
  have "get_incoming_session cr kr = get_incoming_session cr (mg_keyring m)"
    using k(3) by (intro get_incoming_frame) (auto simp: kr_def)
  with sess have "get_incoming_session cr (mg_keyring (step_env (step_env (step_env m2)))) h (kq_channel req) = Inr sess"
    by (simp add: m2_def)
  then obtain m3 where "queue_reciprocal cr h (kq_channel req) (step_env (step_env (step_env m2))) = (Inr (), m3)"
    by (rule queue_reciprocal_succeeds)
  with ct show thesis
    by (intro that) (simp add: serve_keyrsp_def bind_st_def [of "get_or_generate_outgoing_key cr (kq_channel req)"]
        key exec Let_def bind_st_def [of "queue_reciprocal cr h (kq_channel req)"]
        m2_def [symmetric, unfolded kr_def] wk_def [symmetric])
qed

lemma keyreq_succeeds:
  assumes cr: "good_crypto cr" "key_ok (mg_keyring m)"
    and allowed: "fst (allow_incoming h (instant_of m) (mg_limiter m))"
    and sig: "sig_verify cr (kq_pubkey req)
      (sig_payload_keyreq (kq_channel req) (kq_pubkey req) (kq_eph_x25519 req) (kq_nonce req)) (kq_sig req) = Inr ()"
    and mode: "effective_channel_mode lower (mg_keyring m) h (kq_channel req) = Some AutoAccept"
    and new: "classify_peer_change (mg_keyring m) (fingerprint cr (kq_pubkey req)) h = Inr New"
      "map_of (kr_outgoing (mg_keyring m)) (kq_channel req) = None"
      "get_incoming_session cr (mg_keyring m) h (kq_channel req) = Inr sess"
  obtains rsp m' where "handle_keyreq_with_nick lower cr h nick req m = (Inr (Some rsp), m')"
proof -
  let ?m1 = "(step_env m)\<lparr>mg_limiter := snd (allow_incoming h (instant_of m) (mg_limiter m))\<rparr>"
  let ?r = "\<lparr>pr_fingerprint = fingerprint cr (kq_pubkey req), pr_pubkey = kq_pubkey req,
     pr_last_handle = Some h, pr_last_nick = nick, pr_first_seen = clock_of ?m1, pr_last_seen = clock_of ?m1,
     pr_status = Pending\<rparr>"
  define m2 where "m2 = (step_env ?m1)\<lparr>mg_keyring := upsert_peer ?r (mg_keyring m)\<rparr>"
  have tofu: "tofu_upsert_on_keyreq cr h nick req (fingerprint cr (kq_pubkey req)) ?m1 = (Inr (), m2)"
    by (simp add: tofu_upsert_on_keyreq_def exec new(1) m2_def)
  note t = tofu_accepts [OF tofu, simplified]
  have "get_incoming_session cr (mg_keyring m2) = get_incoming_session cr (mg_keyring m)"
    using t(2,3) by (intro get_incoming_frame)
  with new(3) have sess: "get_incoming_session cr (mg_keyring m2) h (kq_channel req) = Inr sess" by simp
  have "key_ok (mg_keyring m2)" using cr(2) t(3) by (simp add: key_ok_def)
  moreover have "map_of (kr_outgoing (mg_keyring m2)) (kq_channel req) = None" using t(4) new(2) by simp
  ultimately obtain rsp m' where "serve_keyrsp cr h req m2 = (Inr rsp, m')"
    using sess by (rule serve_succeeds [OF cr(1)])
  then show thesis
    using allowed sig mode sess
    by (intro that) (simp add: handle_keyreq_with_nick_def allow_incoming_keyreq_def exec Let_def
        bind_st_def [of "tofu_upsert_on_keyreq cr h nick req (fingerprint cr (kq_pubkey req))"] tofu
        bind_st_def [of "serve_keyrsp cr h req"])
qed

definition example_config :: channel_config where
  "example_config = \<lparr>cc_channel = ''#x'', cc_enabled = True, cc_mode = AutoAccept\<rparr>"

definition example_responder :: e2e_manager where
  "example_responder = (example_manager (set_channel_config example_config (keyring_new None)))
     \<lparr>mg_seed := replicate 32 CHR ''b''\<rparr>"

lemma example_keyreq_answered:
  obtains req a1 rsp b' where
    "build_keyreq_for_peer toy_crypto ''#x'' None (example_manager (keyring_new None)) = (Inr req, a1)"
    "kq_channel req = ''#x''"
    "handle_keyreq_with_nick ascii_lower_table toy_crypto ''~ann@a.host'' None req example_responder =
       (Inr (Some rsp), b')"
proof -
  let ?a = "example_manager (keyring_new None)"
  obtain req a1 where ask: "build_keyreq_for_peer toy_crypto ''#x'' None ?a = (Inr req, a1)"
    by (simp add: build_keyreq_exec Let_def)
  then have req: "kq_channel req = ''#x''" "sig_verify toy_crypto (kq_pubkey req)
      (sig_payload_keyreq (kq_channel req) (kq_pubkey req) (kq_eph_x25519 req) (kq_nonce req)) (kq_sig req) = Inr ()"
    by (auto simp: build_keyreq_exec Let_def identity_pub_def example_manager_def manager_new_def sig_verify_sign)
  note defs = example_responder_def example_manager_def manager_new_def set_channel_config_def keyring_new_def
    example_config_def
  have cfg: "map_of (kr_config (mg_keyring example_responder)) ''#x'' = Some (sql_bool True, mode_as_str AutoAccept)"
    by (simp add: defs)
  have "effective_channel_mode ascii_lower_table (mg_keyring example_responder) ''~ann@a.host'' (kq_channel req)
      = Some AutoAccept"
    unfolding effective_channel_mode_def get_channel_config_def row_to_config_def req(1) cfg
    by (simp add: sql_bool_def autotrust_matches_def defs)
  moreover have "fst (allow_incoming ''~ann@a.host'' (instant_of example_responder) (mg_limiter example_responder))"
    by (simp add: defs rate_limiter_new_def allow_incoming_def bucket_admit_def empty_bucket_def Let_def
        incoming_max_per_window_def)
  moreover have "key_ok (mg_keyring example_responder)"
    "classify_peer_change (mg_keyring example_responder) (fingerprint toy_crypto (kq_pubkey req)) ''~ann@a.host'' = Inr New"
    "map_of (kr_outgoing (mg_keyring example_responder)) (kq_channel req) = None"
    "get_incoming_session toy_crypto (mg_keyring example_responder) ''~ann@a.host'' (kq_channel req) = Inr None"
    by (simp_all add: defs key_ok_def classify_New get_incoming_session_def)
  ultimately obtain rsp b' where "handle_keyreq_with_nick ascii_lower_table toy_crypto ''~ann@a.host'' None req
      example_responder = (Inr (Some rsp), b')"
    using req(2) by (metis keyreq_succeeds [OF toy_good])
  with ask req(1) show thesis by (rule that)
qed

lemma keyrsp_policy_witness:
  "\<exists>req :: key_req. kq_channel req = ''#x'' \<and>
    classify_peer_change (mg_keyring example_responder) (fingerprint toy_crypto (kq_pubkey req)) ''~ann@a.host''
      \<in> {Inr New, Inr Known}"
proof -
  obtain req a1 rsp b' where "kq_channel req = ''#x''"
    "handle_keyreq_with_nick ascii_lower_table toy_crypto ''~ann@a.host'' None req example_responder =
       (Inr (Some rsp), b')" by (rule example_keyreq_answered)
  with keyrsp_policy [OF this(2)] show ?thesis by blast
qed

lemma handshake_then_message_witness:
  "\<exists>rsp a a' lines pieces. handle_keyrsp toy_crypto ''~bob@b.host'' rsp a = (Inr (), a') \<and>
    concat pieces = ''hi'' \<and> length pieces = length (lines :: bytes list) \<and> mg_keyring a = keyring_new None"
proof -
  let ?a0 = "example_manager (keyring_new None)"
  obtain req a1 rsp b' where
    ask: "build_keyreq_for_peer toy_crypto ''#x'' None ?a0 = (Inr req, a1)" and
    serve: "handle_keyreq_with_nick ascii_lower_table toy_crypto ''~ann@a.host'' None req example_responder =
       (Inr (Some rsp), b')" by (rule example_keyreq_answered)
  note defs = example_responder_def example_manager_def manager_new_def set_channel_config_def keyring_new_def
  have kr: "mg_keyring a1 = keyring_new None"
    using ask by (auto simp: build_keyreq_exec Let_def example_manager_def manager_new_def)
  have a: "\<forall>e\<in>set (mg_pending ?a0). fst (fst e) \<noteq> ''#x''" "key_ok (mg_keyring a1)"
    "classify_peer_change (mg_keyring a1) (own_fingerprint toy_crypto example_responder) ''~bob@b.host''
      \<in> {Inr New, Inr Known}"
    "\<And>fp. session_pin (mg_keyring a1) (''~bob@b.host'', ''#x'') = Some fp \<Longrightarrow>
      fp = own_fingerprint toy_crypto example_responder"
    unfolding kr by (simp_all add: defs key_ok_def classify_New session_pin_def)
  have b: "key_ok (mg_keyring example_responder)" "length (mg_seed example_responder) = 32"
    by (simp_all add: defs key_ok_def)
  from handshake_completes [OF toy_good a(2) b ask a(1) refl serve a(3,4)] obtain os where
    os: "get_outgoing_session toy_crypto (mg_keyring b') ''#x'' = Inr (Some os)" "\<not> os_pending_rotation os"
    by metis
  have v: "utf8_valid ''hi''" by (rule ascii_valid) auto
  have s: "split_plaintext ''hi'' = Inr [''hi'']" by code_simp
  obtain lines b'' where send: "encrypt_outgoing toy_crypto ''#x'' ''hi'' b' = (Inr lines, b'')"
    by (rule encrypt_with_key [OF toy_good os s])
  from handshake_then_message [OF toy_good a(2) b ask a(1) refl serve a(3,4) send v] kr show ?thesis by blast
qed

end
