(* ===== verification/Irc_Split.thy ===== *)
theory Irc_Split
  imports Rust_Str
begin

text \<open>
  \<open>split_irc_message\<close> and \<open>WordSplitter\<close> of \<open>src/src/irc/mod.rs\<close>: how a text
  is cut into the lines that are sent.  A string slice is the list of its
  characters here, so that cutting and measuring it stay at character
  boundaries as in the code; \<open>char_bytes\<close> is its \<open>len()\<close>.
\<close>

definition message_max_bytes :: nat where
  "message_max_bytes = 350"

definition char_bytes :: "bytes list \<Rightarrow> nat" where
  "char_bytes cs = length (concat cs)"

definition trim_start_chars :: "bytes list \<Rightarrow> bytes list" where
  "trim_start_chars cs = dropWhile is_ws_char cs"

definition trim_end_chars :: "bytes list \<Rightarrow> bytes list" where
  "trim_end_chars cs = rev (dropWhile is_ws_char (rev cs))"

text \<open>The chunks of a word with the white space behind it.\<close>

function word_splitter :: "bytes list \<Rightarrow> bytes list list" where
  "word_splitter [] = []"
| "word_splitter (c # cs) =
     (let word = takeWhile (\<lambda>x. \<not> is_ws_char x) (c # cs);
          rest = dropWhile (\<lambda>x. \<not> is_ws_char x) (c # cs)
      in (word @ takeWhile is_ws_char rest) # word_splitter (dropWhile is_ws_char rest))"
  by pat_completeness auto
termination
proof (relation "measure length", goal_cases)
  case (2 c cs word rest)
  have le: "length (dropWhile P xs) \<le> length xs" for P :: "bytes \<Rightarrow> bool" and xs
    by (induction xs) auto
  have "length (dropWhile is_ws_char rest) < length (c # cs)"
    using le [of is_ws_char cs] le [of "\<lambda>x. \<not> is_ws_char x" cs]
      le [of is_ws_char "dropWhile (\<lambda>x. \<not> is_ws_char x) cs"]
    unfolding 2(2) by (cases "is_ws_char c") (simp_all add: less_Suc_eq_le)
  then show ?case by (simp add: 2(2))
qed simp

text \<open>The loop of the last case: characters go to the current line until it is full.\<close>

fun break_word :: "nat \<Rightarrow> bytes list \<Rightarrow> bytes list list \<times> bytes list \<Rightarrow> bytes list list \<times> bytes list" where
  "break_word limit [] st = st"
| "break_word limit (c # cs) (lines, cur) =
     break_word limit cs
       (if limit < char_bytes cur + length c \<and> cur \<noteq> [] then (lines @ [cur], [c]) else (lines, cur @ [c]))"

definition split_step :: "nat \<Rightarrow> bytes list \<Rightarrow> bytes list list \<times> bytes list \<Rightarrow> bytes list list \<times> bytes list" where
  "split_step limit word st =
     (case st of (lines, cur) \<Rightarrow>
        if char_bytes cur + char_bytes word \<le> limit then (lines, cur @ word)
        else if char_bytes (trim_end_chars (trim_start_chars word)) \<le> limit then
          (if cur = [] then lines else lines @ [cur], trim_start_chars word)
        else break_word limit word (lines, cur))"

definition split_pieces :: "bytes \<Rightarrow> nat \<Rightarrow> bytes list list" where
  "split_pieces text limit =
     (if length text \<le> limit then [utf8_chars text]
      else (case fold (split_step limit) (word_splitter (utf8_chars text)) ([], []) of
              (lines, cur) \<Rightarrow> if cur = [] then lines else lines @ [cur]))"

definition split_irc_message :: "bytes \<Rightarrow> nat \<Rightarrow> bytes list" where
  "split_irc_message text limit = map concat (split_pieces text limit)"

section \<open>Nothing between the words is lost, and lines fit\<close>

lemma concat_word_splitter: "concat (word_splitter cs) = cs"
  by (induction cs rule: word_splitter.induct) (simp_all add: Let_def)

lemma char_bytes_append [simp]: "char_bytes (a @ b) = char_bytes a + char_bytes b"
  "char_bytes [] = 0" "char_bytes (c # a) = length c + char_bytes a"
  by (simp_all add: char_bytes_def)

lemma char_bytes_trim: "char_bytes (trim_end_chars cs) \<le> char_bytes cs"
proof -
  have "cs = trim_end_chars cs @ rev (takeWhile is_ws_char (rev cs))"
    unfolding trim_end_chars_def by (metis rev_append rev_rev_ident takeWhile_dropWhile_id)
  then show ?thesis by (metis char_bytes_append(1) le_add1)
qed

abbreviation kept_chars :: "bytes list list \<times> bytes list \<Rightarrow> bytes list" where
  "kept_chars st \<equiv> concat (fst st) @ snd st"

lemma break_word_kept: "kept_chars (break_word n w st) = kept_chars st @ w"
  by (induction n w st rule: break_word.induct) auto

text \<open>A word without leading white space is appended as it is; leading white space goes if the word does not fit.\<close>

lemma split_step_kept:
  assumes "w = [] \<or> \<not> is_ws_char (hd w)"
  shows "kept_chars (split_step n w st) = kept_chars st @ w"
proof -
  have "trim_start_chars w = w" using assms by (cases w) (auto simp: trim_start_chars_def)
  then show ?thesis using break_word_kept [of n w st] by (cases st) (auto simp: split_step_def)
qed

lemma fold_kept:
  "(\<forall>w\<in>set ws. w = [] \<or> \<not> is_ws_char (hd w)) \<Longrightarrow> kept_chars (fold (split_step n) ws st) = kept_chars st @ concat ws"
  by (induction ws arbitrary: st) (simp_all add: split_step_kept)

lemma word_splitter_heads:
  "\<not> is_ws_char (hd cs) \<Longrightarrow> \<forall>w\<in>set (word_splitter cs). w = [] \<or> \<not> is_ws_char (hd w)"
proof (induction cs rule: word_splitter.induct)
  case (2 c cs)
  let ?rest = "dropWhile (\<lambda>x. \<not> is_ws_char x) (c # cs)"
  have c: "\<not> is_ws_char c" using 2(2) by simp
  show ?case
  proof (cases "dropWhile is_ws_char ?rest = []")
    case False
    then have "\<not> is_ws_char (hd (dropWhile is_ws_char ?rest))" by (rule hd_dropWhile)
    then show ?thesis using 2(1) [OF refl refl] c by (simp add: Let_def)
  next
    case True
    then have "word_splitter (c # cs) = [takeWhile (\<lambda>x. \<not> is_ws_char x) (c # cs) @ takeWhile is_ws_char ?rest]"
      by (simp only: word_splitter.simps Let_def)
    then show ?thesis using c by simp
  qed
qed simp

lemma word_splitter_leading:
  assumes "cs \<noteq> []" "is_ws_char (hd cs)"
  shows "word_splitter cs = takeWhile is_ws_char cs # word_splitter (dropWhile is_ws_char cs)"
  using assms by (cases cs) (simp_all add: Let_def)

lemma trim_ws: "\<forall>c\<in>set w. is_ws_char c \<Longrightarrow> trim_start_chars w = [] \<and> trim_end_chars [] = []"
  by (simp add: trim_start_chars_def trim_end_chars_def)

text \<open>What the lines keep: all of the text, but white space in front that is longer than a line.\<close>

definition kept_text :: "nat \<Rightarrow> bytes list \<Rightarrow> bytes list" where
  "kept_text n cs = (if char_bytes (takeWhile is_ws_char cs) \<le> n then cs else dropWhile is_ws_char cs)"

lemma split_kept: "kept_chars (fold (split_step n) (word_splitter cs) ([], [])) = kept_text n cs"
proof (cases "cs \<noteq> [] \<and> is_ws_char (hd cs)")
  case False
  then have "takeWhile is_ws_char cs = []" by (cases cs) auto
  moreover have "\<forall>w\<in>set (word_splitter cs). w = [] \<or> \<not> is_ws_char (hd w)"
    using False word_splitter_heads [of cs] by (cases "cs = []") (simp, blast)
  ultimately show ?thesis using fold_kept [of "word_splitter cs" n "([], [])"] by (simp add: kept_text_def concat_word_splitter)
next
  case True
  let ?w = "takeWhile is_ws_char cs" and ?r = "dropWhile is_ws_char cs"
  have ws: "\<forall>c\<in>set ?w. is_ws_char c" by (auto dest: set_takeWhileD)
  have step: "split_step n ?w ([], []) = ([], if char_bytes ?w \<le> n then ?w else [])"
    using trim_ws [OF ws] by (simp add: split_step_def char_bytes_def)
  have heads: "\<forall>w\<in>set (word_splitter ?r). w = [] \<or> \<not> is_ws_char (hd w)"
  proof (cases "?r = []")
    case True
    show ?thesis unfolding True by simp
  next
    case False
    from hd_dropWhile [OF this] show ?thesis by (rule word_splitter_heads)
  qed
  have "kept_chars (fold (split_step n) (word_splitter cs) ([], [])) = (if char_bytes ?w \<le> n then ?w else []) @ ?r"
    using True by (simp add: word_splitter_leading step fold_kept [OF heads] concat_word_splitter)
  then show ?thesis by (simp add: kept_text_def)
qed

lemma split_pieces_kept: "concat (split_pieces text n) = kept_text n (utf8_chars text)"
proof (cases "length text \<le> n")
  case True
  have "char_bytes (takeWhile is_ws_char (utf8_chars text)) \<le> char_bytes (utf8_chars text)"
    by (metis char_bytes_append(1) le_add1 takeWhile_dropWhile_id)
  then show ?thesis using True by (simp add: split_pieces_def kept_text_def char_bytes_def concat_utf8_chars)
next
  case False
  then show ?thesis using split_kept [of n "utf8_chars text"] by (auto simp: split_pieces_def split: prod.split)
qed

abbreviation fits :: "nat \<Rightarrow> bytes list \<Rightarrow> bool" where
  "fits n cs \<equiv> char_bytes (trim_end_chars cs) \<le> n"

definition all_fit :: "nat \<Rightarrow> bytes list list \<times> bytes list \<Rightarrow> bool" where
  "all_fit n st \<longleftrightarrow> (\<forall>l\<in>set (fst st). fits n l) \<and> fits n (snd st)"

lemma fits_short: "char_bytes cs \<le> n \<Longrightarrow> fits n cs"
  using char_bytes_trim [of cs] by simp

lemma break_word_fit:
  "(\<forall>c\<in>set w. length c \<le> n) \<Longrightarrow> all_fit n st \<Longrightarrow> all_fit n (break_word n w st)"
proof (induction n w st rule: break_word.induct)
  case (2 n c cs lines cur)
  have "all_fit n (if n < char_bytes cur + length c \<and> cur \<noteq> [] then (lines @ [cur], [c]) else (lines, cur @ [c]))"
    using 2(2,3) by (auto simp: all_fit_def intro!: fits_short)
  with 2 show ?case by simp
qed simp

lemma split_step_fit:
  "(\<forall>c\<in>set w. length c \<le> n) \<Longrightarrow> all_fit n st \<Longrightarrow> all_fit n (split_step n w st)"
  using break_word_fit [of w n st]
  by (cases st) (auto simp: split_step_def all_fit_def intro!: fits_short)

lemma fold_fit:
  "(\<forall>w\<in>set ws. \<forall>c\<in>set w. length c \<le> n) \<Longrightarrow> all_fit n st \<Longrightarrow> all_fit n (fold (split_step n) ws st)"
proof (induction ws arbitrary: st)
  case (Cons w ws)
  then have "all_fit n (split_step n w st)" by (intro split_step_fit) auto
  from Cons.IH [OF _ this] Cons.prems show ?case by simp
qed simp

lemma utf8_chars_small: "c \<in> set (utf8_chars s) \<Longrightarrow> length c \<le> 4"
proof (induction s rule: utf8_chars.induct)
  case (2 b s)
  then show ?case using utf8_len_4 [of "b # s"] by (auto simp: utf8_chars.simps(2) Let_def)
qed simp

lemma split_pieces_fit:
  assumes "4 \<le> n"
  shows "\<forall>l\<in>set (split_pieces text n). fits n l"
proof -
  let ?st = "fold (split_step n) (word_splitter (utf8_chars text)) ([], [])"
  have small: "\<forall>w\<in>set (word_splitter (utf8_chars text)). \<forall>c\<in>set w. length c \<le> n"
  proof (intro ballI)
    fix w c assume "w \<in> set (word_splitter (utf8_chars text))" "c \<in> set w"
    then have "c \<in> set (concat (word_splitter (utf8_chars text)))" by auto
    then show "length c \<le> n" using utf8_chars_small assms by (force simp: concat_word_splitter)
  qed
  have "all_fit n ?st" by (rule fold_fit [OF small]) (simp add: all_fit_def trim_end_chars_def)
  then show ?thesis
    using fits_short [of "utf8_chars text" n] unfolding all_fit_def
    by (cases ?st) (auto simp: split_pieces_def char_bytes_def [of "utf8_chars text"] concat_utf8_chars)
qed

text \<open>
  C26: sending loses nothing, spaces between words included.  For every limit of
  at least four bytes, the characters of the lines, put together again, are
  exactly the characters of the text; only white space in front of the whole text
  that is longer than a line is dropped.  Each line fits the limit when the white
  space at its end is not counted.
\<close>

theorem split_irc_message_spec:
  assumes "4 \<le> limit"
  shows "\<exists>pieces. split_irc_message text limit = map concat pieces \<and>
    concat pieces =
      (if length (concat (takeWhile is_ws_char (utf8_chars text))) \<le> limit then utf8_chars text
       else dropWhile is_ws_char (utf8_chars text)) \<and>
    (\<forall>p\<in>set pieces. length (concat (trim_end_chars p)) \<le> limit)"
  using split_pieces_fit [OF assms, of "text"] split_pieces_kept [of "text" limit]
  by (auto simp: split_irc_message_def char_bytes_def kept_text_def)

lemma split_irc_message_spec_witness:
  "\<exists>pieces. split_irc_message ''ab cd ef'' 5 = map concat pieces \<and> concat pieces = utf8_chars ''ab cd ef'' \<and>
    (\<forall>p\<in>set pieces. length (concat (trim_end_chars p)) \<le> 5)"
proof -
  have "takeWhile is_ws_char (utf8_chars ''ab cd ef'') = []" by code_simp
  then show ?thesis using split_irc_message_spec [of 5 "''ab cd ef''"] by simp
qed

text \<open>
  The white space does count for the server: a word that fits is moved to its
  own line together with all the white space behind it.
\<close>

lemma split_line_too_long: "split_irc_message ''a bc      '' 4 = [''a '', ''bc      '']"
  by code_simp

end
