(* ===== verification/Rust_Text.thy ===== *)
theory Rust_Text
  imports Rust_Str "HOL-Library.AList"
begin

text \<open>
  More of the standard library: searching and splitting strings, classes of
  ASCII characters, positions in a list, and insertion into an ordered set.
  A \<open>char\<close> is the list of its UTF-8 bytes.
\<close>

section \<open>Lists\<close>

text \<open>\<open>Iterator::position\<close>.\<close>

fun find_pos :: "('a \<Rightarrow> bool) \<Rightarrow> 'a list \<Rightarrow> nat option" where
  "find_pos P [] = None"
| "find_pos P (x # xs) = (if P x then Some 0 else map_option Suc (find_pos P xs))"

lemma find_pos_Some: "find_pos P xs = Some i \<Longrightarrow> i < length xs \<and> P (xs ! i)"
  by (induction xs arbitrary: i) (auto split: if_splits)

lemma find_pos_None: "find_pos P xs = None \<longleftrightarrow> (\<forall>x\<in>set xs. \<not> P x)"
  by (induction xs) auto

text \<open>\<open>HashSet::insert\<close> and \<open>IndexSet::insert\<close>.\<close>

definition insert_once :: "'a \<Rightarrow> 'a list \<Rightarrow> 'a list" where
  "insert_once x xs = (if x \<in> set xs then xs else xs @ [x])"

lemma insert_once_set [simp]: "set (insert_once x xs) = insert x (set xs)"
  by (auto simp: insert_once_def)

lemma insert_once_distinct [simp]: "distinct (insert_once x xs) = distinct xs"
  by (simp add: insert_once_def)

text \<open>A loop that keeps a fact, and one that establishes it at one of its elements.\<close>

lemma fold_keeps: "(\<And>x t. P t \<Longrightarrow> P (f x t)) \<Longrightarrow> P t \<Longrightarrow> P (fold f xs t)"
  by (induction xs arbitrary: t) auto

lemma fold_reaches: "x \<in> set xs \<Longrightarrow> (\<And>t. P (f x t)) \<Longrightarrow> (\<And>y t. P t \<Longrightarrow> P (f y t)) \<Longrightarrow> P (fold f xs t)"
  by (induction xs arbitrary: t) (auto intro: fold_keeps [of P])

section \<open>Characters\<close>

definition is_ascii_digit :: "char \<Rightarrow> bool" where
  "is_ascii_digit c \<longleftrightarrow> in_range 48 57 c"

definition is_ascii_alphabetic :: "char \<Rightarrow> bool" where
  "is_ascii_alphabetic c \<longleftrightarrow> in_range 65 90 c \<or> in_range 97 122 c"

definition is_ascii_alphanumeric :: "char \<Rightarrow> bool" where
  "is_ascii_alphanumeric c \<longleftrightarrow> is_ascii_digit c \<or> is_ascii_alphabetic c"

definition is_ascii_hexdigit :: "char \<Rightarrow> bool" where
  "is_ascii_hexdigit c \<longleftrightarrow> in_range 48 57 c \<or> in_range 65 70 c \<or> in_range 97 102 c"

section \<open>Searching\<close>

text \<open>\<open>str::rfind\<close> of a character, \<open>contains\<close> and \<open>find\<close> of a pattern, \<open>ends_with\<close>.\<close>

definition rfind_char :: "char \<Rightarrow> bytes \<Rightarrow> nat option" where
  "rfind_char c s = map_option (\<lambda>i. length s - 1 - i) (find_char c (rev s))"

fun find_str :: "bytes \<Rightarrow> bytes \<Rightarrow> nat option" where
  "find_str p [] = (if p = [] then Some 0 else None)"
| "find_str p (c # s) = (if starts_with p (c # s) then Some 0 else map_option Suc (find_str p s))"

definition contains_str :: "bytes \<Rightarrow> bytes \<Rightarrow> bool" where
  "contains_str p s \<longleftrightarrow> find_str p s \<noteq> None"

definition ends_with :: "bytes \<Rightarrow> bytes \<Rightarrow> bool" where
  "ends_with p s \<longleftrightarrow> starts_with (rev p) (rev s)"

definition strip_suffix :: "bytes \<Rightarrow> bytes \<Rightarrow> bytes option" where
  "strip_suffix p s = map_option rev (strip_prefix (rev p) (rev s))"

text \<open>\<open>str::splitn(n, c)\<close> for a positive n.\<close>

fun splitn :: "nat \<Rightarrow> char \<Rightarrow> bytes \<Rightarrow> bytes list" where
  "splitn 0 c s = []"
| "splitn (Suc 0) c s = [s]"
| "splitn (Suc (Suc n)) c s = (case split_once c s of None \<Rightarrow> [s] | Some (a, b) \<Rightarrow> a # splitn (Suc n) c b)"

text \<open>\<open>slice.get(i)\<close>.\<close>

definition nth_opt :: "'a list \<Rightarrow> nat \<Rightarrow> 'a option" where
  "nth_opt xs i = (if i < length xs then Some (xs ! i) else None)"

definition unwrap_or :: "'a \<Rightarrow> 'a option \<Rightarrow> 'a" where
  "unwrap_or d x = (case x of None \<Rightarrow> d | Some y \<Rightarrow> y)"

lemma unwrap_or_simps [simp]: "unwrap_or d None = d" "unwrap_or d (Some y) = y"
  by (simp_all add: unwrap_or_def)

lemma find_str_Some: "find_str p s = Some i \<Longrightarrow> \<exists>a b. s = a @ p @ b \<and> length a = i"
proof (induction p s arbitrary: i rule: find_str.induct)
  case (2 p c s)
  then show ?case
    by (cases "starts_with p (c # s)") (auto simp: starts_with_iff intro: exI [of _ "[]"], metis append_Cons length_Cons)
qed (auto split: if_splits)

end
