(* ===== verification/Irc_Tokens.thy ===== *)
theory Irc_Tokens
  imports Rust_Text
begin

text \<open>
  What a server announces: ISUPPORT tokens (\<open>src/src/irc/isupport.rs\<close>),
  capabilities (\<open>src/src/irc/cap.rs\<close>) and extended ban masks
  (\<open>src/src/irc/extban.rs\<close>).
\<close>

section \<open>ISUPPORT\<close>

record isupport =
  isp_tokens :: "(bytes \<times> bytes) list"

definition isupport_new :: isupport where
  "isupport_new = \<lparr>isp_tokens = []\<rparr>"

definition parse_token :: "bytes \<Rightarrow> (bytes \<times> bytes) list \<Rightarrow> (bytes \<times> bytes) list" where
  "parse_token token t =
     (case strip_prefix ''-'' token of
        Some negated \<Rightarrow> AList.delete negated t
      | None \<Rightarrow>
          (case split_once (CHR ''='') token of
             Some (key, v) \<Rightarrow> AList.update key v t
           | None \<Rightarrow> AList.update token [] t))"

definition parse_tokens :: "bytes list \<Rightarrow> isupport \<Rightarrow> isupport" where
  "parse_tokens tokens i = i\<lparr>isp_tokens := fold parse_token tokens (isp_tokens i)\<rparr>"

definition isupport_get :: "isupport \<Rightarrow> bytes \<Rightarrow> bytes option" where
  "isupport_get i key = map_of (isp_tokens i) key"

definition default_prefix_map :: "(bytes \<times> bytes) list" where
  "default_prefix_map = [(''o'', ''@''), (''v'', ''+'')]"

definition prefix_map :: "isupport \<Rightarrow> (bytes \<times> bytes) list" where
  "prefix_map i =
     (case isupport_get i ''PREFIX'' of
        None \<Rightarrow> default_prefix_map
      | Some v \<Rightarrow>
          (case strip_prefix ''('' v of
             None \<Rightarrow> default_prefix_map
           | Some rest \<Rightarrow>
               (case split_once (CHR '')'') rest of
                  None \<Rightarrow> default_prefix_map
                | Some (modes, pfxs) \<Rightarrow> zip (utf8_chars modes) (utf8_chars pfxs))))"

definition chanmode_types :: "isupport \<Rightarrow> bytes \<times> bytes \<times> bytes \<times> bytes" where
  "chanmode_types i =
     (case isupport_get i ''CHANMODES'' of
        None \<Rightarrow> ([], [], [], [])
      | Some v \<Rightarrow>
          let parts = splitn 4 (CHR '','') v; part = (\<lambda>n. unwrap_or [] (nth_opt parts n))
          in (part 0, part 1, part 2, part 3))"

definition network :: "isupport \<Rightarrow> bytes option" where
  "network i = isupport_get i ''NETWORK''"

definition has_whox :: "isupport \<Rightarrow> bool" where
  "has_whox i \<longleftrightarrow> isupport_get i ''WHOX'' \<noteq> None"

text \<open>\<open>v.parse::<usize>().ok()\<close> with a default.\<close>

definition usize_token :: "bytes \<Rightarrow> nat \<Rightarrow> isupport \<Rightarrow> nat" where
  "usize_token key dflt i =
     (case isupport_get i key of
        None \<Rightarrow> dflt
      | Some v \<Rightarrow> (case parse_unsigned (2 ^ 64 - 1) v of Inr n \<Rightarrow> n | Inl _ \<Rightarrow> dflt))"

definition max_modes :: "isupport \<Rightarrow> nat" where
  "max_modes = usize_token ''MODES'' 3"

definition statusmsg :: "isupport \<Rightarrow> bytes" where
  "statusmsg i = unwrap_or [] (isupport_get i ''STATUSMSG'')"

definition casemapping :: "isupport \<Rightarrow> bytes" where
  "casemapping i = unwrap_or ''rfc1459'' (isupport_get i ''CASEMAPPING'')"

definition channel_len :: "isupport \<Rightarrow> nat" where
  "channel_len = usize_token ''CHANNELLEN'' 200"

definition nick_len :: "isupport \<Rightarrow> nat" where
  "nick_len = usize_token ''NICKLEN'' 9"

definition topic_len :: "isupport \<Rightarrow> nat" where
  "topic_len = usize_token ''TOPICLEN'' 307"

definition chan_types :: "isupport \<Rightarrow> bytes" where
  "chan_types i = unwrap_or ''#&'' (isupport_get i ''CHANTYPES'')"

definition isupport_extban :: "isupport \<Rightarrow> (bytes \<times> bytes) option" where
  "isupport_extban i =
     (case isupport_get i ''EXTBAN'' of
        None \<Rightarrow> None
      | Some v \<Rightarrow>
          (case split_once (CHR '','') v of
             None \<Rightarrow> None
           | Some (prefix_str, types) \<Rightarrow>
               (case utf8_chars prefix_str of [] \<Rightarrow> None | c # _ \<Rightarrow> Some (c, types))))"

definition supports_multi_target_mode :: "isupport \<Rightarrow> bool" where
  "supports_multi_target_mode i =
     (case isupport_get i ''TARGMAX'' of
        None \<Rightarrow> True
      | Some targmax \<Rightarrow>
          list_ex (\<lambda>entry. case split_once (CHR '':'') entry of
              None \<Rightarrow> False
            | Some (cmd, limit) \<Rightarrow> cmd = ''MODE'' \<and> limit \<noteq> ''1'' \<and> limit \<noteq> ''0'')
            (split_on (CHR '','') targmax))"

text \<open>The last token about a key decides.\<close>

definition token_effect :: "bytes \<Rightarrow> bytes \<Rightarrow> bytes option option" where
  "token_effect key token =
     (case strip_prefix ''-'' token of
        Some negated \<Rightarrow> if negated = key then Some None else None
      | None \<Rightarrow>
          (case split_once (CHR ''='') token of
             Some (k, v) \<Rightarrow> if k = key then Some (Some v) else None
           | None \<Rightarrow> if token = key then Some (Some []) else None))"

lemma parse_token_lookup:
  "map_of (parse_token token t) key = (case token_effect key token of None \<Rightarrow> map_of t key | Some r \<Rightarrow> r)"
  by (auto simp: parse_token_def token_effect_def delete_conv' update_conv' split: option.split simp del: split_once_None)

lemma parse_tokens_last:
  "isupport_get (parse_tokens tokens i) key =
     (case filter (\<lambda>e. e \<noteq> None) (map (token_effect key) tokens) of
        [] \<Rightarrow> isupport_get i key
      | es \<Rightarrow> the (last es))"
proof -
  have "map_of (fold parse_token tokens t) key =
      (case filter (\<lambda>e. e \<noteq> None) (map (token_effect key) tokens) of [] \<Rightarrow> map_of t key | es \<Rightarrow> the (last es))" for t
  proof (induction tokens arbitrary: t)
    case (Cons token tokens)
    then show ?case
      by (cases "token_effect key token") (auto simp: parse_token_lookup split: list.split)
  qed simp
  then show ?thesis unfolding isupport_get_def parse_tokens_def by simp
qed

section \<open>Capabilities\<close>

definition desired_caps :: "bytes list" where
  "desired_caps = [''multi-prefix'', ''extended-join'', ''server-time'', ''account-tag'', ''cap-notify'',
     ''away-notify'', ''account-notify'', ''chghost'', ''echo-message'', ''invite-notify'', ''batch'',
     ''userhost-in-names'', ''message-tags'', ''sasl'']"

type_synonym server_caps = "(bytes \<times> bytes option) list"

definition caps_parse :: "bytes \<Rightarrow> server_caps" where
  "caps_parse s =
     map (\<lambda>token. case split_once (CHR ''='') token of
         Some (name, v) \<Rightarrow> (ascii_lower name, Some v)
       | None \<Rightarrow> (ascii_lower token, None)) (split_whitespace s)"

definition caps_merge :: "bytes \<Rightarrow> server_caps \<Rightarrow> server_caps" where
  "caps_merge s caps = caps @ caps_parse s"

definition caps_has :: "server_caps \<Rightarrow> bytes \<Rightarrow> bool" where
  "caps_has caps cap = list_ex (\<lambda>(name, _). eq_ignore_ascii_case name cap) caps"

definition caps_value :: "server_caps \<Rightarrow> bytes \<Rightarrow> bytes option" where
  "caps_value caps cap =
     (case find (\<lambda>(name, _). eq_ignore_ascii_case name cap) caps of None \<Rightarrow> None | Some (_, v) \<Rightarrow> v)"

definition negotiate :: "server_caps \<Rightarrow> bytes list \<Rightarrow> bytes list" where
  "negotiate caps desired = map ascii_lower (filter (caps_has caps) desired)"

definition sasl_mechanisms :: "(bytes \<Rightarrow> bytes) \<Rightarrow> server_caps \<Rightarrow> bytes list" where
  "sasl_mechanisms upper caps =
     (if \<not> caps_has caps ''sasl'' then []
      else
        (case caps_value caps ''sasl'' of
           Some v \<Rightarrow> if v \<noteq> [] then map upper (split_on (CHR '','') v) else [''PLAIN'']
         | None \<Rightarrow> [''PLAIN'']))"

definition all_names :: "server_caps \<Rightarrow> bytes list" where
  "all_names caps = fold (\<lambda>(name, _). insert_once name) caps []"

section \<open>Extended bans\<close>

record extban =
  eb_type :: bytes
  eb_parameter :: "bytes option"
  eb_user :: bytes
  eb_host :: bytes

definition extban_parse_with_prefix :: "bytes \<Rightarrow> bytes \<Rightarrow> extban option" where
  "extban_parse_with_prefix pfx msk =
     (case strip_prefix pfx msk of
        None \<Rightarrow> None
      | Some rest \<Rightarrow>
          (case utf8_chars rest of
             [] \<Rightarrow> None
           | ban_type # cs \<Rightarrow>
               let remainder = concat cs;
                   (type_part, userhost) = (case split_once (CHR ''!'') remainder of
                      None \<Rightarrow> (remainder, ''*@*'') | Some (a, b) \<Rightarrow> (a, b));
                   parameter = (case strip_prefix '':'' type_part of
                      Some p \<Rightarrow> Some (if p = [] then None else Some p)
                    | None \<Rightarrow> if type_part = [] then Some None else None);
                   (user, host) = (case split_once (CHR ''@'') userhost of
                      None \<Rightarrow> (userhost, ''*'') | Some (u, h) \<Rightarrow> (u, h))
               in case parameter of
                    None \<Rightarrow> None
                  | Some p \<Rightarrow> Some \<lparr>eb_type = ban_type, eb_parameter = p, eb_user = user, eb_host = host\<rparr>))"

definition extban_parse :: "bytes \<Rightarrow> extban option" where
  "extban_parse msk = extban_parse_with_prefix ''$'' msk"

definition extban_userhost :: "extban \<Rightarrow> bytes" where
  "extban_userhost e = eb_user e @ ''@'' @ eb_host e"

definition extban_type_name :: "bytes \<Rightarrow> bytes" where
  "extban_type_name t =
     (if t = ''a'' then ''account'' else if t = ''c'' then ''channel'' else if t = ''j'' then ''realname''
      else if t = ''n'' then ''nick-change'' else if t = ''o'' then ''oper'' else if t = ''r'' then ''gecos''
      else if t = ''s'' then ''server'' else t)"

definition display_friendly :: "extban \<Rightarrow> bytes" where
  "display_friendly e =
     (case eb_parameter e of
        None \<Rightarrow> extban_type_name (eb_type e) @ '' (any) ('' @ extban_userhost e @ '')''
      | Some p \<Rightarrow> extban_type_name (eb_type e) @ '':'' @ p @ '' ('' @ extban_userhost e @ '')'')"

definition extban_display :: "extban \<Rightarrow> bytes" where
  "extban_display e =
     ''$'' @ eb_type e @ (case eb_parameter e of None \<Rightarrow> [] | Some p \<Rightarrow> '':'' @ p) @
     ''!'' @ eb_user e @ ''@'' @ eb_host e"

definition format_ban_mask :: "bytes \<Rightarrow> bytes option \<Rightarrow> bytes" where
  "format_ban_mask msk pfx =
     (case extban_parse_with_prefix (unwrap_or ''$'' pfx) msk of
        None \<Rightarrow> msk
      | Some eb \<Rightarrow> display_friendly eb @ '' '' @ [byte_of 226, byte_of 128, byte_of 148] @ '' '' @ msk)"

definition compose_account_ban :: "bytes \<Rightarrow> bytes option \<Rightarrow> bytes" where
  "compose_account_ban account pfx = unwrap_or ''$'' pfx @ ''a:'' @ account @ ''!*@*''"

lemma utf8_chars_head:
  "0 < utf8_len s \<Longrightarrow> utf8_chars s = take (utf8_len s) s # utf8_chars (drop (utf8_len s) s)"
  by (cases s) (auto simp: utf8_chars.simps(2) Let_def max_def simp del: take_Suc_Cons drop_Suc_Cons)

text \<open>A single character: a well-formed UTF-8 sequence and nothing behind it.\<close>

definition one_char :: "bytes \<Rightarrow> bool" where
  "one_char c \<longleftrightarrow> c \<noteq> [] \<and> utf8_len c = length c"

lemma utf8_chars_one:
  assumes "one_char c"
  shows "utf8_chars (c @ s) = c # utf8_chars s"
proof -
  from assms have pos: "0 < utf8_len c" by (cases c) (auto simp: one_char_def)
  from utf8_len_append [OF pos, of s] assms have "utf8_len (c @ s) = length c" by (simp add: one_char_def)
  with pos assms utf8_chars_head [of "c @ s"] show ?thesis by (simp add: one_char_def)
qed

definition extban_wf :: "extban \<Rightarrow> bool" where
  "extban_wf e \<longleftrightarrow> one_char (eb_type e) \<and> CHR ''@'' \<notin> set (eb_user e) \<and>
     (\<forall>p. eb_parameter e = Some p \<longrightarrow> p \<noteq> [] \<and> CHR ''!'' \<notin> set p)"

text \<open>
  The parser reads an extended ban back from its IRC form, for every ban
  whose type is one character, whose user has no \<open>@\<close> and whose parameter, if
  there is one, is not empty and has no exclamation mark.
\<close>

theorem extban_roundtrip:
  "extban_wf e \<Longrightarrow> extban_parse (extban_display e) = Some e"
proof -
  assume wf: "extban_wf e"
  then have t: "one_char (eb_type e)" and u: "CHR ''@'' \<notin> set (eb_user e)" by (simp_all add: extban_wf_def)
  note chars = utf8_chars_one [OF t] concat_utf8_chars
  show ?thesis
  proof (cases "eb_parameter e")
    case None
    have "extban_display e = ''$'' @ eb_type e @ [] @ CHR ''!'' # eb_user e @ CHR ''@'' # eb_host e"
      by (simp add: extban_display_def None)
    with u None chars show ?thesis
      by (simp add: extban_parse_def extban_parse_with_prefix_def Let_def)
  next
    case (Some p)
    with wf have p: "p \<noteq> []" "CHR ''!'' \<notin> set ('':'' @ p)" by (simp_all add: extban_wf_def)
    have "extban_display e = ''$'' @ eb_type e @ ('':'' @ p) @ CHR ''!'' # eb_user e @ CHR ''@'' # eb_host e"
      by (simp add: extban_display_def Some)
    with u Some p chars split_once_append [OF p(2), of "eb_user e @ CHR ''@'' # eb_host e"] show ?thesis
      by (simp add: extban_parse_def extban_parse_with_prefix_def Let_def)
  qed
qed

lemma extban_roundtrip_witness:
  "extban_parse ''$a:patrick!*@*'' =
     Some \<lparr>eb_type = ''a'', eb_parameter = Some ''patrick'', eb_user = ''*'', eb_host = ''*''\<rparr>"
proof -
  let ?e = "\<lparr>eb_type = ''a'', eb_parameter = Some ''patrick'', eb_user = ''*'', eb_host = ''*''\<rparr>"
  have "extban_wf ?e" by (simp add: extban_wf_def one_char_def) code_simp
  moreover have "extban_display ?e = ''$a:patrick!*@*''" by (simp add: extban_display_def)
  ultimately show ?thesis using extban_roundtrip [of ?e] by simp
qed

end
