(* ===== verification/App_State.thy ===== *)
theory App_State
  imports Irc_Tokens "HOL-Library.Multiset" "HOL-Library.Char_ord" "HOL-Library.List_Lexorder" "HOL-Library.Product_Lexorder"
begin

text \<open>
  \<open>src/src/state/\<close>: the buffers of the client, their order, the active one,
  activity and scrollback (\<open>buffer.rs\<close>, \<open>sorting.rs\<close>, \<open>events.rs\<close>).  An
  \<open>IndexMap\<close> is an association list in insertion order: \<open>insert\<close> replaces in
  place or appends (\<open>AList.update\<close>), \<open>shift_remove\<close> keeps the order
  (\<open>AList.delete\<close>).  The argument \<open>lower\<close> is \<open>str::to_lowercase\<close>.

  A time stamp is its number of seconds.  Fields that no modelled operation
  reads or writes (log paging and log row ids, lag, the socket's address, the
  shrink worker, scripts) are left out.
\<close>

section \<open>Buffers\<close>

datatype buffer_type = Mentions | Server | Channel | Query | DccChat | Special | Shell | LogView

definition sort_group :: "buffer_type \<Rightarrow> nat" where
  "sort_group t =
     (case t of Mentions \<Rightarrow> 0 | Server \<Rightarrow> 1 | Channel \<Rightarrow> 2 | LogView \<Rightarrow> 2 | Query \<Rightarrow> 3
      | DccChat \<Rightarrow> 4 | Special \<Rightarrow> 5 | Shell \<Rightarrow> 6)"

datatype activity_level = NoActivity | Events | Highlight | Activity | Mention

definition activity_num :: "activity_level \<Rightarrow> nat" where
  "activity_num l =
     (case l of NoActivity \<Rightarrow> 0 | Events \<Rightarrow> 1 | Highlight \<Rightarrow> 2 | Activity \<Rightarrow> 3 | Mention \<Rightarrow> 4)"

lemma activity_num_inject [simp]: "activity_num a = activity_num b \<longleftrightarrow> a = b"
  by (cases a; cases b) (simp_all add: activity_num_def)

instantiation activity_level :: linorder
begin

definition less_eq_activity_level :: "activity_level \<Rightarrow> activity_level \<Rightarrow> bool" where
  "less_eq_activity_level a b \<longleftrightarrow> activity_num a \<le> activity_num b"

definition less_activity_level :: "activity_level \<Rightarrow> activity_level \<Rightarrow> bool" where
  "less_activity_level a b \<longleftrightarrow> activity_num a < activity_num b"

instance
  by intro_classes (auto simp: less_eq_activity_level_def less_activity_level_def)

end

datatype message_type = MsgMessage | MsgAction | MsgEvent | MsgNotice | MsgMentionLog

definition message_type_str :: "message_type \<Rightarrow> bytes" where
  "message_type_str t =
     (case t of MsgMessage \<Rightarrow> ''message'' | MsgAction \<Rightarrow> ''action'' | MsgEvent \<Rightarrow> ''event''
      | MsgNotice \<Rightarrow> ''notice'' | MsgMentionLog \<Rightarrow> ''mention_log'')"

record message =
  ms_id :: nat
  ms_timestamp :: i64
  ms_type :: message_type
  ms_nick :: "bytes option"
  ms_nick_mode :: "bytes option"
  ms_text :: bytes
  ms_highlight :: bool
  ms_event_key :: "bytes option"
  ms_event_params :: "bytes list option"
  ms_tags :: "(bytes, bytes) table option"

record nick_entry =
  ne_nick :: bytes
  ne_prefix :: bytes
  ne_modes :: bytes
  ne_away :: bool
  ne_account :: "bytes option"
  ne_ident :: "bytes option"
  ne_host :: "bytes option"

record list_entry =
  le_mask :: bytes
  le_set_by :: bytes
  le_set_at :: i64

record buffer =
  bf_id :: bytes
  bf_connection_id :: bytes
  bf_type :: buffer_type
  bf_name :: bytes
  bf_messages :: "message list"
  bf_activity :: activity_level
  bf_unread_count :: nat
  bf_topic :: "bytes option"
  bf_topic_set_by :: "bytes option"
  bf_users :: "(bytes, nick_entry) table"
  bf_modes :: "bytes option"
  bf_mode_params :: "(bytes, bytes) table option"
  bf_list_modes :: "(bytes, list_entry list) table"
  bf_last_speakers :: "bytes list"
  bf_peer_handle :: "bytes option"

definition last_speakers_cap :: nat where
  "last_speakers_cap = 50"

definition touch_speaker :: "(bytes \<Rightarrow> bytes) \<Rightarrow> bytes \<Rightarrow> buffer \<Rightarrow> buffer" where
  "touch_speaker lower nick b =
     b\<lparr>bf_last_speakers := take last_speakers_cap
         (nick # filter (\<lambda>n. lower n \<noteq> lower nick) (bf_last_speakers b))\<rparr>"

definition make_buffer_id :: "(bytes \<Rightarrow> bytes) \<Rightarrow> bytes \<Rightarrow> bytes \<Rightarrow> bytes" where
  "make_buffer_id lower connection_id name = connection_id @ CHR ''/'' # lower name"

section \<open>Sorting\<close>

definition default_prefix_order :: bytes where
  "default_prefix_order = ''~&@%+''"

text \<open>
  The comparison chain of \<open>sort_buffers\<close>: mentions first, then the label,
  the group and the name, is the lexicographic order of these keys; both
  sorts are stable.
\<close>

definition buffer_key ::
  "(bytes \<Rightarrow> bytes) \<Rightarrow> (bytes \<Rightarrow> bytes) \<Rightarrow> buffer \<Rightarrow> bool \<times> bytes \<times> nat \<times> bytes" where
  "buffer_key lower label b =
     (bf_type b \<noteq> Mentions, lower (label (bf_connection_id b)), sort_group (bf_type b), lower (bf_name b))"

definition sort_buffers :: "(bytes \<Rightarrow> bytes) \<Rightarrow> (bytes \<Rightarrow> bytes) \<Rightarrow> buffer list \<Rightarrow> buffer list" where
  "sort_buffers lower label bs = sort_key (buffer_key lower label) bs"

text \<open>The byte offset of the prefix's first character in the order string, its length if it is not there.\<close>

definition find_sub :: "bytes list \<Rightarrow> bytes \<Rightarrow> nat" where
  "find_sub cs c = length (concat (takeWhile (\<lambda>x. x \<noteq> c) cs))"

definition prefix_rank :: "bytes \<Rightarrow> bytes \<Rightarrow> nat" where
  "prefix_rank pfx prefix_order =
     (case utf8_chars pfx of
        [] \<Rightarrow> length prefix_order
      | c # _ \<Rightarrow> find_sub (utf8_chars prefix_order) c)"

definition sort_nicks :: "(bytes \<Rightarrow> bytes) \<Rightarrow> bytes \<Rightarrow> nick_entry list \<Rightarrow> nick_entry list" where
  "sort_nicks lower prefix_order ns =
     sort_key (\<lambda>n. (prefix_rank (ne_prefix n) prefix_order, lower (ne_nick n))) ns"

section \<open>The state\<close>

datatype connection_status = Connecting | Connected | Disconnected | ConnError

record connection =
  cn_id :: bytes
  cn_label :: bytes
  cn_status :: connection_status
  cn_nick :: bytes
  cn_user_modes :: bytes
  cn_isupport :: isupport
  cn_error :: "bytes option"
  cn_reconnect_attempts :: nat
  cn_reconnect_delay_secs :: nat
  cn_next_reconnect :: "instant option"
  cn_should_reconnect :: bool
  cn_joined_channels :: "bytes list"
  cn_enabled_caps :: "bytes list"
  cn_who_token_counter :: nat
  cn_silent_who :: "bytes list"
  cn_silent_banlist :: "bytes list"

text \<open>What is queued for the web clients; a message is queued as it is, before its conversion.\<close>

datatype nick_event_kind = NickJoin | NickPart | NickQuit | NickChange | NickModeChange | NickAwayChange

record nick_event =
  we_kind :: nick_event_kind
  we_nick :: bytes
  we_new_nick :: "bytes option"
  we_prefix :: "bytes option"
  we_modes :: "bytes option"
  we_away :: "bool option"
  we_message :: "bytes option"

datatype web_event =
    NewMessage bytes message
  | MentionAlert bytes message
  | BufferCreated buffer
  | BufferClosed bytes
  | ActivityChanged bytes nat nat
  | ActiveBufferChanged bytes
  | NickEvent bytes nick_event
  | TopicChanged bytes bytes "bytes option"
  | ConnectionStatusChanged bytes bytes bool bytes

record app_state =
  st_connections :: "(bytes, connection) table"
  st_buffers :: "(bytes, buffer) table"
  st_active :: "bytes option"
  st_previous :: "bytes option"
  st_message_counter :: nat
  st_scrollback_limit :: nat
  st_web_events :: "web_event list"
  st_suppress_event_display :: bool

definition app_state_new :: app_state where
  "app_state_new = \<lparr>st_connections = [], st_buffers = [], st_active = None, st_previous = None,
     st_message_counter = 0, st_scrollback_limit = 2000, st_web_events = [],
     st_suppress_event_display = False\<rparr>"

definition next_message_id :: "app_state \<Rightarrow> nat \<times> app_state" where
  "next_message_id s =
     (let n = (st_message_counter s + 1) mod 2 ^ 64 in (n, s\<lparr>st_message_counter := n\<rparr>))"

definition next_message :: "app_state \<Rightarrow> app_state" where
  "next_message s = snd (next_message_id s)"

definition push_web :: "web_event \<Rightarrow> app_state \<Rightarrow> app_state" where
  "push_web e s = s\<lparr>st_web_events := st_web_events s @ [e]\<rparr>"

text \<open>\<open>if let Some(buf) = self.buffers.get_mut(id)\<close>: a change of one buffer in place.\<close>

definition upd_buffer :: "bytes \<Rightarrow> (buffer \<Rightarrow> buffer) \<Rightarrow> app_state \<Rightarrow> app_state" where
  "upd_buffer bid f s =
     (case map_of (st_buffers s) bid of
        None \<Rightarrow> s
      | Some b \<Rightarrow> s\<lparr>st_buffers := AList.update bid (f b) (st_buffers s)\<rparr>)"

definition add_connection :: "connection \<Rightarrow> app_state \<Rightarrow> app_state" where
  "add_connection c s = s\<lparr>st_connections := AList.update (cn_id c) c (st_connections s)\<rparr>"

definition remove_connection :: "bytes \<Rightarrow> app_state \<Rightarrow> app_state" where
  "remove_connection bid s = s\<lparr>st_connections := AList.delete bid (st_connections s)\<rparr>"

definition update_connection_status :: "bytes \<Rightarrow> connection_status \<Rightarrow> app_state \<Rightarrow> app_state" where
  "update_connection_status bid st s =
     (case map_of (st_connections s) bid of
        None \<Rightarrow> s
      | Some c \<Rightarrow> s\<lparr>st_connections := AList.update bid (c\<lparr>cn_status := st\<rparr>) (st_connections s)\<rparr>)"

definition add_buffer :: "buffer \<Rightarrow> app_state \<Rightarrow> app_state" where
  "add_buffer b s =
     push_web (BufferCreated b) (s\<lparr>st_buffers := AList.update (bf_id b) b (st_buffers s)\<rparr>)"

definition connection_label :: "app_state \<Rightarrow> bytes \<Rightarrow> bytes" where
  "connection_label s conn_id =
     (case map_of (st_connections s) conn_id of None \<Rightarrow> conn_id | Some c \<Rightarrow> cn_label c)"

definition sorted_buffer_ids :: "(bytes \<Rightarrow> bytes) \<Rightarrow> app_state \<Rightarrow> bytes list" where
  "sorted_buffer_ids lower s =
     map bf_id (sort_buffers lower (connection_label s) (map snd (st_buffers s)))"

text \<open>
  Closing a buffer; the flood counters of the buffer, which are reset too, are
  the state of the flood component (\<open>Flood.remove_buffer\<close>).
\<close>

definition close_buffer :: "(bytes \<Rightarrow> bytes) \<Rightarrow> bytes \<Rightarrow> app_state \<Rightarrow> app_state" where
  "close_buffer lower bid s =
     (if map_of (st_buffers s) bid = None then s
      else
        let s1 = (push_web (BufferClosed bid) s)\<lparr>st_buffers := AList.delete bid (st_buffers s)\<rparr> in
        if st_active s = Some bid then
          (case st_previous s of
             Some prev \<Rightarrow>
               if map_of (st_buffers s1) prev \<noteq> None then s1\<lparr>st_active := Some prev, st_previous := None\<rparr>
               else s1\<lparr>st_active := (case sorted_buffer_ids lower s1 of [] \<Rightarrow> None | x # _ \<Rightarrow> Some x),
                       st_previous := None\<rparr>
           | None \<Rightarrow> s1\<lparr>st_active := (case sorted_buffer_ids lower s1 of [] \<Rightarrow> None | x # _ \<Rightarrow> Some x),
                       st_previous := None\<rparr>)
        else s1)"

definition set_active_buffer :: "bytes \<Rightarrow> app_state \<Rightarrow> app_state" where
  "set_active_buffer bid s =
     (if map_of (st_buffers s) bid = None then s
      else
        let changed = st_active s \<noteq> Some bid;
            s1 = (if changed then s\<lparr>st_previous := st_active s\<rparr> else s);
            s2 = upd_buffer bid (\<lambda>b. b\<lparr>bf_activity := NoActivity, bf_unread_count := 0\<rparr>)
                   (s1\<lparr>st_active := Some bid\<rparr>)
        in if changed then push_web (ActiveBufferChanged bid) s2 else s2)"

section \<open>Messages\<close>

definition enforce_scrollback :: "nat \<Rightarrow> buffer \<Rightarrow> buffer" where
  "enforce_scrollback limit b =
     (if 0 < limit \<and> limit < length (bf_messages b) then
        b\<lparr>bf_messages := drop (length (bf_messages b) - limit) (bf_messages b)\<rparr>
      else b)"

definition track_speaker :: "(bytes \<Rightarrow> bytes) \<Rightarrow> message \<Rightarrow> buffer \<Rightarrow> buffer" where
  "track_speaker lower m b =
     (case ms_nick m of
        None \<Rightarrow> b
      | Some nick \<Rightarrow>
          if ms_type m = MsgMessage \<or> ms_type m = MsgAction \<or> ms_type m = MsgNotice
          then touch_speaker lower nick b else b)"

definition push_message :: "(bytes \<Rightarrow> bytes) \<Rightarrow> nat \<Rightarrow> message \<Rightarrow> buffer \<Rightarrow> buffer" where
  "push_message lower limit m b =
     (let b1 = track_speaker lower m b
      in enforce_scrollback limit (b1\<lparr>bf_messages := bf_messages b1 @ [m]\<rparr>))"

text \<open>\<open>buf.unread_count += 1\<close> on a \<open>u32\<close> of a release build.\<close>

definition bump :: "nat \<Rightarrow> nat" where
  "bump n = (n + 1) mod 2 ^ 32"

definition alert_web :: "bytes \<Rightarrow> message \<Rightarrow> app_state \<Rightarrow> app_state" where
  "alert_web bid m s =
     push_web (NewMessage bid m) (if ms_highlight m then push_web (MentionAlert bid m) s else s)"

text \<open>Both functions also hand the message to the log writer, which is I/O.\<close>

definition add_message_unshrunk :: "(bytes \<Rightarrow> bytes) \<Rightarrow> bytes \<Rightarrow> message \<Rightarrow> app_state \<Rightarrow> app_state" where
  "add_message_unshrunk lower bid m s =
     (if map_of (st_buffers s) bid = None then s
      else upd_buffer bid (push_message lower (st_scrollback_limit s) m) (alert_web bid m s))"

text \<open>
  With the URL shortener off, \<open>add_message\<close> only adds the gate that hides
  event lines a script has suppressed.
\<close>

definition add_message :: "(bytes \<Rightarrow> bytes) \<Rightarrow> bytes \<Rightarrow> message \<Rightarrow> app_state \<Rightarrow> app_state" where
  "add_message lower bid m s =
     (if st_suppress_event_display s \<and> ms_type m = MsgEvent then s else add_message_unshrunk lower bid m s)"

definition add_message_with_activity_unshrunk ::
  "(bytes \<Rightarrow> bytes) \<Rightarrow> bytes \<Rightarrow> message \<Rightarrow> activity_level \<Rightarrow> app_state \<Rightarrow> app_state" where
  "add_message_with_activity_unshrunk lower bid m level s =
     (case map_of (st_buffers s) bid of
        None \<Rightarrow> s
      | Some b \<Rightarrow>
          let s1 = alert_web bid m s; b1 = push_message lower (st_scrollback_limit s) m b in
          if st_active s \<noteq> Some bid \<and> bf_activity b1 < level then
            push_web (ActivityChanged bid (activity_num level) (bump (bf_unread_count b1)))
              (s1\<lparr>st_buffers := AList.update bid
                 (b1\<lparr>bf_activity := level, bf_unread_count := bump (bf_unread_count b1)\<rparr>) (st_buffers s1)\<rparr>)
          else s1\<lparr>st_buffers := AList.update bid b1 (st_buffers s1)\<rparr>)"

definition add_local_message :: "bytes \<Rightarrow> message \<Rightarrow> app_state \<Rightarrow> app_state" where
  "add_local_message bid m s =
     upd_buffer bid (\<lambda>b. enforce_scrollback (st_scrollback_limit s) (b\<lparr>bf_messages := bf_messages b @ [m]\<rparr>))
       (push_web (NewMessage bid m) s)"

definition mentions_id :: bytes where
  "mentions_id = ''_mentions''"

definition add_mention_to_buffer :: "message \<Rightarrow> app_state \<Rightarrow> app_state" where
  "add_mention_to_buffer m s =
     (case map_of (st_buffers s) mentions_id of
        None \<Rightarrow> s
      | Some b \<Rightarrow>
          let s1 = push_web (NewMessage mentions_id m) s;
              msgs = bf_messages b @ [m];
              b1 = b\<lparr>bf_messages := (if 1000 < length msgs then drop (length msgs - 1000) msgs else msgs)\<rparr>
          in if st_active s \<noteq> Some mentions_id then
               push_web (ActivityChanged mentions_id (activity_num Mention) (bump (bf_unread_count b1)))
                 (s1\<lparr>st_buffers := AList.update mentions_id
                    (b1\<lparr>bf_activity := Mention, bf_unread_count := bump (bf_unread_count b1)\<rparr>) (st_buffers s1)\<rparr>)
             else s1\<lparr>st_buffers := AList.update mentions_id b1 (st_buffers s1)\<rparr>)"

definition set_activity :: "bytes \<Rightarrow> activity_level \<Rightarrow> app_state \<Rightarrow> app_state" where
  "set_activity bid level s =
     upd_buffer bid (\<lambda>b. if bf_activity b < level then b\<lparr>bf_activity := level\<rparr> else b) s"

section \<open>Topics, nicks, navigation\<close>

definition set_topic :: "bytes \<Rightarrow> bytes \<Rightarrow> bytes option \<Rightarrow> app_state \<Rightarrow> app_state" where
  "set_topic bid topic set_by s =
     upd_buffer bid (\<lambda>b. b\<lparr>bf_topic := Some topic, bf_topic_set_by := set_by\<rparr>) s"

definition add_nick :: "(bytes \<Rightarrow> bytes) \<Rightarrow> bytes \<Rightarrow> nick_entry \<Rightarrow> app_state \<Rightarrow> app_state" where
  "add_nick lower bid e s =
     upd_buffer bid (\<lambda>b. b\<lparr>bf_users := AList.update (lower (ne_nick e)) e (bf_users b)\<rparr>) s"

definition remove_nick :: "(bytes \<Rightarrow> bytes) \<Rightarrow> bytes \<Rightarrow> bytes \<Rightarrow> app_state \<Rightarrow> app_state" where
  "remove_nick lower bid nick s =
     upd_buffer bid (\<lambda>b. b\<lparr>bf_users := AList.delete (lower nick) (bf_users b)\<rparr>) s"

definition rename_user :: "(bytes \<Rightarrow> bytes) \<Rightarrow> bytes \<Rightarrow> bytes \<Rightarrow> buffer \<Rightarrow> buffer" where
  "rename_user lower old_nick new_nick b =
     (case map_of (bf_users b) (lower old_nick) of
        None \<Rightarrow> b
      | Some e \<Rightarrow> b\<lparr>bf_users := AList.update (lower new_nick) (e\<lparr>ne_nick := new_nick\<rparr>)
                      (AList.delete (lower old_nick) (bf_users b))\<rparr>)"

definition update_nick :: "(bytes \<Rightarrow> bytes) \<Rightarrow> bytes \<Rightarrow> bytes \<Rightarrow> bytes \<Rightarrow> app_state \<Rightarrow> app_state" where
  "update_nick lower bid old_nick new_nick s = upd_buffer bid (rename_user lower old_nick new_nick) s"

definition active_buffer :: "app_state \<Rightarrow> buffer option" where
  "active_buffer s = (case st_active s of None \<Rightarrow> None | Some bid \<Rightarrow> map_of (st_buffers s) bid)"

definition nick_prefix :: "(bytes \<Rightarrow> bytes) \<Rightarrow> app_state \<Rightarrow> bytes \<Rightarrow> bytes \<Rightarrow> bytes option" where
  "nick_prefix lower s bid nick =
     (case map_of (st_buffers s) bid of
        None \<Rightarrow> None
      | Some b \<Rightarrow>
          (case map_of (bf_users b) (lower nick) of
             None \<Rightarrow> None
           | Some e \<Rightarrow> (case utf8_chars (ne_prefix e) of [] \<Rightarrow> None | c # _ \<Rightarrow> Some c)))"

text \<open>\<open>sorted.iter().position(..)\<close>.\<close>

fun position_of :: "bytes \<Rightarrow> bytes list \<Rightarrow> nat option" where
  "position_of x [] = None"
| "position_of x (y # ys) = (if x = y then Some 0 else map_option Suc (position_of x ys))"

definition active_index :: "bytes list \<Rightarrow> app_state \<Rightarrow> nat option" where
  "active_index sorted_ids s =
     (case st_active s of None \<Rightarrow> None | Some bid \<Rightarrow> position_of bid sorted_ids)"

definition next_buffer :: "(bytes \<Rightarrow> bytes) \<Rightarrow> app_state \<Rightarrow> app_state" where
  "next_buffer lower s =
     (let ids = sorted_buffer_ids lower s in
      if ids = [] then s
      else set_active_buffer
        (ids ! (case active_index ids s of None \<Rightarrow> 0 | Some i \<Rightarrow> (i + 1) mod length ids)) s)"

definition prev_buffer :: "(bytes \<Rightarrow> bytes) \<Rightarrow> app_state \<Rightarrow> app_state" where
  "prev_buffer lower s =
     (let ids = sorted_buffer_ids lower s in
      if ids = [] then s
      else set_active_buffer
        (ids ! (case active_index ids s of
                  None \<Rightarrow> 0
                | Some i \<Rightarrow> if i = 0 then length ids - 1 else i - 1)) s)"

section \<open>What every operation keeps\<close>

text \<open>A buffer's bounds, and the state's: keys are the ids, the active buffer exists.\<close>

definition buffer_bound :: "nat \<Rightarrow> buffer \<Rightarrow> nat" where
  "buffer_bound limit b = (if bf_id b = mentions_id then max 1000 limit else limit)"

definition buffer_ok :: "(bytes \<Rightarrow> bytes) \<Rightarrow> nat \<Rightarrow> buffer \<Rightarrow> bool" where
  "buffer_ok lower limit b \<longleftrightarrow>
     (0 < limit \<longrightarrow> length (bf_messages b) \<le> buffer_bound limit b) \<and>
     length (bf_last_speakers b) \<le> last_speakers_cap \<and>
     distinct (map lower (bf_last_speakers b)) \<and>
     (bf_id b \<noteq> mentions_id \<longrightarrow> bf_unread_count b \<le> activity_num (bf_activity b))"

definition state_ok :: "(bytes \<Rightarrow> bytes) \<Rightarrow> app_state \<Rightarrow> bool" where
  "state_ok lower s \<longleftrightarrow>
     distinct (map fst (st_buffers s)) \<and>
     (\<forall>k b. map_of (st_buffers s) k = Some b \<longrightarrow>
        k = bf_id b \<and> buffer_ok lower (st_scrollback_limit s) b) \<and>
     (\<forall>k. st_active s = Some k \<longrightarrow> map_of (st_buffers s) k \<noteq> None)"

definition fresh_buffer :: "buffer \<Rightarrow> bool" where
  "fresh_buffer b \<longleftrightarrow> bf_messages b = [] \<and> bf_last_speakers b = [] \<and> bf_unread_count b = 0"

inductive ui_step :: "(bytes \<Rightarrow> bytes) \<Rightarrow> app_state \<Rightarrow> app_state \<Rightarrow> bool" for lower where
  "fresh_buffer b \<Longrightarrow> ui_step lower s (add_buffer b s)"
| "ui_step lower s (close_buffer lower k s)"
| "ui_step lower s (set_active_buffer k s)"
| "ui_step lower s (next_buffer lower s)"
| "ui_step lower s (prev_buffer lower s)"
| "ui_step lower s (add_message_unshrunk lower k m s)"
| "ui_step lower s (add_message lower k m s)"
| "ui_step lower s (next_message s)"
| "ui_step lower s (add_message_with_activity_unshrunk lower k m l s)"
| "ui_step lower s (add_local_message k m s)"
| "ui_step lower s (add_mention_to_buffer m s)"
| "ui_step lower s (set_activity k l s)"
| "ui_step lower s (set_topic k t by s)"
| "ui_step lower s (add_nick lower k e s)"
| "ui_step lower s (remove_nick lower k n s)"
| "ui_step lower s (update_nick lower k n n' s)"
| "ui_step lower s (add_connection c s)"
| "ui_step lower s (remove_connection k s)"
| "ui_step lower s (update_connection_status k st s)"

inductive ui_reachable :: "(bytes \<Rightarrow> bytes) \<Rightarrow> app_state \<Rightarrow> bool" for lower where
  init: "ui_reachable lower (app_state_new\<lparr>st_scrollback_limit := n\<rparr>)"
| step: "ui_reachable lower s \<Longrightarrow> ui_step lower s s' \<Longrightarrow> ui_reachable lower s'"

named_theorems ui_ok "preservation of the invariants of buffers and of the state"

declare map_of_eq_Some_iff [simp del]

lemma state_okI:
  assumes "state_ok lower s" "st_buffers s' = st_buffers s" "st_scrollback_limit s' = st_scrollback_limit s"
    "st_active s' = st_active s"
  shows "state_ok lower s'"
  using assms by (simp add: state_ok_def)

lemma push_web_ok [ui_ok]: "state_ok lower s \<Longrightarrow> state_ok lower (push_web e s)"
  by (erule state_okI) (simp_all add: push_web_def)

lemma put_buffer_ok:
  assumes "state_ok lower s" "map_of (st_buffers s) k = Some b" "bf_id b' = bf_id b"
    "buffer_ok lower (st_scrollback_limit s) b'"
  shows "state_ok lower (s\<lparr>st_buffers := AList.update k b' (st_buffers s)\<rparr>)"
  using assms by (auto simp: state_ok_def update_conv' distinct_update)

lemma upd_buffer_ok:
  assumes "state_ok lower s" "\<And>b. bf_id (f b) = bf_id b"
    "\<And>b. buffer_ok lower (st_scrollback_limit s) b \<Longrightarrow> buffer_ok lower (st_scrollback_limit s) (f b)"
  shows "state_ok lower (upd_buffer k f s)"
proof (cases "map_of (st_buffers s) k")
  case (Some b)
  then have "buffer_ok lower (st_scrollback_limit s) b" using assms(1) by (simp add: state_ok_def)
  then show ?thesis using Some put_buffer_ok [OF assms(1) Some assms(2)] assms(3) by (simp add: upd_buffer_def)
qed (use assms(1) in \<open>simp add: upd_buffer_def\<close>)

lemma touch_speaker_ok [ui_ok]:
  assumes "buffer_ok lower limit b"
  shows "buffer_ok lower limit (touch_speaker lower nick b)"
proof -
  let ?xs = "nick # filter (\<lambda>n. lower n \<noteq> lower nick) (bf_last_speakers b)"
  have "distinct (map lower ?xs)"
    using assms by (auto simp: buffer_ok_def distinct_map inj_on_def)
  then have "distinct (map lower (take last_speakers_cap ?xs))" by (simp only: take_map [symmetric] distinct_take)
  then show ?thesis using assms
    by (simp add: buffer_ok_def touch_speaker_def buffer_bound_def del: take_Suc_Cons)
qed

lemma touch_speaker_keeps [simp]:
  "bf_id (touch_speaker lower nick b) = bf_id b"
  "bf_messages (touch_speaker lower nick b) = bf_messages b"
  "bf_activity (touch_speaker lower nick b) = bf_activity b"
  "bf_unread_count (touch_speaker lower nick b) = bf_unread_count b"
  by (simp_all add: touch_speaker_def)

lemma track_speaker_keeps [simp]:
  "bf_id (track_speaker lower m b) = bf_id b"
  "bf_messages (track_speaker lower m b) = bf_messages b"
  "bf_activity (track_speaker lower m b) = bf_activity b"
  "bf_unread_count (track_speaker lower m b) = bf_unread_count b"
  by (simp_all add: track_speaker_def split: option.split)

lemma track_speaker_ok [ui_ok]:
  "buffer_ok lower limit b \<Longrightarrow> buffer_ok lower limit (track_speaker lower m b)"
  by (simp add: track_speaker_def ui_ok split: option.split)

lemma push_message_keeps [simp]:
  "bf_id (push_message lower limit m b) = bf_id b"
  "bf_activity (push_message lower limit m b) = bf_activity b"
  "bf_unread_count (push_message lower limit m b) = bf_unread_count b"
  by (simp_all add: push_message_def enforce_scrollback_def Let_def)

lemma append_ok:
  "buffer_ok lower limit b \<Longrightarrow> buffer_ok lower limit (enforce_scrollback limit (b\<lparr>bf_messages := ms\<rparr>))"
  by (auto simp: buffer_ok_def enforce_scrollback_def buffer_bound_def)

lemma push_message_ok [ui_ok]:
  "buffer_ok lower limit b \<Longrightarrow> buffer_ok lower limit (push_message lower limit m b)"
  by (simp add: push_message_def Let_def append_ok ui_ok)

lemma alert_web_keeps [simp]:
  "st_buffers (alert_web k m s) = st_buffers s"
  "st_active (alert_web k m s) = st_active s"
  "st_scrollback_limit (alert_web k m s) = st_scrollback_limit s"
  by (simp_all add: alert_web_def push_web_def)

lemma alert_web_ok [ui_ok]: "state_ok lower s \<Longrightarrow> state_ok lower (alert_web k m s)"
  by (erule state_okI) simp_all

lemma buffer_okD: "state_ok lower s \<Longrightarrow> map_of (st_buffers s) k = Some b \<Longrightarrow>
    bf_id b = k \<and> buffer_ok lower (st_scrollback_limit s) b"
  by (auto simp: state_ok_def)

lemma escalate_ok:
  assumes "buffer_ok lower limit b" "bf_activity b < l"
  shows "buffer_ok lower limit (b\<lparr>bf_activity := l, bf_unread_count := bump (bf_unread_count b)\<rparr>)"
proof -
  have "activity_num (bf_activity b) < activity_num l" using assms(2) by (simp add: less_activity_level_def)
  moreover have "bump (bf_unread_count b) \<le> bf_unread_count b + 1" by (simp add: bump_def)
  ultimately show ?thesis using assms(1) by (auto simp: buffer_ok_def buffer_bound_def)
qed

lemma add_message_with_activity_ok:
  assumes "state_ok lower s"
  shows "state_ok lower (add_message_with_activity_unshrunk lower k m l s)"
proof (cases "map_of (st_buffers s) k")
  case (Some b)
  let ?b = "push_message lower (st_scrollback_limit s) m b"
  let ?a = "alert_web k m s"
  have b: "map_of (st_buffers ?a) k = Some b" "state_ok lower ?a" using Some assms by (simp_all add: ui_ok)
  have ok: "buffer_ok lower (st_scrollback_limit ?a) ?b" using buffer_okD [OF assms Some] by (simp add: ui_ok)
  note put = put_buffer_ok [OF b(2,1)]
  show ?thesis
    using Some put [of ?b] put [OF _ escalate_ok [OF ok]] ok
    by (auto simp: add_message_with_activity_unshrunk_def Let_def intro!: push_web_ok)
qed (use assms in \<open>simp add: add_message_with_activity_unshrunk_def\<close>)

lemma add_mention_ok:
  assumes "state_ok lower s"
  shows "state_ok lower (add_mention_to_buffer m s)"
proof (cases "map_of (st_buffers s) mentions_id")
  case (Some b)
  let ?s = "push_web (NewMessage mentions_id m) s"
  have b: "map_of (st_buffers ?s) mentions_id = Some b" "state_ok lower ?s"
    using Some assms by (simp_all add: push_web_def ui_ok [unfolded push_web_def])
  have ok: "buffer_ok lower (st_scrollback_limit ?s) b" "bf_id b = mentions_id"
    using buffer_okD [OF b(2,1)] by auto
  note put = put_buffer_ok [OF b(2,1)]
  show ?thesis unfolding add_mention_to_buffer_def Some Let_def option.case
    by (split if_split, intro conjI impI push_web_ok)
       (rule put; use ok in \<open>auto simp: buffer_ok_def buffer_bound_def\<close>)+
qed (use assms in \<open>simp add: add_mention_to_buffer_def\<close>)

lemma set_active_ok:
  assumes "state_ok lower s"
  shows "state_ok lower (set_active_buffer k s)"
proof (cases "map_of (st_buffers s) k")
  case (Some b)
  have act: "state_ok lower (t\<lparr>st_active := Some k\<rparr>)" if "state_ok lower t" "st_buffers t = st_buffers s" for t
    using that Some by (simp add: state_ok_def)
  have prev: "state_ok lower (s\<lparr>st_previous := st_active s\<rparr>)" by (rule state_okI [OF assms]) simp_all
  have "state_ok lower (upd_buffer k (\<lambda>b. b\<lparr>bf_activity := NoActivity, bf_unread_count := 0\<rparr>)
          ((if c then s\<lparr>st_previous := st_active s\<rparr> else s)\<lparr>st_active := Some k\<rparr>))" for c
    by (rule upd_buffer_ok [OF act]) (use prev assms in \<open>auto simp: buffer_ok_def buffer_bound_def\<close>)
  from this [of True] this [of False] show ?thesis
    using Some by (simp add: set_active_buffer_def Let_def push_web_ok)
qed (use assms in \<open>simp add: set_active_buffer_def\<close>)

lemma set_sorted_buffer_ids:
  "set (sorted_buffer_ids lower s) = bf_id ` snd ` set (st_buffers s)"
  by (simp add: sorted_buffer_ids_def sort_buffers_def)

lemma sorted_ids_active:
  "sorted_buffer_ids lower (s\<lparr>st_active := a, st_previous := p\<rparr>) = sorted_buffer_ids lower s"
  by (simp add: sorted_buffer_ids_def connection_label_def [abs_def])

lemma sorted_id_present:
  assumes "state_ok lower s" "x \<in> set (sorted_buffer_ids lower s)"
  shows "map_of (st_buffers s) x \<noteq> None"
proof -
  obtain k b where "(k, b) \<in> set (st_buffers s)" "x = bf_id b"
    using assms(2) by (auto simp: set_sorted_buffer_ids)
  then have "map_of (st_buffers s) k = Some b" using assms(1) by (simp add: state_ok_def map_of_eq_Some_iff)
  then show ?thesis using assms(1) \<open>x = bf_id b\<close> by (auto simp: state_ok_def)
qed

lemma state_ok_active:
  "state_ok lower s \<Longrightarrow> (\<And>k. a = Some k \<Longrightarrow> map_of (st_buffers s) k \<noteq> None) \<Longrightarrow>
   state_ok lower (s\<lparr>st_active := a, st_previous := p\<rparr>)"
  by (simp add: state_ok_def)

lemma close_buffer_ok:
  assumes "state_ok lower s"
  shows "state_ok lower (close_buffer lower k s)"
proof -
  let ?t = "(push_web (BufferClosed k) s)\<lparr>st_buffers := AList.delete k (st_buffers s)\<rparr>"
  have look: "map_of (st_buffers ?t) x = (if x = k then None else map_of (st_buffers s) x)" for x
    by (simp add: delete_conv')
  have t: "state_ok lower (?t\<lparr>st_active := None, st_previous := p\<rparr>)" for p
    using assms unfolding state_ok_def by (auto simp: delete_conv' distinct_delete push_web_def split: if_splits)
  have a: "state_ok lower (?t\<lparr>st_active := a, st_previous := p\<rparr>)"
    if "\<And>x. a = Some x \<Longrightarrow> map_of (st_buffers ?t) x \<noteq> None" for a p
    using state_ok_active [OF t [of p], of a p] that by simp
  have first: "map_of (st_buffers ?t) x \<noteq> None" if "sorted_buffer_ids lower ?t = x # xs" for x xs
  proof -
    have "x \<in> set (sorted_buffer_ids lower (?t\<lparr>st_active := None, st_previous := None\<rparr>))"
      unfolding sorted_ids_active that by simp
    from sorted_id_present [OF t this] show ?thesis by simp
  qed
  show ?thesis
  proof (cases "st_active s = Some k")
    case True
    have "state_ok lower (?t\<lparr>st_active := (case sorted_buffer_ids lower ?t of [] \<Rightarrow> None | x # _ \<Rightarrow> Some x),
            st_previous := None\<rparr>)"
      by (rule a) (use first in \<open>auto split: list.splits\<close>)
    moreover have "state_ok lower (?t\<lparr>st_active := Some x, st_previous := None\<rparr>)"
      if "map_of (st_buffers ?t) x \<noteq> None" for x
      by (rule a) (use that in simp)
    ultimately show ?thesis using True assms
      by (auto simp: close_buffer_def Let_def push_web_def split: option.split)
  next
    case False
    have "state_ok lower (?t\<lparr>st_active := st_active s, st_previous := st_previous s\<rparr>)"
      by (rule a) (use False assms in \<open>auto simp: state_ok_def delete_conv' split: if_splits\<close>)
    then show ?thesis using False assms by (simp add: close_buffer_def Let_def push_web_def)
  qed
qed

lemma add_buffer_ok:
  assumes "state_ok lower s" "fresh_buffer b"
  shows "state_ok lower (add_buffer b s)"
proof -
  have "state_ok lower (s\<lparr>st_buffers := AList.update (bf_id b) b (st_buffers s)\<rparr>)"
    using assms unfolding state_ok_def
    by (auto simp: update_conv' distinct_update fresh_buffer_def buffer_ok_def)
  then show ?thesis by (simp add: add_buffer_def push_web_ok)
qed

lemma plain_updates_ok [ui_ok]:
  assumes "state_ok lower s"
  shows "state_ok lower (set_activity k l s)" "state_ok lower (set_topic k t set_by s)"
    "state_ok lower (add_nick lower k e s)" "state_ok lower (remove_nick lower k n s)"
    "state_ok lower (update_nick lower k n n' s)"
  unfolding set_activity_def set_topic_def add_nick_def remove_nick_def update_nick_def
  by (rule upd_buffer_ok [OF assms];
      auto simp: buffer_ok_def buffer_bound_def rename_user_def less_activity_level_def split: option.splits)+

lemma connections_ok [ui_ok]:
  assumes "state_ok lower s"
  shows "state_ok lower (add_connection c s)" "state_ok lower (remove_connection k s)"
    "state_ok lower (update_connection_status k st s)"
  by (rule state_okI [OF assms];
      simp add: add_connection_def remove_connection_def update_connection_status_def split: option.split)+

lemma local_message_ok [ui_ok]:
  assumes "state_ok lower s"
  shows "state_ok lower (add_local_message k m s)"
proof -
  have limit: "st_scrollback_limit (push_web e s) = st_scrollback_limit s" for e by (simp add: push_web_def)
  have "state_ok lower (push_web (NewMessage k m) s)" by (rule push_web_ok [OF assms])
  then show ?thesis unfolding add_local_message_def
    by (rule upd_buffer_ok) (simp_all only: limit append_ok, simp add: enforce_scrollback_def)
qed

lemma navigation_ok [ui_ok]:
  assumes "state_ok lower s"
  shows "state_ok lower (next_buffer lower s)" "state_ok lower (prev_buffer lower s)"
  using assms by (simp_all add: next_buffer_def prev_buffer_def Let_def set_active_ok)

lemma add_message_unshrunk_ok [ui_ok]:
  assumes "state_ok lower s"
  shows "state_ok lower (add_message_unshrunk lower k m s)"
proof -
  have "state_ok lower (upd_buffer k (push_message lower (st_scrollback_limit s) m) (alert_web k m s))"
    by (rule upd_buffer_ok [OF alert_web_ok [OF assms]]) (simp_all add: ui_ok)
  then show ?thesis using assms by (simp add: add_message_unshrunk_def)
qed

lemma add_message_ok [ui_ok]: "state_ok lower s \<Longrightarrow> state_ok lower (add_message lower k m s)"
  by (simp add: add_message_def ui_ok)

lemma next_message_ok [ui_ok]: "state_ok lower s \<Longrightarrow> state_ok lower (next_message s)"
  by (erule state_okI) (simp_all add: next_message_def next_message_id_def Let_def)

lemmas ui_step_ok = ui_ok add_buffer_ok close_buffer_ok set_active_ok add_message_with_activity_ok add_mention_ok

lemma ui_step_keeps: "ui_step lower s s' \<Longrightarrow> state_ok lower s \<Longrightarrow> state_ok lower s'"
  by (induction rule: ui_step.induct) (simp_all add: ui_step_ok)

lemma ui_reachable_ok: "ui_reachable lower s \<Longrightarrow> state_ok lower s"
proof (induction rule: ui_reachable.induct)
  case (init n)
  show ?case by (simp add: state_ok_def app_state_new_def)
qed (erule ui_step_keeps)

section \<open>Navigation\<close>

lemma sort_key_map_same:
  assumes "\<And>x. k (f x) = k x"
  shows "sort_key k (map f xs) = map f (sort_key k xs)"
proof -
  have ins: "insort_key k (f x) (map f ys) = map f (insort_key k x ys)" for x ys
    by (induction ys) (simp_all add: assms)
  show ?thesis by (induction xs) (simp_all add: ins)
qed

text \<open>Making a buffer active changes neither the buffers' ids nor their order.\<close>

lemma update_same_key:
  assumes "distinct (map fst t)" "map_of t k = Some b"
  shows "AList.update k (f b) t = map (\<lambda>(x, y). (x, if x = k then f y else y)) t"
  using assms
proof (induction t)
  case (Cons p t)
  obtain x y where p: "p = (x, y)" by (cases p)
  show ?case
  proof (cases "x = k")
    case True
    then have "map (\<lambda>(x, y). (x, if x = k then f y else y)) t = t"
      using Cons.prems(1) p by (intro map_idI) (force split: prod.split)
    then show ?thesis using True Cons.prems p by simp
  next
    case False
    then show ?thesis using Cons p by simp
  qed
qed simp

lemma sorted_ids_set_active:
  assumes "state_ok lower s"
  shows "sorted_buffer_ids lower (set_active_buffer k s) = sorted_buffer_ids lower s"
proof (cases "map_of (st_buffers s) k")
  case (Some b)
  define f where "f = (\<lambda>b::buffer. if bf_id b = k then b\<lparr>bf_activity := NoActivity, bf_unread_count := 0\<rparr> else b)"
  have ids: "(x, y) \<in> set (st_buffers s) \<Longrightarrow> bf_id y = x" for x y
    using assms by (auto simp: state_ok_def map_of_eq_Some_iff)
  have "st_buffers (set_active_buffer k s) =
      AList.update k (b\<lparr>bf_activity := NoActivity, bf_unread_count := 0\<rparr>) (st_buffers s)"
    using Some by (simp add: set_active_buffer_def upd_buffer_def push_web_def Let_def)
  also have "\<dots> = map (\<lambda>(x, y). (x, f y)) (st_buffers s)"
    using assms Some ids
    by (subst update_same_key [where f = "\<lambda>b. b\<lparr>bf_activity := NoActivity, bf_unread_count := 0\<rparr>"])
       (auto simp: state_ok_def f_def)
  finally have bufs: "map snd (st_buffers (set_active_buffer k s)) = map f (map snd (st_buffers s))"
    by (simp add: comp_def case_prod_beta)
  have conn: "connection_label (set_active_buffer k s) = connection_label s"
    using Some by (simp add: fun_eq_iff connection_label_def set_active_buffer_def upd_buffer_def push_web_def Let_def)
  have f: "bf_id (f x) = bf_id x" "buffer_key lower l (f x) = buffer_key lower l x" for x l
    by (simp_all add: f_def buffer_key_def)
  show ?thesis
    unfolding sorted_buffer_ids_def sort_buffers_def conn bufs sort_key_map_same [of "buffer_key _ _" f, OF f(2)]
    by (simp add: f(1))
qed (simp add: set_active_buffer_def)

lemma distinct_sorted_ids:
  assumes "state_ok lower s"
  shows "distinct (sorted_buffer_ids lower s)"
proof -
  have "map bf_id (map snd (st_buffers s)) = map fst (st_buffers s)"
    using assms by (auto simp: state_ok_def map_of_eq_Some_iff intro!: map_cong)
  then have distinct: "distinct (map bf_id (map snd (st_buffers s)))"
    using assms unfolding state_ok_def by metis
  have "mset (sorted_buffer_ids lower s) = mset (map bf_id (map snd (st_buffers s)))"
    by (simp add: sorted_buffer_ids_def sort_buffers_def multiset.map_comp)
  then show ?thesis using distinct by (rule mset_eq_imp_distinct_iff [THEN iffD2])
qed

lemma position_of_nth: "distinct xs \<Longrightarrow> i < length xs \<Longrightarrow> position_of (xs ! i) xs = Some i"
  by (induction xs arbitrary: i) (auto simp: nth_Cons' less_Suc_eq_0_disj)

lemma set_active_id [simp]:
  "map_of (st_buffers s) k \<noteq> None \<Longrightarrow> st_active (set_active_buffer k s) = Some k"
  by (auto simp: set_active_buffer_def upd_buffer_def push_web_def Let_def split: option.splits)

lemma navigation_step:
  assumes "state_ok lower s" "ids = sorted_buffer_ids lower s" "i < length ids" "st_active s = Some (ids ! i)"
  shows "st_active (next_buffer lower s) = Some (ids ! ((i + 1) mod length ids))"
    "st_active (prev_buffer lower s) = Some (ids ! ((i + (length ids - 1)) mod length ids))"
    "sorted_buffer_ids lower (next_buffer lower s) = ids"
proof -
  have idx: "active_index ids s = Some i"
    using assms distinct_sorted_ids [OF assms(1)] by (simp add: active_index_def position_of_nth)
  have ne: "ids \<noteq> []" using assms(3) by auto
  have there: "map_of (st_buffers s) (ids ! j) \<noteq> None" if "j < length ids" for j
    using sorted_id_present [OF assms(1)] assms(2) that by simp
  have nth: "st_active (set_active_buffer (ids ! j) s) = Some (ids ! j)" if "j < length ids" for j
    by (rule set_active_id [OF there [OF that]])
  have pred: "(i + (length ids - 1)) mod length ids = (if i = 0 then length ids - 1 else i - 1)"
  proof (cases i)
    case (Suc j)
    then have "i + (length ids - 1) = j + length ids" using assms(3) by simp
    then show ?thesis using Suc assms(3) by simp
  qed (use assms(3) in simp)
  show "st_active (next_buffer lower s) = Some (ids ! ((i + 1) mod length ids))"
    using idx ne nth by (simp add: next_buffer_def assms(2) [symmetric])
  show "st_active (prev_buffer lower s) = Some (ids ! ((i + (length ids - 1)) mod length ids))"
    unfolding pred using idx ne nth assms(3) by (simp add: prev_buffer_def assms(2) [symmetric])
  show "sorted_buffer_ids lower (next_buffer lower s) = ids"
    by (simp add: next_buffer_def Let_def assms(2) sorted_ids_set_active [OF assms(1)])
qed

lemma next_buffers:
  assumes "state_ok lower s" "ids = sorted_buffer_ids lower s" "i < length ids" "st_active s = Some (ids ! i)"
  shows "st_active ((next_buffer lower ^^ k) s) = Some (ids ! ((i + k) mod length ids)) \<and>
    state_ok lower ((next_buffer lower ^^ k) s) \<and> sorted_buffer_ids lower ((next_buffer lower ^^ k) s) = ids"
proof (induction k)
  case (Suc k)
  let ?s = "(next_buffer lower ^^ k) s"
  have "(i + k) mod length ids < length ids" by (rule mod_less_divisor) (use assms(3) in linarith)
  then show ?case
    using navigation_step [of lower ?s ids "(i + k) mod length ids"] Suc
    by (simp add: mod_Suc_eq navigation_ok)
qed (use assms in simp)

section \<open>Properties\<close>

text \<open>C27: whatever sequence of operations the interface runs, each buffer is stored under its own
  id, the active buffer exists, no buffer outgrows its scrollback, and the list of recent speakers
  has no two spellings of one nick and at most fifty entries.\<close>

theorem state_invariant:
  assumes "ui_reachable lower s"
  shows "state_ok lower s"
  by (rule ui_reachable_ok [OF assms])

text \<open>In every reachable state, going to the next buffer k times from the i-th buffer of the
  sorted list activates the one at i + k (mod the number of buffers), and going back once undoes
  one step.\<close>

theorem buffer_cycle:
  assumes "ui_reachable lower s" "ids = sorted_buffer_ids lower s" "i < length ids"
    "st_active s = Some (ids ! i)"
  shows "st_active ((next_buffer lower ^^ k) s) = Some (ids ! ((i + k) mod length ids)) \<and>
    st_active (prev_buffer lower (next_buffer lower s)) = st_active s"
proof -
  note ok = ui_reachable_ok [OF assms(1)]
  have one: "st_active (next_buffer lower s) = Some (ids ! ((i + 1) mod length ids))"
    "state_ok lower (next_buffer lower s)" "sorted_buffer_ids lower (next_buffer lower s) = ids"
    using next_buffers [OF ok assms(2-), of 1] by simp_all
  have "((i + 1) mod length ids + (length ids - 1)) mod length ids = i"
  proof (cases "Suc i = length ids")
    case False
    then have "(i + 1) mod length ids + (length ids - 1) = i + length ids" using assms(3) by simp
    then show ?thesis using assms(3) by simp
  qed simp
  then have "st_active (prev_buffer lower (next_buffer lower s)) = Some (ids ! i)"
    using navigation_step(2) [OF one(2) one(3) [symmetric] mod_less_divisor one(1)] assms(3) by (cases ids) simp_all
  then show ?thesis using next_buffers [OF ok assms(2-), of k] assms(4) by simp
qed

text \<open>The unread counter of a buffer other than the mentions buffer never exceeds four, whatever
  arrives: it counts the escalations of the activity level, not the messages.\<close>

theorem unread_bounded:
  assumes "ui_reachable lower s" "map_of (st_buffers s) k = Some b" "k \<noteq> mentions_id"
  shows "bf_unread_count b \<le> 4"
proof -
  have "bf_unread_count b \<le> activity_num (bf_activity b)"
    using buffer_okD [OF ui_reachable_ok [OF assms(1)] assms(2)] assms(3) by (simp add: buffer_ok_def)
  then show ?thesis by (simp add: activity_num_def split: activity_level.splits)
qed

lemma push_message_messages:
  "bf_messages (push_message lower limit m b) =
     (if 0 < limit then drop (length (bf_messages b) + 1 - limit) (bf_messages b @ [m]) else bf_messages b @ [m])"
  by (auto simp: push_message_def enforce_scrollback_def Let_def)

lemma add_message_lookup:
  "map_of (st_buffers s) k = Some b \<Longrightarrow>
   map_of (st_buffers (add_message_unshrunk lower k m s)) k = Some (push_message lower (st_scrollback_limit s) m b) \<and>
   st_scrollback_limit (add_message_unshrunk lower k m s) = st_scrollback_limit s"
  by (simp add: add_message_unshrunk_def upd_buffer_def update_conv')

text \<open>After any number of messages a buffer holds exactly the newest ones: the suffix, of the
  scrollback limit's length, of what it held followed by the messages in order; with limit 0, all.\<close>

theorem scrollback_window:
  assumes "map_of (st_buffers s) k = Some b" "n = st_scrollback_limit s" "n = 0 \<or> length (bf_messages b) \<le> n"
  shows "\<exists>b'. map_of (st_buffers (fold (add_message_unshrunk lower k) ms s)) k = Some b' \<and>
    bf_messages b' = (if 0 < n then drop (length (bf_messages b @ ms) - n) (bf_messages b @ ms) else bf_messages b @ ms)"
  using assms
proof (induction ms arbitrary: s b)
  case (Cons m ms)
  let ?b = "push_message lower n m b"
  have step: "map_of (st_buffers (add_message_unshrunk lower k m s)) k = Some ?b"
    "n = st_scrollback_limit (add_message_unshrunk lower k m s)"
    using add_message_lookup [OF Cons.prems(1)] Cons.prems(2) by simp_all
  have "n = 0 \<or> length (bf_messages ?b) \<le> n" by (auto simp: push_message_messages)
  from Cons.IH [OF step this] obtain b' where b':
    "map_of (st_buffers (fold (add_message_unshrunk lower k) (m # ms) s)) k = Some b'"
    "bf_messages b' = (if 0 < n then drop (length (bf_messages ?b @ ms) - n) (bf_messages ?b @ ms) else bf_messages ?b @ ms)"
    by auto
  have "bf_messages b' = (if 0 < n then drop (length (bf_messages b @ m # ms) - n) (bf_messages b @ m # ms)
        else bf_messages b @ m # ms)"
    unfolding b'(2) push_message_messages using Cons.prems(3)
    by (cases "length (bf_messages b) = n") auto
  then show ?case using b'(1) by blast
qed auto

section \<open>A session\<close>

definition example_buffer :: "bytes \<Rightarrow> buffer_type \<Rightarrow> buffer" where
  "example_buffer name t = \<lparr>bf_id = make_buffer_id (\<lambda>x. x) ''n'' name, bf_connection_id = ''n'',
     bf_type = t, bf_name = name, bf_messages = [], bf_activity = NoActivity, bf_unread_count = 0,
     bf_topic = None, bf_topic_set_by = None, bf_users = [], bf_modes = None,
     bf_mode_params = None, bf_list_modes = [], bf_last_speakers = [], bf_peer_handle = None\<rparr>"

definition example_message :: "bytes \<Rightarrow> message" where
  "example_message nick = \<lparr>ms_id = 1, ms_timestamp = 0, ms_type = MsgMessage, ms_nick = Some nick,
     ms_nick_mode = None, ms_text = ''hi'', ms_highlight = False, ms_event_key = None, ms_event_params = None,
     ms_tags = None\<rparr>"

definition example_open :: app_state where
  "example_open = set_active_buffer ''n/a''
     (add_buffer (example_buffer ''b'' Channel) (add_buffer (example_buffer ''a'' Channel)
       (app_state_new\<lparr>st_scrollback_limit := 2\<rparr>)))"

definition example_state :: app_state where
  "example_state =
     add_message_with_activity_unshrunk (\<lambda>x. x) ''n/b'' (example_message ''bob'') Activity example_open"

lemma example_state_reachable: "ui_reachable (\<lambda>x. x) example_state"
  unfolding example_state_def example_open_def
  by (rule ui_reachable.step [OF _ ui_step.intros(9)], rule ui_reachable.step [OF _ ui_step.intros(3)],
      rule ui_reachable.step [OF _ ui_step.intros(1)], rule ui_reachable.step [OF _ ui_step.intros(1)],
      rule ui_reachable.init) (simp_all add: fresh_buffer_def example_buffer_def)

lemma example_buffer_fields [simp]:
  "bf_id (example_buffer n t) = ''n/'' @ n" "bf_connection_id (example_buffer n t) = ''n''"
  "bf_type (example_buffer n t) = t" "bf_name (example_buffer n t) = n"
  "bf_messages (example_buffer n t) = []" "bf_activity (example_buffer n t) = NoActivity"
  "bf_unread_count (example_buffer n t) = 0" "bf_last_speakers (example_buffer n t) = []"
  by (simp_all add: example_buffer_def make_buffer_id_def)

lemma example_open_evaluated:
  "example_open = \<lparr>st_connections = [],
     st_buffers = [(''n/a'', (example_buffer ''a'' Channel)\<lparr>bf_activity := NoActivity, bf_unread_count := 0\<rparr>),
       (''n/b'', example_buffer ''b'' Channel)],
     st_active = Some ''n/a'', st_previous = None, st_message_counter = 0, st_scrollback_limit = 2,
     st_web_events = [BufferCreated (example_buffer ''a'' Channel), BufferCreated (example_buffer ''b'' Channel),
       ActiveBufferChanged ''n/a''], st_suppress_event_display = False\<rparr>"
proof -
  have "add_buffer (example_buffer ''b'' Channel) (add_buffer (example_buffer ''a'' Channel)
      (app_state_new\<lparr>st_scrollback_limit := 2\<rparr>)) =
    \<lparr>st_connections = [], st_buffers = [(''n/a'', example_buffer ''a'' Channel), (''n/b'', example_buffer ''b'' Channel)],
     st_active = None, st_previous = None, st_message_counter = 0, st_scrollback_limit = 2,
     st_web_events = [BufferCreated (example_buffer ''a'' Channel), BufferCreated (example_buffer ''b'' Channel)],
     st_suppress_event_display = False\<rparr>"
    by (simp add: add_buffer_def push_web_def app_state_new_def)
  then show ?thesis by (simp add: example_open_def set_active_buffer_def upd_buffer_def push_web_def)
qed

lemma example_state_evaluated:
  "st_active example_state = Some ''n/a''" "st_scrollback_limit example_state = 2"
  "st_connections example_state = []"
  "st_buffers example_state =
     [(''n/a'', (example_buffer ''a'' Channel)\<lparr>bf_activity := NoActivity, bf_unread_count := 0\<rparr>),
      (''n/b'', (example_buffer ''b'' Channel)\<lparr>bf_messages := [example_message ''bob''],
         bf_activity := Activity, bf_unread_count := 1, bf_last_speakers := [''bob'']\<rparr>)]"
  by (simp_all add: example_state_def example_open_evaluated add_message_with_activity_unshrunk_def Let_def
      push_message_def track_speaker_def touch_speaker_def enforce_scrollback_def bump_def
      less_activity_level_def activity_num_def alert_web_def push_web_def example_message_def last_speakers_cap_def)

lemma example_state_ids: "sorted_buffer_ids (\<lambda>x. x) example_state = [''n/a'', ''n/b'']"
  by (simp add: sorted_buffer_ids_def sort_buffers_def buffer_key_def connection_label_def
      example_state_evaluated sort_group_def less_char_def)

lemma state_invariant_witness: "state_ok (\<lambda>x. x) example_state"
  by (rule state_invariant [OF example_state_reachable])

lemma buffer_cycle_witness:
  "st_active ((next_buffer (\<lambda>x. x) ^^ 3) example_state) = Some ''n/b'' \<and>
   st_active (prev_buffer (\<lambda>x. x) (next_buffer (\<lambda>x. x) example_state)) = Some ''n/a''"
  using buffer_cycle [OF example_state_reachable example_state_ids [symmetric], of 0 3] example_state_evaluated
  by (simp add: numeral_2_eq_2 [symmetric])

lemma unread_bounded_witness:
  "\<exists>b. map_of (st_buffers example_state) ''n/b'' = Some b \<and> bf_unread_count b = 1 \<and> bf_unread_count b \<le> 4"
  using unread_bounded [OF example_state_reachable, of "''n/b''"]
  by (simp add: example_state_evaluated mentions_id_def)

lemma scrollback_window_witness:
  "\<exists>b'. map_of (st_buffers (fold (add_message_unshrunk (\<lambda>x. x) ''n/b'')
        [example_message ''ann'', example_message ''cat''] example_state)) ''n/b'' = Some b' \<and>
     bf_messages b' = [example_message ''ann'', example_message ''cat'']"
  using scrollback_window [of example_state "''n/b''" _ 2 "\<lambda>x. x" "[example_message ''ann'', example_message ''cat'']"]
  by (simp add: example_state_evaluated example_buffer_def)

end
