(* ===== verification/Flood.thy ===== *)
theory Flood
  imports Limiter
begin

text \<open>
  \<open>src/src/irc/flood.rs\<close>: the antiflood checks of one connection.  A check
  takes the time of the event and the state, and returns what to do with the
  event and the new state.  \<open>hash_text\<close> uses the standard library's default
  hasher, whose algorithm is not specified: it is the argument \<open>hash\<close>.
\<close>

section \<open>Results, constants, state\<close>

datatype flood_result = Allow | Triggered | Blocked

definition suppressed :: "flood_result \<Rightarrow> bool" where
  "suppressed r \<longleftrightarrow> r = Triggered \<or> r = Blocked"

definition ctcp_threshold :: nat where "ctcp_threshold = 5"
definition ctcp_window :: nat where "ctcp_window = secs 5"
definition ctcp_block :: nat where "ctcp_block = secs 60"
definition tilde_nick_threshold :: nat where "tilde_nick_threshold = 5"
definition tilde_nick_window :: nat where "tilde_nick_window = secs 5"
definition tilde_nick_block :: nat where "tilde_nick_block = secs 60"
definition pm_storm_threshold :: nat where "pm_storm_threshold = 6"
definition pm_storm_window :: nat where "pm_storm_window = secs 5"
definition pm_storm_block :: nat where "pm_storm_block = secs 60"
definition dup_min_in_window :: nat where "dup_min_in_window = 5"
definition dup_threshold :: nat where "dup_threshold = 3"
definition dup_window :: nat where "dup_window = secs 5"
definition dup_block :: nat where "dup_block = secs 60"
definition nick_threshold :: nat where "nick_threshold = 5"
definition nick_window :: nat where "nick_window = secs 3"
definition nick_block :: nat where "nick_block = secs 60"

record flood_state =
  fs_ctcp_times :: "instant list"
  fs_ctcp_blocked_until :: "instant option"
  fs_tilde_nick_times :: "(u64, instant list) table"
  fs_tilde_nick_blocked :: "(u64, instant) table"
  fs_pm_storm_nicks :: "(u64 \<times> instant) list"
  fs_pm_storm_blocked_until :: "instant option"
  fs_msg_window :: "(u64 \<times> instant) list"
  fs_blocked_texts :: "(u64, instant) table"
  fs_nick_times :: "(bytes, instant list) table"
  fs_nick_blocked_until :: "(bytes, instant) table"

definition flood_state_new :: flood_state where
  "flood_state_new = \<lparr>fs_ctcp_times = [], fs_ctcp_blocked_until = None, fs_tilde_nick_times = [],
     fs_tilde_nick_blocked = [], fs_pm_storm_nicks = [], fs_pm_storm_blocked_until = None,
     fs_msg_window = [], fs_blocked_texts = [], fs_nick_times = [], fs_nick_blocked_until = []\<rparr>"

section \<open>Helpers\<close>

text \<open>The remaining times; the function's result is their number.\<close>

definition prune_window :: "instant list \<Rightarrow> instant \<Rightarrow> nat \<Rightarrow> instant list" where
  "prune_window ts now window = dropWhile (\<lambda>t. t < instant_back now window) ts"

fun unique_seen :: "(u64 \<times> instant) list \<Rightarrow> u64 list \<Rightarrow> u64 list" where
  "unique_seen [] seen = seen"
| "unique_seen ((h, t) # rest) seen =
     unique_seen rest (if List.member seen h then seen else seen @ [h])"

definition unique_count :: "(u64 \<times> instant) list \<Rightarrow> nat" where
  "unique_count entries = length (unique_seen entries [])"

definition entry_or_default :: "('k, 'v list) table \<Rightarrow> 'k \<Rightarrow> 'v list" where
  "entry_or_default t k = (case map_of t k of None \<Rightarrow> [] | Some v \<Rightarrow> v)"

text \<open>The periodic cleanup of a map of times: prune every entry, drop the empty ones.\<close>

definition retain_times :: "instant \<Rightarrow> ('k, instant list) table \<Rightarrow> ('k, instant list) table" where
  "retain_times cutoff t =
     filter (\<lambda>(_, v). v \<noteq> []) (map (\<lambda>(k, v). (k, filter (\<lambda>x. cutoff \<le> x) v)) t)"

definition retain_until :: "instant \<Rightarrow> ('k, instant) table \<Rightarrow> ('k, instant) table" where
  "retain_until now t = filter (\<lambda>(_, u). now < u) t"

section \<open>The checks\<close>

text \<open>In each check, the part after the test for an existing block is a definition of its own.\<close>

definition ctcp_count :: "instant \<Rightarrow> flood_state \<Rightarrow> flood_result \<times> flood_state" where
  "ctcp_count now s =
     (let ts = prune_window (fs_ctcp_times s @ [now]) now ctcp_window
      in if ctcp_threshold \<le> length ts then
           (Triggered, s\<lparr>fs_ctcp_blocked_until := Some (now + ctcp_block), fs_ctcp_times := []\<rparr>)
         else (Allow, s\<lparr>fs_ctcp_times := ts\<rparr>))"

definition check_ctcp_flood :: "instant \<Rightarrow> flood_state \<Rightarrow> flood_result \<times> flood_state" where
  "check_ctcp_flood now s =
     (case fs_ctcp_blocked_until s of
        Some until \<Rightarrow>
          if now < until then (Blocked, s\<lparr>fs_ctcp_blocked_until := Some (now + ctcp_block)\<rparr>)
          else ctcp_count now (s\<lparr>fs_ctcp_blocked_until := None\<rparr>)
      | None \<Rightarrow> ctcp_count now s)"

definition tilde_nick_count :: "u64 \<Rightarrow> instant \<Rightarrow> flood_state \<Rightarrow> flood_result \<times> flood_state" where
  "tilde_nick_count h now s =
     (let ts = prune_window (entry_or_default (fs_tilde_nick_times s) h @ [now]) now tilde_nick_window
      in if tilde_nick_threshold \<le> length ts then
           (Triggered, s\<lparr>
              fs_tilde_nick_blocked := AList.update h (now + tilde_nick_block) (fs_tilde_nick_blocked s),
              fs_tilde_nick_times := AList.update h [] (fs_tilde_nick_times s)\<rparr>)
         else
           let table = AList.update h ts (fs_tilde_nick_times s) in
           (Allow,
            if 200 < length table then
              s\<lparr>fs_tilde_nick_times := retain_times (instant_back now tilde_nick_window) table,
                fs_tilde_nick_blocked := retain_until now (fs_tilde_nick_blocked s)\<rparr>
            else s\<lparr>fs_tilde_nick_times := table\<rparr>))"

definition check_tilde_nick_flood ::
  "(bytes \<Rightarrow> u64) \<Rightarrow> bytes \<Rightarrow> instant \<Rightarrow> flood_state \<Rightarrow> flood_result \<times> flood_state" where
  "check_tilde_nick_flood hash nick now s =
     (let h = hash nick in
      case map_of (fs_tilde_nick_blocked s) h of
        Some until \<Rightarrow>
          if now < until then
            (Blocked, s\<lparr>fs_tilde_nick_blocked := AList.update h (now + tilde_nick_block) (fs_tilde_nick_blocked s)\<rparr>)
          else tilde_nick_count h now (s\<lparr>fs_tilde_nick_blocked := AList.delete h (fs_tilde_nick_blocked s)\<rparr>)
      | None \<Rightarrow> tilde_nick_count h now s)"

definition pm_storm_count :: "u64 \<Rightarrow> instant \<Rightarrow> flood_state \<Rightarrow> flood_result \<times> flood_state" where
  "pm_storm_count h now s =
     (let cutoff = instant_back now pm_storm_window;
          nicks = filter (\<lambda>(_, t). cutoff \<le> t) (fs_pm_storm_nicks s @ [(h, now)])
      in if pm_storm_threshold \<le> unique_count nicks then
           (Triggered, s\<lparr>fs_pm_storm_blocked_until := Some (now + pm_storm_block), fs_pm_storm_nicks := []\<rparr>)
         else (Allow, s\<lparr>fs_pm_storm_nicks := nicks\<rparr>))"

definition check_pm_tilde_storm ::
  "(bytes \<Rightarrow> u64) \<Rightarrow> bytes \<Rightarrow> instant \<Rightarrow> flood_state \<Rightarrow> flood_result \<times> flood_state" where
  "check_pm_tilde_storm hash nick now s =
     (case fs_pm_storm_blocked_until s of
        Some until \<Rightarrow>
          if now < until then (Blocked, s\<lparr>fs_pm_storm_blocked_until := Some (now + pm_storm_block)\<rparr>)
          else pm_storm_count (hash nick) now (s\<lparr>fs_pm_storm_blocked_until := None\<rparr>)
      | None \<Rightarrow> pm_storm_count (hash nick) now s)"

definition duplicate_count :: "u64 \<Rightarrow> instant \<Rightarrow> flood_state \<Rightarrow> flood_result \<times> flood_state" where
  "duplicate_count h now s =
     (let cutoff = instant_back now dup_window;
          window = filter (\<lambda>(_, t). cutoff \<le> t) (fs_msg_window s @ [(h, now)]);
          s1 = s\<lparr>fs_msg_window := window\<rparr>
      in if dup_min_in_window \<le> length window \<and>
            dup_threshold \<le> length (filter (\<lambda>(x, _). x = h) window) then
           (Triggered, s1\<lparr>fs_blocked_texts := AList.update h (now + dup_block) (fs_blocked_texts s)\<rparr>)
         else
           (Allow,
            if 50 < length (fs_blocked_texts s) then
              s1\<lparr>fs_blocked_texts := retain_until now (fs_blocked_texts s)\<rparr>
            else s1))"

definition check_duplicate_flood ::
  "(bytes \<Rightarrow> u64) \<Rightarrow> bytes \<Rightarrow> bool \<Rightarrow> instant \<Rightarrow> flood_state \<Rightarrow> flood_result \<times> flood_state" where
  "check_duplicate_flood hash text is_channel now s =
     (if \<not> is_channel \<or> text = [] then (Allow, s)
      else
        let h = hash text in
        (case map_of (fs_blocked_texts s) h of
           Some until \<Rightarrow>
             if now < until then
               (Blocked, s\<lparr>fs_blocked_texts := AList.update h (now + dup_block) (fs_blocked_texts s)\<rparr>)
             else duplicate_count h now s
         | None \<Rightarrow> duplicate_count h now s))"

definition nick_flood_count :: "bytes \<Rightarrow> instant \<Rightarrow> flood_state \<Rightarrow> bool \<times> flood_state" where
  "nick_flood_count buffer_id now s =
     (let ts = prune_window (entry_or_default (fs_nick_times s) buffer_id @ [now]) now nick_window
      in if nick_threshold \<le> length ts then
           (True, s\<lparr>
              fs_nick_blocked_until := AList.update buffer_id (now + nick_block) (fs_nick_blocked_until s),
              fs_nick_times := AList.update buffer_id [] (fs_nick_times s)\<rparr>)
         else
           let table = AList.update buffer_id ts (fs_nick_times s) in
           (False,
            if 200 < length table then
              s\<lparr>fs_nick_times := retain_times (instant_back now nick_window) table,
                fs_nick_blocked_until := retain_until now (fs_nick_blocked_until s)\<rparr>
            else s\<lparr>fs_nick_times := table\<rparr>))"

definition should_suppress_nick_flood :: "bytes \<Rightarrow> instant \<Rightarrow> flood_state \<Rightarrow> bool \<times> flood_state" where
  "should_suppress_nick_flood buffer_id now s =
     (case map_of (fs_nick_blocked_until s) buffer_id of
        Some until \<Rightarrow>
          if now < until then
            (True, s\<lparr>fs_nick_blocked_until :=
               AList.update buffer_id (now + nick_block) (fs_nick_blocked_until s)\<rparr>)
          else nick_flood_count buffer_id now
            (s\<lparr>fs_nick_blocked_until := AList.delete buffer_id (fs_nick_blocked_until s)\<rparr>)
      | None \<Rightarrow> nick_flood_count buffer_id now s)"

definition remove_buffer :: "bytes \<Rightarrow> flood_state \<Rightarrow> flood_state" where
  "remove_buffer buffer_id s =
     s\<lparr>fs_nick_times := AList.delete buffer_id (fs_nick_times s),
       fs_nick_blocked_until := AList.delete buffer_id (fs_nick_blocked_until s)\<rparr>"

section \<open>The keyed checks share one contract\<close>

text \<open>
  The checks of nicks and of buffers do the same with their two maps; what a
  key is, the window, the threshold and the length of the block differ.
\<close>

type_synonym 'k windows = "('k, instant list) table \<times> ('k, instant) table"

fun keyed_count :: "nat \<Rightarrow> nat \<Rightarrow> nat \<Rightarrow> 'k \<Rightarrow> instant \<Rightarrow> 'k windows \<Rightarrow> flood_result \<times> 'k windows" where
  "keyed_count W thr blk k now (T, B) =
     (let ts = prune_window (entry_or_default T k @ [now]) now W
      in if thr \<le> length ts then (Triggered, AList.update k [] T, AList.update k (now + blk) B)
         else let T' = AList.update k ts T in
           (Allow, if 200 < length T' then (retain_times (instant_back now W) T', retain_until now B)
                   else (T', B)))"

fun keyed_step :: "nat \<Rightarrow> nat \<Rightarrow> nat \<Rightarrow> 'k \<Rightarrow> instant \<Rightarrow> 'k windows \<Rightarrow> flood_result \<times> 'k windows" where
  "keyed_step W thr blk k now (T, B) =
     (case map_of B k of
        Some until \<Rightarrow> if now < until then (Blocked, T, AList.update k (now + blk) B)
          else keyed_count W thr blk k now (T, AList.delete k B)
      | None \<Rightarrow> keyed_count W thr blk k now (T, B))"

lemma tilde_sim:
  "check_tilde_nick_flood hash nick now s =
     (case keyed_step tilde_nick_window tilde_nick_threshold tilde_nick_block (hash nick) now
        (fs_tilde_nick_times s, fs_tilde_nick_blocked s) of
      (r, T, B) \<Rightarrow> (r, s\<lparr>fs_tilde_nick_times := T, fs_tilde_nick_blocked := B\<rparr>))"
  by (simp add: check_tilde_nick_flood_def tilde_nick_count_def Let_def split: option.split)

lemma nick_flood_sim:
  "should_suppress_nick_flood b now s =
     (case keyed_step nick_window nick_threshold nick_block b now (fs_nick_times s, fs_nick_blocked_until s) of
      (r, T, B) \<Rightarrow> (suppressed r, s\<lparr>fs_nick_times := T, fs_nick_blocked_until := B\<rparr>))"
  by (simp add: should_suppress_nick_flood_def nick_flood_count_def Let_def suppressed_def split: option.split)

fun keyed_inv :: "'k windows \<Rightarrow> instant \<Rightarrow> bool" where
  "keyed_inv (T, B) now \<longleftrightarrow> distinct (map fst T) \<and> distinct (map fst B) \<and>
     (\<forall>k. sorted (entry_or_default T k) \<and> (\<forall>t\<in>set (entry_or_default T k). t \<le> now) \<and>
        (map_of B k \<noteq> None \<longrightarrow> entry_or_default T k = []))"

lemma entry_update [simp]:
  "entry_or_default (AList.update k v T) k' = (if k' = k then v else entry_or_default T k')"
  by (simp add: entry_or_default_def update_conv')

lemma entry_retain [simp]:
  "distinct (map fst T) \<Longrightarrow>
   entry_or_default (retain_times c T) k = filter (\<lambda>x. c \<le> x) (entry_or_default T k)"
  by (simp add: entry_or_default_def retain_times_def map_of_retain map_of_map_values split: option.split)

lemma until_retain [simp]:
  "distinct (map fst B) \<Longrightarrow> map_of (retain_until now B) k =
     (case map_of B k of None \<Rightarrow> None | Some u \<Rightarrow> if now < u then Some u else None)"
  by (simp add: retain_until_def map_of_retain)

lemma retain_distinct [simp]:
  "distinct (map fst T) \<Longrightarrow> distinct (map fst (retain_times c T))"
  "distinct (map fst B) \<Longrightarrow> distinct (map fst (retain_until now B))"
  unfolding retain_times_def retain_until_def by (rule distinct_retain; simp)+

lemma prune_sorted:
  assumes "sorted ts" "W \<le> now"
  shows "prune_window ts now W = filter (in_window W now) ts"
  using assms(2) unfolding prune_window_def
  by (subst dropWhile_filter_sorted [OF assms(1)])
    (auto simp: instant_back_def in_window_def intro!: filter_cong)

lemma cutoff_window: "W \<le> now \<Longrightarrow> instant_back now W \<le> x \<longleftrightarrow> in_window W now x"
  by (auto simp: instant_back_def in_window_def)

text \<open>What a check of a key depends on: its block, or its times in the window.\<close>

fun key_view :: "nat \<Rightarrow> 'k windows \<Rightarrow> 'k \<Rightarrow> instant \<Rightarrow> instant + instant list" where
  "key_view W (T, B) k now =
     (case map_of B k of
        Some u \<Rightarrow> if now < u then Inl u else Inr []
      | None \<Rightarrow> Inr (filter (in_window W now) (entry_or_default T k)))"

fun view_result :: "nat \<Rightarrow> instant + instant list \<Rightarrow> flood_result" where
  "view_result thr (Inl u) = Blocked"
| "view_result thr (Inr ts) = (if thr \<le> Suc (length ts) then Triggered else Allow)"

text \<open>The view after a check at \<open>now\<close>, as seen at a later time.\<close>

definition view_next :: "nat \<Rightarrow> nat \<Rightarrow> nat \<Rightarrow> instant \<Rightarrow> instant \<Rightarrow> instant + instant list \<Rightarrow> instant + instant list" where
  "view_next W thr blk now later v =
     (if view_result thr v = Allow then Inr (filter (in_window W later) (projr v @ [now]))
      else if later < now + blk then Inl (now + blk) else Inr [])"

lemma keyed_inv_later: "keyed_inv s prev \<Longrightarrow> prev \<le> now \<Longrightarrow> keyed_inv s now"
  by (cases s) (auto intro: le_trans)

lemma window_later:
  "now \<le> later \<Longrightarrow> in_window W now x \<and> in_window W later x \<longleftrightarrow> in_window W later x"
  by (auto simp: in_window_def)

locale keyed_window =
  fixes W :: nat and thr :: nat and blk :: nat
  assumes block_longer: "W < blk" and positive: "0 < thr"
begin

abbreviation check :: "'k \<Rightarrow> instant \<Rightarrow> 'k windows \<Rightarrow> flood_result \<times> 'k windows" where
  "check \<equiv> keyed_step W thr blk"

lemma view_count:
  assumes "keyed_inv (T, B) now" "W \<le> now" "map_of B k = None"
  shows "fst (keyed_count W thr blk k now (T, B)) =
      view_result thr (Inr (filter (in_window W now) (entry_or_default T k)))"
    and "keyed_inv (snd (keyed_count W thr blk k now (T, B))) now"
    and "now \<le> later \<Longrightarrow> key_view W (snd (keyed_count W thr blk k now (T, B))) k' later =
      (if k' = k then view_next W thr blk now later (Inr (filter (in_window W now) (entry_or_default T k)))
       else key_view W (T, B) k' later)"
    and "map_of (snd (snd (keyed_count W thr blk k now (T, B)))) k =
      (if fst (keyed_count W thr blk k now (T, B)) = Allow then None else Some (now + blk))"
proof -
  have "sorted (entry_or_default T k @ [now])" using assms(1) by (simp add: sorted_append)
  then have p: "prune_window (entry_or_default T k @ [now]) now W =
      filter (in_window W now) (entry_or_default T k) @ [now]"
    using prune_sorted [OF _ assms(2)] by (simp add: in_window_def)
  note sim = p cutoff_window [OF assms(2)]
  show "fst (keyed_count W thr blk k now (T, B)) =
      view_result thr (Inr (filter (in_window W now) (entry_or_default T k)))"
    by (simp add: p Let_def)
  show "keyed_inv (snd (keyed_count W thr blk k now (T, B))) now"
    using assms(1,3) by (auto simp: sim Let_def sorted_append sorted_wrt_filter distinct_update update_conv'
        split: option.splits if_splits)
  show "key_view W (snd (keyed_count W thr blk k now (T, B))) k' later =
      (if k' = k then view_next W thr blk now later (Inr (filter (in_window W now) (entry_or_default T k)))
       else key_view W (T, B) k' later)" if "now \<le> later"
    using assms(1,3) that
    by (auto simp: sim window_later [OF that] Let_def view_next_def distinct_update update_conv' split: option.splits)
  show "map_of (snd (snd (keyed_count W thr blk k now (T, B)))) k =
      (if fst (keyed_count W thr blk k now (T, B)) = Allow then None else Some (now + blk))"
    using assms(1,3) by (simp add: Let_def update_conv' del: map_of_eq_Some_iff)
qed

lemma other_gates_count:
  assumes "distinct (map fst B)" "k' \<noteq> k"
  shows "map_of (snd (snd (keyed_count W thr blk k now (T, B)))) k' = map_of B k' \<or>
    (\<exists>u\<le>now. map_of B k' = Some u \<and> map_of (snd (snd (keyed_count W thr blk k now (T, B)))) k' = None)"
  using assms by (auto simp: Let_def update_conv' not_less intro: exI split: option.split)

lemma other_gates:
  assumes "keyed_inv s now" "k' \<noteq> k"
  shows "map_of (snd (snd (check k now s))) k' = map_of (snd s) k' \<or>
    (\<exists>u\<le>now. map_of (snd s) k' = Some u \<and> map_of (snd (snd (check k now s))) k' = None)"
proof -
  obtain T B where s: "s = (T, B)" by force
  have "distinct (map fst B)" "distinct (map fst (AList.delete k B))"
    using assms(1) by (simp_all add: s distinct_delete)
  from other_gates_count [OF this(1) assms(2), of now T] other_gates_count [OF this(2) assms(2), of now T] assms(2)
  show ?thesis
    by (simp add: s update_conv' delete_conv' del: keyed_count.simps split: option.split)
qed

text \<open>One check, in terms of the views before and after.\<close>

lemma view_step:
  assumes "keyed_inv s now" "W \<le> now"
  shows "fst (check k now s) = view_result thr (key_view W s k now)"
    and "keyed_inv (snd (check k now s)) now"
    and "now \<le> later \<Longrightarrow> key_view W (snd (check k now s)) k' later =
      (if k' = k then view_next W thr blk now later (key_view W s k now) else key_view W s k' later)"
    and "map_of (snd (snd (check k now s))) k = (if fst (check k now s) = Allow then None else Some (now + blk))"
proof -
  obtain T B where s: "s = (T, B)" by force
  have "fst (check k now s) = view_result thr (key_view W s k now) \<and>
    keyed_inv (snd (check k now s)) now \<and>
    (now \<le> later \<longrightarrow> key_view W (snd (check k now s)) k' later =
      (if k' = k then view_next W thr blk now later (key_view W s k now) else key_view W s k' later)) \<and>
    map_of (snd (snd (check k now s))) k = (if fst (check k now s) = Allow then None else Some (now + blk))"
  proof (cases "\<exists>u. map_of B k = Some u \<and> now < u")
    case True
    then obtain u where u: "map_of B k = Some u" "now < u" by blast
    then have eq: "check k now s = (Blocked, T, AList.update k (now + blk) B)"
      and view: "key_view W s k now = Inl u" by (simp_all add: s)
    have "keyed_inv (T, AList.update k (now + blk) B) now"
      using assms(1) u(1) by (simp add: s update_conv' distinct_update del: map_of_eq_Some_iff)
    moreover have "key_view W (T, AList.update k (now + blk) B) k' later =
      (if k' = k then view_next W thr blk now later (Inl u) else key_view W s k' later)"
      by (simp add: s update_conv' view_next_def)
    ultimately show ?thesis unfolding eq view by (simp add: update_conv')
  next
    case False
    let ?B = "AList.delete k B"
    have inv: "keyed_inv (T, ?B) now"
      using assms(1) by (auto simp: s delete_conv' distinct_delete)
    have none: "map_of ?B k = None" by (simp add: delete_conv')
    have eq: "check k now s = keyed_count W thr blk k now (T, ?B)"
    proof (cases "map_of B k")
      case None
      then have "?B = B" by (simp add: delete_idem map_of_eq_None_iff)
      with None show ?thesis by (simp add: s del: keyed_count.simps map_of_eq_None_iff)
    next
      case (Some u)
      with False show ?thesis by (simp add: s del: keyed_count.simps)
    qed
    have view: "key_view W s k now = Inr (filter (in_window W now) (entry_or_default T k))"
      using False assms(1) by (cases "map_of B k") (auto simp: s)
    have "key_view W (T, ?B) k' later = key_view W s k' later" if "k' \<noteq> k"
      using that by (simp add: s delete_conv')
    then show ?thesis
      unfolding eq view using view_count [OF inv assms(2) none] by simp
  qed
  then show "fst (check k now s) = view_result thr (key_view W s k now)"
    "keyed_inv (snd (check k now s)) now"
    "now \<le> later \<Longrightarrow> key_view W (snd (check k now s)) k' later =
      (if k' = k then view_next W thr blk now later (key_view W s k now) else key_view W s k' later)"
    "map_of (snd (snd (check k now s))) k = (if fst (check k now s) = Allow then None else Some (now + blk))"
    by blast+
qed

end

abbreviation keyed_allows :: "nat \<Rightarrow> nat \<Rightarrow> nat \<Rightarrow> 'k \<Rightarrow> instant \<Rightarrow> 'k windows \<Rightarrow> bool \<times> 'k windows" where
  "keyed_allows W thr blk k now s \<equiv> apfst (\<lambda>r. r = Allow) (keyed_step W thr blk k now s)"

sublocale keyed_window \<subseteq> limiter "keyed_allows W thr blk" "\<lambda>s k. map_of (snd s) k"
  "\<lambda>s k. entry_or_default (fst s) k" keyed_inv W "thr - 1" W
proof (unfold_locales, goal_cases)
  case (1 s prev now k)
  from view_step(2) [OF keyed_inv_later [OF 1(1,2)] 1(3)] show ?case by simp
next
  case (2 s prev now k u)
  from view_step(1) [OF keyed_inv_later [OF 2(1,2)] 2(3), of k] 2(4,5) show ?case by (cases s) simp
next
  case (3 s prev now k)
  note v = view_step [OF keyed_inv_later [OF 3(1,2)] 3(3)]
  have allow: "fst (check k now s) = Allow" using 3(4) by simp
  then obtain ts where ts: "key_view W s k now = Inr ts" "\<not> thr \<le> Suc (length ts)"
    using v(1) [of k] by (cases "key_view W s k now") (simp_all split: if_splits)
  have "ts = filter (in_window W now) (if map_of (snd s) k = None then entry_or_default (fst s) k else [])"
    using ts(1) by (cases s) (auto split: option.splits if_splits)
  moreover have "map_of (snd (snd (check k now s))) k = None" using v(4) [of k] allow by simp
  moreover from this have "filter (in_window W now) (entry_or_default (fst (snd (check k now s))) k) =
      filter (in_window W now) ts @ [now]"
    using v(3) [of now k k] ts allow v(1) [of k]
    by (cases "snd (check k now s)") (simp add: view_next_def)
  ultimately show ?case using ts(2) positive by auto
next
  case (4 s prev now k)
  from view_step(4) [OF keyed_inv_later [OF 4(1,2)] 4(3), of k] 4(4) block_longer show ?case by simp
next
  case (5 s prev now k' k)
  note i = keyed_inv_later [OF 5(1,2)]
  have v: "key_view W (snd (check k now s)) k' now = key_view W s k' now"
    using view_step(3) [OF i 5(3), of now k k'] 5(4) by simp
  from other_gates [OF i 5(4)] v show ?case
    by (cases s; cases "snd (check k now s)") (auto split: option.splits if_splits)
qed

context keyed_window begin

text \<open>What happens to the lines of one key does not depend on the lines of the others.\<close>

lemma isolation:
  assumes "keyed_inv s prev" "keyed_inv s' prev"
    and "\<And>later. prev \<le> later \<Longrightarrow> key_view W s (h k) later = key_view W s' (h k) later"
    and "sorted (prev # map snd evs)" "\<forall>e\<in>set evs. W \<le> snd e"
  shows "filter (\<lambda>e. h (fst e) = h k) (outcomes (\<lambda>n. check (h n)) evs s) =
    outcomes (\<lambda>n. check (h n)) (filter (\<lambda>e. h (fst e) = h k) evs) s'"
  using assms
proof (induction evs arbitrary: s s' prev)
  case (Cons e evs)
  obtain n now where e: "e = (n, now)" by force
  have le: "prev \<le> now" "W \<le> now" using Cons.prems(4,5) by (simp_all add: e)
  note v = view_step [OF keyed_inv_later [OF Cons.prems(1) le(1)] le(2)]
  note v' = view_step [OF keyed_inv_later [OF Cons.prems(2) le(1)] le(2)]
  have tl: "sorted (now # map snd evs)" "\<forall>e\<in>set evs. W \<le> snd e" using Cons.prems(4,5) by (simp_all add: e)
  have same: "key_view W s (h k) later = key_view W s' (h k) later" if "now \<le> later" for later
    using Cons.prems(3) le(1) that by simp
  show ?case
  proof (cases "h n = h k")
    case True
    have "key_view W (snd (check (h k) now s)) (h k) later = key_view W (snd (check (h k) now s')) (h k) later"
      if "now \<le> later" for later using v(3) [OF that] v'(3) [OF that] same by simp
    from Cons.IH [OF v(2) v'(2) this tl] True show ?thesis
      using v(1) [of "h k"] v'(1) [of "h k"] same by (simp add: e)
  next
    case False
    have "key_view W (snd (check (h n) now s)) (h k) later = key_view W s' (h k) later"
      if "now \<le> later" for later using v(3) [OF that] same [OF that] False by simp
    from Cons.IH [OF v(2) keyed_inv_later [OF Cons.prems(2) le(1)] this tl] False show ?thesis by (simp add: e)
  qed
qed simp

end

interpretation tilde: keyed_window tilde_nick_window tilde_nick_threshold tilde_nick_block
  by unfold_locales (simp_all add: tilde_nick_window_def tilde_nick_threshold_def tilde_nick_block_def secs_def)

interpretation nick_changes: keyed_window nick_window nick_threshold nick_block
  by unfold_locales (simp_all add: nick_window_def nick_threshold_def nick_block_def secs_def)

section \<open>The rate bounds\<close>

lemma entry_empty [simp]: "entry_or_default [] k = []"
  by (simp add: entry_or_default_def)

text \<open>
  A nick with an unverified ident gets at most four lines per five
  seconds through.  In every run of the check over lines of any nicks at
  non-decreasing times, whatever the hash collisions, each closed window of
  five seconds holds at most four lines of one nick that were allowed.
\<close>

theorem tilde_flood_bounded:
  assumes "sorted (map snd calls)" "\<forall>c\<in>set calls. secs 5 \<le> snd c"
  shows "window_count (secs 5) u (times_of nick (accepted
    (\<lambda>n now s. apfst (\<lambda>r. r = Allow) (check_tilde_nick_flood hash n now s)) calls flood_state_new)) \<le> 4"
proof -
  let ?f = "\<lambda>n now s. apfst (\<lambda>r. r = Allow) (check_tilde_nick_flood hash n now s)"
  let ?g = "keyed_allows tilde_nick_window tilde_nick_threshold tilde_nick_block"
  have "map (apfst hash) (accepted ?f calls flood_state_new) =
    accepted ?g (map (apfst hash) calls) (fs_tilde_nick_times flood_state_new, fs_tilde_nick_blocked flood_state_new)"
    by (rule accepted_sim [where p = "\<lambda>s. (fs_tilde_nick_times s, fs_tilde_nick_blocked s)"])
      (simp_all add: tilde_sim split: prod.split)
  also have "window_count tilde_nick_window u (times_of (hash nick) \<dots>) \<le> tilde_nick_threshold - 1"
    using assms by (intro tilde.window_bound_init) (auto simp: flood_state_new_def tilde_nick_window_def)
  finally show ?thesis
    using window_count_image [of "secs 5" u nick "accepted ?f calls flood_state_new" hash]
    by (simp add: tilde_nick_window_def tilde_nick_threshold_def)
qed

lemma tilde_flood_bounded_witness:
  "window_count (secs 5) (secs 6) (times_of ''~a'' (accepted
    (\<lambda>n now s. apfst (\<lambda>r. r = Allow) (check_tilde_nick_flood (\<lambda>s. of_nat (length s)) n now s))
    [(''~a'', secs 6), (''~b'', secs 7), (''~a'', secs 8)] flood_state_new)) \<le> 4"
  by (rule tilde_flood_bounded) (simp_all add: secs_def)

text \<open>
  The tilde limit blocks only the nick that floods.  If no other nick of
  a run collides with its hash, the answers for the lines of a nick are those
  it would have got had nobody else spoken.
\<close>

theorem tilde_flood_isolated:
  assumes "sorted (map snd calls)" "\<forall>c\<in>set calls. secs 5 \<le> snd c"
    and "\<forall>c\<in>set calls. hash (fst c) = hash nick \<longrightarrow> fst c = nick"
  shows "filter (\<lambda>(n, r). n = nick) (outcomes (check_tilde_nick_flood hash) calls flood_state_new) =
    outcomes (check_tilde_nick_flood hash) (filter (\<lambda>(n, t). n = nick) calls) flood_state_new"
proof -
  let ?g = "keyed_step tilde_nick_window tilde_nick_threshold tilde_nick_block"
  have sim: "outcomes (check_tilde_nick_flood hash) evs flood_state_new =
      outcomes (\<lambda>n. ?g (hash n)) evs ([], [])" for evs
    by (subst outcomes_sim [where p = "\<lambda>s. (fs_tilde_nick_times s, fs_tilde_nick_blocked s)"
          and g = "\<lambda>n. ?g (hash n)"]) (simp_all add: tilde_sim flood_state_new_def split: prod.split)
  have keys: "fst ` set (outcomes f evs s) = fst ` set evs" for f :: "bytes \<Rightarrow> instant \<Rightarrow> 's \<Rightarrow> 'r \<times> 's" and evs s
    by (induction f evs s rule: outcomes.induct) simp_all
  have by_hash: "filter (\<lambda>(n, x). n = nick) l = filter (\<lambda>e. hash (fst e) = hash nick) l"
    if "fst ` set l \<subseteq> fst ` set calls" for l :: "(bytes \<times> 'x) list"
  proof (rule filter_cong [OF refl])
    fix e assume "e \<in> set l"
    then have "fst e \<in> fst ` set calls" using that by blast
    then obtain c where "c \<in> set calls" "fst e = fst c" by auto
    then show "(case e of (n, x) \<Rightarrow> n = nick) = (hash (fst e) = hash nick)"
      using assms(3) by (cases e) auto
  qed
  show ?thesis
    using tilde.isolation [of "([], [])" 0 "([], [])" hash nick calls] assms(1,2)
    by (simp add: sim by_hash keys tilde_nick_window_def)
qed

lemma tilde_flood_isolated_witness:
  "filter (\<lambda>(n, r). n = ''~a'') (outcomes (check_tilde_nick_flood (\<lambda>s. if s = ''~a'' then 1 else 2))
      [(''~a'', secs 6), (''~b'', secs 7), (''~a'', secs 8)] flood_state_new) =
    outcomes (check_tilde_nick_flood (\<lambda>s. if s = ''~a'' then 1 else 2))
      (filter (\<lambda>(n, t). n = ''~a'') [(''~a'', secs 6), (''~b'', secs 7), (''~a'', secs 8)]) flood_state_new"
  by (rule tilde_flood_isolated) (simp_all add: secs_def)

text \<open>
  Nick changes of a buffer are shown at most four times per three
  seconds.  In every run over any buffers at non-decreasing times, a closed
  window of three seconds holds at most four changes that are not suppressed.
\<close>

theorem nick_flood_bounded:
  assumes "sorted (map snd calls)" "\<forall>c\<in>set calls. secs 3 \<le> snd c"
  shows "window_count (secs 3) u (times_of buffer (accepted
    (\<lambda>b now s. apfst Not (should_suppress_nick_flood b now s)) calls flood_state_new)) \<le> 4"
proof -
  let ?f = "\<lambda>b now s. apfst Not (should_suppress_nick_flood b now s)"
  let ?g = "keyed_allows nick_window nick_threshold nick_block"
  have "\<not> suppressed r \<longleftrightarrow> r = Allow" for r by (cases r) (simp_all add: suppressed_def)
  then have "map (apfst id) (accepted ?f calls flood_state_new) =
    accepted ?g (map (apfst id) calls) (fs_nick_times flood_state_new, fs_nick_blocked_until flood_state_new)"
    by (intro accepted_sim [where p = "\<lambda>s. (fs_nick_times s, fs_nick_blocked_until s)"])
      (simp_all add: nick_flood_sim split: prod.split)
  also have "window_count nick_window u (times_of buffer \<dots>) \<le> nick_threshold - 1"
    using assms by (intro nick_changes.window_bound_init) (auto simp: flood_state_new_def nick_window_def)
  finally show ?thesis
    using window_count_image [of "secs 3" u buffer "accepted ?f calls flood_state_new" id]
    by (simp add: nick_window_def nick_threshold_def)
qed

lemma nick_flood_bounded_witness:
  "window_count (secs 3) (secs 3) (times_of ''b'' (accepted
    (\<lambda>b now s. apfst Not (should_suppress_nick_flood b now s))
    [(''b'', secs 3), (''b'', secs 4), (''c'', secs 4)] flood_state_new)) \<le> 4"
  by (rule nick_flood_bounded) (simp_all add: secs_def)

interpretation ctcp: limiter "\<lambda>(k :: unit) now s. apfst (\<lambda>r. r = Allow) (check_ctcp_flood now s)"
  "\<lambda>s k. fs_ctcp_blocked_until s" "\<lambda>s k. fs_ctcp_times s"
  "\<lambda>s now. sorted (fs_ctcp_times s) \<and> (\<forall>t\<in>set (fs_ctcp_times s). t \<le> now) \<and>
     (fs_ctcp_blocked_until s \<noteq> None \<longrightarrow> fs_ctcp_times s = [])"
  ctcp_window "ctcp_threshold - 1" ctcp_window
proof -
  have prune: "prune_window (fs_ctcp_times s @ [now]) now ctcp_window =
      filter (in_window ctcp_window now) (fs_ctcp_times s) @ [now]"
    if "sorted (fs_ctcp_times s)" "\<forall>t\<in>set (fs_ctcp_times s). t \<le> prev" "prev \<le> now" "ctcp_window \<le> now"
    for s prev now
    using that prune_sorted [of "fs_ctcp_times s @ [now]" ctcp_window now] by (force simp: sorted_append)
  note facts = check_ctcp_flood_def ctcp_count_def Let_def ctcp_threshold_def ctcp_block_def
  show "limiter (\<lambda>(k :: unit) now s. apfst (\<lambda>r. r = Allow) (check_ctcp_flood now s))
    (\<lambda>s k. fs_ctcp_blocked_until s) (\<lambda>s k. fs_ctcp_times s)
    (\<lambda>s now. sorted (fs_ctcp_times s) \<and> (\<forall>t\<in>set (fs_ctcp_times s). t \<le> now) \<and>
      (fs_ctcp_blocked_until s \<noteq> None \<longrightarrow> fs_ctcp_times s = []))
    ctcp_window (ctcp_threshold - 1) ctcp_window"
  proof (unfold_locales, goal_cases)
    case (1 s prev now k)
    then show ?case using prune [of s prev now]
      by (auto simp: facts prune_window_def sorted_append sorted_wrt_filter split: option.split)
  next
    case (2 s prev now k u)
    then show ?case by (simp add: facts)
  next
    case (3 s prev now k)
    then show ?case using prune [of s prev now]
      by (auto simp: facts prune_window_def split: option.splits if_splits)
  next
    case (4 s prev now k)
    then show ?case
      by (auto simp: facts ctcp_window_def secs_def split: option.splits if_splits)
  qed simp
qed

text \<open>
  At most four CTCP requests per five seconds are answered, whoever sends
  them: in every run of the check at non-decreasing times, a closed window of
  five seconds holds at most four that were allowed.
\<close>

theorem ctcp_flood_bounded:
  assumes "sorted (map snd calls)" "\<forall>c\<in>set calls. secs 5 \<le> snd c"
  shows "window_count (secs 5) u (map snd (accepted
    (\<lambda>(k :: unit) now s. apfst (\<lambda>r. r = Allow) (check_ctcp_flood now s)) calls flood_state_new)) \<le> 4"
  using ctcp.window_bound_init [of flood_state_new calls u "()"] assms
  by (simp add: flood_state_new_def ctcp_window_def ctcp_threshold_def times_of_def)

lemma ctcp_flood_bounded_witness:
  "window_count (secs 5) (secs 5) (map snd (accepted
    (\<lambda>(k :: unit) now s. apfst (\<lambda>r. r = Allow) (check_ctcp_flood now s))
    [((), secs 5), ((), secs 6)] flood_state_new)) \<le> 4"
  by (rule ctcp_flood_bounded) (simp_all add: secs_def)

section \<open>The storm and the duplicates\<close>

lemma unique_seen_set: "distinct seen \<Longrightarrow> distinct (unique_seen es seen) \<and>
    set (unique_seen es seen) = set seen \<union> fst ` set es"
  by (induction es seen rule: unique_seen.induct) auto

lemma unique_count_card: "unique_count es = card (fst ` set es)"
  using unique_seen_set [of "[]" es] distinct_card [of "unique_seen es []"] by (simp add: unique_count_def)

text \<open>
  A private-message storm is six different senders in five seconds.  An
  unblocked check triggers exactly when the distinct hashes in the window,
  the present one included, are at least six; then the window is emptied and
  all senders are blocked for a minute, and every message before its end
  extends the block.
\<close>

theorem pm_storm_exact:
  assumes "secs 5 \<le> now"
  shows "check_pm_tilde_storm hash nick now s =
    (let blocked = (\<exists>u. fs_pm_storm_blocked_until s = Some u \<and> now < u);
         recent = filter (\<lambda>(_, t). now \<le> t + secs 5) (fs_pm_storm_nicks s)
     in if blocked then (Blocked, s\<lparr>fs_pm_storm_blocked_until := Some (now + secs 60)\<rparr>)
        else if 6 \<le> card (insert (hash nick) (fst ` set recent)) then
          (Triggered, s\<lparr>fs_pm_storm_nicks := [], fs_pm_storm_blocked_until := Some (now + secs 60)\<rparr>)
        else (Allow, s\<lparr>fs_pm_storm_nicks := recent @ [(hash nick, now)], fs_pm_storm_blocked_until := None\<rparr>))"
proof -
  have "instant_back now pm_storm_window \<le> t \<longleftrightarrow> now \<le> t + secs 5" for t
    using assms by (auto simp: instant_back_def pm_storm_window_def)
  note cut = this
  show ?thesis
    unfolding check_pm_tilde_storm_def pm_storm_count_def unique_count_card Let_def cut
    by (simp add: pm_storm_threshold_def pm_storm_block_def split: option.split)
qed

lemma pm_storm_exact_witness:
  "fst (check_pm_tilde_storm (\<lambda>s. of_nat (length s)) ''abcdef'' (secs 6)
     (flood_state_new\<lparr>fs_pm_storm_nicks := map (\<lambda>i. (i, secs 5)) [1, 2, 3, 4, 5]\<rparr>)) = Triggered"
  by (subst pm_storm_exact) (simp_all add: secs_def flood_state_new_def card_insert_if)

text \<open>
  A line is taken for a duplicate only when it is one.  A channel line is
  suppressed exactly when its text is under a block that has not ended, or
  when with it the last five seconds hold at least five channel lines of which
  at least three are this text.
\<close>

theorem duplicate_exact:
  assumes "secs 5 \<le> now"
  shows "suppressed (fst (check_duplicate_flood hash text is_channel now s)) \<longleftrightarrow>
    is_channel \<and> text \<noteq> [] \<and>
    ((\<exists>u. map_of (fs_blocked_texts s) (hash text) = Some u \<and> now < u) \<or>
     (let recent = filter (\<lambda>(_, t). now \<le> t + secs 5) (fs_msg_window s)
      in 5 \<le> Suc (length recent) \<and> 3 \<le> Suc (length (filter (\<lambda>(x, _). x = hash text) recent))))"
proof -
  have "instant_back now dup_window \<le> t \<longleftrightarrow> now \<le> t + secs 5" for t
    using assms by (auto simp: instant_back_def dup_window_def)
  note cut = this
  show ?thesis
    unfolding check_duplicate_flood_def duplicate_count_def Let_def cut
    by (simp add: suppressed_def dup_min_in_window_def dup_threshold_def split: option.split)
qed

lemma duplicate_exact_witness:
  "suppressed (fst (check_duplicate_flood (\<lambda>s. of_nat (length s)) ''abc'' True (secs 6)
     (flood_state_new\<lparr>fs_msg_window := [(3, secs 2), (7, secs 3), (3, secs 4), (8, secs 5)]\<rparr>)))"
  by (subst duplicate_exact) (simp_all add: secs_def flood_state_new_def)

end
