(* ===== verification/Netsplit.thy ===== *)
theory Netsplit
  imports Rust_Text
begin

text \<open>
  Netsplit batching (\<open>src/src/irc/netsplit.rs\<close>): QUITs whose reason is a pair of
  server names are collected per pair, announced five seconds after the last
  one, and the JOINs of the nicks that were lost are collected likewise.

  The clock is an argument \<open>now\<close> and \<open>lower\<close> is \<open>str::to_lowercase\<close>.  A
  \<open>HashMap\<close> is the list of its entries; where the code iterates over one the
  order is that of insertion, the real order being unspecified.
\<close>

section \<open>State\<close>

definition split_batch_wait :: nat where "split_batch_wait = secs 5"
definition netjoin_batch_wait :: nat where "netjoin_batch_wait = secs 5"
definition split_expire :: nat where "split_expire = secs 3600"
definition max_nicks_display :: nat where "max_nicks_display = 15"

record split_record =
  sr_nick :: bytes
  sr_channels :: "bytes list"

record split_group =
  sg_server1 :: bytes
  sg_server2 :: bytes
  sg_nicks :: "split_record list"
  sg_last_quit :: instant
  sg_printed :: bool

record netjoin_record =
  nr_nick :: bytes
  nr_channels :: "bytes list"

record netjoin_group =
  ng_server1 :: bytes
  ng_server2 :: bytes
  ng_records :: "netjoin_record list"
  ng_last_join :: instant
  ng_printed :: bool

record netsplit_message =
  nm_buffer_ids :: "bytes list"
  nm_text :: bytes

record netsplit_state =
  ns_groups :: "split_group list"
  ns_index :: "(bytes \<times> nat) list"
  ns_netjoins :: "netjoin_group list"

definition netsplit_new :: netsplit_state where
  "netsplit_new = \<lparr>ns_groups = [], ns_index = [], ns_netjoins = []\<rparr>"

section \<open>Detection\<close>

definition is_valid_split_host :: "bytes \<Rightarrow> bool" where
  "is_valid_split_host host =
     (if length host < 3 then False
      else if hd host = CHR ''.'' \<or> last host = CHR ''.'' then False
      else if contains_str ''..'' host then False
      else
        (case rfind_char (CHR ''.'') host of
           Some dot \<Rightarrow>
             if dot = 0 then False
             else
               let tld = drop (dot + 1) host
               in 2 \<le> length tld \<and> list_all is_ascii_alphabetic tld
         | None \<Rightarrow> False))"

definition is_netsplit_quit :: "bytes \<Rightarrow> bool" where
  "is_netsplit_quit message =
     (if message = [] then False
      else if CHR '':'' \<in> set message \<or> CHR ''/'' \<in> set message then False
      else
        (case find_char (CHR '' '') message of
           None \<Rightarrow> False
         | Some idx \<Rightarrow>
             if idx = 0 \<or> length message - 1 \<le> idx then False
             else if CHR '' '' \<in> set (drop (idx + 1) message) then False
             else
               let host1 = take idx message; host2 = drop (idx + 1) message
               in is_valid_split_host host1 \<and> is_valid_split_host host2 \<and> host1 \<noteq> host2))"

section \<open>Messages\<close>

definition format_nick_list :: "bytes list \<Rightarrow> bytes" where
  "format_nick_list nicks =
     (if max_nicks_display < length nicks then
        join_str '', '' (take max_nicks_display nicks) @ '' (+'' @ show_nat (length nicks - max_nicks_display) @ '' more)''
      else join_str '', '' nicks)"

text \<open>\<open>entry(channel).or_default().push(nick)\<close> over the records.\<close>

definition add_channel_nick :: "bytes \<Rightarrow> bytes \<Rightarrow> (bytes \<times> bytes list) list \<Rightarrow> (bytes \<times> bytes list) list" where
  "add_channel_nick nick ch t =
     AList.update ch ((case map_of t ch of None \<Rightarrow> [] | Some ns \<Rightarrow> ns) @ [nick]) t"

definition channel_nicks :: "(bytes \<times> bytes list) list \<Rightarrow> (bytes \<times> bytes list) list" where
  "channel_nicks recs = fold (\<lambda>(nick, chans). fold (add_channel_nick nick) chans) recs []"

text \<open>The arrow is the three bytes of U+21C4.\<close>

definition swap_arrow :: bytes where
  "swap_arrow = [byte_of 226, byte_of 135, byte_of 132]"

definition format_split_messages :: "split_group \<Rightarrow> netsplit_message list" where
  "format_split_messages g =
     map (\<lambda>(channel, nicks). \<lparr>nm_buffer_ids = [channel],
         nm_text = ''Netsplit '' @ sg_server1 g @ '' '' @ swap_arrow @ '' '' @ sg_server2 g @ '' quits: '' @
           format_nick_list nicks\<rparr>)
       (channel_nicks (map (\<lambda>r. (sr_nick r, sr_channels r)) (sg_nicks g)))"

definition format_netjoin_messages :: "netjoin_group \<Rightarrow> netsplit_message list" where
  "format_netjoin_messages g =
     map (\<lambda>(channel, nicks). \<lparr>nm_buffer_ids = [channel],
         nm_text = ''Netsplit over '' @ ng_server1 g @ '' '' @ swap_arrow @ '' '' @ ng_server2 g @ '' joins: '' @
           format_nick_list nicks\<rparr>)
       (channel_nicks (map (\<lambda>r. (nr_nick r, nr_channels r)) (ng_records g)))"

section \<open>Operations\<close>

definition open_group :: "bytes \<Rightarrow> bytes \<Rightarrow> split_group \<Rightarrow> bool" where
  "open_group s1 s2 g \<longleftrightarrow> sg_server1 g = s1 \<and> sg_server2 g = s2 \<and> \<not> sg_printed g"

definition handle_quit ::
  "(bytes \<Rightarrow> bytes) \<Rightarrow> instant \<Rightarrow> bytes \<Rightarrow> bytes \<Rightarrow> bytes list \<Rightarrow> netsplit_state \<Rightarrow> bool \<times> netsplit_state" where
  "handle_quit lower now nick message buffers s =
     (if \<not> is_netsplit_quit message then (False, s)
      else
        (case split_once (CHR '' '') message of
           None \<Rightarrow> (False, s)
         | Some (server1, server2) \<Rightarrow>
             let (idx, groups) = (case find_pos (open_group server1 server2) (ns_groups s) of
                    Some idx \<Rightarrow> (idx, ns_groups s)
                  | None \<Rightarrow> (length (ns_groups s), ns_groups s @
                      [\<lparr>sg_server1 = server1, sg_server2 = server2, sg_nicks = [], sg_last_quit = now, sg_printed = False\<rparr>]));
                 g = groups ! idx
             in (True, s\<lparr>ns_groups := groups[idx := g\<lparr>
                     sg_nicks := sg_nicks g @ [\<lparr>sr_nick = nick, sr_channels = buffers\<rparr>], sg_last_quit := now\<rparr>],
                   ns_index := AList.update (lower nick) idx (ns_index s)\<rparr>)))"

definition add_netjoin :: "bytes \<Rightarrow> bytes \<Rightarrow> netjoin_record list \<Rightarrow> netjoin_record list" where
  "add_netjoin nick bid recs =
     (case find_pos (\<lambda>r. eq_ignore_ascii_case (nr_nick r) nick) recs of
        Some i \<Rightarrow> recs[i := (recs ! i)\<lparr>nr_channels := insert_once bid (nr_channels (recs ! i))\<rparr>]
      | None \<Rightarrow> recs @ [\<lparr>nr_nick = nick, nr_channels = [bid]\<rparr>])"

definition open_netjoin :: "bytes \<Rightarrow> bytes \<Rightarrow> netjoin_group \<Rightarrow> bool" where
  "open_netjoin s1 s2 g \<longleftrightarrow> ng_server1 g = s1 \<and> ng_server2 g = s2 \<and> \<not> ng_printed g"

definition handle_join ::
  "(bytes \<Rightarrow> bytes) \<Rightarrow> instant \<Rightarrow> bytes \<Rightarrow> bytes \<Rightarrow> netsplit_state \<Rightarrow> bool \<times> netsplit_state" where
  "handle_join lower now nick bid s =
     (case map_of (ns_index s) (lower nick) of
        None \<Rightarrow> (False, s)
      | Some group_idx \<Rightarrow>
          if length (ns_groups s) \<le> group_idx then (False, s\<lparr>ns_index := AList.delete (lower nick) (ns_index s)\<rparr>)
          else
            let server1 = sg_server1 (ns_groups s ! group_idx); server2 = sg_server2 (ns_groups s ! group_idx);
                (idx, joins) = (case find_pos (open_netjoin server1 server2) (ns_netjoins s) of
                    Some idx \<Rightarrow> (idx, ns_netjoins s)
                  | None \<Rightarrow> (length (ns_netjoins s), ns_netjoins s @
                      [\<lparr>ng_server1 = server1, ng_server2 = server2, ng_records = [], ng_last_join = now, ng_printed = False\<rparr>]));
                g = joins ! idx
            in (True, s\<lparr>ns_netjoins := joins[idx := g\<lparr>ng_records := add_netjoin nick bid (ng_records g), ng_last_join := now\<rparr>],
                  ns_index := AList.delete (lower nick) (ns_index s)\<rparr>))"

definition split_due :: "instant \<Rightarrow> split_group \<Rightarrow> bool" where
  "split_due now g \<longleftrightarrow> \<not> sg_printed g \<and> split_batch_wait \<le> duration_since now (sg_last_quit g)"

definition netjoin_due :: "instant \<Rightarrow> netjoin_group \<Rightarrow> bool" where
  "netjoin_due now g \<longleftrightarrow> \<not> ng_printed g \<and> netjoin_batch_wait \<le> duration_since now (ng_last_join g)"

text \<open>\<open>nick_index\<close> rebuilt from the records of all groups.\<close>

definition index_groups :: "(bytes \<Rightarrow> bytes) \<Rightarrow> split_group list \<Rightarrow> (bytes \<times> nat) list" where
  "index_groups lower groups =
     fold (\<lambda>(idx, g). fold (\<lambda>r. AList.update (lower (sr_nick r)) idx) (sg_nicks g)) (enumerate 0 groups) []"

definition tick_netsplit :: "(bytes \<Rightarrow> bytes) \<Rightarrow> instant \<Rightarrow> netsplit_state \<Rightarrow> netsplit_message list \<times> netsplit_state" where
  "tick_netsplit lower now s =
     (let messages = concat (map format_split_messages (filter (split_due now) (ns_groups s))) @
            concat (map format_netjoin_messages (filter (netjoin_due now) (ns_netjoins s)));
          groups = map (\<lambda>g. if split_due now g then g\<lparr>sg_printed := True\<rparr> else g) (ns_groups s);
          joins = map (\<lambda>g. if netjoin_due now g then g\<lparr>ng_printed := True\<rparr> else g) (ns_netjoins s);
          kept = filter (\<lambda>g. duration_since now (sg_last_quit g) < split_expire) groups
      in (messages, \<lparr>ns_groups = kept, ns_index = index_groups lower kept,
            ns_netjoins = filter (\<lambda>g. duration_since now (ng_last_join g) < split_expire) joins\<rparr>))"

definition is_expired_split_nick :: "(bytes \<Rightarrow> bytes) \<Rightarrow> instant \<Rightarrow> bytes \<Rightarrow> netsplit_state \<Rightarrow> bool" where
  "is_expired_split_nick lower now nick s =
     (case map_of (ns_index s) (lower nick) of
        Some idx \<Rightarrow> idx < length (ns_groups s) \<and> split_expire \<le> duration_since now (sg_last_quit (ns_groups s ! idx))
      | None \<Rightarrow> False)"

section \<open>Lemmas\<close>

text \<open>The nicks of the records that name a channel, in order, and what the table of a message holds.\<close>

definition nicks_on :: "bytes \<Rightarrow> (bytes \<times> bytes list) list \<Rightarrow> bytes list" where
  "nicks_on ch recs = concat (map (\<lambda>(nick, chans). map (\<lambda>_. nick) (filter (\<lambda>c. c = ch) chans)) recs)"

definition listed_on :: "bytes \<Rightarrow> (bytes \<times> bytes list) list \<Rightarrow> bytes list" where
  "listed_on ch t = (case map_of t ch of None \<Rightarrow> [] | Some ns \<Rightarrow> ns)"

lemma listed_on_add: "listed_on ch (add_channel_nick nick c t) = listed_on ch t @ (if c = ch then [nick] else [])"
  by (simp add: listed_on_def add_channel_nick_def update_conv' split: option.split)

lemma listed_fold_add:
  "listed_on ch (fold (add_channel_nick nick) chans t) = listed_on ch t @ map (\<lambda>_. nick) (filter (\<lambda>c. c = ch) chans)"
  by (induction chans arbitrary: t) (simp_all add: listed_on_add)

lemma listed_channel_nicks: "listed_on ch (channel_nicks recs) = nicks_on ch recs"
proof -
  have "listed_on ch (fold (\<lambda>(nick, chans). fold (add_channel_nick nick) chans) recs t) = listed_on ch t @ nicks_on ch recs" for t
    by (induction recs arbitrary: t) (auto simp: listed_fold_add nicks_on_def)
  from this [of "[]"] show ?thesis by (simp add: channel_nicks_def listed_on_def)
qed

definition lost_on :: "bytes \<Rightarrow> split_group \<Rightarrow> bytes list" where
  "lost_on ch g = nicks_on ch (map (\<lambda>r. (sr_nick r, sr_channels r)) (sg_nicks g))"

lemma lost_on_member:
  assumes "r \<in> set (sg_nicks g)" "ch \<in> set (sr_channels r)"
  shows "sr_nick r \<in> set (lost_on ch g)"
  using assms by (force simp: lost_on_def nicks_on_def)

lemma split_message_sent:
  assumes "lost_on ch g \<noteq> []"
  shows "\<lparr>nm_buffer_ids = [ch], nm_text = ''Netsplit '' @ sg_server1 g @ '' '' @ swap_arrow @ '' '' @ sg_server2 g @
    '' quits: '' @ format_nick_list (lost_on ch g)\<rparr> \<in> set (format_split_messages g)"
proof -
  have "map_of (channel_nicks (map (\<lambda>r. (sr_nick r, sr_channels r)) (sg_nicks g))) ch = Some (lost_on ch g)"
    using assms listed_channel_nicks [of ch "map (\<lambda>r. (sr_nick r, sr_channels r)) (sg_nicks g)"]
    by (auto simp: lost_on_def listed_on_def split: option.splits)
  then show ?thesis unfolding format_split_messages_def by (force dest!: map_of_SomeD)
qed

text \<open>What the index may hold: a position of a group with a record of the nick.\<close>

definition index_entry_ok :: "(bytes \<Rightarrow> bytes) \<Rightarrow> split_group list \<Rightarrow> bytes \<Rightarrow> nat \<Rightarrow> bool" where
  "index_entry_ok lower groups k i \<longleftrightarrow> i < length groups \<and> (\<exists>r\<in>set (sg_nicks (groups ! i)). lower (sr_nick r) = k)"

definition index_ok :: "(bytes \<Rightarrow> bytes) \<Rightarrow> netsplit_state \<Rightarrow> bool" where
  "index_ok lower s \<longleftrightarrow> (\<forall>k i. map_of (ns_index s) k = Some i \<longrightarrow> index_entry_ok lower (ns_groups s) k i)"

lemma index_groups_ok: "map_of (index_groups lower gs) k = Some i \<Longrightarrow> index_entry_ok lower gs k i"
proof -
  let ?P = "\<lambda>t. \<forall>k i. map_of t k = Some i \<longrightarrow> index_entry_ok lower gs k i"
  have row: "?P (fold (\<lambda>r. AList.update (lower (sr_nick r)) idx) recs t)"
    if "?P t" "\<forall>r\<in>set recs. index_entry_ok lower gs (lower (sr_nick r)) idx" for recs idx t
    by (rule fold_invariant [where Q = "\<lambda>r. index_entry_ok lower gs (lower (sr_nick r)) idx" and P = ?P])
      (use that in \<open>auto simp: update_conv'\<close>)
  have "?P (fold (\<lambda>(idx, g). fold (\<lambda>r. AList.update (lower (sr_nick r)) idx) (sg_nicks g)) (enumerate 0 gs) [])"
  proof (rule fold_invariant [where Q = "\<lambda>(idx, g). \<forall>r\<in>set (sg_nicks g). index_entry_ok lower gs (lower (sr_nick r)) idx" and P = ?P])
    show "case x of (idx, g) \<Rightarrow> \<forall>r\<in>set (sg_nicks g). index_entry_ok lower gs (lower (sr_nick r)) idx"
      if "x \<in> set (enumerate 0 gs)" for x
      using that by (auto simp: in_set_enumerate_eq index_entry_ok_def)
    show "?P ((case x of (idx, g) \<Rightarrow> fold (\<lambda>r. AList.update (lower (sr_nick r)) idx) (sg_nicks g)) t)"
      if "case x of (idx, g) \<Rightarrow> \<forall>r\<in>set (sg_nicks g). index_entry_ok lower gs (lower (sr_nick r)) idx" "?P t" for x t
      using row [OF that(2)] that(1) by (cases x) simp
  qed simp
  then show "map_of (index_groups lower gs) k = Some i \<Longrightarrow> index_entry_ok lower gs k i"
    by (simp add: index_groups_def)
qed

lemma index_groups_covers:
  assumes "g \<in> set gs" "r \<in> set (sg_nicks g)"
  shows "map_of (index_groups lower gs) (lower (sr_nick r)) \<noteq> None"
proof -
  let ?P = "\<lambda>t :: (bytes \<times> nat) list. map_of t (lower (sr_nick r)) \<noteq> None"
  have upd: "?P (AList.update (lower (sr_nick r)) idx t)" "?P t \<Longrightarrow> ?P (AList.update k idx t)" for k idx t
    by (auto simp: update_conv')
  from assms(1) obtain i where "(i, g) \<in> set (enumerate 0 gs)"
    by (metis add_0 in_set_conv_nth nth_enumerate_eq length_enumerate)
  then show ?thesis unfolding index_groups_def
  proof (rule fold_reaches)
    show "?P ((case (i, g) of (idx, g) \<Rightarrow> fold (\<lambda>r. AList.update (lower (sr_nick r)) idx) (sg_nicks g)) t)" for t
      unfolding prod.case by (rule fold_reaches [OF assms(2)]) (use upd in blast)+
    show "?P t \<Longrightarrow> ?P ((case y of (idx, g) \<Rightarrow> fold (\<lambda>r. AList.update (lower (sr_nick r)) idx) (sg_nicks g)) t)" for y t
      unfolding case_prod_unfold by (rule fold_keeps [where P = ?P]) (use upd in blast)+
  qed
qed

section \<open>Runs\<close>

datatype netsplit_event = QuitSeen bytes bytes "bytes list" | JoinSeen bytes bytes | Ticked

fun netsplit_step ::
  "(bytes \<Rightarrow> bytes) \<Rightarrow> instant \<Rightarrow> netsplit_event \<Rightarrow> netsplit_state \<Rightarrow> netsplit_message list \<times> netsplit_state" where
  "netsplit_step lower now (QuitSeen nick message buffers) s = ([], snd (handle_quit lower now nick message buffers s))"
| "netsplit_step lower now (JoinSeen nick bid) s = ([], snd (handle_join lower now nick bid s))"
| "netsplit_step lower now Ticked s = tick_netsplit lower now s"

fun netsplit_run ::
  "(bytes \<Rightarrow> bytes) \<Rightarrow> (instant \<times> netsplit_event) list \<Rightarrow> netsplit_state \<Rightarrow> netsplit_message list \<times> netsplit_state" where
  "netsplit_run lower [] s = ([], s)"
| "netsplit_run lower ((now, e) # es) s =
     (let (ms, s1) = netsplit_step lower now e s; (ms', s2) = netsplit_run lower es s1 in (ms @ ms', s2))"

lemma index_entry_mono:
  "index_entry_ok lower gs k i \<Longrightarrow> i < length gs' \<Longrightarrow> set (sg_nicks (gs ! i)) \<subseteq> set (sg_nicks (gs' ! i)) \<Longrightarrow>
   index_entry_ok lower gs' k i"
  unfolding index_entry_ok_def by blast

lemma handle_quit_cases:
  assumes "is_netsplit_quit message" "split_once (CHR '' '') message = Some (s1, s2)"
  obtains i gs where "fst (handle_quit lower now nick message buffers s) = True"
    "i < length gs" "gs = ns_groups s \<or> gs = ns_groups s @ [\<lparr>sg_server1 = s1, sg_server2 = s2, sg_nicks = [],
      sg_last_quit = now, sg_printed = False\<rparr>]" "open_group s1 s2 (gs ! i)"
    "snd (handle_quit lower now nick message buffers s) = s\<lparr>ns_groups := gs[i := (gs ! i)\<lparr>
       sg_nicks := sg_nicks (gs ! i) @ [\<lparr>sr_nick = nick, sr_channels = buffers\<rparr>], sg_last_quit := now\<rparr>],
       ns_index := AList.update (lower nick) i (ns_index s)\<rparr>"
proof (cases "find_pos (open_group s1 s2) (ns_groups s)")
  case None
  with assms show ?thesis
    by (intro that [of "length (ns_groups s)" "ns_groups s @ [\<lparr>sg_server1 = s1, sg_server2 = s2, sg_nicks = [],
      sg_last_quit = now, sg_printed = False\<rparr>]"]) (simp_all add: handle_quit_def open_group_def Let_def)
next
  case (Some i)
  with assms find_pos_Some [OF Some] show ?thesis
    by (intro that [of i "ns_groups s"]) (simp_all add: handle_quit_def Let_def)
qed

lemma handle_quit_other:
  "\<not> (is_netsplit_quit message \<and> split_once (CHR '' '') message \<noteq> None) \<Longrightarrow>
   handle_quit lower now nick message buffers s = (False, s)"
  by (cases "split_once (CHR '' '') message") (simp_all add: handle_quit_def del: split_once_None)

lemma quit_keeps_index:
  assumes "index_ok lower s"
  shows "index_ok lower (snd (handle_quit lower now nick message buffers s))"
proof (cases "is_netsplit_quit message \<and> split_once (CHR '' '') message \<noteq> None")
  case True
  then obtain s1 s2 where "is_netsplit_quit message" "split_once (CHR '' '') message = Some (s1, s2)"
    by (metis option.exhaust surj_pair)
  then obtain i gs where gs: "i < length gs" "gs = ns_groups s \<or> gs = ns_groups s @ [\<lparr>sg_server1 = s1, sg_server2 = s2,
      sg_nicks = [], sg_last_quit = now, sg_printed = False\<rparr>]"
    and s': "snd (handle_quit lower now nick message buffers s) = s\<lparr>ns_groups := gs[i := (gs ! i)\<lparr>
       sg_nicks := sg_nicks (gs ! i) @ [\<lparr>sr_nick = nick, sr_channels = buffers\<rparr>], sg_last_quit := now\<rparr>],
       ns_index := AList.update (lower nick) i (ns_index s)\<rparr>"
    by (rule handle_quit_cases [of message s1 s2 lower now nick buffers s])
  let ?gs = "gs[i := (gs ! i)\<lparr>sg_nicks := sg_nicks (gs ! i) @ [\<lparr>sr_nick = nick, sr_channels = buffers\<rparr>], sg_last_quit := now\<rparr>]"
  have new: "index_entry_ok lower ?gs (lower nick) i"
    using gs(1) by (simp add: index_entry_ok_def)
  have old: "index_entry_ok lower ?gs k j" if "index_entry_ok lower (ns_groups s) k j" for k j
  proof (rule index_entry_mono [OF that])
    have j: "j < length (ns_groups s)" using that by (simp add: index_entry_ok_def)
    with gs(2) show "j < length ?gs" by auto
    show "set (sg_nicks (ns_groups s ! j)) \<subseteq> set (sg_nicks (?gs ! j))"
      using gs j by (cases "j = i") (auto simp: nth_append)
  qed
  show ?thesis unfolding s' using assms new old by (auto simp: index_ok_def update_conv')
qed (use assms handle_quit_other in simp)

lemma join_frames:
  "ns_groups (snd (handle_join lower now nick bid s)) = ns_groups s"
  "map_of (ns_index (snd (handle_join lower now nick bid s))) = (map_of (ns_index s))(lower nick := None)"
  by (auto simp: handle_join_def delete_conv' Let_def fun_eq_iff split: option.splits prod.splits)

lemma step_keeps_index: "index_ok lower s \<Longrightarrow> index_ok lower (snd (netsplit_step lower now e s))"
proof (cases e)
  case Ticked
  then show ?thesis by (auto simp: index_ok_def tick_netsplit_def Let_def dest: index_groups_ok)
next
  case (JoinSeen nick bid)
  assume "index_ok lower s"
  with JoinSeen show ?thesis by (auto simp: index_ok_def join_frames)
qed (simp add: quit_keeps_index)

lemma run_keeps_index: "index_ok lower s \<Longrightarrow> index_ok lower (snd (netsplit_run lower es s))"
proof (induction es arbitrary: s)
  case (Cons e es)
  then show ?case using step_keeps_index [OF Cons.prems, of "fst e" "snd e"]
    by (cases e) (simp add: Let_def case_prod_unfold)
qed simp

lemma run_append:
  "netsplit_run lower (es @ es') s =
     (let (ms, s1) = netsplit_run lower es s; (ms', s2) = netsplit_run lower es' s1 in (ms @ ms', s2))"
  by (induction es arbitrary: s) (auto simp: Let_def case_prod_unfold)

text \<open>A QUIT that the pair of servers of a group explains.\<close>

definition same_split :: "split_group \<Rightarrow> netsplit_event \<Rightarrow> bool" where
  "same_split g e \<longleftrightarrow> (\<exists>nick message buffers. e = QuitSeen nick message buffers \<and> is_netsplit_quit message \<and>
     split_once (CHR '' '') message = Some (sg_server1 g, sg_server2 g))"

text \<open>A group that waits stays as it is until the tick that announces it.\<close>

lemma waiting_group_step:
  assumes "g \<in> set (ns_groups s)" "\<not> sg_printed g" "\<not> same_split g e"
  shows "g \<in> set (ns_groups (snd (netsplit_step lower now e s))) \<or>
    set (format_split_messages g) \<subseteq> set (fst (netsplit_step lower now e s))"
proof (cases e)
  case (QuitSeen nick message buffers)
  show ?thesis
  proof (cases "is_netsplit_quit message \<and> split_once (CHR '' '') message \<noteq> None")
    case True
    then obtain s1 s2 where m: "is_netsplit_quit message" "split_once (CHR '' '') message = Some (s1, s2)"
      by (metis option.exhaust surj_pair)
    then obtain i gs where gs: "i < length gs" "gs = ns_groups s \<or> gs = ns_groups s @ [\<lparr>sg_server1 = s1, sg_server2 = s2,
        sg_nicks = [], sg_last_quit = now, sg_printed = False\<rparr>]" "open_group s1 s2 (gs ! i)"
      and s': "snd (handle_quit lower now nick message buffers s) = s\<lparr>ns_groups := gs[i := (gs ! i)\<lparr>
         sg_nicks := sg_nicks (gs ! i) @ [\<lparr>sr_nick = nick, sr_channels = buffers\<rparr>], sg_last_quit := now\<rparr>],
         ns_index := AList.update (lower nick) i (ns_index s)\<rparr>"
      by (rule handle_quit_cases [of message s1 s2 lower now nick buffers s])
    have "(s1, s2) \<noteq> (sg_server1 g, sg_server2 g)"
      using assms(3) m QuitSeen unfolding same_split_def by auto
    with gs(3) have "gs ! i \<noteq> g" by (auto simp: open_group_def)
    moreover have "g \<in> set gs" using gs(2) assms(1) by auto
    ultimately have "g \<in> set (gs[i := x])" for x
      by (metis in_set_conv_nth length_list_update nth_list_update_neq)
    with s' QuitSeen show ?thesis by simp
  next
    case False
    then have "snd (handle_quit lower now nick message buffers s) = s" using handle_quit_other by simp
    with assms(1) QuitSeen show ?thesis by simp
  qed
next
  case Ticked
  show ?thesis
  proof (cases "split_due now g")
    case True
    with assms(1) Ticked show ?thesis by (auto simp: tick_netsplit_def Let_def)
  next
    case False
    then have "duration_since now (sg_last_quit g) < split_expire"
      using assms(2) by (simp add: split_due_def split_batch_wait_def split_expire_def secs_def)
    with False assms(1) Ticked show ?thesis by (auto simp: tick_netsplit_def Let_def intro: rev_image_eqI)
  qed
qed (use assms(1) in \<open>simp add: join_frames\<close>)

lemma waiting_group_run:
  assumes "g \<in> set (ns_groups s)" "\<not> sg_printed g" "\<forall>(t, e)\<in>set es. \<not> same_split g e"
    "split_batch_wait \<le> duration_since now (sg_last_quit g)"
  shows "set (format_split_messages g) \<subseteq> set (fst (netsplit_run lower (es @ [(now, Ticked)]) s))"
  using assms(1,3)
proof (induction es arbitrary: s)
  case Nil
  with assms(2,4) show ?case by (auto simp: tick_netsplit_def Let_def split_due_def)
next
  case (Cons x es)
  obtain t e where x: "x = (t, e)" by (cases x)
  with Cons.prems have "\<not> same_split g e" by simp
  from waiting_group_step [OF Cons.prems(1) assms(2) this, of lower t] show ?case
  proof
    assume "g \<in> set (ns_groups (snd (netsplit_step lower t e s)))"
    from Cons.IH [OF this] Cons.prems(2) show ?thesis by (auto simp: x Let_def case_prod_unfold)
  qed (auto simp: x Let_def case_prod_unfold)
qed

section \<open>Properties\<close>

text \<open>
  Whatever QUITs and JOINs arrive and whenever the timer ticks, an entry
  of the nick index is a position inside the list of split groups, and that
  group has a record of the nick.  So the bounds check of \<open>handle_join\<close> never
  fires, and a JOIN is only ever attributed to a split its nick was lost in.
\<close>

theorem netsplit_index_sound:
  assumes "map_of (ns_index (snd (netsplit_run lower es netsplit_new))) (lower nick) = Some i"
  shows "i < length (ns_groups (snd (netsplit_run lower es netsplit_new))) \<and>
    (\<exists>r\<in>set (sg_nicks (ns_groups (snd (netsplit_run lower es netsplit_new)) ! i)). lower (sr_nick r) = lower nick)"
proof -
  have "index_ok lower (snd (netsplit_run lower es netsplit_new))"
    by (rule run_keeps_index) (simp add: index_ok_def netsplit_new_def)
  with assms show ?thesis unfolding index_ok_def index_entry_ok_def by blast
qed

text \<open>
  C21: a lost user is announced.  After a QUIT that is taken as part of a
  netsplit, and once the pair of servers has been quiet for five seconds, the
  next tick has sent, to every channel the user was in, the line that names the
  two servers and the users lost on that channel, whatever other QUITs, JOINs and
  ticks happened in between.  The users are those of the split group after the
  QUIT, in order, with the new one among them; the first fifteen are written out
  and the others are counted.
\<close>

theorem netsplit_announced:
  assumes quit: "fst (handle_quit lower t nick message buffers s)" "split_once (CHR '' '') message = Some (s1, s2)"
    and quiet: "\<forall>(t', e)\<in>set es. \<forall>n m b. e = QuitSeen n m b \<longrightarrow> split_once (CHR '' '') m \<noteq> Some (s1, s2)"
    and due: "t + split_batch_wait \<le> now" and chan: "ch \<in> set buffers"
  shows "\<exists>g\<in>set (ns_groups (snd (handle_quit lower t nick message buffers s))). open_group s1 s2 g \<and>
    (let nicks = lost_on ch g
     in nick \<in> set nicks \<and>
        \<lparr>nm_buffer_ids = [ch],
         nm_text = ''Netsplit '' @ s1 @ '' '' @ [byte_of 226, byte_of 135, byte_of 132] @ '' '' @ s2 @ '' quits: '' @
           join_str '', '' (take 15 nicks) @
           (if length nicks \<le> 15 then [] else '' (+'' @ show_nat (length nicks - 15) @ '' more)'')\<rparr> \<in>
        set (fst (netsplit_run lower (es @ [(now, Ticked)]) (snd (handle_quit lower t nick message buffers s)))))"
proof -
  have m: "is_netsplit_quit message" using quit(1) by (auto simp: handle_quit_def split: if_splits)
  obtain i gs where gs: "i < length gs" "open_group s1 s2 (gs ! i)"
    and s': "snd (handle_quit lower t nick message buffers s) = s\<lparr>ns_groups := gs[i := (gs ! i)\<lparr>
       sg_nicks := sg_nicks (gs ! i) @ [\<lparr>sr_nick = nick, sr_channels = buffers\<rparr>], sg_last_quit := t\<rparr>],
       ns_index := AList.update (lower nick) i (ns_index s)\<rparr>"
    by (rule handle_quit_cases [OF m quit(2), of lower t nick buffers s])
  define g where "g = (gs ! i)\<lparr>sg_nicks := sg_nicks (gs ! i) @ [\<lparr>sr_nick = nick, sr_channels = buffers\<rparr>], sg_last_quit := t\<rparr>"
  have g: "g \<in> set (ns_groups (snd (handle_quit lower t nick message buffers s)))"
    using gs(1) by (simp add: s' g_def set_update_memI)
  have fields: "sg_server1 g = s1" "sg_server2 g = s2" "\<not> sg_printed g" "sg_last_quit g = t"
    using gs(2) by (simp_all add: g_def open_group_def)
  have "\<forall>(t', e)\<in>set es. \<not> same_split g e" using quiet by (auto simp: same_split_def fields)
  from waiting_group_run [OF g fields(3) this, of now lower] due
  have sent: "set (format_split_messages g) \<subseteq>
      set (fst (netsplit_run lower (es @ [(now, Ticked)]) (snd (handle_quit lower t nick message buffers s))))"
    by (simp add: fields duration_since_def)
  have "\<lparr>sr_nick = nick, sr_channels = buffers\<rparr> \<in> set (sg_nicks g)" by (simp add: g_def)
  from lost_on_member [OF this, of ch] chan have lost: "nick \<in> set (lost_on ch g)" by simp
  have list: "format_nick_list nicks = join_str '', '' (take 15 nicks) @
      (if length nicks \<le> 15 then [] else '' (+'' @ show_nat (length nicks - 15) @ '' more)'')" for nicks
    by (simp add: format_nick_list_def max_nicks_display_def not_le)
  have "lost_on ch g \<noteq> []" using lost by auto
  from split_message_sent [OF this] sent lost g fields(1-3) show ?thesis
    by (intro bexI [OF _ g]) (auto simp: open_group_def Let_def swap_arrow_def list simp del: append.simps)
qed

text \<open>
  Only the first JOIN of a lost nick is recognised, and every JOIN after
  the next tick again.  When a nick that was lost rejoins, the JOIN is taken
  as part of the netjoin; a JOIN of the same nick to another channel before
  the next tick is not; and because the tick puts every recorded nick back
  into the index, a JOIN after it is swallowed as a netjoin once more, for as
  long as the split group is kept.
\<close>

theorem netjoin_once_per_tick:
  assumes ok: "index_ok lower s" and known: "map_of (ns_index s) (lower nick) = Some i"
    and kept: "duration_since t (sg_last_quit (ns_groups s ! i)) < split_expire"
  shows "fst (handle_join lower t1 nick b1 s) \<and>
    \<not> fst (handle_join lower t2 nick b2 (snd (handle_join lower t1 nick b1 s))) \<and>
    fst (handle_join lower t3 nick b3 (snd (tick_netsplit lower t (snd (handle_join lower t1 nick b1 s)))))"
proof -
  have entry: "i < length (ns_groups s)" "\<exists>r\<in>set (sg_nicks (ns_groups s ! i)). lower (sr_nick r) = lower nick"
    using ok known by (auto simp: index_ok_def index_entry_ok_def)
  then obtain r where r: "r \<in> set (sg_nicks (ns_groups s ! i))" "lower (sr_nick r) = lower nick" by blast
  have joined: "fst (handle_join lower now nick b s')"
    if "map_of (ns_index s') (lower nick) = Some j" "j < length (ns_groups s')" for now b s' j
    using that by (simp add: handle_join_def Let_def split: option.split prod.split)
  have second: "\<not> fst (handle_join lower t2 nick b2 (snd (handle_join lower t1 nick b1 s)))"
    using join_frames(2) [of lower t1 nick b1 s] by (simp add: handle_join_def [of lower t2])
  let ?s1 = "snd (handle_join lower t1 nick b1 s)" and ?s2 = "snd (tick_netsplit lower t (snd (handle_join lower t1 nick b1 s)))"
  let ?g = "ns_groups s ! i"
  have "(if split_due t ?g then ?g\<lparr>sg_printed := True\<rparr> else ?g) \<in> set (ns_groups ?s2)"
    using entry(1) kept by (auto simp: tick_netsplit_def Let_def join_frames intro: rev_image_eqI)
  from index_groups_covers [OF this, of r lower] r have "map_of (ns_index ?s2) (lower nick) \<noteq> None"
    by (simp add: tick_netsplit_def Let_def split: if_splits)
  then obtain j where j: "map_of (ns_index ?s2) (lower nick) = Some j" by blast
  from index_groups_ok [of lower "ns_groups ?s2" "lower nick" j] j have "j < length (ns_groups ?s2)"
    by (simp add: tick_netsplit_def Let_def index_entry_ok_def)
  with joined [OF known entry(1)] second joined [OF j] show ?thesis by blast
qed

section \<open>Witnesses\<close>

definition example_split :: netsplit_state where
  "example_split = snd (netsplit_run ascii_lower [(0, QuitSeen ''Bob'' ''a.bc d.ef'' [''#x''])] netsplit_new)"

lemma example_split_index: "map_of (ns_index example_split) (ascii_lower ''Bob'') = Some 0"
  by code_simp

lemma netsplit_index_sound_witness:
  "\<exists>r\<in>set (sg_nicks (ns_groups example_split ! 0)). ascii_lower (sr_nick r) = ''bob''"
proof -
  have "ascii_lower ''Bob'' = ''bob''" by code_simp
  with netsplit_index_sound [where lower = ascii_lower and nick = "''Bob''", OF example_split_index [unfolded example_split_def]] show ?thesis
    by (simp add: example_split_def)
qed

lemma netsplit_announced_witness:
  "\<lparr>nm_buffer_ids = [''#x''], nm_text = ''Netsplit a.bc '' @ [byte_of 226, byte_of 135, byte_of 132] @ '' d.ef quits: Bob''\<rparr> \<in>
     set (fst (netsplit_run ascii_lower ([(secs 1, QuitSeen ''Ann'' ''Bye'' [''#x''])] @ [(secs 6, Ticked)])
       (snd (handle_quit ascii_lower 0 ''Bob'' ''a.bc d.ef'' [''#x''] netsplit_new))))"
proof -
  have "fst (handle_quit ascii_lower 0 ''Bob'' ''a.bc d.ef'' [''#x''] netsplit_new)" by code_simp
  moreover have "split_once (CHR '' '') ''a.bc d.ef'' = Some (''a.bc'', ''d.ef'')" by code_simp
  moreover have "0 + split_batch_wait \<le> secs 6" by (simp add: split_batch_wait_def secs_def)
  moreover have "map (lost_on ''#x'') (ns_groups (snd (handle_quit ascii_lower 0 ''Bob'' ''a.bc d.ef'' [''#x''] netsplit_new))) = [[''Bob'']]"
    by code_simp
  ultimately show ?thesis
    using netsplit_announced [of ascii_lower 0 "''Bob''" "''a.bc d.ef''" "[''#x'']" netsplit_new "''a.bc''" "''d.ef''"
        "[(secs 1, QuitSeen ''Ann'' ''Bye'' [''#x''])]" "secs 6" "''#x''"]
    by (auto simp: Let_def)
qed

lemma netjoin_once_per_tick_witness:
  "fst (handle_join ascii_lower 1 ''Bob'' ''#x'' example_split) \<and>
   \<not> fst (handle_join ascii_lower 2 ''Bob'' ''#y'' (snd (handle_join ascii_lower 1 ''Bob'' ''#x'' example_split))) \<and>
   fst (handle_join ascii_lower 4 ''Bob'' ''#z''
     (snd (tick_netsplit ascii_lower 3 (snd (handle_join ascii_lower 1 ''Bob'' ''#x'' example_split)))))"
proof (rule netjoin_once_per_tick [where i = 0])
  show "map_of (ns_index example_split) (ascii_lower ''Bob'') = Some 0" by (rule example_split_index)
  show "index_ok ascii_lower example_split"
    unfolding example_split_def by (rule run_keeps_index) (simp add: index_ok_def netsplit_new_def)
  show "duration_since 3 (sg_last_quit (ns_groups example_split ! 0)) < split_expire"
    by (simp add: duration_since_def split_expire_def secs_def less_imp_diff_less)
qed

end
