(* ===== verification/Irc_Text.thy ===== *)
theory Irc_Text
  imports Rust_Text
begin

text \<open>
  The string helpers of the IRC layer: mIRC formatting codes, nick prefixes
  and channel names (\<open>src/src/irc/formatting.rs\<close>), the slash-command parser
  (\<open>src/src/commands/parser.rs\<close>) and the ignore list
  (\<open>src/src/irc/ignore.rs\<close>).
\<close>

section \<open>Formatting codes\<close>

definition toggle_codes :: bytes where
  "toggle_codes = map byte_of [2, 29, 31, 30, 22, 15]"

definition colour_code :: char where "colour_code = byte_of 3"
definition hex_colour_code :: char where "hex_colour_code = byte_of 4"

text \<open>At most \<open>n\<close> leading characters of a class are consumed.\<close>

fun drop_class :: "(char \<Rightarrow> bool) \<Rightarrow> nat \<Rightarrow> bytes \<Rightarrow> bytes" where
  "drop_class P 0 s = s"
| "drop_class P (Suc n) [] = []"
| "drop_class P (Suc n) (c # s) = (if P c then drop_class P n s else c # s)"

text \<open>The foreground, and the background if a digit follows the comma.\<close>

definition drop_colour :: "(char \<Rightarrow> bool) \<Rightarrow> nat \<Rightarrow> bytes \<Rightarrow> bytes" where
  "drop_colour P n s =
     (let s1 = drop_class P n s in
      case s1 of
        x # d # r \<Rightarrow> if x = CHR '','' \<and> P d then drop_class P n (d # r) else s1
      | _ \<Rightarrow> s1)"

lemma drop_class_length: "length (drop_class P n s) \<le> length s"
  by (induction P n s rule: drop_class.induct) auto

lemma drop_colour_length: "length (drop_colour P n s) \<le> length s"
proof -
  have "length (drop_colour P n s) \<le> length (drop_class P n s)"
    by (auto simp: drop_colour_def Let_def split: list.split) (metis drop_class_length le_SucI length_Cons)
  with drop_class_length [of P n s] show ?thesis by (rule order_trans [rotated])
qed

lemma dropWhile_length: "length (dropWhile P s) \<le> length s"
  by (induction s) auto

function strip_irc_formatting :: "bytes \<Rightarrow> bytes" where
  "strip_irc_formatting [] = []"
| "strip_irc_formatting (b # s) =
     (if b \<in> set toggle_codes then strip_irc_formatting s
      else if b = colour_code then strip_irc_formatting (drop_colour is_ascii_digit 2 s)
      else if b = hex_colour_code then strip_irc_formatting (drop_colour is_ascii_hexdigit 6 s)
      else (b # takeWhile is_cont s) @ strip_irc_formatting (dropWhile is_cont s))"
  by pat_completeness auto
termination
  by (relation "measure length")
    (auto intro: le_less_trans [OF drop_colour_length] le_less_trans [OF dropWhile_length] simp: less_Suc_eq_le drop_colour_length dropWhile_length)

definition is_format_code :: "char \<Rightarrow> bool" where
  "is_format_code c \<longleftrightarrow> c \<in> set toggle_codes \<or> c = colour_code \<or> c = hex_colour_code"

lemma cont_not_code: "is_cont c \<Longrightarrow> \<not> is_format_code c"
  by (auto simp: is_format_code_def toggle_codes_def colour_code_def hex_colour_code_def is_cont_def)

lemma cont_run_clean:
  "c \<in> set (takeWhile is_cont s) \<Longrightarrow> c \<notin> set toggle_codes \<and> c \<noteq> colour_code \<and> c \<noteq> hex_colour_code"
  using cont_not_code unfolding is_format_code_def by (blast dest: set_takeWhileD)

lemma strip_clean: "c \<in> set (strip_irc_formatting s) \<Longrightarrow> \<not> is_format_code c"
  unfolding is_format_code_def
  by (induction s rule: strip_irc_formatting.induct) (auto split: if_splits dest: cont_run_clean)

lemma strip_plain: "(\<And>c. c \<in> set s \<Longrightarrow> \<not> is_format_code c) \<Longrightarrow> strip_irc_formatting s = s"
proof (induction s rule: strip_irc_formatting.induct)
  case (2 b s)
  have "\<not> is_format_code b" using 2(5) [of b] by simp
  moreover have "strip_irc_formatting (dropWhile is_cont s) = dropWhile is_cont s"
    using 2(4,5) \<open>\<not> is_format_code b\<close> by (auto simp: is_format_code_def dest: set_dropWhileD)
  ultimately show ?case by (simp add: is_format_code_def)
qed simp

text \<open>
  Stripping leaves no formatting code, leaves text without codes alone, and
  so a second pass changes nothing.
\<close>

theorem strip_formatting_clean:
  "(\<forall>c\<in>set (strip_irc_formatting s). \<not> is_format_code c) \<and>
   strip_irc_formatting (strip_irc_formatting s) = strip_irc_formatting s \<and>
   (strip_irc_formatting s = s \<longleftrightarrow> (\<forall>c\<in>set s. \<not> is_format_code c))"
  using strip_clean strip_plain by metis

lemma strip_formatting_clean_witness:
  "strip_irc_formatting (strip_irc_formatting (byte_of 3 # ''4,12red'')) = ''red''"
proof -
  have "strip_irc_formatting (byte_of 3 # ''4,12red'') = ''red''" by code_simp
  with strip_formatting_clean [of "byte_of 3 # ''4,12red''"] show ?thesis by simp
qed

section \<open>Nick prefixes and targets\<close>

definition is_status_char :: "char \<Rightarrow> bool" where
  "is_status_char c \<longleftrightarrow> c \<in> set ''~&@%+''"

definition split_nick_prefix :: "bytes \<Rightarrow> bytes \<times> bytes" where
  "split_nick_prefix s = (takeWhile is_status_char s, dropWhile is_status_char s)"

definition prefix_mode_char :: "bytes \<Rightarrow> bytes" where
  "prefix_mode_char c =
     (if c = ''~'' then ''q'' else if c = ''&'' then ''a'' else if c = ''@'' then ''o''
      else if c = ''%'' then ''h'' else if c = ''+'' then ''v'' else c)"

definition prefix_to_mode :: "bytes \<Rightarrow> bytes" where
  "prefix_to_mode s = concat (map prefix_mode_char (utf8_chars s))"

definition modes_to_prefix :: "bytes \<Rightarrow> bytes \<Rightarrow> bytes" where
  "modes_to_prefix modes prefix_order =
     concat (filter (\<lambda>c. contains_str (prefix_mode_char c) modes) (utf8_chars prefix_order))"

definition is_channel_name :: "bytes \<Rightarrow> bool" where
  "is_channel_name target \<longleftrightarrow> starts_with ''#'' target \<or> starts_with ''&'' target \<or>
     starts_with ''+'' target \<or> starts_with ''!'' target"

section \<open>The command parser\<close>

record parsed_command =
  pc_name :: bytes
  pc_args :: "bytes list"

definition greedy_commands :: "bytes list" where
  "greedy_commands = [''msg'', ''query'', ''notice'', ''me'', ''quit'', ''topic'', ''kb'', ''close'',
     ''disconnect'', ''set'', ''alias'', ''quote'', ''shell'', ''sh'']"

definition parse_command :: "(bytes \<Rightarrow> bytes) \<Rightarrow> bytes \<Rightarrow> parsed_command option" where
  "parse_command lower input =
     (if \<not> starts_with ''/'' input then None
      else
        let trimmed = tl input in
        (case find_char (CHR '' '') trimmed of
           None \<Rightarrow> Some \<lparr>pc_name = lower trimmed, pc_args = []\<rparr>
         | Some idx \<Rightarrow>
             let command = lower (take idx trimmed); rest = trim (drop (idx + 1) trimmed) in
             if command \<in> set greedy_commands then
               if command \<in> set [''me'', ''quit'', ''close'', ''quote''] then
                 Some \<lparr>pc_name = command, pc_args = [rest]\<rparr>
               else
                 (case find_char (CHR '' '') rest of
                    Some i \<Rightarrow> Some \<lparr>pc_name = command, pc_args = [take i rest, drop (i + 1) rest]\<rparr>
                  | None \<Rightarrow> Some \<lparr>pc_name = command, pc_args = [rest]\<rparr>)
             else Some \<lparr>pc_name = command, pc_args = split_whitespace rest\<rparr>))"

section \<open>Ignore rules\<close>

datatype ignore_level =
    IgnMsgs | IgnPublic | IgnNotices | IgnActions | IgnJoins | IgnParts | IgnQuits | IgnNicks
  | IgnKicks | IgnCtcps | IgnAll

record ignore_entry =
  ig_mask :: bytes
  ig_levels :: "ignore_level list"
  ig_channels :: "bytes list option"

definition regex_meta :: bytes where
  "regex_meta = ''.+^${}()|[]'' @ [byte_of 92]"

text \<open>
  The text of the regular expression a wildcard becomes.  The expression
  itself is compiled and run by the \<open>regex\<close> crate: \<open>is_match\<close>, an argument,
  answers for a text and a subject.  The cache of compiled expressions only
  saves time.
\<close>

definition wildcard_token :: "bytes \<Rightarrow> bytes" where
  "wildcard_token c =
     (if c = ''*'' then ''.*''
      else if c = ''?'' then ''.''
      else if length c = 1 \<and> hd c \<in> set regex_meta then byte_of 92 # c
      else c)"

definition wildcard_to_regex :: "bytes \<Rightarrow> bytes" where
  "wildcard_to_regex pat = ''(?i)'' @ ''^'' @ concat (map wildcard_token (utf8_chars pat)) @ ''$''"

definition build_mask :: "bytes \<Rightarrow> bytes option \<Rightarrow> bytes option \<Rightarrow> bytes" where
  "build_mask nick ident host = nick @ ''!'' @ unwrap_or ''*'' ident @ ''@'' @ unwrap_or ''*'' host"

definition mask_matches :: "(bytes \<Rightarrow> bytes \<Rightarrow> bool) \<Rightarrow> bytes \<Rightarrow> bytes \<Rightarrow> bytes \<Rightarrow> bool" where
  "mask_matches is_match msk nick full_mask =
     (if CHR ''!'' \<in> set msk then is_match (wildcard_to_regex msk) full_mask
      else is_match (wildcard_to_regex msk) nick)"

definition channel_allows :: "(bytes \<Rightarrow> bytes) \<Rightarrow> ignore_entry \<Rightarrow> bytes option \<Rightarrow> bool" where
  "channel_allows lower entry channel =
     (case ig_channels entry of
        None \<Rightarrow> True
      | Some chans \<Rightarrow>
          chans = [] \<or>
          (case channel of
             Some ch \<Rightarrow> list_ex (\<lambda>ec. lower ec = lower ch) chans
           | None \<Rightarrow> False))"

fun should_ignore_aux ::
  "(bytes \<Rightarrow> bytes) \<Rightarrow> (bytes \<Rightarrow> bytes \<Rightarrow> bool) \<Rightarrow> bytes \<Rightarrow> bytes \<Rightarrow> ignore_level \<Rightarrow> bytes option \<Rightarrow>
   ignore_entry list \<Rightarrow> bool" where
  "should_ignore_aux lower is_match nick full_mask level channel [] = False"
| "should_ignore_aux lower is_match nick full_mask level channel (entry # es) =
     (if \<not> list_ex (\<lambda>l. l = IgnAll \<or> l = level) (ig_levels entry) then
        should_ignore_aux lower is_match nick full_mask level channel es
      else if \<not> mask_matches is_match (ig_mask entry) nick full_mask then
        should_ignore_aux lower is_match nick full_mask level channel es
      else if \<not> channel_allows lower entry channel then
        should_ignore_aux lower is_match nick full_mask level channel es
      else True)"

definition should_ignore ::
  "(bytes \<Rightarrow> bytes) \<Rightarrow> (bytes \<Rightarrow> bytes \<Rightarrow> bool) \<Rightarrow> ignore_entry list \<Rightarrow> bytes \<Rightarrow> bytes option \<Rightarrow> bytes option \<Rightarrow>
   ignore_level \<Rightarrow> bytes option \<Rightarrow> bool" where
  "should_ignore lower is_match ignores nick ident host level channel =
     (ignores \<noteq> [] \<and> should_ignore_aux lower is_match nick (build_mask nick ident host) level channel ignores)"

definition matches_mask_patterns ::
  "(bytes \<Rightarrow> bytes \<Rightarrow> bool) \<Rightarrow> bytes list \<Rightarrow> bytes \<Rightarrow> bytes option \<Rightarrow> bytes option \<Rightarrow> bool" where
  "matches_mask_patterns is_match patterns nick ident host =
     (patterns \<noteq> [] \<and> list_ex (\<lambda>p. mask_matches is_match p nick (build_mask nick ident host)) patterns)"

lemma should_ignore_iff:
  "should_ignore lower is_match ignores nick ident host level channel \<longleftrightarrow>
   (\<exists>e\<in>set ignores. (IgnAll \<in> set (ig_levels e) \<or> level \<in> set (ig_levels e)) \<and>
      mask_matches is_match (ig_mask e) nick (build_mask nick ident host) \<and> channel_allows lower e channel)"
proof -
  have "should_ignore_aux lower is_match nick full level channel es \<longleftrightarrow>
     (\<exists>e\<in>set es. (IgnAll \<in> set (ig_levels e) \<or> level \<in> set (ig_levels e)) \<and>
      mask_matches is_match (ig_mask e) nick full \<and> channel_allows lower e channel)" for full es
    by (induction es) (auto simp: list_ex_iff)
  then show ?thesis by (auto simp: should_ignore_def)
qed

end
