(* ===== verification/E2e_Client.thy ===== *)
theory E2e_Client
  imports E2e_Sessions Irc_Split App_State Flood Netsplit Irc_Text
begin

text \<open>
  Where the protocol meets the client: the dispatch of handshake messages and
  of encrypted lines that arrive (\<open>try_dispatch_rpe2e_ctcp\<close>,
  \<open>try_decrypt_e2e\<close> and the notices they surface, \<open>src/src/irc/events.rs\<close>),
  and the encryption of what the user types
  (\<open>e2e_encrypt_or_passthrough\<close>, \<open>src/src/app/input.rs\<close>).

  \<open>now\<close> is the time stamp of the lines shown; \<open>lower\<close> is
  \<open>str::to_lowercase\<close> and \<open>lc\<close> the same by characters, as the manager takes
  it.  The debug lines (an environment variable turns them on) are left out.
\<close>

section \<open>State\<close>

text \<open>\<open>irc::proto::Prefix\<close>, the sender of a line as the protocol crate parses it.\<close>

datatype irc_prefix = Nickname bytes bytes bytes | ServerName bytes

record pending_send =
  sd_connection :: bytes
  sd_target :: bytes
  sd_notice :: bytes

record userhost_request =
  ur_connection :: bytes
  ur_nick :: bytes
  ur_buffer :: bytes
  ur_target :: bytes
  ur_channel :: "bytes option"
  ur_all :: bool

record client =
  cl_state :: app_state
  cl_manager :: "e2e_manager option"
  cl_sends :: "pending_send list"
  cl_requests :: "userhost_request list"
  cl_flood :: flood_state
  cl_netsplit :: netsplit_state
  cl_flood_protection :: bool
  cl_flood_exemptions :: "bytes list"
  cl_ignores :: "ignore_entry list"

text \<open>A client with nothing queued, and antiflood and ignores as after start-up.\<close>

abbreviation client_of :: "app_state \<Rightarrow> e2e_manager option \<Rightarrow> client" where
  "client_of s m \<equiv> \<lparr>cl_state = s, cl_manager = m, cl_sends = [], cl_requests = [],
     cl_flood = flood_state_new, cl_netsplit = netsplit_new, cl_flood_protection = True,
     cl_flood_exemptions = [], cl_ignores = []\<rparr>"

definition extract_nick_userhost :: "irc_prefix option \<Rightarrow> bytes \<times> bytes \<times> bytes" where
  "extract_nick_userhost p =
     (case p of
        Some (Nickname nick user host) \<Rightarrow> (nick, user, host)
      | Some (ServerName name) \<Rightarrow> (name, [], [])
      | None \<Rightarrow> ([], [], []))"

definition push_send :: "bytes \<Rightarrow> bytes \<Rightarrow> bytes \<Rightarrow> client \<Rightarrow> client" where
  "push_send conn target notice c =
     c\<lparr>cl_sends := cl_sends c @ [\<lparr>sd_connection = conn, sd_target = target, sd_notice = notice\<rparr>]\<rparr>"

section \<open>Lines shown to the user\<close>

definition active_or_server_buffer :: "(bytes \<Rightarrow> bytes) \<Rightarrow> app_state \<Rightarrow> bytes \<Rightarrow> bytes" where
  "active_or_server_buffer lower s conn =
     (case st_active s of
        Some a \<Rightarrow> a
      | None \<Rightarrow> make_buffer_id lower conn
          (case map_of (st_connections s) conn of None \<Rightarrow> ''Status'' | Some c \<Rightarrow> cn_label c))"

definition event_message :: "nat \<Rightarrow> i64 \<Rightarrow> bool \<Rightarrow> bytes \<Rightarrow> bytes list option \<Rightarrow> bytes \<Rightarrow> message" where
  "event_message n now highlight key params body = \<lparr>ms_id = n, ms_timestamp = now, ms_type = MsgEvent,
     ms_nick = None, ms_nick_mode = None, ms_text = body, ms_highlight = highlight,
     ms_event_key = Some key, ms_event_params = params, ms_tags = None\<rparr>"

definition emit_event ::
  "(bytes \<Rightarrow> bytes) \<Rightarrow> i64 \<Rightarrow> bytes \<Rightarrow> bool \<Rightarrow> bytes \<Rightarrow> bytes list option \<Rightarrow> bytes \<Rightarrow> app_state \<Rightarrow> app_state" where
  "emit_event lower now target highlight key params body s =
     (let (n, s1) = next_message_id s
      in add_message lower target (event_message n now highlight key params body) s1)"

definition emit_e2e_message ::
  "(bytes \<Rightarrow> bytes) \<Rightarrow> i64 \<Rightarrow> bytes \<Rightarrow> bytes \<Rightarrow> bool \<Rightarrow> bytes \<Rightarrow> app_state \<Rightarrow> app_state" where
  "emit_e2e_message lower now target key highlight body s =
     emit_event lower now target highlight key (Some [body]) body s"

definition notice_buffer :: "(bytes \<Rightarrow> bytes) \<Rightarrow> app_state \<Rightarrow> bytes \<Rightarrow> bytes \<Rightarrow> bytes" where
  "notice_buffer lower s conn channel =
     (if channel = [] then active_or_server_buffer lower s conn
      else
        let cand = make_buffer_id lower conn channel in
        if map_of (st_buffers s) cand \<noteq> None then cand else active_or_server_buffer lower s conn)"

definition indent_line :: bytes where
  "indent_line = byte_of 10 # ''      ''"

definition short_hex :: "crypto \<Rightarrow> bytes \<Rightarrow> bytes" where
  "short_hex cr b = take 16 (cr_hex_encode cr b)"

definition trust_notice_text :: "crypto \<Rightarrow> trust_change \<Rightarrow> (bytes \<times> bytes) option" where
  "trust_notice_text cr change =
     (case change of
        FingerprintChanged handle old_fp new_fp \<Rightarrow>
          Some (''[E2E] WARNING: '' @ handle @ '' identity key has CHANGED'' @
            indent_line @ ''old fp: '' @ short_hex cr old_fp @
            indent_line @ ''new fp: '' @ short_hex cr new_fp @
            indent_line @ ''run /e2e reverify '' @ handle @ '' to accept the new key'', ''e2e_error'')
      | HandleChanged old_handle new_handle fp \<Rightarrow>
          Some (''[E2E] notice: known key '' @ short_hex cr fp @ '' appeared under new handle'' @
            indent_line @ ''old handle: '' @ old_handle @
            indent_line @ ''new handle: '' @ new_handle @
            indent_line @ ''run /e2e reverify '' @ new_handle @ '' to accept'', ''e2e_warning'')
      | RevokedPeer handle fp \<Rightarrow>
          Some (''[E2E] ERROR: peer '' @ handle @ '' (fp='' @ short_hex cr fp @ '') is REVOKED; '' @
            ''handshake refused. run /e2e unrevoke '' @ handle @ '' to restore'', ''e2e_error'')
      | Known \<Rightarrow> None
      | New \<Rightarrow> None)"

definition show_trust_notice ::
  "(bytes \<Rightarrow> bytes) \<Rightarrow> crypto \<Rightarrow> i64 \<Rightarrow> bytes \<Rightarrow> pending_trust_notice \<Rightarrow> app_state \<Rightarrow> app_state" where
  "show_trust_notice lower cr now conn notice s =
     (case trust_notice_text cr (tn_change notice) of
        None \<Rightarrow> s
      | Some (body, key) \<Rightarrow>
          emit_event lower now (notice_buffer lower s conn (tn_channel notice)) True key None body s)"

definition surface_pending_trust_changes ::
  "(bytes \<Rightarrow> bytes) \<Rightarrow> crypto \<Rightarrow> i64 \<Rightarrow> bytes \<Rightarrow> e2e_manager \<Rightarrow> app_state \<Rightarrow> e2e_manager \<times> app_state" where
  "surface_pending_trust_changes lower cr now conn m s =
     (case take_pending_trust_changes m of
        (Inr notices, m1) \<Rightarrow> (m1, fold (show_trust_notice lower cr now conn) notices s)
      | (Inl _, m1) \<Rightarrow> (m1, s))"

definition accept_prompt :: "pending_accept_request \<Rightarrow> bytes" where
  "accept_prompt r =
     ''[E2E] Pending key exchange from '' @
     (case ar_nick r of None \<Rightarrow> ar_handle r | Some nick \<Rightarrow> nick @ '' ('' @ ar_handle r @ '')'') @
     '' for '' @ ar_channel r @ ''.'' @ indent_line @ ''Run /e2e accept <nick> or /e2e decline <nick>.''"

definition show_accept_request ::
  "(bytes \<Rightarrow> bytes) \<Rightarrow> i64 \<Rightarrow> bytes \<Rightarrow> pending_accept_request \<Rightarrow> app_state \<Rightarrow> app_state" where
  "show_accept_request lower now conn r s =
     emit_event lower now (notice_buffer lower s conn (ar_channel r)) True ''e2e_pending_accept'' None
       (accept_prompt r) s"

definition surface_pending_accept_requests ::
  "(bytes \<Rightarrow> bytes) \<Rightarrow> i64 \<Rightarrow> bytes \<Rightarrow> e2e_manager \<Rightarrow> app_state \<Rightarrow> e2e_manager \<times> app_state" where
  "surface_pending_accept_requests lower now conn m s =
     (case take_pending_accept_requests m of
        (Inr rs, m1) \<Rightarrow> (m1, fold (show_accept_request lower now conn) rs s)
      | (Inl _, m1) \<Rightarrow> (m1, s))"

section \<open>Handshake messages that arrive\<close>

datatype rpe2e_outcome = Handled | NotE2e

definition strip_ctcp_frame :: "bytes \<Rightarrow> bytes" where
  "strip_ctcp_frame body =
     (let trimmed = (case strip_prefix [byte_of 1] body of Some r \<Rightarrow> r | None \<Rightarrow> body)
      in if trimmed \<noteq> [] \<and> last trimmed = byte_of 1 then butlast trimmed else trimmed)"

definition send_reciprocals :: "crypto \<Rightarrow> bytes \<Rightarrow> bytes \<Rightarrow> e2e_manager \<Rightarrow> client \<Rightarrow> client" where
  "send_reciprocals cr conn nick m c =
     (case take_pending_outbound_keyreqs m of
        (Inr outs, m1) \<Rightarrow>
          fold (\<lambda>out. push_send conn nick (encode_keyreq_ctcp cr (ok_req out))) outs (c\<lparr>cl_manager := Some m1\<rparr>)
      | (Inl _, m1) \<Rightarrow> c\<lparr>cl_manager := Some m1\<rparr>)"

definition receive_keyreq ::
  "(bytes \<Rightarrow> bytes list) \<Rightarrow> (bytes \<Rightarrow> bytes) \<Rightarrow> crypto \<Rightarrow> i64 \<Rightarrow> bytes \<Rightarrow> bytes \<Rightarrow> bytes \<Rightarrow> key_req \<Rightarrow>
   e2e_manager \<Rightarrow> client \<Rightarrow> client" where
  "receive_keyreq lc lower cr now conn nick handle req m c =
     (let (result, m1) = handle_keyreq_with_nick lc cr handle (Some nick) req m;
          (m2, s2) = surface_pending_trust_changes lower cr now conn m1 (cl_state c);
          (m3, s3) = surface_pending_accept_requests lower now conn m2 s2;
          c3 = c\<lparr>cl_manager := Some m3, cl_state := s3\<rparr>
      in case result of
           Inr (Some rsp) \<Rightarrow> send_reciprocals cr conn nick m3 (push_send conn nick (encode_keyrsp_ctcp cr rsp) c3)
         | Inr None \<Rightarrow> c3
         | Inl _ \<Rightarrow> c3)"

definition receive_keyrsp ::
  "(bytes \<Rightarrow> bytes) \<Rightarrow> crypto \<Rightarrow> i64 \<Rightarrow> bytes \<Rightarrow> bytes \<Rightarrow> key_rsp \<Rightarrow> e2e_manager \<Rightarrow> client \<Rightarrow> client" where
  "receive_keyrsp lower cr now conn handle rsp m c =
     (let (_, m1) = handle_keyrsp cr handle rsp m;
          (m2, s2) = surface_pending_trust_changes lower cr now conn m1 (cl_state c)
      in c\<lparr>cl_manager := Some m2, cl_state := s2\<rparr>)"

definition receive_rekey ::
  "(bytes \<Rightarrow> bytes) \<Rightarrow> crypto \<Rightarrow> i64 \<Rightarrow> bytes \<Rightarrow> bytes \<Rightarrow> key_rekey \<Rightarrow> e2e_manager \<Rightarrow> client \<Rightarrow> client" where
  "receive_rekey lower cr now conn handle rekey m c =
     (let (_, m1) = handle_rekey cr handle rekey m;
          (m2, s2) = surface_pending_trust_changes lower cr now conn m1 (cl_state c)
      in c\<lparr>cl_manager := Some m2, cl_state := s2\<rparr>)"

definition try_dispatch_rpe2e_ctcp ::
  "(bytes \<Rightarrow> bytes list) \<Rightarrow> (bytes \<Rightarrow> bytes) \<Rightarrow> crypto \<Rightarrow> i64 \<Rightarrow> bytes \<Rightarrow> irc_prefix option \<Rightarrow> bytes \<Rightarrow>
   client \<Rightarrow> rpe2e_outcome option \<times> client" where
  "try_dispatch_rpe2e_ctcp lc lower cr now conn pfx body c =
     (let inner = strip_ctcp_frame body in
      if \<not> starts_with ctcp_tag inner then (Some NotE2e, c)
      else case cl_manager c of
          None \<Rightarrow> (None, c)
        | Some m \<Rightarrow>
            (let (nick, ident, host) = extract_nick_userhost pfx; handle = ident @ ''@'' @ host in
             case handshake_parse cr inner of
               Inl _ \<Rightarrow> (Some Handled, c)
             | Inr None \<Rightarrow> (Some NotE2e, c)
             | Inr (Some (Req req)) \<Rightarrow> (Some Handled, receive_keyreq lc lower cr now conn nick handle req m c)
             | Inr (Some (Rsp rsp)) \<Rightarrow> (Some Handled, receive_keyrsp lower cr now conn handle rsp m c)
             | Inr (Some (Rekey rekey)) \<Rightarrow> (Some Handled, receive_rekey lower cr now conn handle rekey m c)))"

section \<open>Encrypted lines that arrive\<close>

definition request_key :: "crypto \<Rightarrow> bytes \<Rightarrow> bytes \<Rightarrow> bytes \<Rightarrow> bytes \<Rightarrow> e2e_manager \<Rightarrow> client \<Rightarrow> client" where
  "request_key cr conn nick handle channel m c =
     (case allow_keyreq handle m of
        (Inr True, m1) \<Rightarrow>
          (case build_keyreq_for_peer cr channel (Some handle) m1 of
             (Inr req, m2) \<Rightarrow> push_send conn nick (encode_keyreq_ctcp cr req) (c\<lparr>cl_manager := Some m2\<rparr>)
           | (Inl _, m2) \<Rightarrow> c\<lparr>cl_manager := Some m2\<rparr>)
      | (_, m1) \<Rightarrow> c\<lparr>cl_manager := Some m1\<rparr>)"

definition try_decrypt_e2e ::
  "crypto \<Rightarrow> bytes \<Rightarrow> bytes \<Rightarrow> bytes \<Rightarrow> bytes \<Rightarrow> bytes \<Rightarrow> bool \<Rightarrow> client \<Rightarrow> bytes option \<times> client" where
  "try_decrypt_e2e cr conn nick handle channel body is_own c =
     (case cl_manager c of
        None \<Rightarrow> (None, c)
      | Some m \<Rightarrow>
          if \<not> starts_with ''+RPE2E01'' body then (None, c)
          else if is_own then (Some [], c)
          else case decrypt_incoming cr handle channel body m of
              (Inr (Plaintext s), m1) \<Rightarrow> (Some s, c\<lparr>cl_manager := Some m1\<rparr>)
            | (Inr (MissingKey h ch), m1) \<Rightarrow>
                (Some (''[E2E: awaiting session with '' @ h @ '']''), request_key cr conn nick h ch m1 c)
            | (Inr (Rejected reason), m1) \<Rightarrow>
                (Some (''[E2E rejected: '' @ reason @ '']''), c\<lparr>cl_manager := Some m1\<rparr>)
            | (Inl _, m1) \<Rightarrow> (None, c\<lparr>cl_manager := Some m1\<rparr>))"

section \<open>What the user types\<close>

text \<open>
  The nick a REKEY notice goes to is looked up among the users of the buffer;
  the order of a \<open>HashMap\<close>'s values is the table's.
\<close>

definition user_handle :: "nick_entry \<Rightarrow> bytes" where
  "user_handle u = (case ne_ident u of None \<Rightarrow> [] | Some i \<Rightarrow> i) @ ''@'' @ (case ne_host u of None \<Rightarrow> [] | Some h \<Rightarrow> h)"

definition nick_of_handle :: "app_state \<Rightarrow> bytes \<Rightarrow> bytes \<Rightarrow> bytes option" where
  "nick_of_handle s bid handle =
     (case map_of (st_buffers s) bid of
        None \<Rightarrow> None
      | Some b \<Rightarrow> map_option ne_nick (find (\<lambda>u. user_handle u = handle) (map snd (bf_users b))))"

definition send_rekey :: "bytes \<Rightarrow> bytes \<Rightarrow> pending_rekey_send \<Rightarrow> client \<Rightarrow> client" where
  "send_rekey conn bid rk c =
     (case nick_of_handle (cl_state c) bid (rs_target_handle rk) of
        None \<Rightarrow> c
      | Some nick \<Rightarrow> push_send conn nick (rs_notice_text rk) c)"

definition buffer_connection :: "app_state \<Rightarrow> bytes \<Rightarrow> bytes option" where
  "buffer_connection s bid =
     (case map_of (st_buffers s) bid of
        Some b \<Rightarrow> Some (bf_connection_id b)
      | None \<Rightarrow> map_option fst (split_once (CHR ''/'') bid))"

definition send_rekeys :: "bytes \<Rightarrow> pending_rekey_send list \<Rightarrow> client \<Rightarrow> client" where
  "send_rekeys bid rks c =
     (case buffer_connection (cl_state c) bid of
        None \<Rightarrow> c
      | Some conn \<Rightarrow> fold (send_rekey conn bid) rks c)"

definition plain_passthrough :: "bytes \<Rightarrow> (bytes list \<times> bytes) option" where
  "plain_passthrough body = Some (split_irc_message body message_max_bytes, body)"

definition config_enabled :: "e2e_manager \<Rightarrow> bytes \<Rightarrow> bool" where
  "config_enabled m context =
     (case get_channel_config (mg_keyring m) context of None \<Rightarrow> False | Some cfg \<Rightarrow> cc_enabled cfg)"

text \<open>The keyring context: none for plain text (\<open>Inl (Some _)\<close>) or a refusal (\<open>Inl None\<close>).\<close>

definition outgoing_context ::
  "app_state \<Rightarrow> e2e_manager \<Rightarrow> bytes \<Rightarrow> bytes \<Rightarrow> buffer_type \<Rightarrow> bytes \<Rightarrow> bytes option \<Rightarrow>
   (bytes list \<times> bytes) option + bytes" where
  "outgoing_context s m bid name t body captured =
     (case t of
        Channel \<Rightarrow> Inr name
      | Query \<Rightarrow>
          (case (case captured of
                   Some h \<Rightarrow> Some h
                 | None \<Rightarrow> (case map_of (st_buffers s) bid of None \<Rightarrow> None | Some b \<Rightarrow> bf_peer_handle b)) of
             Some handle \<Rightarrow> Inr (context_key name handle)
           | None \<Rightarrow> Inl (if config_enabled m name then None else plain_passthrough body))
      | _ \<Rightarrow> Inl (plain_passthrough body))"

definition encrypt_or_passthrough ::
  "crypto \<Rightarrow> bytes \<Rightarrow> bytes \<Rightarrow> buffer_type \<Rightarrow> bytes \<Rightarrow> bytes option \<Rightarrow> client \<Rightarrow>
   (bytes list \<times> bytes) option \<times> client" where
  "encrypt_or_passthrough cr bid name t body captured c =
     (if starts_with ''.'' body \<or> starts_with ''!'' body then (plain_passthrough body, c)
      else case cl_manager c of
          None \<Rightarrow> (plain_passthrough body, c)
        | Some m \<Rightarrow>
            (case outgoing_context (cl_state c) m bid name t body captured of
               Inl early \<Rightarrow> (early, c)
             | Inr context \<Rightarrow>
                 if \<not> config_enabled m context then (plain_passthrough body, c)
                 else
                   let (result, m1) = encrypt_outgoing cr context body m;
                       (rks, m2) = take_pending_rekey_sends m1;
                       c1 = c\<lparr>cl_manager := Some m2\<rparr>;
                       c2 = (case rks of Inr l \<Rightarrow> send_rekeys bid l c1 | Inl _ \<Rightarrow> c1)
                   in (case result of
                         Inr wires \<Rightarrow> Some (wires, body)
                       | Inl _ \<Rightarrow> plain_passthrough body, c2)))"

section \<open>USERHOST replies\<close>

definition trim_end_stars :: "bytes \<Rightarrow> bytes" where
  "trim_end_stars s = rev (dropWhile (\<lambda>x. x = CHR ''*'') (rev s))"

definition parse_userhost_reply :: "bytes \<Rightarrow> (bytes \<times> bytes) option" where
  "parse_userhost_reply entry =
     (case split_once (CHR ''='') entry of
        None \<Rightarrow> None
      | Some (nick_part, userhost_part) \<Rightarrow>
          let userhost = (case strip_prefix ''+'' userhost_part of
                 Some r \<Rightarrow> r
               | None \<Rightarrow> (case strip_prefix ''-'' userhost_part of Some r \<Rightarrow> r | None \<Rightarrow> userhost_part))
          in (case split_once (CHR ''@'') userhost of
                None \<Rightarrow> None
              | Some (ident, host) \<Rightarrow> Some (trim_end_stars nick_part, ident @ ''@'' @ host)))"

text \<open>
  The forget that a reply completes; the arrow and dash of the texts are the
  three bytes of U+2014.
\<close>

definition em_dash :: bytes where
  "em_dash = [byte_of 226, byte_of 128, byte_of 148]"

definition forgot_text :: "bytes \<Rightarrow> bytes \<Rightarrow> bytes option \<Rightarrow> bool \<Rightarrow> nat \<Rightarrow> bytes" where
  "forgot_text target handle channel all n =
     ''forgot '' @ target @ '' ('' @ handle @ '') '' @
     (if all then ''globally'' else ''on '' @ (case channel of None \<Rightarrow> [] | Some ch \<Rightarrow> ch)) @
     '' '' @ em_dash @ '' removed '' @ show_nat n @ '' row(s)''"

definition complete_forget ::
  "(bytes \<Rightarrow> bytes) \<Rightarrow> crypto \<Rightarrow> i64 \<Rightarrow> bytes \<Rightarrow> userhost_request \<Rightarrow> client \<Rightarrow> client" where
  "complete_forget lower cr now handle r c =
     (let show = (\<lambda>key highlight body c. c\<lparr>cl_state :=
                    emit_e2e_message lower now (ur_buffer r) key highlight body (cl_state c)\<rparr>);
          report = (\<lambda>(result, m1). (case result of
                      Inr n \<Rightarrow> show ''e2e_warning'' False (forgot_text (ur_target r) handle (ur_channel r) (ur_all r) n)
                    | Inl e \<Rightarrow> show ''e2e_error'' True (''/e2e forget: '' @ display_error e)) (c\<lparr>cl_manager := Some m1\<rparr>))
      in case cl_manager c of
           None \<Rightarrow> show ''e2e_error'' True ''USERHOST resolved but E2E is disabled'' c
         | Some m \<Rightarrow>
             if ur_all r then report (forget_peer_everywhere handle m)
             else (case ur_channel r of
                     Some channel \<Rightarrow> report (forget_peer_on_channel cr handle channel m)
                   | None \<Rightarrow> show ''e2e_error'' True (''/e2e forget: no channel context for '' @ ur_target r) c))"

text \<open>
  The loop over the requests removes every match and handles it before it
  looks on; a handled request adds none, so the matches and the others can be
  separated first.
\<close>

definition userhost_entry ::
  "(bytes \<Rightarrow> bytes) \<Rightarrow> crypto \<Rightarrow> i64 \<Rightarrow> bytes \<Rightarrow> bytes \<Rightarrow> client \<Rightarrow> client" where
  "userhost_entry lower cr now conn entry c =
     (case parse_userhost_reply entry of
        None \<Rightarrow> c
      | Some (nick, handle) \<Rightarrow>
          let hit = (\<lambda>r. ur_connection r = conn \<and> eq_ignore_ascii_case (ur_nick r) nick)
          in fold (complete_forget lower cr now handle) (filter hit (cl_requests c))
               (c\<lparr>cl_requests := filter (\<lambda>r. \<not> hit r) (cl_requests c)\<rparr>))"

definition handle_userhost_reply ::
  "(bytes \<Rightarrow> bytes) \<Rightarrow> crypto \<Rightarrow> i64 \<Rightarrow> bytes \<Rightarrow> bytes list \<Rightarrow> client \<Rightarrow> client" where
  "handle_userhost_reply lower cr now conn args c =
     (if cl_requests c = [] \<or> length args < 2 then c
      else fold (userhost_entry lower cr now conn) (split_whitespace (join_str '' '' (tl args))) c)"

section \<open>Traffic is a run of network steps\<close>

text \<open>
  Whatever arrives and whatever the user types moves the manager by network
  steps only: the decisions that grant or lift trust stay with the user.
\<close>

inductive client_step :: "(bytes \<Rightarrow> bytes list) \<Rightarrow> (bytes \<Rightarrow> bytes) \<Rightarrow> crypto \<Rightarrow> client \<Rightarrow> client \<Rightarrow> bool"
  for lc lower cr where
  ctcp: "client_step lc lower cr c (snd (try_dispatch_rpe2e_ctcp lc lower cr now conn pfx body c))"
| line: "client_step lc lower cr c (snd (try_decrypt_e2e cr conn nick handle channel body is_own c))"
| typed: "client_step lc lower cr c (snd (encrypt_or_passthrough cr bid name t body captured c))"
| drained: "client_step lc lower cr c (c\<lparr>cl_sends := []\<rparr>)"
| interface: "ui_step lower (cl_state c) s \<Longrightarrow> client_step lc lower cr c (c\<lparr>cl_state := s\<rparr>)"

inductive client_run :: "(bytes \<Rightarrow> bytes list) \<Rightarrow> (bytes \<Rightarrow> bytes) \<Rightarrow> crypto \<Rightarrow> client \<Rightarrow> client \<Rightarrow> bool"
  for lc lower cr c where
  client_refl: "client_run lc lower cr c c"
| client_more: "client_run lc lower cr c c' \<Longrightarrow> client_step lc lower cr c' c'' \<Longrightarrow> client_run lc lower cr c c''"

lemma net_run_trans: "net_run lc cr m m' \<Longrightarrow> net_run lc cr m' m'' \<Longrightarrow> net_run lc cr m m''"
  by (rotate_tac, induction rule: net_run.induct) (auto intro: run_step)

lemmas net_runs = net_step.intros [THEN run_step [OF run_refl]]
lemmas net_more = net_step.intros [THEN [2] run_step]

lemma push_send_manager [simp]:
  "cl_manager (push_send conn target notice c) = cl_manager c"
  "cl_state (push_send conn target notice c) = cl_state c"
  by (simp_all add: push_send_def)

lemma fold_push_send_manager [simp]: "cl_manager (fold (\<lambda>x. push_send conn (f x) (g x)) xs c) = cl_manager c"
  by (induction xs arbitrary: c) simp_all

lemma send_rekeys_manager [simp]: "cl_manager (send_rekeys bid rks c) = cl_manager c"
proof -
  have "cl_manager (fold (send_rekey conn bid) rks c) = cl_manager c" for conn
    by (induction rks arbitrary: c) (simp_all add: send_rekey_def split: option.split)
  then show ?thesis by (simp add: send_rekeys_def split: option.split)
qed

lemma drains:
  "take_pending_trust_changes m = (Inr (mg_trust_changes m), m\<lparr>mg_trust_changes := []\<rparr>)"
  "take_pending_accept_requests m = (Inr (mg_accepts m), m\<lparr>mg_accepts := []\<rparr>)"
  "take_pending_outbound_keyreqs m = (Inr (mg_outbound m), m\<lparr>mg_outbound := []\<rparr>)"
  "take_pending_rekey_sends m = (Inr (mg_rekey_sends m), m\<lparr>mg_rekey_sends := []\<rparr>)"
  by (simp_all add: mgr_defs exec)

lemmas drain_runs = net_more(9-12) [unfolded drains snd_conv]

lemma surfaced:
  "surface_pending_trust_changes lower cr now conn m s =
     (m\<lparr>mg_trust_changes := []\<rparr>, fold (show_trust_notice lower cr now conn) (mg_trust_changes m) s)"
  "surface_pending_accept_requests lower now conn m s =
     (m\<lparr>mg_accepts := []\<rparr>, fold (show_accept_request lower now conn) (mg_accepts m) s)"
  by (simp_all add: surface_pending_trust_changes_def surface_pending_accept_requests_def drains)

lemma manager_of_reciprocals:
  "cl_manager (send_reciprocals cr conn nick m c) = Some (m\<lparr>mg_outbound := []\<rparr>)"
  by (simp add: send_reciprocals_def drains)

lemmas receive_defs = receive_keyreq_def receive_keyrsp_def receive_rekey_def surfaced Let_def

lemma receive_keyreq_run:
  "\<exists>m'. cl_manager (receive_keyreq lc lower cr now conn nick handle req m c) = Some m' \<and> net_run lc cr m m'"
proof (cases "handle_keyreq_with_nick lc cr handle (Some nick) req m")
  case (Pair r m1)
  let ?m3 = "m1\<lparr>mg_trust_changes := [], mg_accepts := []\<rparr>"
  have "net_run lc cr m m1" using net_runs(1) [of lc cr m handle "Some nick" req] Pair by simp
  then have "net_run lc cr m ?m3" by (intro drain_runs(4) drain_runs(1))
  moreover from this have "net_run lc cr m (?m3\<lparr>mg_outbound := []\<rparr>)" by (rule drain_runs(3))
  ultimately show ?thesis
    by (auto simp: receive_defs Pair manager_of_reciprocals split: sum.split option.split)
qed

lemma receive_keyrsp_run:
  "\<exists>m'. cl_manager (receive_keyrsp lower cr now conn handle rsp m c) = Some m' \<and> net_run lc cr m m'"
  using drain_runs(1) [OF net_runs(2) [of lc cr m handle rsp]]
  by (cases "handle_keyrsp cr handle rsp m") (simp add: receive_defs)

lemma receive_rekey_run:
  "\<exists>m'. cl_manager (receive_rekey lower cr now conn handle rk m c) = Some m' \<and> net_run lc cr m m'"
  using drain_runs(1) [OF net_runs(3) [of lc cr m handle rk]]
  by (cases "handle_rekey cr handle rk m") (simp add: receive_defs)

lemma rel_run_same: "rel_option (net_run lc cr) x x"
  by (cases x) (auto intro: run_refl)

lemma rel_of_run: "\<exists>m'. x = Some m' \<and> net_run lc cr m m' \<Longrightarrow> rel_option (net_run lc cr) (Some m) x"
  by auto

lemma dispatch_run:
  "rel_option (net_run lc cr) (cl_manager c) (cl_manager (snd (try_dispatch_rpe2e_ctcp lc lower cr now conn pfx body c)))"
proof (cases "cl_manager c")
  case (Some m)
  obtain nick ident host where pfx: "extract_nick_userhost pfx = (nick, ident, host)" by (metis prod_cases3)
  show ?thesis
    using receive_keyreq_run [THEN rel_of_run] receive_keyrsp_run [THEN rel_of_run]
      receive_rekey_run [THEN rel_of_run] rel_run_same [of lc cr "Some m"]
    by (simp add: try_dispatch_rpe2e_ctcp_def Some pfx Let_def split: sum.split option.split handshake_msg.split)
qed (simp add: try_dispatch_rpe2e_ctcp_def Let_def rel_option_iff)

lemma request_key_run:
  "\<exists>m'. cl_manager (request_key cr conn nick handle channel m c) = Some m' \<and> net_run lc cr m m'"
proof -
  let ?m1 = "snd (allow_keyreq handle m)"
  have "net_run lc cr m ?m1" "net_run lc cr m (snd (build_keyreq_for_peer cr channel (Some handle) ?m1))"
    by (blast intro: run_refl net_more)+
  then show ?thesis
    by (auto simp: request_key_def split: prod.splits sum.splits bool.splits)
qed

lemma decrypt_run:
  "rel_option (net_run lc cr) (cl_manager c) (cl_manager (snd (try_decrypt_e2e cr conn nick handle channel body own c)))"
proof (cases "cl_manager c")
  case (Some m)
  let ?r = "decrypt_incoming cr handle channel body m"
  have m1: "net_run lc cr m (snd ?r)" by (blast intro: net_runs)
  have key: "\<exists>m'. cl_manager (request_key cr conn nick h ch (snd ?r) c) = Some m' \<and> net_run lc cr m m'" for h ch
    using request_key_run [of cr conn nick h ch "snd ?r" c lc] net_run_trans [OF m1] by blast
  from key have rel: "rel_option (net_run lc cr) (Some m) (cl_manager (request_key cr conn nick h ch (snd ?r) c))" for h ch
    by (rule rel_of_run)
  show ?thesis using m1 rel rel_run_same [of lc cr "Some m"]
    by (cases ?r) (auto simp: try_decrypt_e2e_def Some split: sum.split decrypt_outcome.split)
qed (simp add: try_decrypt_e2e_def)

lemma typed_run:
  "rel_option (net_run lc cr) (cl_manager c)
     (cl_manager (snd (encrypt_or_passthrough cr bid name t body captured c)))"
proof (cases "cl_manager c")
  case (Some m)
  have "net_run lc cr m (m'\<lparr>mg_rekey_sends := []\<rparr>)" if "encrypt_outgoing cr ctx body m = (r, m')" for ctx r m'
    using drain_runs(2) [OF net_runs(5) [of lc cr m ctx body]] that by simp
  then show ?thesis using rel_run_same [of lc cr "Some m"]
    by (auto simp: encrypt_or_passthrough_def Some drains split: sum.split prod.split)
qed (simp add: encrypt_or_passthrough_def)

lemma client_step_run: "client_step lc lower cr c c' \<Longrightarrow> rel_option (net_run lc cr) (cl_manager c) (cl_manager c')"
  by (induction rule: client_step.induct) (simp_all add: dispatch_run decrypt_run typed_run rel_run_same)

lemma client_run_net_run: "client_run lc lower cr c c' \<Longrightarrow> rel_option (net_run lc cr) (cl_manager c) (cl_manager c')"
proof (induction rule: client_run.induct)
  case (client_more c' c'')
  then show ?case using client_step_run [OF client_more.hyps(2)] by (auto simp: option_rel_Some1 rel_option_iff intro: net_run_trans split: option.splits)
qed (rule rel_run_same)

section \<open>Refinement\<close>

text \<open>
  Everything that arrives from the network and everything the user types
  is, for the manager, a run of network steps, whatever CTCP bodies, encrypted
  lines, time stamps and senders the other side chooses.  So each invariant of
  network runs is an invariant of the running client.
\<close>

theorem traffic_refines_network:
  assumes "client_run lc lower cr c c'"
  shows "rel_option (net_run lc cr) (cl_manager c) (cl_manager c')"
  by (rule client_run_net_run [OF assms])

lemma traffic_refines_network_witness:
  "\<exists>m'. cl_manager (snd (try_dispatch_rpe2e_ctcp ascii_lower_table ascii_lower toy_crypto 0 ''n'' None ''RPEE2E KEYREQ''
      (client_of app_state_new (Some (example_manager (keyring_new None)))))) = Some m' \<and>
    net_run ascii_lower_table toy_crypto (example_manager (keyring_new None)) m'"
proof -
  let ?c = "client_of app_state_new (Some (example_manager (keyring_new None)))"
  have "client_run ascii_lower_table ascii_lower toy_crypto ?c
      (snd (try_dispatch_rpe2e_ctcp ascii_lower_table ascii_lower toy_crypto 0 ''n'' None ''RPEE2E KEYREQ'' ?c))"
    by (rule client_more [OF client_refl client_step.ctcp])
  from traffic_refines_network [OF this] show ?thesis by (simp add: option_rel_Some1)
qed

end
