(* ===== verification/E2e_Rotation.thy ===== *)
theory E2e_Rotation
  imports E2e_Client
begin

text \<open>
  The lazy rotation of an outgoing key (\<open>get_or_generate_outgoing_key\<close>,
  \<open>build_rekey_for_peer\<close>, \<open>handle_rekey\<close> in \<open>src/src/e2e/manager.rs\<close>), followed
  through two clients: the REKEY frames go to the recorded recipients and to
  nobody else, and a recipient that gets one reads what is written next.
\<close>

section \<open>One REKEY\<close>

text \<open>The key wrapped for a peer, as the peer unwraps it.\<close>

definition opens_rekey :: "crypto \<Rightarrow> e2e_manager \<Rightarrow> bytes \<Rightarrow> bytes \<Rightarrow> bytes \<Rightarrow> key_rekey \<Rightarrow> bool" where
  "opens_rekey cr m c sk seed rk \<longleftrightarrow>
     keyrekey_wf rk \<and> kk_channel rk = c \<and> kk_pubkey rk = identity_pub cr m \<and>
     kk_sig rk = sig_sign cr (mg_seed m) (sig_payload_keyrekey c (kk_pubkey rk) (kk_eph_pub rk) (kk_wrap_nonce rk)
       (kk_wrap_ct rk) (kk_nonce rk)) \<and>
     aead_decrypt cr (derive_wrap_key cr (ed25519_seed_to_x25519 cr seed) (kk_eph_pub rk) (rekey_info c))
       (kk_wrap_nonce rk) (rekey_info c) (kk_wrap_ct rk) = Inr sk"

lemma build_rekey_opens:
  assumes cr: "good_crypto cr" "length (mg_seed m) = 32" and peer: "pr_pubkey p = cr_ed_public cr seed" "length seed = 32"
    and sk: "length sk = 32"
  obtains rk m' where "build_rekey_for_peer cr c p sk m = (Inr rk, m')" "opens_rekey cr m c sk seed rk"
proof -
  have ok: "aead_ok cr" "keys_ok cr" using cr(1) by (simp_all add: good_crypto_def)
  define eph where "eph = drawn 32 m"
  define px where "px = cr_to_montgomery cr (cr_ed_public cr seed)"
  define wk where "wk = derive_wrap_key cr eph px (rekey_info c)"
  have px: "ed25519_pub_to_x25519 cr (pr_pubkey p) = Inr px"
    using ok(2) peer by (simp add: ed25519_pub_to_x25519_def px_def keys_ok_def)
  have "px = cr_x_public cr (cr_to_scalar cr seed)" "length (cr_to_scalar cr seed) = 32"
    using ok(2) peer(2) by (simp_all add: px_def keys_ok_def)
  then have agree: "derive_wrap_key cr (ed25519_seed_to_x25519 cr seed) (cr_x_public cr eph) (rekey_info c) = wk"
    using wrap_key_agree [OF ok(2), of "cr_to_scalar cr seed" eph "rekey_info c"]
    by (simp add: wk_def ed25519_seed_to_x25519_def eph_def)
  define n where "n = drawn 24 (step_env m)"
  have "length wk = 32" by (simp add: wk_def wrap_key_length [OF ok(2)])
  from aead_roundtrip [OF ok(1) this, of n sk "rekey_info c"] sk obtain ct where
    ct: "aead_encrypt cr n wk (rekey_info c) sk = Inr (n, ct)" "aead_decrypt cr wk n (rekey_info c) ct = Inr sk"
    by (auto simp: n_def)
  define rn where "rn = drawn 16 (step_env (step_env m))"
  define rk where "rk = \<lparr>kk_channel = c, kk_pubkey = identity_pub cr m, kk_eph_pub = cr_x_public cr eph,
     kk_wrap_nonce = n, kk_wrap_ct = ct, kk_nonce = rn,
     kk_sig = sig_sign cr (mg_seed m) (sig_payload_keyrekey c (identity_pub cr m) (cr_x_public cr eph) n ct rn)\<rparr>"
  have "build_rekey_for_peer cr c p sk m = (Inr rk, step_env (step_env (step_env m)))"
    using px ct(1) by (simp add: build_rekey_for_peer_def exec Let_def eph_def wk_def n_def rn_def rk_def identity_pub_def)
  moreover have "keyrekey_wf rk"
    using ok(2) cr(2) by (simp add: keyrekey_wf_def rk_def identity_pub_def keys_ok_def n_def rn_def sig_sign_def eph_def)
  then have "opens_rekey cr m c sk seed rk" using ct(2) agree by (simp add: opens_rekey_def rk_def)
  ultimately show thesis by (rule that)
qed

lemma rekey_installs:
  assumes cr: "good_crypto cr" "key_ok (mg_keyring b)" "length (mg_seed m) = 32" and len: "length sk = 32"
    and rk: "opens_rekey cr m c sk (mg_seed b) rk"
    and known: "classify_peer_change (mg_keyring b) (own_fingerprint cr m) h = Inr Known"
    and pin: "\<And>fp. session_pin (mg_keyring b) (h, c) = Some fp \<Longrightarrow> fp = own_fingerprint cr m"
  obtains b' t where "handle_rekey cr h rk b = (Inr (), b')"
    "get_incoming_session cr (mg_keyring b') h c = Inr (Some \<lparr>is_handle = h, is_channel = c,
       is_fingerprint = own_fingerprint cr m, is_sk = sk, is_status = Trusted, is_created_at = t\<rparr>)"
proof -
  have ok: "gcm_ok cr" "keys_ok cr" using cr(1) by (simp_all add: good_crypto_def)
  have fp: "fingerprint cr (kk_pubkey rk) = own_fingerprint cr m"
    using rk by (simp add: opens_rekey_def own_fingerprint_def)
  have sig: "sig_verify cr (kk_pubkey rk) (sig_payload_keyrekey (kk_channel rk) (kk_pubkey rk) (kk_eph_pub rk)
      (kk_wrap_nonce rk) (kk_wrap_ct rk) (kk_nonce rk)) (kk_sig rk) = Inr ()"
    using rk sig_verify_sign [OF ok(2) cr(3)] by (simp add: opens_rekey_def identity_pub_def)
  have rekey: "kk_channel rk = c" "aead_decrypt cr (derive_wrap_key cr (ed25519_seed_to_x25519 cr (mg_seed b))
      (kk_eph_pub rk) (rekey_info c)) (kk_wrap_nonce rk) (rekey_info c) (kk_wrap_ct rk) = Inr sk"
    using rk by (simp_all add: opens_rekey_def)
  let ?iv = "drawn 12 (step_env b)"
  define s where "s = \<lparr>is_handle = h, is_channel = c, is_fingerprint = own_fingerprint cr m, is_sk = sk,
     is_status = Trusted, is_created_at = clock_of b\<rparr>"
  have "length (is_fingerprint s) = 16" "length (is_sk s) = 32" "length ?iv = 12"
    using len ok(2) by (simp_all add: s_def own_fingerprint_def fingerprint_length)
  from install_result [OF ok(1) cr(2) this(3,1,2)] pin obtain kr where
    kr: "install_incoming_session_strict cr ?iv s (mg_keyring b) = Inr kr" "get_incoming_session cr kr h c = Inr (Some s)"
    by (auto simp: s_def split: sum.splits)
  have "handle_rekey cr h rk b = (Inr (), (step_env (step_env b))\<lparr>mg_keyring := kr\<rparr>)"
    using rekey kr(1) len by (simp add: handle_rekey_def exec sig [unfolded rekey(1)] fp known Let_def s_def)
  with kr(2) show thesis by (intro that [where t = "clock_of b" and b' = "(step_env (step_env b))\<lparr>mg_keyring := kr\<rparr>"]) (simp_all add: s_def)
qed

section \<open>The distribution\<close>

definition rekey_frame :: "crypto \<Rightarrow> bytes \<Rightarrow> key_rekey \<Rightarrow> pending_rekey_send" where
  "rekey_frame cr h rk = \<lparr>rs_target_handle = h, rs_notice_text = ctcp_frame (encode_keyrekey cr rk)\<rparr>"

lemma distribute_one_sends:
  "\<exists>sends. mg_rekey_sends (snd (distribute_one cr c sk r m)) = mg_rekey_sends m @ sends \<and>
     rs_target_handle ` set sends \<subseteq> {fst r}"
proof -
  have same: "mg_rekey_sends (snd (build_rekey_for_peer cr c p sk m)) = mg_rekey_sends m" for p
  proof -
    have env: "env_blind (\<lambda>s. mg_rekey_sends s = mg_rekey_sends m)" by (simp add: env_blind_def)
    have "keeps (\<lambda>s. mg_rekey_sends s = mg_rekey_sends m) (build_rekey_for_peer cr c p sk)"
      unfolding build_rekey_for_peer_def by (intro wf_intros keeps_env [OF env])
    from keepsD [OF this refl] show ?thesis .
  qed
  show ?thesis
    by (auto simp: distribute_one_def exec same split: sum.split option.split)
qed

lemma distribute_sends:
  "\<exists>sends. mg_rekey_sends (snd (distribute_rekeys cr c sk rs m)) = mg_rekey_sends m @ sends \<and>
     rs_target_handle ` set sends \<subseteq> fst ` set rs"
proof (induction rs arbitrary: m)
  case (Cons r rs)
  from distribute_one_sends [of cr c sk r m] obtain s1 where
    s1: "mg_rekey_sends (snd (distribute_one cr c sk r m)) = mg_rekey_sends m @ s1" "rs_target_handle ` set s1 \<subseteq> {fst r}"
    by blast
  obtain res m1 where one: "distribute_one cr c sk r m = (res, m1)" by fastforce
  from Cons.IH [of m1] obtain s2 where
    s2: "mg_rekey_sends (snd (distribute_rekeys cr c sk rs m1)) = mg_rekey_sends m1 @ s2"
      "rs_target_handle ` set s2 \<subseteq> fst ` set rs" by blast
  show ?case
  proof (cases res)
    case (Inl e)
    with one s1 show ?thesis by (intro exI [of _ s1]) (auto simp: bind_st_def)
  next
    case (Inr u)
    with one s1 s2 show ?thesis by (intro exI [of _ "s1 @ s2"]) (auto simp: bind_st_def)
  qed
qed (simp add: exec)

text \<open>Every recipient whose peer row can be read is sent the key, and the loop goes on past all of them.\<close>

lemma distribute_one_keeps:
  assumes "\<And>m. f (step_env m) = f m" "\<And>m q. f (m\<lparr>mg_rekey_sends := q\<rparr>) = f m"
  shows "f (snd (distribute_one cr c k r m)) = f m"
proof -
  have "snd (distribute_rekeys cr c k [r] m) = snd (distribute_one cr c k r m)"
    by (auto simp: bind_st_def ret_st_def split: prod.split sum.split)
  then show ?thesis using keeps_distribute_field [of f cr c k "[r]" m] assms by simp
qed

lemma distribute_one_succeeds:
  assumes "get_peer_by_fingerprint (mg_keyring m) fp = Inr p"
  shows "fst (distribute_one cr c sk (h, fp) m) = Inr ()"
  using assms by (auto simp: distribute_one_def exec split: option.split sum.split)

lemma distribute_succeeds:
  assumes "\<forall>(h, fp) \<in> set rs. \<exists>p. get_peer_by_fingerprint (mg_keyring m) fp = Inr p"
  shows "fst (distribute_rekeys cr c sk rs m) = Inr ()"
  using assms
proof (induction rs arbitrary: m)
  case (Cons r rs)
  obtain h fp where r: "r = (h, fp)" by (cases r)
  have "fst (distribute_one cr c sk (h, fp) m) = Inr ()"
    using Cons.prems r distribute_one_succeeds by fastforce
  moreover have "mg_keyring (snd (distribute_one cr c sk (h, fp) m)) = mg_keyring m"
    by (simp add: distribute_one_keeps)
  ultimately show ?case using Cons r by (auto simp: bind_st_def split: prod.split)
qed (simp add: exec)

lemma distribute_reaches:
  assumes cr: "good_crypto cr" "length (mg_seed m) = 32" "length sk = 32"
    and rows: "\<forall>(h, fp) \<in> set rs. \<exists>p. get_peer_by_fingerprint (mg_keyring m) fp = Inr p"
    and mem: "(h, fp) \<in> set rs" "get_peer_by_fingerprint (mg_keyring m) fp = Inr (Some p)"
      "pr_pubkey p = cr_ed_public cr seed" "length seed = 32"
  shows "\<exists>rk. rekey_frame cr h rk \<in> set (mg_rekey_sends (snd (distribute_rekeys cr c sk rs m))) \<and>
    opens_rekey cr m c sk seed rk"
  using rows mem(1) cr(2) mem(2)
proof (induction rs arbitrary: m)
  case (Cons r rs)
  obtain m1 where one: "distribute_one cr c sk r m = (Inr (), m1)"
  proof -
    obtain p' where "get_peer_by_fingerprint (mg_keyring m) (snd r) = Inr p'"
      using Cons.prems(1) by (auto simp: case_prod_beta)
    from distribute_one_succeeds [OF this, of cr c sk "fst r"] that show thesis
      by (metis prod.collapse)
  qed
  have m1: "mg_seed m1 = mg_seed m" "mg_keyring m1 = mg_keyring m"
    using distribute_one_keeps [of mg_seed cr c sk r m] distribute_one_keeps [of mg_keyring cr c sk r m] one by simp_all
  have snd: "snd (distribute_rekeys cr c sk (r # rs) m) = snd (distribute_rekeys cr c sk rs m1)"
    by (simp add: bind_st_def one)
  show ?case
  proof (cases "r = (h, fp)")
    case True
    from build_rekey_opens [OF cr(1) Cons.prems(3) mem(3,4) cr(3)] obtain rk m2 where
      rk: "build_rekey_for_peer cr c p sk m = (Inr rk, m2)" "opens_rekey cr m c sk seed rk" .
    have "rekey_frame cr h rk \<in> set (mg_rekey_sends m1)"
      using one Cons.prems(4) rk(1) True by (auto simp: distribute_one_def exec rekey_frame_def)
    then show ?thesis unfolding snd using distribute_sends [of cr c sk rs m1] rk(2) by auto
  next
    case False
    then have "\<exists>rk. rekey_frame cr h rk \<in> set (mg_rekey_sends (snd (distribute_rekeys cr c sk rs m1))) \<and>
        opens_rekey cr m1 c sk seed rk"
      using Cons.prems m1 by (intro Cons.IH) auto
    then show ?thesis unfolding snd by (simp add: opens_rekey_def m1 identity_pub_def)
  qed
qed simp

section \<open>A rotation from end to end\<close>

lemma rotation_runs:
  assumes cr: "good_crypto cr" "key_ok (mg_keyring m)"
    and os: "get_outgoing_session cr (mg_keyring m) c = Inr (Some os)" "os_pending_rotation os"
    and rs: "list_outgoing_recipients (mg_keyring m) c = Inr rs"
    and rows: "\<forall>(h, fp) \<in> set rs. \<exists>p. get_peer_by_fingerprint (mg_keyring m) fp = Inr p"
  obtains m4 where
    "get_or_generate_outgoing_key cr c m = (Inr (drawn 32 m), snd (distribute_rekeys cr c (drawn 32 m) rs m4))"
    "mg_seed m4 = mg_seed m" "get_peer_by_fingerprint (mg_keyring m4) = get_peer_by_fingerprint (mg_keyring m)"
    "mg_rekey_sends m4 = mg_rekey_sends m"
proof -
  let ?iv = "drawn 12 (step_env (step_env m))"
  obtain enc where "encode_secret cr ?iv (mg_keyring m) (drawn 32 m) = Inr enc"
    using encode_secret_total [of cr "mg_keyring m" ?iv "drawn 32 m"] cr by (auto simp: good_crypto_def)
  then have set: "set_outgoing_session cr ?iv c (drawn 32 m) (clock_of (step_env m)) (mg_keyring m) =
      Inr ((mg_keyring m)\<lparr>kr_outgoing := tbl_replace c
        \<lparr>ow_sk = enc, ow_created_at = clock_of (step_env m), ow_pending_rotation = 0\<rparr> (kr_outgoing (mg_keyring m))\<rparr>)"
    (is "_ = Inr ?kr") by (simp add: set_outgoing_session_def)
  let ?m4 = "(step_env (step_env (step_env m)))\<lparr>mg_keyring := ?kr\<rparr>"
  have "list_outgoing_recipients ?kr c = Inr rs" using rs by (simp add: list_outgoing_recipients_def)
  moreover have peers: "get_peer_by_fingerprint ?kr = get_peer_by_fingerprint (mg_keyring m)"
    by (simp add: get_peer_by_fingerprint_def fun_eq_iff)
  moreover have "fst (distribute_rekeys cr c (drawn 32 m) rs ?m4) = Inr ()"
    using rows peers by (intro distribute_succeeds) simp
  then obtain m5 where "distribute_rekeys cr c (drawn 32 m) rs ?m4 = (Inr (), m5)"
    by (cases "distribute_rekeys cr c (drawn 32 m) rs ?m4") simp
  ultimately have "generate_outgoing_key cr c m =
      (Inr (drawn 32 m), snd (distribute_rekeys cr c (drawn 32 m) rs ?m4))"
    using generate_exec [OF os(1) set] os(2)
    by (simp add: rotation_pending_def Let_def)
  then have "get_or_generate_outgoing_key cr c m =
      (Inr (drawn 32 m), snd (distribute_rekeys cr c (drawn 32 m) rs ?m4))"
    using os by (simp add: get_or_generate_outgoing_key_def exec)
  with peers show thesis by (intro that [of ?m4]) simp_all
qed

lemma encrypt_keeps_sends:
  assumes "encrypt_outgoing cr c text m = (Inr lines, m')" "get_or_generate_outgoing_key cr c m = (Inr sk, m1)"
  shows "mg_rekey_sends m' = mg_rekey_sends m1"
proof -
  have env: "env_blind (\<lambda>s. mg_rekey_sends s = mg_rekey_sends m1)" by (simp add: env_blind_def)
  have chunks: "keeps (\<lambda>s. mg_rekey_sends s = mg_rekey_sends m1) (encrypt_chunks cr k c i t n j ps)" for k i t n j ps
    by (induction ps arbitrary: j) (auto intro!: wf_intros keeps_env [OF env] simp: Let_def)
  have "keeps (\<lambda>s. mg_rekey_sends s = mg_rekey_sends m1) (\<lambda>s. bind_st (lift_st (\<lambda>_. split_plaintext text)) (\<lambda>chunks.
     if 255 < length chunks then fail_st (ChunkLimit 255)
     else if length chunks = 0 then fail_st err_zero_chunks
     else bind_st (draw 8) (\<lambda>msgid. bind_st now_unix (\<lambda>ts.
       encrypt_chunks cr sk c msgid ts (of_nat (length chunks)) 0 chunks))) s)"
    by (intro wf_intros keeps_env [OF env] chunks)
  from keepsD [OF this refl] show ?thesis
    using assms by (simp add: encrypt_outgoing_def bind_st_def [of "get_or_generate_outgoing_key cr c"])
qed

lemma strip_frame [simp]: "strip_ctcp_frame (ctcp_frame b) = b"
  by (simp add: strip_ctcp_frame_def ctcp_frame_def)

lemma dispatch_rekey:
  assumes "good_crypto cr" "keyrekey_wf rk" "no_ws (kk_channel rk)" "cl_manager cl = Some b"
    "handle_rekey cr (ident @ ''@'' @ host) rk b = (Inr (), b')"
  shows "fst (try_dispatch_rpe2e_ctcp lc lower cr now conn (Some (Nickname nick ident host))
      (ctcp_frame (encode_keyrekey cr rk)) cl) = Some Handled \<and>
    cl_manager (snd (try_dispatch_rpe2e_ctcp lc lower cr now conn (Some (Nickname nick ident host))
      (ctcp_frame (encode_keyrekey cr rk)) cl)) = Some (b'\<lparr>mg_trust_changes := []\<rparr>)"
proof -
  have "handshake_parse cr (encode_msg cr (Rekey rk)) = Inr (Some (Rekey rk))"
    using assms(1-3) by (intro handshake_parse_encode) (simp_all add: good_crypto_def msg_wf_def msg_channel_def)
  then have parse: "handshake_parse cr (encode_keyrekey cr rk) = Inr (Some (Rekey rk))"
    by (simp add: encode_msg_def)
  have "starts_with ctcp_tag (encode_keyrekey cr rk)" by (simp add: encode_keyrekey_def starts_with_iff)
  then show ?thesis using assms(4,5) parse
    by (simp add: try_dispatch_rpe2e_ctcp_def extract_nick_userhost_def receive_rekey_def Let_def
        surface_pending_trust_changes_def take_pending_trust_changes_def exec)
qed

text \<open>The manager's side: the frame is queued, and the recipient's client takes it and reads the text.\<close>

lemma rotation_reaches:
  assumes cr: "good_crypto cr" "key_ok (mg_keyring m)" "key_ok (mg_keyring b)"
      "length (mg_seed m) = 32" "length (mg_seed b) = 32"
    and os: "get_outgoing_session cr (mg_keyring m) c = Inr (Some os)" "os_pending_rotation os"
    and rs: "list_outgoing_recipients (mg_keyring m) c = Inr rs" "(h, fp) \<in> set rs"
    and rows: "\<forall>(h, fp) \<in> set rs. \<exists>p. get_peer_by_fingerprint (mg_keyring m) fp = Inr p"
    and peer: "get_peer_by_fingerprint (mg_keyring m) fp = Inr (Some p)" "pr_pubkey p = identity_pub cr b"
    and known: "classify_peer_change (mg_keyring b) (own_fingerprint cr m) (ident @ ''@'' @ host) = Inr Known"
    and pin: "\<And>fp. session_pin (mg_keyring b) (ident @ ''@'' @ host, c) = Some fp \<Longrightarrow> fp = own_fingerprint cr m"
    and send: "encrypt_outgoing cr c text m = (Inr lines, m')" "utf8_valid text" "no_ws c"
    and client: "cl_manager cl = Some b"
  shows "\<exists>frame b' pieces ts. \<lparr>rs_target_handle = h, rs_notice_text = frame\<rparr> \<in> set (mg_rekey_sends m') \<and>
    fst (try_dispatch_rpe2e_ctcp lc lower cr now conn (Some (Nickname nick ident host)) frame cl) = Some Handled \<and>
    cl_manager (snd (try_dispatch_rpe2e_ctcp lc lower cr now conn (Some (Nickname nick ident host)) frame cl)) = Some b' \<and>
    concat pieces = text \<and> length pieces = length lines \<and> ts \<in> range (ev_clock (mg_env m)) \<and>
    (\<forall>i. i < length lines \<and> sint (i64_abs (clock_of b' - ts)) \<le> sint (mg_tolerance b') \<longrightarrow>
       decrypt_incoming cr (ident @ ''@'' @ host) c (lines ! i) b' = (Inr (Plaintext (pieces ! i)), step_env b'))"
proof -
  from rotation_runs [OF cr(1,2) os rs(1) rows] obtain m4 where
    key: "get_or_generate_outgoing_key cr c m = (Inr (drawn 32 m), snd (distribute_rekeys cr c (drawn 32 m) rs m4))" and
    m4: "mg_seed m4 = mg_seed m" "get_peer_by_fingerprint (mg_keyring m4) = get_peer_by_fingerprint (mg_keyring m)" .
  have "\<exists>rk. rekey_frame cr h rk \<in> set (mg_rekey_sends (snd (distribute_rekeys cr c (drawn 32 m) rs m4))) \<and>
    opens_rekey cr m4 c (drawn 32 m) (mg_seed b) rk"
    using cr rows rs(2) peer m4 by (intro distribute_reaches) (auto simp: identity_pub_def)
  then obtain rk where
    frame: "rekey_frame cr h rk \<in> set (mg_rekey_sends m')" and rk: "opens_rekey cr m c (drawn 32 m) (mg_seed b) rk"
    using encrypt_keeps_sends [OF send(1) key] m4(1) by (auto simp: opens_rekey_def identity_pub_def)
  from rekey_installs [OF cr(1,3,4) _ rk known pin] obtain b1 t where
    b1: "handle_rekey cr (ident @ ''@'' @ host) rk b = (Inr (), b1)"
      "get_incoming_session cr (mg_keyring b1) (ident @ ''@'' @ host) c = Inr (Some \<lparr>is_handle = ident @ ''@'' @ host,
        is_channel = c, is_fingerprint = own_fingerprint cr m, is_sk = drawn 32 m, is_status = Trusted, is_created_at = t\<rparr>)"
    by auto
  define b' where "b' = b1\<lparr>mg_trust_changes := []\<rparr>"
  have wf: "keyrekey_wf rk" "no_ws (kk_channel rk)" using rk send(3) by (simp_all add: opens_rekey_def)
  note disp = dispatch_rekey [OF cr(1) wf client b1(1), folded b'_def]
  from message_delivery [OF cr(1,2) send(2,1)] obtain pieces and os' :: outgoing_session and ts where
    d: "concat pieces = text" "length pieces = length lines" "ts \<in> range (ev_clock (mg_env m))"
      "fst (get_or_generate_outgoing_key cr c m) = Inr (os_sk os')"
    and dec: "\<forall>receiver handle s i. i < length lines \<and>
       get_incoming_session cr (mg_keyring receiver) handle c = Inr (Some s) \<and>
       is_status s = Trusted \<and> is_sk s = os_sk os' \<and>
       sint (i64_abs (clock_of receiver - ts)) \<le> sint (mg_tolerance receiver) \<longrightarrow>
       decrypt_incoming cr handle c (lines ! i) receiver = (Inr (Plaintext (pieces ! i)), step_env receiver)"
    by blast
  have "decrypt_incoming cr (ident @ ''@'' @ host) c (lines ! i) b' = (Inr (Plaintext (pieces ! i)), step_env b')"
    if "i < length lines" "sint (i64_abs (clock_of b' - ts)) \<le> sint (mg_tolerance b')" for i
    using that d(4) key b1(2) by (intro dec [rule_format, where s = "\<lparr>is_handle = ident @ ''@'' @ host,
        is_channel = c, is_fingerprint = own_fingerprint cr m, is_sk = drawn 32 m, is_status = Trusted,
        is_created_at = t\<rparr>"]) (simp add: b'_def)
  then show ?thesis
    using frame [unfolded rekey_frame_def] disp d(1-3)
    by (intro exI [of _ "ctcp_frame (encode_keyrekey cr rk)"] exI [of _ b'] exI [of _ pieces] exI [of _ ts]) simp
qed

text \<open>What the input path hands to the outgoing queue.\<close>

lemma send_rekey_frame [simp]: "cl_state (send_rekey conn bid rk c) = cl_state c"
  by (simp add: send_rekey_def push_send_def split: option.split)

lemma send_rekey_keeps: "x \<in> set (cl_sends c) \<Longrightarrow> x \<in> set (cl_sends (send_rekey conn bid rk c))"
  by (simp add: send_rekey_def push_send_def split: option.split)

lemma fold_rekeys_keep: "x \<in> set (cl_sends c) \<Longrightarrow> x \<in> set (cl_sends (fold (send_rekey conn bid) rks c))"
  by (induction rks arbitrary: c) (simp_all add: send_rekey_keeps)

lemma send_rekeys_sends:
  assumes "buffer_connection (cl_state c) bid = Some conn" "rk \<in> set rks"
    and "nick_of_handle (cl_state c) bid (rs_target_handle rk) = Some nick"
  shows "\<lparr>sd_connection = conn, sd_target = nick, sd_notice = rs_notice_text rk\<rparr> \<in> set (cl_sends (send_rekeys bid rks c))"
proof -
  have "\<lparr>sd_connection = conn, sd_target = nick, sd_notice = rs_notice_text rk\<rparr> \<in> set (cl_sends (fold (send_rekey conn bid) rks c))"
    using assms(2,3)
  proof (induction rks arbitrary: c)
    case (Cons r rks)
    show ?case
    proof (cases "rk = r")
      case True
      then have "\<lparr>sd_connection = conn, sd_target = nick, sd_notice = rs_notice_text rk\<rparr> \<in> set (cl_sends (send_rekey conn bid r c))"
        using Cons.prems by (simp add: send_rekey_def push_send_def)
      then show ?thesis by (simp add: fold_rekeys_keep)
    qed (use Cons in simp)
  qed simp
  with assms(1) show ?thesis by (simp add: send_rekeys_def)
qed

lemma encrypted_input:
  assumes "cl_manager a = Some m" "\<not> starts_with ''.'' body" "\<not> starts_with ''!'' body"
    and "outgoing_context (cl_state a) m bid name t body captured = Inr c" "config_enabled m c"
    and "encrypt_outgoing cr c body m = (Inr lines, m')"
  shows "encrypt_or_passthrough cr bid name t body captured a =
    (Some (lines, body), send_rekeys bid (mg_rekey_sends m') (a\<lparr>cl_manager := Some (m'\<lparr>mg_rekey_sends := []\<rparr>)\<rparr>))"
  using assms by (simp add: encrypt_or_passthrough_def Let_def take_pending_rekey_sends_def exec)


section \<open>A row that cannot be read\<close>

lemma distribute_stops:
  assumes "(h, fp) \<in> set rs" "get_peer_by_fingerprint (mg_keyring m) fp = Inl e"
  shows "\<exists>e'. fst (distribute_rekeys cr c sk rs m) = Inl e'"
  using assms
proof (induction rs arbitrary: m)
  case (Cons r rs)
  obtain res m1 where one: "distribute_one cr c sk r m = (res, m1)" by fastforce
  show ?case
  proof (cases res)
    case (Inl e')
    then show ?thesis using one by (simp add: bind_st_def)
  next
    case (Inr u)
    have "mg_keyring m1 = mg_keyring m" using distribute_one_keeps [of mg_keyring cr c sk r m] one by simp
    moreover have "r \<noteq> (h, fp)" using one Inr Cons.prems(2) by (auto simp: distribute_one_def exec)
    ultimately have "\<exists>e'. fst (distribute_rekeys cr c sk rs m1) = Inl e'" using Cons by auto
    then show ?thesis using one Inr by (simp add: bind_st_def)
  qed
qed simp

lemma unreadable_row_stops_rotation:
  assumes cr: "good_crypto cr" "key_ok (mg_keyring m)" and typed: "cl_manager a = Some m"
    and ctx: "outgoing_context (cl_state a) m bid name t body captured = Inr c" "config_enabled m c"
    and os: "get_outgoing_session cr (mg_keyring m) c = Inr (Some os)" "os_pending_rotation os"
    and rs: "list_outgoing_recipients (mg_keyring m) c = Inr rs" "(h, fp) \<in> set rs"
      "get_peer_by_fingerprint (mg_keyring m) fp = Inl e"
  shows "fst (encrypt_or_passthrough cr bid name t body captured a) = Some (split_irc_message body message_max_bytes, body)"
proof -
  let ?iv = "drawn 12 (step_env (step_env m))"
  obtain enc where "encode_secret cr ?iv (mg_keyring m) (drawn 32 m) = Inr enc"
    using encode_secret_total [of cr "mg_keyring m" ?iv "drawn 32 m"] cr by (auto simp: good_crypto_def)
  then have set: "set_outgoing_session cr ?iv c (drawn 32 m) (clock_of (step_env m)) (mg_keyring m) =
      Inr ((mg_keyring m)\<lparr>kr_outgoing := tbl_replace c
        \<lparr>ow_sk = enc, ow_created_at = clock_of (step_env m), ow_pending_rotation = 0\<rparr> (kr_outgoing (mg_keyring m))\<rparr>)"
    (is "_ = Inr ?kr") by (simp add: set_outgoing_session_def)
  let ?m4 = "(step_env (step_env (step_env m)))\<lparr>mg_keyring := ?kr\<rparr>"
  have rs': "list_outgoing_recipients ?kr c = Inr rs" using rs(1) by (simp add: list_outgoing_recipients_def)
  have "get_peer_by_fingerprint (mg_keyring ?m4) fp = Inl e" using rs(3) by (simp add: get_peer_by_fingerprint_def)
  from distribute_stops [OF rs(2) this] obtain e' m5 where "distribute_rekeys cr c (drawn 32 m) rs ?m4 = (Inl e', m5)"
    by (metis prod.collapse)
  then have "generate_outgoing_key cr c m = (Inl e', m5)"
    using generate_exec [OF os(1) set] os(2) rs' by (simp add: rotation_pending_def Let_def)
  then have "get_or_generate_outgoing_key cr c m = (Inl e', m5)"
    using os by (simp add: get_or_generate_outgoing_key_def exec)
  then have "encrypt_outgoing cr c body m = (Inl e', m5)" by (simp add: encrypt_outgoing_def bind_st_def)
  then show ?thesis using typed ctx
    by (simp add: encrypt_or_passthrough_def Let_def plain_passthrough_def split: prod.split)
qed

section \<open>An example\<close>

definition example_seed :: bytes where
  "example_seed = replicate 32 CHR ''b''"

definition example_peer_row :: "bytes \<Rightarrow> bytes \<Rightarrow> peer_row" where
  "example_peer_row pk h = \<lparr>pw_pubkey = pk, pw_last_handle = Some h, pw_last_nick = None, pw_first_seen = 0,
     pw_last_seen = 0, pw_status = trust_as_str Trusted\<rparr>"

definition example_rotating :: e2e_manager where
  "example_rotating =
     (let fp = fingerprint toy_crypto example_seed in
      example_manager ((keyring_new None)\<lparr>
        kr_outgoing := [(''#x'', \<lparr>ow_sk = replicate 32 CHR ''k'', ow_created_at = 0, ow_pending_rotation = 1\<rparr>)],
        kr_recipients := [((''#x'', ''~bob@b.host''), (fp, 0))],
        kr_peers := [(fp, example_peer_row example_seed ''~bob@b.host'')]\<rparr>))"

definition example_recipient :: e2e_manager where
  "example_recipient =
     (let m = example_manager (keyring_new None)
      in m\<lparr>mg_seed := example_seed,
           mg_keyring := (keyring_new None)\<lparr>kr_peers := [(own_fingerprint toy_crypto example_rotating,
             example_peer_row (identity_pub toy_crypto example_rotating) ''~ann@a.host'')]\<rparr>\<rparr>)"

definition example_client :: client where
  "example_client = client_of app_state_new (Some example_recipient)"

definition example_channel :: buffer where
  "example_channel = (example_buffer ''#x'' Channel)\<lparr>bf_users := [(''bob'', \<lparr>ne_nick = ''bob'', ne_prefix = [],
     ne_modes = [], ne_away = False, ne_account = None, ne_ident = Some ''~bob'', ne_host = Some ''b.host''\<rparr>)]\<rparr>"

definition example_chat :: "e2e_manager \<Rightarrow> client" where
  "example_chat m = client_of
     (app_state_new\<lparr>st_buffers := [(''n/#x'', example_channel)], st_active := Some ''n/#x''\<rparr>) (Some m)"

definition example_sender :: e2e_manager where
  "example_sender = example_rotating\<lparr>mg_keyring := set_channel_config example_config (mg_keyring example_rotating)\<rparr>"


end
