(* ===== verification/E2e_Commands.thy ===== *)
theory E2e_Commands
  imports E2e_Rotation
begin

text \<open>
  The slash command \<open>/e2e\<close> (\<open>src/src/commands/handlers_e2e.rs\<close>): the parser of
  its arguments and every subcommand but export and import.

  The keyring is shared with the manager, so a command writes it in place.
  An IRC sender that exists and accepts the line is the argument \<open>online\<close>.
\<close>

section \<open>Parsing\<close>

datatype autotrust_op = AtList | AtAdd bytes bytes | AtRemove bytes | AtUsage bytes

datatype e2e_sub =
    On | Off | SetMode bytes | Accept bytes | Decline bytes | Handshake bytes | Revoke bytes | Unrevoke bytes
  | Forget bytes bool | Autotrust autotrust_op | ListPeers bool | Status | Fingerprint | Verify bytes
  | Reverify bytes | Rotate | Export "bytes option" | Import "bytes option" | Help | NoSub | Unknown bytes
  | Usage bytes

definition forget_usage :: bytes where
  "forget_usage = ''/e2e forget [-all] <nick|handle>''"

fun parse_forget_args :: "bytes list \<Rightarrow> bool \<Rightarrow> bytes option \<Rightarrow> e2e_sub" where
  "parse_forget_args [] all target =
     (case target of None \<Rightarrow> Usage forget_usage | Some t \<Rightarrow> Forget t all)"
| "parse_forget_args (arg # rest) all target =
     (if eq_ignore_ascii_case arg ''-all'' then parse_forget_args rest True target
      else if target = None then parse_forget_args rest all (Some arg)
      else Usage forget_usage)"

definition parse_forget_subcommand :: "bytes list \<Rightarrow> e2e_sub" where
  "parse_forget_subcommand rest =
     (if rest = [] then Usage forget_usage else parse_forget_args rest False None)"

definition parse_autotrust_op :: "(bytes \<Rightarrow> bytes) \<Rightarrow> bytes list \<Rightarrow> autotrust_op" where
  "parse_autotrust_op lower args =
     (case args of
        [] \<Rightarrow> AtUsage ''/e2e autotrust <list|add|remove> [scope] [pattern]''
      | op # rest \<Rightarrow>
          if lower op = ''list'' then AtList
          else if lower op = ''add'' then
            (case rest of scope # pat # _ \<Rightarrow> AtAdd scope pat | _ \<Rightarrow> AtUsage ''/e2e autotrust add <scope> <pattern>'')
          else if lower op = ''remove'' then
            (case rest of pat # _ \<Rightarrow> AtRemove pat | [] \<Rightarrow> AtUsage ''/e2e autotrust remove <pattern>'')
          else AtUsage ''/e2e autotrust <list|add|remove>'')"

text \<open>\<open>rest.first().map_or(Usage(hint), f)\<close>.\<close>

definition with_arg :: "bytes \<Rightarrow> (bytes \<Rightarrow> e2e_sub) \<Rightarrow> bytes list \<Rightarrow> e2e_sub" where
  "with_arg hint f rest = (case rest of [] \<Rightarrow> Usage hint | x # _ \<Rightarrow> f x)"

definition first_arg :: "bytes list \<Rightarrow> bytes option" where
  "first_arg rest = (case rest of [] \<Rightarrow> None | x # _ \<Rightarrow> Some x)"

definition parse_subcommand :: "(bytes \<Rightarrow> bytes) \<Rightarrow> bytes list \<Rightarrow> e2e_sub" where
  "parse_subcommand lower args =
     (case args of
        [] \<Rightarrow> NoSub
      | raw # rest \<Rightarrow>
          let sub = lower raw in
          if sub = ''on'' then On
          else if sub = ''off'' then Off
          else if sub = ''mode'' then with_arg ''/e2e mode <auto-accept|normal|quiet>'' SetMode rest
          else if sub = ''accept'' then with_arg ''/e2e accept <nick>'' Accept rest
          else if sub = ''decline'' then with_arg ''/e2e decline <nick>'' Decline rest
          else if sub = ''handshake'' then with_arg ''/e2e handshake <nick>'' Handshake rest
          else if sub = ''revoke'' then with_arg ''/e2e revoke <nick>'' Revoke rest
          else if sub = ''unrevoke'' then with_arg ''/e2e unrevoke <nick>'' Unrevoke rest
          else if sub = ''forget'' then parse_forget_subcommand rest
          else if sub = ''autotrust'' then Autotrust (parse_autotrust_op lower rest)
          else if sub = ''list'' then
            ListPeers (case rest of [] \<Rightarrow> False | arg # _ \<Rightarrow> eq_ignore_ascii_case arg ''-all'')
          else if sub = ''status'' then Status
          else if sub = ''fingerprint'' then Fingerprint
          else if sub = ''verify'' then with_arg ''/e2e verify <nick>'' Verify rest
          else if sub = ''reverify'' then with_arg ''/e2e reverify <nick>'' Reverify rest
          else if sub = ''rotate'' then Rotate
          else if sub = ''export'' then Export (first_arg rest)
          else if sub = ''import'' then Import (first_arg rest)
          else if sub = ''help'' \<or> sub = ''?'' then Help
          else Unknown sub)"

definition parse_mode :: "(bytes \<Rightarrow> bytes) \<Rightarrow> bytes \<Rightarrow> bytes + channel_mode" where
  "parse_mode lower s =
     (let l = lower s in
      if l = ''auto-accept'' \<or> l = ''auto'' then Inr AutoAccept
      else if l = ''normal'' then Inr Normal
      else if l = ''quiet'' then Inr Quiet
      else Inl (''invalid mode '' @ [byte_of 39] @ l @ [byte_of 39] @ '' (expected auto-accept|normal|quiet)''))"

section \<open>Lines and lookups\<close>

datatype e2e_event_level = Info | Warning | ErrorLevel

definition event_key :: "e2e_event_level \<Rightarrow> bytes" where
  "event_key l = (case l of Info \<Rightarrow> ''e2e_info'' | Warning \<Rightarrow> ''e2e_warning'' | ErrorLevel \<Rightarrow> ''e2e_error'')"

definition e2e_event :: "i64 \<Rightarrow> e2e_event_level \<Rightarrow> bytes \<Rightarrow> client \<Rightarrow> client" where
  "e2e_event now l body c =
     (case st_active (cl_state c) of
        None \<Rightarrow> c
      | Some active \<Rightarrow>
          let (n, s) = next_message_id (cl_state c)
          in c\<lparr>cl_state := add_local_message active
                (event_message n now (l = ErrorLevel) (event_key l) (Some [body]) body) s\<rparr>)"

definition current_channel :: "client \<Rightarrow> bytes option" where
  "current_channel c =
     (case active_buffer (cl_state c) of
        None \<Rightarrow> None
      | Some b \<Rightarrow> if bf_type b = Channel \<or> bf_type b = Query then Some (bf_name b) else None)"

definition active_connection :: "client \<Rightarrow> bytes option" where
  "active_connection c = map_option bf_connection_id (active_buffer (cl_state c))"

definition no_manager_text :: bytes where
  "no_manager_text = ''manager not initialized (check logging.enabled / e2e.enabled)''"

definition resolve_handle_by_nick :: "(bytes \<Rightarrow> bytes) \<Rightarrow> client \<Rightarrow> bytes \<Rightarrow> bytes \<Rightarrow> bytes option" where
  "resolve_handle_by_nick lower c channel nick =
     (case active_buffer (cl_state c) of
        None \<Rightarrow> None
      | Some a \<Rightarrow>
          (case map_of (st_buffers (cl_state c)) (make_buffer_id lower (bf_connection_id a) channel) of
             None \<Rightarrow> None
           | Some b \<Rightarrow>
               (case map_of (bf_users b) (lower nick) of
                  None \<Rightarrow> None
                | Some u \<Rightarrow>
                    if (case ne_ident u of None \<Rightarrow> True | Some i \<Rightarrow> i = []) \<and>
                       (case ne_host u of None \<Rightarrow> True | Some h \<Rightarrow> h = []) then None
                    else Some (user_handle u))))"

text \<open>The peers seen under the nick, stably sorted by when; the last one wins.\<close>

definition cached_handles :: "bytes \<Rightarrow> peer_record list \<Rightarrow> (i64 \<times> bytes) list" where
  "cached_handles nick peers =
     concat (map (\<lambda>p. case (pr_last_nick p, pr_last_handle p) of
         (Some n, Some h) \<Rightarrow> if eq_ignore_ascii_case n nick then [(pr_last_seen p, h)] else []
       | _ \<Rightarrow> []) peers)"

definition resolve_cached_handle_by_nick :: "client \<Rightarrow> bytes \<Rightarrow> (e2e_error + bytes) option" where
  "resolve_cached_handle_by_nick c nick =
     (case cl_manager c of
        None \<Rightarrow> None
      | Some m \<Rightarrow>
          (case list_all_peers (mg_keyring m) of
             Inl e \<Rightarrow> Some (Inl e)
           | Inr peers \<Rightarrow>
               (case rev (sort_key (\<lambda>(seen, _). sint seen) (cached_handles nick peers)) of
                  [] \<Rightarrow> None
                | (_, h) # _ \<Rightarrow> Some (Inr h))))"

definition require_handle_for_nick ::
  "(bytes \<Rightarrow> bytes) \<Rightarrow> i64 \<Rightarrow> bytes \<Rightarrow> bytes \<Rightarrow> client \<Rightarrow> bytes option \<times> client" where
  "require_handle_for_nick lower now channel nick c =
     (case resolve_handle_by_nick lower c channel nick of
        Some h \<Rightarrow> (Some h, c)
      | None \<Rightarrow>
          (case resolve_cached_handle_by_nick c nick of
             Some (Inr h) \<Rightarrow> (Some h, c)
           | Some (Inl e) \<Rightarrow>
               (None, e2e_event now ErrorLevel (''cannot resolve handle for '' @ nick @ '': '' @ display_error e) c)
           | None \<Rightarrow>
               (None, e2e_event now ErrorLevel
                 (''cannot resolve handle for '' @ nick @ '' '' @ em_dash @ '' has the user spoken yet?'') c)))"

text \<open>The three guards most commands start with: a channel, a handle for the nick, a manager.\<close>

definition in_channel :: "i64 \<Rightarrow> bytes \<Rightarrow> (bytes \<Rightarrow> client \<Rightarrow> client) \<Rightarrow> client \<Rightarrow> client" where
  "in_channel now cmd k c =
     (case current_channel c of
        None \<Rightarrow> e2e_event now ErrorLevel (cmd @ '': no active channel'') c
      | Some chan \<Rightarrow> k chan c)"

definition for_nick ::
  "(bytes \<Rightarrow> bytes) \<Rightarrow> i64 \<Rightarrow> bytes \<Rightarrow> bytes \<Rightarrow> (bytes \<Rightarrow> client \<Rightarrow> client) \<Rightarrow> client \<Rightarrow> client" where
  "for_nick lower now chan nick k c =
     (case require_handle_for_nick lower now chan nick c of
        (None, c1) \<Rightarrow> c1
      | (Some h, c1) \<Rightarrow> k h c1)"

definition require_mgr :: "i64 \<Rightarrow> (e2e_manager \<Rightarrow> client \<Rightarrow> client) \<Rightarrow> client \<Rightarrow> client" where
  "require_mgr now k c =
     (case cl_manager c of
        None \<Rightarrow> e2e_event now ErrorLevel no_manager_text c
      | Some m \<Rightarrow> k m c)"

definition set_keyring :: "(keyring \<Rightarrow> keyring) \<Rightarrow> e2e_manager \<Rightarrow> client \<Rightarrow> client" where
  "set_keyring f m c = c\<lparr>cl_manager := Some (m\<lparr>mg_keyring := f (mg_keyring m)\<rparr>)\<rparr>"

section \<open>On, off, mode\<close>

definition set_config :: "i64 \<Rightarrow> bytes \<Rightarrow> bool \<Rightarrow> channel_mode \<Rightarrow> bytes \<Rightarrow> client \<Rightarrow> client" where
  "set_config now chan enabled mode report =
     require_mgr now (\<lambda>m c. e2e_event now Info report
       (set_keyring (set_channel_config \<lparr>cc_channel = chan, cc_enabled = enabled, cc_mode = mode\<rparr>) m c))"

definition e2e_on :: "i64 \<Rightarrow> client \<Rightarrow> client" where
  "e2e_on now = in_channel now ''/e2e on'' (\<lambda>chan.
     set_config now chan True Normal (''enabled on '' @ chan @ '' (mode=normal)''))"

definition e2e_off :: "i64 \<Rightarrow> client \<Rightarrow> client" where
  "e2e_off now = in_channel now ''/e2e off'' (\<lambda>chan.
     set_config now chan False Normal (''disabled on '' @ chan))"

definition e2e_mode :: "(bytes \<Rightarrow> bytes) \<Rightarrow> i64 \<Rightarrow> bytes \<Rightarrow> client \<Rightarrow> client" where
  "e2e_mode lower now mode_str = in_channel now ''/e2e mode'' (\<lambda>chan c.
     (case parse_mode lower mode_str of
        Inl e \<Rightarrow> e2e_event now ErrorLevel (''/e2e mode: '' @ e) c
      | Inr mode \<Rightarrow> set_config now chan True mode (''mode='' @ mode_as_str mode @ '' on '' @ chan) c))"

section \<open>Trust transitions\<close>

definition set_incoming_status ::
  "i64 \<Rightarrow> bytes \<Rightarrow> bytes \<Rightarrow> trust_status \<Rightarrow> e2e_event_level \<Rightarrow> bytes \<Rightarrow> e2e_manager \<Rightarrow> client \<Rightarrow> client" where
  "set_incoming_status now handle chan st l report m c =
     e2e_event now l report (set_keyring (update_incoming_status handle chan st) m c)"

definition e2e_accept :: "(bytes \<Rightarrow> bytes) \<Rightarrow> crypto \<Rightarrow> i64 \<Rightarrow> bytes \<Rightarrow> client \<Rightarrow> client" where
  "e2e_accept lower cr now nick = in_channel now ''/e2e accept'' (\<lambda>chan.
     for_nick lower now chan nick (\<lambda>handle c0.
     require_mgr now (\<lambda>m c.
       (case accept_pending_inbound cr handle chan m of
          (Inr (Some rsp), m1) \<Rightarrow>
            (case active_connection c0 of
               Some conn \<Rightarrow>
                 e2e_event now Info (''accepted '' @ nick @ '' ('' @ handle @ '') on '' @ chan @ '' '' @ em_dash @ '' KEYRSP sent'')
                   (send_reciprocals cr conn nick m1 (push_send conn nick (encode_keyrsp_ctcp cr rsp) c))
             | None \<Rightarrow>
                 e2e_event now ErrorLevel ''/e2e accept: no active connection to send KEYRSP'' (c\<lparr>cl_manager := Some m1\<rparr>))
        | (Inr None, m1) \<Rightarrow>
            set_incoming_status now handle chan Trusted Info (''accepted '' @ nick @ '' ('' @ handle @ '') on '' @ chan) m1 c
        | (Inl e, m1) \<Rightarrow> e2e_event now ErrorLevel (''/e2e accept: '' @ display_error e) (c\<lparr>cl_manager := Some m1\<rparr>))) c0))"

definition e2e_decline :: "(bytes \<Rightarrow> bytes) \<Rightarrow> i64 \<Rightarrow> bytes \<Rightarrow> client \<Rightarrow> client" where
  "e2e_decline lower now nick = in_channel now ''/e2e decline'' (\<lambda>chan.
     for_nick lower now chan nick (\<lambda>handle.
     require_mgr now (set_incoming_status now handle chan Revoked Warning (''declined '' @ nick @ '' on '' @ chan))))"

definition revoke_on_channel :: "bytes \<Rightarrow> bytes \<Rightarrow> keyring \<Rightarrow> keyring" where
  "revoke_on_channel handle chan kr =
     mark_outgoing_pending_rotation chan
       (remove_outgoing_recipient chan handle (update_incoming_status handle chan Revoked kr))"

definition e2e_revoke :: "(bytes \<Rightarrow> bytes) \<Rightarrow> i64 \<Rightarrow> bytes \<Rightarrow> client \<Rightarrow> client" where
  "e2e_revoke lower now nick = in_channel now ''/e2e revoke'' (\<lambda>chan.
     for_nick lower now chan nick (\<lambda>handle.
     require_mgr now (\<lambda>m c.
       e2e_event now Warning (''revoked '' @ nick @ '' on '' @ chan @ '' '' @ em_dash @ '' key will rotate on next message'')
         (set_keyring (revoke_on_channel handle chan) m c))))"

definition e2e_unrevoke :: "(bytes \<Rightarrow> bytes) \<Rightarrow> i64 \<Rightarrow> bytes \<Rightarrow> client \<Rightarrow> client" where
  "e2e_unrevoke lower now nick = in_channel now ''/e2e unrevoke'' (\<lambda>chan.
     for_nick lower now chan nick (\<lambda>handle.
     require_mgr now (set_incoming_status now handle chan Trusted Info (''unrevoked '' @ nick @ '' on '' @ chan))))"

definition e2e_reverify :: "(bytes \<Rightarrow> bytes) \<Rightarrow> crypto \<Rightarrow> i64 \<Rightarrow> bytes \<Rightarrow> client \<Rightarrow> client" where
  "e2e_reverify lower cr now nick = in_channel now ''/e2e reverify'' (\<lambda>chan.
     for_nick lower now chan nick (\<lambda>handle.
     require_mgr now (\<lambda>m c.
       (case reverify_peer handle m of
          (Inr (Applied old_fp new_fp), m1) \<Rightarrow>
            e2e_event now Info (''reverified '' @ nick @ '': old fp='' @ cr_hex_encode cr old_fp @ '' '' @
              [byte_of 226, byte_of 134, byte_of 146] @ '' new fp='' @ cr_hex_encode cr new_fp @ '' '' @ em_dash @
              '' installed new key'') (c\<lparr>cl_manager := Some m1\<rparr>)
        | (Inr (Cleared deleted), m1) \<Rightarrow>
            e2e_event now Info (''reverified '' @ nick @ '': purged '' @ show_nat deleted @
              '' stale row(s); re-handshake to TOFU-pin the new key'') (c\<lparr>cl_manager := Some m1\<rparr>)
        | (Inr NotFound, m1) \<Rightarrow>
            e2e_event now ErrorLevel (''no keyring state for '' @ nick @ '' ('' @ handle @ '') to reverify'')
              (c\<lparr>cl_manager := Some m1\<rparr>)
        | (Inl e, m1) \<Rightarrow>
            e2e_event now ErrorLevel (''/e2e reverify: '' @ display_error e) (c\<lparr>cl_manager := Some m1\<rparr>)))))"

section \<open>Forgetting\<close>

text \<open>The lines go to the buffer the command was typed in: it is made active for the while.\<close>

definition in_buffer :: "bytes \<Rightarrow> (client \<Rightarrow> client) \<Rightarrow> client \<Rightarrow> client" where
  "in_buffer bid k c =
     (let c1 = k (c\<lparr>cl_state := (cl_state c)\<lparr>st_active := Some bid\<rparr>\<rparr>)
      in c1\<lparr>cl_state := (cl_state c1)\<lparr>st_active := st_active (cl_state c)\<rparr>\<rparr>)"

definition perform_e2e_forget ::
  "crypto \<Rightarrow> i64 \<Rightarrow> bytes \<Rightarrow> bytes \<Rightarrow> bytes \<Rightarrow> bytes option \<Rightarrow> bool \<Rightarrow> client \<Rightarrow> client" where
  "perform_e2e_forget cr now bid target handle channel all =
     in_buffer bid (require_mgr now (\<lambda>m c.
       (let report = (\<lambda>(result, m1). (case result of
                Inr n \<Rightarrow> e2e_event now Warning (forgot_text target handle channel all n)
              | Inl e \<Rightarrow> e2e_event now ErrorLevel (''/e2e forget: '' @ display_error e)) (c\<lparr>cl_manager := Some m1\<rparr>))
        in if all then report (forget_peer_everywhere handle m)
           else (case channel of
                   None \<Rightarrow> e2e_event now ErrorLevel ''/e2e forget: no active channel'' c
                 | Some ch \<Rightarrow> report (forget_peer_on_channel cr handle ch m)))))"

definition e2e_forget :: "crypto \<Rightarrow> i64 \<Rightarrow> (bytes \<Rightarrow> bool) \<Rightarrow> bytes \<Rightarrow> bool \<Rightarrow> client \<Rightarrow> client" where
  "e2e_forget cr now online target all c =
     (if \<not> all \<and> current_channel c = None then e2e_event now ErrorLevel ''/e2e forget: no active channel'' c
      else
        let channel = current_channel c in
        case active_buffer (cl_state c) of
          None \<Rightarrow> e2e_event now ErrorLevel ''/e2e forget: no active buffer'' c
        | Some b \<Rightarrow>
            if CHR ''@'' \<in> set target then perform_e2e_forget cr now (bf_id b) target target channel all c
            else if \<not> online (bf_connection_id b) then e2e_event now ErrorLevel ''/e2e forget: not connected'' c
            else e2e_event now Info (''resolving handle for '' @ target @ '' via USERHOST'')
              (c\<lparr>cl_requests := cl_requests c @ [\<lparr>ur_connection = bf_connection_id b, ur_nick = target,
                 ur_buffer = bf_id b, ur_target = target, ur_channel = channel, ur_all = all\<rparr>]\<rparr>))"

section \<open>Listings\<close>

text \<open>
  Colour codes and rules of \<open>src/src/commands/types.rs\<close>.  The words of a
  fingerprint come from the BIP-39 crate: \<open>words\<close> is its 12-word mnemonic.
\<close>

definition c_header :: bytes where "c_header = ''%Z7aa2f7''"
definition c_cmd :: bytes where "c_cmd = ''%Zc0caf5''"
definition c_dim :: bytes where "c_dim = ''%Z565f89''"
definition c_text :: bytes where "c_text = ''%Za9b1d6''"
definition c_err :: bytes where "c_err = ''%Zf7768e''"
definition c_rst :: bytes where "c_rst = ''%N''"

lemmas colour_defs = c_header_def c_cmd_def c_dim_def c_text_def c_err_def c_rst_def

definition box_dash :: bytes where
  "box_dash = [byte_of 226, byte_of 148, byte_of 128]"

definition divider :: "bytes \<Rightarrow> bytes" where
  "divider title =
     c_header @ concat (replicate 5 box_dash) @ '' '' @ title @ '' '' @
     concat (replicate (45 - (length title + 7)) box_dash) @ c_rst"

definition add_local_event :: "i64 \<Rightarrow> bytes \<Rightarrow> client \<Rightarrow> client" where
  "add_local_event now body c =
     (case st_active (cl_state c) of
        None \<Rightarrow> c
      | Some active \<Rightarrow>
          let (n, s) = next_message_id (cl_state c)
          in c\<lparr>cl_state := add_local_message active
                \<lparr>ms_id = n, ms_timestamp = now, ms_type = MsgEvent, ms_nick = None, ms_nick_mode = None,
                 ms_text = body, ms_highlight = False, ms_event_key = None, ms_event_params = None, ms_tags = None\<rparr> s\<rparr>)"

definition show_lines :: "i64 \<Rightarrow> bytes list \<Rightarrow> client \<Rightarrow> client" where
  "show_lines now lines = fold (add_local_event now) lines"

definition sas_words :: "(bytes \<Rightarrow> bytes list option) \<Rightarrow> bytes \<Rightarrow> bytes" where
  "sas_words words fp = (case words fp of None \<Rightarrow> em_dash | Some ws \<Rightarrow> join_str '' '' (take 6 ws))"

definition format_peer_line :: "crypto \<Rightarrow> incoming_session \<Rightarrow> bytes" where
  "format_peer_line cr p =
     ''  '' @ c_cmd @ is_handle p @ c_rst @ ''  '' @ c_text @ ''['' @ trust_as_str (is_status p) @ '']'' @ c_rst @
     ''  '' @ c_dim @ ''fp='' @ short_hex cr (is_fingerprint p) @ c_rst"

definition peer_row_line :: "crypto \<Rightarrow> peer_record \<Rightarrow> bytes" where
  "peer_row_line cr p =
     ''  '' @ c_cmd @ (case pr_last_handle p of None \<Rightarrow> em_dash | Some h \<Rightarrow> h) @ c_rst @
     ''  '' @ c_text @ ''['' @ trust_as_str (pr_status p) @ '']'' @ c_rst @
     ''  '' @ c_dim @ ''nick='' @ (case pr_last_nick p of None \<Rightarrow> em_dash | Some n \<Rightarrow> n) @
     '' fp='' @ short_hex cr (pr_fingerprint p) @ c_rst"

definition session_row_line :: "crypto \<Rightarrow> incoming_session \<Rightarrow> bytes" where
  "session_row_line cr s =
     ''  '' @ c_cmd @ is_handle s @ c_rst @ ''  '' @ c_text @ is_channel s @ c_rst @
     ''  '' @ c_text @ ''['' @ trust_as_str (is_status s) @ '']'' @ c_rst @
     ''  '' @ c_dim @ ''fp='' @ short_hex cr (is_fingerprint s) @ c_rst"

definition none_line :: bytes where
  "none_line = ''  '' @ c_dim @ ''(none)'' @ c_rst"

definition e2e_list_all :: "crypto \<Rightarrow> i64 \<Rightarrow> client \<Rightarrow> client" where
  "e2e_list_all cr now = require_mgr now (\<lambda>m c.
     (case list_all_peers (mg_keyring m) of
        Inl e \<Rightarrow> e2e_event now ErrorLevel (''/e2e list -all: '' @ display_error e) c
      | Inr peers \<Rightarrow>
          (case list_all_incoming_sessions cr (mg_keyring m) of
             Inl e \<Rightarrow> e2e_event now ErrorLevel (''/e2e list -all: '' @ display_error e) c
           | Inr sessions \<Rightarrow>
               show_lines now (divider ''E2E Keyring (all)'' #
                 (if peers = [] \<and> sessions = [] then [''  '' @ c_dim @ ''(no remembered E2E state)'' @ c_rst]
                  else (''  '' @ c_header @ ''Peers'' @ c_rst) #
                    (if peers = [] then [none_line] else map (peer_row_line cr) peers) @
                    [[], ''  '' @ c_header @ ''Incoming Sessions'' @ c_rst] @
                    (if sessions = [] then [none_line] else map (session_row_line cr) sessions))) c)))"

definition e2e_list :: "crypto \<Rightarrow> i64 \<Rightarrow> bool \<Rightarrow> client \<Rightarrow> client" where
  "e2e_list cr now all =
     (if all then e2e_list_all cr now
      else in_channel now ''/e2e list'' (\<lambda>chan. require_mgr now (\<lambda>m c.
        (case list_trusted_peers_for_channel cr (mg_keyring m) chan of
           Inl e \<Rightarrow> e2e_event now ErrorLevel (''/e2e list: '' @ display_error e) c
         | Inr peers \<Rightarrow> show_lines now (divider (''E2E Peers on '' @ chan) #
             (if peers = [] then
                [''  '' @ c_dim @ ''(no trusted peers '' @ em_dash @ '' use /e2e accept <nick>)'' @ c_rst]
              else map (format_peer_line cr) peers)) c))))"

definition format_status_line :: "bytes option \<Rightarrow> channel_config option \<Rightarrow> nat \<Rightarrow> bytes" where
  "format_status_line chan cfg peers =
     ''  '' @ c_cmd @ ''channel'' @ c_rst @ ''      '' @
     (case chan of
        None \<Rightarrow> c_dim @ ''(no active channel)'' @ c_rst
      | Some ch \<Rightarrow> c_text @ ch @ c_rst @ ''  '' @ c_dim @
          (case cfg of
             None \<Rightarrow> ''[off]''
           | Some cfg \<Rightarrow> ''['' @ (if cc_enabled cfg then ''on'' else ''off'') @ '', mode='' @ mode_as_str (cc_mode cfg) @
               '', peers='' @ show_nat peers @ '']'') @ c_rst)"

definition e2e_status :: "crypto \<Rightarrow> (bytes \<Rightarrow> bytes list option) \<Rightarrow> i64 \<Rightarrow> client \<Rightarrow> client" where
  "e2e_status cr words now = require_mgr now (\<lambda>m c.
     (let fp = own_fingerprint cr m; chan = current_channel c;
          cfg = Option.bind chan (get_channel_config (mg_keyring m));
          peers = (case chan of
              None \<Rightarrow> 0
            | Some ch \<Rightarrow> (case list_trusted_peers_for_channel cr (mg_keyring m) ch of
                Inl _ \<Rightarrow> 0 | Inr l \<Rightarrow> length l))
      in show_lines now [divider ''E2E Status'',
           ''  '' @ c_cmd @ ''identity'' @ c_rst @ ''     '' @ c_text @ cr_hex_encode cr fp @ c_rst,
           ''  '' @ c_cmd @ ''sas'' @ c_rst @ ''          '' @ c_text @ sas_words words fp @ c_rst,
           format_status_line chan cfg peers] c))"

definition e2e_fingerprint :: "crypto \<Rightarrow> (bytes \<Rightarrow> bytes list option) \<Rightarrow> i64 \<Rightarrow> client \<Rightarrow> client" where
  "e2e_fingerprint cr words now = require_mgr now (\<lambda>m.
     (let fp = own_fingerprint cr m
      in show_lines now [divider ''E2E Fingerprint (mine)'',
           ''  '' @ c_cmd @ ''hex'' @ c_rst @ ''  '' @ c_text @ cr_hex_encode cr fp @ c_rst,
           ''  '' @ c_cmd @ ''sas'' @ c_rst @ ''  '' @ c_text @ sas_words words fp @ c_rst,
           ''  '' @ c_dim @ ''Share these out-of-band so peers can verify your key.'' @ c_rst]))"

text \<open>\<open>{peer_nick:<7}\<close> pads to seven characters.\<close>

definition pad_to :: "nat \<Rightarrow> bytes \<Rightarrow> bytes" where
  "pad_to n s = s @ replicate (n - length (utf8_chars s)) CHR '' ''"

definition format_verify_block ::
  "crypto \<Rightarrow> (bytes \<Rightarrow> bytes list option) \<Rightarrow> bytes \<Rightarrow> bytes \<Rightarrow> bytes \<Rightarrow> bytes \<Rightarrow> bytes list" where
  "format_verify_block cr words local_fp peer_fp nick handle =
     [divider ''E2E Fingerprint Verification'',
      ''  '' @ c_cmd @ ''You  ( local)'' @ c_rst @ '': '' @ c_text @ short_hex cr local_fp @ c_rst @ ''  '' @
        c_text @ sas_words words local_fp @ c_rst,
      ''  '' @ c_cmd @ ''Them ('' @ pad_to 7 nick @ '')'' @ c_rst @ '': '' @ c_text @ short_hex cr peer_fp @ c_rst @
        ''  '' @ c_text @ sas_words words peer_fp @ c_rst,
      ''  '' @ c_dim @ ''peer handle: '' @ handle @ c_rst,
      [],
      ''  '' @ c_dim @ ''Read both lines out-of-band (phone, signal, etc.) and confirm'' @ c_rst,
      ''  '' @ c_dim @ ''they match BEFORE trusting future messages. If they differ,'' @ c_rst,
      ''  '' @ c_err @ ''a MitM is in progress'' @ c_rst @ c_dim @ '' '' @ em_dash @ '' run '' @ c_cmd @ ''/e2e forget '' @
        nick @ c_dim @ '' immediately.'' @ c_rst]"

definition e2e_verify ::
  "(bytes \<Rightarrow> bytes) \<Rightarrow> crypto \<Rightarrow> (bytes \<Rightarrow> bytes list option) \<Rightarrow> i64 \<Rightarrow> bytes \<Rightarrow> client \<Rightarrow> client" where
  "e2e_verify lower cr words now nick = in_channel now ''/e2e verify'' (\<lambda>chan.
     for_nick lower now chan nick (\<lambda>handle.
     require_mgr now (\<lambda>m.
       (case get_incoming_session cr (mg_keyring m) handle chan of
          Inr (Some s) \<Rightarrow>
            show_lines now (format_verify_block cr words (own_fingerprint cr m) (is_fingerprint s) nick handle)
        | Inr None \<Rightarrow> e2e_event now ErrorLevel (''no session for '' @ nick @ '' on '' @ chan)
        | Inl e \<Rightarrow> e2e_event now ErrorLevel (''/e2e verify: '' @ display_error e)))))"

definition show_autotrust :: "i64 \<Rightarrow> (bytes \<times> bytes) list \<Rightarrow> client \<Rightarrow> client" where
  "show_autotrust now rows = show_lines now (divider ''E2E Autotrust Rules'' #
     (if rows = [] then [''  '' @ c_dim @ ''(no rules)'' @ c_rst]
      else map (\<lambda>(scope, pat). ''  '' @ c_cmd @ scope @ c_rst @ ''  '' @ c_text @ pat @ c_rst) rows))"

section \<open>Handshake, rotation, autotrust\<close>

definition e2e_handshake :: "crypto \<Rightarrow> i64 \<Rightarrow> bytes \<Rightarrow> client \<Rightarrow> client" where
  "e2e_handshake cr now nick = in_channel now ''/e2e handshake'' (\<lambda>chan c0.
     (case active_connection c0 of
        None \<Rightarrow> e2e_event now ErrorLevel ''/e2e handshake: no active connection'' c0
      | Some conn \<Rightarrow>
          require_mgr now (\<lambda>m c.
            (case build_keyreq cr chan m of
               (Inr req, m1) \<Rightarrow>
                 e2e_event now Info (''KEYREQ sent to '' @ nick @ '' for '' @ chan)
                   (push_send conn nick (encode_keyreq_ctcp cr req) (c\<lparr>cl_manager := Some m1\<rparr>))
             | (Inl e, m1) \<Rightarrow>
                 e2e_event now ErrorLevel (''handshake error: '' @ display_error e) (c\<lparr>cl_manager := Some m1\<rparr>))) c0))"

definition e2e_rotate :: "i64 \<Rightarrow> client \<Rightarrow> client" where
  "e2e_rotate now = in_channel now ''/e2e rotate'' (\<lambda>chan.
     require_mgr now (\<lambda>m c. e2e_event now Info (''rotation scheduled for '' @ chan)
       (set_keyring (mark_outgoing_pending_rotation chan) m c)))"

definition e2e_autotrust :: "i64 \<Rightarrow> autotrust_op \<Rightarrow> client \<Rightarrow> client" where
  "e2e_autotrust now op = require_mgr now (\<lambda>m c.
     (case op of
        AtList \<Rightarrow> show_autotrust now (list_autotrust (mg_keyring m)) c
      | AtAdd scope pat \<Rightarrow>
          e2e_event now Info (''autotrust add '' @ scope @ '' '' @ pat) (set_keyring (add_autotrust scope pat now) m c)
      | AtRemove pat \<Rightarrow>
          e2e_event now Info (''autotrust removed '' @ pat) (set_keyring (remove_autotrust pat) m c)
      | AtUsage hint \<Rightarrow> e2e_event now ErrorLevel (''usage: '' @ hint) c))"

section \<open>Dispatch\<close>

definition help_entries :: "(bytes \<times> bytes) list" where
  "help_entries =
     [(''on'', ''Enable E2E on the current channel''),
      (''off'', ''Disable E2E on the current channel''),
      (''mode <m>'', ''Set channel mode (auto-accept|normal|quiet)''),
      (''handshake <nick>'', ''Send KEYREQ to <nick> (manual key exchange)''),
      (''accept <nick>'', ''Trust a pending peer on this channel''),
      (''decline <nick>'', ''Reject a pending peer''),
      (''revoke <nick>'', ''Revoke trust; rotate outgoing key next send''),
      (''unrevoke <nick>'', ''Re-trust a previously revoked peer''),
      (''forget [-all] <nick|handle>'', ''Delete channel or global peer state''),
      (''verify <nick>'', ''Show a peer's fingerprint + SAS words''),
      (''reverify <nick>'', ''Re-trust after SAS comparison''),
      (''rotate'', ''Schedule outgoing key rotation for this channel''),
      (''list [-all]'', ''List trusted peers or the full remembered state''),
      (''status'', ''Show identity + per-channel summary''),
      (''fingerprint'', ''Show my own fingerprint + SAS words''),
      (''autotrust list'', ''List autotrust rules''),
      (''autotrust add <scope> <pat>'', ''Add an autotrust rule''),
      (''autotrust remove <pat>'', ''Remove an autotrust rule''),
      (''export <file>'', ''Export keyring to a JSON file (plaintext keys, 0600)''),
      (''import <file>'', ''Import keyring from a JSON file''),
      (''help'', ''Show this index'')]"

definition help_width :: nat where
  "help_width = foldl max 0 (map (length \<circ> fst) help_entries)"

definition e2e_help :: "i64 \<Rightarrow> client \<Rightarrow> client" where
  "e2e_help now = show_lines now (divider ''E2E Encryption'' #
     map (\<lambda>(name, desc). ''  '' @ c_cmd @ pad_to help_width name @ c_rst @ ''  '' @ c_dim @ desc @ c_rst) help_entries @
     [c_header @ concat (replicate 44 box_dash) @ c_rst])"

text \<open>
  \<open>cmd_e2e\<close>.  \<open>export\<close> and \<open>import_file\<close> are the file commands with their
  optional path; the queued notices are then sent, which is the drain.
\<close>

definition run_e2e_sub ::
  "(bytes \<Rightarrow> bytes) \<Rightarrow> crypto \<Rightarrow> (bytes \<Rightarrow> bytes list option) \<Rightarrow> i64 \<Rightarrow> (bytes \<Rightarrow> bool) \<Rightarrow>
   (bytes option \<Rightarrow> client \<Rightarrow> client) \<Rightarrow> (bytes option \<Rightarrow> client \<Rightarrow> client) \<Rightarrow> e2e_sub \<Rightarrow> client \<Rightarrow> client" where
  "run_e2e_sub lower cr words now online export import_file sub =
     (case sub of
        NoSub \<Rightarrow> e2e_help now
      | Help \<Rightarrow> e2e_help now
      | On \<Rightarrow> e2e_on now
      | Off \<Rightarrow> e2e_off now
      | SetMode m \<Rightarrow> e2e_mode lower now m
      | Accept nick \<Rightarrow> e2e_accept lower cr now nick
      | Decline nick \<Rightarrow> e2e_decline lower now nick
      | Handshake nick \<Rightarrow> e2e_handshake cr now nick
      | Revoke nick \<Rightarrow> e2e_revoke lower now nick
      | Unrevoke nick \<Rightarrow> e2e_unrevoke lower now nick
      | Forget target all \<Rightarrow> e2e_forget cr now online target all
      | Autotrust op \<Rightarrow> e2e_autotrust now op
      | ListPeers all \<Rightarrow> e2e_list cr now all
      | Status \<Rightarrow> e2e_status cr words now
      | Fingerprint \<Rightarrow> e2e_fingerprint cr words now
      | Verify nick \<Rightarrow> e2e_verify lower cr words now nick
      | Reverify nick \<Rightarrow> e2e_reverify lower cr now nick
      | Rotate \<Rightarrow> e2e_rotate now
      | Export path \<Rightarrow> export path
      | Import path \<Rightarrow> import_file path
      | Unknown other \<Rightarrow> (\<lambda>c. e2e_help now (e2e_event now ErrorLevel (''unknown subcommand: '' @ other) c))
      | Usage hint \<Rightarrow> e2e_event now ErrorLevel (''usage: '' @ hint))"

definition cmd_e2e ::
  "(bytes \<Rightarrow> bytes) \<Rightarrow> crypto \<Rightarrow> (bytes \<Rightarrow> bytes list option) \<Rightarrow> i64 \<Rightarrow> (bytes \<Rightarrow> bool) \<Rightarrow>
   (bytes option \<Rightarrow> client \<Rightarrow> client) \<Rightarrow> (bytes option \<Rightarrow> client \<Rightarrow> client) \<Rightarrow> bytes list \<Rightarrow> client \<Rightarrow>
   pending_send list \<times> client" where
  "cmd_e2e lower cr words now online export import_file args c =
     (let c1 = run_e2e_sub lower cr words now online export import_file (parse_subcommand lower args) c
      in (cl_sends c1, c1\<lparr>cl_sends := []\<rparr>))"

section \<open>Who a rotation reaches\<close>

definition sends_within :: "e2e_manager \<Rightarrow> bytes set \<Rightarrow> e2e_manager \<Rightarrow> bool" where
  "sends_within m hs m' \<longleftrightarrow>
     kr_recipients (mg_keyring m') = kr_recipients (mg_keyring m) \<and>
     (\<exists>sends. mg_rekey_sends m' = mg_rekey_sends m @ sends \<and> rs_target_handle ` set sends \<subseteq> hs)"

lemma sends_within_frame:
  "sends_within m hs m" "sends_within m hs (step_env m') \<longleftrightarrow> sends_within m hs m'"
  by (simp_all add: sends_within_def)

lemma recipients_frame:
  "kr_recipients kr = kr_recipients kr' \<Longrightarrow> list_outgoing_recipients kr c = list_outgoing_recipients kr' c"
  by (simp add: list_outgoing_recipients_def)

lemma encrypt_sends_within:
  assumes "\<And>rs. list_outgoing_recipients (mg_keyring m) c = Inr rs \<Longrightarrow> fst ` set rs \<subseteq> hs"
  shows "sends_within m hs (snd (encrypt_outgoing cr c text m))"
proof -
  let ?Q = "sends_within m hs"
  have env: "env_blind ?Q" by (simp add: env_blind_def sends_within_frame)
  have send: "keeps ?Q (bind_st (kr_read (\<lambda>kr. list_outgoing_recipients kr c)) (distribute_rekeys cr c k))" for k
  proof (rule keepsI)
    fix s assume Q: "?Q s"
    show "?Q (snd (bind_st (kr_read (\<lambda>kr. list_outgoing_recipients kr c)) (distribute_rekeys cr c k) s))"
    proof (cases "list_outgoing_recipients (mg_keyring s) c")
      case (Inr rs)
      then have rs: "fst ` set rs \<subseteq> hs"
        using Q assms recipients_frame [of "mg_keyring s" "mg_keyring m"] by (simp add: sends_within_def)
      have "kr_recipients (mg_keyring (snd (distribute_rekeys cr c k rs s))) = kr_recipients (mg_keyring s)"
        by (simp add: keeps_distribute_field [of mg_keyring])
      moreover from Q obtain old where "mg_rekey_sends s = mg_rekey_sends m @ old" "rs_target_handle ` set old \<subseteq> hs"
        by (auto simp: sends_within_def)
      moreover obtain new where "mg_rekey_sends (snd (distribute_rekeys cr c k rs s)) = mg_rekey_sends s @ new"
        "rs_target_handle ` set new \<subseteq> hs"
        using distribute_sends [of cr c k rs s] rs by (meson order_trans)
      ultimately have "sends_within m hs (snd (distribute_rekeys cr c k rs s))"
        unfolding sends_within_def using Q [unfolded sends_within_def] rs
        by (intro conjI exI [of _ "old @ new"]) auto
      with Inr show ?thesis by (simp add: exec)
    qed (use Q in \<open>simp add: exec\<close>)
  qed
  have store: "keeps ?Q (kr_try (set_outgoing_session cr iv c k t))" for iv k t
    by (rule keeps_kr_try) (auto simp: sends_within_def set_outgoing_Inr)
  have key: "keeps ?Q (get_or_generate_outgoing_key cr c)"
    unfolding get_or_generate_outgoing_key_def generate_outgoing_key_def
    by (intro wf_intros keeps_env [OF env] store send)
  have "keeps ?Q (encrypt_chunks cr k c i t n j ps)" for k i t n j ps
    by (induction ps arbitrary: j) (auto intro!: wf_intros keeps_env [OF env] simp: Let_def)
  then have "keeps ?Q (encrypt_outgoing cr c text)"
    unfolding encrypt_outgoing_def by (intro wf_intros keeps_env [OF env] key)
  from keepsD [OF this sends_within_frame(1)] show ?thesis .
qed

section \<open>Effects of a revocation\<close>

lemma event_manager [simp]: "cl_manager (e2e_event now l body c) = cl_manager c"
  by (simp add: e2e_event_def split: option.split prod.split)

lemma require_handle_manager:
  "cl_manager (snd (require_handle_for_nick lower now chan nick c)) = cl_manager c"
  by (simp add: require_handle_for_nick_def split: option.split sum.split)

lemma set_keyring_manager [simp]:
  "cl_manager (set_keyring f m c) = Some (m\<lparr>mg_keyring := f (mg_keyring m)\<rparr>)"
  by (simp add: set_keyring_def)

lemma revoke_manager:
  assumes "current_channel c = Some chan" "fst (require_handle_for_nick lower now chan nick c) = Some h"
    "cl_manager c = Some m"
  shows "cl_manager (e2e_revoke lower now nick c) = Some (m\<lparr>mg_keyring := revoke_on_channel h chan (mg_keyring m)\<rparr>)"
  using assms require_handle_manager [of lower now chan nick c]
  by (cases "require_handle_for_nick lower now chan nick c")
     (simp add: e2e_revoke_def in_channel_def for_nick_def require_mgr_def)

lemma trust_parse_revoked: "trust_parse (trust_as_str st) = st"
  by (cases st) (simp_all add: trust_parse_def trust_as_str_def)

lemma revoked_session:
  assumes "get_incoming_session cr (revoke_on_channel h c kr) h c = Inr (Some s)"
  shows "is_status s = Revoked"
proof -
  have look: "map_of (kr_incoming (revoke_on_channel h c kr)) (h, c) =
      map_option (\<lambda>w. w\<lparr>iw_status := trust_as_str Revoked\<rparr>) (map_of (kr_incoming kr) (h, c))"
    by (simp add: revoke_on_channel_def update_incoming_status_def mark_outgoing_pending_rotation_def
        remove_outgoing_recipient_def)
  show ?thesis using assms unfolding get_incoming_session_def look
    by (auto simp: row_to_incoming_def bind_res_Inr_iff trust_parse_revoked split: option.splits if_splits)
qed

lemma list_all2_left: "list_all2 P xs ys \<Longrightarrow> x \<in> set xs \<Longrightarrow> \<exists>y. P x y"
  by (induction rule: list_all2_induct) auto

lemma list_all2_right: "list_all2 P xs ys \<Longrightarrow> y \<in> set ys \<Longrightarrow> \<exists>x \<in> set xs. P x y"
  by (induction rule: list_all2_induct) auto

lemma revoked_recipients:
  assumes "list_outgoing_recipients (revoke_on_channel h c kr) c = Inr rs"
  shows "h \<notin> fst ` set rs"
proof
  assume "h \<in> fst ` set rs"
  then obtain fp where "(h, fp) \<in> set rs" by auto
  with list_all2_right [OF assms [unfolded list_outgoing_recipients_def map_res_Inr]]
  obtain t where "((c, h), t) \<in> set (kr_recipients (revoke_on_channel h c kr))"
    by (fastforce split: prod.splits if_splits)
  then show False
    by (auto simp: revoke_on_channel_def remove_outgoing_recipient_def mark_outgoing_pending_rotation_def tbl_delete_def)
qed

section \<open>Properties\<close>

text \<open>
  C30: what a revocation cuts off.  After \<open>/e2e revoke\<close> for a nick that
  resolves to a handle, no encrypted line of that handle on the channel is
  decrypted; the outgoing key is marked for rotation; and when the next text
  is encrypted, whatever happens then, no REKEY is queued for the handle.
\<close>

theorem revoke_cuts_off:
  assumes "current_channel c = Some chan" "fst (require_handle_for_nick lower now chan nick c) = Some h"
    "cl_manager c = Some m"
  shows "\<exists>m'. cl_manager (e2e_revoke lower now nick c) = Some m' \<and>
    (\<forall>line w p. wire_parse cr line = Inr (Some w) \<longrightarrow> fst (decrypt_incoming cr h chan line m') \<noteq> Inr (Plaintext p)) \<and>
    (\<forall>os. get_outgoing_session cr (mg_keyring m) chan = Inr (Some os) \<longrightarrow>
       get_outgoing_session cr (mg_keyring m') chan = Inr (Some (os\<lparr>os_pending_rotation := True\<rparr>))) \<and>
    (\<forall>body. \<exists>sends. mg_rekey_sends (snd (encrypt_outgoing cr chan body m')) = mg_rekey_sends m' @ sends \<and>
       h \<notin> rs_target_handle ` set sends)"
proof -
  let ?kr = "revoke_on_channel h chan (mg_keyring m)"
  let ?m = "m\<lparr>mg_keyring := ?kr\<rparr>"
  have "fst (decrypt_incoming cr h chan line ?m) \<noteq> Inr (Plaintext p)" if "wire_parse cr line = Inr (Some w)" for line w p
    using that revoked_session [of cr h chan "mg_keyring m"]
    by (auto simp: decrypt_exec Let_def split: sum.split option.split)
  moreover have "get_outgoing_session cr ?kr chan = Inr (Some (os\<lparr>os_pending_rotation := True\<rparr>))"
    if "get_outgoing_session cr (mg_keyring m) chan = Inr (Some os)" for os
  proof -
    have "decode_secret cr n ?kr b f = decode_secret cr n (mg_keyring m) b f" for n b f
      by (simp add: decode_secret_def revoke_on_channel_def mark_outgoing_pending_rotation_def
          remove_outgoing_recipient_def update_incoming_status_def)
    moreover have "map_of (kr_outgoing ?kr) chan =
        map_option (\<lambda>w. w\<lparr>ow_pending_rotation := 1\<rparr>) (map_of (kr_outgoing (mg_keyring m)) chan)"
      by (simp add: revoke_on_channel_def mark_outgoing_pending_rotation_def remove_outgoing_recipient_def
          update_incoming_status_def)
    ultimately show ?thesis
      using that by (auto simp: get_outgoing_session_def row_to_outgoing_def bind_res_Inr_iff split: option.splits)
  qed
  moreover have "sends_within ?m (- {h}) (snd (encrypt_outgoing cr chan body ?m))" for body
    using revoked_recipients [of h chan "mg_keyring m"] by (intro encrypt_sends_within) auto
  then have "\<exists>sends. mg_rekey_sends (snd (encrypt_outgoing cr chan body ?m)) = mg_rekey_sends ?m @ sends \<and>
       h \<notin> rs_target_handle ` set sends" for body
    unfolding sends_within_def by blast
  ultimately show ?thesis unfolding revoke_manager [OF assms]
    by (intro exI [of _ ?m]) simp
qed

text \<open>
  C31: a REKEY undoes a revocation.  A peer whose handle was just revoked on
  the channel, and whose recorded identity is otherwise known, sends an
  ordinary REKEY; the client handles it, and its session on the channel is
  trusted again, with the key the peer chose.
\<close>

theorem rekey_undoes_revoke:
  assumes cr: "good_crypto cr" "key_ok (mg_keyring b)" "length (mg_seed m) = 32" "length sk = 32"
    and cmd: "current_channel c = Some chan"
      "fst (require_handle_for_nick lower now chan nick c) = Some (ident @ ''@'' @ host)" "cl_manager c = Some b"
    and known: "classify_peer_change (mg_keyring b) (own_fingerprint cr m) (ident @ ''@'' @ host) = Inr Known"
    and pin: "session_pin (mg_keyring b) (ident @ ''@'' @ host, chan) = Some (own_fingerprint cr m)"
    and rk: "opens_rekey cr m chan sk (mg_seed b) rk" "no_ws chan"
  shows "\<exists>b' s. cl_manager (snd (try_dispatch_rpe2e_ctcp lc lower cr now conn (Some (Nickname nick ident host))
      (ctcp_frame (encode_keyrekey cr rk)) (e2e_revoke lower now nick c))) = Some b' \<and>
    get_incoming_session cr (mg_keyring b') (ident @ ''@'' @ host) chan = Inr (Some s) \<and>
    is_status s = Trusted \<and> is_sk s = sk"
proof -
  let ?h = "ident @ ''@'' @ host"
  let ?b = "b\<lparr>mg_keyring := revoke_on_channel ?h chan (mg_keyring b)\<rparr>"
  note defs = revoke_on_channel_def update_incoming_status_def mark_outgoing_pending_rotation_def
    remove_outgoing_recipient_def
  have mgr: "cl_manager (e2e_revoke lower now nick c) = Some ?b" by (rule revoke_manager [OF cmd])
  have ok: "key_ok (mg_keyring ?b)" using cr(2) by (simp add: key_ok_def defs)
  have rk': "opens_rekey cr m chan sk (mg_seed ?b) rk" using rk(1) by simp
  have known': "classify_peer_change (mg_keyring ?b) (own_fingerprint cr m) ?h = Inr Known"
    using known by (simp add: classify_Known defs)
  have pin': "session_pin (mg_keyring ?b) (?h, chan) = Some fp \<Longrightarrow> fp = own_fingerprint cr m" for fp
    using pin by (auto simp: session_pin_def defs)
  from rekey_installs [OF cr(1) ok cr(3,4) rk' known' pin'] obtain b1 t where
    b1: "handle_rekey cr ?h rk ?b = (Inr (), b1)"
      "get_incoming_session cr (mg_keyring b1) ?h chan = Inr (Some \<lparr>is_handle = ?h, is_channel = chan,
        is_fingerprint = own_fingerprint cr m, is_sk = sk, is_status = Trusted, is_created_at = t\<rparr>)" by blast
  have wf: "keyrekey_wf rk" "no_ws (kk_channel rk)" using rk by (simp_all add: opens_rekey_def)
  from dispatch_rekey [OF cr(1) wf mgr b1(1)] b1(2) show ?thesis
    by (intro exI [of _ "b1\<lparr>mg_trust_changes := []\<rparr>"]) simp
qed

section \<open>What leaves an encrypted conversation\<close>

lemma encrypt_cut:
  assumes "get_or_generate_outgoing_key cr c m = (Inr sk, m1)" "split_plaintext body = Inl e"
  shows "fst (encrypt_outgoing cr c body m) = Inl e"
  using assms by (simp add: encrypt_outgoing_def bind_st_def [of "get_or_generate_outgoing_key cr c"] exec)

text \<open>The line of one piece: nothing but the header fields, a nonce and the sealed piece.\<close>

definition sealed_line :: "crypto \<Rightarrow> bytes \<Rightarrow> bytes \<Rightarrow> bytes \<Rightarrow> i64 \<Rightarrow> nat \<Rightarrow> nat \<Rightarrow> bytes \<Rightarrow> bytes \<Rightarrow> bool" where
  "sealed_line cr sk c msgid ts tot i line piece \<longleftrightarrow>
     (\<exists>nonce ct. length nonce = 24 \<and>
        cr_aead_encrypt cr sk nonce (build_aad c msgid ts (of_nat (i + 1)) (of_nat tot)) piece = Inr ct \<and>
        wire_encode cr \<lparr>wc_msgid = msgid, wc_ts = ts, wc_part = of_nat (i + 1), wc_total = of_nat tot,
          wc_nonce = nonce, wc_ciphertext = ct\<rparr> = Inr line)"

lemma encrypt_chunks_sealed:
  "encrypt_chunks cr sk c msgid ts (of_nat tot) idx ps m = (Inr lines, m') \<Longrightarrow>
   i < length lines \<Longrightarrow> sealed_line cr sk c msgid ts tot (idx + i) (lines ! i) (ps ! i)"
proof (induction ps arbitrary: idx m m' lines i)
  case (Cons p ps)
  let ?aad = "build_aad c msgid ts (of_nat (idx + 1)) (of_nat tot)"
  from Cons.prems(1) obtain nonce ct line lines' m1 m2 where
    enc: "aead_encrypt cr (drawn 24 m) sk ?aad p = Inr (nonce, ct)" and
    line: "wire_encode cr \<lparr>wc_msgid = msgid, wc_ts = ts, wc_part = of_nat (idx + 1), wc_total = of_nat tot,
      wc_nonce = nonce, wc_ciphertext = ct\<rparr> = Inr line" and
    rest: "encrypt_chunks cr sk c msgid ts (of_nat tot) (idx + 1) ps m1 = (Inr lines', m2)" "lines = line # lines'"
    by (auto simp: exec Let_def bind_st_Inr_iff split: if_splits sum.splits prod.splits)
  have seal: "nonce = drawn 24 m" "cr_aead_encrypt cr sk nonce ?aad p = Inr ct"
    using enc by (auto simp: aead_encrypt_def bind_res_Inr_iff map_err_def split: sum.splits)
  show ?case
  proof (cases i)
    case 0
    then show ?thesis using seal line rest(2) unfolding sealed_line_def by (intro exI [of _ nonce] exI [of _ ct]) simp
  next
    case (Suc j)
    then have "sealed_line cr sk c msgid ts tot (idx + 1 + j) (lines' ! j) (ps ! j)"
      using Cons.prems(2) rest(2) by (intro Cons.IH [OF rest(1)]) simp
    then show ?thesis using Suc rest(2) by simp
  qed
qed (simp add: exec)

text \<open>
  C32: what is sent on an encrypted conversation.  Encryption is enabled for the
  context of the buffer and the outgoing key can be had.  A typed text the chunker
  can cut leaves as one line per chunk, and each line is the encoding of a header,
  a nonce and the chunk sealed under the key for its position, which opens to the
  chunk again; nothing else of the text is in it.  Two kinds of text leave as
  cleartext all the same: one that begins with a full stop or an exclamation
  mark, and one the chunker cannot cut (such as one of more than sixteen chunks).
\<close>

theorem typed_text_sent:
  assumes cr: "good_crypto cr" "cl_manager c = Some m" "key_ok (mg_keyring m)"
    and ctx: "outgoing_context (cl_state c) m bid name t body captured = Inr ctx" "config_enabled m ctx"
    and key: "fst (get_or_generate_outgoing_key cr ctx m) = Inr sk"
  shows "if starts_with ''.'' body \<or> starts_with ''!'' body \<or> (\<exists>e. split_plaintext body = Inl e)
    then fst (encrypt_or_passthrough cr bid name t body captured c) = Some (split_irc_message body message_max_bytes, body)
    else \<exists>chunks wires msgid ts. split_plaintext body = Inr chunks \<and> concat chunks = body \<and>
      fst (encrypt_or_passthrough cr bid name t body captured c) = Some (wires, body) \<and> length wires = length chunks \<and>
      (\<forall>i<length wires. sealed_line cr sk ctx msgid ts (length chunks) i (wires ! i) (chunks ! i) \<and>
         carries cr sk ctx ts (wires ! i) (chunks ! i))"
proof -
  obtain m1 where m1: "get_or_generate_outgoing_key cr ctx m = (Inr sk, m1)"
    using key by (metis fst_conv surj_pair)
  have sent: "fst (encrypt_or_passthrough cr bid name t body captured c) =
      (if starts_with ''.'' body \<or> starts_with ''!'' body then plain_passthrough body
       else case fst (encrypt_outgoing cr ctx body m) of Inr wires \<Rightarrow> Some (wires, body) | Inl _ \<Rightarrow> plain_passthrough body)"
    using cr(2) ctx by (simp add: encrypt_or_passthrough_def Let_def split: prod.split)
  show ?thesis
  proof (cases "starts_with ''.'' body \<or> starts_with ''!'' body \<or> (\<exists>e. split_plaintext body = Inl e)")
    case True
    then have "fst (encrypt_or_passthrough cr bid name t body captured c) = plain_passthrough body"
      using encrypt_cut [OF m1] sent by (auto split: sum.split)
    with True show ?thesis by (simp add: plain_passthrough_def)
  next
    case False
    then obtain chunks where Inr: "split_plaintext body = Inr chunks" by (cases "split_plaintext body") auto
    have gcm: "gcm_ok cr" using cr(1) by (simp add: good_crypto_def)
    note k = outgoing_key_result [OF gcm cr(3) m1]
    from encrypt_given_key [OF cr(1) m1 k(1) Inr] obtain wires m' where
      enc: "encrypt_outgoing cr ctx body m = (Inr wires, m')" .
    from encrypt_outgoing_Inr [OF enc] m1 Inr have
      loop: "encrypt_chunks cr sk ctx (drawn 8 m1) (clock_of (step_env m1)) (of_nat (length chunks)) 0 chunks
         (step_env (step_env m1)) = (Inr wires, m')" by auto
    have "\<forall>p\<in>set chunks. length p \<le> 4096"
      using split_plaintext_Inr(2) [OF Inr] by (auto simp: list_all_iff chunk_ok_def)
    from encrypt_chunks_sound [OF cr(1) k(1) _ loop this]
    have car: "list_all2 (carries cr sk ctx (clock_of (step_env m1))) wires chunks" by simp
    have seal: "sealed_line cr sk ctx (drawn 8 m1) (clock_of (step_env m1)) (length chunks) i (wires ! i) (chunks ! i)"
      if "i < length wires" for i using encrypt_chunks_sealed [OF loop that] by simp
    have "concat chunks = body" using split_plaintext_Inr(1) [OF Inr] by simp
    with False sent enc car Inr seal show ?thesis
      by (auto simp: list_all2_conv_all_nth intro!: exI [of _ "drawn 8 m1"] exI [of _ "clock_of (step_env m1)"])
  qed
qed

section \<open>A session\<close>

lemma example_chat_resolves:
  "current_channel (example_chat m) = Some ''#x''"
  "fst (require_handle_for_nick (\<lambda>x. x) now ''#x'' ''bob'' (example_chat m)) = Some (''~bob'' @ ''@'' @ ''b.host'')"
  "cl_manager (example_chat m) = Some m"
  by (simp_all add: example_chat_def current_channel_def active_buffer_def require_handle_for_nick_def
      resolve_handle_by_nick_def example_channel_def make_buffer_id_def user_handle_def)

lemma revoke_cuts_off_witness:
  "\<exists>m'. cl_manager (e2e_revoke (\<lambda>x. x) 0 ''bob'' (example_chat example_rotating)) = Some m' \<and>
    (\<exists>sends. mg_rekey_sends (snd (encrypt_outgoing toy_crypto ''#x'' ''hi'' m')) = mg_rekey_sends m' @ sends \<and>
       ''~bob@b.host'' \<notin> rs_target_handle ` set sends)"
  using revoke_cuts_off [where cr = toy_crypto and now = 0 and m = example_rotating, OF example_chat_resolves]
  by simp blast

definition example_knowing :: e2e_manager where
  "example_knowing = example_recipient\<lparr>mg_keyring := put_incoming
     \<lparr>is_handle = ''~bob@b.host'', is_channel = ''#x'', is_fingerprint = own_fingerprint toy_crypto example_rotating,
      is_sk = [], is_status = Trusted, is_created_at = 0\<rparr> (replicate 32 CHR ''k'')
     ((keyring_new None)\<lparr>kr_peers := [(own_fingerprint toy_crypto example_rotating,
             example_peer_row (identity_pub toy_crypto example_rotating) ''~bob@b.host'')]\<rparr>)\<rparr>"

lemma rekey_undoes_revoke_witness:
  "\<exists>frame b' s sk. cl_manager (snd (try_dispatch_rpe2e_ctcp ascii_lower_table (\<lambda>x. x) toy_crypto 0 ''n''
      (Some (Nickname ''bob'' ''~bob'' ''b.host'')) frame
      (e2e_revoke (\<lambda>x. x) 0 ''bob'' (example_chat example_knowing)))) = Some b' \<and>
    get_incoming_session toy_crypto (mg_keyring b') ''~bob@b.host'' ''#x'' = Inr (Some s) \<and>
    is_status s = Trusted \<and> is_sk s = sk"
proof -
  let ?b = "example_knowing" and ?m = example_rotating and ?sk = "replicate 32 CHR ''z''"
  have len: "length (mg_seed ?m) = 32" "length ?sk = 32" "length example_seed = 32"
    by (simp_all add: example_rotating_def example_manager_def manager_new_def Let_def example_seed_def)
  have seed: "mg_seed ?b = example_seed" by (simp add: example_knowing_def example_recipient_def Let_def)
  obtain rk m2 where rk: "opens_rekey toy_crypto ?m ''#x'' ?sk (mg_seed ?b) rk"
    using build_rekey_opens [OF toy_good len(1) _ len(3) len(2), of "row_to_peer [] (example_peer_row example_seed [])" "''#x''"]
    by (auto simp: row_to_peer_def example_peer_row_def toy_crypto_def seed)
  have ok: "key_ok (mg_keyring ?b)" by (simp add: example_knowing_def key_ok_def keyring_new_def put_incoming_def)
  have pk: "length (identity_pub toy_crypto ?m) = 32"
    using toy_keys_ok len(1) by (simp add: identity_pub_def keys_ok_def)
  have known: "classify_peer_change (mg_keyring ?b) (own_fingerprint toy_crypto ?m) (''~bob'' @ ''@'' @ ''b.host'') = Inr Known"
    using pk by (simp add: classify_Known example_knowing_def example_peer_row_def put_incoming_def
        trust_parse_revoked [of Trusted, unfolded trust_as_str_def])
  have pin: "session_pin (mg_keyring ?b) (''~bob'' @ ''@'' @ ''b.host'', ''#x'') = Some (own_fingerprint toy_crypto ?m)"
    by (simp add: session_pin_def example_knowing_def put_incoming_def)
  have ws: "no_ws ''#x''" by code_simp
  from rekey_undoes_revoke [OF toy_good ok len(1,2) example_chat_resolves known pin rk ws, of ascii_lower_table 0 "''n''"]
  show ?thesis by auto
qed

definition example_encrypted :: e2e_manager where
  "example_encrypted = example_manager (set_channel_config example_config (keyring_new None))"

lemma typed_text_sent_witness:
  "(\<exists>line msgid ts. fst (encrypt_or_passthrough toy_crypto ''n/#x'' ''#x'' Channel ''hi'' None (example_chat example_encrypted)) =
     Some ([line], ''hi'') \<and> sealed_line toy_crypto (drawn 32 example_encrypted) ''#x'' msgid ts 1 0 line ''hi'') \<and>
   fst (encrypt_or_passthrough toy_crypto ''n/#x'' ''#x'' Channel ''.hi'' None (example_chat example_encrypted)) =
     Some (split_irc_message ''.hi'' message_max_bytes, ''.hi'')"
proof -
  let ?m = "example_encrypted"
  note defs = example_encrypted_def example_manager_def manager_new_def set_channel_config_def keyring_new_def
    example_config_def
  have ok: "key_ok (mg_keyring ?m)" "map_of (kr_outgoing (mg_keyring ?m)) ''#x'' = None"
    by (simp_all add: defs key_ok_def)
  obtain m1 where "get_or_generate_outgoing_key toy_crypto ''#x'' ?m = (Inr (drawn 32 ?m), m1)"
    by (rule fresh_key [OF toy_good ok])
  then have key: "fst (get_or_generate_outgoing_key toy_crypto ''#x'' ?m) = Inr (drawn 32 ?m)" by simp
  have ctx: "outgoing_context (cl_state (example_chat ?m)) ?m ''n/#x'' ''#x'' Channel body None = Inr ''#x''"
    "config_enabled ?m ''#x''" for body
    by (simp_all add: outgoing_context_def config_enabled_def get_channel_config_def row_to_config_def defs sql_bool_def)
  have heads: "\<not> starts_with ''.'' ''hi''" "\<not> starts_with ''!'' ''hi''" "starts_with ''.'' ''.hi''" by code_simp+
  have s: "split_plaintext ''hi'' = Inr [''hi'']" by code_simp
  note sent = typed_text_sent [OF toy_good example_chat_resolves(3) ok(1) ctx key]
  obtain wires msgid ts where
    w: "fst (encrypt_or_passthrough toy_crypto ''n/#x'' ''#x'' Channel ''hi'' None (example_chat ?m)) = Some (wires, ''hi'')"
      "length wires = 1" "\<forall>i<length wires. sealed_line toy_crypto (drawn 32 ?m) ''#x'' msgid ts 1 i (wires ! i) ([''hi''] ! i)"
    using sent [of "''hi''"] heads(1,2) by (auto simp: s)
  obtain line where "wires = [line]" using w(2) by (metis One_nat_def length_0_conv length_Suc_conv)
  with w have "\<exists>line msgid ts. fst (encrypt_or_passthrough toy_crypto ''n/#x'' ''#x'' Channel ''hi'' None (example_chat ?m)) =
     Some ([line], ''hi'') \<and> sealed_line toy_crypto (drawn 32 ?m) ''#x'' msgid ts 1 0 line ''hi''" by auto
  moreover have "fst (encrypt_or_passthrough toy_crypto ''n/#x'' ''#x'' Channel ''.hi'' None (example_chat ?m)) =
     Some (split_irc_message ''.hi'' message_max_bytes, ''.hi'')"
    using sent [of "''.hi''"] heads(3) by simp
  ultimately show ?thesis by blast
qed

end
