(* ===== verification/E2e_Portable.thy ===== *)
theory E2e_Portable
  imports E2e_Commands
begin

text \<open>
  Export and import of the keyring (\<open>src/src/e2e/portable.rs\<close>): the document,
  its construction, its validation, and the two commands.  The JSON text is
  serde's: \<open>to_json\<close> and \<open>from_json\<close> are arguments, as are the file system
  (\<open>write_file\<close> is the atomic private write, \<open>read_file\<close> the read) and the
  variables of the process that a path is resolved against.
\<close>

section \<open>The document\<close>

record portable_identity =
  pi_pubkey :: bytes
  pi_privkey :: bytes
  pi_fingerprint :: bytes
  pi_created_at :: i64

record portable_peer =
  pp_fingerprint :: bytes
  pp_pubkey :: bytes
  pp_last_handle :: "bytes option"
  pp_last_nick :: "bytes option"
  pp_first_seen :: i64
  pp_last_seen :: i64
  pp_global_status :: bytes

record portable_incoming =
  pn_handle :: bytes
  pn_channel :: bytes
  pn_fingerprint :: bytes
  pn_sk :: bytes
  pn_status :: bytes
  pn_created_at :: i64

record portable_outgoing =
  po_channel :: bytes
  po_sk :: bytes
  po_created_at :: i64
  po_pending_rotation :: bool

record portable_channel =
  pc_channel :: bytes
  pc_enabled :: bool
  pc_mode :: bytes

record portable_autotrust =
  pt_scope :: bytes
  pt_pattern :: bytes

record portable =
  pd_version :: nat
  pd_exported_at :: i64
  pd_identity :: portable_identity
  pd_peers :: "portable_peer list"
  pd_incoming :: "portable_incoming list"
  pd_outgoing :: "portable_outgoing list"
  pd_channels :: "portable_channel list"
  pd_autotrust :: "portable_autotrust list"

definition export_version :: nat where
  "export_version = 1"

section \<open>Export\<close>

definition err_no_identity :: e2e_error where
  "err_no_identity = KeyringErr (''no identity present '' @ em_dash @
     '' nothing to export (run the client once to generate one)'')"

definition portable_of_peer :: "crypto \<Rightarrow> peer_record \<Rightarrow> portable_peer" where
  "portable_of_peer cr p = \<lparr>pp_fingerprint = cr_hex_encode cr (pr_fingerprint p), pp_pubkey = cr_hex_encode cr (pr_pubkey p),
     pp_last_handle = pr_last_handle p, pp_last_nick = pr_last_nick p, pp_first_seen = pr_first_seen p,
     pp_last_seen = pr_last_seen p, pp_global_status = trust_as_str (pr_status p)\<rparr>"

definition portable_of_incoming :: "crypto \<Rightarrow> incoming_session \<Rightarrow> portable_incoming" where
  "portable_of_incoming cr s = \<lparr>pn_handle = is_handle s, pn_channel = is_channel s,
     pn_fingerprint = cr_hex_encode cr (is_fingerprint s), pn_sk = cr_hex_encode cr (is_sk s),
     pn_status = trust_as_str (is_status s), pn_created_at = is_created_at s\<rparr>"

definition portable_of_outgoing :: "crypto \<Rightarrow> outgoing_session \<Rightarrow> portable_outgoing" where
  "portable_of_outgoing cr s = \<lparr>po_channel = os_channel s, po_sk = cr_hex_encode cr (os_sk s),
     po_created_at = os_created_at s, po_pending_rotation = os_pending_rotation s\<rparr>"

definition portable_of_config :: "channel_config \<Rightarrow> portable_channel" where
  "portable_of_config c = \<lparr>pc_channel = cc_channel c, pc_enabled = cc_enabled c, pc_mode = mode_as_str (cc_mode c)\<rparr>"

definition build_portable :: "crypto \<Rightarrow> i64 \<Rightarrow> keyring \<Rightarrow> e2e_error + portable" where
  "build_portable cr now kr =
     bind_res (load_identity cr kr) (\<lambda>row.
     bind_res (ok_or err_no_identity row) (\<lambda>(pubkey, privkey, fp, created_at).
     bind_res (list_all_peers kr) (\<lambda>peers.
     bind_res (list_all_incoming_sessions cr kr) (\<lambda>incoming.
     bind_res (list_all_outgoing_sessions cr kr) (\<lambda>outgoing.
     Inr \<lparr>pd_version = export_version, pd_exported_at = now,
       pd_identity = \<lparr>pi_pubkey = cr_hex_encode cr pubkey, pi_privkey = cr_hex_encode cr privkey,
         pi_fingerprint = cr_hex_encode cr fp, pi_created_at = created_at\<rparr>,
       pd_peers = map (portable_of_peer cr) peers,
       pd_incoming = map (portable_of_incoming cr) incoming,
       pd_outgoing = map (portable_of_outgoing cr) outgoing,
       pd_channels = map portable_of_config (list_all_channel_configs kr),
       pd_autotrust = map (\<lambda>(scope, pat). \<lparr>pt_scope = scope, pt_pattern = pat\<rparr>) (list_autotrust kr)\<rparr>)))))"

record file_summary =
  fs_peers :: nat
  fs_incoming :: nat
  fs_outgoing :: nat
  fs_channels :: nat
  fs_autotrust :: nat

definition export_to_path ::
  "crypto \<Rightarrow> i64 \<Rightarrow> (portable \<Rightarrow> bytes + bytes) \<Rightarrow> (bytes \<Rightarrow> bytes \<Rightarrow> e2e_error + unit) \<Rightarrow> keyring \<Rightarrow> bytes \<Rightarrow>
   e2e_error + file_summary" where
  "export_to_path cr now to_json write_file kr path =
     bind_res (build_portable cr now kr) (\<lambda>doc.
     bind_res (map_err (\<lambda>e. KeyringErr (''serialize export json: '' @ e)) (to_json doc)) (\<lambda>json.
     bind_res (write_file path json) (\<lambda>_.
     Inr \<lparr>fs_peers = length (pd_peers doc), fs_incoming = length (pd_incoming doc),
       fs_outgoing = length (pd_outgoing doc), fs_channels = length (pd_channels doc),
       fs_autotrust = length (pd_autotrust doc)\<rparr>)))"

section \<open>Import\<close>

definition parse_hex_array :: "crypto \<Rightarrow> nat \<Rightarrow> bytes \<Rightarrow> bytes \<Rightarrow> e2e_error + bytes" where
  "parse_hex_array cr n fld s =
     bind_res (map_err (\<lambda>e. KeyringErr (fld @ '': invalid hex ('' @ e @ '')'')) (cr_hex_decode cr s)) (\<lambda>b.
     if length b \<noteq> n then
       Inl (KeyringErr (fld @ '': expected '' @ show_nat n @ '' bytes (hex length '' @ show_nat (n * 2) @ ''), got '' @
         show_nat (length b)))
     else Inr b)"

definition quoted :: "bytes \<Rightarrow> bytes" where
  "quoted s = byte_of 39 # s @ [byte_of 39]"

definition parse_trust_status :: "bytes \<Rightarrow> bytes \<Rightarrow> e2e_error + trust_status" where
  "parse_trust_status fld s =
     (if s = ''pending'' then Inr Pending
      else if s = ''trusted'' then Inr Trusted
      else if s = ''revoked'' then Inr Revoked
      else Inl (KeyringErr (fld @ '': unknown status '' @ quoted s @ '' (expected pending|trusted|revoked)'')))"

definition parse_channel_mode :: "bytes \<Rightarrow> bytes \<Rightarrow> e2e_error + channel_mode" where
  "parse_channel_mode fld s =
     (if s = ''auto-accept'' \<or> s = ''auto'' then Inr AutoAccept
      else if s = ''normal'' then Inr Normal
      else if s = ''quiet'' then Inr Quiet
      else Inl (KeyringErr (fld @ '': unknown mode '' @ quoted s @ '' (expected auto-accept|normal|quiet)'')))"

text \<open>The name of a field of the i-th entry of a list, as in \<open>peers[3].pubkey\<close>.\<close>

definition field_at :: "bytes \<Rightarrow> nat \<Rightarrow> bytes \<Rightarrow> bytes" where
  "field_at list i fld = list @ ''['' @ show_nat i @ ''].'' @ fld"

definition validate_peer :: "crypto \<Rightarrow> nat \<times> portable_peer \<Rightarrow> e2e_error + peer_record" where
  "validate_peer cr ip =
     (case ip of (i, p) \<Rightarrow>
        bind_res (parse_hex_array cr 16 (field_at ''peers'' i ''fingerprint'') (pp_fingerprint p)) (\<lambda>fp.
        bind_res (parse_hex_array cr 32 (field_at ''peers'' i ''pubkey'') (pp_pubkey p)) (\<lambda>pk.
        bind_res (parse_trust_status (field_at ''peers'' i ''globalStatus'') (pp_global_status p)) (\<lambda>st.
        Inr \<lparr>pr_fingerprint = fp, pr_pubkey = pk, pr_last_handle = pp_last_handle p, pr_last_nick = pp_last_nick p,
          pr_first_seen = pp_first_seen p, pr_last_seen = pp_last_seen p, pr_status = st\<rparr>))))"

definition validate_incoming :: "crypto \<Rightarrow> nat \<times> portable_incoming \<Rightarrow> e2e_error + incoming_session" where
  "validate_incoming cr ip =
     (case ip of (i, s) \<Rightarrow>
        bind_res (parse_hex_array cr 16 (field_at ''incomingSessions'' i ''fingerprint'') (pn_fingerprint s)) (\<lambda>fp.
        bind_res (parse_hex_array cr 32 (field_at ''incomingSessions'' i ''sk'') (pn_sk s)) (\<lambda>sk.
        bind_res (parse_trust_status (field_at ''incomingSessions'' i ''status'') (pn_status s)) (\<lambda>st.
        Inr \<lparr>is_handle = pn_handle s, is_channel = pn_channel s, is_fingerprint = fp, is_sk = sk,
          is_status = st, is_created_at = pn_created_at s\<rparr>))))"

definition validate_outgoing :: "crypto \<Rightarrow> nat \<times> portable_outgoing \<Rightarrow> e2e_error + outgoing_session" where
  "validate_outgoing cr ip =
     (case ip of (i, s) \<Rightarrow>
        bind_res (parse_hex_array cr 32 (field_at ''outgoingSessions'' i ''sk'') (po_sk s)) (\<lambda>sk.
        Inr \<lparr>os_channel = po_channel s, os_sk = sk, os_created_at = po_created_at s,
          os_pending_rotation = po_pending_rotation s\<rparr>))"

definition validate_channel :: "nat \<times> portable_channel \<Rightarrow> e2e_error + channel_config" where
  "validate_channel ip =
     (case ip of (i, c) \<Rightarrow>
        bind_res (parse_channel_mode (field_at ''channels'' i ''mode'') (pc_mode c)) (\<lambda>m.
        Inr \<lparr>cc_channel = pc_channel c, cc_enabled = pc_enabled c, cc_mode = m\<rparr>))"

record validated =
  vd_identity :: "bytes \<times> bytes \<times> bytes \<times> i64"
  vd_peers :: "peer_record list"
  vd_incoming :: "incoming_session list"
  vd_outgoing :: "outgoing_session list"
  vd_channels :: "channel_config list"
  vd_autotrust :: "(bytes \<times> bytes \<times> i64) list"

definition err_version :: "nat \<Rightarrow> e2e_error" where
  "err_version v = KeyringErr (''unsupported export version: got '' @ show_nat v @ '', expected '' @ show_nat export_version)"

definition validate :: "crypto \<Rightarrow> portable \<Rightarrow> e2e_error + validated" where
  "validate cr doc =
     (if pd_version doc \<noteq> export_version then Inl (err_version (pd_version doc))
      else
        bind_res (parse_hex_array cr 32 ''identity.pubkey'' (pi_pubkey (pd_identity doc))) (\<lambda>pubkey.
        bind_res (parse_hex_array cr 32 ''identity.privkey'' (pi_privkey (pd_identity doc))) (\<lambda>privkey.
        bind_res (parse_hex_array cr 16 ''identity.fingerprint'' (pi_fingerprint (pd_identity doc))) (\<lambda>fp.
        bind_res (map_res (validate_peer cr) (enumerate 0 (pd_peers doc))) (\<lambda>peers.
        bind_res (map_res (validate_incoming cr) (enumerate 0 (pd_incoming doc))) (\<lambda>incoming.
        bind_res (map_res (validate_outgoing cr) (enumerate 0 (pd_outgoing doc))) (\<lambda>outgoing.
        bind_res (map_res validate_channel (enumerate 0 (pd_channels doc))) (\<lambda>channels.
        Inr \<lparr>vd_identity = (pubkey, privkey, fp, pi_created_at (pd_identity doc)), vd_peers = peers,
          vd_incoming = incoming, vd_outgoing = outgoing, vd_channels = channels,
          vd_autotrust = map (\<lambda>a. (pt_scope a, pt_pattern a, pd_exported_at doc)) (pd_autotrust doc)\<rparr>))))))))"

definition import_document :: "crypto \<Rightarrow> (nat \<Rightarrow> bytes) \<Rightarrow> portable \<Rightarrow> keyring \<Rightarrow> e2e_error + keyring \<times> file_summary" where
  "import_document cr ivs doc kr =
     bind_res (validate cr doc) (\<lambda>v.
     bind_res (replace_all_for_import cr ivs (vd_identity v) (vd_peers v) (vd_incoming v) (vd_outgoing v)
       (vd_channels v) (vd_autotrust v) kr) (\<lambda>kr'.
     Inr (kr', \<lparr>fs_peers = length (vd_peers v), fs_incoming = length (vd_incoming v),
       fs_outgoing = length (vd_outgoing v), fs_channels = length (vd_channels v),
       fs_autotrust = length (vd_autotrust v)\<rparr>)))"

definition import_from_path ::
  "crypto \<Rightarrow> (nat \<Rightarrow> bytes) \<Rightarrow> (bytes \<Rightarrow> bytes + portable) \<Rightarrow> (bytes \<Rightarrow> e2e_error + bytes) \<Rightarrow> keyring \<Rightarrow> bytes \<Rightarrow>
   e2e_error + keyring \<times> file_summary" where
  "import_from_path cr ivs from_json read_file kr path =
     bind_res (read_file path) (\<lambda>raw.
     bind_res (map_err (\<lambda>e. KeyringErr (''parse json: '' @ e)) (from_json raw)) (\<lambda>doc.
     import_document cr ivs doc kr))"

section \<open>The commands\<close>

text \<open>\<open>Path::join\<close> on Unix: an absolute right side replaces the left.\<close>

definition join_path :: "bytes \<Rightarrow> bytes \<Rightarrow> bytes" where
  "join_path a b =
     (if starts_with ''/'' b then b
      else if a = [] \<or> last a = CHR ''/'' then a @ b
      else a @ ''/'' @ b)"

definition err_no_home :: e2e_error where
  "err_no_home = KeyringErr ''cannot expand ~: $HOME is not set''"

definition expand_path :: "bytes option \<Rightarrow> bytes + bytes \<Rightarrow> bytes \<Rightarrow> e2e_error + bytes" where
  "expand_path home cwd path =
     (if starts_with ''~/'' path then
        bind_res (ok_or err_no_home home) (\<lambda>h. Inr (join_path h (drop 2 path)))
      else if path = ''~'' then ok_or err_no_home home
      else if starts_with ''/'' path then Inr path
      else bind_res (map_err (\<lambda>e. KeyringErr (''cannot get cwd: '' @ e)) cwd) (\<lambda>d. Inr (join_path d path)))"

definition with_path ::
  "bytes option \<Rightarrow> bytes + bytes \<Rightarrow> i64 \<Rightarrow> bytes \<Rightarrow> (bytes \<Rightarrow> client \<Rightarrow> client) \<Rightarrow> bytes option \<Rightarrow> client \<Rightarrow> client" where
  "with_path home cwd now name body path =
     (case path of
        None \<Rightarrow> e2e_event now ErrorLevel (name @ '': usage: '' @ name @ '' <file>'')
      | Some raw \<Rightarrow>
          (case expand_path home cwd raw of
             Inl e \<Rightarrow> e2e_event now ErrorLevel (name @ '': '' @ display_error e)
           | Inr resolved \<Rightarrow> body resolved))"

definition e2e_export ::
  "crypto \<Rightarrow> (portable \<Rightarrow> bytes + bytes) \<Rightarrow> (bytes \<Rightarrow> bytes \<Rightarrow> e2e_error + unit) \<Rightarrow> bytes option \<Rightarrow> bytes + bytes \<Rightarrow>
   i64 \<Rightarrow> bytes option \<Rightarrow> client \<Rightarrow> client" where
  "e2e_export cr to_json write_file home cwd now = with_path home cwd now ''/e2e export'' (\<lambda>resolved.
     require_mgr now (\<lambda>m.
       (case export_to_path cr now to_json write_file (mg_keyring m) resolved of
          Inr summary \<Rightarrow> (\<lambda>c.
            add_local_event now (''  '' @ c_dim @ ''warning: session keys are in plaintext in this file. '' @
              ''Protect it with filesystem ACLs; never share or commit it.'' @ c_rst)
            (e2e_event now Info (''exported keyring to '' @ resolved @ '' (identity + '' @ show_nat (fs_peers summary) @
              '' peers + '' @ show_nat (fs_incoming summary + fs_outgoing summary) @ '' sessions)'') c))
        | Inl e \<Rightarrow> e2e_event now ErrorLevel (''/e2e export: '' @ display_error e))))"

definition e2e_import ::
  "crypto \<Rightarrow> (nat \<Rightarrow> bytes) \<Rightarrow> (bytes \<Rightarrow> bytes + portable) \<Rightarrow> (bytes \<Rightarrow> e2e_error + bytes) \<Rightarrow>
   bytes option \<Rightarrow> bytes + bytes \<Rightarrow> i64 \<Rightarrow> bytes option \<Rightarrow> client \<Rightarrow> client" where
  "e2e_import cr ivs from_json read_file home cwd now = with_path home cwd now ''/e2e import'' (\<lambda>resolved.
     require_mgr now (\<lambda>m c.
       (case import_from_path cr ivs from_json read_file (mg_keyring m) resolved of
          Inr (kr, summary) \<Rightarrow>
            e2e_event now Info (''imported keyring from '' @ resolved @ '' (identity=true, peers='' @
              show_nat (fs_peers summary) @ '', incoming='' @ show_nat (fs_incoming summary) @ '', outgoing='' @
              show_nat (fs_outgoing summary) @ '', channels='' @ show_nat (fs_channels summary) @ '', autotrust='' @
              show_nat (fs_autotrust summary) @ '')'')
            (set_keyring (\<lambda>_. kr) m c)
        | Inl e \<Rightarrow> e2e_event now ErrorLevel (''/e2e import: '' @ display_error e) c)))"

section \<open>Sorted rows\<close>

lemma map_insort_key: "map k (insort_key (f \<circ> k) x xs) = insort_key f (k x) (map k xs)"
  by (induction xs) auto

lemma map_sort_key: "map k (sort_key (f \<circ> k) xs) = sort_key f (map k xs)"
  by (induction xs) (simp_all add: map_insort_key del: comp_apply)

text \<open>A sort by two keys, and doing it again.\<close>

lemma double_sort_again:
  "sort_key c (sort_key h (sort_key c (sort_key h xs))) = sort_key c (sort_key h xs)" (is "sort_key c (sort_key h ?ys) = ?ys")
proof (rule properties_for_sort_key)
  fix k
  assume "k \<in> set ?ys"
  have same: "filter (\<lambda>x. c k = c x) (sort_key c zs) = filter (\<lambda>x. c k = c x) zs" for zs
    by (induction zs) (auto simp: filter_insort_triv insort_is_Cons filter_insort)
  show "filter (\<lambda>x. c k = c x) ?ys = filter (\<lambda>x. c k = c x) (sort_key h ?ys)"
    unfolding same filter_sort [of _ h] by (simp add: sort_key_id_if_sorted)
qed (simp_all add: eq_commute)

lemma map_of_same_rows: "distinct (map fst t) \<Longrightarrow> mset t' = mset t \<Longrightarrow> map_of t' = map_of t"
  by (metis map_of_inject_set mset_eq_imp_distinct_iff mset_map set_mset_mset)

lemma distinct_same_rows: "distinct (map fst t) \<Longrightarrow> mset t' = mset t \<Longrightarrow> distinct (map fst t')"
  using mset_eq_imp_distinct_iff [of "map fst t'" "map fst t"] by simp

text \<open>Rows with distinct keys are determined by the order of their keys.\<close>

lemma rows_in_key_order:
  assumes "distinct (map fst t)" "mset t' = mset t" "map fst t' = map fst t"
  shows "t' = t"
proof -
  have rows: "u = map (\<lambda>k. (k, the (map_of u k))) (map fst u)" if "distinct (map fst u)" for u :: "('a \<times> 'b) list"
    using that by (auto intro!: map_idI [symmetric])
  from assms show ?thesis using rows [of t] rows [of t'] map_of_same_rows [of t t'] by simp
qed

lemma insert_rows_fresh: "distinct (map fst (t @ rs)) \<Longrightarrow> insert_rows rs t = Inr (t @ rs)"
  by (induction rs arbitrary: t) (auto simp: insert_row_def map_of_eq_None_iff)

lemma map_res_enumerate:
  "(\<And>i x. x \<in> set xs \<Longrightarrow> f (i, g x) = Inr x) \<Longrightarrow> map_res f (enumerate n (map g xs)) = Inr xs"
  by (induction xs arbitrary: n) auto

section \<open>What an export reads back as\<close>

text \<open>The primary keys of the tables, which SQLite enforces.\<close>

definition keyring_keyed :: "keyring \<Rightarrow> bool" where
  "keyring_keyed kr \<longleftrightarrow>
     distinct (map fst (kr_peers kr)) \<and> distinct (map fst (kr_incoming kr)) \<and>
     distinct (map fst (kr_outgoing kr)) \<and> distinct (map fst (kr_config kr)) \<and>
     distinct (map fst (kr_autotrust kr))"

lemma parse_hex_encoded: "hex_ok cr \<Longrightarrow> length b = n \<Longrightarrow> parse_hex_array cr n fld (cr_hex_encode cr b) = Inr b"
  by (simp add: parse_hex_array_def hex_ok_def)

lemma parse_status_of [simp]: "parse_trust_status fld (trust_as_str st) = Inr st"
  by (cases st) (simp_all add: parse_trust_status_def trust_as_str_def)

lemma parse_mode_of [simp]: "parse_channel_mode fld (mode_as_str m) = Inr m"
  by (cases m) (simp_all add: parse_channel_mode_def mode_as_str_def)

lemma validate_peer_of:
  "hex_ok cr \<Longrightarrow> length (pr_fingerprint p) = 16 \<Longrightarrow> length (pr_pubkey p) = 32 \<Longrightarrow>
   validate_peer cr (i, portable_of_peer cr p) = Inr p"
  by (simp add: validate_peer_def portable_of_peer_def parse_hex_encoded)

lemma validate_incoming_of:
  "hex_ok cr \<Longrightarrow> length (is_fingerprint s) = 16 \<Longrightarrow> length (is_sk s) = 32 \<Longrightarrow>
   validate_incoming cr (i, portable_of_incoming cr s) = Inr s"
  by (simp add: validate_incoming_def portable_of_incoming_def parse_hex_encoded)

lemma validate_outgoing_of:
  "hex_ok cr \<Longrightarrow> length (os_sk s) = 32 \<Longrightarrow> validate_outgoing cr (i, portable_of_outgoing cr s) = Inr s"
  by (simp add: validate_outgoing_def portable_of_outgoing_def parse_hex_encoded)

lemma validate_channel_of: "validate_channel (i, portable_of_config c) = Inr c"
  by (simp add: validate_channel_def portable_of_config_def)

text \<open>A lookup by key, in terms of the list that the whole table is read as.\<close>

lemma lookup_of_rows:
  "list_all2 (\<lambda>(k, w) s. f k w = Inr s \<and> key s = k) t ss \<Longrightarrow>
   (case map_of t k of None \<Rightarrow> Inr None | Some w \<Rightarrow> bind_res (f k w) (\<lambda>s. Inr (Some s))) =
   Inr (map_of (map (\<lambda>s. (key s, s)) ss) k)"
  by (induction rule: list_all2_induct) auto

lemma rows_keys: "list_all2 (\<lambda>(k, w) s. f k w = Inr s \<and> key s = k) t ss \<Longrightarrow> map key ss = map fst t"
  by (induction rule: list_all2_induct) auto

lemma decode_secret_length: "decode_secret cr n kr blob fld = Inr b \<Longrightarrow> length b = n"
  by (auto simp: decode_secret_def bind_res_Inr_iff split: if_splits)

lemma row_to_incoming_facts:
  "row_to_incoming cr kr k w = Inr s \<Longrightarrow>
   (is_handle s, is_channel s) = k \<and> length (is_fingerprint s) = 16 \<and> length (is_sk s) = 32"
  by (auto simp: row_to_incoming_def bind_res_Inr_iff dest: decode_secret_length split: if_splits)

lemma row_to_outgoing_facts:
  "row_to_outgoing cr kr k w = Inr s \<Longrightarrow> os_channel s = k \<and> length (os_sk s) = 32"
  by (auto simp: row_to_outgoing_def bind_res_Inr_iff dest: decode_secret_length)

lemma import_incoming_result:
  assumes "gcm_ok cr" "\<And>n. length (ivs n) = 12" "key_ok kr"
    and "\<And>s. s \<in> set ss \<Longrightarrow> length (is_fingerprint s) = 16 \<and> length (is_sk s) = 32"
    and "distinct (map fst (kr_incoming kr) @ map (\<lambda>s. (is_handle s, is_channel s)) ss)"
  shows "\<exists>rows. import_incoming cr ivs n ss kr = Inr (kr\<lparr>kr_incoming := kr_incoming kr @ rows\<rparr>) \<and>
    list_all2 (\<lambda>(k, w) s. (\<forall>kr'. kr_secret_key kr' = kr_secret_key kr \<longrightarrow> row_to_incoming cr kr' k w = Inr s) \<and>
      (is_handle s, is_channel s) = k) rows ss"
  using assms(3-)
proof (induction ss arbitrary: n kr)
  case Nil
  show ?case by (intro exI [of _ "[]"]) simp
next
  case (Cons s ss)
  obtain enc where enc: "encode_secret cr (ivs n) kr (is_sk s) = Inr enc"
    "\<And>kr' fld. kr_secret_key kr' = kr_secret_key kr \<Longrightarrow> decode_secret cr 32 kr' enc fld = Inr (is_sk s)"
    using encode_decode_secret [OF assms(1) Cons.prems(1) assms(2), of "is_sk s" 32 n] Cons.prems(2) [of s] by auto
  define row where "row = \<lparr>iw_fingerprint = is_fingerprint s, iw_sk = enc, iw_status = trust_as_str (is_status s),
    iw_created_at = is_created_at s\<rparr>"
  let ?k = "(is_handle s, is_channel s)" and ?kr = "kr\<lparr>kr_incoming := kr_incoming kr @ [((is_handle s, is_channel s), row)]\<rparr>"
  have "insert_row ?k row (kr_incoming kr) = Inr (kr_incoming kr @ [(?k, row)])"
    using Cons.prems(3) by (simp add: insert_row_def map_of_eq_None_iff)
  then have step: "import_incoming cr ivs n (s # ss) kr = import_incoming cr ivs (Suc n) ss ?kr"
    using enc(1) by (simp add: row_def)
  obtain rows where rest: "import_incoming cr ivs (Suc n) ss ?kr = Inr (?kr\<lparr>kr_incoming := kr_incoming ?kr @ rows\<rparr>)"
    "list_all2 (\<lambda>(k, w) s. (\<forall>kr'. kr_secret_key kr' = kr_secret_key ?kr \<longrightarrow> row_to_incoming cr kr' k w = Inr s) \<and>
      (is_handle s, is_channel s) = k) rows ss"
    using Cons.IH [of ?kr "Suc n"] Cons.prems by (auto simp: key_ok_def)
  have "row_to_incoming cr kr' ?k row = Inr s" if "kr_secret_key kr' = kr_secret_key kr" for kr'
    using enc(2) [OF that] Cons.prems(2) [of s] by (simp add: row_to_incoming_def row_def)
  with rest step show ?case by (intro exI [of _ "(?k, row) # rows"]) simp
qed

lemma import_outgoing_result:
  assumes "gcm_ok cr" "\<And>n. length (ivs n) = 12" "key_ok kr"
    and "\<And>s. s \<in> set ss \<Longrightarrow> length (os_sk s) = 32"
    and "distinct (map fst (kr_outgoing kr) @ map os_channel ss)"
  shows "\<exists>rows. import_outgoing cr ivs n ss kr = Inr (kr\<lparr>kr_outgoing := kr_outgoing kr @ rows\<rparr>) \<and>
    list_all2 (\<lambda>(k, w) s. (\<forall>kr'. kr_secret_key kr' = kr_secret_key kr \<longrightarrow> row_to_outgoing cr kr' k w = Inr s) \<and>
      os_channel s = k) rows ss"
  using assms(3-)
proof (induction ss arbitrary: n kr)
  case Nil
  show ?case by (intro exI [of _ "[]"]) simp
next
  case (Cons s ss)
  obtain enc where enc: "encode_secret cr (ivs n) kr (os_sk s) = Inr enc"
    "\<And>kr' fld. kr_secret_key kr' = kr_secret_key kr \<Longrightarrow> decode_secret cr 32 kr' enc fld = Inr (os_sk s)"
    using encode_decode_secret [OF assms(1) Cons.prems(1) assms(2), of "os_sk s" 32 n] Cons.prems(2) [of s] by auto
  define row where "row = \<lparr>ow_sk = enc, ow_created_at = os_created_at s,
    ow_pending_rotation = sql_bool (os_pending_rotation s)\<rparr>"
  let ?kr = "kr\<lparr>kr_outgoing := kr_outgoing kr @ [(os_channel s, row)]\<rparr>"
  have "insert_row (os_channel s) row (kr_outgoing kr) = Inr (kr_outgoing kr @ [(os_channel s, row)])"
    using Cons.prems(3) by (simp add: insert_row_def map_of_eq_None_iff)
  then have step: "import_outgoing cr ivs n (s # ss) kr = import_outgoing cr ivs (Suc n) ss ?kr"
    using enc(1) by (simp add: row_def)
  obtain rows where rest: "import_outgoing cr ivs (Suc n) ss ?kr = Inr (?kr\<lparr>kr_outgoing := kr_outgoing ?kr @ rows\<rparr>)"
    "list_all2 (\<lambda>(k, w) s. (\<forall>kr'. kr_secret_key kr' = kr_secret_key ?kr \<longrightarrow> row_to_outgoing cr kr' k w = Inr s) \<and>
      os_channel s = k) rows ss"
    using Cons.IH [of ?kr "Suc n"] Cons.prems by (auto simp: key_ok_def)
  have "row_to_outgoing cr kr' (os_channel s) row = Inr s" if "kr_secret_key kr' = kr_secret_key kr" for kr'
    using enc(2) [OF that] by (simp add: row_to_outgoing_def row_def sql_bool_def)
  with rest step show ?case by (intro exI [of _ "(os_channel s, row) # rows"]) simp
qed

text \<open>The keyring that an import leaves: exactly the validated rows, the secrets sealed again.\<close>

definition peer_rows :: "peer_record list \<Rightarrow> (bytes, peer_row) table" where
  "peer_rows ps = map (\<lambda>r. (pr_fingerprint r, peer_to_row r)) ps"

definition config_rows :: "channel_config list \<Rightarrow> (bytes, i64 \<times> bytes) table" where
  "config_rows cs = map (\<lambda>c. (cc_channel c, (sql_bool (cc_enabled c), mode_as_str (cc_mode c)))) cs"

definition autotrust_rows :: "(bytes \<times> bytes \<times> i64) list \<Rightarrow> (bytes \<times> bytes, i64) table" where
  "autotrust_rows au = map (\<lambda>(scope, pat, t). ((scope, pat), t)) au"

lemma rows_fst:
  "map fst (peer_rows ps) = map pr_fingerprint ps" "map fst (config_rows cs) = map cc_channel cs"
  by (simp_all add: peer_rows_def config_rows_def)

lemma replace_result:
  assumes cr: "gcm_ok cr" "\<And>n. length (ivs n) = 12" "key_ok kr" and sk: "length sk = 32"
    and inc: "\<And>s. s \<in> set ins \<Longrightarrow> length (is_fingerprint s) = 16 \<and> length (is_sk s) = 32"
      "distinct (map (\<lambda>s. (is_handle s, is_channel s)) ins)"
    and outg: "\<And>s. s \<in> set outs \<Longrightarrow> length (os_sk s) = 32" "distinct (map os_channel outs)"
    and keys: "distinct (map pr_fingerprint ps)" "distinct (map cc_channel cs)" "distinct (map fst (autotrust_rows au))"
  shows "\<exists>enc irows orows.
    replace_all_for_import cr ivs (pk, sk, fp, t) ps ins outs cs au kr =
      Inr \<lparr>kr_secret_key = kr_secret_key kr,
        kr_identity = Some \<lparr>iy_pubkey = pk, iy_privkey = enc, iy_fingerprint = fp, iy_created_at = t\<rparr>,
        kr_peers = peer_rows ps, kr_incoming = irows, kr_outgoing = orows, kr_config = config_rows cs,
        kr_autotrust = autotrust_rows au, kr_recipients = []\<rparr> \<and>
    (\<forall>kr' fld. kr_secret_key kr' = kr_secret_key kr \<longrightarrow> decode_secret cr 32 kr' enc fld = Inr sk) \<and>
    list_all2 (\<lambda>(k, w) s. (\<forall>kr'. kr_secret_key kr' = kr_secret_key kr \<longrightarrow> row_to_incoming cr kr' k w = Inr s) \<and>
      (is_handle s, is_channel s) = k) irows ins \<and>
    list_all2 (\<lambda>(k, w) s. (\<forall>kr'. kr_secret_key kr' = kr_secret_key kr \<longrightarrow> row_to_outgoing cr kr' k w = Inr s) \<and>
      os_channel s = k) orows outs"
proof -
  let ?kr0 = "keyring_new (kr_secret_key kr)"
  have "key_ok ?kr0" using cr(3) by (simp add: key_ok_def keyring_new_def)
  then obtain enc where enc: "encode_secret cr (ivs 0) ?kr0 sk = Inr enc"
    "\<And>kr' fld. kr_secret_key kr' = kr_secret_key kr \<Longrightarrow> decode_secret cr 32 kr' enc fld = Inr sk"
    using encode_decode_secret [OF cr(1) _ cr(2) sk, of ?kr0 0] by (auto simp: keyring_new_def)
  define kr1 where "kr1 = ?kr0\<lparr>kr_identity := Some \<lparr>iy_pubkey = pk, iy_privkey = enc, iy_fingerprint = fp,
    iy_created_at = t\<rparr>, kr_peers := peer_rows ps\<rparr>"
  have kr1: "key_ok kr1" "kr_secret_key kr1 = kr_secret_key kr" "kr_incoming kr1 = []" "kr_outgoing kr1 = []"
    using cr(3) by (simp_all add: kr1_def key_ok_def keyring_new_def)
  from import_incoming_result [where cr = cr and ivs = ivs and kr = kr1 and ss = ins and n = 1] cr inc kr1
  obtain irows where irows: "import_incoming cr ivs 1 ins kr1 = Inr (kr1\<lparr>kr_incoming := irows\<rparr>)"
    "list_all2 (\<lambda>(k, w) s. (\<forall>kr'. kr_secret_key kr' = kr_secret_key kr \<longrightarrow> row_to_incoming cr kr' k w = Inr s) \<and>
      (is_handle s, is_channel s) = k) irows ins"
    by auto
  define kr2 where "kr2 = kr1\<lparr>kr_incoming := irows\<rparr>"
  have kr2: "key_ok kr2" "kr_secret_key kr2 = kr_secret_key kr" "kr_outgoing kr2 = []"
    using kr1 by (simp_all add: kr2_def key_ok_def)
  from import_outgoing_result [where cr = cr and ivs = ivs and kr = kr2 and ss = outs and n = "1 + length ins"] cr outg kr2
  obtain orows where orows: "import_outgoing cr ivs (1 + length ins) outs kr2 = Inr (kr2\<lparr>kr_outgoing := orows\<rparr>)"
    "list_all2 (\<lambda>(k, w) s. (\<forall>kr'. kr_secret_key kr' = kr_secret_key kr \<longrightarrow> row_to_outgoing cr kr' k w = Inr s) \<and>
      os_channel s = k) orows outs"
    by auto
  have "insert_rows (peer_rows ps) [] = Inr (peer_rows ps)" "insert_rows (config_rows cs) [] = Inr (config_rows cs)"
    "insert_rows (autotrust_rows au) [] = Inr (autotrust_rows au)"
    using keys by (simp_all add: insert_rows_fresh [of "[]", simplified] rows_fst)
  with enc irows orows show ?thesis
    by (intro exI [of _ enc] exI [of _ irows] exI [of _ orows])
      (simp add: replace_all_for_import_def save_identity_def peer_rows_def [symmetric] config_rows_def [symmetric]
        autotrust_rows_def [symmetric] kr1_def kr2_def keyring_new_def)
qed

text \<open>The lists of a keyring, and the keyring that holds exactly them.\<close>

lemma list_all_peers_facts:
  assumes "list_all_peers kr = Inr ps"
  shows "ps = map (\<lambda>(fp, w). row_to_peer fp w) (sort_key (\<lambda>(_, w). sint (pw_first_seen w)) (kr_peers kr))"
    and "\<And>p. p \<in> set ps \<Longrightarrow> length (pr_fingerprint p) = 16 \<and> length (pr_pubkey p) = 32"
proof -
  have rel: "list_all2 (\<lambda>(fp, w) p. p = row_to_peer fp w \<and> length fp = 16 \<and> length (pw_pubkey w) = 32)
      (sort_key (\<lambda>(_, w). sint (pw_first_seen w)) (kr_peers kr)) ps"
    using assms unfolding list_all_peers_def map_res_Inr
    by (rule list_all2_mono) (auto split: if_splits)
  have "list_all2 (\<lambda>(fp, w) p. p = row_to_peer fp w \<and> length fp = 16 \<and> length (pw_pubkey w) = 32) t ps' \<Longrightarrow>
      ps' = map (\<lambda>(fp, w). row_to_peer fp w) t \<and>
      (\<forall>p\<in>set ps'. length (pr_fingerprint p) = 16 \<and> length (pr_pubkey p) = 32)" for t ps'
    by (induction rule: list_all2_induct) (auto simp: row_to_peer_def)
  from this [OF rel] show "ps = map (\<lambda>(fp, w). row_to_peer fp w) (sort_key (\<lambda>(_, w). sint (pw_first_seen w)) (kr_peers kr))"
    and "\<And>p. p \<in> set ps \<Longrightarrow> length (pr_fingerprint p) = 16 \<and> length (pr_pubkey p) = 32" by blast+
qed

lemma peer_rows_of_list:
  "peer_rows (map (\<lambda>(fp, w). row_to_peer fp w) t) = map (\<lambda>(fp, w). (fp, w\<lparr>pw_status := trust_as_str (trust_parse (pw_status w))\<rparr>)) t"
  by (auto simp: peer_rows_def row_to_peer_def peer_to_row_def)

lemma peers_again:
  assumes "list_all_peers kr = Inr ps" "distinct (map fst (kr_peers kr))" "kr_peers kr' = peer_rows ps"
  shows "list_all_peers kr' = Inr ps" "get_peer_by_fingerprint kr' fp = get_peer_by_fingerprint kr fp"
    "distinct (map pr_fingerprint ps)"
proof -
  define t where "t = sort_key (\<lambda>(_, w). sint (pw_first_seen w)) (kr_peers kr)"
  define g where "g w = w\<lparr>pw_status := trust_as_str (trust_parse (pw_status w))\<rparr>" for w :: peer_row
  have ps: "ps = map (\<lambda>(fp, w). row_to_peer fp w) t" and rows: "kr_peers kr' = map (\<lambda>(fp, w). (fp, g w)) t"
    using list_all_peers_facts(1) [OF assms(1)] assms(3) peer_rows_of_list by (simp_all add: t_def g_def)
  have sorted: "sorted (map (\<lambda>(_, w). sint (pw_first_seen w)) t)" by (simp add: t_def)
  have g: "sint (pw_first_seen (g w)) = sint (pw_first_seen w)" "row_to_peer fp (g w) = row_to_peer fp w"
    "pw_pubkey (g w) = pw_pubkey w" for fp w
    by (simp_all add: g_def row_to_peer_def)
  have len: "length fp = 16 \<and> length (pw_pubkey w) = 32" if "(fp, w) \<in> set t" for fp w
    using list_all_peers_facts(2) [OF assms(1), of "row_to_peer fp w"] that unfolding ps by (force simp: row_to_peer_def)
  have "sort_key (\<lambda>(_, w). sint (pw_first_seen w)) (kr_peers kr') = kr_peers kr'"
    by (rule sort_key_id_if_sorted) (use sorted in \<open>simp add: rows g case_prod_unfold comp_def\<close>)
  then show "list_all_peers kr' = Inr ps"
    unfolding list_all_peers_def ps rows by (auto simp: map_res_Inr list_all2_map1 list_all2_map2 g dest: len intro!: list.rel_refl_strong)
  have keys: "distinct (map fst t)"
    by (rule distinct_same_rows [OF assms(2)]) (simp add: t_def)
  have "map pr_fingerprint ps = map fst t" by (simp add: ps row_to_peer_def case_prod_unfold)
  with keys show "distinct (map pr_fingerprint ps)" by simp
  have "map_of (kr_peers kr') fp = map_option g (map_of (kr_peers kr) fp)"
    using map_of_same_rows [OF assms(2), of t] by (simp add: rows map_of_map_values) (simp add: t_def)
  then show "get_peer_by_fingerprint kr' fp = get_peer_by_fingerprint kr fp"
    by (simp add: get_peer_by_fingerprint_def g split: option.split)
qed

lemma sessions_again:
  assumes list: "map_res (\<lambda>(k, w). f k w) t = Inr ss" and key: "\<And>k w s. f k w = Inr s \<Longrightarrow> key s = k"
    and rows: "list_all2 (\<lambda>(k, w) s. f' k w = Inr s \<and> key s = k) rows ss"
  shows "map fst rows = map fst t" "map_res (\<lambda>(k, w). f' k w) rows = Inr ss"
    and "(case map_of rows k of None \<Rightarrow> Inr None | Some w \<Rightarrow> bind_res (f' k w) (\<lambda>s. Inr (Some s))) =
         (case map_of t k of None \<Rightarrow> Inr None | Some w \<Rightarrow> bind_res (f k w) (\<lambda>s. Inr (Some s)))"
proof -
  have t: "list_all2 (\<lambda>(k, w) s. f k w = Inr s \<and> key s = k) t ss"
    using list unfolding map_res_Inr by (rule list_all2_mono) (auto dest: key)
  show "map fst rows = map fst t"
    using rows_keys [OF t] rows_keys [OF rows] by simp
  show "map_res (\<lambda>(k, w). f' k w) rows = Inr ss"
    unfolding map_res_Inr using rows by (rule list_all2_mono) auto
  show "(case map_of rows k of None \<Rightarrow> Inr None | Some w \<Rightarrow> bind_res (f' k w) (\<lambda>s. Inr (Some s))) =
      (case map_of t k of None \<Rightarrow> Inr None | Some w \<Rightarrow> bind_res (f k w) (\<lambda>s. Inr (Some s)))"
    using lookup_of_rows [OF t] lookup_of_rows [OF rows] by simp
qed

lemma incoming_again:
  assumes list: "list_all_incoming_sessions cr kr = Inr ss" and keys: "distinct (map fst (kr_incoming kr))"
    and rows: "list_all2 (\<lambda>(k, w) s. row_to_incoming cr kr' k w = Inr s \<and> (is_handle s, is_channel s) = k)
      (kr_incoming kr') ss"
  shows "list_all_incoming_sessions cr kr' = Inr ss"
    and "get_incoming_session cr kr' h c = get_incoming_session cr kr h c"
proof -
  define sort2 where "sort2 t = sort_key (\<lambda>((_, c), _). c) (sort_key (\<lambda>((h, _), _). h) t)" for t :: "(bytes \<times> bytes, incoming_row) table"
  have ms: "mset (sort2 t) = mset t" for t by (simp add: sort2_def)
  have fst_sort2: "map fst (sort2 t) = sort_key snd (sort_key fst (map fst t))" for t
    unfolding sort2_def map_sort_key [symmetric] by (simp add: comp_def case_prod_unfold)
  note again = sessions_again [where f = "row_to_incoming cr kr" and f' = "row_to_incoming cr kr'" and
    key = "\<lambda>s. (is_handle s, is_channel s)", OF _ _ rows]
  have list': "map_res (\<lambda>(k, w). row_to_incoming cr kr k w) (sort2 (kr_incoming kr)) = Inr ss"
    using list by (simp add: list_all_incoming_sessions_def sort2_def)
  have fsts: "map fst (kr_incoming kr') = map fst (sort2 (kr_incoming kr))"
    by (rule again(1) [OF list']) (use row_to_incoming_facts in blast)
  have listed: "map_res (\<lambda>(k, w). row_to_incoming cr kr' k w) (kr_incoming kr') = Inr ss"
    by (rule again(2) [OF list']) (use row_to_incoming_facts in blast)
  have looked: "(case map_of (kr_incoming kr') (h, c) of None \<Rightarrow> Inr None
      | Some w \<Rightarrow> bind_res (row_to_incoming cr kr' (h, c) w) (\<lambda>s. Inr (Some s))) =
    (case map_of (sort2 (kr_incoming kr)) (h, c) of None \<Rightarrow> Inr None
      | Some w \<Rightarrow> bind_res (row_to_incoming cr kr (h, c) w) (\<lambda>s. Inr (Some s)))"
    by (rule again(3) [OF list']) (use row_to_incoming_facts in blast)
  have keys2: "distinct (map fst (sort2 (kr_incoming kr)))"
    by (rule distinct_same_rows [OF keys ms])
  have "sort2 (kr_incoming kr') = kr_incoming kr'"
    by (rule rows_in_key_order) (use keys2 fsts ms in \<open>simp_all add: fst_sort2 double_sort_again\<close>)
  then show "list_all_incoming_sessions cr kr' = Inr ss"
    using listed by (simp add: list_all_incoming_sessions_def sort2_def)
  have "map_of (sort2 (kr_incoming kr)) = map_of (kr_incoming kr)"
    by (rule map_of_same_rows) (use keys ms in simp_all)
  then show "get_incoming_session cr kr' h c = get_incoming_session cr kr h c"
    using looked by (simp add: get_incoming_session_def)
qed

lemma outgoing_again:
  assumes list: "list_all_outgoing_sessions cr kr = Inr ss" and keys: "distinct (map fst (kr_outgoing kr))"
    and rows: "list_all2 (\<lambda>(k, w) s. row_to_outgoing cr kr' k w = Inr s \<and> os_channel s = k) (kr_outgoing kr') ss"
  shows "list_all_outgoing_sessions cr kr' = Inr ss"
    and "get_outgoing_session cr kr' c = get_outgoing_session cr kr c"
proof -
  note again = sessions_again [where f = "row_to_outgoing cr kr" and f' = "row_to_outgoing cr kr'" and
    key = os_channel, OF _ _ rows]
  have list': "map_res (\<lambda>(k, w). row_to_outgoing cr kr k w) (sort_key fst (kr_outgoing kr)) = Inr ss"
    using list by (simp add: list_all_outgoing_sessions_def)
  have fsts: "map fst (kr_outgoing kr') = map fst (sort_key fst (kr_outgoing kr))"
    by (rule again(1) [OF list']) (use row_to_outgoing_facts in blast)
  have listed: "map_res (\<lambda>(k, w). row_to_outgoing cr kr' k w) (kr_outgoing kr') = Inr ss"
    by (rule again(2) [OF list']) (use row_to_outgoing_facts in blast)
  have looked: "(case map_of (kr_outgoing kr') c of None \<Rightarrow> Inr None
      | Some w \<Rightarrow> bind_res (row_to_outgoing cr kr' c w) (\<lambda>s. Inr (Some s))) =
    (case map_of (sort_key fst (kr_outgoing kr)) c of None \<Rightarrow> Inr None
      | Some w \<Rightarrow> bind_res (row_to_outgoing cr kr c w) (\<lambda>s. Inr (Some s)))"
    by (rule again(3) [OF list']) (use row_to_outgoing_facts in blast)
  from fsts have "sort_key fst (kr_outgoing kr') = kr_outgoing kr'"
    by (simp add: sort_key_id_if_sorted)
  then show "list_all_outgoing_sessions cr kr' = Inr ss"
    using listed by (simp add: list_all_outgoing_sessions_def)
  have "map_of (sort_key fst (kr_outgoing kr)) = map_of (kr_outgoing kr)"
    by (rule map_of_same_rows) (use keys in simp_all)
  then show "get_outgoing_session cr kr' c = get_outgoing_session cr kr c"
    using looked by (simp add: get_outgoing_session_def)
qed

lemma configs_again:
  assumes keys: "distinct (map fst (kr_config kr))" and cs: "kr_config kr' = config_rows (list_all_channel_configs kr)"
  shows "list_all_channel_configs kr' = list_all_channel_configs kr" "get_channel_config kr' c = get_channel_config kr c"
    "distinct (map cc_channel (list_all_channel_configs kr))"
proof -
  define t where "t = sort_key fst (kr_config kr)"
  define g where "g w = (sql_bool (fst w \<noteq> 0), mode_as_str (mode_parse (snd w)))" for w :: "i64 \<times> bytes"
  have rows: "kr_config kr' = map (\<lambda>(c, w). (c, g w)) t"
    by (simp add: cs config_rows_def list_all_channel_configs_def t_def g_def row_to_config_def case_prod_unfold)
  have g: "row_to_config c (g w) = row_to_config c w" for c w
    by (simp add: row_to_config_def g_def sql_bool_def)
  have sorted: "sort_key fst (kr_config kr') = kr_config kr'"
    by (rule sort_key_id_if_sorted) (simp add: rows t_def case_prod_unfold comp_def)
  have lst: "list_all_channel_configs kr = map (\<lambda>(c, w). row_to_config c w) t"
    by (simp add: list_all_channel_configs_def t_def)
  show "list_all_channel_configs kr' = list_all_channel_configs kr"
    unfolding lst unfolding list_all_channel_configs_def unfolding sorted unfolding rows by (auto simp: g)
  have "map_of t = map_of (kr_config kr)"
    by (rule map_of_same_rows [OF keys]) (simp add: t_def)
  then have "map_of (kr_config kr') c = map_option g (map_of (kr_config kr) c)"
    by (simp add: rows map_of_map_values)
  then show "get_channel_config kr' c = get_channel_config kr c"
    by (simp add: get_channel_config_def g option.map_comp comp_def)
  have "map cc_channel (list_all_channel_configs kr) = map fst t"
    unfolding lst by (auto simp: row_to_config_def)
  moreover have "distinct (map fst t)"
    by (rule distinct_same_rows [OF keys]) (simp add: t_def)
  ultimately show "distinct (map cc_channel (list_all_channel_configs kr))" by (simp only:)
qed

lemma all2_right: "list_all2 (\<lambda>_ y. Q y) xs ys \<Longrightarrow> y \<in> set ys \<Longrightarrow> Q y"
  by (induction rule: list_all2_induct) auto

lemma build_portable_parts:
  assumes "build_portable cr now kr = Inr doc"
  obtains pk sk fp t ps ins outs where "load_identity cr kr = Inr (Some (pk, sk, fp, t))"
    "list_all_peers kr = Inr ps" "list_all_incoming_sessions cr kr = Inr ins"
    "list_all_outgoing_sessions cr kr = Inr outs"
    "doc = \<lparr>pd_version = export_version, pd_exported_at = now,
       pd_identity = \<lparr>pi_pubkey = cr_hex_encode cr pk, pi_privkey = cr_hex_encode cr sk,
         pi_fingerprint = cr_hex_encode cr fp, pi_created_at = t\<rparr>,
       pd_peers = map (portable_of_peer cr) ps, pd_incoming = map (portable_of_incoming cr) ins,
       pd_outgoing = map (portable_of_outgoing cr) outs,
       pd_channels = map portable_of_config (list_all_channel_configs kr),
       pd_autotrust = map (\<lambda>(scope, pat). \<lparr>pt_scope = scope, pt_pattern = pat\<rparr>) (list_autotrust kr)\<rparr>"
  using assms by (force simp: build_portable_def bind_res_Inr_iff)

lemma load_identity_lengths:
  "load_identity cr kr = Inr (Some (pk, sk, fp, t)) \<Longrightarrow> length pk = 32 \<and> length sk = 32 \<and> length fp = 16"
  by (cases "kr_identity kr")
    (auto simp: load_identity_def bind_res_Inr_iff dest: decode_secret_length split: if_splits)

lemma incoming_list_facts:
  assumes "list_all_incoming_sessions cr kr = Inr ss" "distinct (map fst (kr_incoming kr))"
  shows "distinct (map (\<lambda>s. (is_handle s, is_channel s)) ss)"
    and "\<And>s. s \<in> set ss \<Longrightarrow> length (is_fingerprint s) = 16 \<and> length (is_sk s) = 32"
proof -
  let ?t = "sort_key (\<lambda>((_, c), _). c) (sort_key (\<lambda>((h, _), _). h) (kr_incoming kr))"
  have rel: "list_all2 (\<lambda>(k, w) s. row_to_incoming cr kr k w = Inr s \<and> (is_handle s, is_channel s) = k) ?t ss"
    using assms(1) unfolding list_all_incoming_sessions_def map_res_Inr
    by (rule list_all2_mono) (auto dest: row_to_incoming_facts)
  have "mset ?t = mset (kr_incoming kr)" by simp
  then have "distinct (map fst ?t)"
    by (rule distinct_same_rows [OF assms(2)])
  with rows_keys [OF rel] show "distinct (map (\<lambda>s. (is_handle s, is_channel s)) ss)" by simp
  have "list_all2 (\<lambda>_ s. length (is_fingerprint s) = 16 \<and> length (is_sk s) = 32) ?t ss"
    using rel by (rule list_all2_mono) (auto dest: row_to_incoming_facts)
  then show "length (is_fingerprint s) = 16 \<and> length (is_sk s) = 32" if "s \<in> set ss" for s
    using that by (rule all2_right)
qed

lemma outgoing_list_facts:
  assumes "list_all_outgoing_sessions cr kr = Inr ss" "distinct (map fst (kr_outgoing kr))"
  shows "distinct (map os_channel ss)" and "\<And>s. s \<in> set ss \<Longrightarrow> length (os_sk s) = 32"
proof -
  let ?t = "sort_key fst (kr_outgoing kr)"
  have rel: "list_all2 (\<lambda>(k, w) s. row_to_outgoing cr kr k w = Inr s \<and> os_channel s = k) ?t ss"
    using assms(1) unfolding list_all_outgoing_sessions_def map_res_Inr
    by (rule list_all2_mono) (auto dest: row_to_outgoing_facts)
  have "mset ?t = mset (kr_outgoing kr)" by simp
  then have "distinct (map fst ?t)"
    by (rule distinct_same_rows [OF assms(2)])
  with rows_keys [OF rel] show "distinct (map os_channel ss)" by simp
  have "list_all2 (\<lambda>_ s. length (os_sk s) = 32) ?t ss"
    using rel by (rule list_all2_mono) (auto dest: row_to_outgoing_facts)
  then show "length (os_sk s) = 32" if "s \<in> set ss" for s
    using that by (rule all2_right)
qed

text \<open>
  C28: Exporting the keyring and importing the document restores it.  Whatever
  keyring receives the document, the import succeeds, and then the identity,
  every peer, every incoming and outgoing session, every channel's settings and
  the autotrust rules read back as they did where the export was made, though
  the secrets are sealed again under the other keyring's key; an export made at
  the same time from there is the same document.  The recipients of the outgoing
  keys are not part of the document and end up empty.
\<close>

theorem portable_roundtrip:
  assumes cr: "gcm_ok cr" "hex_ok cr" "\<And>n. length (ivs n) = 12" and target: "key_ok target"
    and keyed: "keyring_keyed kr" and doc: "build_portable cr now kr = Inr doc"
  shows "\<exists>kr' sum. import_document cr ivs doc target = Inr (kr', sum) \<and>
    build_portable cr now kr' = Inr doc \<and> load_identity cr kr' = load_identity cr kr \<and>
    (\<forall>fp. get_peer_by_fingerprint kr' fp = get_peer_by_fingerprint kr fp) \<and>
    (\<forall>h c. get_incoming_session cr kr' h c = get_incoming_session cr kr h c) \<and>
    (\<forall>c. get_outgoing_session cr kr' c = get_outgoing_session cr kr c) \<and>
    (\<forall>c. get_channel_config kr' c = get_channel_config kr c) \<and>
    list_autotrust kr' = list_autotrust kr \<and>
    kr_recipients kr' = [] \<and> kr_secret_key kr' = kr_secret_key target"
proof -
  obtain pk sk fp t ps ins outs where parts: "load_identity cr kr = Inr (Some (pk, sk, fp, t))"
    "list_all_peers kr = Inr ps" "list_all_incoming_sessions cr kr = Inr ins"
    "list_all_outgoing_sessions cr kr = Inr outs"
    "doc = \<lparr>pd_version = export_version, pd_exported_at = now,
       pd_identity = \<lparr>pi_pubkey = cr_hex_encode cr pk, pi_privkey = cr_hex_encode cr sk,
         pi_fingerprint = cr_hex_encode cr fp, pi_created_at = t\<rparr>,
       pd_peers = map (portable_of_peer cr) ps, pd_incoming = map (portable_of_incoming cr) ins,
       pd_outgoing = map (portable_of_outgoing cr) outs,
       pd_channels = map portable_of_config (list_all_channel_configs kr),
       pd_autotrust = map (\<lambda>(scope, pat). \<lparr>pt_scope = scope, pt_pattern = pat\<rparr>) (list_autotrust kr)\<rparr>"
    using doc by (rule build_portable_parts)
  let ?cs = "list_all_channel_configs kr" and ?au = "map (\<lambda>(scope, pat). (scope, pat, now)) (list_autotrust kr)"
  have keys: "distinct (map fst (kr_peers kr))" "distinct (map fst (kr_incoming kr))" "distinct (map fst (kr_outgoing kr))"
    "distinct (map fst (kr_config kr))" "distinct (map fst (kr_autotrust kr))"
    using keyed by (simp_all add: keyring_keyed_def)
  note len = load_identity_lengths [OF parts(1)] and ins = incoming_list_facts [OF parts(3) keys(2)]
    and outs = outgoing_list_facts [OF parts(4) keys(3)] and ps = list_all_peers_facts(2) [OF parts(2)]
  have "validate cr doc = Inr \<lparr>vd_identity = (pk, sk, fp, t), vd_peers = ps, vd_incoming = ins, vd_outgoing = outs,
      vd_channels = ?cs, vd_autotrust = ?au\<rparr>"
    using len ins(2) outs(2) ps cr(2)
    by (simp add: validate_def parts(5) parse_hex_encoded map_res_enumerate validate_peer_of validate_incoming_of
      validate_outgoing_of validate_channel_of case_prod_unfold comp_def)
  moreover have au: "map fst (autotrust_rows ?au) = list_autotrust kr" "distinct (map fst (autotrust_rows ?au))"
    using keys(5) by (simp_all add: autotrust_rows_def list_autotrust_def case_prod_unfold comp_def)
  have unique: "distinct (map pr_fingerprint ps)" "distinct (map cc_channel ?cs)"
    using peers_again(3) [OF parts(2) keys(1), of "kr\<lparr>kr_peers := peer_rows ps\<rparr>"]
      configs_again(3) [OF keys(4), of "kr\<lparr>kr_config := config_rows ?cs\<rparr>"] by simp_all
  obtain enc irows orows where new:
    "replace_all_for_import cr ivs (pk, sk, fp, t) ps ins outs ?cs ?au target =
      Inr \<lparr>kr_secret_key = kr_secret_key target,
        kr_identity = Some \<lparr>iy_pubkey = pk, iy_privkey = enc, iy_fingerprint = fp, iy_created_at = t\<rparr>,
        kr_peers = peer_rows ps, kr_incoming = irows, kr_outgoing = orows, kr_config = config_rows ?cs,
        kr_autotrust = autotrust_rows ?au, kr_recipients = []\<rparr>" (is "_ = Inr ?new")
    "\<And>kr' fld. kr_secret_key kr' = kr_secret_key target \<Longrightarrow> decode_secret cr 32 kr' enc fld = Inr sk"
    "list_all2 (\<lambda>(k, w) s. (\<forall>kr'. kr_secret_key kr' = kr_secret_key target \<longrightarrow> row_to_incoming cr kr' k w = Inr s) \<and>
      (is_handle s, is_channel s) = k) irows ins"
    "list_all2 (\<lambda>(k, w) s. (\<forall>kr'. kr_secret_key kr' = kr_secret_key target \<longrightarrow> row_to_outgoing cr kr' k w = Inr s) \<and>
      os_channel s = k) orows outs"
    using replace_result [where ivs = ivs and kr = target and sk = sk and ins = ins and outs = outs and ps = ps and
        cs = ?cs and au = ?au and pk = pk and fp = fp and t = t, OF cr(1) cr(3) target _ ins(2) ins(1) outs(2) outs(1)
        unique au(2)] len
    by blast
  ultimately have imported: "\<exists>sum. import_document cr ivs doc target = Inr (?new, sum)"
    by (simp add: import_document_def)
  have ident: "load_identity cr ?new = Inr (Some (pk, sk, fp, t))"
    using new(2) [of ?new] len by (simp add: load_identity_def)
  note peers = peers_again(1,2) [OF parts(2) keys(1), of ?new]
  note inc = incoming_again [OF parts(3) keys(2), of ?new] and outg = outgoing_again [OF parts(4) keys(3), of ?new]
  note confs = configs_again(1,2) [OF keys(4), of ?new]
  have irows: "list_all2 (\<lambda>(k, w) s. row_to_incoming cr ?new k w = Inr s \<and> (is_handle s, is_channel s) = k) (kr_incoming ?new) ins"
    using new(3) by simp (erule list_all2_mono, auto)
  have orows: "list_all2 (\<lambda>(k, w) s. row_to_outgoing cr ?new k w = Inr s \<and> os_channel s = k) (kr_outgoing ?new) outs"
    using new(4) by simp (erule list_all2_mono, auto)
  have trust: "list_autotrust ?new = list_autotrust kr"
    using au(1) by (simp add: list_autotrust_def)
  have "build_portable cr now ?new = Inr doc"
    unfolding build_portable_def
    by (simp add: ident peers(1) inc(1) [OF irows] outg(1) [OF orows] confs(1) trust parts(5))
  with imported ident parts(1) peers(2) inc(2) [OF irows] outg(2) [OF orows] confs(2) trust show ?thesis
    by auto
qed

definition example_backup :: keyring where
  "example_backup = (keyring_new None)\<lparr>
     kr_identity := Some \<lparr>iy_pubkey = replicate 32 CHR ''p'', iy_privkey = replicate 32 CHR ''s'',
       iy_fingerprint = replicate 16 CHR ''f'', iy_created_at = 5\<rparr>,
     kr_incoming := [((''~bob@b.host'', ''#x''), \<lparr>iw_fingerprint = replicate 16 CHR ''b'', iw_sk = replicate 32 CHR ''k'',
       iw_status = ''trusted'', iw_created_at = 6\<rparr>)],
     kr_recipients := [((''#x'', ''~bob@b.host''), (replicate 16 CHR ''b'', 6))]\<rparr>"

lemma portable_roundtrip_witness:
  "\<exists>doc kr' sum. build_portable toy_crypto 9 example_backup = Inr doc \<and>
     import_document toy_crypto (\<lambda>_. replicate 12 CHR ''i'') doc example_keyring = Inr (kr', sum) \<and>
     get_incoming_session toy_crypto kr' ''~bob@b.host'' ''#x'' =
       Inr (Some \<lparr>is_handle = ''~bob@b.host'', is_channel = ''#x'', is_fingerprint = replicate 16 CHR ''b'',
         is_sk = replicate 32 CHR ''k'', is_status = Trusted, is_created_at = 6\<rparr>) \<and>
     kr_recipients kr' = []"
proof -
  obtain doc where doc: "build_portable toy_crypto 9 example_backup = Inr doc"
    by (simp add: build_portable_def load_identity_def example_backup_def keyring_new_def decode_secret_def
      list_all_peers_def list_all_incoming_sessions_def list_all_outgoing_sessions_def row_to_incoming_def)
  have keyed: "keyring_keyed example_backup" "key_ok example_keyring"
    by (simp_all add: keyring_keyed_def example_backup_def keyring_new_def key_ok_def example_keyring_def)
  have row: "get_incoming_session toy_crypto example_backup ''~bob@b.host'' ''#x'' =
      Inr (Some \<lparr>is_handle = ''~bob@b.host'', is_channel = ''#x'', is_fingerprint = replicate 16 CHR ''b'',
        is_sk = replicate 32 CHR ''k'', is_status = Trusted, is_created_at = 6\<rparr>)"
    by (simp add: get_incoming_session_def example_backup_def keyring_new_def row_to_incoming_def decode_secret_def
      trust_parse_def)
  show ?thesis
    using portable_roundtrip [OF toy_gcm_ok toy_ok(1) _ keyed(2) keyed(1) doc, of "\<lambda>_. replicate 12 CHR ''i''"] doc row
    by simp metis
qed

end
