(* ===== verification/Irc_Event.thy ===== *)
theory Irc_Event
  imports E2e_Client
begin

text \<open>
  \<open>src/src/irc/events.rs\<close>, first part: the messages of the protocol crate, the
  surroundings of a handler, and the helpers all handlers share.

  What a handler reads besides the state is the record \<open>irc_env\<close>: the clock
  twice (\<open>Utc::now\<close> in seconds, \<open>Instant::now\<close>), Unicode case mapping, the
  cryptography of the E2E layer, the hash of the antiflood checks, the regular
  expressions of ignore masks, the date library, the colour of a nick, and
  \<open>Response::is_error\<close> of the protocol crate.  The log row ids of fanned-out
  events (\<open>log_msg_id\<close>, \<open>log_ref_id\<close>) belong to the log writer and are left out.
\<close>

section \<open>Messages\<close>

datatype chan_mode =
    CmBan | CmException | CmLimit | CmInviteOnly | CmInviteException | CmKey | CmModerated
  | CmRegisteredOnly | CmReop | CmSecret | CmProtectedTopic | CmNoExternalMessages | CmFounder
  | CmAdmin | CmOper | CmHalfop | CmVoice | CmUnknown bytes

datatype user_mode =
    UmAway | UmInvisible | UmWallops | UmRestricted | UmOper | UmLocalOper | UmServerNotices
  | UmMaskedHost | UmUnknown bytes

datatype 'm mode_change = ModePlus 'm "bytes option" | ModeMinus 'm "bytes option" | ModeNoPrefix 'm

datatype response =
    RPL_ISUPPORT | RPL_NAMREPLY | RPL_TOPIC | RPL_TOPICWHOTIME | RPL_CHANNELMODEIS | RPL_WHOISUSER
  | RPL_WHOISSERVER | RPL_WHOISOPERATOR | RPL_WHOISIDLE | RPL_WHOISCHANNELS | RPL_WHOISCERTFP
  | RPL_WHOISKEYVALUE | RPL_ENDOFWHOIS | RPL_AWAY | RPL_BANLIST | RPL_ENDOFBANLIST | RPL_EXCEPTLIST
  | RPL_ENDOFEXCEPTLIST | RPL_INVITELIST | RPL_ENDOFINVITELIST | RPL_MOTDSTART | RPL_MOTD
  | RPL_ENDOFMOTD | ERR_NICKNAMEINUSE | ERR_ERRONEOUSNICKNAME | ERR_CHANNELISFULL
  | ERR_INVITEONLYCHAN | ERR_BANNEDFROMCHAN | ERR_BADCHANNELKEY | ERR_TOOMANYCHANNELS | RPL_NOWAWAY
  | RPL_UNAWAY | RPL_LIST | RPL_LISTEND | RPL_WHOREPLY | RPL_ENDOFWHO | RPL_USERHOST | RPL_WHOWASUSER
  | RPL_ENDOFWHOWAS | RPL_ENDOFNAMES | ERR_CHANOPRIVSNEEDED | ERR_NOSUCHCHANNEL | ERR_NOTONCHANNEL
  | OtherResponse nat

datatype irc_command =
    PRIVMSG bytes bytes
  | NOTICE bytes bytes
  | JOIN bytes "bytes option" "bytes option"
  | PART bytes "bytes option"
  | QUIT "bytes option"
  | NICK bytes
  | KICK bytes bytes "bytes option"
  | TOPIC bytes "bytes option"
  | ChannelMODE bytes "chan_mode mode_change list"
  | UserMODE bytes "user_mode mode_change list"
  | INVITE bytes bytes
  | Response response "bytes list"
  | WALLOPS bytes
  | ACCOUNT bytes
  | AWAY "bytes option"
  | CHGHOST bytes bytes
  | ERROR bytes
  | Raw bytes "bytes list"
  | OtherCommand

record irc_message =
  im_tags :: "(bytes \<times> bytes option) list option"
  im_prefix :: "irc_prefix option"
  im_command :: irc_command

type_synonym tags = "(bytes, bytes) table option"

record irc_env =
  iv_lower :: "bytes \<Rightarrow> bytes"
  iv_lc :: "bytes \<Rightarrow> bytes list"
  iv_crypto :: crypto
  iv_utc :: i64
  iv_now :: instant
  iv_hash :: "bytes \<Rightarrow> u64"
  iv_match :: "bytes \<Rightarrow> bytes \<Rightarrow> bool"
  iv_rfc3339 :: "bytes \<Rightarrow> i64 option"
  iv_from_timestamp :: "i64 \<Rightarrow> i64 option"
  iv_utc_date :: "i64 \<Rightarrow> bytes"
  iv_local_date :: "bytes \<Rightarrow> i64 \<Rightarrow> bytes"
  iv_nick_hex :: "bytes \<Rightarrow> bytes"
  iv_is_error :: "response \<Rightarrow> bool"

section \<open>Prefixes and tags\<close>

definition extract_nick :: "irc_prefix option \<Rightarrow> bytes option" where
  "extract_nick p =
     map_option (\<lambda>p. case p of Nickname nick _ _ \<Rightarrow> nick | ServerName name \<Rightarrow> name) p"

definition is_server_prefix :: "irc_prefix option \<Rightarrow> bool" where
  "is_server_prefix p =
     (case p of Some (Nickname _ user _) \<Rightarrow> user = [] | Some (ServerName _) \<Rightarrow> True | None \<Rightarrow> True)"

text \<open>A \<open>HashSet\<close> of names is a list without repetitions.\<close>

definition contains_case_insensitive :: "bytes list \<Rightarrow> bytes \<Rightarrow> bool" where
  "contains_case_insensitive names v =
     (List.member names v \<or> list_ex (\<lambda>entry. eq_ignore_ascii_case entry v) names)"

definition remove_case_insensitive :: "bytes list \<Rightarrow> bytes \<Rightarrow> bool \<times> bytes list" where
  "remove_case_insensitive names v =
     (if List.member names v then (True, filter (\<lambda>n. n \<noteq> v) names)
      else (case find (\<lambda>entry. eq_ignore_ascii_case entry v) names of
              None \<Rightarrow> (False, names)
            | Some existing \<Rightarrow> (True, filter (\<lambda>n. n \<noteq> existing) names)))"

definition extract_tags :: "irc_message \<Rightarrow> tags" where
  "extract_tags m =
     (case im_tags m of
        None \<Rightarrow> None
      | Some ts \<Rightarrow>
          let mp = fold (\<lambda>(k, v) t. case v of None \<Rightarrow> t | Some v \<Rightarrow> AList.update k v t) ts []
          in if mp = [] then None else Some mp)"

definition tag :: "bytes \<Rightarrow> tags \<Rightarrow> bytes option" where
  "tag k ts = (case ts of None \<Rightarrow> None | Some t \<Rightarrow> map_of t k)"

definition message_timestamp :: "irc_env \<Rightarrow> tags \<Rightarrow> i64" where
  "message_timestamp ev ts =
     (case tag ''time'' ts of
        None \<Rightarrow> iv_utc ev
      | Some t \<Rightarrow> (case iv_rfc3339 ev t of None \<Rightarrow> iv_utc ev | Some dt \<Rightarrow> dt))"

section \<open>State and lines\<close>

definition on_state :: "(app_state \<Rightarrow> app_state) \<Rightarrow> client \<Rightarrow> client" where
  "on_state f c = c\<lparr>cl_state := f (cl_state c)\<rparr>"

text \<open>\<open>state.connections.get_mut(conn_id)\<close> and \<open>state.buffers.values_mut()\<close>.\<close>

definition upd_connection :: "bytes \<Rightarrow> (connection \<Rightarrow> connection) \<Rightarrow> app_state \<Rightarrow> app_state" where
  "upd_connection conn f s =
     (case map_of (st_connections s) conn of
        None \<Rightarrow> s
      | Some cn \<Rightarrow> s\<lparr>st_connections := AList.update conn (f cn) (st_connections s)\<rparr>)"

definition map_buffers :: "(buffer \<Rightarrow> buffer) \<Rightarrow> app_state \<Rightarrow> app_state" where
  "map_buffers f s = s\<lparr>st_buffers := map (\<lambda>(k, b). (k, f b)) (st_buffers s)\<rparr>"

definition upd_user :: "(bytes \<Rightarrow> bytes) \<Rightarrow> bytes \<Rightarrow> (nick_entry \<Rightarrow> nick_entry) \<Rightarrow> buffer \<Rightarrow> buffer" where
  "upd_user lower nick f b =
     (case map_of (bf_users b) (lower nick) of
        None \<Rightarrow> b
      | Some e \<Rightarrow> b\<lparr>bf_users := AList.update (lower nick) (f e) (bf_users b)\<rparr>)"

definition buffers_where :: "(buffer \<Rightarrow> bool) \<Rightarrow> app_state \<Rightarrow> bytes list" where
  "buffers_where P s = map fst (filter (\<lambda>(k, b). P b) (st_buffers s))"

definition event_line ::
  "i64 \<Rightarrow> tags \<Rightarrow> bool \<Rightarrow> bytes option \<Rightarrow> bytes list option \<Rightarrow> bytes \<Rightarrow> nat \<Rightarrow> message" where
  "event_line ts tgs highlight key params body n = \<lparr>ms_id = n, ms_timestamp = ts, ms_type = MsgEvent,
     ms_nick = None, ms_nick_mode = None, ms_text = body, ms_highlight = highlight,
     ms_event_key = key, ms_event_params = params, ms_tags = tgs\<rparr>"

text \<open>\<open>let id = state.next_message_id(); state.add_message(&buffer_id, Message \{ id, .. \})\<close>.\<close>

definition post :: "irc_env \<Rightarrow> bytes \<Rightarrow> (nat \<Rightarrow> message) \<Rightarrow> app_state \<Rightarrow> app_state" where
  "post ev bid mk s =
     (let (n, s1) = next_message_id s in add_message (iv_lower ev) bid (mk n) s1)"

definition emit :: "irc_env \<Rightarrow> bytes \<Rightarrow> bytes \<Rightarrow> app_state \<Rightarrow> app_state" where
  "emit ev bid body = post ev bid (event_line (iv_utc ev) None False None None body)"

definition emit_keyed :: "irc_env \<Rightarrow> bytes \<Rightarrow> bytes \<Rightarrow> bytes \<Rightarrow> bytes list \<Rightarrow> app_state \<Rightarrow> app_state" where
  "emit_keyed ev bid key body params =
     post ev bid (event_line (iv_utc ev) None False (Some key) (Some params) body)"

definition status_line :: "irc_env \<Rightarrow> bytes \<Rightarrow> bytes \<Rightarrow> bytes \<Rightarrow> app_state \<Rightarrow> app_state" where
  "status_line ev bid key body = post ev bid (event_line (iv_utc ev) None False (Some key) None body)"

definition server_buffer :: "irc_env \<Rightarrow> app_state \<Rightarrow> bytes \<Rightarrow> bytes" where
  "server_buffer ev s conn = make_buffer_id (iv_lower ev) conn
     (case map_of (st_connections s) conn of None \<Rightarrow> ''Status'' | Some cn \<Rightarrow> cn_label cn)"

text \<open>The status buffer as the connection events name it: the id stands in for a missing label.\<close>

definition status_buffer :: "irc_env \<Rightarrow> app_state \<Rightarrow> bytes \<Rightarrow> bytes" where
  "status_buffer ev s conn = make_buffer_id (iv_lower ev) conn (connection_label s conn)"

definition connection_nick :: "app_state \<Rightarrow> bytes \<Rightarrow> bytes" where
  "connection_nick s conn = (case map_of (st_connections s) conn of None \<Rightarrow> [] | Some cn \<Rightarrow> cn_nick cn)"

definition remove_buffer_of :: "irc_env \<Rightarrow> bytes \<Rightarrow> client \<Rightarrow> client" where
  "remove_buffer_of ev bid c =
     (if map_of (st_buffers (cl_state c)) bid = None then c
      else c\<lparr>cl_state := close_buffer (iv_lower ev) bid (cl_state c), cl_flood := Flood.remove_buffer bid (cl_flood c)\<rparr>)"

definition ignored :: "irc_env \<Rightarrow> client \<Rightarrow> bytes \<Rightarrow> bytes \<Rightarrow> bytes \<Rightarrow> ignore_level \<Rightarrow> bytes option \<Rightarrow> bool" where
  "ignored ev c nick ident host level channel =
     should_ignore (iv_lower ev) (iv_match ev) (cl_ignores c) nick (Some ident) (Some host) level channel"

definition nick_event :: "nick_event_kind \<Rightarrow> bytes \<Rightarrow> nick_event" where
  "nick_event kind nick = \<lparr>we_kind = kind, we_nick = nick, we_new_nick = None, we_prefix = None,
     we_modes = None, we_away = None, we_message = None\<rparr>"

end
