(* ===== verification/Irc_Members.thy ===== *)
theory Irc_Members
  imports Irc_Event
begin

text \<open>
  \<open>src/src/irc/events.rs\<close>: the messages that move users between channels
  (JOIN, PART, QUIT, KICK, NICK) and those that change what is known of a user
  (ACCOUNT, AWAY, CHGHOST).
\<close>

section \<open>JOIN\<close>

definition fresh_entry :: "bytes \<Rightarrow> bytes option \<Rightarrow> nick_entry" where
  "fresh_entry nick account = \<lparr>ne_nick = nick, ne_prefix = [], ne_modes = [], ne_away = False,
     ne_account = account, ne_ident = None, ne_host = None\<rparr>"

definition new_buffer :: "bytes \<Rightarrow> bytes \<Rightarrow> buffer_type \<Rightarrow> bytes \<Rightarrow> bytes option \<Rightarrow> buffer" where
  "new_buffer bid conn t name handle = \<lparr>bf_id = bid, bf_connection_id = conn, bf_type = t, bf_name = name,
     bf_messages = [], bf_activity = NoActivity, bf_unread_count = 0, bf_topic = None,
     bf_topic_set_by = None, bf_users = [], bf_modes = None, bf_mode_params = None, bf_list_modes = [],
     bf_last_speakers = [], bf_peer_handle = handle\<rparr>"

definition join_account :: "bytes option \<Rightarrow> tags \<Rightarrow> bytes option" where
  "join_account extended tgs =
     (case (case extended of Some a \<Rightarrow> if a = ''*'' then None else Some a | None \<Rightarrow> None) of
        Some a \<Rightarrow> Some a
      | None \<Rightarrow> (case tag ''account'' tgs of None \<Rightarrow> None | Some a \<Rightarrow> if a = ''*'' then None else Some a))"

definition join_line ::
  "irc_env \<Rightarrow> bytes \<Rightarrow> bytes \<Rightarrow> bytes \<Rightarrow> bytes \<Rightarrow> bytes \<Rightarrow> bytes option \<Rightarrow> bytes \<Rightarrow> tags \<Rightarrow> app_state \<Rightarrow> app_state" where
  "join_line ev bid nick ident host channel account realname tgs =
     (let acc = (case account of None \<Rightarrow> [] | Some a \<Rightarrow> ''['' @ a @ '']'') in
      post ev bid (event_line (message_timestamp ev tgs) tgs False (Some ''join'')
        (Some [nick, ident, host, channel, acc, realname])
        (nick @ '' ('' @ ident @ ''@'' @ host @ '') has joined '' @ channel @ '' '' @ acc @ '' '' @ realname)))"

text \<open>Our own JOIN: a buffer that has users is a duplicate; any other is made fresh.\<close>

definition reset_channel :: "buffer \<Rightarrow> buffer" where
  "reset_channel b = b\<lparr>bf_users := [], bf_last_speakers := [], bf_topic := None, bf_topic_set_by := None,
     bf_modes := None, bf_mode_params := None, bf_list_modes := []\<rparr>"

definition open_own_channel :: "bytes \<Rightarrow> bytes \<Rightarrow> bytes \<Rightarrow> app_state \<Rightarrow> app_state" where
  "open_own_channel bid conn channel s =
     set_active_buffer bid
       (if map_of (st_buffers s) bid \<noteq> None then upd_buffer bid reset_channel s
        else add_buffer (new_buffer bid conn Channel channel None) s)"

definition has_users :: "bytes \<Rightarrow> app_state \<Rightarrow> bool" where
  "has_users bid s = (case map_of (st_buffers s) bid of None \<Rightarrow> False | Some b \<Rightarrow> bf_users b \<noteq> [])"

definition join_event :: "bytes \<Rightarrow> nick_event" where
  "join_event nick = (nick_event NickJoin nick)\<lparr>we_prefix := Some [], we_modes := Some [], we_away := Some False\<rparr>"

definition handle_join_irc ::
  "irc_env \<Rightarrow> bytes \<Rightarrow> bytes \<Rightarrow> irc_prefix option \<Rightarrow> bytes \<Rightarrow> bytes option \<Rightarrow> bytes option \<Rightarrow> tags \<Rightarrow>
   client \<Rightarrow> client" where
  "handle_join_irc ev conn our_nick pfx channel ext_account ext_realname tgs c =
     (let (nick, ident, host) = extract_nick_userhost pfx;
          bid = make_buffer_id (iv_lower ev) conn channel;
          account = join_account ext_account tgs;
          realname = unwrap_or [] ext_realname;
          show = on_state (join_line ev bid nick ident host channel account realname tgs);
          enter = add_nick (iv_lower ev) bid (fresh_entry nick account)
      in if nick \<noteq> our_nick \<and> ignored ev c nick ident host IgnJoins (Some channel) then on_state enter c
         else if nick = our_nick then
           (if has_users bid (cl_state c) then c
            else show (on_state (open_own_channel bid conn channel) c))
         else
           let c1 = on_state (push_web (NickEvent bid (join_event nick)) \<circ> enter) c;
               (rejoined, ns) = handle_join (iv_lower ev) (iv_now ev) nick bid (cl_netsplit c1);
               c2 = c1\<lparr>cl_netsplit := ns\<rparr>
           in if rejoined then c2 else show c2)"

section \<open>What is known of a user\<close>

definition has_user :: "(bytes \<Rightarrow> bytes) \<Rightarrow> bytes \<Rightarrow> buffer \<Rightarrow> bool" where
  "has_user lower nick b \<longleftrightarrow> map_of (bf_users b) (lower nick) \<noteq> None"

definition upd_user_everywhere ::
  "(bytes \<Rightarrow> bytes) \<Rightarrow> bytes \<Rightarrow> bytes \<Rightarrow> (nick_entry \<Rightarrow> nick_entry) \<Rightarrow> app_state \<Rightarrow> app_state" where
  "upd_user_everywhere lower conn nick f =
     map_buffers (\<lambda>b. if bf_connection_id b = conn then upd_user lower nick f b else b)"

definition update_nick_account_in_buffers ::
  "(bytes \<Rightarrow> bytes) \<Rightarrow> bytes \<Rightarrow> bytes \<Rightarrow> bytes option \<Rightarrow> app_state \<Rightarrow> app_state" where
  "update_nick_account_in_buffers lower conn nick account =
     upd_user_everywhere lower conn nick (\<lambda>e. e\<lparr>ne_account := account\<rparr>)"

definition shared_channels :: "(bytes \<Rightarrow> bytes) \<Rightarrow> bytes \<Rightarrow> bytes \<Rightarrow> app_state \<Rightarrow> bytes list" where
  "shared_channels lower conn nick s =
     map bf_id (filter (\<lambda>b. bf_connection_id b = conn \<and> bf_type b = Channel \<and> has_user lower nick b)
       (map snd (st_buffers s)))"

definition post_all :: "irc_env \<Rightarrow> bytes list \<Rightarrow> (nat \<Rightarrow> message) \<Rightarrow> app_state \<Rightarrow> app_state" where
  "post_all ev bids mk = fold (\<lambda>bid. post ev bid mk) bids"

definition handle_account ::
  "irc_env \<Rightarrow> bytes \<Rightarrow> irc_prefix option \<Rightarrow> bytes \<Rightarrow> tags \<Rightarrow> app_state \<Rightarrow> app_state" where
  "handle_account ev conn pfx account tgs s =
     (case extract_nick pfx of
        None \<Rightarrow> s
      | Some nick \<Rightarrow>
          let resolved = (if account = ''*'' then None else Some account);
              s1 = update_nick_account_in_buffers (iv_lower ev) conn nick resolved s;
              description = (case resolved of None \<Rightarrow> ''has logged out'' | Some a \<Rightarrow> ''is now logged in as '' @ a)
          in post_all ev (shared_channels (iv_lower ev) conn nick s1)
               (event_line (message_timestamp ev tgs) tgs False (Some ''account'') (Some [nick, description])
                 (nick @ '' '' @ description)) s1)"

definition on_connection_with :: "(bytes \<Rightarrow> bytes) \<Rightarrow> bytes \<Rightarrow> bytes \<Rightarrow> buffer \<Rightarrow> bool" where
  "on_connection_with lower conn nick b \<longleftrightarrow> bf_connection_id b = conn \<and> has_user lower nick b"

definition handle_away ::
  "irc_env \<Rightarrow> bytes \<Rightarrow> irc_prefix option \<Rightarrow> bytes option \<Rightarrow> app_state \<Rightarrow> app_state" where
  "handle_away ev conn pfx reason s =
     (case extract_nick pfx of
        None \<Rightarrow> s
      | Some nick \<Rightarrow>
          let away = (reason \<noteq> None);
              note_away = (nick_event NickAwayChange nick)\<lparr>we_away := Some away, we_message := reason\<rparr>
          in fold (\<lambda>bid. push_web (NickEvent bid note_away))
               (buffers_where (on_connection_with (iv_lower ev) conn nick) s)
               (upd_user_everywhere (iv_lower ev) conn nick (\<lambda>e. e\<lparr>ne_away := away\<rparr>) s))"

definition handle_chghost ::
  "irc_env \<Rightarrow> bytes \<Rightarrow> irc_prefix option \<Rightarrow> bytes \<Rightarrow> bytes \<Rightarrow> tags \<Rightarrow> app_state \<Rightarrow> app_state" where
  "handle_chghost ev conn pfx new_user new_host tgs s =
     (case extract_nick pfx of
        None \<Rightarrow> s
      | Some nick \<Rightarrow>
          let s1 = upd_user_everywhere (iv_lower ev) conn nick
                     (\<lambda>e. e\<lparr>ne_ident := Some new_user, ne_host := Some new_host\<rparr>) s
          in post_all ev (shared_channels (iv_lower ev) conn nick s1)
               (event_line (message_timestamp ev tgs) tgs False (Some ''chghost'')
                 (Some [nick, new_user, new_host])
                 (nick @ '' changed host to '' @ new_user @ ''@'' @ new_host)) s1)"

section \<open>PART and QUIT\<close>

text \<open>The pending automatic WHO and ban list of a channel we leave are forgotten.\<close>

definition forget_silent :: "bytes \<Rightarrow> bytes \<Rightarrow> app_state \<Rightarrow> app_state" where
  "forget_silent conn channel =
     upd_connection conn (\<lambda>cn. cn\<lparr>
       cn_silent_who := snd (remove_case_insensitive (cn_silent_who cn) channel),
       cn_silent_banlist := snd (remove_case_insensitive (cn_silent_banlist cn) channel)\<rparr>)"

definition handle_part ::
  "irc_env \<Rightarrow> bytes \<Rightarrow> bytes \<Rightarrow> irc_prefix option \<Rightarrow> bytes \<Rightarrow> bytes option \<Rightarrow> tags \<Rightarrow> client \<Rightarrow> client" where
  "handle_part ev conn our_nick pfx channel reason tgs c =
     (let (nick, ident, host) = extract_nick_userhost pfx;
          bid = make_buffer_id (iv_lower ev) conn channel
      in if nick = our_nick then on_state (forget_silent conn channel) (remove_buffer_of ev bid c)
         else
           let c1 = on_state (push_web (NickEvent bid ((nick_event NickPart nick)\<lparr>we_message := reason\<rparr>)) \<circ>
                       remove_nick (iv_lower ev) bid nick) c;
               reason_str = unwrap_or [] reason
           in if ignored ev c1 nick ident host IgnParts (Some channel) then c1
              else on_state (post ev bid (event_line (message_timestamp ev tgs) tgs False (Some ''part'')
                     (Some [nick, ident, host, channel, reason_str])
                     (nick @ '' ('' @ ident @ ''@'' @ host @ '') has left '' @ channel @ '' ('' @ reason_str @ '')''))) c1)"

definition quit_from :: "irc_env \<Rightarrow> bytes \<Rightarrow> bytes option \<Rightarrow> bytes \<Rightarrow> app_state \<Rightarrow> app_state" where
  "quit_from ev nick reason bid =
     push_web (NickEvent bid ((nick_event NickQuit nick)\<lparr>we_message := reason\<rparr>)) \<circ>
     remove_nick (iv_lower ev) bid nick"

definition handle_quit_irc ::
  "irc_env \<Rightarrow> bytes \<Rightarrow> irc_prefix option \<Rightarrow> bytes option \<Rightarrow> tags \<Rightarrow> client \<Rightarrow> client" where
  "handle_quit_irc ev conn pfx reason tgs c =
     (let (nick, ident, host) = extract_nick_userhost pfx;
          reason_str = unwrap_or [] reason;
          affected = buffers_where (on_connection_with (iv_lower ev) conn nick) (cl_state c);
          c1 = on_state (fold (quit_from ev nick reason) affected) c
      in if ignored ev c1 nick ident host IgnQuits None then c1
         else
           let (split, ns) = handle_quit (iv_lower ev) (iv_now ev) nick reason_str affected (cl_netsplit c1);
               c2 = c1\<lparr>cl_netsplit := ns\<rparr>
           in if split then c2
              else on_state (post_all ev affected (event_line (message_timestamp ev tgs) tgs False (Some ''quit'')
                     (Some [nick, ident, host, reason_str])
                     (nick @ '' ('' @ ident @ ''@'' @ host @ '') has quit ('' @ reason_str @ '')''))) c2)"

section \<open>NICK\<close>

definition rename_query :: "irc_env \<Rightarrow> bytes \<Rightarrow> bytes \<Rightarrow> bytes \<Rightarrow> app_state \<Rightarrow> app_state" where
  "rename_query ev conn new_nick bid s =
     (case map_of (st_buffers s) bid of
        None \<Rightarrow> s
      | Some b \<Rightarrow>
          if bf_type b \<noteq> Query then s
          else
            let new_id = make_buffer_id (iv_lower ev) conn new_nick;
                s1 = s\<lparr>st_buffers := AList.update new_id (b\<lparr>bf_name := new_nick, bf_id := new_id\<rparr>)
                        (AList.delete bid (st_buffers s))\<rparr>
            in if st_active s = Some bid then s1\<lparr>st_active := Some new_id\<rparr> else s1)"

definition rename_query_buffers :: "irc_env \<Rightarrow> bytes \<Rightarrow> bytes \<Rightarrow> bytes list \<Rightarrow> app_state \<Rightarrow> app_state" where
  "rename_query_buffers ev conn new_nick affected = fold (rename_query ev conn new_nick) affected"

definition knows_nick :: "(bytes \<Rightarrow> bytes) \<Rightarrow> bytes \<Rightarrow> bytes \<Rightarrow> buffer \<Rightarrow> bool" where
  "knows_nick lower conn nick b \<longleftrightarrow> bf_connection_id b = conn \<and>
     (has_user lower nick b \<or> bf_type b = Query \<and> lower (bf_name b) = lower nick)"

definition rename_own :: "bytes \<Rightarrow> bytes \<Rightarrow> app_state \<Rightarrow> app_state" where
  "rename_own conn new_nick s =
     (case map_of (st_connections s) conn of
        None \<Rightarrow> s
      | Some cn \<Rightarrow> push_web (ConnectionStatusChanged conn (cn_label cn) (cn_status cn = Connected) new_nick)
          (upd_connection conn (\<lambda>cn. cn\<lparr>cn_nick := new_nick\<rparr>) s))"

definition nick_changed ::
  "irc_env \<Rightarrow> bytes \<Rightarrow> bytes \<Rightarrow> bytes \<Rightarrow> tags \<Rightarrow> bytes \<Rightarrow> client \<Rightarrow> client" where
  "nick_changed ev our_nick old_nick new_nick tgs bid c =
     (let c1 = on_state (push_web (NickEvent bid ((nick_event NickChange old_nick)\<lparr>we_new_nick := Some new_nick\<rparr>)) \<circ>
                 update_nick (iv_lower ev) bid old_nick new_nick) c;
          (suppress, fl) = (if cl_flood_protection c1 \<and> old_nick \<noteq> our_nick
             then should_suppress_nick_flood bid (iv_now ev) (cl_flood c1) else (False, cl_flood c1));
          c2 = c1\<lparr>cl_flood := fl\<rparr>
      in if suppress then c2
         else on_state (post ev bid (event_line (message_timestamp ev tgs) tgs False (Some ''nick_change'')
                (Some [old_nick, new_nick]) (old_nick @ '' is now known as '' @ new_nick))) c2)"

definition handle_nick_change ::
  "irc_env \<Rightarrow> bytes \<Rightarrow> bytes \<Rightarrow> irc_prefix option \<Rightarrow> bytes \<Rightarrow> tags \<Rightarrow> client \<Rightarrow> client" where
  "handle_nick_change ev conn our_nick pfx new_nick tgs c =
     (let old_nick = unwrap_or [] (extract_nick pfx);
          (_, ident, host) = extract_nick_userhost pfx;
          c1 = (if old_nick = our_nick then on_state (rename_own conn new_nick) c else c);
          affected = buffers_where (knows_nick (iv_lower ev) conn old_nick) (cl_state c1)
      in if old_nick \<noteq> our_nick \<and> ignored ev c1 old_nick ident host IgnNicks None then
           on_state (rename_query_buffers ev conn new_nick affected \<circ>
             fold (\<lambda>bid. update_nick (iv_lower ev) bid old_nick new_nick) affected) c1
         else
           on_state (rename_query_buffers ev conn new_nick affected)
             (fold (nick_changed ev our_nick old_nick new_nick tgs) affected c1))"

section \<open>KICK\<close>

definition handle_own_kick ::
  "irc_env \<Rightarrow> bytes \<Rightarrow> bytes \<Rightarrow> bytes \<Rightarrow> bytes \<Rightarrow> bytes \<Rightarrow> tags \<Rightarrow> client \<Rightarrow> client" where
  "handle_own_kick ev conn our_nick kicker channel reason_str tgs c =
     (let bid = make_buffer_id (iv_lower ev) conn channel;
          server = status_buffer ev (cl_state c) conn;
          line = event_line (message_timestamp ev tgs) tgs True (Some ''kicked'')
                   (Some [our_nick, kicker, channel, reason_str])
                   (''You were kicked from '' @ channel @ '' by '' @ kicker @ '' ('' @ reason_str @ '')'');
          c1 = on_state (post ev bid line \<circ> post ev server line) c;
          c2 = remove_buffer_of ev bid c1;
          landing = unwrap_or server (st_active (cl_state c2));
          c3 = (if landing \<noteq> server then on_state (post ev landing line) c2 else c2)
      in on_state (forget_silent conn channel) c3)"

definition handle_kick ::
  "irc_env \<Rightarrow> bytes \<Rightarrow> bytes \<Rightarrow> irc_prefix option \<Rightarrow> bytes \<Rightarrow> bytes \<Rightarrow> bytes option \<Rightarrow> tags \<Rightarrow>
   client \<Rightarrow> client" where
  "handle_kick ev conn our_nick pfx channel kicked_user reason tgs c =
     (let (kicker, ident, host) = extract_nick_userhost pfx;
          bid = make_buffer_id (iv_lower ev) conn channel;
          reason_str = unwrap_or [] reason
      in if kicked_user \<noteq> our_nick \<and> ignored ev c kicker ident host IgnKicks (Some channel) then
           on_state (remove_nick (iv_lower ev) bid kicked_user) c
         else if kicked_user = our_nick then handle_own_kick ev conn our_nick kicker channel reason_str tgs c
         else
           on_state (post ev bid (event_line (message_timestamp ev tgs) tgs False (Some ''kick'')
               (Some [kicked_user, kicker, channel, reason_str])
               (kicked_user @ '' was kicked by '' @ kicker @ '' ('' @ reason_str @ '')'')) \<circ>
             remove_nick (iv_lower ev) bid kicked_user) c)"

end
