(* ===== verification/Irc_Chat.thy ===== *)
theory Irc_Chat
  imports Irc_Members
begin

text \<open>
  \<open>src/src/irc/events.rs\<close>: PRIVMSG and NOTICE.  A handler that may panic
  returns an option: \<open>None\<close> is the panic, which ends the program (the release
  profile aborts).  The rendering of a mention (\<open>format_mention_line\<close> of
  \<open>src/src/ui/mod.rs\<close>) is modelled, the colour of the nick in it is an argument.
\<close>

section \<open>Shared steps\<close>

text \<open>
  \<open>&text[1..text.len() - 1]\<close>: the bounds are checked as the standard library
  does, and both ends have to be at the boundary of a character.
\<close>

definition inner_slice :: "bytes \<Rightarrow> bytes option" where
  "inner_slice s =
     (if s \<noteq> [] \<and> 1 \<le> length s - 1 \<and> is_char_boundary s 1 \<and> is_char_boundary s (length s - 1)
      then Some (take (length s - 2) (drop 1 s)) else None)"

definition is_ctcp :: "bytes \<Rightarrow> bool" where
  "is_ctcp body \<longleftrightarrow> starts_with [byte_of 1] body \<and> ends_with [byte_of 1] body"

definition is_action :: "bytes \<Rightarrow> bool" where
  "is_action body \<longleftrightarrow> is_ctcp body \<and> 2 < length body \<and>
     (case inner_slice body of None \<Rightarrow> False | Some s \<Rightarrow> starts_with ''ACTION '' s)"

definition privmsg_level :: "bytes \<Rightarrow> bool \<Rightarrow> ignore_level" where
  "privmsg_level body to_channel =
     (if is_action body then IgnActions else if is_ctcp body then IgnCtcps
      else if to_channel then IgnPublic else IgnMsgs)"

definition mentions_us :: "irc_env \<Rightarrow> bytes \<Rightarrow> bytes \<Rightarrow> bool" where
  "mentions_us ev our_nick body =
     contains_str (iv_lower ev our_nick) (iv_lower ev (strip_irc_formatting body))"

definition line_activity :: "bool \<Rightarrow> bool \<Rightarrow> bool \<Rightarrow> activity_level" where
  "line_activity is_own to_channel is_mention =
     (if is_own then NoActivity else if \<not> to_channel \<or> is_mention then Mention else Activity)"

definition heavy_quote :: bytes where
  "heavy_quote = [byte_of 226, byte_of 157, byte_of 175]"

definition format_mention_line :: "irc_env \<Rightarrow> bytes \<Rightarrow> bytes \<Rightarrow> bytes \<Rightarrow> bytes \<Rightarrow> bytes \<Rightarrow> bytes" where
  "format_mention_line ev datetime network_label channel nick body =
     ''%Z6e738d['' @ datetime @ '']%N %Z565f89['' @ network_label @ '']%N %Z7aa2f7['' @ channel @ '']%N %Z'' @
     iv_nick_hex ev nick @ ''%_'' @ nick @ ''%_%N%Z7aa2f7'' @ heavy_quote @ ''%N '' @ body"

definition mention_message :: "i64 \<Rightarrow> bytes \<Rightarrow> nat \<Rightarrow> message" where
  "mention_message ts body n = \<lparr>ms_id = n, ms_timestamp = ts, ms_type = MsgMentionLog, ms_nick = None,
     ms_nick_mode = None, ms_text = body, ms_highlight = True, ms_event_key = None, ms_event_params = None,
     ms_tags = None\<rparr>"

definition push_mention ::
  "irc_env \<Rightarrow> bytes \<Rightarrow> i64 \<Rightarrow> bytes \<Rightarrow> bytes \<Rightarrow> bytes \<Rightarrow> app_state \<Rightarrow> app_state" where
  "push_mention ev conn ts target nick body s =
     (if map_of (st_buffers s) mentions_id = None then s
      else
        let line = format_mention_line ev (iv_local_date ev ''%Y/%m/%d %H:%M:%S'' ts) (connection_label s conn)
                     target nick body;
            (n, s1) = next_message_id s
        in add_mention_to_buffer (mention_message ts line n) s1)"

text \<open>The line itself, with the mention it may be; \<open>shown\<close> is the text of the mention.\<close>

definition chat_message :: "message_type \<Rightarrow> i64 \<Rightarrow> bytes \<Rightarrow> bytes option \<Rightarrow> bytes \<Rightarrow> bool \<Rightarrow> tags \<Rightarrow> nat \<Rightarrow> message" where
  "chat_message t ts nick nick_mode body is_mention tgs n = \<lparr>ms_id = n, ms_timestamp = ts, ms_type = t,
     ms_nick = Some nick, ms_nick_mode = nick_mode, ms_text = body, ms_highlight = is_mention,
     ms_event_key = None, ms_event_params = None, ms_tags = tgs\<rparr>"

definition deliver ::
  "irc_env \<Rightarrow> bytes \<Rightarrow> bytes \<Rightarrow> message_type \<Rightarrow> bytes \<Rightarrow> bytes \<Rightarrow> bytes \<Rightarrow> bytes \<Rightarrow> bytes \<Rightarrow> bool \<Rightarrow> tags \<Rightarrow>
   app_state \<Rightarrow> app_state" where
  "deliver ev conn our_nick t bid target nick body shown is_own tgs s =
     (let to_channel = is_channel_name target;
          is_mention = (\<not> is_own \<and> mentions_us ev our_nick body);
          nick_mode = nick_prefix (iv_lower ev) s bid nick;
          ts = message_timestamp ev tgs;
          (n, s1) = next_message_id s;
          s2 = add_message_with_activity_unshrunk (iv_lower ev) bid
                 (chat_message t ts nick nick_mode body is_mention tgs n)
                 (line_activity is_own to_channel is_mention) s1
      in if is_mention \<and> to_channel then push_mention ev conn ts target nick shown s2 else s2)"

section \<open>PRIVMSG\<close>

text \<open>The query buffer of a private message, and the handle stamped on it.\<close>

definition open_query ::
  "bytes \<Rightarrow> bytes \<Rightarrow> bytes \<Rightarrow> bytes \<Rightarrow> bool \<Rightarrow> bool \<Rightarrow> app_state \<Rightarrow> app_state" where
  "open_query bid conn nick handle to_channel is_own s =
     (let s1 = (if \<not> to_channel \<and> map_of (st_buffers s) bid = None
                then add_buffer (new_buffer bid conn Query nick (if is_own then None else Some handle)) s else s)
      in if \<not> to_channel \<and> \<not> is_own then upd_buffer bid (\<lambda>b. b\<lparr>bf_peer_handle := Some handle\<rparr>) s1 else s1)"

definition tag_account :: "irc_env \<Rightarrow> bytes \<Rightarrow> bytes \<Rightarrow> bool \<Rightarrow> tags \<Rightarrow> app_state \<Rightarrow> app_state" where
  "tag_account ev bid nick to_channel tgs s =
     (case tag ''account'' tgs of
        None \<Rightarrow> s
      | Some a \<Rightarrow>
          if to_channel
          then upd_buffer bid (upd_user (iv_lower ev) nick (\<lambda>e. e\<lparr>ne_account := (if a = ''*'' then None else Some a)\<rparr>)) s
          else s)"

text \<open>A check that did not let the line through: the first time it says so.\<close>

definition report_flood :: "irc_env \<Rightarrow> bytes \<Rightarrow> bytes \<Rightarrow> flood_result \<Rightarrow> client \<Rightarrow> client" where
  "report_flood ev bid body r c = (if r = Triggered then on_state (emit ev bid body) c else c)"

definition ctcp_suppressed :: "irc_env \<Rightarrow> bytes \<Rightarrow> bool \<Rightarrow> client \<Rightarrow> bool \<times> client" where
  "ctcp_suppressed ev bid exempt c =
     (if cl_flood_protection c \<and> \<not> exempt then
        let (r, fl) = check_ctcp_flood (iv_now ev) (cl_flood c)
        in (suppressed r, report_flood ev bid (''CTCP flood detected '' @ em_dash @ '' suppressing'') r (c\<lparr>cl_flood := fl\<rparr>))
      else (False, c))"

definition tilde_suppressed :: "irc_env \<Rightarrow> bytes \<Rightarrow> bytes \<Rightarrow> bool \<Rightarrow> client \<Rightarrow> bool \<times> client" where
  "tilde_suppressed ev bid nick to_channel c =
     (let (r, fl) = check_tilde_nick_flood (iv_hash ev) nick (iv_now ev) (cl_flood c);
          c1 = c\<lparr>cl_flood := fl\<rparr>
      in if suppressed r then
           (True, report_flood ev bid (''Flood from '' @ nick @ '' detected '' @ em_dash @ '' suppressing'') r c1)
         else if \<not> to_channel then
           let (storm, fl2) = check_pm_tilde_storm (iv_hash ev) nick (iv_now ev) (cl_flood c1)
           in (suppressed storm, report_flood ev bid
                (''PM flood storm detected '' @ em_dash @ '' suppressing all ~ PMs'') storm (c1\<lparr>cl_flood := fl2\<rparr>))
         else (False, c1))"

definition duplicate_suppressed :: "irc_env \<Rightarrow> bytes \<Rightarrow> bytes \<Rightarrow> bool \<Rightarrow> client \<Rightarrow> bool \<times> client" where
  "duplicate_suppressed ev bid body to_channel c =
     (let (r, fl) = check_duplicate_flood (iv_hash ev) body to_channel (iv_now ev) (cl_flood c)
      in (suppressed r, report_flood ev bid (''Duplicate text flood detected '' @ em_dash @ '' suppressing'') r
            (c\<lparr>cl_flood := fl\<rparr>)))"

definition text_suppressed ::
  "irc_env \<Rightarrow> bytes \<Rightarrow> bytes \<Rightarrow> bytes \<Rightarrow> bytes \<Rightarrow> bytes \<Rightarrow> bool \<Rightarrow> bool \<Rightarrow> client \<Rightarrow> bool \<times> client" where
  "text_suppressed ev bid our_nick nick ident body to_channel exempt c =
     (if cl_flood_protection c \<and> nick \<noteq> our_nick \<and> \<not> exempt then
        let (stop, c1) = (if starts_with ''~'' ident then tilde_suppressed ev bid nick to_channel c else (False, c))
        in if stop then (True, c1) else duplicate_suppressed ev bid body to_channel c1
      else (False, c))"

definition receive_ctcp ::
  "irc_env \<Rightarrow> bytes \<Rightarrow> bytes \<Rightarrow> irc_prefix option \<Rightarrow> bytes \<Rightarrow> bytes \<Rightarrow> bytes \<Rightarrow> bytes \<Rightarrow> bool \<Rightarrow> bool \<Rightarrow> tags \<Rightarrow>
   client \<Rightarrow> client option" where
  "receive_ctcp ev conn our_nick pfx bid target nick body is_own exempt tgs c =
     (case inner_slice body of
        None \<Rightarrow> None
      | Some inner \<Rightarrow>
          (case strip_prefix ''ACTION '' inner of
             Some act \<Rightarrow>
               Some (on_state (deliver ev conn our_nick MsgAction bid target nick act
                 (''* '' @ nick @ '' '' @ act) is_own tgs) c)
           | None \<Rightarrow>
               let (stop, c1) = ctcp_suppressed ev bid exempt c in
               Some (if stop then c1
                 else snd (try_dispatch_rpe2e_ctcp (iv_lc ev) (iv_lower ev) (iv_crypto ev) (iv_utc ev) conn pfx body c1))))"

definition receive_text ::
  "irc_env \<Rightarrow> bytes \<Rightarrow> bytes \<Rightarrow> irc_prefix option \<Rightarrow> bytes \<Rightarrow> bytes \<Rightarrow> bytes \<Rightarrow> tags \<Rightarrow> client \<Rightarrow> client option" where
  "receive_text ev conn our_nick pfx target bid body tgs c =
     (let (nick, ident, host) = extract_nick_userhost pfx;
          to_channel = is_channel_name target;
          is_own = (nick = our_nick);
          exempt = (\<not> is_own \<and> matches_mask_patterns (iv_match ev) (cl_flood_exemptions c) nick (Some ident) (Some host))
      in if ignored ev c nick ident host (privmsg_level body to_channel) (if to_channel then Some target else None)
         then Some c
         else
           let c1 = on_state (tag_account ev bid nick to_channel tgs \<circ>
                      open_query bid conn nick (ident @ ''@'' @ host) to_channel is_own) c
           in if is_ctcp body then receive_ctcp ev conn our_nick pfx bid target nick body is_own exempt tgs c1
              else
                let (stop, c2) = text_suppressed ev bid our_nick nick ident body to_channel exempt c1 in
                Some (if stop then c2
                  else on_state (deliver ev conn our_nick MsgMessage bid target nick body body is_own tgs) c2))"

definition handle_privmsg ::
  "irc_env \<Rightarrow> bytes \<Rightarrow> bytes \<Rightarrow> irc_prefix option \<Rightarrow> bytes \<Rightarrow> bytes \<Rightarrow> tags \<Rightarrow> client \<Rightarrow> client option" where
  "handle_privmsg ev conn our_nick pfx target body tgs c =
     (let (nick, ident, host) = extract_nick_userhost pfx;
          is_own = (nick = our_nick);
          bid = make_buffer_id (iv_lower ev) conn (if is_channel_name target \<or> is_own then target else nick);
          handle = ident @ ''@'' @ host;
          (decrypted, c1) = try_decrypt_e2e (iv_crypto ev) conn nick handle (context_key target handle) body is_own c
      in if decrypted = Some [] then Some c1
         else receive_text ev conn our_nick pfx target bid (unwrap_or body decrypted) tgs c1)"

section \<open>NOTICE\<close>

definition notice_target :: "irc_env \<Rightarrow> bytes \<Rightarrow> irc_prefix option \<Rightarrow> bytes \<Rightarrow> app_state \<Rightarrow> bytes" where
  "notice_target ev conn pfx target s =
     (let nick = extract_nick pfx;
          is_server_notice = (nick = None \<or> is_server_prefix pfx);
          is_own = (nick = Some (connection_nick s conn));
          bid = (if is_server_notice then server_buffer ev s conn
                 else make_buffer_id (iv_lower ev) conn
                   (if is_channel_name target \<or> is_own then target else unwrap_or ''Status'' nick))
      in if map_of (st_buffers s) bid \<noteq> None then bid else server_buffer ev s conn)"

definition notice_message :: "i64 \<Rightarrow> bytes option \<Rightarrow> bytes option \<Rightarrow> bytes \<Rightarrow> tags \<Rightarrow> nat \<Rightarrow> message" where
  "notice_message ts nick nick_mode body tgs n = \<lparr>ms_id = n, ms_timestamp = ts, ms_type = MsgNotice,
     ms_nick = nick, ms_nick_mode = nick_mode, ms_text = body, ms_highlight = False,
     ms_event_key = None, ms_event_params = None, ms_tags = tgs\<rparr>"

definition show_notice ::
  "irc_env \<Rightarrow> bytes \<Rightarrow> irc_prefix option \<Rightarrow> bytes \<Rightarrow> bytes \<Rightarrow> tags \<Rightarrow> app_state \<Rightarrow> app_state" where
  "show_notice ev conn pfx target body tgs s =
     (let bid = notice_target ev conn pfx target s; nick = extract_nick pfx;
          nick_mode = (case nick of None \<Rightarrow> None | Some n \<Rightarrow> nick_prefix (iv_lower ev) s bid n)
      in post ev bid (notice_message (message_timestamp ev tgs) nick nick_mode body tgs) s)"

definition handle_notice ::
  "irc_env \<Rightarrow> bytes \<Rightarrow> irc_prefix option \<Rightarrow> bytes \<Rightarrow> bytes \<Rightarrow> tags \<Rightarrow> client \<Rightarrow> client" where
  "handle_notice ev conn pfx target body tgs c =
     (let (nick, ident, host) = extract_nick_userhost pfx;
          is_server_notice = (extract_nick pfx = None \<or> is_server_prefix pfx)
      in if \<not> is_server_notice \<and>
            ignored ev c nick ident host IgnNotices (if is_channel_name target then Some target else None)
         then c
         else
           let (outcome, c1) = try_dispatch_rpe2e_ctcp (iv_lc ev) (iv_lower ev) (iv_crypto ev) (iv_utc ev)
                 conn pfx body c
           in if outcome = Some Handled then c1 else on_state (show_notice ev conn pfx target body tgs) c1)"

end
