(* ===== verification/Irc_Modes.thy ===== *)
theory Irc_Modes
  imports Irc_Event
begin

text \<open>
  \<open>src/src/irc/events.rs\<close>: channel and user modes, ban lists, topics, invites,
  and the messages of the server itself (ERROR, WALLOPS).  A mode letter is a
  Rust \<open>char\<close>, the list of its bytes.
\<close>

section \<open>Letters\<close>

definition max_list_mode_entries :: nat where "max_list_mode_entries = 500"
definition ban_mode_key :: bytes where "ban_mode_key = ''b''"

fun channel_mode_letter :: "chan_mode \<Rightarrow> bytes" where
  "channel_mode_letter CmBan = ''b''"
| "channel_mode_letter CmException = ''e''"
| "channel_mode_letter CmLimit = ''l''"
| "channel_mode_letter CmInviteOnly = ''i''"
| "channel_mode_letter CmInviteException = ''I''"
| "channel_mode_letter CmKey = ''k''"
| "channel_mode_letter CmModerated = ''m''"
| "channel_mode_letter CmRegisteredOnly = ''r''"
| "channel_mode_letter CmReop = ''R''"
| "channel_mode_letter CmSecret = ''s''"
| "channel_mode_letter CmProtectedTopic = ''t''"
| "channel_mode_letter CmNoExternalMessages = ''n''"
| "channel_mode_letter CmFounder = ''q''"
| "channel_mode_letter CmAdmin = ''a''"
| "channel_mode_letter CmOper = ''o''"
| "channel_mode_letter CmHalfop = ''h''"
| "channel_mode_letter CmVoice = ''v''"
| "channel_mode_letter (CmUnknown c) = c"

fun user_mode_letter :: "user_mode \<Rightarrow> bytes" where
  "user_mode_letter UmAway = ''a''"
| "user_mode_letter UmInvisible = ''i''"
| "user_mode_letter UmWallops = ''w''"
| "user_mode_letter UmRestricted = ''r''"
| "user_mode_letter UmOper = ''o''"
| "user_mode_letter UmLocalOper = ''O''"
| "user_mode_letter UmServerNotices = ''s''"
| "user_mode_letter UmMaskedHost = ''x''"
| "user_mode_letter (UmUnknown c) = c"

fun nick_mode_char :: "chan_mode \<Rightarrow> bytes option" where
  "nick_mode_char CmFounder = Some ''q''"
| "nick_mode_char CmAdmin = Some ''a''"
| "nick_mode_char CmOper = Some ''o''"
| "nick_mode_char CmHalfop = Some ''h''"
| "nick_mode_char CmVoice = Some ''v''"
| "nick_mode_char _ = None"

text \<open>\<open>s.replace(c, "")\<close> and \<open>if !s.contains(c) \{ s.push(c) \}\<close> for a character.\<close>

definition remove_letter :: "bytes \<Rightarrow> bytes \<Rightarrow> bytes" where
  "remove_letter c s = concat (filter (\<lambda>x. x \<noteq> c) (utf8_chars s))"

definition has_letter :: "bytes \<Rightarrow> bytes \<Rightarrow> bool" where
  "has_letter c s = List.member (utf8_chars s) c"

definition add_letter :: "bytes \<Rightarrow> bytes \<Rightarrow> bytes" where
  "add_letter c s = (if has_letter c s then s else s @ c)"

section \<open>Mode strings\<close>

fun mode_sign :: "'m mode_change \<Rightarrow> char \<times> 'm \<times> bytes option" where
  "mode_sign (ModePlus m p) = (CHR ''+'', m, p)"
| "mode_sign (ModeMinus m p) = (CHR ''-'', m, p)"
| "mode_sign (ModeNoPrefix m) = (CHR '' '', m, None)"

fun mode_letters :: "('m \<Rightarrow> bytes) \<Rightarrow> char \<Rightarrow> 'm mode_change list \<Rightarrow> bytes" where
  "mode_letters letter last_sign [] = []"
| "mode_letters letter last_sign (mode # modes) =
     (let (sign, m, _) = mode_sign mode in
      if sign \<noteq> last_sign \<and> sign \<noteq> CHR '' '' then sign # letter m @ mode_letters letter sign modes
      else letter m @ mode_letters letter last_sign modes)"

definition mode_params :: "'m mode_change list \<Rightarrow> bytes list" where
  "mode_params modes = List.map_filter (\<lambda>mode. snd (snd (mode_sign mode))) modes"

definition build_channel_mode_string :: "chan_mode mode_change list \<Rightarrow> bytes" where
  "build_channel_mode_string modes =
     mode_letters channel_mode_letter (CHR '' '') modes @
     (if mode_params modes = [] then [] else CHR '' '' # join_str '' '' (mode_params modes))"

definition build_user_mode_string :: "user_mode mode_change list \<Rightarrow> bytes" where
  "build_user_mode_string modes = mode_letters user_mode_letter (CHR '' '') modes"

section \<open>Ban lists\<close>

text \<open>The position the entry has, counted from one, and the buffer.\<close>

definition upsert_list_mode_entry ::
  "bytes \<Rightarrow> bytes \<Rightarrow> bytes \<Rightarrow> i64 \<Rightarrow> buffer \<Rightarrow> nat \<times> buffer" where
  "upsert_list_mode_entry key msk set_by set_at b =
     (let entries = unwrap_or [] (map_of (bf_list_modes b) key);
          put = (\<lambda>es. b\<lparr>bf_list_modes := AList.update key es (bf_list_modes b)\<rparr>)
      in case find_pos (\<lambda>e. eq_ignore_ascii_case (le_mask e) msk) entries of
           Some pos \<Rightarrow> (pos + 1, put (entries[pos := (entries ! pos)\<lparr>le_set_by := set_by, le_set_at := set_at\<rparr>]))
         | None \<Rightarrow>
             let es = entries @ [\<lparr>le_mask = msk, le_set_by = set_by, le_set_at = set_at\<rparr>];
                 kept = (if max_list_mode_entries < length es then drop (length es - max_list_mode_entries) es else es)
             in (length kept, put kept))"

definition remove_list_mode_entry :: "bytes \<Rightarrow> bytes \<Rightarrow> buffer \<Rightarrow> bool \<times> buffer" where
  "remove_list_mode_entry key msk b =
     (case map_of (bf_list_modes b) key of
        None \<Rightarrow> (False, b)
      | Some entries \<Rightarrow>
          let kept = filter (\<lambda>e. \<not> eq_ignore_ascii_case (le_mask e) msk) entries
          in (length kept \<noteq> length entries,
              b\<lparr>bf_list_modes := (if kept = [] then AList.delete key (bf_list_modes b)
                                 else AList.update key kept (bf_list_modes b))\<rparr>))"

section \<open>MODE\<close>

definition set_nick_mode :: "bool \<Rightarrow> bytes \<Rightarrow> nick_entry \<Rightarrow> nick_entry" where
  "set_nick_mode adding mc e =
     (let modes = (if adding then add_letter mc (ne_modes e) else remove_letter mc (ne_modes e))
      in e\<lparr>ne_modes := modes, ne_prefix := modes_to_prefix modes ''~&@%+''\<rparr>)"

definition carries_value :: "bytes \<Rightarrow> bool" where
  "carries_value ch \<longleftrightarrow> ch = ''k'' \<or> ch = ''l''"

definition set_channel_mode :: "bool \<Rightarrow> bytes \<Rightarrow> bytes option \<Rightarrow> buffer \<Rightarrow> buffer" where
  "set_channel_mode adding ch param b =
     (let modes = unwrap_or [] (bf_modes b);
          modes1 = (if adding then add_letter ch modes else remove_letter ch modes);
          params = (if adding then
                      (case param of
                         Some v \<Rightarrow> if carries_value ch
                           then Some (AList.update ch v (unwrap_or [] (bf_mode_params b))) else bf_mode_params b
                       | None \<Rightarrow> bf_mode_params b)
                    else map_option (AList.delete ch) (bf_mode_params b));
          modes2 = (if starts_with ''+'' modes1 then tl modes1 else modes1)
      in b\<lparr>bf_modes := Some modes2, bf_mode_params := params\<rparr>)"

definition mode_target ::
  "irc_env \<Rightarrow> bytes \<Rightarrow> chan_mode \<Rightarrow> bytes option \<Rightarrow> app_state \<Rightarrow> (bytes \<times> bytes \<times> nick_entry) option" where
  "mode_target ev bid m param s =
     (case nick_mode_char m of
        None \<Rightarrow> None
      | Some mc \<Rightarrow>
          (case param of
             None \<Rightarrow> None
           | Some target \<Rightarrow>
               (case map_of (st_buffers s) bid of
                  None \<Rightarrow> None
                | Some b \<Rightarrow> map_option (\<lambda>e. (mc, target, e)) (map_of (bf_users b) (iv_lower ev target)))))"

definition mode_event :: "bytes \<Rightarrow> nick_entry \<Rightarrow> nick_event" where
  "mode_event target e =
     (nick_event NickModeChange target)\<lparr>we_prefix := Some (ne_prefix e), we_modes := Some (ne_modes e)\<rparr>"

definition apply_mode ::
  "irc_env \<Rightarrow> bytes \<Rightarrow> bytes \<Rightarrow> bool \<Rightarrow> chan_mode \<Rightarrow> bytes option \<Rightarrow> app_state \<Rightarrow> app_state" where
  "apply_mode ev bid set_by adding m param s =
     (case mode_target ev bid m param s of
        Some (mc, target, e) \<Rightarrow>
          let e1 = set_nick_mode adding mc e in
          push_web (NickEvent bid (mode_event target e1))
            (upd_buffer bid (\<lambda>b. b\<lparr>bf_users := AList.update (iv_lower ev target) e1 (bf_users b)\<rparr>) s)
      | None \<Rightarrow>
          if m = CmBan then
            (case param of
               None \<Rightarrow> s
             | Some msk \<Rightarrow> upd_buffer bid (\<lambda>b.
                 if adding then snd (upsert_list_mode_entry ban_mode_key msk set_by (iv_utc ev) b)
                 else snd (remove_list_mode_entry ban_mode_key msk b)) s)
          else if m = CmException \<or> m = CmInviteException \<or> m = CmReop \<or> nick_mode_char m \<noteq> None then s
          else upd_buffer bid (set_channel_mode adding (channel_mode_letter m) param) s)"

fun apply_channel_mode ::
  "irc_env \<Rightarrow> bytes \<Rightarrow> bytes \<Rightarrow> chan_mode mode_change \<Rightarrow> app_state \<Rightarrow> app_state" where
  "apply_channel_mode ev bid set_by (ModePlus m p) s = apply_mode ev bid set_by True m p s"
| "apply_channel_mode ev bid set_by (ModeMinus m p) s = apply_mode ev bid set_by False m p s"
| "apply_channel_mode ev bid set_by (ModeNoPrefix m) s = s"

fun apply_user_mode :: "user_mode mode_change \<Rightarrow> bytes \<Rightarrow> bytes" where
  "apply_user_mode (ModePlus m p) modes = add_letter (user_mode_letter m) modes"
| "apply_user_mode (ModeNoPrefix m) modes = add_letter (user_mode_letter m) modes"
| "apply_user_mode (ModeMinus m p) modes = remove_letter (user_mode_letter m) modes"

definition mode_line ::
  "irc_env \<Rightarrow> bytes \<Rightarrow> bytes \<Rightarrow> bytes \<Rightarrow> bytes \<Rightarrow> tags \<Rightarrow> app_state \<Rightarrow> app_state" where
  "mode_line ev bid nick display target tgs =
     post ev bid (event_line (message_timestamp ev tgs) tgs False (Some ''mode'') (Some [nick, display, target])
       (nick @ '' sets mode '' @ display @ '' on '' @ target))"

definition mode_line_buffer :: "irc_env \<Rightarrow> bytes \<Rightarrow> bytes \<Rightarrow> app_state \<Rightarrow> bytes" where
  "mode_line_buffer ev conn target s =
     (if is_channel_name target then make_buffer_id (iv_lower ev) conn target else server_buffer ev s conn)"

definition handle_mode ::
  "irc_env \<Rightarrow> bytes \<Rightarrow> irc_prefix option \<Rightarrow> bytes \<Rightarrow> irc_command \<Rightarrow> tags \<Rightarrow> app_state \<Rightarrow> app_state" where
  "handle_mode ev conn pfx target command tgs s =
     (let nick = unwrap_or ''server'' (extract_nick pfx);
          (display, s1) = (case command of
             ChannelMODE _ modes \<Rightarrow>
               (build_channel_mode_string modes,
                fold (apply_channel_mode ev (make_buffer_id (iv_lower ev) conn target) nick) modes s)
           | UserMODE _ modes \<Rightarrow>
               (build_user_mode_string modes,
                upd_connection conn (\<lambda>cn. cn\<lparr>cn_user_modes := fold apply_user_mode modes (cn_user_modes cn)\<rparr>) s)
           | _ \<Rightarrow> ([], s))
      in mode_line ev (mode_line_buffer ev conn target s1) nick display target tgs s1)"

section \<open>TOPIC, INVITE, ERROR, WALLOPS\<close>

definition handle_topic ::
  "irc_env \<Rightarrow> bytes \<Rightarrow> irc_prefix option \<Rightarrow> bytes \<Rightarrow> bytes option \<Rightarrow> tags \<Rightarrow> app_state \<Rightarrow> app_state" where
  "handle_topic ev conn pfx channel topic tgs s =
     (let nick = extract_nick pfx; bid = make_buffer_id (iv_lower ev) conn channel in
      case topic of
        None \<Rightarrow> s
      | Some body \<Rightarrow>
          let setter = unwrap_or [] nick in
          post ev bid (event_line (message_timestamp ev tgs) tgs False (Some ''topic_changed'') (Some [setter, body])
              (setter @ '' changed the topic to: '' @ body))
            (push_web (TopicChanged bid body nick) (set_topic bid body nick s)))"

definition handle_invite ::
  "irc_env \<Rightarrow> bytes \<Rightarrow> bytes \<Rightarrow> irc_prefix option \<Rightarrow> bytes \<Rightarrow> bytes \<Rightarrow> tags \<Rightarrow> app_state \<Rightarrow> app_state" where
  "handle_invite ev conn our_nick pfx nick channel tgs s =
     (let inviter = unwrap_or [] (extract_nick pfx); ts = message_timestamp ev tgs in
      if eq_ignore_ascii_case nick our_nick then
        post ev (active_or_server_buffer (iv_lower ev) s conn)
          (event_line ts tgs True None None (inviter @ '' invites you to '' @ channel)) s
      else
        let bid = make_buffer_id (iv_lower ev) conn channel in
        if map_of (st_buffers s) bid \<noteq> None then
          post ev bid (event_line ts tgs False None None (inviter @ '' invited '' @ nick @ '' to '' @ channel)) s
        else s)"

definition handle_error :: "irc_env \<Rightarrow> bytes \<Rightarrow> bytes \<Rightarrow> app_state \<Rightarrow> app_state" where
  "handle_error ev conn msg s =
     (let s1 = upd_connection conn (\<lambda>cn. cn\<lparr>cn_status := ConnError, cn_error := Some msg\<rparr>) s
      in emit ev (server_buffer ev s1 conn) (''%Zff4444ERROR: '' @ msg @ ''%N'') s1)"

definition handle_wallops :: "irc_env \<Rightarrow> bytes \<Rightarrow> irc_prefix option \<Rightarrow> bytes \<Rightarrow> app_state \<Rightarrow> app_state" where
  "handle_wallops ev conn pfx body s =
     emit ev (server_buffer ev s conn)
       (''%Ze0af68[Wallops/'' @ unwrap_or ''server'' (extract_nick pfx) @ '']%N '' @ body) s"

end
