(* ===== verification/Irc_Numerics.thy ===== *)
theory Irc_Numerics
  imports Irc_Modes
begin

text \<open>
  \<open>src/src/irc/events.rs\<close>: the numeric replies of the server.  \<open>args ! i\<close> is
  only used where the length has been checked, as in the source.
\<close>

section \<open>Helpers\<close>

definition rule :: "nat \<Rightarrow> bytes" where
  "rule n = concat (replicate n [byte_of 226, byte_of 148, byte_of 128])"

definition parse_i64_opt :: "bytes \<Rightarrow> i64 option" where
  "parse_i64_opt s = (case parse_i64 s of Inl _ \<Rightarrow> None | Inr n \<Rightarrow> Some n)"

definition parse_u64_or_zero :: "bytes \<Rightarrow> nat" where
  "parse_u64_or_zero s = (case parse_unsigned (2 ^ 64 - 1) s of Inl _ \<Rightarrow> 0 | Inr n \<Rightarrow> n)"

definition format_duration :: "nat \<Rightarrow> bytes" where
  "format_duration n =
     (if n < 60 then show_nat n @ ''s''
      else if n < 3600 then show_nat (n div 60) @ ''m '' @ show_nat (n mod 60) @ ''s''
      else if n < 86400 then show_nat (n div 3600) @ ''h '' @ show_nat (n mod 3600 div 60) @ ''m''
      else show_nat (n div 86400) @ ''d '' @ show_nat (n mod 86400 div 3600) @ ''h'')"

definition date_or_empty :: "irc_env \<Rightarrow> i64 \<Rightarrow> bytes" where
  "date_or_empty ev ts = (case iv_from_timestamp ev ts of None \<Rightarrow> [] | Some t \<Rightarrow> iv_utc_date ev t)"

definition format_timestamp :: "irc_env \<Rightarrow> bytes \<Rightarrow> bytes" where
  "format_timestamp ev s = (case parse_i64_opt s of None \<Rightarrow> [] | Some ts \<Rightarrow> date_or_empty ev ts)"

text \<open>\<open>if args.len() > 1 \{ args[1..].join(" ") \} else \{ args.join(" ") \}\<close>\<close>

definition numeric_text :: "bytes list \<Rightarrow> bytes" where
  "numeric_text args = join_str '' '' (if 1 < length args then tl args else args)"

definition whois_buffer :: "irc_env \<Rightarrow> app_state \<Rightarrow> bytes \<Rightarrow> bytes" where
  "whois_buffer ev s conn = active_or_server_buffer (iv_lower ev) s conn"

definition emit_active :: "irc_env \<Rightarrow> bytes \<Rightarrow> bytes \<Rightarrow> app_state \<Rightarrow> app_state" where
  "emit_active ev conn body s = emit ev (active_or_server_buffer (iv_lower ev) s conn) body s"

definition emit_server :: "irc_env \<Rightarrow> bytes \<Rightarrow> bytes \<Rightarrow> app_state \<Rightarrow> app_state" where
  "emit_server ev conn body s = emit ev (server_buffer ev s conn) body s"

definition emit_whois :: "irc_env \<Rightarrow> bytes \<Rightarrow> bytes \<Rightarrow> bytes \<Rightarrow> bytes list \<Rightarrow> app_state \<Rightarrow> app_state" where
  "emit_whois ev conn key body params s = emit_keyed ev (whois_buffer ev s conn) key body params s"

section \<open>NAMES\<close>

text \<open>Each leading character that is a prefix of the server is kept with its mode letter.\<close>

fun take_prefixes :: "(bytes \<times> bytes) list \<Rightarrow> bytes list \<Rightarrow> bytes \<times> bytes \<times> bytes list" where
  "take_prefixes pmap [] = ([], [], [])"
| "take_prefixes pmap (ch # chs) =
     (case find (\<lambda>(_, p). p = ch) pmap of
        None \<Rightarrow> ([], [], ch # chs)
      | Some (mode, _) \<Rightarrow>
          let (pfx, modes, rest) = take_prefixes pmap chs in (ch @ pfx, mode @ modes, rest))"

definition parse_userhost :: "bytes \<Rightarrow> bytes \<times> bytes option \<times> bytes option" where
  "parse_userhost input =
     (case find_char (CHR ''!'') input of
        None \<Rightarrow> (input, None, None)
      | Some bang \<Rightarrow>
          let rest = drop (bang + 1) input in
          (case find_char (CHR ''@'') rest of
             None \<Rightarrow> (input, None, None)
           | Some at \<Rightarrow> (take bang input, Some (take at rest), Some (drop (at + 1) rest))))"

definition parse_names_entry :: "bytes \<Rightarrow> (bytes \<times> bytes) list \<Rightarrow> bool \<Rightarrow> nick_entry" where
  "parse_names_entry raw pmap has_userhost =
     (let (pfx, modes, rest) = take_prefixes pmap (utf8_chars raw);
          (nick, ident, host) = (if has_userhost then parse_userhost (concat rest) else (concat rest, None, None))
      in \<lparr>ne_nick = nick, ne_prefix = pfx, ne_modes = modes, ne_away = False, ne_account = None,
          ne_ident = ident, ne_host = host\<rparr>)"

definition names_options :: "bytes \<Rightarrow> app_state \<Rightarrow> (bytes \<times> bytes) list \<times> bool" where
  "names_options conn s =
     (case map_of (st_connections s) conn of
        None \<Rightarrow> ([(''o'', ''@''), (''v'', ''+'')], False)
      | Some cn \<Rightarrow> (prefix_map (cn_isupport cn), List.member (cn_enabled_caps cn) ''userhost-in-names''))"

definition reply_names :: "irc_env \<Rightarrow> bytes \<Rightarrow> bytes list \<Rightarrow> app_state \<Rightarrow> app_state" where
  "reply_names ev conn args s =
     (if 4 \<le> length args then
        let bid = make_buffer_id (iv_lower ev) conn (args ! 2); (pmap, has_userhost) = names_options conn s
        in fold (\<lambda>raw. add_nick (iv_lower ev) bid (parse_names_entry raw pmap has_userhost))
             (split_whitespace (args ! 3)) s
      else s)"

section \<open>ISUPPORT\<close>

definition update_label_from_network :: "irc_env \<Rightarrow> bytes \<Rightarrow> bytes \<Rightarrow> app_state \<Rightarrow> app_state" where
  "update_label_from_network ev conn network_name s =
     (case map_of (st_connections s) conn of
        None \<Rightarrow> s
      | Some cn \<Rightarrow>
          if CHR ''.'' \<notin> set (cn_label cn) then s
          else
            let s1 = upd_connection conn (\<lambda>cn. cn\<lparr>cn_label := network_name\<rparr>) s;
                old_id = make_buffer_id (iv_lower ev) conn (cn_label cn);
                new_id = make_buffer_id (iv_lower ev) conn network_name
            in (case map_of (st_buffers s1) old_id of
                  None \<Rightarrow> s1
                | Some b \<Rightarrow>
                    let s2 = s1\<lparr>st_buffers := AList.update new_id (b\<lparr>bf_id := new_id, bf_name := network_name\<rparr>)
                               (AList.delete old_id (st_buffers s1))\<rparr>
                    in if st_active s2 = Some old_id then s2\<lparr>st_active := Some new_id\<rparr> else s2))"

definition connection_network :: "bytes \<Rightarrow> app_state \<Rightarrow> bytes option" where
  "connection_network conn s =
     (case map_of (st_connections s) conn of None \<Rightarrow> None | Some cn \<Rightarrow> network (cn_isupport cn))"

definition reply_isupport :: "irc_env \<Rightarrow> bytes \<Rightarrow> bytes list \<Rightarrow> app_state \<Rightarrow> app_state" where
  "reply_isupport ev conn args s =
     (if 2 \<le> length args then
        let s1 = upd_connection conn (\<lambda>cn. cn\<lparr>cn_isupport := parse_tokens (butlast (tl args)) (cn_isupport cn)\<rparr>) s
        in case connection_network conn s1 of
             None \<Rightarrow> s1
           | Some name \<Rightarrow> update_label_from_network ev conn name s1
      else s)"

section \<open>Topic and channel modes\<close>

definition reply_topic :: "irc_env \<Rightarrow> bytes \<Rightarrow> bytes list \<Rightarrow> app_state \<Rightarrow> app_state" where
  "reply_topic ev conn args s =
     (if 3 \<le> length args then set_topic (make_buffer_id (iv_lower ev) conn (args ! 1)) (args ! 2) None s else s)"

definition reply_topic_who :: "irc_env \<Rightarrow> bytes \<Rightarrow> bytes list \<Rightarrow> app_state \<Rightarrow> app_state" where
  "reply_topic_who ev conn args s =
     (if 3 \<le> length args
      then upd_buffer (make_buffer_id (iv_lower ev) conn (args ! 1)) (\<lambda>b. b\<lparr>bf_topic_set_by := Some (args ! 2)\<rparr>) s
      else s)"

fun collect_mode_params :: "bytes list \<Rightarrow> bytes list \<Rightarrow> (bytes, bytes) table \<Rightarrow> (bytes, bytes) table" where
  "collect_mode_params [] ps t = t"
| "collect_mode_params (ch # chs) [] t = collect_mode_params chs [] t"
| "collect_mode_params (ch # chs) (p # ps) t =
     (if carries_value ch then collect_mode_params chs ps (AList.update ch p t)
      else collect_mode_params chs (p # ps) t)"


definition reply_channel_modes :: "irc_env \<Rightarrow> bytes \<Rightarrow> bytes list \<Rightarrow> app_state \<Rightarrow> app_state" where
  "reply_channel_modes ev conn args s =
     (if 3 \<le> length args then
        let mode_str = (case strip_prefix ''+'' (args ! 2) of Some r \<Rightarrow> r | None \<Rightarrow> args ! 2);
            params = collect_mode_params (utf8_chars mode_str) (drop 3 args) []
        in upd_buffer (make_buffer_id (iv_lower ev) conn (args ! 1))
             (\<lambda>b. b\<lparr>bf_modes := Some mode_str, bf_mode_params := (if params = [] then None else Some params)\<rparr>) s
      else s)"

section \<open>WHOIS\<close>

definition reply_whois_user :: "irc_env \<Rightarrow> bytes \<Rightarrow> bytes list \<Rightarrow> app_state \<Rightarrow> app_state" where
  "reply_whois_user ev conn args s =
     (if 6 \<le> length args then
        let bid = whois_buffer ev s conn in
        emit_keyed ev bid ''whois''
          (''%Zc0caf5'' @ args ! 1 @ ''%Z565f89 ('' @ args ! 2 @ ''@'' @ args ! 3 @ '')%N %Za9b1d6'' @ args ! 5 @ ''%N'')
          [args ! 1, args ! 2, args ! 3, args ! 5]
          (emit_keyed ev bid ''whois_header''
            (''%Z7aa2f7'' @ rule 5 @ '' WHOIS '' @ args ! 1 @ '' '' @ rule 26 @ ''%N'') [args ! 1] s)
      else s)"

definition reply_whois_server :: "irc_env \<Rightarrow> bytes \<Rightarrow> bytes list \<Rightarrow> app_state \<Rightarrow> app_state" where
  "reply_whois_server ev conn args s =
     (if 4 \<le> length args then
        let info = (if args ! 3 = [] then [] else '' ('' @ args ! 3 @ '')'') in
        emit_whois ev conn ''whois_server'' (''%Z565f89  server: %Za9b1d6'' @ args ! 2 @ info @ ''%N'')
          [args ! 1, args ! 2, args ! 3, info] s
      else s)"

definition reply_whois_operator :: "irc_env \<Rightarrow> bytes \<Rightarrow> bytes list \<Rightarrow> app_state \<Rightarrow> app_state" where
  "reply_whois_operator ev conn args s =
     (if 3 \<le> length args then
        emit_whois ev conn ''whois_oper'' (''  %Zbb9af7'' @ args ! 2 @ ''%N'') [args ! 1, args ! 2] s
      else s)"

definition reply_whois_idle :: "irc_env \<Rightarrow> bytes \<Rightarrow> bytes list \<Rightarrow> app_state \<Rightarrow> app_state" where
  "reply_whois_idle ev conn args s =
     (if 3 \<le> length args then
        let idle = format_duration (parse_u64_or_zero (args ! 2)) in
        (case (if 4 \<le> length args then parse_i64_opt (args ! 3) else None) of
           Some ts \<Rightarrow>
             emit_whois ev conn ''whois_idle_signon''
               (''%Z565f89  idle: %Za9b1d6'' @ idle @ ''%Z565f89, signon: %Za9b1d6'' @ date_or_empty ev ts @ ''%N'')
               [args ! 1, idle, date_or_empty ev ts] s
         | None \<Rightarrow>
             emit_whois ev conn ''whois_idle'' (''%Z565f89  idle: %Za9b1d6'' @ idle @ ''%N'') [args ! 1, idle] s)
      else s)"

text \<open>Channels, certificate fingerprint and away message have one shape.\<close>

definition reply_whois_simple ::
  "bytes \<Rightarrow> bytes \<Rightarrow> irc_env \<Rightarrow> bytes \<Rightarrow> bytes list \<Rightarrow> app_state \<Rightarrow> app_state" where
  "reply_whois_simple key label ev conn args s =
     (if 3 \<le> length args
      then emit_whois ev conn key (label @ args ! 2 @ ''%N'') [args ! 1, args ! 2] s else s)"

definition reply_whois_channels :: "irc_env \<Rightarrow> bytes \<Rightarrow> bytes list \<Rightarrow> app_state \<Rightarrow> app_state" where
  "reply_whois_channels = reply_whois_simple ''whois_channels'' ''%Z565f89  channels: %Za9b1d6''"

definition reply_whois_certfp :: "irc_env \<Rightarrow> bytes \<Rightarrow> bytes list \<Rightarrow> app_state \<Rightarrow> app_state" where
  "reply_whois_certfp = reply_whois_simple ''whois_certfp'' ''%Z565f89  certfp: %Za9b1d6''"

definition reply_whois_away :: "irc_env \<Rightarrow> bytes \<Rightarrow> bytes list \<Rightarrow> app_state \<Rightarrow> app_state" where
  "reply_whois_away = reply_whois_simple ''whois_away'' ''%Z565f89  away: %Ze0af68''"

definition reply_whois_keyvalue :: "irc_env \<Rightarrow> bytes \<Rightarrow> bytes list \<Rightarrow> app_state \<Rightarrow> app_state" where
  "reply_whois_keyvalue ev conn args s =
     (if 5 \<le> length args then
        emit_whois ev conn ''whois_keyvalue'' (''%Z565f89  '' @ args ! 2 @ '': %Za9b1d6'' @ args ! 4 @ ''%N'')
          [args ! 1, args ! 2, args ! 3, args ! 4] s
      else s)"

definition reply_end_of_whois :: "irc_env \<Rightarrow> bytes \<Rightarrow> bytes list \<Rightarrow> app_state \<Rightarrow> app_state" where
  "reply_end_of_whois ev conn args s =
     emit_whois ev conn ''end_of_whois'' (''%Z7aa2f7'' @ rule 45 @ ''%N'')
       [unwrap_or [] (nth_opt args 1), unwrap_or [] (nth_opt args 2)] s"

definition handle_whois_account :: "irc_env \<Rightarrow> bytes \<Rightarrow> bytes list \<Rightarrow> app_state \<Rightarrow> app_state" where
  "handle_whois_account ev conn args s =
     (if 3 \<le> length args then
        emit_whois ev conn ''whois_account'' (''%Z565f89  account: %Za9b1d6'' @ args ! 2 @ ''%N'')
          [args ! 1, args ! 2, unwrap_or [] (nth_opt args 3)] s
      else s)"

definition handle_whois_secure :: "irc_env \<Rightarrow> bytes \<Rightarrow> bytes list \<Rightarrow> app_state \<Rightarrow> app_state" where
  "handle_whois_secure ev conn args s =
     (if 2 \<le> length args then
        emit_whois ev conn ''whois_secure'' ''%Z565f89  secure: %Z9ece6aTLS%N''
          [args ! 1, ''TLS'', unwrap_or ''is using a secure connection'' (nth_opt args 2)] s
      else s)"

section \<open>Lists of masks\<close>

definition extban_prefix_of :: "bytes \<Rightarrow> app_state \<Rightarrow> bytes option" where
  "extban_prefix_of conn s =
     (case map_of (st_connections s) conn of None \<Rightarrow> None | Some cn \<Rightarrow> map_option fst (isupport_extban (cn_isupport cn)))"

definition silent_banlist :: "bytes \<Rightarrow> bytes \<Rightarrow> app_state \<Rightarrow> bool" where
  "silent_banlist conn channel s =
     (case map_of (st_connections s) conn of
        None \<Rightarrow> False | Some cn \<Rightarrow> contains_case_insensitive (cn_silent_banlist cn) channel)"

definition reply_banlist :: "irc_env \<Rightarrow> bytes \<Rightarrow> bytes list \<Rightarrow> app_state \<Rightarrow> app_state" where
  "reply_banlist ev conn args s =
     (if 3 \<le> length args then
        let channel = args ! 1; msk = args ! 2;
            set_by = unwrap_or [] (nth_opt args 3);
            set_at = (case nth_opt args 4 of None \<Rightarrow> 0 | Some x \<Rightarrow> unwrap_or 0 (parse_i64_opt x));
            bid = make_buffer_id (iv_lower ev) conn channel;
            put = upsert_list_mode_entry ban_mode_key msk set_by set_at;
            index = (case map_of (st_buffers s) bid of None \<Rightarrow> 0 | Some b \<Rightarrow> fst (put b));
            s1 = upd_buffer bid (snd \<circ> put) s
        in if silent_banlist conn channel s then s1
           else
             let set_info = (if set_by = [] then []
                   else '' (set by '' @ set_by @ '' '' @ format_timestamp ev (unwrap_or ''0'' (nth_opt args 4)) @ '')'')
             in emit_active ev conn (''%Z565f89  '' @ show_nat index @ ''. %Za9b1d6'' @
                  format_ban_mask msk (extban_prefix_of conn s1) @ set_info @ ''%N'') s1
      else s)"

definition end_silent_banlist :: "bytes \<Rightarrow> bytes \<Rightarrow> app_state \<Rightarrow> bool \<times> app_state" where
  "end_silent_banlist conn channel s =
     (case map_of (st_connections s) conn of
        None \<Rightarrow> (False, s)
      | Some cn \<Rightarrow>
          let (hit, names) = remove_case_insensitive (cn_silent_banlist cn) channel
          in (hit, upd_connection conn (\<lambda>cn. cn\<lparr>cn_silent_banlist := names\<rparr>) s))"

definition reply_end_of_banlist :: "irc_env \<Rightarrow> bytes \<Rightarrow> bytes list \<Rightarrow> app_state \<Rightarrow> app_state" where
  "reply_end_of_banlist ev conn args s =
     (let (was_silent, s1) = end_silent_banlist conn (unwrap_or [] (nth_opt args 1)) s
      in if was_silent then s1 else emit_active ev conn ''%Z565f89  End of ban list%N'' s1)"

text \<open>Exceptions and invite exceptions are shown only.\<close>

definition reply_mask_line :: "bytes \<Rightarrow> irc_env \<Rightarrow> bytes \<Rightarrow> bytes list \<Rightarrow> app_state \<Rightarrow> app_state" where
  "reply_mask_line label ev conn args s =
     (if 3 \<le> length args then
        let set_info = (if 5 \<le> length args
              then '' (set by '' @ args ! 3 @ '' '' @ format_timestamp ev (args ! 4) @ '')'' else [])
        in emit_active ev conn (''%Z565f89  '' @ label @ '': %Za9b1d6'' @
             format_ban_mask (args ! 2) (extban_prefix_of conn s) @ set_info @ ''%N'') s
      else s)"

definition reply_exceptlist :: "irc_env \<Rightarrow> bytes \<Rightarrow> bytes list \<Rightarrow> app_state \<Rightarrow> app_state" where
  "reply_exceptlist = reply_mask_line ''except''"

definition reply_invitelist :: "irc_env \<Rightarrow> bytes \<Rightarrow> bytes list \<Rightarrow> app_state \<Rightarrow> app_state" where
  "reply_invitelist = reply_mask_line ''invex''"

section \<open>The rest\<close>

definition reply_motd :: "irc_env \<Rightarrow> bytes \<Rightarrow> bytes list \<Rightarrow> app_state \<Rightarrow> app_state" where
  "reply_motd ev conn args s =
     (if 2 \<le> length args then emit_server ev conn (''%Z7aa2f7'' @ last args @ ''%N'') s else s)"

definition motd_start :: bytes where
  "motd_start = ''%Z56b6c2'' @ rule 2 @ '' MOTD '' @ rule 38 @ ''%N''"

definition motd_end :: bytes where
  "motd_end = ''%Z56b6c2'' @ rule 2 @ '' End of MOTD '' @ rule 29 @ ''%N''"

definition reply_nick_in_use :: "irc_env \<Rightarrow> bytes \<Rightarrow> bytes list \<Rightarrow> app_state \<Rightarrow> app_state" where
  "reply_nick_in_use ev conn args s =
     emit_server ev conn (''%Ze0af68Nick '' @ (if 2 \<le> length args then args ! 1 else ''unknown'') @
       '' is already in use%N'') s"

definition reply_erroneous_nick :: "irc_env \<Rightarrow> bytes \<Rightarrow> bytes list \<Rightarrow> app_state \<Rightarrow> app_state" where
  "reply_erroneous_nick ev conn args s =
     emit_server ev conn (''%Zff6b6bErroneous nick '' @ (if 2 \<le> length args then args ! 1 else ''unknown'') @ '': '' @
       (if 3 \<le> length args then args ! 2 else ''Erroneous nickname'') @ ''%N'') s"

definition reply_join_failed :: "irc_env \<Rightarrow> bytes \<Rightarrow> bytes list \<Rightarrow> client \<Rightarrow> client" where
  "reply_join_failed ev conn args c =
     (let channel = (if 2 \<le> length args then args ! 1 else ''?'');
          reason = (if 3 \<le> length args then args ! 2 else ''Cannot join channel'');
          bid = make_buffer_id (iv_lower ev) conn channel;
          c1 = on_state (emit_server ev conn (''%Zff6b6bCannot join '' @ channel @ '': '' @ reason @ ''%N'')) c
      in case map_of (st_buffers (cl_state c1)) bid of
           Some b \<Rightarrow> if bf_users b = [] then remove_buffer_of ev bid c1 else c1
         | None \<Rightarrow> c1)"

definition reply_list :: "irc_env \<Rightarrow> bytes \<Rightarrow> bytes list \<Rightarrow> app_state \<Rightarrow> app_state" where
  "reply_list ev conn args s =
     (if 3 \<le> length args then
        let topic = (if 4 \<le> length args then args ! 3 else []);
            head = ''%Zc0caf5'' @ args ! 1 @ ''%Z565f89 ['' @ args ! 2 @ '' users]%N''
        in emit_active ev conn (if topic = [] then head else head @ '': '' @ topic) s
      else s)"

definition silent_who :: "bytes \<Rightarrow> bytes \<Rightarrow> app_state \<Rightarrow> bool" where
  "silent_who conn channel s =
     (case map_of (st_connections s) conn of
        None \<Rightarrow> False | Some cn \<Rightarrow> contains_case_insensitive (cn_silent_who cn) channel)"

definition reply_who :: "irc_env \<Rightarrow> bytes \<Rightarrow> bytes list \<Rightarrow> app_state \<Rightarrow> app_state" where
  "reply_who ev conn args s =
     (if 8 \<le> length args \<and> \<not> silent_who conn (args ! 1) s then
        emit_active ev conn (''%Zc0caf5'' @ args ! 5 @ ''%Z565f89 ('' @ args ! 2 @ ''@'' @ args ! 3 @ '') ['' @
          args ! 6 @ ''] '' @ args ! 1 @ ''%Za9b1d6 '' @ args ! 7 @ ''%N'') s
      else s)"

text \<open>The target of a batched WHO is a list of channels.\<close>

definition remove_names :: "bytes list \<Rightarrow> bytes list \<Rightarrow> bool \<times> bytes list" where
  "remove_names chs names =
     fold (\<lambda>ch (any, ns). let (hit, ns') = remove_case_insensitive ns ch in (any \<or> hit, ns')) chs (False, names)"

definition end_silent_who :: "bytes \<Rightarrow> bytes \<Rightarrow> app_state \<Rightarrow> bool \<times> app_state" where
  "end_silent_who conn target s =
     (case map_of (st_connections s) conn of
        None \<Rightarrow> (False, s)
      | Some cn \<Rightarrow>
          let (hit, names) = (if CHR '','' \<in> set target then remove_names (split_on (CHR '','') target) (cn_silent_who cn)
                              else remove_case_insensitive (cn_silent_who cn) target)
          in (hit, upd_connection conn (\<lambda>cn. cn\<lparr>cn_silent_who := names\<rparr>) s))"

definition reply_end_of_who :: "irc_env \<Rightarrow> bytes \<Rightarrow> bytes list \<Rightarrow> app_state \<Rightarrow> app_state" where
  "reply_end_of_who ev conn args s =
     (let (was_silent, s1) = end_silent_who conn (unwrap_or [] (nth_opt args 1)) s
      in if was_silent then s1 else emit_active ev conn ''%Z565f89End of WHO list%N'' s1)"

definition reply_whowas :: "irc_env \<Rightarrow> bytes \<Rightarrow> bytes list \<Rightarrow> app_state \<Rightarrow> app_state" where
  "reply_whowas ev conn args s =
     (if 6 \<le> length args then
        emit_active ev conn (''%Zc0caf5'' @ args ! 1 @ ''%Z565f89 was ('' @ args ! 2 @ ''@'' @ args ! 3 @ '')%Za9b1d6 '' @
          args ! 5 @ ''%N'') s
      else s)"

definition reply_other :: "irc_env \<Rightarrow> bytes \<Rightarrow> response \<Rightarrow> bytes list \<Rightarrow> app_state \<Rightarrow> app_state" where
  "reply_other ev conn r args s =
     (let (hit, s1) = (if r \<in> {ERR_CHANOPRIVSNEEDED, ERR_NOSUCHCHANNEL, ERR_NOTONCHANNEL}
             then (case nth_opt args 1 of None \<Rightarrow> (False, s) | Some channel \<Rightarrow> end_silent_banlist conn channel s)
             else (False, s))
      in if hit then s1
         else post ev (if iv_is_error ev r then active_or_server_buffer (iv_lower ev) s1 conn else server_buffer ev s1 conn)
                (event_line (iv_utc ev) None False None None (numeric_text args)) s1)"

fun state_reply :: "irc_env \<Rightarrow> bytes \<Rightarrow> response \<Rightarrow> bytes list \<Rightarrow> app_state \<Rightarrow> app_state" where
  "state_reply ev conn RPL_ISUPPORT args s = reply_isupport ev conn args s"
| "state_reply ev conn RPL_NAMREPLY args s = reply_names ev conn args s"
| "state_reply ev conn RPL_TOPIC args s = reply_topic ev conn args s"
| "state_reply ev conn RPL_TOPICWHOTIME args s = reply_topic_who ev conn args s"
| "state_reply ev conn RPL_CHANNELMODEIS args s = reply_channel_modes ev conn args s"
| "state_reply ev conn RPL_WHOISUSER args s = reply_whois_user ev conn args s"
| "state_reply ev conn RPL_WHOISSERVER args s = reply_whois_server ev conn args s"
| "state_reply ev conn RPL_WHOISOPERATOR args s = reply_whois_operator ev conn args s"
| "state_reply ev conn RPL_WHOISIDLE args s = reply_whois_idle ev conn args s"
| "state_reply ev conn RPL_WHOISCHANNELS args s = reply_whois_channels ev conn args s"
| "state_reply ev conn RPL_WHOISCERTFP args s = reply_whois_certfp ev conn args s"
| "state_reply ev conn RPL_WHOISKEYVALUE args s = reply_whois_keyvalue ev conn args s"
| "state_reply ev conn RPL_ENDOFWHOIS args s = reply_end_of_whois ev conn args s"
| "state_reply ev conn RPL_AWAY args s = reply_whois_away ev conn args s"
| "state_reply ev conn RPL_BANLIST args s = reply_banlist ev conn args s"
| "state_reply ev conn RPL_ENDOFBANLIST args s = reply_end_of_banlist ev conn args s"
| "state_reply ev conn RPL_EXCEPTLIST args s = reply_exceptlist ev conn args s"
| "state_reply ev conn RPL_ENDOFEXCEPTLIST args s = emit_active ev conn ''%Z565f89  End of exception list%N'' s"
| "state_reply ev conn RPL_INVITELIST args s = reply_invitelist ev conn args s"
| "state_reply ev conn RPL_ENDOFINVITELIST args s =
     emit_active ev conn ''%Z565f89  End of invite exception list%N'' s"
| "state_reply ev conn RPL_MOTDSTART args s = emit_server ev conn motd_start s"
| "state_reply ev conn RPL_MOTD args s = reply_motd ev conn args s"
| "state_reply ev conn RPL_ENDOFMOTD args s = emit_server ev conn motd_end s"
| "state_reply ev conn ERR_NICKNAMEINUSE args s = reply_nick_in_use ev conn args s"
| "state_reply ev conn ERR_ERRONEOUSNICKNAME args s = reply_erroneous_nick ev conn args s"
| "state_reply ev conn RPL_NOWAWAY args s = emit_active ev conn ''%Z56b6c2You are now marked as away%N'' s"
| "state_reply ev conn RPL_UNAWAY args s = emit_active ev conn ''%Z56b6c2You are no longer marked as away%N'' s"
| "state_reply ev conn RPL_LIST args s = reply_list ev conn args s"
| "state_reply ev conn RPL_LISTEND args s = emit_active ev conn ''%Z565f89End of channel list%N'' s"
| "state_reply ev conn RPL_WHOREPLY args s = reply_who ev conn args s"
| "state_reply ev conn RPL_ENDOFWHO args s = reply_end_of_who ev conn args s"
| "state_reply ev conn RPL_WHOWASUSER args s = reply_whowas ev conn args s"
| "state_reply ev conn RPL_ENDOFWHOWAS args s = emit_active ev conn ''%Z565f89End of WHOWAS%N'' s"
| "state_reply ev conn RPL_ENDOFNAMES args s = s"
| "state_reply ev conn r args s = reply_other ev conn r args s"

definition join_refusals :: "response list" where
  "join_refusals =
     [ERR_CHANNELISFULL, ERR_INVITEONLYCHAN, ERR_BANNEDFROMCHAN, ERR_BADCHANNELKEY, ERR_TOOMANYCHANNELS]"

definition handle_response :: "irc_env \<Rightarrow> bytes \<Rightarrow> response \<Rightarrow> bytes list \<Rightarrow> client \<Rightarrow> client" where
  "handle_response ev conn r args c =
     (if List.member join_refusals r then reply_join_failed ev conn args c
      else if r = RPL_USERHOST then
        handle_userhost_reply (iv_lower ev) (iv_crypto ev) (iv_utc ev) conn args c
      else on_state (state_reply ev conn r args) c)"

section \<open>WHOX and raw numerics\<close>

definition whox_fields :: bytes where "whox_fields = ''%tcuihnfar''"

definition next_who_token :: "bytes \<Rightarrow> app_state \<Rightarrow> bytes \<times> app_state" where
  "next_who_token conn s =
     (case map_of (st_connections s) conn of
        None \<Rightarrow> (''0'', s)
      | Some cn \<Rightarrow>
          let n = (cn_who_token_counter cn + 1) mod 2 ^ 32
          in (show_nat n, upd_connection conn (\<lambda>cn. cn\<lparr>cn_who_token_counter := n\<rparr>) s))"

definition build_whox_who :: "bytes \<Rightarrow> bytes \<Rightarrow> bool \<Rightarrow> app_state \<Rightarrow> (bytes \<times> bytes) option \<times> app_state" where
  "build_whox_who conn channel silent s =
     (case map_of (st_connections s) conn of
        None \<Rightarrow> (None, s)
      | Some cn \<Rightarrow>
          if has_whox (cn_isupport cn) then
            let (token, s1) = next_who_token conn s;
                s2 = (if silent then upd_connection conn
                        (\<lambda>cn. cn\<lparr>cn_silent_who := insert_once channel (cn_silent_who cn)\<rparr>) s1 else s1)
            in (Some (channel, whox_fields @ '','' @ token), s2)
          else (None, s))"

definition handle_whox_reply :: "irc_env \<Rightarrow> bytes \<Rightarrow> bytes list \<Rightarrow> app_state \<Rightarrow> app_state" where
  "handle_whox_reply ev conn args s =
     (if length args < 10 then s
      else
        let channel = args ! 2; user = args ! 3; host = args ! 5; nick = args ! 6; flags = args ! 7;
            account = (if args ! 8 \<noteq> ''0'' then Some (args ! 8) else None);
            s1 = upd_buffer (make_buffer_id (iv_lower ev) conn channel) (upd_user (iv_lower ev) nick
                   (\<lambda>e. e\<lparr>ne_ident := Some user, ne_host := Some host, ne_account := account,
                          ne_away := starts_with ''G'' flags\<rparr>)) s
        in if silent_who conn channel s then s1
           else emit_active ev conn (''%Zc0caf5'' @ nick @ ''%Z565f89 ('' @ user @ ''@'' @ host @ '') ['' @ flags @ ''] '' @
                  channel @ ''%Za9b1d6 '' @ args ! 9 @ ''%Z565f89 ['' @ unwrap_or [] account @ '']%N'') s1)"

definition reply_creation_time :: "irc_env \<Rightarrow> bytes \<Rightarrow> bytes list \<Rightarrow> app_state \<Rightarrow> app_state" where
  "reply_creation_time ev conn args s =
     (if 3 \<le> length args then
        let channel = args ! 1 in
        if silent_banlist conn channel s then s
        else (case parse_i64_opt (args ! 2) of
                None \<Rightarrow> s
              | Some ts \<Rightarrow>
                  let formatted = iv_local_date ev ''%Y-%m-%d %H:%M:%S'' (unwrap_or (iv_utc ev) (iv_from_timestamp ev ts))
                  in emit_keyed ev (make_buffer_id (iv_lower ev) conn channel) ''channel_created''
                       (''Channel '' @ channel @ '' created '' @ formatted) [channel, formatted] s)
      else s)"

definition handle_raw :: "irc_env \<Rightarrow> bytes \<Rightarrow> bytes \<Rightarrow> bytes list \<Rightarrow> app_state \<Rightarrow> app_state" where
  "handle_raw ev conn cmd args s =
     (if cmd = ''329'' then reply_creation_time ev conn args s
      else if cmd = ''354'' then handle_whox_reply ev conn args s
      else if cmd = ''330'' then handle_whois_account ev conn args s
      else if cmd = ''671'' then handle_whois_secure ev conn args s
      else if length cmd = 3 \<and> list_all is_ascii_digit cmd then
        emit_active ev conn (numeric_text args) s
      else s)"

end
