(* ===== verification/Irc_Dispatch.thy ===== *)
theory Irc_Dispatch
  imports Irc_Chat Irc_Numerics
begin

text \<open>
  \<open>src/src/irc/events.rs\<close>: the dispatcher of incoming messages and the events
  of a connection (up, down, capabilities at run time);
  \<open>src/src/irc/batch.rs\<close>: IRCv3 batches.  \<open>None\<close> is a panic of a handler.
\<close>

section \<open>Connections\<close>

definition handle_connected :: "irc_env \<Rightarrow> bytes \<Rightarrow> app_state \<Rightarrow> app_state" where
  "handle_connected ev conn s =
     (let s1 = upd_connection conn (\<lambda>cn. cn\<lparr>cn_reconnect_attempts := 0, cn_next_reconnect := None, cn_error := None,
                 cn_isupport := isupport_new, cn_silent_who := [], cn_silent_banlist := []\<rparr>)
                 (update_connection_status conn Connected s)
      in status_line ev (status_buffer ev s1 conn) ''connected'' (''Connected to '' @ connection_label s1 conn) s1)"

definition is_channel_of :: "bytes \<Rightarrow> buffer \<Rightarrow> bool" where
  "is_channel_of conn b \<longleftrightarrow> bf_connection_id b = conn \<and> bf_type b = Channel"

definition channels_to_rejoin :: "app_state \<Rightarrow> bytes \<Rightarrow> bytes list" where
  "channels_to_rejoin s conn =
     (let open_channels = map bf_name (filter (is_channel_of conn) (map snd (st_buffers s)))
      in case map_of (st_connections s) conn of
           None \<Rightarrow> open_channels
         | Some cn \<Rightarrow> fold (\<lambda>ch chs. if List.member chs ch then chs else chs @ [ch]) (cn_joined_channels cn) open_channels)"

text \<open>
  Saturating arithmetic on \<open>u64\<close>; the counter of attempts is a \<open>u32\<close>.
\<close>

definition saturating_mul :: "nat \<Rightarrow> nat \<Rightarrow> nat" where
  "saturating_mul a b = min (a * b) (2 ^ 64 - 1)"

definition saturating_pow2 :: "nat \<Rightarrow> nat" where
  "saturating_pow2 n = min (2 ^ n) (2 ^ 64 - 1)"

definition calculate_reconnect_delay :: "nat \<Rightarrow> nat \<Rightarrow> nat" where
  "calculate_reconnect_delay base_delay attempts =
     (if 10 \<le> attempts then 600 else min (saturating_mul base_delay (saturating_pow2 attempts)) 300)"

definition disconnect_channels :: "bytes \<Rightarrow> app_state \<Rightarrow> app_state" where
  "disconnect_channels conn = map_buffers (\<lambda>b. if is_channel_of conn b then b\<lparr>bf_users := [], bf_last_speakers := []\<rparr> else b)"

definition plan_reconnect :: "irc_env \<Rightarrow> bytes list \<Rightarrow> connection \<Rightarrow> connection" where
  "plan_reconnect ev current cn =
     (let cn1 = (if current \<noteq> [] then cn\<lparr>cn_joined_channels := current\<rparr> else cn)
      in if cn_should_reconnect cn1 then
           cn1\<lparr>cn_next_reconnect := Some (iv_now ev +
             secs (calculate_reconnect_delay (cn_reconnect_delay_secs cn1) (cn_reconnect_attempts cn1)))\<rparr>
         else cn1)"

definition reconnect_text :: "bytes \<Rightarrow> app_state \<Rightarrow> bytes" where
  "reconnect_text conn s =
     (case map_of (st_connections s) conn of
        None \<Rightarrow> []
      | Some cn \<Rightarrow>
          if cn_should_reconnect cn then
            '' '' @ em_dash @ '' reconnecting in '' @
            show_nat (calculate_reconnect_delay (cn_reconnect_delay_secs cn) (cn_reconnect_attempts cn)) @ ''s''
          else [])"

definition handle_disconnected :: "irc_env \<Rightarrow> bytes \<Rightarrow> bytes option \<Rightarrow> app_state \<Rightarrow> app_state" where
  "handle_disconnected ev conn error s =
     (let current = map bf_name (filter (is_channel_of conn) (map snd (st_buffers s)));
          s1 = disconnect_channels conn s;
          s2 = (case error of
                  Some err \<Rightarrow> upd_connection conn (\<lambda>cn. cn\<lparr>cn_status := ConnError, cn_error := Some err\<rparr>) s1
                | None \<Rightarrow> update_connection_status conn Disconnected s1);
          s3 = upd_connection conn (plan_reconnect ev current) s2;
          label = connection_label s3 conn
      in status_line ev (status_buffer ev s3 conn) ''disconnected''
           (''Disconnected from '' @ label @ (case error of None \<Rightarrow> [] | Some e \<Rightarrow> '': '' @ e) @ reconnect_text conn s3) s3)"

section \<open>Capabilities at run time\<close>

definition extract_cap_string :: "bytes option \<Rightarrow> bytes option \<Rightarrow> bytes" where
  "extract_cap_string field3 field4 =
     (if field3 = Some ''*'' then unwrap_or [] field4
      else (case field4 of
              Some s \<Rightarrow> if s \<noteq> [] then s else unwrap_or [] field3
            | None \<Rightarrow> unwrap_or [] field3))"

definition cap_names :: "bytes \<Rightarrow> bytes list" where
  "cap_names s = map (\<lambda>t. ascii_lower (case split_once (CHR ''='') t of None \<Rightarrow> t | Some (name, _) \<Rightarrow> name)) (split_whitespace s)"

definition acked_names :: "bytes \<Rightarrow> bytes list" where
  "acked_names s = map ascii_lower (split_whitespace s)"

definition enabled_caps :: "bytes \<Rightarrow> app_state \<Rightarrow> bytes list option" where
  "enabled_caps conn s = map_option cn_enabled_caps (map_of (st_connections s) conn)"

definition caps_to_request :: "bytes \<Rightarrow> bytes list \<Rightarrow> app_state \<Rightarrow> bytes list" where
  "caps_to_request conn new_caps s =
     filter (\<lambda>cap. list_ex (\<lambda>d. eq_ignore_ascii_case d cap) desired_caps \<and>
                   (case enabled_caps conn s of None \<Rightarrow> True | Some en \<Rightarrow> \<not> List.member en cap)) new_caps"

definition handle_cap_new ::
  "irc_env \<Rightarrow> bytes \<Rightarrow> bytes option \<Rightarrow> bytes option \<Rightarrow> app_state \<Rightarrow> bytes list \<times> app_state" where
  "handle_cap_new ev conn field3 field4 s =
     (let new_caps = cap_names (extract_cap_string field3 field4);
          wanted = caps_to_request conn new_caps s;
          body = ''New capabilities available: '' @ join_str '', '' new_caps @
            (if wanted = [] then '' (none requested)'' else '' '' @ em_dash @ '' requesting: '' @ join_str '', '' wanted)
      in (wanted, status_line ev (status_buffer ev s conn) ''cap_new'' body s))"

text \<open>The names that were in the set, in the order of the message, and the set without them.\<close>

fun remove_caps :: "bytes list \<Rightarrow> bytes list \<Rightarrow> bytes list \<times> bytes list" where
  "remove_caps [] enabled = ([], enabled)"
| "remove_caps (cap # caps) enabled =
     (if List.member enabled cap then
        let (gone, left) = remove_caps caps (filter (\<lambda>e. e \<noteq> cap) enabled) in (cap # gone, left)
      else remove_caps caps enabled)"

definition handle_cap_del ::
  "irc_env \<Rightarrow> bytes \<Rightarrow> bytes option \<Rightarrow> bytes option \<Rightarrow> app_state \<Rightarrow> app_state" where
  "handle_cap_del ev conn field3 field4 s =
     (let removed = cap_names (extract_cap_string field3 field4);
          gone = (case enabled_caps conn s of None \<Rightarrow> [] | Some en \<Rightarrow> fst (remove_caps removed en));
          s1 = upd_connection conn (\<lambda>cn. cn\<lparr>cn_enabled_caps := snd (remove_caps removed (cn_enabled_caps cn))\<rparr>) s;
          body = (if gone = [] then ''Capabilities removed: '' @ join_str '', '' removed @ '' (none were enabled)''
                  else ''Capabilities removed: '' @ join_str '', '' gone)
      in status_line ev (status_buffer ev s1 conn) ''cap_del'' body s1)"

definition handle_cap_ack ::
  "irc_env \<Rightarrow> bytes \<Rightarrow> bytes option \<Rightarrow> bytes option \<Rightarrow> app_state \<Rightarrow> app_state" where
  "handle_cap_ack ev conn field3 field4 s =
     (let acked = acked_names (extract_cap_string field3 field4);
          s1 = upd_connection conn (\<lambda>cn. cn\<lparr>cn_enabled_caps := fold insert_once acked (cn_enabled_caps cn)\<rparr>) s
      in status_line ev (status_buffer ev s1 conn) ''cap_ack''
           (''Capabilities acknowledged: '' @ join_str '', '' acked) s1)"

definition handle_cap_nak ::
  "irc_env \<Rightarrow> bytes \<Rightarrow> bytes option \<Rightarrow> bytes option \<Rightarrow> app_state \<Rightarrow> app_state" where
  "handle_cap_nak ev conn field3 field4 s =
     status_line ev (status_buffer ev s conn) ''cap_nak''
       (''Capabilities rejected: '' @ join_str '', '' (acked_names (extract_cap_string field3 field4))) s"

section \<open>The dispatcher\<close>

definition handle_irc_message :: "irc_env \<Rightarrow> bytes \<Rightarrow> irc_message \<Rightarrow> client \<Rightarrow> client option" where
  "handle_irc_message ev conn msg c =
     (let our_nick = connection_nick (cl_state c) conn; tgs = extract_tags msg; pfx = im_prefix msg in
      case im_command msg of
        PRIVMSG target body \<Rightarrow> handle_privmsg ev conn our_nick pfx target body tgs c
      | NOTICE target body \<Rightarrow> Some (handle_notice ev conn pfx target body tgs c)
      | JOIN channel account realname \<Rightarrow> Some (handle_join_irc ev conn our_nick pfx channel account realname tgs c)
      | PART channel reason \<Rightarrow> Some (handle_part ev conn our_nick pfx channel reason tgs c)
      | QUIT reason \<Rightarrow> Some (handle_quit_irc ev conn pfx reason tgs c)
      | NICK new_nick \<Rightarrow> Some (handle_nick_change ev conn our_nick pfx new_nick tgs c)
      | KICK channel kicked reason \<Rightarrow> Some (handle_kick ev conn our_nick pfx channel kicked reason tgs c)
      | TOPIC channel topic \<Rightarrow> Some (on_state (handle_topic ev conn pfx channel topic tgs) c)
      | ChannelMODE target modes \<Rightarrow> Some (on_state (handle_mode ev conn pfx target (im_command msg) tgs) c)
      | UserMODE target modes \<Rightarrow> Some (on_state (handle_mode ev conn pfx target (im_command msg) tgs) c)
      | INVITE nick channel \<Rightarrow> Some (on_state (handle_invite ev conn our_nick pfx nick channel tgs) c)
      | Response r args \<Rightarrow> Some (handle_response ev conn r args c)
      | WALLOPS body \<Rightarrow> Some (on_state (handle_wallops ev conn pfx body) c)
      | ACCOUNT account \<Rightarrow> Some (on_state (handle_account ev conn pfx account tgs) c)
      | AWAY reason \<Rightarrow> Some (on_state (handle_away ev conn pfx reason) c)
      | CHGHOST new_user new_host \<Rightarrow> Some (on_state (handle_chghost ev conn pfx new_user new_host tgs) c)
      | ERROR body \<Rightarrow> Some (on_state (handle_error ev conn body) c)
      | Raw cmd args \<Rightarrow> Some (on_state (handle_raw ev conn cmd args) c)
      | OtherCommand \<Rightarrow> Some c)"

text \<open>Messages one after the other, until one panics.\<close>

fun replay :: "irc_env \<Rightarrow> bytes \<Rightarrow> irc_message list \<Rightarrow> client \<Rightarrow> client option" where
  "replay ev conn [] c = Some c"
| "replay ev conn (m # ms) c =
     (case handle_irc_message ev conn m c of None \<Rightarrow> None | Some c1 \<Rightarrow> replay ev conn ms c1)"

section \<open>Batches\<close>

definition batch_timeout :: nat where "batch_timeout = secs 60"
definition max_batch_messages :: nat where "max_batch_messages = 4096"

record batch_info =
  bi_type :: bytes
  bi_params :: "bytes list"
  bi_messages :: "irc_message list"
  bi_dropped :: nat
  bi_started_at :: instant

type_synonym batch_tracker = "(bytes, batch_info) table"

definition start_batch ::
  "(bytes \<Rightarrow> bytes) \<Rightarrow> instant \<Rightarrow> bytes \<Rightarrow> bytes \<Rightarrow> bytes list \<Rightarrow> batch_tracker \<Rightarrow> batch_tracker" where
  "start_batch upper now ref_tag batch_type params t =
     AList.update ref_tag \<lparr>bi_type = upper batch_type, bi_params = params, bi_messages = [], bi_dropped = 0,
       bi_started_at = now\<rparr> t"

definition batch_expired :: "instant \<Rightarrow> batch_info \<Rightarrow> bool" where
  "batch_expired now i \<longleftrightarrow> batch_timeout \<le> duration_since now (bi_started_at i)"

definition purge_expired :: "instant \<Rightarrow> batch_tracker \<Rightarrow> batch_info list \<times> batch_tracker" where
  "purge_expired now t =
     (map snd (filter (\<lambda>(_, i). batch_expired now i) t), filter (\<lambda>(_, i). \<not> batch_expired now i) t)"

definition get_batch_tag :: "irc_message \<Rightarrow> bytes option" where
  "get_batch_tag m =
     (case im_tags m of
        None \<Rightarrow> None
      | Some ts \<Rightarrow> (case find (\<lambda>(k, _). k = ''batch'') ts of None \<Rightarrow> None | Some (_, v) \<Rightarrow> v))"

definition is_batched :: "irc_message \<Rightarrow> batch_tracker \<Rightarrow> bool" where
  "is_batched m t = (case get_batch_tag m of None \<Rightarrow> False | Some tg \<Rightarrow> map_of t tg \<noteq> None)"

definition batch_add_message :: "irc_message \<Rightarrow> batch_tracker \<Rightarrow> bool \<times> batch_tracker" where
  "batch_add_message m t =
     (case get_batch_tag m of
        None \<Rightarrow> (False, t)
      | Some tg \<Rightarrow>
          (case map_of t tg of
             None \<Rightarrow> (False, t)
           | Some i \<Rightarrow>
               (True, AList.update tg
                  (if max_batch_messages \<le> length (bi_messages i) then i\<lparr>bi_dropped := bi_dropped i + 1\<rparr>
                   else i\<lparr>bi_messages := bi_messages i @ [m]\<rparr>) t)))"

definition end_batch :: "bytes \<Rightarrow> batch_tracker \<Rightarrow> batch_info option \<times> batch_tracker" where
  "end_batch ref_tag t = (map_of t ref_tag, AList.delete ref_tag t)"

text \<open>
  The state of a NETSPLIT batch: the nicks in order, the buffers they left, and
  the client state.  The order of the affected buffers, a \<open>HashMap\<close>'s, is the
  table's.
\<close>

definition split_one ::
  "(bytes \<Rightarrow> bytes) \<Rightarrow> bytes \<Rightarrow> irc_message \<Rightarrow> bytes list \<times> (bytes, bytes list) table \<times> app_state \<Rightarrow>
   bytes list \<times> (bytes, bytes list) table \<times> app_state" where
  "split_one lower conn m acc =
     (case acc of (nicks, affected, s) \<Rightarrow>
        (case (im_command m, extract_nick (im_prefix m)) of
           (QUIT _, Some nick) \<Rightarrow>
             let shared = buffers_where (on_connection_with lower conn nick) s
             in (insert_once nick nicks,
                 fold (\<lambda>bid t. AList.update bid (unwrap_or [] (map_of t bid) @ [nick]) t) shared affected,
                 fold (\<lambda>bid. remove_nick lower bid (lower nick)) shared s)
         | _ \<Rightarrow> acc))"

definition batch_server :: "nat \<Rightarrow> batch_info \<Rightarrow> bytes" where
  "batch_server i b = unwrap_or ''???'' (nth_opt (bi_params b) i)"

definition process_netsplit_batch :: "irc_env \<Rightarrow> bytes \<Rightarrow> batch_info \<Rightarrow> app_state \<Rightarrow> app_state" where
  "process_netsplit_batch ev conn b s =
     (let (nicks, affected, s1) = fold (split_one (iv_lower ev) conn) (bi_messages b) ([], [], s);
          server1 = batch_server 0 b; server2 = batch_server 1 b
      in if nicks = [] then s1
         else post_all ev (map fst affected)
           (event_line (iv_utc ev) None False (Some ''netsplit'') (Some [server1, server2])
             (''Netsplit '' @ server1 @ '' '' @ swap_arrow @ '' '' @ server2 @ '' quits: '' @ format_nick_list nicks)) s1)"

definition netjoin_one ::
  "(bytes \<Rightarrow> bytes) \<Rightarrow> bytes \<Rightarrow> irc_message \<Rightarrow> bytes list \<times> bytes list \<times> app_state \<Rightarrow>
   bytes list \<times> bytes list \<times> app_state" where
  "netjoin_one lower conn m acc =
     (case acc of (nicks, affected, s) \<Rightarrow>
        (case im_command m of
           JOIN channel account _ \<Rightarrow>
             let (nick, _, _) = extract_nick_userhost (im_prefix m); bid = make_buffer_id lower conn channel;
                 acct = (case account of Some a \<Rightarrow> if a = ''*'' then None else Some a | None \<Rightarrow> None)
             in (insert_once nick nicks, insert_once bid affected, add_nick lower bid (fresh_entry nick acct) s)
         | _ \<Rightarrow> acc))"

definition process_netjoin_batch :: "irc_env \<Rightarrow> bytes \<Rightarrow> batch_info \<Rightarrow> app_state \<Rightarrow> app_state" where
  "process_netjoin_batch ev conn b s =
     (let (nicks, affected, s1) = fold (netjoin_one (iv_lower ev) conn) (bi_messages b) ([], [], s);
          server1 = batch_server 0 b; server2 = batch_server 1 b
      in if nicks = [] then s1
         else post_all ev affected
           (event_line (iv_utc ev) None False (Some ''netjoin'') (Some [server1, server2])
             (''Netsplit over '' @ server1 @ '' '' @ swap_arrow @ '' '' @ server2 @ '' joins: '' @ format_nick_list nicks)) s1)"

definition process_completed_batch :: "irc_env \<Rightarrow> bytes \<Rightarrow> batch_info \<Rightarrow> client \<Rightarrow> client option" where
  "process_completed_batch ev conn b c =
     (if bi_type b = ''NETSPLIT'' then Some (on_state (process_netsplit_batch ev conn b) c)
      else if bi_type b = ''NETJOIN'' then Some (on_state (process_netjoin_batch ev conn b) c)
      else replay ev conn (bi_messages b) c)"

definition has_batch_cap :: "app_state \<Rightarrow> bytes \<Rightarrow> bool" where
  "has_batch_cap s conn = (case enabled_caps conn s of None \<Rightarrow> False | Some en \<Rightarrow> List.member en ''batch'')"

end
