(* ===== verification/Irc_View.thy ===== *)
theory Irc_View
  imports Irc_Dispatch
begin

text \<open>
  What the handlers of \<open>src/src/irc/events.rs\<close> do to the structure of the
  state: connection, kind, name, users and mode lists of every buffer.  Showing
  lines, marking activity and talking to web clients leave it alone, so a
  handler's effect on the structure is read off its few structural steps.
\<close>

declare map_of_eq_Some_iff [simp del]

section \<open>The structural view\<close>

record frame =
  fr_connection :: bytes
  fr_type :: buffer_type
  fr_name :: bytes
  fr_users :: "(bytes, nick_entry) table"
  fr_lists :: "(bytes, list_entry list) table"

definition frame_of :: "buffer \<Rightarrow> frame" where
  "frame_of b = \<lparr>fr_connection = bf_connection_id b, fr_type = bf_type b, fr_name = bf_name b,
     fr_users = bf_users b, fr_lists = bf_list_modes b\<rparr>"

lemma frame_of_simps [simp]:
  "fr_connection (frame_of b) = bf_connection_id b" "fr_type (frame_of b) = bf_type b"
  "fr_name (frame_of b) = bf_name b" "fr_users (frame_of b) = bf_users b" "fr_lists (frame_of b) = bf_list_modes b"
  by (simp_all add: frame_of_def)

definition view :: "app_state \<Rightarrow> bytes \<Rightarrow> frame option" where
  "view s k = map_option frame_of (map_of (st_buffers s) k)"

lemma view_cong: "st_buffers s' = st_buffers s \<Longrightarrow> view s' = view s"
  by (simp add: view_def fun_eq_iff)

lemma view_None_iff: "view s k = None \<longleftrightarrow> map_of (st_buffers s) k = None"
  by (simp add: view_def)

lemma view_Some: "view s k = Some fr \<longleftrightarrow> (\<exists>b. map_of (st_buffers s) k = Some b \<and> fr = frame_of b)"
  by (auto simp: view_def)

section \<open>Steps that do not touch it\<close>

text \<open>The rules of this collection compute the view after a step.\<close>

named_theorems view_step "the structural view after a step of the state"

lemma upd_buffer_view:
  "view (upd_buffer k f s) = (case map_of (st_buffers s) k of None \<Rightarrow> view s | Some b \<Rightarrow> (view s)(k \<mapsto> frame_of (f b)))"
  by (auto simp: view_def upd_buffer_def fun_eq_iff update_conv' split: option.split)

lemma upd_buffer_keeps_view:
  "(\<And>b. frame_of (f b) = frame_of b) \<Longrightarrow> view (upd_buffer k f s) = view s"
  by (auto simp: upd_buffer_view view_def fun_eq_iff split: option.split)

lemma push_web_view [view_step]: "view (push_web e s) = view s"
  by (rule view_cong) (simp add: push_web_def)

lemma state_updates_view [view_step]:
  "view (s\<lparr>st_active := a\<rparr>) = view s" "view (s\<lparr>st_previous := p\<rparr>) = view s"
  "view (s\<lparr>st_message_counter := n\<rparr>) = view s" "view (s\<lparr>st_connections := cs\<rparr>) = view s"
  "view (s\<lparr>st_web_events := w\<rparr>) = view s"
  by (rule view_cong, simp)+

lemma upd_connection_view [view_step]: "view (upd_connection conn f s) = view s"
  by (rule view_cong) (simp add: upd_connection_def split: option.split)

lemma update_connection_status_view [view_step]: "view (update_connection_status conn st s) = view s"
  by (rule view_cong) (simp add: update_connection_status_def split: option.split)

lemma next_message_id_view [view_step]: "view (snd (next_message_id s)) = view s"
  by (rule view_cong) (simp add: next_message_id_def Let_def)

lemma frame_of_cong:
  "bf_connection_id b' = bf_connection_id b \<Longrightarrow> bf_type b' = bf_type b \<Longrightarrow> bf_name b' = bf_name b \<Longrightarrow>
   bf_users b' = bf_users b \<Longrightarrow> bf_list_modes b' = bf_list_modes b \<Longrightarrow> frame_of b' = frame_of b"
  by (simp add: frame_of_def)

lemma push_message_frame: "frame_of (push_message lower limit m b) = frame_of b"
  by (rule frame_of_cong) (simp_all add: push_message_def track_speaker_def touch_speaker_def enforce_scrollback_def
      Let_def split: option.split)

lemma alert_web_view [view_step]: "view (alert_web k m s) = view s"
  by (rule view_cong) simp

lemma add_message_view [view_step]: "view (add_message lower k m s) = view s"
  by (simp add: add_message_def add_message_unshrunk_def upd_buffer_keeps_view push_message_frame alert_web_view)

lemma put_same_frame:
  assumes "map_of (st_buffers s) k = Some b" "frame_of b' = frame_of b" "st_buffers t = st_buffers s"
  shows "view (t\<lparr>st_buffers := AList.update k b' (st_buffers s)\<rparr>) = view s"
  using assms by (auto simp: view_def fun_eq_iff update_conv')

lemma add_message_with_activity_view [view_step]:
  "view (add_message_with_activity_unshrunk lower k m l s) = view s"
proof (cases "map_of (st_buffers s) k")
  case (Some b)
  have fr: "frame_of (b'\<lparr>bf_activity := a, bf_unread_count := n\<rparr>) = frame_of b'" for b' :: buffer and a n
    by (simp add: frame_of_def)
  note put = put_same_frame [OF Some, where t = "alert_web k m s", simplified]
  show ?thesis by (simp add: add_message_with_activity_unshrunk_def Some Let_def push_web_view put fr push_message_frame)
qed (simp add: add_message_with_activity_unshrunk_def)

lemma add_mention_view [view_step]: "view (add_mention_to_buffer m s) = view s"
proof (cases "map_of (st_buffers s) mentions_id")
  case (Some b)
  have fr: "frame_of (b\<lparr>bf_messages := ms\<rparr>) = frame_of b"
    "frame_of (b\<lparr>bf_messages := ms, bf_activity := a, bf_unread_count := n\<rparr>) = frame_of b" for ms a n
    by (simp_all add: frame_of_def)
  have st: "st_buffers (push_web e s) = st_buffers s" for e by (simp add: push_web_def)
  note put = put_same_frame [OF Some, where t = "push_web e s" for e, simplified st]
  show ?thesis by (simp add: add_mention_to_buffer_def Some Let_def push_web_view put fr st)
qed (simp add: add_mention_to_buffer_def)

lemma set_active_view [view_step]: "view (set_active_buffer k s) = view s"
proof -
  have "view (upd_buffer k (\<lambda>b. b\<lparr>bf_activity := NoActivity, bf_unread_count := 0\<rparr>) t) = view t" for t
    by (rule upd_buffer_keeps_view) (simp add: frame_of_def)
  then show ?thesis by (simp add: set_active_buffer_def Let_def push_web_view state_updates_view)
qed

lemma post_view [view_step]: "view (post ev bid mk s) = view s"
  using next_message_id_view [of s] by (simp add: post_def add_message_view case_prod_beta)

lemma lines_view [view_step]:
  "view (emit ev bid body s) = view s" "view (emit_keyed ev bid key body params s) = view s"
  "view (status_line ev bid key body s) = view s" "view (join_line ev bid nick ident host ch acc rn tgs s) = view s"
  "view (mode_line ev bid nick display target tgs s) = view s"
  "view (emit_active ev conn body s) = view s" "view (emit_server ev conn body s) = view s"
  "view (emit_whois ev conn key body params s) = view s"
  by (simp_all add: emit_def emit_keyed_def status_line_def join_line_def mode_line_def emit_active_def
      emit_server_def emit_whois_def Let_def post_view)

lemma fold_view: "(\<And>x s. view (f x s) = view s) \<Longrightarrow> view (fold f xs s) = view s"
  by (induction xs arbitrary: s) simp_all

lemma post_all_view [view_step]: "view (post_all ev bids mk s) = view s"
  by (simp add: post_all_def fold_view post_view)

lemma forget_silent_view [view_step]: "view (forget_silent conn channel s) = view s"
  by (simp add: forget_silent_def upd_connection_view)

lemma rename_own_view [view_step]: "view (rename_own conn n s) = view s"
  by (simp add: rename_own_def view_step split: option.split)

lemma deliver_view [view_step]: "view (deliver ev conn our t bid target nick body shown is_own tgs s) = view s"
  using next_message_id_view
  by (simp add: deliver_def push_mention_def Let_def view_step case_prod_beta)

lemma event_view: "view (emit_event lower now target h key params body s) = view s"
  using next_message_id_view [of s] by (simp add: emit_event_def add_message_view case_prod_beta)

section \<open>Steps that do\<close>

lemma add_buffer_view [view_step]: "view (add_buffer b s) = (view s)(bf_id b \<mapsto> frame_of b)"
  by (simp add: view_def add_buffer_def push_web_def fun_eq_iff update_conv')

lemma close_buffer_view [view_step]: "view (close_buffer lower k s) = (view s)(k := None)"
  by (auto simp: view_def close_buffer_def push_web_def fun_eq_iff delete_conv' Let_def split: option.split)

lemma map_buffers_view: "view (map_buffers f s) k = map_option (frame_of \<circ> f) (map_of (st_buffers s) k)"
  by (simp add: view_def map_buffers_def map_of_map_values option.map_comp)

definition on_users :: "((bytes, nick_entry) table \<Rightarrow> (bytes, nick_entry) table) \<Rightarrow> frame \<Rightarrow> frame" where
  "on_users f fr = fr\<lparr>fr_users := f (fr_users fr)\<rparr>"

lemma on_users_simps [simp]:
  "fr_connection (on_users f fr) = fr_connection fr" "fr_type (on_users f fr) = fr_type fr"
  "fr_name (on_users f fr) = fr_name fr" "fr_users (on_users f fr) = f (fr_users fr)"
  "fr_lists (on_users f fr) = fr_lists fr"
  by (simp_all add: on_users_def)

lemma users_upd_view:
  assumes "\<And>b. frame_of (f b) = on_users g (frame_of b)"
  shows "view (upd_buffer k f s) = (view s)(k := map_option (on_users g) (view s k))"
  using assms by (auto simp: upd_buffer_view view_def fun_eq_iff split: option.split)

lemma users_frame: "frame_of (b\<lparr>bf_users := us\<rparr>) = on_users (\<lambda>_. us) (frame_of b)"
  by (simp add: frame_of_def on_users_def)

lemma on_users_const: "on_users (\<lambda>_. f (bf_users b)) (frame_of b) = on_users f (frame_of b)"
  by (simp add: frame_of_def on_users_def)

lemma add_nick_view [view_step]:
  "view (add_nick lower k e s) = (view s)(k := map_option (on_users (AList.update (lower (ne_nick e)) e)) (view s k))"
  unfolding add_nick_def by (rule users_upd_view) (simp add: users_frame on_users_const [of "AList.update _ _"])

lemma remove_nick_view [view_step]:
  "view (remove_nick lower k nick s) = (view s)(k := map_option (on_users (AList.delete (lower nick))) (view s k))"
  unfolding remove_nick_def by (rule users_upd_view) (simp add: users_frame on_users_const [of "AList.delete _"])

definition rename_entry :: "(bytes \<Rightarrow> bytes) \<Rightarrow> bytes \<Rightarrow> bytes \<Rightarrow> (bytes, nick_entry) table \<Rightarrow> (bytes, nick_entry) table" where
  "rename_entry lower old_nick new_nick t =
     (case map_of t (lower old_nick) of
        None \<Rightarrow> t
      | Some e \<Rightarrow> AList.update (lower new_nick) (e\<lparr>ne_nick := new_nick\<rparr>) (AList.delete (lower old_nick) t))"

lemma update_nick_view [view_step]:
  "view (update_nick lower k old_nick new_nick s) =
     (view s)(k := map_option (on_users (rename_entry lower old_nick new_nick)) (view s k))"
  unfolding update_nick_def
  by (rule users_upd_view) (auto simp: rename_user_def rename_entry_def frame_of_def on_users_def split: option.split)

definition change_entry :: "bytes \<Rightarrow> (nick_entry \<Rightarrow> nick_entry) \<Rightarrow> (bytes, nick_entry) table \<Rightarrow> (bytes, nick_entry) table" where
  "change_entry key f t = (case map_of t key of None \<Rightarrow> t | Some e \<Rightarrow> AList.update key (f e) t)"

lemma upd_user_frame: "frame_of (upd_user lower nick f b) = on_users (change_entry (lower nick) f) (frame_of b)"
  by (auto simp: upd_user_def change_entry_def frame_of_def on_users_def split: option.split)

lemma upd_user_everywhere_view [view_step]:
  "view (upd_user_everywhere lower conn nick f s) k =
     map_option (\<lambda>fr. if fr_connection fr = conn then on_users (change_entry (lower nick) f) fr else fr) (view s k)"
  unfolding upd_user_everywhere_def map_buffers_view
  by (cases "map_of (st_buffers s) k") (simp_all add: view_def upd_user_frame)

section \<open>The E2E layer\<close>

lemma on_state_simps [simp]:
  "cl_state (on_state f c) = f (cl_state c)" "cl_manager (on_state f c) = cl_manager c"
  "cl_ignores (on_state f c) = cl_ignores c" "cl_netsplit (on_state f c) = cl_netsplit c"
  "cl_flood (on_state f c) = cl_flood c" "cl_flood_protection (on_state f c) = cl_flood_protection c"
  "cl_flood_exemptions (on_state f c) = cl_flood_exemptions c"
  by (simp_all add: on_state_def)

lemma notice_views:
  "view (show_trust_notice lower cr now conn n s) = view s" "view (show_accept_request lower now conn r s) = view s"
  by (simp_all add: show_trust_notice_def show_accept_request_def event_view split: option.split)

lemma push_send_fold [simp]: "cl_state (fold (\<lambda>x. push_send conn (f x) (g x)) xs c) = cl_state c"
  by (induction xs arbitrary: c) simp_all

lemma reciprocals_state [simp]: "cl_state (send_reciprocals cr conn nick m c) = cl_state c"
  by (simp add: send_reciprocals_def drains)

lemma receive_views:
  "view (cl_state (receive_keyreq lc lower cr now conn nick handle req m c)) = view (cl_state c)"
  "view (cl_state (receive_keyrsp lower cr now conn handle rsp m c)) = view (cl_state c)"
  "view (cl_state (receive_rekey lower cr now conn handle rk m c)) = view (cl_state c)"
  by (auto simp: receive_defs fold_view notice_views case_prod_beta split: sum.split option.split)

lemma dispatch_view [view_step]:
  "view (cl_state (snd (try_dispatch_rpe2e_ctcp lc lower cr now conn pfx body c))) = view (cl_state c)"
  by (simp add: try_dispatch_rpe2e_ctcp_def receive_views Let_def case_prod_beta
      split: sum.split option.split handshake_msg.split)

lemma request_key_state [simp]: "cl_state (request_key cr conn nick handle ch m c) = cl_state c"
  by (simp add: request_key_def split: prod.split sum.split bool.split)

lemma decrypt_state [simp]:
  "cl_state (snd (try_decrypt_e2e cr conn nick handle channel body own c)) = cl_state c"
  by (simp add: try_decrypt_e2e_def split: option.split prod.split sum.split decrypt_outcome.split)

lemma complete_forget_view: "view (cl_state (complete_forget lower cr now handle r c)) = view (cl_state c)"
  by (simp add: complete_forget_def emit_e2e_message_def event_view Let_def split: option.split prod.split sum.split)

lemma userhost_view [view_step]:
  "view (cl_state (handle_userhost_reply lower cr now conn args c)) = view (cl_state c)"
proof -
  have forgets: "view (cl_state (fold (complete_forget lower cr now handle) rs c)) = view (cl_state c)" for handle rs c
    by (induction rs arbitrary: c) (simp_all add: complete_forget_view)
  have entry: "view (cl_state (userhost_entry lower cr now conn e c)) = view (cl_state c)" for e c
    by (simp add: userhost_entry_def forgets split: option.split prod.split)
  have "view (cl_state (fold (userhost_entry lower cr now conn) es c)) = view (cl_state c)" for es c
    by (induction es arbitrary: c) (simp_all add: entry)
  then show ?thesis by (simp add: handle_userhost_reply_def)
qed

end
