(* ===== verification/Irc_Invariant.thy ===== *)
theory Irc_Invariant
  imports Irc_View
begin

text \<open>
  What every handler of \<open>src/src/irc/events.rs\<close> keeps, whatever the server
  sends: the invariant of the interface state (\<open>state_ok\<close>), nick lists keyed by
  the lower-cased nick without repetitions, ban lists of at most 500 entries,
  and the mentions buffer as the only one under its id.
\<close>

section \<open>The invariant\<close>

definition frame_ok :: "(bytes \<Rightarrow> bytes) \<Rightarrow> bytes \<Rightarrow> frame \<Rightarrow> bool" where
  "frame_ok lower k fr \<longleftrightarrow>
     distinct (map fst (fr_users fr)) \<and>
     (\<forall>x e. map_of (fr_users fr) x = Some e \<longrightarrow> x = lower (ne_nick e)) \<and>
     (\<forall>key es. map_of (fr_lists fr) key = Some es \<longrightarrow> length es \<le> max_list_mode_entries) \<and>
     (k = mentions_id \<longrightarrow> fr_type fr = Mentions)"

definition irc_inv :: "(bytes \<Rightarrow> bytes) \<Rightarrow> app_state \<Rightarrow> bool" where
  "irc_inv lower s \<longleftrightarrow> state_ok lower s \<and> (\<forall>k fr. view s k = Some fr \<longrightarrow> frame_ok lower k fr)"

named_theorems irc_keeps "steps and handlers that keep the invariant"

lemma inv_same_view: "irc_inv lower s \<Longrightarrow> state_ok lower s' \<Longrightarrow> view s' = view s \<Longrightarrow> irc_inv lower s'"
  by (simp add: irc_inv_def)

lemma inv_ok: "irc_inv lower s \<Longrightarrow> state_ok lower s"
  by (simp add: irc_inv_def)

lemma inv_same_buffers:
  assumes "irc_inv lower s" "st_buffers s' = st_buffers s" "st_scrollback_limit s' = st_scrollback_limit s"
    "st_active s' = st_active s"
  shows "irc_inv lower s'"
  using assms state_okI [OF inv_ok] view_cong by (metis irc_inv_def)

section \<open>Lines\<close>

lemma basic_keeps [irc_keeps]:
  assumes "irc_inv lower s"
  shows "irc_inv lower (push_web e s)" "irc_inv lower (snd (next_message_id s))"
    "irc_inv lower (add_message lower k m s)" "irc_inv lower (add_message_with_activity_unshrunk lower k m l s)"
    "irc_inv lower (add_mention_to_buffer m s)" "irc_inv lower (set_active_buffer k s)"
    "irc_inv lower (upd_connection conn f s)" "irc_inv lower (update_connection_status conn st s)"
proof -
  have "state_ok lower (upd_connection conn f s)"
    by (rule state_okI [OF inv_ok [OF assms]]) (simp_all add: upd_connection_def split: option.split)
  then show "irc_inv lower (push_web e s)" "irc_inv lower (snd (next_message_id s))"
    "irc_inv lower (add_message lower k m s)" "irc_inv lower (add_message_with_activity_unshrunk lower k m l s)"
    "irc_inv lower (add_mention_to_buffer m s)" "irc_inv lower (set_active_buffer k s)"
    "irc_inv lower (upd_connection conn f s)" "irc_inv lower (update_connection_status conn st s)"
    using inv_ok [OF assms]
    by (simp_all add: inv_same_view [OF assms] view_step ui_step_ok next_message_ok [unfolded next_message_def])
qed

lemma post_keeps [irc_keeps]: "irc_inv (iv_lower ev) s \<Longrightarrow> irc_inv (iv_lower ev) (post ev bid mk s)"
  using irc_keeps(2) by (simp add: post_def case_prod_beta irc_keeps)

lemma lines_keep [irc_keeps]:
  assumes "irc_inv (iv_lower ev) s"
  shows "irc_inv (iv_lower ev) (emit ev bid body s)" "irc_inv (iv_lower ev) (emit_keyed ev bid key body params s)"
    "irc_inv (iv_lower ev) (status_line ev bid key body s)"
    "irc_inv (iv_lower ev) (join_line ev bid nick ident host ch acc rn tgs s)"
    "irc_inv (iv_lower ev) (mode_line ev bid nick display target tgs s)"
    "irc_inv (iv_lower ev) (emit_active ev conn body s)" "irc_inv (iv_lower ev) (emit_server ev conn body s)"
    "irc_inv (iv_lower ev) (emit_whois ev conn key body params s)"
  using assms by (simp_all add: emit_def emit_keyed_def status_line_def join_line_def mode_line_def emit_active_def
      emit_server_def emit_whois_def Let_def post_keeps)

lemma fold_keeps_inv: "(\<And>x s. irc_inv lower s \<Longrightarrow> irc_inv lower (f x s)) \<Longrightarrow> irc_inv lower s \<Longrightarrow> irc_inv lower (fold f xs s)"
  by (induction xs arbitrary: s) simp_all

lemma post_all_keeps [irc_keeps]:
  "irc_inv (iv_lower ev) s \<Longrightarrow> irc_inv (iv_lower ev) (post_all ev bids mk s)"
  by (simp add: post_all_def fold_keeps_inv post_keeps)

lemma deliver_keeps [irc_keeps]:
  "irc_inv (iv_lower ev) s \<Longrightarrow> irc_inv (iv_lower ev) (deliver ev conn our t bid target nick body shown own tgs s)"
  by (simp add: deliver_def push_mention_def Let_def case_prod_beta irc_keeps)

lemma connection_steps_keep [irc_keeps]:
  assumes "irc_inv lower s"
  shows "irc_inv lower (forget_silent conn channel s)" "irc_inv lower (rename_own conn n s)"
    "irc_inv lower (snd (end_silent_banlist conn ch s))" "irc_inv lower (snd (end_silent_who conn ch s))"
  using assms by (simp_all add: forget_silent_def rename_own_def end_silent_banlist_def end_silent_who_def irc_keeps
      case_prod_beta split: option.split)

section \<open>Buffers\<close>

text \<open>A change of one buffer that leaves its lines and counters alone.\<close>

definition plain_change :: "(buffer \<Rightarrow> buffer) \<Rightarrow> bool" where
  "plain_change f \<longleftrightarrow> (\<forall>b. bf_id (f b) = bf_id b \<and> bf_messages (f b) = bf_messages b \<and>
     bf_activity (f b) = bf_activity b \<and> bf_unread_count (f b) = bf_unread_count b \<and>
     (bf_last_speakers (f b) = bf_last_speakers b \<or> bf_last_speakers (f b) = []))"

lemma plain_buffer_ok: "plain_change f \<Longrightarrow> buffer_ok lower limit b \<Longrightarrow> buffer_ok lower limit (f b)"
  unfolding plain_change_def by (drule spec [of _ b]) (auto simp: buffer_ok_def buffer_bound_def)

lemma upd_buffer_inv:
  assumes "irc_inv lower s" "plain_change f"
    and "\<And>b. map_of (st_buffers s) k = Some b \<Longrightarrow> frame_ok lower k (frame_of b) \<Longrightarrow> frame_ok lower k (frame_of (f b))"
  shows "irc_inv lower (upd_buffer k f s)"
proof -
  have "state_ok lower (upd_buffer k f s)"
    by (rule upd_buffer_ok [OF inv_ok [OF assms(1)]]) (use assms(2) plain_buffer_ok in \<open>auto simp: plain_change_def\<close>)
  then show ?thesis using assms(1,3)
    by (cases "map_of (st_buffers s) k") (auto simp: irc_inv_def upd_buffer_view view_def)
qed

lemma map_buffers_inv:
  assumes inv: "irc_inv lower s" and f: "plain_change f"
    and fr: "\<And>k b. frame_ok lower k (frame_of b) \<Longrightarrow> frame_ok lower k (frame_of (f b))"
  shows "irc_inv lower (map_buffers f s)"
proof -
  have "map fst (st_buffers (map_buffers f s)) = map fst (st_buffers s)"
    by (simp add: map_buffers_def comp_def case_prod_beta)
  then have "state_ok lower (map_buffers f s)"
    using inv_ok [OF inv] plain_buffer_ok [OF f] f unfolding state_ok_def
    by (auto simp: map_buffers_def map_of_map_values plain_change_def)
  moreover have "frame_ok lower k fr'" if "view (map_buffers f s) k = Some fr'" for k fr'
  proof -
    from that obtain b where b: "map_of (st_buffers s) k = Some b" "fr' = frame_of (f b)"
      by (auto simp: map_buffers_view)
    with inv have "frame_ok lower k (frame_of b)" by (simp add: irc_inv_def view_def)
    with fr b show ?thesis by simp
  qed
  ultimately show ?thesis by (simp add: irc_inv_def)
qed

lemma users_update_ok:
  assumes "frame_ok lower k fr" "x = lower (ne_nick e)"
  shows "frame_ok lower k (on_users (AList.update x e) fr)"
  using assms by (auto simp: frame_ok_def update_conv' distinct_update)

lemma users_delete_ok: "frame_ok lower k fr \<Longrightarrow> frame_ok lower k (on_users (AList.delete x) fr)"
  by (auto simp: frame_ok_def delete_conv' distinct_delete split: if_splits)

lemma rename_entry_ok: "frame_ok lower k fr \<Longrightarrow> frame_ok lower k (on_users (rename_entry lower x y) fr)"
  by (auto simp: frame_ok_def rename_entry_def delete_conv' distinct_delete update_conv' distinct_update
      split: if_splits option.splits)

lemma change_entry_ok:
  assumes "frame_ok lower k fr" "\<And>e. ne_nick (f e) = ne_nick e"
  shows "frame_ok lower k (on_users (change_entry x f) fr)"
  using assms by (auto simp: frame_ok_def change_entry_def update_conv' distinct_update split: option.splits)

lemma user_steps_keep [irc_keeps]:
  assumes "irc_inv lower s"
  shows "irc_inv lower (add_nick lower k e s)" "irc_inv lower (remove_nick lower k nick s)"
    "irc_inv lower (update_nick lower k x y s)" "irc_inv lower (set_topic k t w s)"
proof -
  have fr: "frame_ok lower k (frame_of b)" if "map_of (st_buffers s) k = Some b" for b
    using assms that by (auto simp: irc_inv_def view_def)
  have u: "irc_inv lower t" if "state_ok lower t" "view t = (view s)(k := map_option (on_users g) (view s k))"
      "\<And>fr. frame_ok lower k fr \<Longrightarrow> frame_ok lower k (on_users g fr)" for t g
    using that assms by (auto simp: irc_inv_def)
  note ok = plain_updates_ok [OF inv_ok [OF assms]]
  show "irc_inv lower (add_nick lower k e s)"
    by (rule u [OF ok(3) add_nick_view]) (simp add: users_update_ok)
  show "irc_inv lower (remove_nick lower k nick s)"
    by (rule u [OF ok(4) remove_nick_view]) (simp add: users_delete_ok)
  show "irc_inv lower (update_nick lower k x y s)"
    by (rule u [OF ok(5) update_nick_view]) (simp add: rename_entry_ok)
  show "irc_inv lower (set_topic k t w s)"
    unfolding set_topic_def by (rule upd_buffer_inv [OF assms]) (simp_all add: plain_change_def frame_of_def)
qed

lemma fresh_frame_ok: "k \<noteq> mentions_id \<Longrightarrow> frame_ok lower k (frame_of (new_buffer bid conn t name h))"
  by (simp add: frame_ok_def new_buffer_def)

lemma buffer_id_not_mentions [simp]: "make_buffer_id lower conn name \<noteq> mentions_id"
proof
  assume "make_buffer_id lower conn name = mentions_id"
  then have "CHR ''/'' \<in> set mentions_id" unfolding make_buffer_id_def by (metis in_set_conv_decomp)
  then show False by (simp add: mentions_id_def)
qed

lemma add_new_buffer_keeps:
  assumes "irc_inv lower s" "bid \<noteq> mentions_id"
  shows "irc_inv lower (add_buffer (new_buffer bid conn t name h) s)"
proof -
  have "state_ok lower (add_buffer (new_buffer bid conn t name h) s)"
    by (rule add_buffer_ok [OF inv_ok [OF assms(1)]]) (simp add: fresh_buffer_def new_buffer_def)
  moreover have "bf_id (new_buffer bid conn t name h) = bid" by (simp add: new_buffer_def)
  ultimately show ?thesis using assms fresh_frame_ok [OF assms(2)] by (auto simp: irc_inv_def view_step)
qed

lemma close_buffer_keeps [irc_keeps]:
  assumes "irc_inv lower s"
  shows "irc_inv lower (close_buffer lower k s)"
  using assms close_buffer_ok [OF inv_ok [OF assms]] by (auto simp: irc_inv_def close_buffer_view)

lemma remove_buffer_keeps [irc_keeps]:
  "irc_inv (iv_lower ev) (cl_state c) \<Longrightarrow> irc_inv (iv_lower ev) (cl_state (remove_buffer_of ev k c))"
  by (simp add: remove_buffer_of_def irc_keeps)

lemma upd_user_keeps [irc_keeps]:
  assumes "irc_inv lower s" "\<And>e. ne_nick (f e) = ne_nick e"
  shows "irc_inv lower (upd_buffer k (upd_user lower nick f) s)" "irc_inv lower (upd_user_everywhere lower conn nick f s)"
proof -
  have plain: "plain_change (upd_user lower nick f)" by (simp add: plain_change_def upd_user_def split: option.split)
  show "irc_inv lower (upd_buffer k (upd_user lower nick f) s)"
    by (rule upd_buffer_inv [OF assms(1) plain]) (simp add: upd_user_frame change_entry_ok assms(2))
  show "irc_inv lower (upd_user_everywhere lower conn nick f s)"
    unfolding upd_user_everywhere_def
    by (rule map_buffers_inv [OF assms(1)]) (use plain in \<open>auto simp: plain_change_def upd_user_frame change_entry_ok assms(2)\<close>)
qed

lemma frame_unchanged_keeps:
  assumes "irc_inv lower s" "plain_change f" "\<And>b. frame_of (f b) = frame_of b"
  shows "irc_inv lower (upd_buffer k f s)"
  by (rule upd_buffer_inv [OF assms(1,2)]) (simp add: assms(3))

text \<open>Taking a buffer out and putting it back under another id.\<close>

lemma rekey_keeps:
  assumes inv: "irc_inv lower s" and b: "map_of (st_buffers s) old_id = Some b" and ids: "old_id \<noteq> mentions_id" "new_id \<noteq> mentions_id"
    and t: "st_buffers t = AList.update new_id (b\<lparr>bf_id := new_id, bf_name := name\<rparr>) (AList.delete old_id (st_buffers s))"
      "st_scrollback_limit t = st_scrollback_limit s"
      "st_active t = (if st_active s = Some old_id then Some new_id else st_active s)"
  shows "irc_inv lower t"
proof -
  have ok: "state_ok lower s" by (rule inv_ok [OF inv])
  have bok: "buffer_ok lower (st_scrollback_limit s) b" "bf_id b = old_id" using buffer_okD [OF ok b] by simp_all
  then have b': "buffer_ok lower (st_scrollback_limit s) (b\<lparr>bf_id := new_id, bf_name := name\<rparr>)"
    using ids by (auto simp: buffer_ok_def buffer_bound_def)
  have look: "map_of (st_buffers t) k = (if k = new_id then Some (b\<lparr>bf_id := new_id, bf_name := name\<rparr>)
      else if k = old_id then None else map_of (st_buffers s) k)" for k
    by (simp add: t(1) update_conv' delete_conv')
  have "state_ok lower t"
    using ok b' unfolding state_ok_def t(2,3) look
    by (auto simp: t(1) distinct_update distinct_delete split: if_splits)
  moreover have "frame_ok lower k fr" if "view t k = Some fr" for k fr
  proof (cases "k = new_id")
    case True
    have "frame_ok lower old_id (frame_of b)" using inv b by (auto simp: irc_inv_def view_def)
    then show ?thesis using that True ids by (auto simp: view_def look frame_ok_def)
  next
    case False
    then show ?thesis using that inv by (auto simp: view_def look irc_inv_def split: if_splits)
  qed
  ultimately show ?thesis by (simp add: irc_inv_def)
qed

section \<open>Users and channels\<close>

lemma open_own_keeps:
  assumes inv: "irc_inv lower s"
  shows "irc_inv lower (open_own_channel (make_buffer_id lower conn channel) conn channel s)"
proof -
  let ?k = "make_buffer_id lower conn channel"
  have "irc_inv lower (upd_buffer ?k reset_channel s)"
    by (rule upd_buffer_inv [OF inv]) (auto simp: plain_change_def reset_channel_def frame_ok_def frame_of_def)
  then show ?thesis by (simp add: open_own_channel_def basic_keeps(6) add_new_buffer_keeps [OF inv])
qed

lemma join_keeps:
  assumes inv: "irc_inv (iv_lower ev) (cl_state c)"
  shows "irc_inv (iv_lower ev) (cl_state (handle_join_irc ev conn our pfx channel acc rn tgs c))"
  using open_own_keeps [OF inv] inv by (simp add: handle_join_irc_def Let_def case_prod_beta irc_keeps)

lemma part_keeps:
  assumes "irc_inv (iv_lower ev) (cl_state c)"
  shows "irc_inv (iv_lower ev) (cl_state (handle_part ev conn our pfx channel reason tgs c))"
  using assms by (simp add: handle_part_def Let_def case_prod_beta irc_keeps)

lemma kick_keeps:
  assumes "irc_inv (iv_lower ev) (cl_state c)"
  shows "irc_inv (iv_lower ev) (cl_state (handle_kick ev conn our pfx channel kicked reason tgs c))"
  using assms by (simp add: handle_kick_def handle_own_kick_def Let_def case_prod_beta irc_keeps)

lemma quit_keeps:
  assumes inv: "irc_inv (iv_lower ev) (cl_state c)"
  shows "irc_inv (iv_lower ev) (cl_state (handle_quit_irc ev conn pfx reason tgs c))"
proof -
  have "irc_inv (iv_lower ev) (fold (quit_from ev nick reason) ks (cl_state c))" for nick ks
    by (rule fold_keeps_inv [OF _ inv]) (simp add: quit_from_def irc_keeps)
  then show ?thesis by (simp add: handle_quit_irc_def Let_def case_prod_beta irc_keeps)
qed

lemma query_not_mentions:
  "irc_inv lower s \<Longrightarrow> map_of (st_buffers s) k = Some b \<Longrightarrow> bf_type b = Query \<Longrightarrow> k \<noteq> mentions_id"
proof -
  assume inv: "irc_inv lower s" and b: "map_of (st_buffers s) k = Some b" "bf_type b = Query"
  have "frame_ok lower k (frame_of b)" using inv b(1) by (simp add: irc_inv_def view_def)
  then show "k \<noteq> mentions_id" using b(2) by (auto simp: frame_ok_def)
qed

lemma rename_query_keeps:
  assumes inv: "irc_inv (iv_lower ev) s"
  shows "irc_inv (iv_lower ev) (rename_query ev conn y k s)"
proof (cases "map_of (st_buffers s) k")
  case (Some b)
  show ?thesis
  proof (cases "bf_type b = Query")
    case True
    have comm: "b\<lparr>bf_name := y, bf_id := n\<rparr> = b\<lparr>bf_id := n, bf_name := y\<rparr>" for n by (cases b) simp
    show ?thesis
      by (rule rekey_keeps [OF inv Some query_not_mentions [OF inv Some True] buffer_id_not_mentions [of "iv_lower ev" conn y], where name = y])
         (simp_all add: rename_query_def Some True comm Let_def)
  qed (simp add: rename_query_def Some inv)
qed (simp add: rename_query_def inv)

lemma rename_queries_keep [irc_keeps]:
  "irc_inv (iv_lower ev) s \<Longrightarrow> irc_inv (iv_lower ev) (rename_query_buffers ev conn y ks s)"
  by (simp add: rename_query_buffers_def fold_keeps_inv rename_query_keeps)

lemma nick_changed_keeps:
  "irc_inv (iv_lower ev) (cl_state c) \<Longrightarrow> irc_inv (iv_lower ev) (cl_state (nick_changed ev our x y tgs k c))"
  by (simp add: nick_changed_def Let_def case_prod_beta irc_keeps)

lemma nick_keeps:
  assumes inv: "irc_inv (iv_lower ev) (cl_state c)"
  shows "irc_inv (iv_lower ev) (cl_state (handle_nick_change ev conn our pfx y tgs c))"
proof -
  have fold_changed: "irc_inv (iv_lower ev) (cl_state (fold (nick_changed ev our x y tgs) ks d))"
    if "irc_inv (iv_lower ev) (cl_state d)" for x ks d
    using that by (induction ks arbitrary: d) (simp_all add: nick_changed_keeps)
  have fold_update: "irc_inv (iv_lower ev) (fold (\<lambda>k. update_nick (iv_lower ev) k x y) ks s)"
    if "irc_inv (iv_lower ev) s" for x ks s
    by (rule fold_keeps_inv [OF _ that]) (simp add: irc_keeps)
  show ?thesis using inv
    by (simp add: handle_nick_change_def Let_def case_prod_beta irc_keeps fold_changed fold_update)
qed

lemma known_handlers_keep:
  assumes "irc_inv (iv_lower ev) s"
  shows "irc_inv (iv_lower ev) (handle_account ev conn pfx account tgs s)"
    "irc_inv (iv_lower ev) (handle_away ev conn pfx reason s)"
    "irc_inv (iv_lower ev) (handle_chghost ev conn pfx u h tgs s)"
  using assms by (simp_all add: handle_account_def handle_away_def handle_chghost_def update_nick_account_in_buffers_def
      irc_keeps fold_keeps_inv Let_def split: option.split)

section \<open>Modes and the server\<close>

lemma upsert_length:
  assumes "\<And>key es. map_of (bf_list_modes b) key = Some es \<Longrightarrow> length es \<le> max_list_mode_entries"
    and "map_of (bf_list_modes (snd (upsert_list_mode_entry key0 msk w at b))) key = Some es"
  shows "length es \<le> max_list_mode_entries"
proof -
  let ?es = "unwrap_or [] (map_of (bf_list_modes b) key0)"
  have "length ?es \<le> max_list_mode_entries" using assms(1) by (cases "map_of (bf_list_modes b) key0") auto
  then show ?thesis using assms
    by (auto simp: upsert_list_mode_entry_def Let_def update_conv' split: option.splits if_splits)
qed

lemma remove_length:
  assumes "\<And>key es. map_of (bf_list_modes b) key = Some es \<Longrightarrow> length es \<le> max_list_mode_entries"
    and "map_of (bf_list_modes (snd (remove_list_mode_entry key0 msk b))) key = Some es"
  shows "length es \<le> max_list_mode_entries"
proof (cases "map_of (bf_list_modes b) key0")
  case (Some es0)
  have "length (filter P es0) \<le> max_list_mode_entries" for P
    by (rule le_trans [OF length_filter_le assms(1) [OF Some]])
  then show ?thesis using assms
    by (auto simp: remove_list_mode_entry_def Some Let_def update_conv' delete_conv' split: if_splits)
qed (use assms in \<open>simp add: remove_list_mode_entry_def\<close>)

lemma list_mode_change:
  "plain_change (\<lambda>b. snd (upsert_list_mode_entry key msk w at b))" "plain_change (\<lambda>b. snd (remove_list_mode_entry key msk b))"
  by (simp_all add: plain_change_def upsert_list_mode_entry_def remove_list_mode_entry_def Let_def split: option.split)

lemma list_mode_frame_ok:
  assumes "frame_ok lower k (frame_of b)"
  shows "frame_ok lower k (frame_of (snd (upsert_list_mode_entry key msk w at b)))"
    "frame_ok lower k (frame_of (snd (remove_list_mode_entry key msk b)))"
proof -
  have len: "\<And>key es. map_of (bf_list_modes b) key = Some es \<Longrightarrow> length es \<le> max_list_mode_entries"
    using assms by (auto simp: frame_ok_def)
  have same: "bf_users (snd (upsert_list_mode_entry key msk w at b)) = bf_users b"
    "bf_type (snd (upsert_list_mode_entry key msk w at b)) = bf_type b"
    "bf_users (snd (remove_list_mode_entry key msk b)) = bf_users b"
    "bf_type (snd (remove_list_mode_entry key msk b)) = bf_type b"
    by (simp_all add: upsert_list_mode_entry_def remove_list_mode_entry_def Let_def split: option.split)
  show "frame_ok lower k (frame_of (snd (upsert_list_mode_entry key msk w at b)))"
    using assms upsert_length [OF len] by (auto simp: frame_ok_def same)
  show "frame_ok lower k (frame_of (snd (remove_list_mode_entry key msk b)))"
    using assms remove_length [OF len] by (auto simp: frame_ok_def same)
qed

lemma list_mode_keeps [irc_keeps]:
  assumes "irc_inv lower s"
  shows "irc_inv lower (upd_buffer k (\<lambda>b. snd (upsert_list_mode_entry key msk w at b)) s)"
    "irc_inv lower (upd_buffer k (\<lambda>b. snd (remove_list_mode_entry key msk b)) s)"
  by (rule upd_buffer_inv [OF assms list_mode_change(1)], erule list_mode_frame_ok)
     (rule upd_buffer_inv [OF assms list_mode_change(2)], erule list_mode_frame_ok)

lemma frame_changes_keep [irc_keeps]:
  assumes "irc_inv lower s"
  shows "irc_inv lower (upd_buffer k (set_channel_mode adding ch param) s)"
    "irc_inv lower (upd_buffer k (\<lambda>b. b\<lparr>bf_peer_handle := h\<rparr>) s)"
    "irc_inv lower (upd_buffer k (\<lambda>b. b\<lparr>bf_topic_set_by := w\<rparr>) s)"
    "irc_inv lower (upd_buffer k (\<lambda>b. b\<lparr>bf_modes := m, bf_mode_params := p\<rparr>) s)"
  by (rule frame_unchanged_keeps [OF assms]; simp add: plain_change_def frame_of_def set_channel_mode_def Let_def)+

lemma apply_mode_keeps:
  assumes inv: "irc_inv (iv_lower ev) s"
  shows "irc_inv (iv_lower ev) (apply_mode ev bid w adding m param s)"
proof (cases "mode_target ev bid m param s")
  case None
  then show ?thesis using inv by (cases adding) (simp_all add: apply_mode_def irc_keeps split: option.split)
next
  case (Some p)
  obtain mc target e where p: "p = (mc, target, e)" by (cases p)
  obtain b where b: "map_of (st_buffers s) bid = Some b" "map_of (bf_users b) (iv_lower ev target) = Some e"
    using Some by (auto simp: p mode_target_def split: option.splits)
  have "frame_ok (iv_lower ev) bid (frame_of b)" using inv b(1) by (simp add: irc_inv_def view_def)
  then have nick: "iv_lower ev target = iv_lower ev (ne_nick e)" using b(2) by (auto simp: frame_ok_def)
  have "irc_inv (iv_lower ev) (upd_buffer bid
      (\<lambda>b. b\<lparr>bf_users := AList.update (iv_lower ev target) (set_nick_mode adding mc e) (bf_users b)\<rparr>) s)"
    by (rule upd_buffer_inv [OF inv])
       (auto simp: plain_change_def users_frame on_users_const [of "AList.update _ _"] set_nick_mode_def Let_def nick
          intro!: users_update_ok)
  then show ?thesis by (simp add: apply_mode_def Some p Let_def irc_keeps)
qed

lemma server_handlers_keep:
  assumes inv: "irc_inv (iv_lower ev) s"
  shows "irc_inv (iv_lower ev) (handle_mode ev conn pfx target cmd tgs s)"
    "irc_inv (iv_lower ev) (handle_topic ev conn pfx channel topic tgs s)"
    "irc_inv (iv_lower ev) (handle_invite ev conn our pfx nick channel tgs s)"
    "irc_inv (iv_lower ev) (handle_error ev conn body s)" "irc_inv (iv_lower ev) (handle_wallops ev conn pfx body s)"
proof -
  have "irc_inv (iv_lower ev) (apply_channel_mode ev bid w m t)" if "irc_inv (iv_lower ev) t" for bid w m t
    by (cases m) (simp_all add: apply_mode_keeps that)
  then have "irc_inv (iv_lower ev) (fold (apply_channel_mode ev bid w) modes s)" for bid w modes
    by (intro fold_keeps_inv inv)
  then show "irc_inv (iv_lower ev) (handle_mode ev conn pfx target cmd tgs s)"
    using inv by (simp add: handle_mode_def Let_def irc_keeps split: irc_command.split)
qed (use inv in \<open>simp_all add: handle_topic_def handle_invite_def handle_error_def handle_wallops_def Let_def irc_keeps
    split: option.split\<close>)

section \<open>Numerics\<close>

lemma update_label_keeps:
  assumes inv: "irc_inv (iv_lower ev) s"
  shows "irc_inv (iv_lower ev) (update_label_from_network ev conn name s)"
proof (cases "map_of (st_connections s) conn")
  case (Some cn)
  let ?s1 = "upd_connection conn (\<lambda>cn. cn\<lparr>cn_label := name\<rparr>) s"
  let ?old = "make_buffer_id (iv_lower ev) conn (cn_label cn)"
  have s1: "irc_inv (iv_lower ev) ?s1" by (rule basic_keeps(7) [OF inv])
  show ?thesis
  proof (cases "map_of (st_buffers ?s1) ?old")
    case None
    then show ?thesis using inv s1 by (simp add: update_label_from_network_def Some Let_def)
  next
    case b: (Some b)
    let ?t = "update_label_from_network ev conn name s"
    show ?thesis
    proof (cases "CHR ''.'' \<in> set (cn_label cn)")
      case True
      show ?thesis
        by (rule rekey_keeps [OF s1 b buffer_id_not_mentions buffer_id_not_mentions [of "iv_lower ev" conn name], where name = name])
           (simp_all add: update_label_from_network_def Some b True Let_def)
    qed (simp add: update_label_from_network_def Some inv)
  qed
qed (simp add: update_label_from_network_def inv)

lemma replies_keep [irc_keeps]:
  assumes inv: "irc_inv (iv_lower ev) s"
  shows "irc_inv (iv_lower ev) (reply_isupport ev conn args s)" "irc_inv (iv_lower ev) (reply_names ev conn args s)"
    "irc_inv (iv_lower ev) (reply_banlist ev conn args s)" "irc_inv (iv_lower ev) (handle_whox_reply ev conn args s)"
proof -
  show "irc_inv (iv_lower ev) (reply_isupport ev conn args s)"
    using inv by (simp add: reply_isupport_def Let_def update_label_keeps irc_keeps split: option.split)
  show "irc_inv (iv_lower ev) (reply_names ev conn args s)"
    using inv by (auto simp: reply_names_def Let_def case_prod_beta intro!: fold_keeps_inv irc_keeps)
  show "irc_inv (iv_lower ev) (reply_banlist ev conn args s)"
    using inv by (simp add: reply_banlist_def Let_def irc_keeps comp_def)
  show "irc_inv (iv_lower ev) (handle_whox_reply ev conn args s)"
    using inv by (simp add: handle_whox_reply_def Let_def irc_keeps)
qed

lemmas reply_defs = reply_topic_def reply_topic_who_def reply_channel_modes_def reply_whois_user_def
  reply_whois_server_def reply_whois_operator_def reply_whois_idle_def reply_whois_channels_def
  reply_whois_certfp_def reply_whois_away_def reply_whois_simple_def reply_whois_keyvalue_def
  reply_end_of_whois_def reply_end_of_banlist_def reply_exceptlist_def reply_invitelist_def
  reply_mask_line_def reply_motd_def reply_nick_in_use_def reply_erroneous_nick_def reply_list_def
  reply_who_def reply_end_of_who_def reply_whowas_def reply_other_def reply_creation_time_def
  handle_whois_account_def handle_whois_secure_def

lemma reply_keeps:
  assumes "irc_inv (iv_lower ev) s"
  shows "irc_inv (iv_lower ev) (state_reply ev conn r args s)" "irc_inv (iv_lower ev) (handle_raw ev conn cmd args s)"
proof -
  show "irc_inv (iv_lower ev) (state_reply ev conn r args s)"
    using assms by (cases r) (simp_all add: reply_defs irc_keeps Let_def case_prod_beta split: option.split)
  show "irc_inv (iv_lower ev) (handle_raw ev conn cmd args s)"
    using assms by (simp add: handle_raw_def reply_defs irc_keeps Let_def split: option.split)
qed

section \<open>The E2E layer, private messages, notices\<close>

lemma event_keeps: "irc_inv lower s \<Longrightarrow> irc_inv lower (emit_event lower now target h key params body s)"
  by (simp add: emit_event_def case_prod_beta irc_keeps)

lemma e2e_steps_keep [irc_keeps]:
  assumes inv: "irc_inv lower (cl_state c)"
  shows "irc_inv lower (cl_state (snd (try_dispatch_rpe2e_ctcp lc lower cr now conn pfx body c)))"
    "irc_inv lower (cl_state (handle_userhost_reply lower cr now conn args c))"
proof -
  have notices: "irc_inv lower (fold (show_trust_notice lower cr now conn) ns s)"
    "irc_inv lower (fold (show_accept_request lower now conn) rs s)" if "irc_inv lower s" for ns rs s
    by (rule fold_keeps_inv [OF _ that], simp add: show_trust_notice_def show_accept_request_def event_keeps split: option.split)+
  have "irc_inv lower (cl_state (receive_keyreq lc lower cr now conn nick handle req m c))"
    "irc_inv lower (cl_state (receive_keyrsp lower cr now conn handle rsp m c))"
    "irc_inv lower (cl_state (receive_rekey lower cr now conn handle rk m c))" for nick handle req rsp rk m
    using inv by (auto simp: receive_defs notices case_prod_beta split: sum.split option.split)
  then show "irc_inv lower (cl_state (snd (try_dispatch_rpe2e_ctcp lc lower cr now conn pfx body c)))"
    using inv by (simp add: try_dispatch_rpe2e_ctcp_def Let_def case_prod_beta
        split: sum.split option.split handshake_msg.split)
  have forget: "irc_inv lower (cl_state (complete_forget lower cr now handle r d))"
    if "irc_inv lower (cl_state d)" for handle r d
    using that by (simp add: complete_forget_def emit_e2e_message_def event_keeps Let_def split: option.split prod.split sum.split)
  have forgets: "irc_inv lower (cl_state (fold (complete_forget lower cr now handle) rs d))"
    if "irc_inv lower (cl_state d)" for handle rs d
    using that by (induction rs arbitrary: d) (simp_all add: forget)
  have entry: "irc_inv lower (cl_state (userhost_entry lower cr now conn e d))" if "irc_inv lower (cl_state d)" for e d
    using that by (simp add: userhost_entry_def forgets split: option.split prod.split)
  have "irc_inv lower (cl_state (fold (userhost_entry lower cr now conn) es d))" if "irc_inv lower (cl_state d)" for es d
    using that by (induction es arbitrary: d) (simp_all add: entry)
  then show "irc_inv lower (cl_state (handle_userhost_reply lower cr now conn args c))"
    using inv by (simp add: handle_userhost_reply_def)
qed

lemma suppressed_keeps [irc_keeps]:
  assumes "irc_inv (iv_lower ev) (cl_state c)"
  shows "irc_inv (iv_lower ev) (cl_state (snd (ctcp_suppressed ev bid exempt c)))"
    "irc_inv (iv_lower ev) (cl_state (snd (text_suppressed ev bid our nick ident body to_channel exempt c)))"
  using assms by (simp_all add: ctcp_suppressed_def text_suppressed_def tilde_suppressed_def duplicate_suppressed_def
      report_flood_def Let_def case_prod_beta irc_keeps)

lemma open_query_keeps:
  assumes "irc_inv lower s" "bid \<noteq> mentions_id"
  shows "irc_inv lower (open_query bid conn nick h to_channel own s)"
  using assms by (simp add: open_query_def Let_def irc_keeps add_new_buffer_keeps)

lemma tag_account_keeps [irc_keeps]:
  "irc_inv (iv_lower ev) s \<Longrightarrow> irc_inv (iv_lower ev) (tag_account ev bid nick to_channel tgs s)"
  by (simp add: tag_account_def irc_keeps split: option.split)

lemma receive_ctcp_keeps:
  assumes "receive_ctcp ev conn our pfx bid target nick body own ex tgs c = Some c'" "irc_inv (iv_lower ev) (cl_state c)"
  shows "irc_inv (iv_lower ev) (cl_state c')"
  using assms by (auto simp: receive_ctcp_def irc_keeps Let_def case_prod_beta split: option.splits)

lemma receive_text_keeps:
  assumes "receive_text ev conn our pfx target bid body tgs c = Some c'" "irc_inv (iv_lower ev) (cl_state c)"
    "bid \<noteq> mentions_id"
  shows "irc_inv (iv_lower ev) (cl_state c')"
  using assms
  by (auto simp: receive_text_def Let_def case_prod_beta irc_keeps open_query_keeps dest!: receive_ctcp_keeps
      split: if_splits)

lemma privmsg_keeps:
  assumes "handle_privmsg ev conn our pfx target body tgs c = Some c'" "irc_inv (iv_lower ev) (cl_state c)"
  shows "irc_inv (iv_lower ev) (cl_state c')"
  using assms by (auto simp: handle_privmsg_def Let_def case_prod_beta split: if_splits elim!: receive_text_keeps)

lemma notice_keeps:
  assumes "irc_inv (iv_lower ev) (cl_state c)"
  shows "irc_inv (iv_lower ev) (cl_state (handle_notice ev conn pfx target body tgs c))"
  using assms by (simp add: handle_notice_def show_notice_def Let_def case_prod_beta irc_keeps)

section \<open>Every message\<close>

lemma response_keeps:
  assumes "irc_inv (iv_lower ev) (cl_state c)"
  shows "irc_inv (iv_lower ev) (cl_state (handle_response ev conn r args c))"
  using assms by (simp add: handle_response_def reply_join_failed_def reply_keeps irc_keeps Let_def split: option.split)

lemma message_keeps:
  assumes "handle_irc_message ev conn msg c = Some c'" "irc_inv (iv_lower ev) (cl_state c)"
  shows "irc_inv (iv_lower ev) (cl_state c')"
  using assms
  by (cases "im_command msg")
     (auto simp: handle_irc_message_def Let_def privmsg_keeps notice_keeps join_keeps part_keeps quit_keeps nick_keeps
        kick_keeps server_handlers_keep response_keeps known_handlers_keep reply_keeps)

lemma connection_events_keep:
  assumes "irc_inv (iv_lower ev) s"
  shows "irc_inv (iv_lower ev) (handle_connected ev conn s)" "irc_inv (iv_lower ev) (handle_disconnected ev conn error s)"
    "irc_inv (iv_lower ev) (snd (handle_cap_new ev conn f3 f4 s))" "irc_inv (iv_lower ev) (handle_cap_del ev conn f3 f4 s)"
    "irc_inv (iv_lower ev) (handle_cap_ack ev conn f3 f4 s)" "irc_inv (iv_lower ev) (handle_cap_nak ev conn f3 f4 s)"
proof -
  have "irc_inv (iv_lower ev) (disconnect_channels conn s)"
    unfolding disconnect_channels_def
    by (rule map_buffers_inv [OF assms]) (auto simp: plain_change_def frame_ok_def frame_of_def)
  then show "irc_inv (iv_lower ev) (handle_disconnected ev conn error s)"
    by (simp add: handle_disconnected_def Let_def irc_keeps split: option.split)
qed (use assms in \<open>simp_all add: handle_connected_def handle_cap_new_def handle_cap_del_def handle_cap_ack_def
    handle_cap_nak_def Let_def irc_keeps\<close>)

end
