(* ===== verification/Irc_Roster.thy ===== *)
theory Irc_Roster
  imports Irc_View
begin

text \<open>
  The nick lists as a specification: a roster maps the id of a channel buffer to
  its connection and the set of (lower-cased) nicks in it.  Each message acts on
  the roster by one of five abstract operations, whatever is ignored, suppressed
  by the antiflood checks or batched as a netsplit.
\<close>

section \<open>Rosters\<close>

type_synonym roster = "bytes \<Rightarrow> (bytes \<times> bytes set) option"

definition frame_members :: "frame \<Rightarrow> (bytes \<times> bytes set) option" where
  "frame_members fr = (if fr_type fr = Channel then Some (fr_connection fr, dom (map_of (fr_users fr))) else None)"

definition roster :: "app_state \<Rightarrow> roster" where
  "roster s k = Option.bind (view s k) frame_members"

definition on_members :: "(bytes set \<Rightarrow> bytes set) \<Rightarrow> bytes \<Rightarrow> roster \<Rightarrow> roster" where
  "on_members f k R = R(k := map_option (apsnd f) (R k))"

definition enter :: "bytes \<Rightarrow> bytes \<Rightarrow> roster \<Rightarrow> roster" where
  "enter k x = on_members (insert x) k"

definition leave :: "bytes \<Rightarrow> bytes \<Rightarrow> roster \<Rightarrow> roster" where
  "leave k x = on_members (\<lambda>M. M - {x}) k"

definition on_connection :: "bytes \<Rightarrow> (bytes set \<Rightarrow> bytes set) \<Rightarrow> roster \<Rightarrow> roster" where
  "on_connection conn f R k = map_option (\<lambda>(cn, M). (cn, if cn = conn then f M else M)) (R k)"

definition leave_all :: "bytes \<Rightarrow> bytes \<Rightarrow> roster \<Rightarrow> roster" where
  "leave_all conn x = on_connection conn (\<lambda>M. M - {x})"

definition rename_all :: "bytes \<Rightarrow> bytes \<Rightarrow> bytes \<Rightarrow> roster \<Rightarrow> roster" where
  "rename_all conn x y = on_connection conn (\<lambda>M. if x \<in> M then insert y (M - {x}) else M)"

definition open_channel :: "bytes \<Rightarrow> bytes \<Rightarrow> roster \<Rightarrow> roster" where
  "open_channel k conn R = (if R k = None then R(k \<mapsto> (conn, {})) else R)"

section \<open>The roster after a step\<close>

lemma roster_cong: "view s' = view s \<Longrightarrow> roster s' = roster s"
  by (simp add: roster_def fun_eq_iff)

lemma roster_point:
  assumes "view s' = (view s)(k := map_option (on_users g) (view s k))"
    and "\<And>t. dom (map_of (g t)) = f (dom (map_of t))"
  shows "roster s' = on_members f k (roster s)"
  using assms by (cases "view s k") (simp_all add: roster_def on_members_def fun_eq_iff frame_members_def)

lemma roster_add_nick: "roster (add_nick lower k e s) = enter k (lower (ne_nick e)) (roster s)"
  unfolding enter_def by (rule roster_point [OF add_nick_view]) (simp add: update_conv' dom_fun_upd)

lemma roster_remove_nick: "roster (remove_nick lower k nick s) = leave k (lower nick) (roster s)"
  unfolding leave_def by (rule roster_point [OF remove_nick_view]) (auto simp: delete_conv' split: if_splits)

lemma roster_close: "roster (close_buffer lower k s) = (roster s)(k := None)"
  by (simp add: roster_def close_buffer_view fun_eq_iff)

lemma fold_point:
  assumes "\<And>k s. v (f k s) = (v s)(k := map_option g (v s k))" "distinct ks"
  shows "v (fold f ks s) k = (if k \<in> set ks then map_option g (v s k) else v s k)"
  using assms(2) by (induction ks arbitrary: s) (auto simp: assms(1))

section \<open>JOIN, PART, KICK\<close>

definition channel_slot :: "app_state \<Rightarrow> bytes \<Rightarrow> bool" where
  "channel_slot s k \<longleftrightarrow> (\<forall>fr. view s k = Some fr \<longrightarrow> fr_type fr = Channel)"

lemma reset_users_view:
  assumes "\<not> has_users k s"
  shows "view (upd_buffer k reset_channel s) k' = map_option (\<lambda>fr. if k' = k then fr\<lparr>fr_lists := []\<rparr> else fr) (view s k')"
proof (cases "map_of (st_buffers s) k")
  case None
  then show ?thesis by (cases "view s k'") (auto simp: upd_buffer_view view_def)
next
  case (Some b)
  then show ?thesis using assms
    by (cases "view s k'") (auto simp: upd_buffer_view view_def has_users_def reset_channel_def frame_of_def)
qed

lemma roster_open_own:
  assumes "\<not> has_users k s" "channel_slot s k"
  shows "roster (open_own_channel k conn channel s) = open_channel k conn (roster s)"
proof (cases "view s k")
  case None
  then have "roster s k = None" "map_of (st_buffers s) k = None" by (simp_all add: roster_def view_def)
  then show ?thesis
    by (simp add: open_own_channel_def roster_def view_step new_buffer_def open_channel_def fun_eq_iff
        frame_members_def)
next
  case (Some fr)
  then have "map_of (st_buffers s) k \<noteq> None" by (auto simp: view_Some)
  moreover have "roster s k \<noteq> None" using Some assms(2) by (simp add: channel_slot_def roster_def frame_members_def)
  moreover have "roster (upd_buffer k reset_channel s) = roster s"
  proof
    fix k'
    show "roster (upd_buffer k reset_channel s) k' = roster s k'"
      by (cases "view s k'") (simp_all add: roster_def reset_users_view [OF assms(1)] frame_members_def)
  qed
  ultimately show ?thesis
    by (auto simp: open_own_channel_def open_channel_def roster_cong [OF set_active_view])
qed

lemma roster_shown [simp]:
  "roster (push_web e s) = roster s" "roster (post ev bid mk s) = roster s" "roster (post_all ev bids mk s) = roster s"
  "roster (join_line ev bid nick ident host ch acc rn tgs s) = roster s"
  "roster (forget_silent conn channel s) = roster s" "roster (rename_own conn n s) = roster s"
  by (rule roster_cong, simp add: view_step)+

lemma roster_join:
  assumes "channel_slot (cl_state c) (make_buffer_id (iv_lower ev) conn channel)"
    "extract_nick_userhost pfx = (nick, ident, host)"
  shows "roster (cl_state (handle_join_irc ev conn our pfx channel acc rn tgs c)) =
    (if nick = our then open_channel (make_buffer_id (iv_lower ev) conn channel) conn (roster (cl_state c))
     else enter (make_buffer_id (iv_lower ev) conn channel) (iv_lower ev nick) (roster (cl_state c)))"
proof -
  let ?k = "make_buffer_id (iv_lower ev) conn channel"
  have present: "open_channel ?k conn (roster (cl_state c)) = roster (cl_state c)" if "has_users ?k (cl_state c)"
    using that assms(1) by (auto simp: has_users_def open_channel_def roster_def channel_slot_def view_def frame_members_def
        split: option.splits)
  show ?thesis
    using assms present
    by (simp add: handle_join_irc_def roster_add_nick fresh_entry_def roster_open_own Let_def case_prod_beta)
qed

lemma remove_buffer_state:
  "roster (cl_state (remove_buffer_of ev k c)) = (roster (cl_state c))(k := None)"
proof (cases "map_of (st_buffers (cl_state c)) k")
  case None
  then have "roster (cl_state c) k = None" by (simp add: roster_def view_def)
  then show ?thesis by (simp add: remove_buffer_of_def None fun_upd_idem)
qed (simp add: remove_buffer_of_def roster_close)

lemma roster_part:
  assumes "extract_nick_userhost pfx = (nick, ident, host)"
  shows "roster (cl_state (handle_part ev conn our pfx channel reason tgs c)) =
    (if nick = our then (roster (cl_state c))(make_buffer_id (iv_lower ev) conn channel := None)
     else leave (make_buffer_id (iv_lower ev) conn channel) (iv_lower ev nick) (roster (cl_state c)))"
  using assms by (simp add: handle_part_def remove_buffer_state roster_remove_nick Let_def)

lemma roster_kick:
  "roster (cl_state (handle_kick ev conn our pfx channel kicked reason tgs c)) =
    (if kicked = our then (roster (cl_state c))(make_buffer_id (iv_lower ev) conn channel := None)
     else leave (make_buffer_id (iv_lower ev) conn channel) (iv_lower ev kicked) (roster (cl_state c)))"
  by (simp add: handle_kick_def handle_own_kick_def remove_buffer_state roster_remove_nick Let_def case_prod_beta)

section \<open>QUIT and NICK\<close>

lemma set_buffers_where:
  assumes "state_ok lower s"
  shows "set (buffers_where P s) = {k. \<exists>b. map_of (st_buffers s) k = Some b \<and> P b}"
    "distinct (buffers_where P s)"
proof -
  have d: "distinct (map fst (st_buffers s))" using assms by (simp add: state_ok_def)
  then show "set (buffers_where P s) = {k. \<exists>b. map_of (st_buffers s) k = Some b \<and> P b}"
    by (force simp: buffers_where_def map_of_eq_Some_iff)
  show "distinct (buffers_where P s)" using d unfolding buffers_where_def by (rule distinct_retain)
qed

text \<open>A change of the users of all buffers that know a nick acts on the whole connection.\<close>

lemma roster_connection:
  assumes "\<And>k fr. view s k = Some fr \<Longrightarrow> fr_type fr = Channel \<Longrightarrow> k \<notin> ks \<Longrightarrow>
             fr_connection fr \<noteq> conn \<or> f (dom (map_of (fr_users fr))) = dom (map_of (fr_users fr))"
    and "\<And>k fr. view s k = Some fr \<Longrightarrow> k \<in> ks \<Longrightarrow> fr_connection fr = conn"
    and "\<And>k. view s' k = (if k \<in> ks then map_option (on_users g) (view s k) else view s k)"
    and "\<And>t. dom (map_of (g t)) = f (dom (map_of t))"
  shows "roster s' = on_connection conn f (roster s)"
proof
  fix k
  show "roster s' k = on_connection conn f (roster s) k"
    using assms(1,2) [of k]
    by (cases "view s k") (auto simp: roster_def assms(3,4) on_connection_def frame_members_def)
qed

lemma knows_users:
  assumes "state_ok lower s" "view s k = Some fr"
  shows "k \<in> set (buffers_where (on_connection_with lower conn nick) s) \<longleftrightarrow>
           fr_connection fr = conn \<and> lower nick \<in> dom (map_of (fr_users fr))"
    "fr_type fr = Channel \<Longrightarrow> k \<in> set (buffers_where (knows_nick lower conn nick) s) \<longleftrightarrow>
       fr_connection fr = conn \<and> lower nick \<in> dom (map_of (fr_users fr))"
    "k \<in> set (buffers_where (knows_nick lower conn nick) s) \<Longrightarrow> fr_connection fr = conn"
  using assms(2)
  by (auto simp: set_buffers_where [OF assms(1)] view_Some on_connection_with_def knows_nick_def has_user_def)

lemma quit_from_view: "view (quit_from ev nick reason k s) =
    (view s)(k := map_option (on_users (AList.delete (iv_lower ev nick))) (view s k))"
  by (simp add: quit_from_def view_step)

lemma dom_delete: "dom (map_of (AList.delete x t)) = dom (map_of t) - {x}"
  by (auto simp: delete_conv' split: if_splits)

lemma roster_quit_fold:
  assumes "state_ok lower s" "ks = buffers_where (on_connection_with lower conn nick) s"
    "\<And>k s. view (f k s) = (view s)(k := map_option (on_users (AList.delete (lower nick))) (view s k))"
  shows "roster (fold f ks s) = leave_all conn (lower nick) (roster s)"
  unfolding leave_all_def
proof (rule roster_connection [where ks = "set ks" and g = "AList.delete (lower nick)"])
  show "view (fold f ks s) k = (if k \<in> set ks then map_option (on_users (AList.delete (lower nick))) (view s k) else view s k)"
    for k using assms set_buffers_where(2) [OF assms(1)] by (intro fold_point [where v = view]) simp_all
  fix k fr
  assume v: "view s k = Some fr"
  show "fr_connection fr = conn" if "k \<in> set ks"
    using knows_users(1) [OF assms(1) v, of conn nick] that unfolding assms(2) by blast
  show "fr_connection fr \<noteq> conn \<or> dom (map_of (fr_users fr)) - {lower nick} = dom (map_of (fr_users fr))"
    if "k \<notin> set ks"
    using knows_users(1) [OF assms(1) v, of conn nick] that unfolding assms(2) by blast
qed (rule dom_delete)

lemma roster_quit:
  assumes "state_ok (iv_lower ev) (cl_state c)" "extract_nick_userhost pfx = (nick, ident, host)"
  shows "roster (cl_state (handle_quit_irc ev conn pfx reason tgs c)) =
    leave_all conn (iv_lower ev nick) (roster (cl_state c))"
  using roster_quit_fold [OF assms(1) refl quit_from_view] assms(2)
  by (simp add: handle_quit_irc_def Let_def case_prod_beta)

lemma dom_rename_entry:
  "dom (map_of (rename_entry lower x y t)) =
     (if lower x \<in> dom (map_of t) then insert (lower y) (dom (map_of t) - {lower x}) else dom (map_of t))"
  by (auto simp: rename_entry_def update_conv' delete_conv' split: option.splits if_splits)

lemma nick_changed_view:
  "view (cl_state (nick_changed ev our x y tgs k c)) =
     (view (cl_state c))(k := map_option (on_users (rename_entry (iv_lower ev) x y)) (view (cl_state c) k))"
  by (simp add: nick_changed_def view_step Let_def case_prod_beta)

lemma roster_rename:
  assumes "state_ok lower s" "ks = buffers_where (knows_nick lower conn x) s"
    "\<And>k. view s' k = (if k \<in> set ks then map_option (on_users (rename_entry lower x y)) (view s k) else view s k)"
  shows "roster s' = rename_all conn (lower x) (lower y) (roster s)"
  unfolding rename_all_def
proof (rule roster_connection [where ks = "set ks" and g = "rename_entry lower x y"])
  show "dom (map_of (rename_entry lower x y t)) =
    (if lower x \<in> dom (map_of t) then insert (lower y) (dom (map_of t) - {lower x}) else dom (map_of t))" for t
    by (rule dom_rename_entry)
  fix k fr
  assume v: "view s k = Some fr"
  show "fr_connection fr = conn" if "k \<in> set ks"
    by (rule knows_users(3) [OF assms(1) v that [unfolded assms(2)]])
  show "fr_connection fr \<noteq> conn \<or>
      (if lower x \<in> dom (map_of (fr_users fr)) then insert (lower y) (dom (map_of (fr_users fr)) - {lower x})
       else dom (map_of (fr_users fr))) = dom (map_of (fr_users fr))" if "fr_type fr = Channel" "k \<notin> set ks"
    using knows_users(2) [OF assms(1) v that(1), of conn x] that(2) unfolding assms(2) by (simp del: not_None_eq)
qed (rule assms(3))

text \<open>Renaming query buffers leaves the channels alone when none has the new id.\<close>

lemma roster_rename_query:
  assumes "roster s (make_buffer_id (iv_lower ev) conn y) = None"
  shows "roster (rename_query ev conn y k s) = roster s"
proof (cases "map_of (st_buffers s) k")
  case (Some b)
  let ?n = "make_buffer_id (iv_lower ev) conn y"
  show ?thesis
  proof (cases "bf_type b = Query")
    case True
    have "view (rename_query ev conn y k s) = (view s)(k := None, ?n \<mapsto> frame_of (b\<lparr>bf_name := y, bf_id := ?n\<rparr>))"
      using True Some by (auto simp: rename_query_def view_def fun_eq_iff update_conv' delete_conv' Let_def)
    moreover have "roster s k = None" using True Some by (simp add: roster_def view_def frame_members_def)
    ultimately show ?thesis using True assms by (auto simp: roster_def fun_eq_iff frame_members_def)
  qed (simp add: rename_query_def Some)
qed (simp add: rename_query_def)

lemma roster_rename_queries:
  "roster s (make_buffer_id (iv_lower ev) conn y) = None \<Longrightarrow> roster (rename_query_buffers ev conn y ks s) = roster s"
  unfolding rename_query_buffers_def by (induction ks arbitrary: s) (simp_all add: roster_rename_query)

lemma rename_own_ok: "state_ok lower s \<Longrightarrow> state_ok lower (rename_own conn n s)"
  by (auto simp: rename_own_def upd_connection_def push_web_def intro: state_okI split: option.split)

lemma rename_all_None: "rename_all conn x y R k = None \<longleftrightarrow> R k = None"
  by (simp add: rename_all_def on_connection_def)

lemma fold_update_nick_view:
  assumes "distinct ks"
  shows "view (fold (\<lambda>k. update_nick lower k x y) ks s) k =
    (if k \<in> set ks then map_option (on_users (rename_entry lower x y)) (view s k) else view s k)"
  by (rule fold_point [where v = view]) (simp_all add: update_nick_view assms)

lemma fold_nick_changed_view:
  assumes "distinct ks"
  shows "view (cl_state (fold (nick_changed ev our x y tgs) ks c)) k =
    (if k \<in> set ks then map_option (on_users (rename_entry (iv_lower ev) x y)) (view (cl_state c) k)
     else view (cl_state c) k)"
  by (rule fold_point [where v = "\<lambda>c. view (cl_state c)"]) (simp_all add: nick_changed_view assms)

lemma roster_nick:
  assumes ok: "state_ok (iv_lower ev) (cl_state c)"
    and free: "roster (cl_state c) (make_buffer_id (iv_lower ev) conn new_nick) = None"
  shows "roster (cl_state (handle_nick_change ev conn our pfx new_nick tgs c)) =
    rename_all conn (iv_lower ev (unwrap_or [] (extract_nick pfx))) (iv_lower ev new_nick) (roster (cl_state c))"
proof -
  let ?x = "unwrap_or [] (extract_nick pfx)"
  define c1 where "c1 = (if ?x = our then on_state (rename_own conn new_nick) c else c)"
  let ?ks = "buffers_where (knows_nick (iv_lower ev) conn ?x) (cl_state c1)"
  have ok1: "state_ok (iv_lower ev) (cl_state c1)" using ok by (simp add: c1_def rename_own_ok)
  have same: "roster (cl_state c1) = roster (cl_state c)" by (simp add: c1_def)
  note ren = roster_rename [OF ok1 refl, where x = ?x and conn = conn and y = new_nick]
  have shown: "roster (cl_state (fold (nick_changed ev our ?x new_nick tgs) ?ks c1)) =
      rename_all conn (iv_lower ev ?x) (iv_lower ev new_nick) (roster (cl_state c))"
    unfolding same [symmetric]
    by (rule ren, rule fold_nick_changed_view, rule set_buffers_where(2) [OF ok1])
  have hidden: "roster (fold (\<lambda>k. update_nick (iv_lower ev) k ?x new_nick) ?ks (cl_state c1)) =
      rename_all conn (iv_lower ev ?x) (iv_lower ev new_nick) (roster (cl_state c))"
    unfolding same [symmetric]
    by (rule ren, rule fold_update_nick_view, rule set_buffers_where(2) [OF ok1])
  show ?thesis
    unfolding handle_nick_change_def Let_def c1_def [symmetric]
    by (simp add: case_prod_beta roster_rename_queries shown hidden rename_all_None free)
qed

section \<open>NAMES and refusals\<close>

definition enter_all :: "bytes \<Rightarrow> bytes list \<Rightarrow> roster \<Rightarrow> roster" where
  "enter_all k xs = fold (enter k) xs"

definition listed_nicks :: "irc_env \<Rightarrow> bytes \<Rightarrow> bytes list \<Rightarrow> app_state \<Rightarrow> bytes list" where
  "listed_nicks ev conn args s =
     (let (pmap, has_userhost) = names_options conn s
      in map (\<lambda>raw. iv_lower ev (ne_nick (parse_names_entry raw pmap has_userhost))) (split_whitespace (args ! 3)))"

lemma roster_add_nicks:
  "roster (fold (\<lambda>raw. add_nick lower k (e raw)) raws s) =
     fold (enter k) (map (\<lambda>raw. lower (ne_nick (e raw))) raws) (roster s)"
  by (induction raws arbitrary: s) (simp_all add: roster_add_nick)

lemma roster_names:
  "roster (reply_names ev conn args s) =
     (if 4 \<le> length args then enter_all (make_buffer_id (iv_lower ev) conn (args ! 2)) (listed_nicks ev conn args s) (roster s)
      else roster s)"
  by (simp add: reply_names_def roster_add_nicks enter_all_def listed_nicks_def Let_def case_prod_beta)

definition close_empty :: "bytes \<Rightarrow> roster \<Rightarrow> roster" where
  "close_empty k R = (case R k of Some (_, M) \<Rightarrow> if M = {} then R(k := None) else R | None \<Rightarrow> R)"

lemma roster_refused:
  "roster (cl_state (reply_join_failed ev conn args c)) =
     close_empty (make_buffer_id (iv_lower ev) conn (if 2 \<le> length args then args ! 1 else ''?'')) (roster (cl_state c))"
proof -
  let ?k = "make_buffer_id (iv_lower ev) conn (if 2 \<le> length args then args ! 1 else ''?'')"
  define c1 where "c1 = on_state (emit_server ev conn (''%Zff6b6bCannot join '' @
      (if 2 \<le> length args then args ! 1 else ''?'') @ '': '' @
      (if 3 \<le> length args then args ! 2 else ''Cannot join channel'') @ ''%N'')) c"
  have v: "view (cl_state c1) = view (cl_state c)" by (simp add: c1_def view_step)
  have def: "reply_join_failed ev conn args c = (case map_of (st_buffers (cl_state c1)) ?k of
      Some b \<Rightarrow> if bf_users b = [] then remove_buffer_of ev ?k c1 else c1 | None \<Rightarrow> c1)"
    by (simp only: reply_join_failed_def Let_def c1_def)
  have r: "roster (cl_state c1) = roster (cl_state c)" by (rule roster_cong [OF v])
  have look: "roster (cl_state c1) ?k = Option.bind (map_option frame_of (map_of (st_buffers (cl_state c1)) ?k)) frame_members"
    by (simp add: roster_def view_def)
  have empty: "dom (map_of t) = {} \<longleftrightarrow> t = []" for t :: "(bytes, nick_entry) table"
    by (cases t) auto
  show ?thesis
    unfolding def r [symmetric] close_empty_def look
    by (cases "map_of (st_buffers (cl_state c1)) ?k")
       (auto simp: remove_buffer_state frame_members_def empty look fun_upd_idem)
qed

section \<open>Steps that keep the members\<close>

lemma roster_upd_buffer:
  assumes "\<And>b. frame_members (frame_of (f b)) = frame_members (frame_of b)"
  shows "roster (upd_buffer k f s) = roster s"
  using assms by (cases "map_of (st_buffers s) k") (auto simp: roster_def upd_buffer_view view_def fun_eq_iff)

lemma dom_change_entry [simp]: "dom (map_of (change_entry k f t)) = dom (map_of t)"
  by (auto simp: change_entry_def update_conv' split: option.splits if_splits)

lemma roster_everywhere: "roster (upd_user_everywhere lower conn nick f s) = roster s"
proof
  fix k
  show "roster (upd_user_everywhere lower conn nick f s) k = roster s k"
    by (cases "view s k") (simp_all add: roster_def upd_user_everywhere_view frame_members_def)
qed

lemma fold_roster: "(\<And>x s. roster (f x s) = roster s) \<Longrightarrow> roster (fold f xs s) = roster s"
  by (induction xs arbitrary: s) simp_all

lemma members_upd_user: "frame_members (frame_of (upd_user lower nick f b)) = frame_members (frame_of b)"
  by (simp add: upd_user_frame frame_members_def)

named_theorems keeps_roster "handlers that keep the members of every channel"

lemma known_handlers_roster [keeps_roster]:
  "roster (handle_account ev conn pfx account tgs s) = roster s"
  "roster (handle_away ev conn pfx reason s) = roster s"
  "roster (handle_chghost ev conn pfx u h tgs s) = roster s"
  by (simp_all add: handle_account_def handle_away_def handle_chghost_def update_nick_account_in_buffers_def
      roster_everywhere fold_roster Let_def split: option.split)

lemma mode_target_Some:
  "mode_target ev bid m param s = Some (mc, target, e) \<Longrightarrow>
   \<exists>b. map_of (st_buffers s) bid = Some b \<and> map_of (bf_users b) (iv_lower ev target) = Some e"
  by (auto simp: mode_target_def split: option.splits)

lemma list_mode_frames:
  "frame_members (frame_of (snd (upsert_list_mode_entry key msk by_whom at b))) = frame_members (frame_of b)"
  "frame_members (frame_of (snd (remove_list_mode_entry key msk b))) = frame_members (frame_of b)"
  by (simp_all add: upsert_list_mode_entry_def remove_list_mode_entry_def frame_members_def Let_def split: option.split)

lemma roster_apply_mode: "roster (apply_mode ev bid set_by adding m param s) = roster s"
proof (cases "mode_target ev bid m param s")
  case None
  have "roster (upd_buffer bid (set_channel_mode adding ch param) s) = roster s" for ch
    by (rule roster_upd_buffer) (simp add: set_channel_mode_def frame_members_def Let_def)
  moreover have "roster (upd_buffer bid (\<lambda>b. if adding then snd (upsert_list_mode_entry ban_mode_key msk set_by (iv_utc ev) b)
      else snd (remove_list_mode_entry ban_mode_key msk b)) s) = roster s" for msk
    by (rule roster_upd_buffer) (simp add: list_mode_frames)
  ultimately show ?thesis by (simp add: apply_mode_def None split: option.split)
next
  case (Some p)
  obtain mc target e where p: "p = (mc, target, e)" by (cases p)
  from mode_target_Some [OF Some [unfolded p]] obtain b where
    b: "map_of (st_buffers s) bid = Some b" "map_of (bf_users b) (iv_lower ev target) = Some e" by blast
  have "dom (map_of (AList.update (iv_lower ev target) e' (bf_users b))) = dom (map_of (bf_users b))" for e'
    using b(2) by (auto simp: update_conv')
  then have "roster (upd_buffer bid (\<lambda>b. b\<lparr>bf_users := AList.update (iv_lower ev target) e' (bf_users b)\<rparr>) s) = roster s" for e'
    using b(1) by (auto simp: roster_def upd_buffer_view view_def fun_eq_iff frame_members_def)
  then show ?thesis by (simp add: apply_mode_def Some p Let_def)
qed

lemma roster_fold_modes: "roster (fold (apply_channel_mode ev bid nick) modes s) = roster s"
proof (rule fold_roster)
  show "roster (apply_channel_mode ev bid nick m s) = roster s" for m s
    by (cases m) (simp_all add: roster_apply_mode)
qed

lemma connection_roster [simp]: "roster (upd_connection conn f s) = roster s"
  by (rule roster_cong [OF upd_connection_view])

lemma server_handlers_roster [keeps_roster]:
  "roster (handle_mode ev conn pfx target cmd tgs s) = roster s"
  "roster (handle_topic ev conn pfx channel topic tgs s) = roster s"
  "roster (handle_invite ev conn our pfx nick channel tgs s) = roster s"
  "roster (handle_error ev conn body s) = roster s"
  "roster (handle_wallops ev conn pfx body s) = roster s"
proof -
  have topic: "roster (set_topic bid t by_whom s) = roster s" for bid t by_whom
    unfolding set_topic_def by (rule roster_upd_buffer) (simp add: frame_members_def)
  show "roster (handle_mode ev conn pfx target cmd tgs s) = roster s"
    by (simp add: handle_mode_def Let_def roster_cong [OF lines_view(5)] roster_fold_modes split: irc_command.split)
  show "roster (handle_topic ev conn pfx channel topic tgs s) = roster s"
    by (simp add: handle_topic_def topic Let_def split: option.split)
  show "roster (handle_invite ev conn our pfx nick channel tgs s) = roster s"
    by (simp add: handle_invite_def Let_def)
  show "roster (handle_error ev conn body s) = roster s" "roster (handle_wallops ev conn pfx body s) = roster s"
    by (simp_all add: handle_error_def handle_wallops_def roster_cong [OF lines_view(1)] Let_def)
qed

lemma shown_numerics_roster [simp]:
  "roster (emit ev bid body s) = roster s" "roster (emit_keyed ev bid key body params s) = roster s"
  "roster (emit_active ev conn body s) = roster s" "roster (emit_server ev conn body s) = roster s"
  "roster (emit_whois ev conn key body params s) = roster s"
  by (rule roster_cong, simp add: view_step)+

lemma end_silent_roster [simp]:
  "roster (snd (end_silent_banlist conn ch s)) = roster s" "roster (snd (end_silent_who conn ch s)) = roster s"
  by (simp_all add: end_silent_banlist_def end_silent_who_def case_prod_beta split: option.split)

lemma buffer_replies_roster:
  "roster (reply_topic ev conn args s) = roster s" "roster (reply_topic_who ev conn args s) = roster s"
  "roster (reply_channel_modes ev conn args s) = roster s" "roster (reply_banlist ev conn args s) = roster s"
  "roster (handle_whox_reply ev conn args s) = roster s"
proof -
  note upd = roster_upd_buffer
  show "roster (reply_topic ev conn args s) = roster s" "roster (reply_topic_who ev conn args s) = roster s"
    "roster (reply_channel_modes ev conn args s) = roster s"
    by (simp_all add: reply_topic_def set_topic_def reply_topic_who_def reply_channel_modes_def upd frame_members_def Let_def)
  show "roster (reply_banlist ev conn args s) = roster s"
    by (simp add: reply_banlist_def upd list_mode_frames Let_def)
  show "roster (handle_whox_reply ev conn args s) = roster s"
    by (simp add: handle_whox_reply_def upd members_upd_user Let_def)
qed

lemma reply_roster:
  assumes "r \<noteq> RPL_ISUPPORT" "r \<noteq> RPL_NAMREPLY"
  shows "roster (state_reply ev conn r args s) = roster s"
  using assms
  by (cases r) (simp_all add: buffer_replies_roster reply_whois_user_def reply_whois_server_def reply_whois_operator_def
      reply_whois_idle_def reply_whois_channels_def reply_whois_certfp_def reply_whois_away_def reply_whois_simple_def
      reply_whois_keyvalue_def reply_end_of_whois_def reply_end_of_banlist_def reply_exceptlist_def
      reply_invitelist_def reply_mask_line_def reply_motd_def reply_nick_in_use_def reply_erroneous_nick_def
      reply_list_def reply_who_def reply_end_of_who_def reply_whowas_def reply_other_def Let_def case_prod_beta
      split: option.split)

lemma raw_roster [keeps_roster]: "roster (handle_raw ev conn cmd args s) = roster s"
  by (simp add: handle_raw_def reply_creation_time_def buffer_replies_roster handle_whois_account_def
      handle_whois_secure_def Let_def split: option.split)

section \<open>PRIVMSG and NOTICE\<close>

lemma suppressed_views [view_step]:
  "view (cl_state (snd (ctcp_suppressed ev bid exempt c))) = view (cl_state c)"
  "view (cl_state (snd (text_suppressed ev bid our nick ident body to_channel exempt c))) = view (cl_state c)"
  by (simp_all add: ctcp_suppressed_def text_suppressed_def tilde_suppressed_def duplicate_suppressed_def report_flood_def
      view_step Let_def case_prod_beta)

lemma roster_open_query: "roster (open_query bid conn nick handle to_channel is_own s) = roster s"
proof -
  have stamp: "roster (upd_buffer bid (\<lambda>b. b\<lparr>bf_peer_handle := h\<rparr>) t) = roster t" for h t
    by (rule roster_upd_buffer) (simp add: frame_members_def)
  have add: "roster (add_buffer (new_buffer bid conn Query nick h) t) = roster t" if "roster t bid = None" for h t
    using that by (auto simp: roster_def view_step new_buffer_def fun_eq_iff frame_members_def)
  have "roster s bid = None" if "map_of (st_buffers s) bid = None" using that by (simp add: roster_def view_def)
  then show ?thesis by (simp add: open_query_def stamp add Let_def)
qed

lemma roster_tag_account: "roster (tag_account ev bid nick to_channel tgs s) = roster s"
  by (simp add: tag_account_def roster_upd_buffer members_upd_user split: option.split)

lemma roster_receive_text:
  assumes "receive_text ev conn our pfx target bid body tgs c = Some c'"
  shows "roster (cl_state c') = roster (cl_state c)"
proof -
  obtain nick ident host where pfx: "extract_nick_userhost pfx = (nick, ident, host)" by (metis prod_cases3)
  have ctcp: "roster (cl_state d') = roster (cl_state d)"
    if "receive_ctcp ev conn our pfx bid target nick b own ex tgs d = Some d'" for b own ex d d'
    using that by (auto simp: receive_ctcp_def roster_cong [OF deliver_view] roster_cong [OF dispatch_view]
        roster_cong [OF suppressed_views(1)] Let_def case_prod_beta split: option.splits if_splits)
  show ?thesis
    using assms ctcp
    by (auto simp: receive_text_def pfx Let_def case_prod_beta roster_tag_account roster_open_query
        roster_cong [OF deliver_view] roster_cong [OF suppressed_views(2)] split: if_splits)
qed

lemma roster_privmsg:
  assumes "handle_privmsg ev conn our pfx target body tgs c = Some c'"
  shows "roster (cl_state c') = roster (cl_state c)"
proof -
  obtain nick ident host where pfx: "extract_nick_userhost pfx = (nick, ident, host)" by (metis prod_cases3)
  show ?thesis
    using assms by (auto simp: handle_privmsg_def pfx Let_def case_prod_beta dest: roster_receive_text split: if_splits)
qed

lemma roster_notice: "roster (cl_state (handle_notice ev conn pfx target body tgs c)) = roster (cl_state c)"
  by (simp add: handle_notice_def show_notice_def roster_cong [OF dispatch_view] Let_def case_prod_beta)

section \<open>Refinement\<close>

text \<open>
  The specification: what a message says about who is where.  \<open>our\<close> is our nick,
  \<open>listed\<close> the nicks of a NAMES reply.
\<close>

definition sender :: "irc_message \<Rightarrow> bytes" where
  "sender msg = fst (extract_nick_userhost (im_prefix msg))"

fun roster_step ::
  "irc_env \<Rightarrow> bytes \<Rightarrow> bytes \<Rightarrow> bytes \<Rightarrow> bytes list \<Rightarrow> irc_command \<Rightarrow> roster \<Rightarrow> roster" where
  "roster_step ev conn our nick listed (JOIN channel a r) R =
     (let k = make_buffer_id (iv_lower ev) conn channel
      in if nick = our then open_channel k conn R else enter k (iv_lower ev nick) R)"
| "roster_step ev conn our nick listed (PART channel r) R =
     (let k = make_buffer_id (iv_lower ev) conn channel
      in if nick = our then R(k := None) else leave k (iv_lower ev nick) R)"
| "roster_step ev conn our nick listed (KICK channel kicked r) R =
     (let k = make_buffer_id (iv_lower ev) conn channel
      in if kicked = our then R(k := None) else leave k (iv_lower ev kicked) R)"
| "roster_step ev conn our nick listed (QUIT r) R = leave_all conn (iv_lower ev nick) R"
| "roster_step ev conn our nick listed (NICK new_nick) R = rename_all conn (iv_lower ev nick) (iv_lower ev new_nick) R"
| "roster_step ev conn our nick listed (Response r args) R =
     (if r = RPL_NAMREPLY \<and> 4 \<le> length args then enter_all (make_buffer_id (iv_lower ev) conn (args ! 2)) listed R
      else if List.member join_refusals r
        then close_empty (make_buffer_id (iv_lower ev) conn (if 2 \<le> length args then args ! 1 else ''?'')) R
      else R)"
| "roster_step ev conn our nick listed cmd R = R"

text \<open>Ids of channels and of other buffers do not meet, and labels stay.\<close>

fun roster_case :: "irc_env \<Rightarrow> bytes \<Rightarrow> app_state \<Rightarrow> irc_command \<Rightarrow> bool" where
  "roster_case ev conn s (JOIN channel a r) = channel_slot s (make_buffer_id (iv_lower ev) conn channel)"
| "roster_case ev conn s (NICK new_nick) = (roster s (make_buffer_id (iv_lower ev) conn new_nick) = None)"
| "roster_case ev conn s (Response r args) = (r \<noteq> RPL_ISUPPORT)"
| "roster_case ev conn s cmd = True"

fun reply_args :: "irc_command \<Rightarrow> bytes list" where
  "reply_args (Response r args) = args"
| "reply_args cmd = []"

lemma extract_nick_sender: "unwrap_or [] (extract_nick pfx) = fst (extract_nick_userhost pfx)"
  by (cases pfx) (auto simp: extract_nick_def extract_nick_userhost_def split: irc_prefix.split)

lemma roster_response:
  assumes "r \<noteq> RPL_ISUPPORT"
  shows "roster (cl_state (handle_response ev conn r args c)) =
    roster_step ev conn our nick (listed_nicks ev conn args (cl_state c)) (Response r args) (roster (cl_state c))"
proof (cases "List.member join_refusals r")
  case True
  then have "r \<noteq> RPL_NAMREPLY" by (auto simp: join_refusals_def)
  then show ?thesis using True by (simp add: handle_response_def roster_refused)
next
  case False
  then show ?thesis using assms reply_roster [of r ev conn args "cl_state c"]
    by (cases "r = RPL_NAMREPLY")
       (simp_all add: handle_response_def roster_names roster_cong [OF userhost_view])
qed

lemma roster_dispatch:
  assumes "handle_irc_message ev conn msg c = Some c'" "state_ok (iv_lower ev) (cl_state c)"
    and "roster_case ev conn (cl_state c) (im_command msg)"
  shows "roster (cl_state c') =
    roster_step ev conn (connection_nick (cl_state c) conn) (sender msg)
      (listed_nicks ev conn (reply_args (im_command msg)) (cl_state c)) (im_command msg) (roster (cl_state c))"
proof -
  obtain nick ident host where pfx: "extract_nick_userhost (im_prefix msg) = (nick, ident, host)" by (metis prod_cases3)
  then have sender: "sender msg = nick" "unwrap_or [] (extract_nick (im_prefix msg)) = nick"
    by (simp_all add: sender_def extract_nick_sender)
  show ?thesis
    using assms pfx sender
    by (cases "im_command msg")
       (auto simp: handle_irc_message_def Let_def roster_join roster_part roster_kick roster_quit roster_nick
          roster_response keeps_roster roster_notice simp del: roster_step.simps(6) dest: roster_privmsg)
qed

end
