(* ===== verification/Irc_Session.thy ===== *)
theory Irc_Session
  imports Irc_Invariant Irc_Roster
begin

text \<open>
  Sessions: everything a server can make the client do, in any order.  The
  properties of the dispatcher of \<open>src/src/irc/events.rs\<close> and of the batches of
  \<open>src/src/irc/batch.rs\<close>.
\<close>

section \<open>Steps of a session\<close>

inductive irc_step :: "(bytes \<Rightarrow> bytes) \<Rightarrow> client \<Rightarrow> client \<Rightarrow> bool" for lower where
  message: "iv_lower ev = lower \<Longrightarrow> handle_irc_message ev conn msg c = Some c' \<Longrightarrow> irc_step lower c c'"
| batch: "iv_lower ev = lower \<Longrightarrow> process_completed_batch ev conn b c = Some c' \<Longrightarrow> irc_step lower c c'"
| connected: "iv_lower ev = lower \<Longrightarrow> irc_step lower c (on_state (handle_connected ev conn) c)"
| disconnected: "iv_lower ev = lower \<Longrightarrow> irc_step lower c (on_state (handle_disconnected ev conn error) c)"
| cap_new: "iv_lower ev = lower \<Longrightarrow> irc_step lower c (on_state (\<lambda>s. snd (handle_cap_new ev conn f3 f4 s)) c)"
| cap_del: "iv_lower ev = lower \<Longrightarrow> irc_step lower c (on_state (handle_cap_del ev conn f3 f4) c)"
| cap_ack: "iv_lower ev = lower \<Longrightarrow> irc_step lower c (on_state (handle_cap_ack ev conn f3 f4) c)"
| cap_nak: "iv_lower ev = lower \<Longrightarrow> irc_step lower c (on_state (handle_cap_nak ev conn f3 f4) c)"

inductive irc_session :: "(bytes \<Rightarrow> bytes) \<Rightarrow> client \<Rightarrow> client \<Rightarrow> bool" for lower c where
  session_refl: "irc_session lower c c"
| session_more: "irc_session lower c c' \<Longrightarrow> irc_step lower c' c'' \<Longrightarrow> irc_session lower c c''"

lemma replay_keeps:
  "replay ev conn ms c = Some c' \<Longrightarrow> irc_inv (iv_lower ev) (cl_state c) \<Longrightarrow> irc_inv (iv_lower ev) (cl_state c')"
  by (induction ms arbitrary: c) (auto split: option.splits dest: message_keeps)

lemma split_one_keeps:
  assumes "irc_inv lower (snd (snd acc))"
  shows "irc_inv lower (snd (snd (split_one lower conn m acc)))"
  using assms by (auto simp: split_one_def Let_def intro!: fold_keeps_inv irc_keeps split: prod.split irc_command.split option.split)

lemma netjoin_one_keeps:
  assumes "irc_inv lower (snd (snd acc))"
  shows "irc_inv lower (snd (snd (netjoin_one lower conn m acc)))"
  using assms by (auto simp: netjoin_one_def Let_def intro!: irc_keeps split: prod.split irc_command.split)

lemma fold_acc_keeps:
  assumes "\<And>m acc. irc_inv lower (snd (snd acc)) \<Longrightarrow> irc_inv lower (snd (snd (f m acc)))"
    and "irc_inv lower (snd (snd acc))"
  shows "irc_inv lower (snd (snd (fold f ms acc)))"
  using assms by (induction ms arbitrary: acc) simp_all

lemma batches_keep:
  assumes inv: "irc_inv (iv_lower ev) s"
  shows "irc_inv (iv_lower ev) (process_netsplit_batch ev conn b s)" "irc_inv (iv_lower ev) (process_netjoin_batch ev conn b s)"
  using fold_acc_keeps [of "iv_lower ev" "split_one (iv_lower ev) conn" "([], [], s)", OF split_one_keeps]
    fold_acc_keeps [of "iv_lower ev" "netjoin_one (iv_lower ev) conn" "([], [], s)", OF netjoin_one_keeps] inv
  by (simp_all add: process_netsplit_batch_def process_netjoin_batch_def Let_def case_prod_beta irc_keeps)

lemma irc_step_keeps: "irc_step lower c c' \<Longrightarrow> irc_inv lower (cl_state c) \<Longrightarrow> irc_inv lower (cl_state c')"
proof (induction rule: irc_step.induct)
  case (message ev conn msg c c')
  then show ?case using message_keeps by blast
next
  case (batch ev conn b c c')
  then show ?case using batches_keep [of ev "cl_state c" conn b] replay_keeps [of ev conn "bi_messages b" c]
    by (auto simp: process_completed_batch_def split: if_splits)
qed (use connection_events_keep in auto)

section \<open>What panics\<close>

definition shown_text :: "irc_env \<Rightarrow> bytes \<Rightarrow> irc_prefix option \<Rightarrow> bytes \<Rightarrow> bytes \<Rightarrow> client \<Rightarrow> bytes" where
  "shown_text ev conn pfx target body c =
     (let (nick, ident, host) = extract_nick_userhost pfx
      in unwrap_or body (fst (try_decrypt_e2e (iv_crypto ev) conn nick (ident @ ''@'' @ host)
           (context_key target (ident @ ''@'' @ host)) body (nick = connection_nick (cl_state c) conn) c)))"

lemma decrypt_ignores [simp]:
  "cl_ignores (snd (try_decrypt_e2e cr conn nick handle channel body own c)) = cl_ignores c"
  by (simp add: try_decrypt_e2e_def request_key_def push_send_def split: option.split prod.split sum.split decrypt_outcome.split bool.split)

lemma ctcp_ends:
  assumes "is_ctcp s"
  shows "s \<noteq> []" "s ! 0 = byte_of 1" "s ! (length s - 1) = byte_of 1"
proof -
  obtain t where t: "s = byte_of 1 # t" using assms by (auto simp: is_ctcp_def starts_with_iff)
  obtain u where u: "s = u @ [byte_of 1]" using assms by (auto simp: is_ctcp_def ends_with_def starts_with_iff rev_eq_Cons_iff)
  show "s \<noteq> []" "s ! 0 = byte_of 1" using t by simp_all
  show "s ! (length s - 1) = byte_of 1" unfolding u by (simp add: nth_append)
qed


lemma valid_after_ascii:
  assumes "utf8_valid (byte_of 1 # r)"
  shows "r \<noteq> [] \<Longrightarrow> \<not> is_cont (hd r)"
proof -
  have "utf8_len (byte_of 1 # r) = 1" by (simp add: utf8_len_def utf8_lead.simps)
  then have "utf8_valid r" using assms by (simp add: utf8_valid.simps(2) Let_def)
  then show "r \<noteq> [] \<Longrightarrow> \<not> is_cont (hd r)"
    by (cases r) (auto simp: utf8_valid.simps(2) Let_def dest: utf8_len_head split: if_splits)
qed

lemma inner_slice_None:
  assumes "is_ctcp s" "utf8_valid s"
  shows "inner_slice s = None \<longleftrightarrow> s = [byte_of 1]"
proof -
  obtain r where s: "s = byte_of 1 # r" using ctcp_ends(1,2) [OF assms(1)] by (cases s) auto
  have "\<not> is_cont (byte_of 1)" by (simp add: is_cont_def)
  then have "is_char_boundary s (length s - 1)"
    using ctcp_ends [OF assms(1)] by (simp add: is_char_boundary_def)
  moreover have "is_char_boundary s 1" if "r \<noteq> []"
    using valid_after_ascii [OF assms(2) [unfolded s]] that by (simp add: s is_char_boundary_def hd_conv_nth)
  ultimately show ?thesis by (cases r) (auto simp: inner_slice_def s)
qed

lemma receive_text_None:
  assumes "utf8_valid body" "extract_nick_userhost pfx = (nick, ident, host)"
  shows "receive_text ev conn our pfx target bid body tgs c = None \<longleftrightarrow>
    body = [byte_of 1] \<and>
    \<not> ignored ev c nick ident host IgnCtcps (if is_channel_name target then Some target else None)"
proof -
  have ctcp: "receive_ctcp ev conn our pfx bid target nick body own ex tgs d = None \<longleftrightarrow> inner_slice body = None" for own ex d
    by (simp add: receive_ctcp_def Let_def case_prod_beta split: option.split)
  have one: "is_ctcp [byte_of 1]" "\<not> is_action [byte_of 1]"
    by (simp_all add: is_ctcp_def is_action_def ends_with_def starts_with_iff)
  show ?thesis
    using inner_slice_None [OF _ assms(1)] one
    by (auto simp: receive_text_def assms(2) Let_def case_prod_beta ctcp privmsg_level_def)
qed

lemma privmsg_None:
  assumes "utf8_valid (shown_text ev conn pfx target body c)" "extract_nick_userhost pfx = (nick, ident, host)"
  shows "handle_privmsg ev conn (connection_nick (cl_state c) conn) pfx target body tgs c = None \<longleftrightarrow>
    shown_text ev conn pfx target body c = [byte_of 1] \<and>
    \<not> ignored ev c nick ident host IgnCtcps (if is_channel_name target then Some target else None)"
proof -
  have same: "ignored ev (snd (try_decrypt_e2e cr conn n h ch b own c)) = ignored ev c" for cr n h ch b own
    by (simp add: ignored_def fun_eq_iff)
  show ?thesis
    using assms by (auto simp: handle_privmsg_def shown_text_def Let_def case_prod_beta receive_text_None [OF _ assms(2)] same)
qed

section \<open>The E2E manager under the dispatcher\<close>

lemma state_change_manager [simp]: "cl_manager (on_state f c) = cl_manager c"
  by (simp add: on_state_def)

lemma member_handlers_manager:
  "cl_manager (handle_join_irc ev conn our pfx channel acc rn tgs c) = cl_manager c"
  "cl_manager (handle_part ev conn our pfx channel reason tgs c) = cl_manager c"
  "cl_manager (handle_quit_irc ev conn pfx reason tgs c) = cl_manager c"
  "cl_manager (handle_kick ev conn our pfx channel kicked reason tgs c) = cl_manager c"
  by (simp_all add: handle_join_irc_def handle_part_def handle_quit_irc_def handle_kick_def handle_own_kick_def
      remove_buffer_of_def Let_def case_prod_beta)

lemma nick_manager: "cl_manager (handle_nick_change ev conn our pfx y tgs c) = cl_manager c"
proof -
  have "cl_manager (fold (nick_changed ev our x y tgs) ks d) = cl_manager d" for x ks d
    by (induction ks arbitrary: d) (simp_all add: nick_changed_def Let_def case_prod_beta)
  then show ?thesis by (simp add: handle_nick_change_def Let_def case_prod_beta)
qed

lemma suppressed_manager:
  "cl_manager (snd (ctcp_suppressed ev bid exempt c)) = cl_manager c"
  "cl_manager (snd (text_suppressed ev bid our nick ident body to_channel exempt c)) = cl_manager c"
  by (simp_all add: ctcp_suppressed_def text_suppressed_def tilde_suppressed_def duplicate_suppressed_def report_flood_def
      Let_def case_prod_beta)


lemma receive_text_run:
  assumes "receive_text ev conn our pfx target bid body tgs c = Some c'"
  shows "rel_option (net_run (iv_lc ev) (iv_crypto ev)) (cl_manager c) (cl_manager c')"
proof -
  obtain nick ident host where pfx: "extract_nick_userhost pfx = (nick, ident, host)" by (metis prod_cases3)
  have ctcp: "rel_option (net_run (iv_lc ev) (iv_crypto ev)) (cl_manager d) (cl_manager d')"
    if "receive_ctcp ev conn our pfx bid target nick b own ex tgs d = Some d'" for b own ex d d'
    using that dispatch_run [of "iv_lc ev" "iv_crypto ev" "snd (ctcp_suppressed ev bid ex d)"]
    by (auto simp: receive_ctcp_def Let_def case_prod_beta rel_run_same suppressed_manager split: option.splits if_splits)
  show ?thesis
    using assms ctcp
    by (auto simp: receive_text_def pfx Let_def case_prod_beta rel_run_same suppressed_manager split: if_splits dest!: ctcp)
qed

lemma rel_run_trans:
  "rel_option (net_run lc cr) x y \<Longrightarrow> rel_option (net_run lc cr) y z \<Longrightarrow> rel_option (net_run lc cr) x z"
  by (auto simp: option_rel_Some1 rel_option_iff intro: net_run_trans split: option.splits)

lemma privmsg_run:
  assumes "handle_privmsg ev conn our pfx target body tgs c = Some c'"
  shows "rel_option (net_run (iv_lc ev) (iv_crypto ev)) (cl_manager c) (cl_manager c')"
proof -
  obtain nick ident host where pfx: "extract_nick_userhost pfx = (nick, ident, host)" by (metis prod_cases3)
  let ?c1 = "snd (try_decrypt_e2e (iv_crypto ev) conn nick (ident @ ''@'' @ host) (context_key target (ident @ ''@'' @ host))
    body (nick = our) c)"
  have first: "rel_option (net_run (iv_lc ev) (iv_crypto ev)) (cl_manager c) (cl_manager ?c1)" by (rule decrypt_run)
  show ?thesis
    using assms rel_run_trans [OF first receive_text_run] first
    by (auto simp: handle_privmsg_def pfx Let_def case_prod_beta split: if_splits)
qed

lemma notice_run:
  "rel_option (net_run (iv_lc ev) (iv_crypto ev)) (cl_manager c) (cl_manager (handle_notice ev conn pfx target body tgs c))"
  by (simp add: handle_notice_def rel_run_same dispatch_run Let_def case_prod_beta)

lemma response_manager:
  "r \<noteq> RPL_USERHOST \<Longrightarrow> cl_manager (handle_response ev conn r args c) = cl_manager c"
  by (simp add: handle_response_def reply_join_failed_def remove_buffer_of_def Let_def split: option.split)

lemma message_run:
  assumes "handle_irc_message ev conn msg c = Some c'" "\<And>args. im_command msg \<noteq> Response RPL_USERHOST args"
  shows "rel_option (net_run (iv_lc ev) (iv_crypto ev)) (cl_manager c) (cl_manager c')"
proof -
  have "cl_manager (handle_response ev conn r args c) = cl_manager c" if "im_command msg = Response r args" for r args
    using assms(2) that by (intro response_manager) auto
  with assms(1) show ?thesis
    by (cases "im_command msg")
       (auto simp: handle_irc_message_def Let_def notice_run member_handlers_manager nick_manager rel_run_same
          dest: privmsg_run)
qed

section \<open>Batches and their messages\<close>

lemma lower_fold_remove:
  assumes "\<And>x. lower (lower x) = lower x"
  shows "fold (\<lambda>bid. remove_nick lower bid (lower nick)) ks s = fold (\<lambda>bid. remove_nick lower bid nick) ks s"
  by (induction ks arbitrary: s) (simp_all add: remove_nick_def assms)

lemma fold_state_ok:
  "state_ok lower s \<Longrightarrow> state_ok lower (fold (\<lambda>bid. remove_nick lower bid nick) ks s)"
  by (induction ks arbitrary: s) (simp_all add: plain_updates_ok)

lemma split_one_roster:
  assumes low: "\<And>x. lower (lower x) = lower x" and ok: "state_ok lower (snd (snd acc))"
    and m: "im_command m = QUIT r" "extract_nick (im_prefix m) = Some nick"
  shows "roster (snd (snd (split_one lower conn m acc))) = leave_all conn (lower nick) (roster (snd (snd acc)))"
    and "state_ok lower (snd (snd (split_one lower conn m acc)))"
proof -
  obtain nicks affected s where acc: "acc = (nicks, affected, s)" by (cases acc)
  let ?t = "fold (\<lambda>bid. remove_nick lower bid nick) (buffers_where (on_connection_with lower conn nick) s) s"
  have "snd (snd (split_one lower conn m acc)) = ?t"
    by (simp add: split_one_def acc m Let_def lower_fold_remove [OF low])
  moreover have "roster ?t = leave_all conn (lower nick) (roster s)"
    by (rule roster_quit_fold [OF _ refl remove_nick_view]) (use ok acc in simp)
  ultimately show "roster (snd (snd (split_one lower conn m acc))) = leave_all conn (lower nick) (roster (snd (snd acc)))"
    "state_ok lower (snd (snd (split_one lower conn m acc)))"
    using ok by (simp_all add: acc fold_state_ok)
qed

definition is_quit :: "irc_message \<Rightarrow> bool" where
  "is_quit m \<longleftrightarrow> (\<exists>r nick. im_command m = QUIT r \<and> extract_nick (im_prefix m) = Some nick)"

lemma split_fold_replay:
  assumes low: "\<And>x. iv_lower ev (iv_lower ev x) = iv_lower ev x" and quits: "\<And>m. m \<in> set ms \<Longrightarrow> is_quit m"
    and ok: "state_ok (iv_lower ev) (snd (snd acc))" "irc_inv (iv_lower ev) (cl_state c)"
    and same: "roster (snd (snd acc)) = roster (cl_state c)"
  shows "\<exists>c'. replay ev conn ms c = Some c' \<and>
    roster (snd (snd (fold (split_one (iv_lower ev) conn) ms acc))) = roster (cl_state c')"
  using quits ok same
proof (induction ms arbitrary: acc c)
  case (Cons m ms)
  obtain r nick where m: "im_command m = QUIT r" "extract_nick (im_prefix m) = Some nick"
    using Cons.prems(1) [of m] by (auto simp: is_quit_def)
  let ?c1 = "handle_quit_irc ev conn (im_prefix m) r (extract_tags m) c"
  have step: "handle_irc_message ev conn m c = Some ?c1" by (simp add: handle_irc_message_def m Let_def)
  obtain ident host where "extract_nick_userhost (im_prefix m) = (nick, ident, host)"
    using extract_nick_sender [of "im_prefix m"] m(2) by (cases "extract_nick_userhost (im_prefix m)") simp
  then have quit: "roster (cl_state ?c1) = leave_all conn (iv_lower ev nick) (roster (cl_state c))"
    by (rule roster_quit [OF inv_ok [OF Cons.prems(3)]])
  have "\<exists>c'. replay ev conn ms ?c1 = Some c' \<and>
    roster (snd (snd (fold (split_one (iv_lower ev) conn) ms (split_one (iv_lower ev) conn m acc)))) = roster (cl_state c')"
    by (rule Cons.IH) (use Cons.prems split_one_roster [OF low Cons.prems(2) m] quit message_keeps [OF step] in auto)
  then show ?case by (simp add: step)
qed auto

lemma post_all_roster: "roster (post_all ev bids mk s) = roster s"
  by (rule roster_cong [OF post_all_view])

end
