(* ===== verification/Irc_Properties.thy ===== *)
theory Irc_Properties
  imports Irc_Session
begin

text \<open>
  The properties of a session with an IRC server, over the lemmas of
  \<open>Irc_Invariant\<close>, \<open>Irc_Roster\<close> and \<open>Irc_Session\<close>, each with a small session at
  which its hypotheses hold.
\<close>

section \<open>A small session\<close>

definition example_irc_env :: irc_env where
  "example_irc_env = \<lparr>iv_lower = ascii_lower, iv_lc = ascii_lower_table, iv_crypto = toy_crypto, iv_utc = 0,
     iv_now = 0, iv_hash = (\<lambda>s. of_nat (length s)), iv_match = (=), iv_rfc3339 = (\<lambda>_. None),
     iv_from_timestamp = Some, iv_utc_date = (\<lambda>_. []), iv_local_date = (\<lambda>_ _. []), iv_nick_hex = (\<lambda>_. []),
     iv_is_error = (\<lambda>_. False)\<rparr>"

definition example_connection :: connection where
  "example_connection = \<lparr>cn_id = ''n'', cn_label = ''net'', cn_status = Connected, cn_nick = ''me'',
     cn_user_modes = [], cn_isupport = isupport_new, cn_error = None, cn_reconnect_attempts = 3,
     cn_reconnect_delay_secs = 30, cn_next_reconnect = None, cn_should_reconnect = True,
     cn_joined_channels = [], cn_enabled_caps = [], cn_who_token_counter = 0, cn_silent_who = [],
     cn_silent_banlist = []\<rparr>"

text \<open>One connection, one channel, and bob in it.\<close>

definition example_irc :: client where
  "example_irc = client_of (add_nick ascii_lower ''n/#c'' (fresh_entry ''Bob'' None)
     (add_buffer (new_buffer (make_buffer_id ascii_lower ''n'' ''#c'') ''n'' Channel ''#c'' None)
        (add_connection example_connection app_state_new))) None"

definition message_from :: "bytes \<Rightarrow> irc_command \<Rightarrow> irc_message" where
  "message_from nick cmd = \<lparr>im_tags = None, im_prefix = Some (Nickname nick ''u'' ''h''), im_command = cmd\<rparr>"

lemma example_env_lower [simp]: "iv_lower example_irc_env = ascii_lower"
  by (simp add: example_irc_env_def)

lemma new_state_inv: "irc_inv lower (add_connection cn app_state_new)"
  by (simp add: irc_inv_def state_ok_def view_def add_connection_def app_state_new_def)

lemma example_inv: "irc_inv ascii_lower (cl_state example_irc)"
  by (simp add: example_irc_def irc_keeps add_new_buffer_keeps new_state_inv)

section \<open>Every session keeps the state sound\<close>

text \<open>
  C9: whatever the server sends, in whatever order, and however often the
  connection drops, the client's state keeps its invariant: the active buffer
  exists, buffers stand under their ids and within the scrollback limit, nick
  lists are keyed by the lower-cased nick without repetitions, ban lists have at
  most 500 entries, and no other buffer takes the place of the mentions.
\<close>

theorem session_keeps_invariant:
  assumes "irc_session lower c c'" "irc_inv lower (cl_state c)"
  shows "irc_inv lower (cl_state c')"
  using assms by (induction rule: irc_session.induct) (auto dest: irc_step_keeps)

lemma session_keeps_invariant_witness:
  "\<exists>c'. handle_irc_message example_irc_env ''n'' (message_from ''Bob'' (QUIT None)) example_irc = Some c' \<and>
    irc_inv ascii_lower (cl_state c')"
proof -
  let ?c = "handle_quit_irc example_irc_env ''n'' (Some (Nickname ''Bob'' ''u'' ''h'')) None None example_irc"
  have m: "handle_irc_message example_irc_env ''n'' (message_from ''Bob'' (QUIT None)) example_irc = Some ?c"
    by (simp add: handle_irc_message_def message_from_def extract_tags_def Let_def)
  have "irc_session ascii_lower example_irc ?c"
    by (rule session_more [OF session_refl irc_step.message [OF _ m]]) simp
  from session_keeps_invariant [OF this example_inv] m show ?thesis by blast
qed

section \<open>The one message that ends the program\<close>

text \<open>
  C10: a message panics exactly when it is a PRIVMSG whose text (after E2E
  decryption) is the single byte 0x01 and whose sender is not ignored at the
  CTCP level: the byte both opens and closes the CTCP, and the slice between
  them has its start after its end.  Text of a message is valid UTF-8, as the
  protocol crate delivers it.
\<close>

theorem message_panics_exactly:
  assumes "\<And>target body. im_command msg = PRIVMSG target body \<Longrightarrow> utf8_valid (shown_text ev conn (im_prefix msg) target body c)"
  shows "handle_irc_message ev conn msg c = None \<longleftrightarrow>
    (\<exists>target body nick ident host. im_command msg = PRIVMSG target body \<and>
       extract_nick_userhost (im_prefix msg) = (nick, ident, host) \<and>
       shown_text ev conn (im_prefix msg) target body c = [byte_of 1] \<and>
       \<not> ignored ev c nick ident host IgnCtcps (if is_channel_name target then Some target else None))"
proof (cases "\<exists>target body. im_command msg = PRIVMSG target body")
  case True
  then obtain target body where m: "im_command msg = PRIVMSG target body" by blast
  obtain nick ident host where pfx: "extract_nick_userhost (im_prefix msg) = (nick, ident, host)" by (metis prod_cases3)
  show ?thesis using privmsg_None [OF assms [OF m] pfx] by (simp add: handle_irc_message_def m pfx Let_def)
qed (cases "im_command msg"; simp add: handle_irc_message_def Let_def)

lemma message_panics_exactly_witness:
  "handle_irc_message example_irc_env ''n'' (message_from ''Bob'' (PRIVMSG ''me'' [byte_of 1])) example_irc = None"
proof -
  have shown: "shown_text example_irc_env ''n'' p t b example_irc = b" for p t b
    by (simp add: shown_text_def example_irc_def try_decrypt_e2e_def case_prod_beta)
  have free: "cl_ignores example_irc = []" by (simp add: example_irc_def)
  have "utf8_valid [byte_of 1]" by (simp add: utf8_valid.simps(2) utf8_len_def utf8_lead.simps)
  then show ?thesis
    by (subst message_panics_exactly)
       (auto simp: shown message_from_def extract_nick_userhost_def free ignored_def should_ignore_def)
qed

section \<open>Who is where\<close>

text \<open>
  C11: each message acts on the nick lists of the channels as the abstract roster
  says: an own JOIN opens the channel, another's enters it, PART, KICK, QUIT and
  NICK act as they are meant to, NAMES enters the listed nicks and everything
  else leaves the lists alone.  What the user ignores, what the antiflood checks
  suppress and what is batched as a netsplit only changes what is shown.
\<close>

theorem roster_refines:
  assumes "handle_irc_message ev conn msg c = Some c'" "irc_inv (iv_lower ev) (cl_state c)"
    and "roster_case ev conn (cl_state c) (im_command msg)"
  shows "roster (cl_state c') =
    roster_step ev conn (connection_nick (cl_state c) conn) (sender msg)
      (listed_nicks ev conn (reply_args (im_command msg)) (cl_state c)) (im_command msg) (roster (cl_state c))"
  by (rule roster_dispatch [OF assms(1) inv_ok [OF assms(2)] assms(3)])

lemma roster_refines_witness:
  "\<exists>c'. handle_irc_message example_irc_env ''n'' (message_from ''Bob'' (QUIT None)) example_irc = Some c' \<and>
    roster (cl_state c') = leave_all ''n'' ''bob'' (roster (cl_state example_irc))"
proof -
  let ?m = "message_from ''Bob'' (QUIT None)"
  let ?c = "handle_quit_irc example_irc_env ''n'' (Some (Nickname ''Bob'' ''u'' ''h'')) None None example_irc"
  have m: "handle_irc_message example_irc_env ''n'' ?m example_irc = Some ?c"
    by (simp add: handle_irc_message_def message_from_def extract_tags_def Let_def)
  have "ascii_lower ''Bob'' = ''bob''" by code_simp
  with roster_refines [OF m] example_inv m show ?thesis
    by (simp add: message_from_def sender_def extract_nick_userhost_def)
qed

text \<open>
  C12: a completed NETSPLIT batch leaves the nick lists exactly as handling its
  QUITs one by one would.
\<close>

theorem netsplit_batch_as_quits:
  assumes "\<And>x. iv_lower ev (iv_lower ev x) = iv_lower ev x" "\<And>m. m \<in> set (bi_messages b) \<Longrightarrow> is_quit m"
    and "irc_inv (iv_lower ev) (cl_state c)"
  shows "\<exists>c'. replay ev conn (bi_messages b) c = Some c' \<and>
    roster (process_netsplit_batch ev conn b (cl_state c)) = roster (cl_state c')"
  using split_fold_replay [OF assms(1,2), of "bi_messages b" "([], [], cl_state c)" c conn] assms(3) inv_ok
  by (simp add: process_netsplit_batch_def Let_def case_prod_beta post_all_roster)

lemma netsplit_batch_as_quits_witness:
  "\<exists>c'. replay example_irc_env ''n'' [message_from ''Bob'' (QUIT None)] example_irc = Some c' \<and>
    roster (process_netsplit_batch example_irc_env ''n''
      \<lparr>bi_type = ''NETSPLIT'', bi_params = [''a'', ''b''], bi_messages = [message_from ''Bob'' (QUIT None)],
       bi_dropped = 0, bi_started_at = 0\<rparr> (cl_state example_irc)) = roster (cl_state c')"
  using netsplit_batch_as_quits [where b = "\<lparr>bi_type = ''NETSPLIT'', bi_params = [''a'', ''b''],
      bi_messages = [message_from ''Bob'' (QUIT None)], bi_dropped = 0, bi_started_at = 0\<rparr>"
      and ev = example_irc_env and c = example_irc and conn = "''n''"] example_inv
  by (auto simp: is_quit_def message_from_def extract_nick_def)

section \<open>Trust\<close>

text \<open>
  C13: whatever arrives, the dispatcher moves the E2E manager by network steps
  only, so the invariants of network runs hold of the client: the one exception
  is the answer to a USERHOST the user asked for with \<open>/e2e forget\<close>.
\<close>

theorem dispatcher_refines_network:
  assumes "handle_irc_message ev conn msg c = Some c'" "\<And>args. im_command msg \<noteq> Response RPL_USERHOST args"
  shows "rel_option (net_run (iv_lc ev) (iv_crypto ev)) (cl_manager c) (cl_manager c')"
  by (rule message_run [OF assms])

lemma dispatcher_refines_network_witness:
  "\<exists>c'. handle_irc_message example_irc_env ''n'' (message_from ''Bob'' (NOTICE ''me'' ''RPEE2E KEYREQ''))
      (client_of app_state_new (Some (example_manager (keyring_new None)))) = Some c' \<and>
    rel_option (net_run ascii_lower_table toy_crypto) (Some (example_manager (keyring_new None))) (cl_manager c')"
proof -
  let ?c = "client_of app_state_new (Some (example_manager (keyring_new None)))"
  let ?m = "message_from ''Bob'' (NOTICE ''me'' ''RPEE2E KEYREQ'')"
  obtain c' where m: "handle_irc_message example_irc_env ''n'' ?m ?c = Some c'"
    by (auto simp: handle_irc_message_def message_from_def Let_def)
  from dispatcher_refines_network [OF m] m show ?thesis by (auto simp: message_from_def example_irc_env_def)
qed

section \<open>Reconnecting\<close>

lemma status_connections: "st_connections (status_line ev bid key body s) = st_connections s"
  by (simp add: status_line_def post_def next_message_id_def add_message_def add_message_unshrunk_def upd_buffer_def
      alert_web_def push_web_def Let_def split: option.split)

lemma upd_connection_lookup:
  "map_of (st_connections (upd_connection conn f s)) conn = map_option f (map_of (st_connections s) conn)"
  by (simp add: upd_connection_def update_conv' split: option.split)

text \<open>
  C14: a lost connection that is meant to be kept has its next attempt scheduled
  within ten minutes, however often it failed and whatever delay is configured.
\<close>

theorem reconnect_scheduled:
  assumes "map_of (st_connections s) conn = Some cn" "cn_should_reconnect cn"
  shows "\<exists>cn' t. map_of (st_connections (handle_disconnected ev conn error s)) conn = Some cn' \<and>
    cn_next_reconnect cn' = Some t \<and> t \<le> iv_now ev + secs 600"
proof -
  have delay: "calculate_reconnect_delay base n \<le> 600" for base n
    by (auto simp: calculate_reconnect_delay_def intro: le_trans [OF min.cobounded2])
  have plan: "\<exists>t. cn_next_reconnect (plan_reconnect ev chs d) = Some t \<and> t \<le> iv_now ev + secs 600"
    if "cn_should_reconnect d" for chs d
    using that delay by (simp add: plan_reconnect_def Let_def secs_def)
  show ?thesis
    using assms plan
    by (cases error) (simp_all add: handle_disconnected_def Let_def status_connections upd_connection_lookup
        disconnect_channels_def map_buffers_def update_connection_status_def update_conv')
qed

lemma reconnect_scheduled_witness:
  "\<exists>cn' t. map_of (st_connections (handle_disconnected example_irc_env ''n'' None (cl_state example_irc))) ''n'' = Some cn' \<and>
    cn_next_reconnect cn' = Some t \<and> t \<le> secs 600"
  using reconnect_scheduled [of "cl_state example_irc" "''n''" example_connection example_irc_env None]
  by (simp add: example_irc_def example_irc_env_def add_nick_def upd_buffer_def add_buffer_def push_web_def
      add_connection_def app_state_new_def example_connection_def split: option.split)


section \<open>Names\<close>

lemma find_prefix:
  assumes "distinct (map snd pmap)" "(m, p) \<in> set pmap"
  shows "find (\<lambda>(_, q). q = p) pmap = Some (m, p)"
  using assms by (induction pmap) (auto simp: rev_image_eqI)

lemma take_prefixes_append:
  assumes "distinct (map snd pmap)" "set ps \<subseteq> set pmap" "cs \<noteq> []" "hd cs \<notin> set (map snd pmap)"
  shows "take_prefixes pmap (map snd ps @ cs) = (concat (map snd ps), concat (map fst ps), cs)"
  using assms(2)
proof (induction ps)
  case Nil
  have "find (\<lambda>(_, q). q = hd cs) pmap = None" using assms(4) by (force simp: find_None_iff)
  then show ?case using assms(3) by (cases cs) simp_all
next
  case (Cons mp ps)
  obtain m p where mp: "mp = (m, p)" by (cases mp)
  then show ?case using Cons find_prefix [OF assms(1), of m p] by simp
qed

lemma utf8_chars_concat: "(\<And>c. c \<in> set cs \<Longrightarrow> one_char c) \<Longrightarrow> utf8_chars (concat cs @ s) = cs @ utf8_chars s"
  by (induction cs) (simp_all add: utf8_chars_one)

lemma hd_utf8_chars_append:
  assumes "utf8_valid s" "s \<noteq> []"
  shows "hd (utf8_chars (s @ r)) = hd (utf8_chars s)"
proof -
  have "0 < utf8_len s" using assms by (cases s) (auto simp: utf8_valid.simps(2) Let_def split: if_splits)
  moreover from this have "0 < utf8_len (s @ r)" by (simp add: utf8_len_append)
  ultimately show ?thesis using utf8_len_le [of s] by (simp add: utf8_chars_head utf8_len_append)
qed

lemma parse_userhost_shown:
  assumes "CHR ''!'' \<notin> set nick" "CHR ''@'' \<notin> set ident"
  shows "parse_userhost (nick @ ''!'' @ ident @ ''@'' @ host) = (nick, Some ident, Some host)"
proof -
  have "find_char (CHR ''!'') (nick @ ''!'' @ ident @ ''@'' @ host) = Some (length nick)"
    "find_char (CHR ''@'') (ident @ ''@'' @ host) = Some (length ident)"
    using assms by (auto simp: find_char_Some nth_append)
  then show ?thesis by (simp add: parse_userhost_def)
qed

text \<open>
  An entry of a NAMES reply with \<open>userhost-in-names\<close> is read back to what
  the server wrote: every prefix with its mode letter, the nick, and the parts of
  the address, for whatever prefixes the server announced.
\<close>

theorem names_entry_roundtrip:
  assumes "distinct (map snd pmap)" "set ps \<subseteq> set pmap" "\<And>p. p \<in> snd ` set ps \<Longrightarrow> one_char p"
    and "utf8_valid nick" "nick \<noteq> []" "hd (utf8_chars nick) \<notin> snd ` set pmap"
    and "CHR ''!'' \<notin> set nick" "CHR ''@'' \<notin> set ident"
  shows "parse_names_entry (concat (map snd ps) @ nick @ ''!'' @ ident @ ''@'' @ host) pmap True =
    \<lparr>ne_nick = nick, ne_prefix = concat (map snd ps), ne_modes = concat (map fst ps), ne_away = False,
     ne_account = None, ne_ident = Some ident, ne_host = Some host\<rparr>"
proof -
  let ?rest = "nick @ ''!'' @ ident @ ''@'' @ host"
  have chars: "utf8_chars (concat (map snd ps) @ ?rest) = map snd ps @ utf8_chars ?rest"
    using assms(3) by (intro utf8_chars_concat) auto
  have "utf8_chars ?rest \<noteq> []" using concat_utf8_chars [of ?rest] assms(5) by (metis append_is_Nil_conv concat.simps(1))
  moreover have "hd (utf8_chars ?rest) \<notin> set (map snd pmap)"
    using assms(6) hd_utf8_chars_append [OF assms(4,5)] by simp
  ultimately have "take_prefixes pmap (map snd ps @ utf8_chars ?rest) = (concat (map snd ps), concat (map fst ps), utf8_chars ?rest)"
    by (rule take_prefixes_append [OF assms(1,2)])
  then show ?thesis
    using parse_userhost_shown [OF assms(7,8)] unfolding parse_names_entry_def chars by (simp add: concat_utf8_chars)
qed

lemma names_entry_roundtrip_witness:
  "parse_names_entry ''@+Bob!b@h.example'' [(''o'', ''@''), (''v'', ''+'')] True =
    \<lparr>ne_nick = ''Bob'', ne_prefix = ''@+'', ne_modes = ''ov'', ne_away = False, ne_account = None,
     ne_ident = Some ''b'', ne_host = Some ''h.example''\<rparr>"
proof -
  let ?m = "[(''o'', ''@''), (''v'', ''+'')]"
  have "one_char p" if "p \<in> snd ` set ?m" for p using that by (auto simp: one_char_def utf8_len_def utf8_lead.simps)
  moreover have "utf8_valid ''Bob''" "hd (utf8_chars ''Bob'') \<notin> snd ` set ?m" by code_simp+
  ultimately show ?thesis using names_entry_roundtrip [of ?m ?m "''Bob''" "''b''" "''h.example''"] by simp
qed

section \<open>Batches\<close>

inductive batches_reachable :: "(bytes \<Rightarrow> bytes) \<Rightarrow> batch_tracker \<Rightarrow> bool" for upper where
  no_batches: "batches_reachable upper []"
| started: "batches_reachable upper t \<Longrightarrow> batches_reachable upper (start_batch upper now ref_tag kind params t)"
| added: "batches_reachable upper t \<Longrightarrow> batches_reachable upper (snd (batch_add_message m t))"
| purged: "batches_reachable upper t \<Longrightarrow> batches_reachable upper (snd (purge_expired now t))"
| ended: "batches_reachable upper t \<Longrightarrow> batches_reachable upper (snd (end_batch ref_tag t))"

lemma update_set: "x \<in> set (AList.update k v t) \<Longrightarrow> x = (k, v) \<or> x \<in> set t"
  by (induction t) (auto split: if_splits)

text \<open>
  An open batch holds at most 4096 messages, only messages that carry its
  tag, and counts a message as dropped only when it is full.
\<close>

theorem batches_bounded:
  assumes "batches_reachable upper t" "(ref_tag, i) \<in> set t"
  shows "length (bi_messages i) \<le> max_batch_messages \<and>
    (\<forall>m\<in>set (bi_messages i). get_batch_tag m = Some ref_tag) \<and>
    (0 < bi_dropped i \<longrightarrow> length (bi_messages i) = max_batch_messages)"
  using assms
proof (induction arbitrary: i)
  case (started t now ref_tag' kind params)
  then show ?case by (auto simp: start_batch_def dest: update_set)
next
  case (added t m)
  show ?case
  proof (cases "\<exists>tg j. get_batch_tag m = Some tg \<and> map_of t tg = Some j")
    case True
    then obtain tg j where tg: "get_batch_tag m = Some tg" "map_of t tg = Some j" by blast
    then have "(tg, j) \<in> set t" by (auto dest: map_of_SomeD)
    then show ?thesis using added tg by (fastforce simp: batch_add_message_def dest: update_set split: if_splits)
  qed (use added in \<open>auto simp: batch_add_message_def split: option.splits\<close>)
next
  case (ended t ref_tag')
  then show ?case by (auto simp: end_batch_def AList.delete_eq)
qed (auto simp: purge_expired_def)

lemma batches_bounded_witness:
  "\<exists>t i. batches_reachable ascii_lower t \<and> (''r'', i) \<in> set t \<and> length (bi_messages i) \<le> max_batch_messages"
proof -
  have t: "batches_reachable ascii_lower (start_batch ascii_lower 0 ''r'' ''netsplit'' [] [])"
    by (intro batches_reachable.intros)
  have "(''r'', \<lparr>bi_type = ascii_lower ''netsplit'', bi_params = [], bi_messages = [], bi_dropped = 0, bi_started_at = 0\<rparr>)
    \<in> set (start_batch ascii_lower 0 ''r'' ''netsplit'' [] [])" by (simp add: start_batch_def)
  from batches_bounded [OF t this] t this show ?thesis by blast
qed

end
