(* ===== verification/Ui_Input.thy ===== *)
theory Ui_Input
  imports Irc_Dispatch
begin

text \<open>
  \<open>src/src/ui/input.rs\<close>: the input line with its cursor, history, spell
  correction and tab completion; \<open>src/src/spellcheck/mod.rs\<close>: the checker; and the
  arms of \<open>handle_key\<close> and \<open>handle_paste\<close> of \<open>src/src/app/input.rs\<close> that edit the
  line.  String operations check their bounds as the standard library does:
  \<open>None\<close> is a panic.  The dictionaries (a Hunspell crate), Unicode properties, the
  emote names and the help texts are arguments; rendering is left out.
\<close>

section \<open>Strings by byte offsets\<close>

definition range_ok :: "bytes \<Rightarrow> nat \<Rightarrow> nat \<Rightarrow> bool" where
  "range_ok s a b \<longleftrightarrow> a \<le> b \<and> is_char_boundary s a \<and> is_char_boundary s b"

text \<open>\<open>String::replace_range\<close>, \<open>drain\<close> and \<open>insert_str\<close>.\<close>

definition replace_range :: "nat \<Rightarrow> nat \<Rightarrow> bytes \<Rightarrow> bytes \<Rightarrow> bytes option" where
  "replace_range a b r s = (if range_ok s a b then Some (take a s @ r @ drop b s) else None)"

definition drain :: "nat \<Rightarrow> nat \<Rightarrow> bytes \<Rightarrow> bytes option" where
  "drain a b s = replace_range a b [] s"

definition insert_str :: "nat \<Rightarrow> bytes \<Rightarrow> bytes \<Rightarrow> bytes option" where
  "insert_str i r s = replace_range i i r s"

definition slice_to :: "bytes \<Rightarrow> nat \<Rightarrow> bytes option" where
  "slice_to s i = (if is_char_boundary s i then Some (take i s) else None)"

definition slice_from :: "bytes \<Rightarrow> nat \<Rightarrow> bytes option" where
  "slice_from s i = (if is_char_boundary s i then Some (drop i s) else None)"

text \<open>\<open>s.char_indices().last()\<close> and \<open>s.char_indices().nth(1)\<close>, and the last white space (\<open>rfind(char::is_whitespace)\<close>).\<close>

definition last_char_start :: "bytes \<Rightarrow> nat" where
  "last_char_start s = length (concat (butlast (utf8_chars s)))"

definition second_char_start :: "bytes \<Rightarrow> nat option" where
  "second_char_start s = (case utf8_chars s of c # _ # _ \<Rightarrow> Some (length c) | _ \<Rightarrow> None)"

definition rfind_ws :: "bytes \<Rightarrow> nat option" where
  "rfind_ws s =
     (case dropWhile (\<lambda>c. \<not> is_ws_char c) (List.rev (utf8_chars s)) of
        [] \<Rightarrow> None
      | _ # before \<Rightarrow> Some (length (concat before)))"

definition is_control :: "bytes \<Rightarrow> bool" where
  "is_control c =
     (case c of
        [b] \<Rightarrow> byte_val b < 32 \<or> byte_val b = 127
      | [b, d] \<Rightarrow> byte_val b = 194 \<and> in_range 128 159 d
      | _ \<Rightarrow> False)"

definition is_ascii_punctuation :: "char \<Rightarrow> bool" where
  "is_ascii_punctuation c \<longleftrightarrow> in_range 33 47 c \<or> in_range 58 64 c \<or> in_range 91 96 c \<or> in_range 123 126 c"

section \<open>The state of the line\<close>

definition max_history :: nat where "max_history = 100"
definition max_history_entry_bytes :: nat where "max_history_entry_bytes = 4096"

record spell_correction =
  sp_word_start :: nat
  sp_word_end :: nat
  sp_original :: bytes
  sp_suggestions :: "bytes list"
  sp_index :: nat
  sp_highlight_only :: bool

record tab_completion =
  tb_prefix :: bytes
  tb_matches :: "bytes list"
  tb_index :: nat
  tb_text_before :: bytes
  tb_is_start_of_line :: bool
  tb_is_command :: bool

record input_state =
  in_value :: bytes
  in_cursor :: nat
  in_tab :: "tab_completion option"
  in_spell :: "spell_correction option"
  in_history :: "bytes list"
  in_history_index :: "nat option"
  in_saved :: "bytes option"

definition input_new :: input_state where
  "input_new = \<lparr>in_value = [], in_cursor = 0, in_tab = None, in_spell = None, in_history = [],
     in_history_index = None, in_saved = None\<rparr>"

section \<open>Editing\<close>

definition insert_char :: "bytes \<Rightarrow> input_state \<Rightarrow> input_state option" where
  "insert_char c s =
     (if is_control c then Some s
      else map_option (\<lambda>v. s\<lparr>in_spell := None, in_value := v, in_cursor := in_cursor s + length c, in_tab := None\<rparr>)
             (insert_str (in_cursor s) c (in_value s)))"

definition backspace :: "input_state \<Rightarrow> input_state option" where
  "backspace s =
     (if 0 < in_cursor s then
        Option.bind (slice_to (in_value s) (in_cursor s)) (\<lambda>before.
          let prev = last_char_start before
          in map_option (\<lambda>v. s\<lparr>in_value := v, in_cursor := prev, in_tab := None\<rparr>)
               (drain prev (in_cursor s) (in_value s)))
      else Some (s\<lparr>in_tab := None\<rparr>))"

text \<open>The start of the character behind the cursor.\<close>

definition next_boundary :: "input_state \<Rightarrow> bytes \<Rightarrow> nat" where
  "next_boundary s after =
     (case second_char_start after of None \<Rightarrow> length (in_value s) | Some i \<Rightarrow> in_cursor s + i)"

definition delete_forward :: "input_state \<Rightarrow> input_state option" where
  "delete_forward s =
     (if in_cursor s < length (in_value s) then
        Option.bind (slice_from (in_value s) (in_cursor s)) (\<lambda>after.
          map_option (\<lambda>v. s\<lparr>in_value := v, in_tab := None\<rparr>)
            (drain (in_cursor s) (next_boundary s after) (in_value s)))
      else Some (s\<lparr>in_tab := None\<rparr>))"

definition move_left :: "input_state \<Rightarrow> input_state option" where
  "move_left s =
     (if 0 < in_cursor s then
        map_option (\<lambda>before. s\<lparr>in_cursor := last_char_start before, in_tab := None\<rparr>)
          (slice_to (in_value s) (in_cursor s))
      else Some (s\<lparr>in_tab := None\<rparr>))"

definition move_right :: "input_state \<Rightarrow> input_state option" where
  "move_right s =
     (if in_cursor s < length (in_value s) then
        map_option (\<lambda>after. s\<lparr>in_cursor := next_boundary s after, in_tab := None\<rparr>)
          (slice_from (in_value s) (in_cursor s))
      else Some (s\<lparr>in_tab := None\<rparr>))"

definition home :: "input_state \<Rightarrow> input_state" where
  "home s = s\<lparr>in_cursor := 0, in_tab := None\<rparr>"

definition end_of_line :: "input_state \<Rightarrow> input_state" where
  "end_of_line s = s\<lparr>in_cursor := length (in_value s), in_tab := None\<rparr>"

definition clear_to_start :: "input_state \<Rightarrow> input_state option" where
  "clear_to_start s =
     (if 0 < in_cursor s
      then map_option (\<lambda>v. s\<lparr>in_value := v, in_cursor := 0, in_tab := None\<rparr>) (drain 0 (in_cursor s) (in_value s))
      else Some (s\<lparr>in_tab := None\<rparr>))"

definition clear_to_end :: "input_state \<Rightarrow> input_state option" where
  "clear_to_end s =
     (if in_cursor s < length (in_value s)
      then map_option (\<lambda>v. s\<lparr>in_value := v, in_tab := None\<rparr>) (slice_to (in_value s) (in_cursor s))
      else Some (s\<lparr>in_tab := None\<rparr>))"

definition delete_word_back :: "input_state \<Rightarrow> input_state option" where
  "delete_word_back s =
     (if in_cursor s = 0 then Some s
      else Option.bind (slice_to (in_value s) (in_cursor s)) (\<lambda>before.
        let trimmed = trim_end before;
            word_start = (case rfind_ws trimmed of None \<Rightarrow> 0 | Some i \<Rightarrow> i + 1)
        in map_option (\<lambda>v. s\<lparr>in_value := v, in_cursor := word_start, in_tab := None\<rparr>)
             (drain word_start (in_cursor s) (in_value s))))"

definition clear_line :: "input_state \<Rightarrow> bytes \<times> input_state" where
  "clear_line s = (in_value s, s\<lparr>in_value := [], in_cursor := 0, in_tab := None\<rparr>)"

definition remember :: "bytes \<Rightarrow> bytes list \<Rightarrow> bytes list" where
  "remember v hist =
     (if v \<noteq> [] \<and> length v \<le> max_history_entry_bytes then
        let h = hist @ [v] in if max_history < length h then tl h else h
      else hist)"

definition submit :: "input_state \<Rightarrow> bytes \<times> input_state" where
  "submit s =
     (let (v, s1) = clear_line s
      in (v, s1\<lparr>in_history := remember v (in_history s1), in_history_index := None, in_saved := None\<rparr>))"

section \<open>History\<close>

definition recall :: "nat \<Rightarrow> input_state \<Rightarrow> input_state option" where
  "recall i s =
     (if i < length (in_history s)
      then Some (s\<lparr>in_history_index := Some i, in_value := in_history s ! i, in_cursor := length (in_history s ! i)\<rparr>)
      else None)"

definition history_up :: "input_state \<Rightarrow> input_state option" where
  "history_up s =
     (if in_history s = [] then Some s
      else map_option (\<lambda>t. t\<lparr>in_tab := None\<rparr>)
        (case in_history_index s of
           None \<Rightarrow> recall (length (in_history s) - 1) (s\<lparr>in_saved := Some (in_value s)\<rparr>)
         | Some i \<Rightarrow> if 0 < i then recall (i - 1) s else Some s))"

definition history_down :: "input_state \<Rightarrow> input_state option" where
  "history_down s =
     map_option (\<lambda>t. t\<lparr>in_tab := None\<rparr>)
       (case in_history_index s of
          Some i \<Rightarrow>
            if i + 1 < length (in_history s) then recall (i + 1) s
            else
              let v = unwrap_or [] (in_saved s)
              in Some (s\<lparr>in_history_index := None, in_saved := None, in_value := v, in_cursor := length v\<rparr>)
        | None \<Rightarrow> Some s)"


section \<open>Spell correction\<close>

text \<open>\<open>saturating_sub\<close> is the subtraction of natural numbers.\<close>

definition dismiss_spell :: "input_state \<Rightarrow> input_state option" where
  "dismiss_spell s =
     (case in_spell s of
        None \<Rightarrow> Some s
      | Some sp \<Rightarrow>
          let s1 = s\<lparr>in_spell := None\<rparr> in
          if sp_highlight_only sp then Some s1
          else map_option (\<lambda>v. s1\<lparr>in_value := v,
                 in_cursor := (if sp_word_start sp < in_cursor s
                   then in_cursor s + length (sp_original sp) - (sp_word_end sp - sp_word_start sp) else in_cursor s)\<rparr>)
                 (replace_range (sp_word_start sp) (sp_word_end sp) (sp_original sp) (in_value s)))"

definition apply_spell_suggestion :: "nat \<Rightarrow> input_state \<Rightarrow> input_state option" where
  "apply_spell_suggestion i s =
     (case in_spell s of
        None \<Rightarrow> Some s
      | Some sp \<Rightarrow>
          if length (sp_suggestions sp) \<le> i then Some s
          else
            let r = sp_suggestions sp ! i; old_len = sp_word_end sp - sp_word_start sp
            in map_option (\<lambda>v. s\<lparr>in_value := v,
                 in_spell := Some (sp\<lparr>sp_word_end := sp_word_start sp + length r, sp_index := i\<rparr>),
                 in_cursor := (if sp_word_start sp < in_cursor s then in_cursor s + length r - old_len else in_cursor s)\<rparr>)
                 (replace_range (sp_word_start sp) (sp_word_end sp) r (in_value s)))"

definition cycle_spell_suggestion :: "input_state \<Rightarrow> input_state option" where
  "cycle_spell_suggestion s =
     (case in_spell s of
        None \<Rightarrow> Some s
      | Some sp \<Rightarrow>
          if sp_suggestions sp = [] then Some s
          else apply_spell_suggestion ((sp_index sp + 1) mod length (sp_suggestions sp)) s)"

definition accept_spell_with_punctuation :: "bytes \<Rightarrow> input_state \<Rightarrow> input_state option" where
  "accept_spell_with_punctuation punct s =
     (case in_spell s of
        None \<Rightarrow> Some s
      | Some sp \<Rightarrow>
          let s1 = s\<lparr>in_spell := None\<rparr>; after = sp_word_end sp;
              finish = (\<lambda>v. map_option (\<lambda>w. s1\<lparr>in_value := w, in_cursor := after + length punct\<rparr>) (insert_str after punct v))
          in if after < length (in_value s) then
               Option.bind (slice_from (in_value s) after) (\<lambda>rest.
                 let next_end = (case second_char_start rest of None \<Rightarrow> length (in_value s) | Some i \<Rightarrow> after + i)
                 in Option.bind (drain after next_end (in_value s)) finish)
             else finish (in_value s))"

definition is_command_line :: "input_state \<Rightarrow> bool" where
  "is_command_line s = starts_with ''/'' (in_value s)"

text \<open>Outer option: a panic; inner: no word.  The start is behind the last white space, a whole character.\<close>

definition last_completed_word :: "input_state \<Rightarrow> (nat \<times> nat \<times> bytes) option option" where
  "last_completed_word s =
     map_option (\<lambda>before.
       let trimmed = trim_end before in
       if trimmed = [] then None
       else
         let word_start = (case rfind_ws trimmed of
               None \<Rightarrow> 0
             | Some i \<Rightarrow> (case second_char_start (drop i trimmed) of None \<Rightarrow> length trimmed | Some j \<Rightarrow> i + j));
             word = drop word_start trimmed
         in if word = [] then None else Some (word_start, length trimmed, word))
       (slice_to (in_value s) (in_cursor s))"

section \<open>The spell checker\<close>

text \<open>
  A dictionary is its test and its suggestions, the order of the list is the
  priority; \<open>alnum\<close> is \<open>char::is_alphanumeric\<close>.
\<close>

record dictionary =
  dc_check :: "bytes \<Rightarrow> bool"
  dc_suggest :: "bytes \<Rightarrow> bytes list"

record spell_checker =
  sc_dicts :: "dictionary list"
  sc_computing :: "(bytes \<Rightarrow> bool) option"

definition max_suggestions :: nat where "max_suggestions = 4"
definition max_per_dict :: nat where "max_per_dict = 6"
definition min_word_len :: nat where "min_word_len = 2"

definition url_prefixes :: "bytes list" where
  "url_prefixes = [''http:'', ''https:'', ''ftp:'', ''ftps:'', ''ssh:'', ''irc:'', ''ircs:'', ''git:'',
     ''svn:'', ''file:'', ''telnet:'']"

definition is_url :: "(bytes \<Rightarrow> bytes) \<Rightarrow> bytes \<Rightarrow> bool" where
  "is_url lower word = list_ex (\<lambda>p. starts_with p (lower word)) url_prefixes"

definition is_number_like :: "bytes \<Rightarrow> bool" where
  "is_number_like word = (word \<noteq> [] \<and> list_all (\<lambda>c. is_ascii_digit c \<or> is_ascii_punctuation c) word)"

definition spell_check :: "(bytes \<Rightarrow> bytes) \<Rightarrow> spell_checker \<Rightarrow> bytes list \<Rightarrow> bytes \<Rightarrow> bool" where
  "spell_check lower sc nicks word \<longleftrightarrow>
     sc_dicts sc = [] \<and> sc_computing sc = None \<or> length word < min_word_len \<or>
     is_url lower word \<or> is_number_like word \<or> CHR ''_'' \<in> set word \<or>
     list_ex (\<lambda>n. lower n = lower word) nicks \<or>
     (case sc_computing sc of None \<Rightarrow> False | Some cd \<Rightarrow> cd word) \<or>
     list_ex (\<lambda>d. dc_check d word) (sc_dicts sc)"

text \<open>The suggestions of one dictionary; the flag says that the list is full.\<close>

fun collect_suggestions :: "(bytes \<Rightarrow> bytes) \<Rightarrow> bytes list \<Rightarrow> bytes list \<times> bytes list \<Rightarrow> bool \<times> bytes list \<times> bytes list" where
  "collect_suggestions lower [] st = (False, st)"
| "collect_suggestions lower (w # ws) (out, seen) =
     (if lower w \<in> set seen then collect_suggestions lower ws (out, seen)
      else
        let out1 = out @ [w]; seen1 = lower w # seen
        in if max_suggestions \<le> length out1 then (True, out1, seen1) else collect_suggestions lower ws (out1, seen1))"

fun suggest_from :: "(bytes \<Rightarrow> bytes) \<Rightarrow> bytes \<Rightarrow> dictionary list \<Rightarrow> bytes list \<times> bytes list \<Rightarrow> bytes list" where
  "suggest_from lower word [] st = fst st"
| "suggest_from lower word (d # ds) st =
     (case collect_suggestions lower (take max_per_dict (dc_suggest d word)) st of
        (True, out, seen) \<Rightarrow> out
      | (False, st1) \<Rightarrow> suggest_from lower word ds st1)"

definition suggest :: "(bytes \<Rightarrow> bytes) \<Rightarrow> spell_checker \<Rightarrow> bytes \<Rightarrow> bytes list" where
  "suggest lower sc word = suggest_from lower word (sc_dicts sc) ([], [])"

definition strip_word_punctuation :: "(bytes \<Rightarrow> bool) \<Rightarrow> bytes \<Rightarrow> bytes \<times> nat \<times> nat" where
  "strip_word_punctuation alnum word =
     (let chars = utf8_chars word;
          before = takeWhile (\<lambda>c. \<not> alnum c) chars;
          start = length (concat before)
      in if length word \<le> start then ([], 0, 0)
         else
           let end = length word - length (concat (takeWhile (\<lambda>c. \<not> alnum c) (List.rev chars)))
           in (take (end - start) (drop start word), start, end))"


section \<open>Tab completion\<close>

text \<open>
  What completion draws on besides the line: the nicks of the buffer, its recent
  speakers, the commands, the setting paths, whether emotes are on, the emote
  names, and the subcommands the help texts name for a command.
\<close>

record completions =
  cp_nicks :: "bytes list"
  cp_last_speakers :: "bytes list"
  cp_commands :: "bytes list"
  cp_setting_paths :: "bytes list"
  cp_emotes_enabled :: bool
  cp_tag_names :: "bytes list"
  cp_subcommands :: "bytes \<Rightarrow> bytes list"

definition split_completion_word :: "bytes \<Rightarrow> bytes \<times> bytes" where
  "split_completion_word s =
     (let (before, word) = (case rfind_char (CHR 0x20) s of
            None \<Rightarrow> ([], s)
          | Some i \<Rightarrow> (take (i + 1) s, drop (i + 1) s))
      in case rfind_char (CHR '','') word of
           None \<Rightarrow> (before, word)
         | Some i \<Rightarrow> (before @ take (i + 1) word, drop (i + 1) word))"

definition is_emote_prefix :: "bytes \<Rightarrow> bool" where
  "is_emote_prefix word =
     (case strip_prefix '':'' word of None \<Rightarrow> False | Some p \<Rightarrow> p \<noteq> [] \<and> CHR '':'' \<notin> set p)"

definition emote_completions :: "bytes list \<Rightarrow> bytes \<Rightarrow> bytes list option" where
  "emote_completions tag_names word =
     (if is_emote_prefix word
      then Some (map (\<lambda>n. '':'' @ n @ '':'') (filter (starts_with (ascii_lower (tl word))) tag_names))
      else None)"

definition nick_completions :: "(bytes \<Rightarrow> bytes) \<Rightarrow> bytes list \<Rightarrow> bytes list \<Rightarrow> bytes \<Rightarrow> bytes list" where
  "nick_completions lower nicks last_speakers pfx =
     (let recent = filter (\<lambda>n. starts_with (lower pfx) (lower n)) last_speakers;
          recent_lower = map lower recent
      in recent @ sort_key lower
           (filter (\<lambda>n. starts_with (lower pfx) (lower n) \<and> lower n \<notin> set recent_lower) nicks))"

datatype subcommand_context = ContextHelp | ContextSet | ContextSubcommand "bytes list"

definition detect_subcommand_context :: "(bytes \<Rightarrow> bytes) \<Rightarrow> completions \<Rightarrow> bytes \<Rightarrow> subcommand_context option" where
  "detect_subcommand_context lower cp before =
     (let line = lower (trim before) in
      if line = ''/help'' \<or> line = ''/?'' then Some ContextHelp
      else if line = ''/set'' then Some ContextSet
      else (case strip_prefix ''/'' line of
              None \<Rightarrow> None
            | Some cmd \<Rightarrow>
                if CHR 0x20 \<notin> set cmd \<and> cp_subcommands cp cmd \<noteq> [] then Some (ContextSubcommand (cp_subcommands cp cmd))
                else None))"

definition prefixed :: "(bytes \<Rightarrow> bytes) \<Rightarrow> bytes \<Rightarrow> bytes list \<Rightarrow> bytes list" where
  "prefixed lower pfx = filter (\<lambda>c. starts_with (lower pfx) (lower c))"

definition completion_matches :: "(bytes \<Rightarrow> bytes) \<Rightarrow> completions \<Rightarrow> bytes \<Rightarrow> bytes \<Rightarrow> bytes list" where
  "completion_matches lower cp before word =
     (if cp_emotes_enabled cp \<and> is_emote_prefix word then unwrap_or [] (emote_completions (cp_tag_names cp) word)
      else (case detect_subcommand_context lower cp before of
              Some ContextHelp \<Rightarrow> sort_key lower (prefixed lower word (cp_commands cp))
            | Some ContextSet \<Rightarrow> sort_key lower (prefixed lower word (cp_setting_paths cp))
            | Some (ContextSubcommand subs) \<Rightarrow> sort_key lower (prefixed lower word subs)
            | None \<Rightarrow>
                if before = [] \<and> starts_with ''/'' word
                then sort_key lower (map (\<lambda>c. ''/'' @ c) (prefixed lower (tl word) (cp_commands cp)))
                else nick_completions lower (cp_nicks cp) (cp_last_speakers cp) word))"

definition completion_suffix :: "bool \<Rightarrow> bool \<Rightarrow> bytes" where
  "completion_suffix start_of_line command = (if \<not> command \<and> start_of_line then '': '' else '' '')"

definition show_completion :: "tab_completion \<Rightarrow> input_state \<Rightarrow> input_state" where
  "show_completion tb s =
     (let v = tb_text_before tb @ tb_matches tb ! tb_index tb @
                completion_suffix (tb_is_start_of_line tb) (tb_is_command tb)
      in s\<lparr>in_value := v, in_cursor := length v, in_tab := Some tb\<rparr>)"

definition tab_complete :: "(bytes \<Rightarrow> bytes) \<Rightarrow> completions \<Rightarrow> input_state \<Rightarrow> input_state option" where
  "tab_complete lower cp s =
     (case in_tab s of
        Some tb \<Rightarrow>
          Some (if tb_matches tb = [] then s
                else show_completion (tb\<lparr>tb_index := (tb_index tb + 1) mod length (tb_matches tb)\<rparr>) s)
      | None \<Rightarrow>
          map_option (\<lambda>line.
            let (before, word) = split_completion_word line;
                found = completion_matches lower cp before word;
                is_emote = (cp_emotes_enabled cp \<and> is_emote_prefix word)
            in if word = [] \<or> found = [] then s
               else show_completion \<lparr>tb_prefix = word, tb_matches = found, tb_index = 0, tb_text_before = before,
                      tb_is_start_of_line = (before = [] \<and> \<not> is_emote),
                      tb_is_command = (before = [] \<and> starts_with ''/'' word)\<rparr> s)
            (slice_to (in_value s) (in_cursor s)))"

section \<open>Keys\<close>

text \<open>
  What a key press reads besides the line: the checker, if spell checking is on,
  its mode, the nicks of the active buffer, and what completion draws on.
\<close>

record editor_env =
  ed_lower :: "bytes \<Rightarrow> bytes"
  ed_alnum :: "bytes \<Rightarrow> bool"
  ed_checker :: "spell_checker option"
  ed_highlight :: bool
  ed_completions :: completions

definition check_spelling_after_separator :: "editor_env \<Rightarrow> input_state \<Rightarrow> input_state option" where
  "check_spelling_after_separator ed s =
     (case ed_checker ed of
        None \<Rightarrow> Some s
      | Some sc \<Rightarrow>
          if is_command_line s then Some s
          else Option.bind (last_completed_word s) (\<lambda>found.
            (case found of
               None \<Rightarrow> Some s
             | Some (raw_start, raw_end, raw_word) \<Rightarrow>
                 let (stripped, a, b) = strip_word_punctuation (ed_alnum ed) raw_word;
                     sugg = suggest (ed_lower ed) sc stripped;
                     s1 = s\<lparr>in_spell := Some \<lparr>sp_word_start = raw_start + a, sp_word_end = raw_start + b,
                            sp_original = stripped, sp_suggestions = sugg, sp_index = 0,
                            sp_highlight_only = ed_highlight ed\<rparr>\<rparr>
                 in if stripped = [] \<or> spell_check (ed_lower ed) sc (cp_nicks (ed_completions ed)) stripped \<or> sugg = [] then Some s
                    else if ed_highlight ed then Some s1 else apply_spell_suggestion 0 s1)))"

definition is_separator :: "bytes \<Rightarrow> bool" where
  "is_separator c = (c = '' '' \<or> (\<exists>b. c = [b] \<and> is_ascii_punctuation b \<and> b \<noteq> CHR ''/''))"

lemma is_separator_code [code]:
  "is_separator c = (c = '' '' \<or> (case c of [b] \<Rightarrow> is_ascii_punctuation b \<and> b \<noteq> CHR ''/'' | _ \<Rightarrow> False))"
  by (auto simp: is_separator_def split: list.split)

definition insert_and_check :: "editor_env \<Rightarrow> bytes \<Rightarrow> input_state \<Rightarrow> input_state option" where
  "insert_and_check ed c s =
     Option.bind (insert_char c s) (\<lambda>s1. if is_separator c then check_spelling_after_separator ed s1 else Some s1)"

definition needs_space :: "input_state \<Rightarrow> spell_correction \<Rightarrow> bool option" where
  "needs_space s sp = map_option (\<lambda>rest. \<not> starts_with '' '' rest) (slice_from (in_value s) (sp_word_end sp))"

definition type_char :: "editor_env \<Rightarrow> bytes \<Rightarrow> input_state \<Rightarrow> input_state option" where
  "type_char ed c s =
     (case in_spell s of
        None \<Rightarrow> insert_and_check ed c s
      | Some sp \<Rightarrow>
          let s1 = s\<lparr>in_spell := None\<rparr> in
          if sp_highlight_only sp then insert_and_check ed c s1
          else if c = '' '' then
            Option.bind (needs_space s sp) (\<lambda>b. if b then insert_char '' '' s1 else Some s1)
          else if List.member [''.'', '','', ''!'', ''?'', '';'', '':''] c then accept_spell_with_punctuation c s
          else insert_char c s1)"

definition press_tab :: "editor_env \<Rightarrow> input_state \<Rightarrow> input_state option" where
  "press_tab ed s =
     (case in_spell s of
        None \<Rightarrow> tab_complete (ed_lower ed) (ed_completions ed) s
      | Some sp \<Rightarrow>
          if sp_highlight_only sp then tab_complete (ed_lower ed) (ed_completions ed) (s\<lparr>in_spell := None\<rparr>)
          else cycle_spell_suggestion s)"

datatype edit_key =
    KeyEsc | KeyClearToStart | KeyClearToEnd | KeyWordBack | KeyHome | KeyEnd | KeyLeft | KeyRight
  | KeyBackspace | KeyDelete | KeyUp | KeyDown | KeyTab | KeyEnter | KeyChar bytes

text \<open>The line after the key, and the text it submits (only Enter does).\<close>

definition press_key :: "editor_env \<Rightarrow> edit_key \<Rightarrow> input_state \<Rightarrow> (bytes \<times> input_state) option" where
  "press_key ed k s =
     (case k of
        KeyEsc \<Rightarrow> map_option (Pair []) (dismiss_spell s)
      | KeyClearToStart \<Rightarrow> map_option (Pair []) (clear_to_start s)
      | KeyClearToEnd \<Rightarrow> map_option (Pair []) (clear_to_end s)
      | KeyWordBack \<Rightarrow> map_option (Pair []) (delete_word_back s)
      | KeyHome \<Rightarrow> Some ([], home s)
      | KeyEnd \<Rightarrow> Some ([], end_of_line s)
      | KeyLeft \<Rightarrow> map_option (Pair []) (move_left s)
      | KeyRight \<Rightarrow> map_option (Pair []) (move_right s)
      | KeyBackspace \<Rightarrow> map_option (Pair []) (Option.bind (dismiss_spell s) backspace)
      | KeyDelete \<Rightarrow> map_option (Pair []) (delete_forward s)
      | KeyUp \<Rightarrow> map_option (Pair []) (history_up s)
      | KeyDown \<Rightarrow> map_option (Pair []) (history_down s)
      | KeyTab \<Rightarrow> map_option (Pair []) (press_tab ed s)
      | KeyEnter \<Rightarrow> Some (submit (s\<lparr>in_spell := None\<rparr>))
      | KeyChar c \<Rightarrow> map_option (Pair []) (type_char ed c s))"

section \<open>Paste\<close>

definition max_paste_lines :: nat where "max_paste_lines = 1000"

definition trim_end_cr :: "bytes \<Rightarrow> bytes" where
  "trim_end_cr l = List.rev (dropWhile (\<lambda>c. c = CHR 0x0D) (List.rev l))"

fun insert_chars :: "bytes list \<Rightarrow> input_state \<Rightarrow> input_state option" where
  "insert_chars [] s = Some s"
| "insert_chars (c # cs) s = Option.bind (insert_char c s) (insert_chars cs)"

text \<open>
  The line, the text handed to \<open>handle_submit\<close> at once and the queue of the lines
  that follow it; a paste of one line leaves the queue.
\<close>

definition handle_paste :: "bytes \<Rightarrow> bytes list \<Rightarrow> input_state \<Rightarrow> (bytes \<times> bytes list \<times> input_state) option" where
  "handle_paste pasted queue s =
     (case filter (\<lambda>l. l \<noteq> []) (map trim_end_cr (split_on (CHR 0x0A) pasted)) of
        [] \<Rightarrow> Some ([], queue, s)
      | [l] \<Rightarrow> map_option (\<lambda>s1. ([], queue, s1)) (insert_chars (utf8_chars l) s)
      | l # ls \<Rightarrow>
          let (current, s1) = submit s
          in Some (current @ l, take max_paste_lines ls, s1))"

definition drain_paste_queue :: "bytes list \<Rightarrow> bytes \<times> bytes list" where
  "drain_paste_queue queue = (case queue of [] \<Rightarrow> ([], []) | l # ls \<Rightarrow> (l, ls))"

end
