(* ===== verification/Ui_Editor.thy ===== *)
theory Ui_Editor
  imports Ui_Input
begin

text \<open>
  The input line as a specification: the characters before the cursor and those
  behind it.  Editing keys act on this pair the way a user expects; the byte
  offsets of the code refine it.
\<close>

section \<open>Text as characters\<close>

lemma one_char_valid: "one_char c \<Longrightarrow> utf8_valid c"
  by (cases c) (auto simp: one_char_def utf8_valid.simps(2) Let_def)

definition chars_ok :: "bytes list \<Rightarrow> bool" where
  "chars_ok cs \<longleftrightarrow> (\<forall>c\<in>set cs. one_char c)"

lemma chars_ok_simps [simp]:
  "chars_ok []" "chars_ok (c # cs) \<longleftrightarrow> one_char c \<and> chars_ok cs" "chars_ok (cs @ ds) \<longleftrightarrow> chars_ok cs \<and> chars_ok ds"
  by (auto simp: chars_ok_def)

lemma chars_valid: "chars_ok cs \<Longrightarrow> utf8_valid (concat cs)"
  by (induction cs) (auto intro: utf8_valid_append one_char_valid)

lemma chars_concat: "chars_ok cs \<Longrightarrow> utf8_chars (concat cs) = cs"
  by (induction cs) (simp_all add: utf8_chars_one)

lemma valid_chars: "utf8_valid s \<Longrightarrow> chars_ok (utf8_chars s)"
proof (induction "length s" arbitrary: s rule: less_induct)
  case less
  show ?case
  proof (cases "s = []")
    case False
    let ?k = "utf8_len s"
    have k: "0 < ?k" "utf8_valid (drop ?k s)" using less.prems False by (auto simp: utf8_valid_Cons)
    then have "one_char (take ?k s)" using utf8_len_le [of s] False by (simp add: one_char_def utf8_len_take)
    moreover have "chars_ok (utf8_chars (drop ?k s))" using k False by (intro less.hyps) auto
    ultimately show ?thesis using k by (simp add: utf8_chars_head)
  qed simp
qed

text \<open>The boundaries of a text are the ends of its characters.\<close>

lemma boundary_between: "chars_ok R \<Longrightarrow> is_char_boundary (concat L @ concat R) (length (concat L))"
proof (cases R)
  case (Cons c cs)
  assume "chars_ok R"
  then have "0 < utf8_len c" "c \<noteq> []" by (auto simp: Cons one_char_def)
  then have "\<not> is_cont (hd c)" using utf8_len_head by blast
  then show ?thesis using \<open>c \<noteq> []\<close> by (auto simp: Cons is_char_boundary_def nth_append hd_conv_nth)
qed (simp add: is_char_boundary_def)

lemma range_between:
  assumes "chars_ok M" "chars_ok R"
  shows "range_ok (concat L @ concat M @ concat R) (length (concat L)) (length (concat L) + length (concat M))"
  using boundary_between [of "M @ R" L] boundary_between [of R "L @ M"] assms by (simp add: range_ok_def)

lemma replace_between:
  assumes "chars_ok M" "chars_ok R"
  shows "replace_range (length (concat L)) (length (concat L) + length (concat M)) t (concat L @ concat M @ concat R) =
    Some (concat L @ t @ concat R)"
  using range_between [OF assms] by (simp add: replace_range_def)

lemma inside_char_no_boundary:
  assumes "one_char c" "0 < j" "j < length c"
  shows "\<not> is_char_boundary (p @ c @ r) (length p + j)"
proof -
  have "is_cont (c ! j)" using assms by (intro utf8_len_tail_cont) (auto simp: one_char_def)
  then show ?thesis using assms by (simp add: is_char_boundary_def nth_append)
qed

section \<open>The line and its specification\<close>

type_synonym line = "bytes list \<times> bytes list"

definition shows_line :: "input_state \<Rightarrow> line \<Rightarrow> bool" where
  "shows_line s l \<longleftrightarrow> (case l of (L, R) \<Rightarrow> in_value s = concat L @ concat R \<and> in_cursor s = length (concat L) \<and>
     chars_ok L \<and> chars_ok R)"

text \<open>What Ctrl+W leaves before the cursor: the word and the white space behind it go.\<close>

definition before_word :: "bytes list \<Rightarrow> bytes list" where
  "before_word L = List.rev (dropWhile (\<lambda>c. \<not> is_ws_char c) (dropWhile is_ws_char (List.rev L)))"

fun line_step :: "edit_key \<Rightarrow> line \<Rightarrow> line" where
  "line_step KeyClearToStart (L, R) = ([], R)"
| "line_step KeyClearToEnd (L, R) = (L, [])"
| "line_step KeyWordBack (L, R) = (before_word L, R)"
| "line_step KeyHome (L, R) = ([], L @ R)"
| "line_step KeyEnd (L, R) = (L @ R, [])"
| "line_step KeyLeft (L, R) = (if L = [] then (L, R) else (butlast L, List.last L # R))"
| "line_step KeyRight (L, R) = (case R of [] \<Rightarrow> (L, R) | c # cs \<Rightarrow> (L @ [c], cs))"
| "line_step KeyBackspace (L, R) = (butlast L, R)"
| "line_step KeyDelete (L, R) = (L, tl R)"
| "line_step (KeyChar c) (L, R) = (if is_control c then (L, R) else (L @ [c], R))"
| "line_step k l = l"

text \<open>The keys that edit, with the characters they may type, and Ctrl+W behind white space of one byte.\<close>

fun edits :: "edit_key \<Rightarrow> line \<Rightarrow> bool" where
  "edits (KeyChar c) l = one_char c"
| "edits KeyWordBack (L, R) = (before_word L \<noteq> [] \<longrightarrow> length (List.last (before_word L)) = 1)"
| "edits k l = (k \<notin> {KeyUp, KeyDown, KeyTab, KeyEnter})"

lemma last_char_start_concat:
  "chars_ok L \<Longrightarrow> last_char_start (concat L) = length (concat (butlast L))"
  by (simp add: last_char_start_def chars_concat)

lemma second_char_concat:
  "chars_ok R \<Longrightarrow> second_char_start (concat R) = (case R of c # _ # _ \<Rightarrow> Some (length c) | _ \<Rightarrow> None)"
  by (simp add: second_char_start_def chars_concat)

lemma next_boundary_line:
  assumes "shows_line s (L, c # R)"
  shows "next_boundary s (concat (c # R)) = length (concat L) + length c"
  using assms second_char_concat [of "c # R"] by (auto simp: shows_line_def next_boundary_def split: list.split)

lemma insert_line:
  assumes "shows_line s (L, R)" "one_char c" "\<not> is_control c"
  shows "\<exists>s'. insert_char c s = Some s' \<and> shows_line s' (L @ [c], R) \<and> in_spell s' = None"
proof -
  have "insert_str (in_cursor s) c (in_value s) = Some (concat L @ c @ concat R)"
    using replace_between [of "[]" R L c] assms(1) by (simp add: insert_str_def shows_line_def)
  then show ?thesis using assms by (auto simp: insert_char_def shows_line_def)
qed

lemma cut_line: "shows_line s (L, R) \<Longrightarrow> slice_to (in_value s) (in_cursor s) = Some (concat L)"
  "shows_line s (L, R) \<Longrightarrow> slice_from (in_value s) (in_cursor s) = Some (concat R)"
  using boundary_between [of R L] by (simp_all add: slice_to_def slice_from_def shows_line_def)

lemma one_char_length: "one_char c \<Longrightarrow> 0 < length c"
  by (simp add: one_char_def)

lemma concat_empty: "chars_ok L \<Longrightarrow> concat L = [] \<longleftrightarrow> L = []"
  by (cases L) (auto simp: one_char_def)

lemma backspace_line:
  assumes line: "shows_line s (L, R)"
  shows "\<exists>s'. backspace s = Some s' \<and> shows_line s' (butlast L, R)"
proof (cases L rule: rev_cases)
  case (snoc K c)
  have "drain (length (concat K)) (in_cursor s) (in_value s) = Some (concat K @ concat R)"
    using replace_between [of "[c]" R K "[]"] line by (simp add: drain_def snoc shows_line_def)
  then show ?thesis using cut_line(1) [OF line] line last_char_start_concat [of L]
    by (auto simp: backspace_def shows_line_def snoc dest: one_char_length)
qed (use line in \<open>simp add: backspace_def shows_line_def\<close>)

lemma delete_line:
  assumes line: "shows_line s (L, R)"
  shows "\<exists>s'. delete_forward s = Some s' \<and> shows_line s' (L, tl R)"
proof (cases R)
  case (Cons c cs)
  have "drain (length (concat L)) (length (concat L) + length c) (in_value s) = Some (concat L @ concat cs)"
    using replace_between [of "[c]" cs L "[]"] line by (simp add: drain_def Cons shows_line_def)
  then show ?thesis using cut_line(2) [OF line] next_boundary_line [OF line [unfolded Cons]] line
    by (auto simp: delete_forward_def shows_line_def Cons dest: one_char_length)
qed (use line in \<open>simp add: delete_forward_def shows_line_def\<close>)

lemma move_line:
  assumes line: "shows_line s (L, R)"
  shows "\<exists>s'. move_left s = Some s' \<and> shows_line s' (line_step KeyLeft (L, R))"
    "\<exists>s'. move_right s = Some s' \<and> shows_line s' (line_step KeyRight (L, R))"
proof -
  show "\<exists>s'. move_left s = Some s' \<and> shows_line s' (line_step KeyLeft (L, R))"
  proof (cases L rule: rev_cases)
    case (snoc K c)
    then show ?thesis using cut_line(1) [OF line] line last_char_start_concat [of L]
      by (auto simp: move_left_def shows_line_def dest: one_char_length)
  qed (use line in \<open>simp add: move_left_def shows_line_def\<close>)
  show "\<exists>s'. move_right s = Some s' \<and> shows_line s' (line_step KeyRight (L, R))"
  proof (cases R)
    case (Cons c cs)
    then show ?thesis using cut_line(2) [OF line] line next_boundary_line [OF line [unfolded Cons]]
      by (auto simp: move_right_def shows_line_def dest: one_char_length)
  qed (use line in \<open>simp add: move_right_def shows_line_def\<close>)
qed

lemma clear_line_parts:
  assumes line: "shows_line s (L, R)"
  shows "\<exists>s'. clear_to_start s = Some s' \<and> shows_line s' ([], R)"
    "\<exists>s'. clear_to_end s = Some s' \<and> shows_line s' (L, [])"
proof -
  have "drain 0 (in_cursor s) (in_value s) = Some (concat R)"
    using replace_between [of L R "[]" "[]"] line by (simp add: drain_def shows_line_def)
  then show "\<exists>s'. clear_to_start s = Some s' \<and> shows_line s' ([], R)"
    using line by (auto simp: clear_to_start_def shows_line_def)
  show "\<exists>s'. clear_to_end s = Some s' \<and> shows_line s' (L, [])"
    using line cut_line(1) [OF line] by (auto simp: clear_to_end_def shows_line_def)
qed


section \<open>Ctrl+W\<close>

lemma before_word_split: "\<exists>M. L = before_word L @ M"
proof -
  have rest: "\<exists>M. L = List.rev (dropWhile P (List.rev L)) @ M" for P :: "bytes \<Rightarrow> bool" and L
    by (metis rev_append rev_rev_ident takeWhile_dropWhile_id)
  obtain M where "L = List.rev (dropWhile is_ws_char (List.rev L)) @ M" using rest by blast
  moreover obtain M' where "List.rev (dropWhile is_ws_char (List.rev L)) = before_word L @ M'"
    using rest [of "List.rev (dropWhile is_ws_char (List.rev L))" "\<lambda>c. \<not> is_ws_char c"] by (auto simp: before_word_def)
  ultimately show ?thesis by (metis append.assoc)
qed

lemma rfind_ws_trimmed:
  assumes "chars_ok L"
  shows "rfind_ws (trim_end (concat L)) =
    (if before_word L = [] then None else Some (length (concat (butlast (before_word L)))))"
proof -
  let ?T = "List.rev (dropWhile is_ws_char (List.rev L))"
  have "chars_ok ?T" using assms by (auto simp: chars_ok_def dest: set_dropWhileD)
  then have chars: "utf8_chars (trim_end (concat L)) = ?T" using assms by (simp add: trim_end_def chars_concat)
  have len: "length (concat (List.rev xs)) = length (concat xs)" for xs :: "bytes list"
    by (simp add: length_concat rev_map [symmetric] sum_list_rev)
  obtain D where D: "dropWhile (\<lambda>c. \<not> is_ws_char c) (dropWhile is_ws_char (List.rev L)) = D" by blast
  have "rfind_ws (trim_end (concat L)) = (case D of [] \<Rightarrow> None | _ # b \<Rightarrow> Some (length (concat b)))"
    by (simp only: rfind_ws_def chars rev_rev_ident D)
  moreover have "before_word L = List.rev D" by (simp only: before_word_def D)
  ultimately show ?thesis by (cases D) (simp_all add: len)
qed

lemma word_back_cases:
  assumes line: "shows_line s (L, R)" and L: "L \<noteq> []"
  defines "P \<equiv> before_word L"
  defines "start \<equiv> (if P = [] then 0 else length (concat (butlast P)) + 1)"
  shows "delete_word_back s =
    map_option (\<lambda>v. s\<lparr>in_value := v, in_cursor := start, in_tab := None\<rparr>) (drain start (in_cursor s) (in_value s))"
proof -
  have "0 < in_cursor s" using line L by (cases L) (auto simp: shows_line_def dest: one_char_length)
  moreover have "chars_ok L" using line by (simp add: shows_line_def)
  ultimately show ?thesis
    unfolding start_def P_def
    by (simp add: delete_word_back_def cut_line(1) [OF line] rfind_ws_trimmed Let_def)
qed

lemma word_back_line:
  assumes line: "shows_line s (L, R)" and one: "before_word L \<noteq> [] \<longrightarrow> length (List.last (before_word L)) = 1"
  shows "\<exists>s'. delete_word_back s = Some s' \<and> shows_line s' (before_word L, R)"
proof (cases "L = []")
  case False
  obtain P M where P: "before_word L = P" and M: "L = P @ M" using before_word_split by blast
  have ok: "chars_ok P" "chars_ok M" "chars_ok R"
    and val: "in_value s = concat P @ concat M @ concat R" "in_cursor s = length (concat P) + length (concat M)"
    using line by (simp_all add: M shows_line_def)
  have start: "(if P = [] then 0 else length (concat (butlast P)) + 1) = length (concat P)"
    using one unfolding P by (cases P rule: rev_cases) auto
  have "drain (length (concat P)) (in_cursor s) (in_value s) = Some (concat P @ concat R)"
    using replace_between [OF ok(2,3), of P "[]"] by (simp add: drain_def val)
  then have "delete_word_back s = Some (s\<lparr>in_value := concat P @ concat R, in_cursor := length (concat P), in_tab := None\<rparr>)"
    unfolding word_back_cases [OF line False] unfolding P start by simp
  then show ?thesis using ok unfolding P by (simp add: shows_line_def)
next
  case True
  have "in_cursor s = 0" using line by (simp add: True shows_line_def)
  then have "delete_word_back s = Some s" by (simp add: delete_word_back_def)
  moreover have "before_word L = L" by (simp add: True before_word_def)
  ultimately show ?thesis using line by metis
qed

lemma ws_char_length: "is_ws_char c \<Longrightarrow> 0 < length c"
  by (simp add: is_ws_char_def)

lemma last_before_word: "before_word L \<noteq> [] \<Longrightarrow> is_ws_char (List.last (before_word L))"
  using hd_dropWhile [of "\<lambda>c. \<not> is_ws_char c" "dropWhile is_ws_char (List.rev L)"]
  by (simp add: before_word_def last_rev)

lemma word_back_panics:
  assumes line: "shows_line s (L, R)" and bad: "before_word L \<noteq> []" "length (List.last (before_word L)) \<noteq> 1"
  shows "delete_word_back s = None"
proof -
  have L: "L \<noteq> []" using bad(1) by (auto simp: before_word_def)
  obtain K w where K: "before_word L = K @ [w]" using bad(1) by (cases "before_word L" rule: rev_cases) auto
  obtain M where Lw: "L = K @ w # M" using before_word_split [of L] unfolding K by auto
  have ok: "chars_ok (K @ w # M)" "chars_ok R" using line unfolding Lw by (simp_all add: shows_line_def)
  have "0 < length w" using ws_char_length [OF last_before_word [OF bad(1)]] unfolding K by simp
  then have w: "one_char w" "1 < length w" using ok(1) bad(2) unfolding K by (auto simp: Suc_lessI)
  have "\<not> is_char_boundary (in_value s) (length (concat K) + 1)"
    using inside_char_no_boundary [of w 1 "concat K" "concat M @ concat R"] w line
    by (simp add: shows_line_def Lw)
  then show ?thesis unfolding word_back_cases [OF line L]
    by (simp add: K drain_def replace_range_def range_ok_def)
qed

section \<open>Properties\<close>

text \<open>
  C15: without a spell checker every editing key acts on the line as its
  specification says: typing puts a character before the cursor (control
  characters are ignored), the others delete, move or cut whole characters,
  whatever their width, and none of them panics.
\<close>

theorem keys_edit_line:
  assumes "shows_line s l" "edits k l" "in_spell s = None" "ed_checker ed = None"
  shows "\<exists>s'. press_key ed k s = Some ([], s') \<and> shows_line s' (line_step k l)"
proof -
  obtain L R where l: "l = (L, R)" by (cases l)
  have type: "\<exists>s'. type_char ed c s = Some s' \<and> shows_line s' (line_step (KeyChar c) (L, R))" if "one_char c" for c
    using assms(1,3,4) insert_line [OF _ that, of s L R] that
    by (auto simp: l type_char_def insert_and_check_def check_spelling_after_separator_def insert_char_def)
  have line: "shows_line s (L, R)" using assms(1) by (simp add: l)
  show ?thesis
  proof (cases k)
    case KeyWordBack
    with word_back_line [OF line] assms(2) show ?thesis by (auto simp: l press_key_def)
  next
    case (KeyChar c)
    with type [of c] assms(2) show ?thesis by (auto simp: l press_key_def)
  qed (use line assms move_line [OF line] clear_line_parts [OF line] backspace_line [OF line] delete_line [OF line] in
      \<open>auto simp: l press_key_def dismiss_spell_def home_def end_of_line_def shows_line_def\<close>)
qed


text \<open>Several keys; what they submit is left aside.\<close>

fun press_keys :: "editor_env \<Rightarrow> edit_key list \<Rightarrow> input_state \<Rightarrow> input_state option" where
  "press_keys ed [] s = Some s"
| "press_keys ed (k # ks) s = Option.bind (press_key ed k s) (\<lambda>(_, t). press_keys ed ks t)"

lemma press_keys_append: "press_keys ed (ks @ ls) s = Option.bind (press_keys ed ks s) (press_keys ed ls)"
  by (induction ks arbitrary: s) (auto simp: bind_assoc case_prod_beta intro!: bind_option_cong)

definition no_completions :: completions where
  "no_completions = \<lparr>cp_nicks = [], cp_last_speakers = [], cp_commands = [], cp_setting_paths = [],
     cp_emotes_enabled = False, cp_tag_names = [], cp_subcommands = (\<lambda>_. [])\<rparr>"

definition plain_editor :: editor_env where
  "plain_editor = \<lparr>ed_lower = ascii_lower, ed_alnum = (\<lambda>c. list_ex is_ascii_alphanumeric c), ed_checker = None,
     ed_highlight = False, ed_completions = no_completions\<rparr>"

text \<open>An e with an accent, two bytes.\<close>

definition e_acute :: bytes where
  "e_acute = [byte_of 195, byte_of 169]"

lemma keys_edit_line_witness:
  "\<exists>s'. press_key plain_editor KeyBackspace
      (input_new\<lparr>in_value := ''caf'' @ e_acute, in_cursor := 5\<rparr>) = Some ([], s') \<and>
    shows_line s' ([''c'', ''a'', ''f''], [])"
proof -
  have "one_char ''c'' \<and> one_char ''a'' \<and> one_char ''f'' \<and> one_char e_acute" by code_simp
  then have "shows_line (input_new\<lparr>in_value := ''caf'' @ e_acute, in_cursor := 5\<rparr>) ([''c'', ''a'', ''f'', e_acute], [])"
    by (simp add: shows_line_def e_acute_def)
  from keys_edit_line [OF this, of KeyBackspace plain_editor] show ?thesis
    by (simp add: input_new_def plain_editor_def)
qed

text \<open>
  C16: Ctrl+W panics exactly when the white space before the word is a character
  of more than one byte (a no-break or an ideographic space): the code steps one
  byte behind it, into the middle of the character.
\<close>

theorem word_back_panics_exactly:
  assumes "shows_line s (L, R)"
  shows "press_key ed KeyWordBack s = None \<longleftrightarrow>
    before_word L \<noteq> [] \<and> length (List.last (before_word L)) \<noteq> 1"
  using word_back_panics [OF assms] word_back_line [OF assms] by (auto simp: press_key_def)

lemma word_back_panics_exactly_witness:
  "press_key plain_editor KeyWordBack
     (input_new\<lparr>in_value := ''a'' @ [byte_of 227, byte_of 128, byte_of 128] @ ''b'', in_cursor := 5\<rparr>) = None"
proof -
  let ?w = "[byte_of 227, byte_of 128, byte_of 128]"
  let ?L = "[''a'', ?w, ''b'']"
  have ok: "one_char ''a'' \<and> one_char ?w \<and> one_char ''b''" by code_simp
  have bw: "before_word ?L = [''a'', ?w]" by code_simp
  have "shows_line (input_new\<lparr>in_value := ''a'' @ ?w @ ''b'', in_cursor := 5\<rparr>) (?L, [])"
    using ok by (simp add: shows_line_def)
  from word_back_panics_exactly [OF this, of plain_editor] show ?thesis unfolding bw by simp
qed

text \<open>
  C17: a correction outlives the text it belongs to.  While a correction is shown
  in replace mode, Ctrl+U with the cursor at the end empties the line and leaves
  the correction; Escape, Backspace or Space then cut the line at offsets it no
  longer has, and the program panics.
\<close>

theorem stale_correction_panics:
  assumes "in_spell s = Some sp" "\<not> sp_highlight_only sp" "0 < sp_word_end sp"
    and "in_cursor s = length (in_value s)" "in_value s \<noteq> []"
    and "k = KeyEsc \<or> k = KeyBackspace \<or> k = KeyChar '' ''"
  shows "press_keys ed [KeyClearToStart, k] s = None"
proof -
  have boundary: "is_char_boundary [] n \<longleftrightarrow> n = 0" for n by (simp add: is_char_boundary_def)
  have "clear_to_start s = Some (s\<lparr>in_value := [], in_cursor := 0, in_tab := None\<rparr>)"
    using assms(4,5) by (simp add: clear_to_start_def drain_def replace_range_def range_ok_def boundary_len)
       (simp add: is_char_boundary_def)
  then have "press_key ed KeyClearToStart s = Some ([], s\<lparr>in_value := [], in_cursor := 0, in_tab := None\<rparr>)" (is "_ = Some ([], ?t)")
    by (simp add: press_key_def)
  moreover have "dismiss_spell ?t = None"
    using assms(1-3) boundary by (simp add: dismiss_spell_def replace_range_def range_ok_def Let_def)
  moreover have "type_char ed '' '' ?t = None"
    using assms(1-3) boundary by (simp add: type_char_def needs_space_def slice_from_def Let_def)
  ultimately show ?thesis using assms(6) by (elim disjE) (simp_all add: press_key_def)
qed

definition example_speller :: editor_env where
  "example_speller = plain_editor\<lparr>ed_checker := Some \<lparr>sc_dicts =
     [\<lparr>dc_check = (\<lambda>w. w = ''hello''), dc_suggest = (\<lambda>_. [''hello''])\<rparr>], sc_computing = None\<rparr>\<rparr>"

lemma stale_correction_panics_witness:
  "press_keys example_speller (map KeyChar [''h'', ''e'', ''l'', ''o'', '' ''] @ [KeyClearToStart, KeyEsc]) input_new = None"
proof -
  let ?s = "input_new\<lparr>in_value := ''hello '', in_cursor := 6, in_spell := Some \<lparr>sp_word_start = 0, sp_word_end = 5,
    sp_original = ''helo'', sp_suggestions = [''hello''], sp_index = 0, sp_highlight_only = False\<rparr>\<rparr>"
  have "press_keys example_speller (map KeyChar [''h'', ''e'', ''l'', ''o'', '' '']) input_new = Some ?s" by code_simp
  moreover have "press_keys example_speller [KeyClearToStart, KeyEsc] ?s = None"
    by (rule stale_correction_panics [where sp = "\<lparr>sp_word_start = 0, sp_word_end = 5, sp_original = ''helo'',
        sp_suggestions = [''hello''], sp_index = 0, sp_highlight_only = False\<rparr>"]) simp_all
  ultimately show ?thesis by (simp only: press_keys_append Option.bind.simps)
qed

section \<open>History\<close>

lemma walk_up:
  "in_history_index s = None \<Longrightarrow> Suc n \<le> length (in_history s) \<Longrightarrow>
   \<exists>t. press_keys ed (replicate (Suc n) KeyUp) s = Some t \<and> in_history t = in_history s \<and>
     in_history_index t = Some (length (in_history s) - Suc n) \<and> in_saved t = Some (in_value s) \<and>
     in_value t = in_history s ! (length (in_history s) - Suc n)"
proof (induction n)
  case 0
  then show ?case by (auto simp: press_key_def history_up_def recall_def)
next
  case (Suc n)
  then obtain t where t: "press_keys ed (replicate (Suc n) KeyUp) s = Some t" "in_history t = in_history s"
    "in_history_index t = Some (length (in_history s) - Suc n)" "in_saved t = Some (in_value s)" by auto
  have "replicate (Suc (Suc n)) KeyUp = replicate (Suc n) KeyUp @ [KeyUp]" by (simp add: replicate_append_same)
  moreover have "\<exists>u. press_keys ed [KeyUp] t = Some u \<and> in_history u = in_history s \<and>
      in_history_index u = Some (length (in_history s) - Suc (Suc n)) \<and> in_saved u = Some (in_value s) \<and>
      in_value u = in_history s ! (length (in_history s) - Suc (Suc n))"
    using t Suc.prems(2) by (auto simp: press_key_def history_up_def recall_def)
  ultimately show ?case using t(1) by (simp only: press_keys_append Option.bind.simps)
qed

lemma walk_down:
  "in_history_index t = Some (length (in_history t) - Suc n) \<Longrightarrow> Suc n \<le> length (in_history t) \<Longrightarrow>
   \<exists>u. press_keys ed (replicate (Suc n) KeyDown) t = Some u \<and> in_history u = in_history t \<and>
     in_history_index u = None \<and> in_value u = unwrap_or [] (in_saved t) \<and> in_cursor u = length (in_value u)"
proof (induction n arbitrary: t)
  case 0
  then show ?case by (auto simp: press_key_def history_down_def Let_def)
next
  case (Suc n)
  then have "\<exists>u. history_down t = Some u \<and> in_history u = in_history t \<and>
      in_history_index u = Some (length (in_history t) - Suc n) \<and> in_saved u = in_saved t"
    by (auto simp: history_down_def recall_def)
  then obtain u where u: "history_down t = Some u" "in_history u = in_history t"
    "in_history_index u = Some (length (in_history u) - Suc n)" "in_saved u = in_saved t" by auto
  with Suc.IH [of u] Suc.prems(2) show ?case by (simp add: press_key_def)
qed

text \<open>
  Walking up through the history and back down by as many steps returns to
  the text that was being typed.
\<close>

theorem history_walk:
  assumes "in_history_index s = None" "n < length (in_history s)"
  shows "\<exists>t. press_keys ed (replicate (Suc n) KeyUp @ replicate (Suc n) KeyDown) s = Some t \<and>
    in_value t = in_value s \<and> in_history t = in_history s \<and> in_history_index t = None"
proof -
  obtain t where t: "press_keys ed (replicate (Suc n) KeyUp) s = Some t" "in_history t = in_history s"
    "in_history_index t = Some (length (in_history s) - Suc n)" "in_saved t = Some (in_value s)"
    using walk_up [OF assms(1), of n] assms(2) by auto
  with walk_down [of t n ed] assms(2) show ?thesis
    by (simp only: press_keys_append Option.bind.simps) auto
qed

lemma history_walk_witness:
  "\<exists>t. press_keys plain_editor [KeyUp, KeyUp, KeyDown, KeyDown]
      (input_new\<lparr>in_value := ''dra'', in_cursor := 3, in_history := [''one'', ''two'']\<rparr>) = Some t \<and> in_value t = ''dra''"
  using history_walk [of "input_new\<lparr>in_value := ''dra'', in_cursor := 3, in_history := [''one'', ''two'']\<rparr>" 1 plain_editor]
  by (auto simp: input_new_def numeral_2_eq_2)

section \<open>Completion\<close>

text \<open>
  The nicks offered for a prefix are, up to case, exactly those of the
  channel and its recent speakers that start with it, each once, and the recent
  speakers come first.
\<close>

theorem nick_completions_exact:
  assumes "distinct (map lower nicks)" "distinct (map lower speakers)"
  shows "distinct (map lower (nick_completions lower nicks speakers pfx)) \<and>
    lower ` set (nick_completions lower nicks speakers pfx) =
      {x. x \<in> lower ` (set nicks \<union> set speakers) \<and> starts_with (lower pfx) x} \<and>
    take (length (filter (\<lambda>n. starts_with (lower pfx) (lower n)) speakers)) (nick_completions lower nicks speakers pfx) =
      filter (\<lambda>n. starts_with (lower pfx) (lower n)) speakers"
proof -
  have filtered: "distinct (map lower (filter P xs))" if "distinct (map lower xs)" for P xs
    using that by (simp add: distinct_map_filter)
  have sorted: "distinct (map lower (sort_key lower xs))" if "distinct (map lower xs)" for xs
  proof -
    have "mset (map lower (sort_key lower xs)) = mset (map lower xs)" by simp
    then show ?thesis using that by (metis mset_eq_imp_distinct_iff)
  qed
  let ?fits = "\<lambda>n. starts_with (lower pfx) (lower n)"
  let ?late = "\<lambda>n. ?fits n \<and> lower n \<notin> set (map lower (filter ?fits speakers))"
  have cs: "nick_completions lower nicks speakers pfx = filter ?fits speakers @ sort_key lower (filter ?late nicks)"
    by (simp add: nick_completions_def Let_def)
  have "distinct (map lower (filter ?fits speakers @ sort_key lower (filter ?late nicks)))"
    using filtered [OF assms(2)] sorted [OF filtered [OF assms(1)]]
    by (auto simp: image_iff)
  moreover have "lower ` set (filter ?fits speakers @ sort_key lower (filter ?late nicks)) =
      {x. x \<in> lower ` (set nicks \<union> set speakers) \<and> starts_with (lower pfx) x}" by auto
  ultimately show ?thesis by (simp add: cs)
qed

lemma nick_completions_exact_witness:
  "distinct (map ascii_lower (nick_completions ascii_lower [''Ann'', ''anne'', ''Bob''] [''anne''] ''an''))"
proof -
  have "distinct (map ascii_lower [''Ann'', ''anne'', ''Bob''])" "distinct (map ascii_lower [''anne''])" by code_simp+
  from nick_completions_exact [OF this] show ?thesis by simp
qed

end
