(* ===== verification/Dcc.thy ===== *)
theory Dcc
  imports E2e_Commands Irc_Members
begin

text \<open>
  Direct chats: \<open>src/src/dcc/protocol.rs\<close>, \<open>src/src/dcc/types.rs\<close>,
  \<open>src/src/dcc/mod.rs\<close>, \<open>parse_port_range\<close> of \<open>src/src/dcc/chat.rs\<close>.
  A \<open>HashMap\<close> is a table in some order.  The text form of IPv6 addresses is an
  argument; sockets and the tasks behind them are I/O, only their start and their
  events are modelled.
\<close>

section \<open>Addresses\<close>

datatype ip_addr = V4 u8 u8 u8 u8 | V6 "128 word"

record ip_text =
  it_show6 :: "128 word \<Rightarrow> bytes"
  it_parse6 :: "bytes \<Rightarrow> 128 word option"

definition passive_fake_ip :: ip_addr where
  "passive_fake_ip = V4 1 1 1 1"

unbundle bit_operations_syntax

definition encode_ip :: "ip_text \<Rightarrow> ip_addr \<Rightarrow> bytes" where
  "encode_ip it ip =
     (case ip of
        V4 o1 o2 o3 o4 \<Rightarrow>
          show_nat (unat (push_bit 24 (ucast o1 :: u32) OR push_bit 16 (ucast o2) OR push_bit 8 (ucast o3) OR ucast o4))
      | V6 v \<Rightarrow> it_show6 it v)"

text \<open>The error text is dropped by the only caller.\<close>

definition decode_ip :: "ip_text \<Rightarrow> bytes \<Rightarrow> ip_addr option" where
  "decode_ip it s =
     (if CHR '':'' \<in> set s then map_option V6 (it_parse6 it s)
      else (case parse_u32 s of
              Inl _ \<Rightarrow> None
            | Inr n \<Rightarrow> Some (V4 (ucast (drop_bit 24 n AND 255)) (ucast (drop_bit 16 n AND 255))
                              (ucast (drop_bit 8 n AND 255)) (ucast (n AND 255)))))"

definition show_ip :: "ip_text \<Rightarrow> ip_addr \<Rightarrow> bytes" where
  "show_ip it ip =
     (case ip of
        V4 a b c d \<Rightarrow> show_nat (unat a) @ ''.'' @ show_nat (unat b) @ ''.'' @ show_nat (unat c) @ ''.'' @ show_nat (unat d)
      | V6 v \<Rightarrow> it_show6 it v)"

section \<open>The CTCP\<close>

definition is_ascii_whitespace :: "char \<Rightarrow> bool" where
  "is_ascii_whitespace c \<longleftrightarrow> byte_val c \<in> {9, 10, 12, 13, 32}"

definition split_ascii_whitespace :: "bytes \<Rightarrow> bytes list" where
  "split_ascii_whitespace s =
     filter (\<lambda>t. t \<noteq> []) (split_on (CHR 0x20) (map (\<lambda>c. if is_ascii_whitespace c then CHR 0x20 else c) s))"

record dcc_ctcp =
  dk_type :: bytes
  dk_addr :: ip_addr
  dk_port :: u16
  dk_token :: "u32 option"

definition parse_dcc_ctcp :: "ip_text \<Rightarrow> bytes \<Rightarrow> dcc_ctcp option" where
  "parse_dcc_ctcp it body =
     (case split_ascii_whitespace body of
        d # t # kind # a # p # rest \<Rightarrow>
          if \<not> eq_ignore_ascii_case d ''DCC'' \<or> \<not> eq_ignore_ascii_case t ''CHAT'' then None
          else (case decode_ip it a of
                  None \<Rightarrow> None
                | Some ip \<Rightarrow>
                    (case parse_u16 p of
                       Inl _ \<Rightarrow> None
                     | Inr port \<Rightarrow> Some \<lparr>dk_type = ascii_upper t, dk_addr = ip, dk_port = port,
                         dk_token = (case rest of [] \<Rightarrow> None
                                     | tok # _ \<Rightarrow> (case parse_u32 tok of Inl _ \<Rightarrow> None | Inr n \<Rightarrow> Some n))\<rparr>))
      | _ \<Rightarrow> None)"

definition build_dcc_chat_ctcp :: "ip_text \<Rightarrow> ip_addr \<Rightarrow> u16 \<Rightarrow> u32 option \<Rightarrow> bytes" where
  "build_dcc_chat_ctcp it ip port tok =
     [byte_of 1] @ ''DCC CHAT CHAT '' @ encode_ip it ip @ '' '' @ show_nat (unat port) @
     (case tok of None \<Rightarrow> [] | Some t \<Rightarrow> '' '' @ show_nat (unat t)) @ [byte_of 1]"

definition build_dcc_reject :: bytes where
  "build_dcc_reject = [byte_of 1] @ ''DCC REJECT CHAT chat'' @ [byte_of 1]"

definition parse_port_range :: "bytes \<Rightarrow> u16 \<times> u16" where
  "parse_port_range s0 =
     (let s = trim s0;
          pair = (case split_once (CHR 0x20) s of
                    Some (lo, hi) \<Rightarrow> Some (trim lo, trim hi)
                  | None \<Rightarrow> map_option (\<lambda>(lo, hi). (trim lo, trim hi)) (split_once (CHR ''-'') s))
      in if s = [] \<or> s = ''0'' then (0, 0)
         else (case pair of
                 Some (lo, hi) \<Rightarrow>
                   (case (parse_u16 lo, parse_u16 hi) of (Inr a, Inr b) \<Rightarrow> (a, b) | _ \<Rightarrow> (0, 0))
               | None \<Rightarrow> (case parse_u16 s of Inl _ \<Rightarrow> (0, 0) | Inr p \<Rightarrow> (p, p))))"

section \<open>Records\<close>

datatype dcc_state = WaitingUser | Listening | DccConnecting | DccConnected

record dcc_record =
  dr_id :: bytes
  dr_nick :: bytes
  dr_conn_id :: bytes
  dr_addr :: ip_addr
  dr_port :: u16
  dr_state :: dcc_state
  dr_passive_token :: "u32 option"
  dr_created :: instant
  dr_started :: "instant option"
  dr_bytes :: nat
  dr_ident :: bytes
  dr_host :: bytes

text \<open>A sender is the queue of the lines its task has not taken yet (capacity 256).\<close>

record dcc_manager =
  dm_records :: "(bytes, dcc_record) table"
  dm_senders :: "(bytes, bytes list) table"
  dm_timeout_secs :: nat
  dm_port_range :: "u16 \<times> u16"
  dm_own_ip :: "ip_addr option"
  dm_autoaccept_lowports :: bool
  dm_autochat_masks :: "bytes list"
  dm_max_connections :: nat

definition dcc_manager_new :: dcc_manager where
  "dcc_manager_new = \<lparr>dm_records = [], dm_senders = [], dm_timeout_secs = 300, dm_port_range = (0, 0),
     dm_own_ip = None, dm_autoaccept_lowports = False, dm_autochat_masks = [], dm_max_connections = 10\<rparr>"

declare show_nat.simps [simp del] map_of_eq_Some_iff [simp del]

text \<open>The loop looks for the first free suffix; each candidate that is taken is a record.\<close>

definition taken_from :: "bytes \<Rightarrow> (bytes, dcc_record) table \<Rightarrow> nat \<Rightarrow> nat set" where
  "taken_from base t n = {k. n \<le> k \<and> base @ show_nat k \<in> fst ` set t}"

lemma show_nat_inject: "show_nat m = show_nat n \<Longrightarrow> m = n"
proof -
  assume eq: "show_nat m = show_nat n"
  have "parse_unsigned (max m n) (show_nat m) = Inr m" "parse_unsigned (max m n) (show_nat n) = Inr n"
    by (simp_all add: parse_unsigned_show)
  with eq show "m = n" by (metis sum.inject(2))
qed

lemma finite_taken: "finite (taken_from base t n)"
proof (rule finite_imageD)
  show "finite ((\<lambda>k. base @ show_nat k) ` taken_from base t n)"
    by (rule finite_subset [of _ "fst ` set t"]) (auto simp: taken_from_def)
  show "inj_on (\<lambda>k. base @ show_nat k) (taken_from base t n)"
    by (auto simp: inj_on_def dest: show_nat_inject)
qed

function free_suffix :: "bytes \<Rightarrow> (bytes, dcc_record) table \<Rightarrow> nat \<Rightarrow> bytes" where
  "free_suffix base t n =
     (if map_of t (base @ show_nat n) = None then base @ show_nat n else free_suffix base t (n + 1))"
  by pat_completeness auto
termination
proof (relation "measure (\<lambda>(base, t, n). card (taken_from base t n))", goal_cases)
  case (2 base t n)
  then have "n \<in> taken_from base t n" by (auto simp: taken_from_def map_of_eq_None_iff)
  moreover have "taken_from base t (n + 1) = taken_from base t n - {n}" by (auto simp: taken_from_def)
  ultimately have "card (taken_from base t (n + 1)) < card (taken_from base t n)"
    by (simp only: card_Diff1_less [OF finite_taken])
  then show ?case by (simp only: in_measure case_prod_conv)
qed simp

declare free_suffix.simps [simp del]

definition generate_id :: "(bytes \<Rightarrow> bytes) \<Rightarrow> bytes \<Rightarrow> dcc_manager \<Rightarrow> bytes" where
  "generate_id lower nick m =
     (let base = lower nick in if map_of (dm_records m) base = None then base else free_suffix base (dm_records m) 2)"

definition is_pending :: "dcc_record \<Rightarrow> bool" where
  "is_pending r \<longleftrightarrow> dr_state r = WaitingUser \<or> dr_state r = Listening"

definition find_pending :: "(bytes \<Rightarrow> bytes) \<Rightarrow> bytes \<Rightarrow> dcc_manager \<Rightarrow> dcc_record option" where
  "find_pending lower nick m = find (\<lambda>r. lower (dr_nick r) = lower nick \<and> is_pending r) (map snd (dm_records m))"

text \<open>\<open>max_by_key\<close> keeps the last of several maxima.\<close>

fun latest_record :: "dcc_record option \<Rightarrow> dcc_record list \<Rightarrow> dcc_record option" where
  "latest_record best [] = best"
| "latest_record best (r # rs) =
     latest_record (case best of None \<Rightarrow> Some r | Some b \<Rightarrow> Some (if dr_created b \<le> dr_created r then r else b)) rs"

definition find_latest_pending :: "dcc_manager \<Rightarrow> dcc_record option" where
  "find_latest_pending m = latest_record None (filter (\<lambda>r. dr_state r = WaitingUser) (map snd (dm_records m)))"

definition find_connected :: "(bytes \<Rightarrow> bytes) \<Rightarrow> bytes \<Rightarrow> dcc_manager \<Rightarrow> dcc_record option" where
  "find_connected lower nick m =
     find (\<lambda>r. lower (dr_nick r) = lower nick \<and> dr_state r = DccConnected) (map snd (dm_records m))"

definition dcc_expired :: "instant \<Rightarrow> dcc_manager \<Rightarrow> dcc_record \<Rightarrow> bool" where
  "dcc_expired now m r \<longleftrightarrow> is_pending r \<and> secs (dm_timeout_secs m) < duration_since now (dr_created r)"

definition dcc_purge_expired :: "instant \<Rightarrow> dcc_manager \<Rightarrow> (bytes \<times> bytes) list \<times> dcc_manager" where
  "dcc_purge_expired now m =
     (let gone = filter (\<lambda>(_, r). dcc_expired now m r) (dm_records m); ids = map fst gone
      in (map (\<lambda>(k, r). (k, dr_nick r)) gone,
          m\<lparr>dm_senders := fold AList.delete ids (dm_senders m), dm_records := fold AList.delete ids (dm_records m)\<rparr>))"

definition rename_record ::
  "(bytes \<Rightarrow> bytes) \<Rightarrow> bytes \<Rightarrow> bytes \<Rightarrow> (bytes \<times> bytes) list \<times> dcc_manager \<Rightarrow> (bytes \<times> bytes) list \<times> dcc_manager" where
  "rename_record lower new_nick old_id acc =
     (case acc of (renamed, m) \<Rightarrow>
        (case map_of (dm_records m) old_id of
           None \<Rightarrow> acc
         | Some r \<Rightarrow>
             let m1 = m\<lparr>dm_records := AList.delete old_id (dm_records m)\<rparr>;
                 new_id = generate_id lower new_nick m1;
                 m2 = m1\<lparr>dm_records := AList.update new_id (r\<lparr>dr_nick := new_nick, dr_id := new_id\<rparr>) (dm_records m1)\<rparr>;
                 m3 = (case map_of (dm_senders m2) old_id of
                         None \<Rightarrow> m2
                       | Some q \<Rightarrow> m2\<lparr>dm_senders := AList.update new_id q (AList.delete old_id (dm_senders m2))\<rparr>)
             in (renamed @ [(old_id, new_id)], m3)))"

definition dcc_update_nick ::
  "(bytes \<Rightarrow> bytes) \<Rightarrow> bytes \<Rightarrow> bytes \<Rightarrow> dcc_manager \<Rightarrow> (bytes \<times> bytes) list \<times> dcc_manager" where
  "dcc_update_nick lower old_nick new_nick m =
     fold (rename_record lower new_nick)
       (map fst (filter (\<lambda>(_, r). lower (dr_nick r) = lower old_nick) (dm_records m))) ([], m)"

definition close_by_id :: "bytes \<Rightarrow> dcc_manager \<Rightarrow> dcc_record option \<times> dcc_manager" where
  "close_by_id k m = (map_of (dm_records m) k, m\<lparr>dm_records := AList.delete k (dm_records m)\<rparr>)"

definition close_by_nick :: "(bytes \<Rightarrow> bytes) \<Rightarrow> bytes \<Rightarrow> dcc_manager \<Rightarrow> dcc_record option \<times> dcc_manager" where
  "close_by_nick lower nick m =
     (case find (\<lambda>(_, r). lower (dr_nick r) = lower nick) (dm_records m) of
        None \<Rightarrow> (None, m)
      | Some (k, _) \<Rightarrow> close_by_id k m)"

definition send_chat_line :: "bytes \<Rightarrow> bytes \<Rightarrow> dcc_manager \<Rightarrow> dcc_manager option" where
  "send_chat_line k body m =
     (case map_of (dm_senders m) k of
        None \<Rightarrow> None
      | Some q \<Rightarrow> if length q < 256 then Some (m\<lparr>dm_senders := AList.update k (q @ [body]) (dm_senders m)\<rparr>) else None)"

definition should_auto_accept ::
  "(bytes \<Rightarrow> bytes \<Rightarrow> bool) \<Rightarrow> bytes \<Rightarrow> bytes \<Rightarrow> bytes \<Rightarrow> u16 \<Rightarrow> dcc_manager \<Rightarrow> bool" where
  "should_auto_accept is_match nick ident host port m \<longleftrightarrow>
     \<not> (port \<noteq> 0 \<and> port \<le> 1023 \<and> \<not> dm_autoaccept_lowports m) \<and>
     list_ex (\<lambda>p. is_match (wildcard_to_regex p) (nick @ ''!'' @ ident @ ''@'' @ host)) (dm_autochat_masks m)"

definition dcc_format_duration :: "nat \<Rightarrow> bytes" where
  "dcc_format_duration t =
     (let days = t div 86400; hours = t mod 86400 div 3600; mins = t mod 3600 div 60; s = t mod 60;
          part = (\<lambda>n u. show_nat n @ u)
      in if 0 < days then part days ''d '' @ part hours ''h '' @ part mins ''m '' @ part s ''s''
         else if 0 < hours then part hours ''h '' @ part mins ''m '' @ part s ''s''
         else if 0 < mins then part mins ''m '' @ part s ''s''
         else part s ''s'')"

end
