(* ===== verification/Dcc_App.thy ===== *)
theory Dcc_App
  imports Dcc
begin

text \<open>
  Direct chats in the running client: the events of \<open>src/src/app/dcc.rs\<close>, the
  commands of \<open>src/src/commands/handlers_dcc.rs\<close>, and the part of
  \<open>src/src/app/irc.rs\<close> that takes DCC requests out of the traffic.  No scripts
  are loaded; the backlog of a new buffer (the log database) is left out.
\<close>

section \<open>State and surroundings\<close>

text \<open>The tasks the client starts: they wait for the peer or connect to it.\<close>

datatype dcc_task = ListenFor bytes u16 | ConnectTo bytes ip_addr u16

text \<open>\<open>active_irc_sender\<close> found a sender: the target and the text it was given; the flag marks a NOTICE.\<close>

record dcc_send =
  dx_notice :: bool
  dx_target :: bytes
  dx_text :: bytes

record dcc_app =
  da_client :: client
  da_dcc :: dcc_manager
  da_sends :: "dcc_send list"
  da_tasks :: "dcc_task list"

datatype bind_outcome = Bound u16 | BindError bytes | LocalAddrError bytes | ListenerError bytes

text \<open>
  What the operating system answers: the bound port, the local address of a
  connection, randomness; \<open>dv_sender\<close> says whether a connection has a sender and
  \<open>dv_send_error\<close> whether sending fails.
\<close>

record dcc_env =
  dv_lower :: "bytes \<Rightarrow> bytes"
  dv_utc :: i64
  dv_now :: instant
  dv_match :: "bytes \<Rightarrow> bytes \<Rightarrow> bool"
  dv_ip :: ip_text
  dv_bind :: "ip_addr \<Rightarrow> u16 \<Rightarrow> bind_outcome"
  dv_local_ip :: "bytes \<Rightarrow> ip_addr option"
  dv_sender :: "bytes \<Rightarrow> bool"
  dv_send_error :: "bytes \<Rightarrow> bytes option"
  dv_random :: u32
  dv_port_between :: "u16 \<Rightarrow> u16 \<Rightarrow> u16"

definition c_ok :: bytes where "c_ok = ''%Z9ece6a''"

definition tell :: "dcc_env \<Rightarrow> bytes \<Rightarrow> dcc_app \<Rightarrow> dcc_app" where
  "tell ev body d = d\<lparr>da_client := add_local_event (dv_utc ev) body (da_client d)\<rparr>"

definition on_dcc :: "(dcc_manager \<Rightarrow> dcc_manager) \<Rightarrow> dcc_app \<Rightarrow> dcc_app" where
  "on_dcc f d = d\<lparr>da_dcc := f (da_dcc d)\<rparr>"

definition upd_record :: "bytes \<Rightarrow> (dcc_record \<Rightarrow> dcc_record) \<Rightarrow> dcc_manager \<Rightarrow> dcc_manager" where
  "upd_record k f m =
     (case map_of (dm_records m) k of
        None \<Rightarrow> m
      | Some r \<Rightarrow> m\<lparr>dm_records := AList.update k (f r) (dm_records m)\<rparr>)"

definition put_record :: "bytes \<Rightarrow> dcc_record \<Rightarrow> dcc_manager \<Rightarrow> dcc_manager" where
  "put_record k r m = m\<lparr>dm_records := AList.update k r (dm_records m)\<rparr>"

definition new_sender :: "bytes \<Rightarrow> dcc_manager \<Rightarrow> dcc_manager" where
  "new_sender k m = m\<lparr>dm_senders := AList.update k [] (dm_senders m)\<rparr>"

definition drop_sender :: "bytes \<Rightarrow> dcc_manager \<Rightarrow> dcc_manager" where
  "drop_sender k m = m\<lparr>dm_senders := AList.delete k (dm_senders m)\<rparr>"

definition start_task :: "bytes \<Rightarrow> dcc_task \<Rightarrow> dcc_app \<Rightarrow> dcc_app" where
  "start_task k t d = (on_dcc (new_sender k) d)\<lparr>da_tasks := da_tasks d @ [t]\<rparr>"

definition active_conn_id :: "dcc_app \<Rightarrow> bytes option" where
  "active_conn_id d = map_option bf_connection_id (active_buffer (cl_state (da_client d)))"

definition has_sender :: "dcc_env \<Rightarrow> dcc_app \<Rightarrow> bool" where
  "has_sender ev d = (case active_conn_id d of None \<Rightarrow> False | Some conn \<Rightarrow> dv_sender ev conn)"

text \<open>\<open>if let Some(sender) = .. \&\& let Err(e) = sender.send_privmsg(..)\<close>: the error, if there was one.\<close>

definition send_irc :: "dcc_env \<Rightarrow> bool \<Rightarrow> bytes \<Rightarrow> bytes \<Rightarrow> dcc_app \<Rightarrow> bytes option \<times> dcc_app" where
  "send_irc ev notice target body d =
     (if has_sender ev d then
        (case dv_send_error ev target of
           Some e \<Rightarrow> (Some e, d)
         | None \<Rightarrow> (None, d\<lparr>da_sends := da_sends d @ [\<lparr>dx_notice = notice, dx_target = target, dx_text = body\<rparr>]\<rparr>))
      else (None, d))"

definition is_loopback :: "ip_addr \<Rightarrow> bool" where
  "is_loopback ip = (case ip of V4 a _ _ _ \<Rightarrow> a = 127 | V6 v \<Rightarrow> v = 1)"

definition resolve_own_ip :: "dcc_env \<Rightarrow> dcc_app \<Rightarrow> ip_addr option" where
  "resolve_own_ip ev d =
     (case dm_own_ip (da_dcc d) of
        Some ip \<Rightarrow> Some ip
      | None \<Rightarrow>
          (case active_conn_id d of
             None \<Rightarrow> None
           | Some conn \<Rightarrow>
               if map_of (st_connections (cl_state (da_client d))) conn = None then None
               else (case dv_local_ip ev conn of
                       Some ip \<Rightarrow> if is_loopback ip then None else Some ip
                     | None \<Rightarrow> None)))"

definition pick_bind_port :: "dcc_env \<Rightarrow> u16 \<times> u16 \<Rightarrow> u16" where
  "pick_bind_port ev ports =
     (case ports of (lo, hi) \<Rightarrow> if lo = 0 \<and> hi = 0 then 0 else if lo = hi then lo else dv_port_between ev lo hi)"

definition unspecified_ip :: ip_addr where "unspecified_ip = V4 0 0 0 0"
definition localhost_ip :: ip_addr where "localhost_ip = V4 127 0 0 1"

section \<open>/dcc chat\<close>

definition bind_listener :: "dcc_env \<Rightarrow> dcc_app \<Rightarrow> bytes + u16" where
  "bind_listener ev d =
     (case dv_bind ev (unwrap_or unspecified_ip (resolve_own_ip ev d)) (pick_bind_port ev (dm_port_range (da_dcc d))) of
        Bound p \<Rightarrow> Inr p
      | BindError e \<Rightarrow> Inl (c_err @ ''DCC CHAT bind error: '' @ e @ c_rst)
      | LocalAddrError e \<Rightarrow> Inl (c_err @ ''DCC CHAT local_addr error: '' @ e @ c_rst)
      | ListenerError e \<Rightarrow> Inl (c_err @ ''DCC CHAT async listener error: '' @ e @ c_rst))"

definition advertise_ip :: "dcc_env \<Rightarrow> dcc_app \<Rightarrow> ip_addr" where
  "advertise_ip ev d = unwrap_or localhost_ip (resolve_own_ip ev d)"

definition accept_passive :: "dcc_env \<Rightarrow> bytes \<Rightarrow> bytes \<Rightarrow> dcc_record \<Rightarrow> dcc_app \<Rightarrow> dcc_app" where
  "accept_passive ev nick k r d =
     (case bind_listener ev d of
        Inl e \<Rightarrow> tell ev e d
      | Inr port \<Rightarrow>
          let d1 = on_dcc (upd_record k (\<lambda>r. r\<lparr>dr_state := Listening\<rparr>)) d;
              (err, d2) = send_irc ev False nick
                (build_dcc_chat_ctcp (dv_ip ev) (advertise_ip ev d) port (dr_passive_token r)) d1
          in case err of
               Some e \<Rightarrow> tell ev (c_err @ ''Failed to send DCC response: '' @ e @ c_rst) d2
             | None \<Rightarrow> tell ev (''DCC CHAT: listening on port '' @ show_nat (unat port) @ '' for '' @ nick @ '' (passive)...'')
                         (start_task k (ListenFor k port) d2))"

definition accept_active :: "dcc_env \<Rightarrow> bytes \<Rightarrow> bytes \<Rightarrow> dcc_record \<Rightarrow> dcc_app \<Rightarrow> dcc_app" where
  "accept_active ev nick k r d =
     tell ev (''DCC CHAT: connecting to '' @ nick @ '' ('' @ show_ip (dv_ip ev) (dr_addr r) @ '':'' @
         show_nat (unat (dr_port r)) @ '')...'')
       (start_task k (ConnectTo k (dr_addr r) (dr_port r))
         (on_dcc (upd_record k (\<lambda>r. r\<lparr>dr_state := DccConnecting\<rparr>)) d))"

definition accept_dcc_chat :: "dcc_env \<Rightarrow> bytes \<Rightarrow> bytes \<Rightarrow> dcc_app \<Rightarrow> dcc_app" where
  "accept_dcc_chat ev nick k d =
     (case map_of (dm_records (da_dcc d)) k of
        None \<Rightarrow> tell ev (c_err @ ''No pending DCC CHAT for '' @ nick @ c_rst) d
      | Some r \<Rightarrow>
          if dr_port r = 0 \<and> dr_passive_token r \<noteq> None then accept_passive ev nick k r d
          else accept_active ev nick k r d)"

definition fresh_record ::
  "dcc_env \<Rightarrow> bytes \<Rightarrow> bytes \<Rightarrow> bytes \<Rightarrow> ip_addr \<Rightarrow> u16 \<Rightarrow> dcc_state \<Rightarrow> u32 option \<Rightarrow> bytes \<Rightarrow> bytes \<Rightarrow> dcc_record" where
  "fresh_record ev k nick conn ip port st tok ident host =
     \<lparr>dr_id = k, dr_nick = nick, dr_conn_id = conn, dr_addr = ip, dr_port = port, dr_state = st,
      dr_passive_token = tok, dr_created = dv_now ev, dr_started = None, dr_bytes = 0, dr_ident = ident, dr_host = host\<rparr>"

definition offer_passive :: "dcc_env \<Rightarrow> bytes \<Rightarrow> bytes \<Rightarrow> dcc_app \<Rightarrow> dcc_app" where
  "offer_passive ev nick conn d =
     (let tok = dv_random ev mod 64;
          k = generate_id (dv_lower ev) nick (da_dcc d);
          d1 = on_dcc (put_record k (fresh_record ev k nick conn passive_fake_ip 0 WaitingUser (Some tok) [] [])) d;
          (err, d2) = send_irc ev False nick (build_dcc_chat_ctcp (dv_ip ev) passive_fake_ip 0 (Some tok)) d1
      in case err of
           Some e \<Rightarrow> tell ev (c_err @ ''Failed to send DCC offer: '' @ e @ c_rst) d2
         | None \<Rightarrow> tell ev (''DCC CHAT: sent passive offer to '' @ nick @ '' (token '' @ show_nat (unat tok) @ '')'') d2)"

definition offer_active :: "dcc_env \<Rightarrow> bytes \<Rightarrow> bytes \<Rightarrow> dcc_app \<Rightarrow> dcc_app" where
  "offer_active ev nick conn d =
     (case bind_listener ev d of
        Inl e \<Rightarrow> tell ev e d
      | Inr port \<Rightarrow>
          let k = generate_id (dv_lower ev) nick (da_dcc d); ip = advertise_ip ev d;
              d1 = on_dcc (put_record k (fresh_record ev k nick conn ip port Listening None [] [])) d;
              (err, d2) = send_irc ev False nick (build_dcc_chat_ctcp (dv_ip ev) ip port None) d1
          in case err of
               Some e \<Rightarrow> tell ev (c_err @ ''Failed to send DCC offer: '' @ e @ c_rst) d2
             | None \<Rightarrow> tell ev (''DCC CHAT: listening on port '' @ show_nat (unat port) @ '' for '' @ nick @ ''...'')
                         (start_task k (ListenFor k port) d2))"

definition initiate_dcc_chat :: "dcc_env \<Rightarrow> bytes \<Rightarrow> bool \<Rightarrow> dcc_app \<Rightarrow> dcc_app" where
  "initiate_dcc_chat ev nick passive d =
     (if dm_max_connections (da_dcc d) \<le> length (dm_records (da_dcc d)) then tell ev ''Maximum DCC connections reached'' d
      else (case active_conn_id d of
              None \<Rightarrow> tell ev ''No active connection'' d
            | Some conn \<Rightarrow> if passive then offer_passive ev nick conn d else offer_active ev nick conn d))"

definition cmd_dcc_chat :: "dcc_env \<Rightarrow> bytes list \<Rightarrow> dcc_app \<Rightarrow> dcc_app" where
  "cmd_dcc_chat ev args d =
     (let passive = (case args of a # _ \<Rightarrow> a = ''-passive'' | [] \<Rightarrow> False);
          nicks = (if passive then tl args else args)
      in case nicks of
           [] \<Rightarrow>
             if passive then tell ev ''Usage: /dcc chat -passive <nick>'' d
             else (case find_latest_pending (da_dcc d) of
                     Some r \<Rightarrow> accept_dcc_chat ev (dr_nick r) (dr_id r) d
                   | None \<Rightarrow> tell ev ''No pending DCC CHAT requests'' d)
         | nick # _ \<Rightarrow>
             (case (if passive then None else find_pending (dv_lower ev) nick (da_dcc d)) of
                Some r \<Rightarrow> accept_dcc_chat ev (dr_nick r) (dr_id r) d
              | None \<Rightarrow> initiate_dcc_chat ev nick passive d))"


section \<open>/dcc close, list, reject\<close>

definition cmd_dcc_close :: "dcc_env \<Rightarrow> bytes list \<Rightarrow> dcc_app \<Rightarrow> dcc_app" where
  "cmd_dcc_close ev args d =
     (case args of
        kind # nick # _ \<Rightarrow>
          if \<not> eq_ignore_ascii_case kind ''chat'' then tell ev (c_err @ ''Unknown DCC type: '' @ kind @ c_rst) d
          else
            let (r, m) = close_by_nick (dv_lower ev) nick (da_dcc d); d1 = d\<lparr>da_dcc := m\<rparr>
            in (case r of
                  Some r \<Rightarrow> tell ev (c_ok @ ''DCC CHAT with '' @ dr_nick r @ '' closed'' @ c_rst) d1
                | None \<Rightarrow> tell ev (c_err @ ''No DCC CHAT session found for '' @ nick @ c_rst) d1)
      | _ \<Rightarrow> tell ev ''Usage: /dcc close chat <nick>'' d)"

fun state_label :: "dcc_state \<Rightarrow> bytes" where
  "state_label WaitingUser = ''waiting''"
| "state_label Listening = ''listening''"
| "state_label DccConnecting = ''connecting''"
| "state_label DccConnected = ''connected''"

definition dcc_line :: "dcc_env \<Rightarrow> dcc_record \<Rightarrow> bytes" where
  "dcc_line ev r =
     (let since = (case dr_started r of None \<Rightarrow> dr_created r | Some t \<Rightarrow> t);
          elapsed = duration_since (dv_now ev) since div 1000000000
      in ''  '' @ c_cmd @ dr_nick r @ c_rst @ ''  '' @ c_text @ ''CHAT'' @ c_rst @ ''  '' @
         c_dim @ ''['' @ state_label (dr_state r) @ '']'' @ c_rst @ ''  '' @ c_dim @ dcc_format_duration elapsed @ c_rst @ ''  '' @
         c_dim @ show_nat (dr_bytes r) @ ''B'' @ c_rst)"

definition cmd_dcc_list :: "dcc_env \<Rightarrow> dcc_app \<Rightarrow> dcc_app" where
  "cmd_dcc_list ev d =
     (if dm_records (da_dcc d) = [] then tell ev ''No DCC connections'' d
      else fold (tell ev)
        (divider ''DCC Connections'' # map (dcc_line ev) (sort_key dr_nick (map snd (dm_records (da_dcc d))))) d)"

definition cmd_dcc_reject :: "dcc_env \<Rightarrow> bytes list \<Rightarrow> dcc_app \<Rightarrow> dcc_app" where
  "cmd_dcc_reject ev args d =
     (case args of
        kind # nick # _ \<Rightarrow>
          if \<not> eq_ignore_ascii_case kind ''chat'' then tell ev (c_err @ ''Unknown DCC type: '' @ kind @ c_rst) d
          else
            let (r, m) = close_by_nick (dv_lower ev) nick (da_dcc d); d1 = d\<lparr>da_dcc := m\<rparr>;
                who = (case r of None \<Rightarrow> nick | Some r \<Rightarrow> dr_nick r);
                (err, d2) = send_irc ev True who build_dcc_reject d1;
                d3 = (case err of
                        Some e \<Rightarrow> tell ev (c_err @ ''Failed to send DCC REJECT: '' @ e @ c_rst) d2
                      | None \<Rightarrow> if has_sender ev d1 then d2
                                else tell ev (''Not connected '' @ em_dash @ '' DCC REJECT not sent'') d2)
            in tell ev (c_ok @ ''DCC CHAT from '' @ who @ '' rejected'' @ c_rst) d3
      | _ \<Rightarrow> tell ev ''Usage: /dcc reject chat <nick>'' d)"

definition cmd_dcc :: "dcc_env \<Rightarrow> bytes list \<Rightarrow> dcc_app \<Rightarrow> dcc_app" where
  "cmd_dcc ev args d =
     (case args of
        [] \<Rightarrow> tell ev ''Usage: /dcc <chat|close|list|reject> [args...]'' d
      | sub # rest \<Rightarrow>
          let cmd = dv_lower ev sub in
          if cmd = ''chat'' then cmd_dcc_chat ev rest d
          else if cmd = ''close'' then cmd_dcc_close ev rest d
          else if cmd = ''list'' then cmd_dcc_list ev d
          else if cmd = ''reject'' then cmd_dcc_reject ev rest d
          else tell ev (''Unknown DCC command: '' @ cmd) d)"

section \<open>Events\<close>

datatype dcc_event =
    IncomingRequest bytes bytes ip_addr u16 "u32 option" bytes bytes
  | ChatConnected bytes
  | ChatMessage bytes bytes
  | ChatAction bytes bytes
  | ChatClosed bytes "bytes option"
  | ChatError bytes bytes

definition on_ui :: "(app_state \<Rightarrow> app_state) \<Rightarrow> dcc_app \<Rightarrow> dcc_app" where
  "on_ui f d = d\<lparr>da_client := (da_client d)\<lparr>cl_state := f (cl_state (da_client d))\<rparr>\<rparr>"

definition dcc_buffer_id :: "dcc_env \<Rightarrow> bytes \<Rightarrow> bytes \<Rightarrow> bytes" where
  "dcc_buffer_id ev conn nick = make_buffer_id (dv_lower ev) conn (''='' @ nick)"

definition dcc_message :: "dcc_env \<Rightarrow> message_type \<Rightarrow> bytes option \<Rightarrow> bytes \<Rightarrow> nat \<Rightarrow> message" where
  "dcc_message ev t nick body n = \<lparr>ms_id = n, ms_timestamp = dv_utc ev, ms_type = t, ms_nick = nick, ms_nick_mode = None,
     ms_text = body, ms_highlight = False, ms_event_key = None, ms_event_params = None, ms_tags = None\<rparr>"

definition post_event :: "dcc_env \<Rightarrow> bytes \<Rightarrow> bytes \<Rightarrow> app_state \<Rightarrow> app_state" where
  "post_event ev bid body s =
     (let (n, s1) = next_message_id s in add_message (dv_lower ev) bid (dcc_message ev MsgEvent None body n) s1)"

text \<open>\<open>add_message_with_activity\<close>; the URL shortener is off.\<close>

definition post_chat :: "dcc_env \<Rightarrow> bytes \<Rightarrow> message_type \<Rightarrow> bytes \<Rightarrow> bytes \<Rightarrow> app_state \<Rightarrow> app_state" where
  "post_chat ev bid t nick body s =
     (let (n, s1) = next_message_id s
      in add_message_with_activity_unshrunk (dv_lower ev) bid (dcc_message ev t (Some nick) body n) Mention s1)"

definition incoming_request ::
  "dcc_env \<Rightarrow> bytes \<Rightarrow> bytes \<Rightarrow> ip_addr \<Rightarrow> u16 \<Rightarrow> u32 option \<Rightarrow> bytes \<Rightarrow> bytes \<Rightarrow> dcc_app \<Rightarrow> dcc_app" where
  "incoming_request ev nick conn ip port tok ident host d =
     (let ours = find (\<lambda>(_, r). eq_ignore_ascii_case (dr_nick r) nick \<and> dr_state r = Listening) (dm_records (da_dcc d));
          d1 = (case ours of
                  None \<Rightarrow> d
                | Some (k, _) \<Rightarrow> on_dcc (drop_sender k \<circ> (\<lambda>m. snd (close_by_id k m))) d);
          auto_accept = (ours \<noteq> None \<or> should_auto_accept (dv_match ev) nick ident host port (da_dcc d1))
      in if dm_max_connections (da_dcc d1) \<le> length (dm_records (da_dcc d1)) then
           tell ev (''DCC CHAT from '' @ nick @ '' rejected: max connections reached'') d1
         else
           let k = generate_id (dv_lower ev) nick (da_dcc d1);
               d2 = on_dcc (put_record k (fresh_record ev k nick conn ip port WaitingUser tok ident host)) d1
           in if auto_accept then cmd_dcc ev [''chat'', nick] d2
              else tell ev (''DCC CHAT request from '' @ nick @ '' ('' @ show_ip (dv_ip ev) ip @ '':'' @ show_nat (unat port) @
                     '') '' @ em_dash @ '' use /dcc chat '' @ nick @ '' to accept'') d2)"

definition chat_connected :: "dcc_env \<Rightarrow> bytes \<Rightarrow> dcc_app \<Rightarrow> dcc_app" where
  "chat_connected ev k d =
     (case map_of (dm_records (da_dcc d)) k of
        None \<Rightarrow> d
      | Some r \<Rightarrow>
          let d1 = on_dcc (upd_record k (\<lambda>r. r\<lparr>dr_state := DccConnected, dr_started := Some (dv_now ev)\<rparr>)) d;
              bid = dcc_buffer_id ev (dr_conn_id r) (dr_nick r);
              opened = (\<lambda>s. if map_of (st_buffers s) bid = None
                             then add_buffer (new_buffer bid (dr_conn_id r) DccChat (''='' @ dr_nick r) None) s else s)
          in on_ui (post_event ev bid (''DCC CHAT connection established with '' @ dr_nick r) \<circ> set_active_buffer bid \<circ> opened) d1)"

definition chat_line :: "dcc_env \<Rightarrow> message_type \<Rightarrow> bytes \<Rightarrow> bytes \<Rightarrow> dcc_app \<Rightarrow> dcc_app" where
  "chat_line ev t k body d =
     (case map_of (dm_records (da_dcc d)) k of
        None \<Rightarrow> d
      | Some r \<Rightarrow>
          on_ui (post_chat ev (dcc_buffer_id ev (dr_conn_id r) (dr_nick r)) t (dr_nick r) body)
            (on_dcc (upd_record k (\<lambda>r. r\<lparr>dr_bytes := (dr_bytes r + length body) mod 2 ^ 64\<rparr>)) d))"

definition chat_closed :: "dcc_env \<Rightarrow> bytes \<Rightarrow> bytes option \<Rightarrow> dcc_app \<Rightarrow> dcc_app" where
  "chat_closed ev k reason d =
     (let (r, m) = close_by_id k (da_dcc d); d1 = d\<lparr>da_dcc := drop_sender k m\<rparr>
      in case r of
           None \<Rightarrow> d1
         | Some r \<Rightarrow> on_ui (post_event ev (dcc_buffer_id ev (dr_conn_id r) (dr_nick r))
             (''DCC CHAT with '' @ dr_nick r @ '' closed'' @ (case reason of None \<Rightarrow> [] | Some x \<Rightarrow> '' ('' @ x @ '')''))) d1)"

fun handle_dcc_event :: "dcc_env \<Rightarrow> dcc_event \<Rightarrow> dcc_app \<Rightarrow> dcc_app" where
  "handle_dcc_event ev (IncomingRequest nick conn ip port tok ident host) d = incoming_request ev nick conn ip port tok ident host d"
| "handle_dcc_event ev (ChatConnected k) d = chat_connected ev k d"
| "handle_dcc_event ev (ChatMessage k body) d = chat_line ev MsgMessage k body d"
| "handle_dcc_event ev (ChatAction k body) d = chat_line ev MsgAction k body d"
| "handle_dcc_event ev (ChatClosed k reason) d = chat_closed ev k reason d"
| "handle_dcc_event ev (ChatError k e) d =
     tell ev (''DCC error: '' @ e) (on_dcc (drop_sender k \<circ> (\<lambda>m. snd (close_by_id k m))) d)"

section \<open>Traffic\<close>

text \<open>
  A CTCP in a PRIVMSG, before the dispatcher: an answer to a passive offer is
  found by its token, anything else is a new request.  \<open>None\<close>: not a DCC request,
  the message goes on.
\<close>

definition intercept_dcc ::
  "dcc_env \<Rightarrow> bytes \<Rightarrow> irc_prefix option \<Rightarrow> bytes \<Rightarrow> dcc_app \<Rightarrow> dcc_app option" where
  "intercept_dcc ev conn pfx body d =
     (if starts_with [byte_of 1] body \<and> ends_with [byte_of 1] body \<and> 2 < length body then
        (case parse_dcc_ctcp (dv_ip ev) (take (length body - 2) (drop 1 body)) of
           None \<Rightarrow> None
         | Some msg \<Rightarrow>
             let (nick, ident, host) = extract_nick_userhost pfx;
                 hit = (if dk_token msg \<noteq> None \<and> 0 < dk_port msg
                        then find (\<lambda>(_, r). dr_passive_token r = dk_token msg) (dm_records (da_dcc d)) else None)
             in Some (case hit of
                  Some (k, _) \<Rightarrow>
                    start_task k (ConnectTo k (dk_addr msg) (dk_port msg))
                      (on_dcc (upd_record k (\<lambda>r. r\<lparr>dr_addr := dk_addr msg, dr_port := dk_port msg, dr_state := DccConnecting\<rparr>)) d)
                | None \<Rightarrow>
                    handle_dcc_event ev (IncomingRequest nick conn (dk_addr msg) (dk_port msg) (dk_token msg) ident host) d))
      else None)"

text \<open>After the dispatcher: the records and buffers of a direct chat follow the nick.\<close>

definition rename_dcc_buffer :: "dcc_env \<Rightarrow> bytes \<Rightarrow> bytes \<Rightarrow> bytes \<times> bytes \<Rightarrow> app_state \<Rightarrow> app_state" where
  "rename_dcc_buffer ev conn new_nick ids s =
     (let old_bid = make_buffer_id (dv_lower ev) conn (''='' @ fst ids);
          new_bid = make_buffer_id (dv_lower ev) conn (''='' @ snd ids)
      in case map_of (st_buffers s) old_bid of
           None \<Rightarrow> s
         | Some b \<Rightarrow> s\<lparr>st_buffers := AList.update new_bid (b\<lparr>bf_id := new_bid, bf_name := ''='' @ new_nick\<rparr>)
                          (AList.delete old_bid (st_buffers s)),
                       st_active := (if st_active s = Some old_bid then Some new_bid else st_active s)\<rparr>)"

definition dcc_nick_change :: "dcc_env \<Rightarrow> bytes \<Rightarrow> bytes \<Rightarrow> bytes \<Rightarrow> dcc_app \<Rightarrow> dcc_app" where
  "dcc_nick_change ev conn old_nick new_nick d =
     (let (renames, m) = dcc_update_nick (dv_lower ev) old_nick new_nick (da_dcc d)
      in on_ui (fold (rename_dcc_buffer ev conn new_nick) renames) (d\<lparr>da_dcc := m\<rparr>))"

definition dcc_no_such_nick :: "dcc_env \<Rightarrow> bytes list \<Rightarrow> dcc_app \<Rightarrow> dcc_app" where
  "dcc_no_such_nick ev args d =
     (case nth_opt args 1 of
        None \<Rightarrow> d
      | Some nick \<Rightarrow>
          let (r, m) = close_by_nick (dv_lower ev) nick (da_dcc d); d1 = d\<lparr>da_dcc := m\<rparr>
          in case r of
               None \<Rightarrow> d1
             | Some r \<Rightarrow> tell ev (''DCC CHAT to '' @ dr_nick r @ '' cancelled: no such nick'') d1)"

definition dcc_tick :: "dcc_env \<Rightarrow> dcc_app \<Rightarrow> dcc_app" where
  "dcc_tick ev d =
     (let (gone, m) = dcc_purge_expired (dv_now ev) (da_dcc d)
      in fold (\<lambda>(_, nick). tell ev (''DCC CHAT request from '' @ nick @ '' timed out'')) gone (d\<lparr>da_dcc := m\<rparr>))"

end
