(* ===== verification/Dcc_Properties.thy ===== *)
theory Dcc_Properties
  imports Dcc_App
begin

text \<open>
  Properties of direct chats: the request is read back as it was built, ids are
  fresh, the table of records is bounded and keyed by id; and two behaviours a
  user should know of.
\<close>

declare map_of_eq_Some_iff [simp del] show_nat.simps [simp del]

section \<open>The request\<close>

unbundle bit_operations_syntax

lemma ip_octets:
  fixes a b c d :: u8
  defines "n \<equiv> push_bit 24 (ucast a :: u32) OR push_bit 16 (ucast b) OR push_bit 8 (ucast c) OR ucast d"
  shows "ucast (drop_bit 24 n AND 255) = a" "ucast (drop_bit 16 n AND 255) = b"
    "ucast (drop_bit 8 n AND 255) = c" "ucast (n AND 255) = d"
proof -
  have mask: "(255 :: u32) = mask 8" by (simp add: mask_eq_exp_minus_1)
  show "ucast (drop_bit 24 n AND 255) = a" "ucast (drop_bit 16 n AND 255) = b"
    "ucast (drop_bit 8 n AND 255) = c" "ucast (n AND 255) = d"
    unfolding n_def mask by (rule bit_word_eqI, auto simp: bit_simps dest: bit_imp_le_length)+
qed

text \<open>What the text of an IPv6 address has to satisfy.\<close>

definition ip_text_ok :: "ip_text \<Rightarrow> bool" where
  "ip_text_ok it \<longleftrightarrow> (\<forall>v. it_parse6 it (it_show6 it v) = Some v \<and> CHR '':'' \<in> set (it_show6 it v) \<and>
     (\<forall>c\<in>set (it_show6 it v). \<not> is_ascii_whitespace c))"

lemma no_colon: "CHR '':'' \<notin> set (show_nat n)"
  by (rule show_nat_no_char) (simp add: in_range_def)

lemma decode_encode: "ip_text_ok it \<Longrightarrow> decode_ip it (encode_ip it ip) = Some ip"
proof (cases ip)
  case (V4 a b c d)
  let ?n = "push_bit 24 (ucast a :: u32) OR push_bit 16 (ucast b) OR push_bit 8 (ucast c) OR ucast d"
  have "parse_u32 (show_nat (unat ?n)) = Inr ?n" by (rule parse_u32_show)
  then show ?thesis using ip_octets [of a b c d] no_colon
    by (simp only: V4 encode_ip_def decode_ip_def ip_addr.case sum.case if_False)
qed (auto simp: ip_text_ok_def encode_ip_def decode_ip_def)


definition is_token :: "bytes \<Rightarrow> bool" where
  "is_token s \<longleftrightarrow> s \<noteq> [] \<and> (\<forall>c\<in>set s. \<not> is_ascii_whitespace c)"

lemma token_last: "is_token s \<Longrightarrow> split_ascii_whitespace s = [s]"
proof -
  assume s: "is_token s"
  then have "map (\<lambda>c. if is_ascii_whitespace c then CHR 0x20 else c) s = s" by (auto simp: is_token_def intro: map_idI)
  moreover have "CHR 0x20 \<notin> set s" using s by (auto simp: is_token_def is_ascii_whitespace_def)
  ultimately show ?thesis using s by (simp add: split_ascii_whitespace_def split_plain is_token_def)
qed

lemma token_next: "is_token s \<Longrightarrow> split_ascii_whitespace (s @ CHR 0x20 # r) = s # split_ascii_whitespace r"
proof -
  assume s: "is_token s"
  then have "map (\<lambda>c. if is_ascii_whitespace c then CHR 0x20 else c) s = s" by (auto simp: is_token_def intro: map_idI)
  moreover have "CHR 0x20 \<notin> set s" using s by (auto simp: is_token_def is_ascii_whitespace_def)
  moreover have "is_ascii_whitespace (CHR 0x20)" by (simp add: is_ascii_whitespace_def)
  ultimately show ?thesis using s by (simp add: split_ascii_whitespace_def split_append is_token_def)
qed

lemma number_token: "is_token (show_nat n)"
proof -
  have "\<not> is_ascii_whitespace c" if "c \<in> set (show_nat n)" for c
    using show_nat_digits [OF that] by (auto simp: in_range_def is_ascii_whitespace_def)
  then show ?thesis by (simp add: is_token_def)
qed

lemma ip_token: "ip_text_ok it \<Longrightarrow> is_token (encode_ip it ip)"
proof (cases ip)
  case (V6 v)
  assume "ip_text_ok it"
  then have "CHR '':'' \<in> set (it_show6 it v)" "\<forall>c\<in>set (it_show6 it v). \<not> is_ascii_whitespace c"
    by (auto simp: ip_text_ok_def)
  then show ?thesis by (auto simp: V6 encode_ip_def is_token_def)
qed (simp add: encode_ip_def number_token)

lemma word_tokens: "is_token ''DCC''" "is_token ''CHAT''"
  by (auto simp: is_token_def is_ascii_whitespace_def)

lemma dcc_built_parses:
  assumes "ip_text_ok it"
  shows "\<exists>body. build_dcc_chat_ctcp it ip port tok = [byte_of 1] @ body @ [byte_of 1] \<and>
    parse_dcc_ctcp it body = Some \<lparr>dk_type = ''CHAT'', dk_addr = ip, dk_port = port, dk_token = tok\<rparr>"
proof -
  let ?tail = "case tok of None \<Rightarrow> [] | Some t \<Rightarrow> '' '' @ show_nat (unat t)"
  let ?body = "''DCC'' @ CHR 0x20 # ''CHAT'' @ CHR 0x20 # ''CHAT'' @ CHR 0x20 # encode_ip it ip @ CHR 0x20 # show_nat (unat port) @ ?tail"
  have last: "split_ascii_whitespace (show_nat (unat port) @ ?tail) =
      show_nat (unat port) # (case tok of None \<Rightarrow> [] | Some t \<Rightarrow> [show_nat (unat t)])"
    by (cases tok) (simp_all add: token_last token_next number_token)
  have "split_ascii_whitespace ?body = ''DCC'' # ''CHAT'' # ''CHAT'' # encode_ip it ip # show_nat (unat port) #
      (case tok of None \<Rightarrow> [] | Some t \<Rightarrow> [show_nat (unat t)])"
    by (simp only: token_next [OF word_tokens(1)] token_next [OF word_tokens(2)] token_next [OF ip_token [OF assms]] last)
  moreover have "ascii_upper ''CHAT'' = ''CHAT''" by code_simp
  ultimately have "parse_dcc_ctcp it ?body = Some \<lparr>dk_type = ''CHAT'', dk_addr = ip, dk_port = port, dk_token = tok\<rparr>"
    using decode_encode [OF assms, of ip] by (cases tok) (simp_all add: parse_dcc_ctcp_def eq_ignore_ascii_case_refl)
  moreover have "build_dcc_chat_ctcp it ip port tok = [byte_of 1] @ ?body @ [byte_of 1]"
    by (cases tok) (simp_all add: build_dcc_chat_ctcp_def)
  ultimately show ?thesis by blast
qed

text \<open>
  A request is read back as it was built, whatever address, port and token:
  the text between the CTCP delimiters parses to the same request.
\<close>

theorem dcc_roundtrip:
  assumes "ip_text_ok it"
  shows "\<exists>body. build_dcc_chat_ctcp it ip port tok = [byte_of 1] @ body @ [byte_of 1] \<and>
    parse_dcc_ctcp it body = Some \<lparr>dk_type = ''CHAT'', dk_addr = ip, dk_port = port, dk_token = tok\<rparr>"
  by (rule dcc_built_parses [OF assms])

text \<open>An address text for the examples: a colon and the number.\<close>

definition colon_text :: ip_text where
  "colon_text = \<lparr>it_show6 = (\<lambda>v. CHR '':'' # show_nat (unat v)),
     it_parse6 = (\<lambda>s. case parse_unsigned (2 ^ 128) (tl s) of Inl _ \<Rightarrow> None | Inr n \<Rightarrow> Some (of_nat n))\<rparr>"

lemma colon_text_ok: "ip_text_ok colon_text"
proof -
  have "unat v \<le> 2 ^ 128" for v :: "128 word" using unsigned_less [where 'a = nat, of v] by simp
  then have "parse_unsigned (2 ^ 128) (show_nat (unat v)) = Inr (unat v)" for v :: "128 word" by (rule parse_unsigned_show)
  then show ?thesis using number_token by (auto simp: ip_text_ok_def colon_text_def is_token_def is_ascii_whitespace_def)
qed

lemma dcc_roundtrip_witness:
  "\<exists>body. build_dcc_chat_ctcp colon_text (V4 192 168 1 100) 0 (Some 42) = [byte_of 1] @ body @ [byte_of 1] \<and>
    parse_dcc_ctcp colon_text body = Some \<lparr>dk_type = ''CHAT'', dk_addr = V4 192 168 1 100, dk_port = 0, dk_token = Some 42\<rparr>"
  by (rule dcc_roundtrip [OF colon_text_ok])

section \<open>Ids\<close>

lemma free_suffix_free: "map_of t (free_suffix base t n) = None"
  by (induction base t n rule: free_suffix.induct) (subst free_suffix.simps, simp)

lemma free_suffix_form: "\<exists>k\<ge>n. free_suffix base t n = base @ show_nat k \<and> (\<forall>j. n \<le> j \<and> j < k \<longrightarrow> base @ show_nat j \<in> fst ` set t)"
proof (induction base t n rule: free_suffix.induct)
  case (1 base t n)
  show ?case
  proof (cases "map_of t (base @ show_nat n) = None")
    case True
    then show ?thesis by (subst free_suffix.simps) auto
  next
    case False
    then obtain k where k: "n + 1 \<le> k" "free_suffix base t (n + 1) = base @ show_nat k"
      "\<And>j. n + 1 \<le> j \<Longrightarrow> j < k \<Longrightarrow> base @ show_nat j \<in> fst ` set t" using 1 by auto
    have "base @ show_nat n \<in> fst ` set t" using False by (simp add: map_of_eq_None_iff)
    then have "base @ show_nat j \<in> fst ` set t" if "n \<le> j" "j < k" for j
      using k(3) [of j] that by (cases "j = n") auto
    moreover have "free_suffix base t n = base @ show_nat k" using k(2) by (subst free_suffix.simps) (simp only: False if_False)
    ultimately show ?thesis using k(1) by (intro exI [of _ k]) auto
  qed
qed

text \<open>
  C19: the search for an id ends, after at most as many steps as there are
  records, with an id no record has: the nick itself, or the nick with a number.
\<close>

theorem generate_id_ends:
  "map_of (dm_records m) (generate_id lower nick m) = None \<and>
    (generate_id lower nick m = lower nick \<or>
     (\<exists>k. 2 \<le> k \<and> k \<le> length (dm_records m) + 2 \<and> generate_id lower nick m = lower nick @ show_nat k))"
proof (cases "map_of (dm_records m) (lower nick) = None")
  case False
  let ?t = "dm_records m"
  obtain k where k: "2 \<le> k" "free_suffix (lower nick) ?t 2 = lower nick @ show_nat k"
    "\<And>j. 2 \<le> j \<Longrightarrow> j < k \<Longrightarrow> lower nick @ show_nat j \<in> fst ` set ?t"
    using free_suffix_form [of 2 "lower nick" ?t] by auto
  have "card ((\<lambda>j. lower nick @ show_nat j) ` {2..<k}) \<le> card (fst ` set ?t)"
    using k(3) by (intro card_mono) auto
  moreover have "card ((\<lambda>j. lower nick @ show_nat j) ` {2..<k}) = k - 2"
    by (subst card_image) (auto simp: inj_on_def dest: show_nat_inject)
  moreover have "card (fst ` set ?t) \<le> length ?t" by (metis card_length length_map set_map)
  ultimately have "k \<le> length ?t + 2" by linarith
  moreover have "generate_id lower nick m = free_suffix (lower nick) ?t 2" by (simp only: generate_id_def Let_def False if_False)
  ultimately show ?thesis using k(1,2) free_suffix_free [of ?t "lower nick" 2] by metis
qed (simp add: generate_id_def)


section \<open>The table of records\<close>

definition records_ok :: "dcc_manager \<Rightarrow> bool" where
  "records_ok m \<longleftrightarrow> distinct (map fst (dm_records m)) \<and>
     (\<forall>k r. map_of (dm_records m) k = Some r \<longrightarrow> dr_id r = k) \<and> length (dm_records m) \<le> dm_max_connections m"

lemma length_update: "length (AList.update k v t) = (if k \<in> fst ` set t then length t else length t + 1)"
  by (induction t) auto

lemma length_delete: "length (AList.delete k t) \<le> length t"
  by (simp add: AList.delete_eq)

lemma length_delete_less: "map_of t k = Some v \<Longrightarrow> length (AList.delete k t) < length t"
  by (auto simp: AList.delete_eq dest: map_of_SomeD intro!: length_filter_less)

named_theorems dcc_keeps "steps that keep the table of records sound"

lemma put_record_keeps:
  "records_ok m \<Longrightarrow> dr_id r = k \<Longrightarrow> map_of (dm_records m) k = None \<Longrightarrow> length (dm_records m) < dm_max_connections m \<Longrightarrow>
   records_ok (put_record k r m)"
  by (auto simp: records_ok_def put_record_def distinct_update update_conv' length_update map_of_eq_None_iff)

lemma upd_record_keeps [dcc_keeps]:
  "records_ok m \<Longrightarrow> (\<And>r. dr_id (f r) = dr_id r) \<Longrightarrow> records_ok (upd_record k f m)"
  by (auto simp: records_ok_def upd_record_def distinct_update update_conv' length_update dest: map_of_SomeD split: option.split)
     (metis image_eqI fst_conv map_of_SomeD)

lemma senders_keep [dcc_keeps]:
  "records_ok m \<Longrightarrow> records_ok (new_sender k m)" "records_ok m \<Longrightarrow> records_ok (drop_sender k m)"
  by (simp_all add: records_ok_def new_sender_def drop_sender_def)

lemma close_keeps [dcc_keeps]:
  assumes "records_ok m"
  shows "records_ok (snd (close_by_id k m))" "records_ok (snd (close_by_nick lower nick m))"
proof -
  have del: "records_ok (m\<lparr>dm_records := AList.delete k (dm_records m)\<rparr>)" for k
    using assms le_trans [OF length_delete] by (auto simp: records_ok_def distinct_delete delete_conv' split: if_splits)
  then show "records_ok (snd (close_by_id k m))" "records_ok (snd (close_by_nick lower nick m))"
    using assms by (simp_all add: close_by_id_def close_by_nick_def split: option.split)
qed

lemma purge_keeps [dcc_keeps]:
  assumes "records_ok m"
  shows "records_ok (snd (dcc_purge_expired now m))"
proof -
  have "records_ok (m\<lparr>dm_senders := sn, dm_records := fold AList.delete ks (dm_records m)\<rparr>)" for sn ks
  proof (induction ks rule: rev_induct)
    case Nil
    then show ?case using assms by (simp add: records_ok_def)
  next
    case (snoc k ks)
    then show ?case using le_trans [OF length_delete]
      by (auto simp: records_ok_def distinct_delete delete_conv' split: if_splits)
  qed
  then show ?thesis by (simp add: dcc_purge_expired_def Let_def)
qed

lemma generate_id_None [simp]: "map_of (dm_records m) (generate_id lower nick m) = None"
proof (cases "map_of (dm_records m) (lower nick) = None")
  case False
  then show ?thesis by (simp only: generate_id_def Let_def if_False free_suffix_free)
qed (simp add: generate_id_def)

lemma rename_record_keeps:
  assumes "records_ok (snd acc)"
  shows "records_ok (snd (rename_record lower new_nick old_id acc))"
proof -
  obtain renamed m where acc: "acc = (renamed, m)" by (cases acc)
  show ?thesis
  proof (cases "map_of (dm_records m) old_id")
    case None
    then show ?thesis using assms by (simp add: rename_record_def acc)
  next
    case (Some r)
    let ?m1 = "m\<lparr>dm_records := AList.delete old_id (dm_records m)\<rparr>"
    let ?k = "generate_id lower new_nick ?m1"
    have ok: "records_ok ?m1" using close_keeps(1) [of m old_id] assms by (simp add: acc close_by_id_def)
    have "length (dm_records ?m1) < dm_max_connections ?m1"
      using length_delete_less [OF Some] assms by (simp add: acc records_ok_def)
    then have "records_ok (put_record ?k (r\<lparr>dr_nick := new_nick, dr_id := ?k\<rparr>) ?m1)"
      by (intro put_record_keeps [OF ok _ generate_id_None]) simp_all
    then show ?thesis by (simp add: rename_record_def acc Some Let_def put_record_def records_ok_def split: option.split)
  qed
qed

lemma update_nick_keeps [dcc_keeps]: "records_ok m \<Longrightarrow> records_ok (snd (dcc_update_nick lower x y m))"
proof -
  have "records_ok (snd (fold (rename_record lower y) ks acc))" if "records_ok (snd acc)" for ks acc
    using that by (induction ks arbitrary: acc) (simp_all add: rename_record_keeps)
  then show "records_ok m \<Longrightarrow> ?thesis" by (simp add: dcc_update_nick_def)
qed

lemma dcc_of_shown [simp]:
  "da_dcc (tell ev body d) = da_dcc d" "da_dcc (on_ui f d) = da_dcc d" "da_dcc (snd (send_irc ev notice target body d)) = da_dcc d"
  "da_dcc (on_dcc g d) = g (da_dcc d)" "da_dcc (start_task k t d) = new_sender k (da_dcc d)"
  by (simp_all add: tell_def on_ui_def send_irc_def on_dcc_def start_task_def split: option.split)

lemma fold_tell [simp]: "da_dcc (fold (tell ev) ls d) = da_dcc d"
  by (induction ls arbitrary: d) simp_all

lemma fold_tell_pairs [simp]: "da_dcc (fold (\<lambda>(_, n). tell ev (f n)) gone d) = da_dcc d"
  by (induction gone arbitrary: d) (simp_all add: case_prod_beta)

lemma send_line_keeps: "send_chat_line k body m = Some m' \<Longrightarrow> records_ok m \<Longrightarrow> records_ok m'"
  by (auto simp: send_chat_line_def records_ok_def split: option.splits if_splits)

lemma accept_keeps [dcc_keeps]: "records_ok (da_dcc d) \<Longrightarrow> records_ok (da_dcc (accept_dcc_chat ev nick k d))"
  by (simp add: accept_dcc_chat_def accept_passive_def accept_active_def Let_def case_prod_beta dcc_keeps split: option.split sum.split)

lemma initiate_keeps [dcc_keeps]: "records_ok (da_dcc d) \<Longrightarrow> records_ok (da_dcc (initiate_dcc_chat ev nick passive d))"
  by (simp add: initiate_dcc_chat_def offer_passive_def offer_active_def Let_def case_prod_beta dcc_keeps put_record_keeps
      fresh_record_def split: option.split sum.split)

lemma commands_keep [dcc_keeps]:
  assumes "records_ok (da_dcc d)"
  shows "records_ok (da_dcc (cmd_dcc ev args d))"
proof -
  have "records_ok (da_dcc (cmd_dcc_chat ev rest d))" "records_ok (da_dcc (cmd_dcc_close ev rest d))"
    "records_ok (da_dcc (cmd_dcc_list ev d))" "records_ok (da_dcc (cmd_dcc_reject ev rest d))" for rest
    using assms by (simp_all add: cmd_dcc_chat_def cmd_dcc_close_def cmd_dcc_list_def cmd_dcc_reject_def Let_def
        case_prod_beta dcc_keeps split: option.split list.split)
  then show ?thesis using assms by (simp add: cmd_dcc_def Let_def split: list.split)
qed

lemma incoming_keeps: "records_ok (da_dcc d) \<Longrightarrow> records_ok (da_dcc (incoming_request ev nick conn ip port tok ident host d))"
  by (auto simp: incoming_request_def Let_def case_prod_beta fresh_record_def split: option.split
      intro!: commands_keep put_record_keeps dcc_keeps)

lemma events_keep [dcc_keeps]: "records_ok (da_dcc d) \<Longrightarrow> records_ok (da_dcc (handle_dcc_event ev e d))"
  by (cases e) (simp_all add: incoming_keeps chat_connected_def chat_line_def chat_closed_def Let_def case_prod_beta dcc_keeps
      split: option.split)

inductive dcc_step :: "dcc_app \<Rightarrow> dcc_app \<Rightarrow> bool" where
  command: "dcc_step d (cmd_dcc ev args d)"
| event: "dcc_step d (handle_dcc_event ev e d)"
| traffic: "intercept_dcc ev conn pfx body d = Some d' \<Longrightarrow> dcc_step d d'"
| nick_change: "dcc_step d (dcc_nick_change ev conn x y d)"
| no_such_nick: "dcc_step d (dcc_no_such_nick ev args d)"
| tick: "dcc_step d (dcc_tick ev d)"
| line: "send_chat_line k body (da_dcc d) = Some m \<Longrightarrow> dcc_step d (d\<lparr>da_dcc := m\<rparr>)"

lemma dcc_step_keeps: "dcc_step d d' \<Longrightarrow> records_ok (da_dcc d) \<Longrightarrow> records_ok (da_dcc d')"
proof (induction rule: dcc_step.induct)
  case (traffic ev conn pfx body d d')
  then show ?case
    by (auto simp: intercept_dcc_def Let_def case_prod_beta incoming_keeps intro!: dcc_keeps split: option.splits if_splits)
next
  case (line k body d m)
  then show ?case using send_line_keeps [OF line(1)] by simp
qed (simp_all add: dcc_nick_change_def dcc_no_such_nick_def dcc_tick_def Let_def case_prod_beta dcc_keeps split: option.split)

text \<open>
  C18: whatever requests, answers, events and commands come, each record stands
  under its id, ids do not repeat, and there are never more records than the
  configured maximum; renames included.
\<close>

theorem dcc_records_bounded:
  assumes "dcc_step\<^sup>*\<^sup>* d d'" "records_ok (da_dcc d)"
  shows "records_ok (da_dcc d')"
  using assms by (induction rule: rtranclp_induct) (auto dest: dcc_step_keeps)

text \<open>The surroundings and the client of the examples: one connection, an empty table of direct chats.\<close>

definition quiet_env :: dcc_env where
  "quiet_env = \<lparr>dv_lower = ascii_lower, dv_utc = 0, dv_now = 0, dv_match = (\<lambda>_ _. False), dv_ip = colon_text,
     dv_bind = (\<lambda>_ _. Bound 5000), dv_local_ip = (\<lambda>_. Some (V4 10 0 0 1)), dv_sender = (\<lambda>_. True),
     dv_send_error = (\<lambda>_. None), dv_random = 7, dv_port_between = (\<lambda>lo _. lo)\<rparr>"

definition quiet_app :: dcc_app where
  "quiet_app = \<lparr>da_client = client_of (set_active_buffer ''n/#a'' (add_buffer (new_buffer ''n/#a'' ''n'' Channel ''#a'' None) app_state_new)) None,
     da_dcc = dcc_manager_new, da_sends = [], da_tasks = []\<rparr>"

lemma dcc_records_bounded_witness:
  "records_ok (da_dcc (dcc_tick quiet_env (cmd_dcc quiet_env [''chat'', ''bob''] quiet_app)))"
proof (rule dcc_records_bounded)
  show "dcc_step\<^sup>*\<^sup>* quiet_app (dcc_tick quiet_env (cmd_dcc quiet_env [''chat'', ''bob''] quiet_app))"
    by (meson dcc_step.command dcc_step.tick r_into_rtranclp rtranclp.rtrancl_into_rtrancl)
  show "records_ok (da_dcc quiet_app)" by (simp add: quiet_app_def records_ok_def dcc_manager_new_def)
qed

section \<open>Whom a chat connects to\<close>

lemma intercept_built:
  assumes "ip_text_ok (dv_ip ev)" "0 < port"
    "find (\<lambda>(_, r). dr_passive_token r = Some t) (dm_records (da_dcc d)) = Some (k, r)"
  shows "intercept_dcc ev conn pfx (build_dcc_chat_ctcp (dv_ip ev) ip port (Some t)) d =
    Some (start_task k (ConnectTo k ip port)
      (on_dcc (upd_record k (\<lambda>r. r\<lparr>dr_addr := ip, dr_port := port, dr_state := DccConnecting\<rparr>)) d))"
proof -
  obtain body where body: "build_dcc_chat_ctcp (dv_ip ev) ip port (Some t) = [byte_of 1] @ body @ [byte_of 1]"
    "parse_dcc_ctcp (dv_ip ev) body = Some \<lparr>dk_type = ''CHAT'', dk_addr = ip, dk_port = port, dk_token = Some t\<rparr>"
    using dcc_built_parses [OF assms(1)] by blast
  moreover from this have "body \<noteq> []" by (auto simp: parse_dcc_ctcp_def split_ascii_whitespace_def)
  ultimately show ?thesis using assms(2,3) by (simp add: intercept_dcc_def starts_with_def ends_with_def case_prod_beta)
qed

text \<open>
  C20: an answer to a passive offer is recognised by its token alone: whoever sends
  it, on whatever connection and in whatever state the chat is, the client
  turns the record to the address the message names and connects there.  The
  token is one of 64 values.
\<close>

theorem passive_answer_from_anyone:
  assumes "ip_text_ok (dv_ip ev)" "0 < port"
    "find (\<lambda>(_, r). dr_passive_token r = Some t) (dm_records (da_dcc d)) = Some (k, r)"
    "distinct (map fst (dm_records (da_dcc d)))"
  shows "\<exists>d'. (\<forall>conn pfx. intercept_dcc ev conn pfx (build_dcc_chat_ctcp (dv_ip ev) ip port (Some t)) d = Some d') \<and>
    da_tasks d' = da_tasks d @ [ConnectTo k ip port] \<and>
    map_of (dm_records (da_dcc d')) k = Some (r\<lparr>dr_addr := ip, dr_port := port, dr_state := DccConnecting\<rparr>)"
proof -
  have "(k, r) \<in> set (dm_records (da_dcc d))" using assms(3) by (metis (lifting) find_Some_iff nth_mem)
  then have "map_of (dm_records (da_dcc d)) k = Some r" using assms(4) by simp
  then show ?thesis by (auto simp: intercept_built [OF assms(1-3)] start_task_def on_dcc_def upd_record_def new_sender_def
      update_conv' intro!: exI)
qed

text \<open>A connected chat with bob, whose offer had token 7.\<close>

definition live_chat :: dcc_app where
  "live_chat = quiet_app\<lparr>da_dcc := dcc_manager_new\<lparr>dm_records := [(''bob'',
     fresh_record quiet_env ''bob'' ''bob'' ''n'' (V4 10 0 0 2) 6000 DccConnected (Some 7) [] [])],
     dm_senders := [(''bob'', [])]\<rparr>\<rparr>"

lemma passive_answer_from_anyone_witness:
  "\<exists>d'. (\<forall>conn pfx. intercept_dcc quiet_env conn pfx (build_dcc_chat_ctcp (dv_ip quiet_env) (V4 6 6 6 6) 666 (Some 7)) live_chat = Some d') \<and>
    da_tasks d' = da_tasks live_chat @ [ConnectTo ''bob'' (V4 6 6 6 6) 666] \<and>
    map_of (dm_records (da_dcc d')) ''bob'' = Some (fresh_record quiet_env ''bob'' ''bob'' ''n'' (V4 10 0 0 2) 6000 DccConnected (Some 7) [] []
      \<lparr>dr_addr := V4 6 6 6 6, dr_port := 666, dr_state := DccConnecting\<rparr>)"
  by (rule passive_answer_from_anyone)
     (simp_all add: quiet_env_def colon_text_ok live_chat_def fresh_record_def)

lemma active_offer:
  assumes "dm_records (da_dcc d) = []" "0 < dm_max_connections (da_dcc d)" "active_conn_id d = Some conn"
    "bind_listener ev d = Inr port" "dv_send_error ev nick = None" "nick \<noteq> ''-passive''"
  defines "r \<equiv> fresh_record ev (dv_lower ev nick) nick conn (advertise_ip ev d) port Listening None [] []"
  shows "dm_records (da_dcc (cmd_dcc_chat ev [nick] d)) = [(dv_lower ev nick, r)]"
    "da_tasks (cmd_dcc_chat ev [nick] d) = da_tasks d @ [ListenFor (dv_lower ev nick) port]"
  using assms by (simp_all add: cmd_dcc_chat_def find_pending_def initiate_dcc_chat_def offer_active_def generate_id_def Let_def
      send_irc_def tell_def start_task_def on_dcc_def put_record_def new_sender_def)

text \<open>
  Asking twice for a chat with the same nick connects the client to its own
  listener: the second \<open>/dcc chat\<close> takes the record of the first offer for a
  request of the peer.
\<close>

theorem second_offer_connects_to_self:
  assumes "dm_records (da_dcc d) = []" "0 < dm_max_connections (da_dcc d)" "active_conn_id d = Some conn"
    "bind_listener ev d = Inr port" "dv_send_error ev nick = None" "nick \<noteq> ''-passive''"
    "dv_lower ev ''chat'' = ''chat''"
  shows "da_tasks (cmd_dcc ev [''chat'', nick] (cmd_dcc ev [''chat'', nick] d)) =
    da_tasks d @ [ListenFor (dv_lower ev nick) port, ConnectTo (dv_lower ev nick) (advertise_ip ev d) port]"
proof -
  let ?d1 = "cmd_dcc_chat ev [nick] d"
  note first = active_offer [OF assms(1-6)]
  have "da_tasks (cmd_dcc_chat ev [nick] ?d1) = da_tasks ?d1 @ [ConnectTo (dv_lower ev nick) (advertise_ip ev d) port]"
    using assms(6)
    by (simp add: cmd_dcc_chat_def [of ev "[nick]" "?d1"] find_pending_def first(1) is_pending_def fresh_record_def accept_dcc_chat_def
        accept_active_def tell_def start_task_def on_dcc_def)
  then show ?thesis using first(2) assms(7) by (simp add: cmd_dcc_def)
qed

lemma second_offer_connects_to_self_witness:
  "da_tasks (cmd_dcc quiet_env [''chat'', ''bob''] (cmd_dcc quiet_env [''chat'', ''bob''] quiet_app)) =
    [ListenFor ''bob'' 5000, ConnectTo ''bob'' (V4 127 0 0 1) 5000]"
proof -
  have env: "dv_lower quiet_env = ascii_lower" "dv_bind quiet_env = (\<lambda>_ _. Bound 5000)" "dv_send_error quiet_env = (\<lambda>_. None)"
    by (simp_all add: quiet_env_def)
  have low: "ascii_lower ''chat'' = ''chat''" "ascii_lower ''bob'' = ''bob''" by code_simp+
  have app: "active_conn_id quiet_app = Some ''n''" "resolve_own_ip quiet_env quiet_app = None" "da_tasks quiet_app = []"
    "dm_records (da_dcc quiet_app) = []" "dm_max_connections (da_dcc quiet_app) = 10"
    by (simp_all add: active_conn_id_def active_buffer_def quiet_app_def set_active_buffer_def add_buffer_def new_buffer_def
        dcc_manager_new_def app_state_new_def resolve_own_ip_def upd_buffer_def push_web_def Let_def)
  show ?thesis using second_offer_connects_to_self [of quiet_app "''n''" quiet_env 5000 "''bob''"]
    by (simp add: app env low bind_listener_def advertise_ip_def unwrap_or_def localhost_ip_def)
qed

section \<open>Closing a chat\<close>

text \<open>
  \<open>/dcc close chat\<close> and \<open>/dcc reject chat\<close> take the record away and leave the
  queue of its task: lines still go through it, so the session of the peer goes on.
\<close>

theorem close_leaves_session:
  assumes "find (\<lambda>(_, r). dv_lower ev (dr_nick r) = dv_lower ev nick) (dm_records (da_dcc d)) = Some (k, r)"
    "map_of (dm_senders (da_dcc d)) k = Some q" "length q < 256"
    "dv_lower ev ''close'' = ''close''"
  defines "m \<equiv> da_dcc (cmd_dcc ev [''close'', ''chat'', nick] d)"
  shows "map_of (dm_records m) k = None \<and> (\<exists>m'. send_chat_line k body m = Some m' \<and> map_of (dm_senders m') k = Some (q @ [body]))"
  using assms(1-4)
  by (simp add: m_def cmd_dcc_def cmd_dcc_close_def eq_ignore_ascii_case_refl close_by_nick_def close_by_id_def Let_def
      send_chat_line_def update_conv' delete_conv' split: option.split) fastforce+

lemma close_leaves_session_witness:
  "map_of (dm_records (da_dcc (cmd_dcc quiet_env [''close'', ''chat'', ''bob''] live_chat))) ''bob'' = None \<and>
   (\<exists>m'. send_chat_line ''bob'' ''hello'' (da_dcc (cmd_dcc quiet_env [''close'', ''chat'', ''bob''] live_chat)) = Some m' \<and>
     map_of (dm_senders m') ''bob'' = Some ([] @ [''hello'']))"
proof (rule close_leaves_session)
  show "find (\<lambda>(_, r). dv_lower quiet_env (dr_nick r) = dv_lower quiet_env ''bob'') (dm_records (da_dcc live_chat)) =
      Some (''bob'', fresh_record quiet_env ''bob'' ''bob'' ''n'' (V4 10 0 0 2) 6000 DccConnected (Some 7) [] [])"
    by (simp add: live_chat_def fresh_record_def)
  show "map_of (dm_senders (da_dcc live_chat)) ''bob'' = Some []" by (simp add: live_chat_def)
  have "ascii_lower ''close'' = ''close''" by code_simp
  then show "dv_lower quiet_env ''close'' = ''close''" by (simp add: quiet_env_def)
qed simp

end
