(* ===== verification/Irc_Scram.thy ===== *)
theory Irc_Scram
  imports Rust_Text
begin

text \<open>
  \<open>src/src/irc/sasl_scram.rs\<close>: the client side of SCRAM-SHA-256.  SHA-256, HMAC,
  PBKDF2 and base64 are crates: arguments, with what the protocol relies on as
  \<open>scram_laws\<close>.  The 24 random bytes of the nonce are an argument.
\<close>

declare show_nat.simps [simp del]

section \<open>The crates\<close>

record scram_crates =
  sf_encode :: "bytes \<Rightarrow> bytes"
  sf_decode :: "bytes \<Rightarrow> bytes + bytes"
  sf_hmac :: "bytes \<Rightarrow> bytes \<Rightarrow> bytes"
  sf_sha256 :: "bytes \<Rightarrow> bytes"
  sf_pbkdf2 :: "bytes \<Rightarrow> bytes \<Rightarrow> nat \<Rightarrow> bytes"

definition scram_laws :: "scram_crates \<Rightarrow> bool" where
  "scram_laws sf \<longleftrightarrow>
     (\<forall>x. sf_decode sf (sf_encode sf x) = Inr x) \<and>
     (\<forall>x. list_all (\<lambda>c. plain_char c \<and> c \<noteq> CHR '','') (sf_encode sf x) \<and> sf_encode sf x \<noteq> ''+'') \<and>
     (\<forall>k x. length (sf_hmac sf k x) = 32)"

section \<open>The client\<close>

definition max_iterations :: nat where "max_iterations = 100000"

definition escape_username :: "bytes \<Rightarrow> bytes" where
  "escape_username u =
     concat (map (\<lambda>c. if c = CHR '','' then ''=2C'' else [c])
       (concat (map (\<lambda>c. if c = CHR ''='' then ''=3D'' else [c]) u)))"

definition client_first :: "scram_crates \<Rightarrow> bytes \<Rightarrow> bytes \<Rightarrow> bytes \<times> bytes \<times> bytes" where
  "client_first sf nonce_bytes username =
     (let client_nonce = sf_encode sf nonce_bytes;
          bare = ''n='' @ escape_username username @ '',r='' @ client_nonce
      in (bare, ''n,,'' @ bare, client_nonce))"

text \<open>The fields of the server's answer; a repeated field counts once more and wins.\<close>

record scram_fields =
  fld_nonce :: "bytes option"
  fld_salt :: "bytes option"
  fld_iterations :: "bytes option"

definition take_field :: "bytes \<Rightarrow> scram_fields \<Rightarrow> scram_fields" where
  "take_field field f =
     (case strip_prefix ''r='' field of
        Some v \<Rightarrow> f\<lparr>fld_nonce := Some v\<rparr>
      | None \<Rightarrow>
          (case strip_prefix ''s='' field of
             Some v \<Rightarrow> f\<lparr>fld_salt := Some v\<rparr>
           | None \<Rightarrow> (case strip_prefix ''i='' field of Some v \<Rightarrow> f\<lparr>fld_iterations := Some v\<rparr> | None \<Rightarrow> f)))"

definition parse_server_first :: "bytes \<Rightarrow> scram_fields" where
  "parse_server_first msg =
     fold take_field (split_on (CHR '','') msg) \<lparr>fld_nonce = None, fld_salt = None, fld_iterations = None\<rparr>"

text \<open>The byte-wise exclusive or of two equally long byte strings.\<close>

unbundle bit_operations_syntax

definition byte_xor :: "char \<Rightarrow> char \<Rightarrow> char" where
  "byte_xor a b = byte_of (unat ((of_nat (byte_val a) :: u8) XOR of_nat (byte_val b)))"

definition xor_bytes :: "bytes \<Rightarrow> bytes \<Rightarrow> bytes" where
  "xor_bytes a b = map (\<lambda>(x, y). byte_xor x y) (zip a b)"

text \<open>The two numbers the password and the whole exchange determine: proof and server signature.\<close>

definition client_proof :: "scram_crates \<Rightarrow> bytes \<Rightarrow> bytes \<Rightarrow> bytes" where
  "client_proof sf salted auth_message =
     (let client_key = sf_hmac sf salted ''Client Key''; stored_key = sf_sha256 sf client_key
      in xor_bytes client_key (sf_hmac sf stored_key auth_message))"

definition server_signature :: "scram_crates \<Rightarrow> bytes \<Rightarrow> bytes \<Rightarrow> bytes" where
  "server_signature sf salted auth_message = sf_hmac sf (sf_hmac sf salted ''Server Key'') auth_message"

definition final_messages ::
  "scram_crates \<Rightarrow> bytes \<Rightarrow> bytes \<Rightarrow> bytes \<Rightarrow> bytes \<Rightarrow> bytes \<Rightarrow> nat \<Rightarrow> bytes \<times> bytes" where
  "final_messages sf server_first bare combined password salt iters =
     (let salted = sf_pbkdf2 sf password salt iters;
          without_proof = ''c=biws,r='' @ combined;
          auth_message = bare @ '','' @ server_first @ '','' @ without_proof
      in (without_proof @ '',p='' @ sf_encode sf (client_proof sf salted auth_message),
          server_signature sf salted auth_message))"

definition client_final ::
  "scram_crates \<Rightarrow> bytes \<Rightarrow> bytes \<Rightarrow> bytes \<Rightarrow> bytes \<Rightarrow> bytes + (bytes \<times> bytes)" where
  "client_final sf server_first bare client_nonce password =
     (let f = parse_server_first server_first
      in bind_res (ok_or ''SCRAM: server-first missing nonce (r=)'' (fld_nonce f)) (\<lambda>combined.
         bind_res (ok_or ''SCRAM: server-first missing salt (s=)'' (fld_salt f)) (\<lambda>salt_b64.
         bind_res (ok_or ''SCRAM: server-first missing iterations (i=)'' (fld_iterations f)) (\<lambda>iters.
         bind_res (guard_res (starts_with client_nonce combined) ''SCRAM: server nonce does not start with client nonce'') (\<lambda>_.
         bind_res (map_err (\<lambda>e. ''SCRAM: invalid base64 salt: '' @ e) (sf_decode sf salt_b64)) (\<lambda>salt.
         bind_res (map_err (\<lambda>e. ''SCRAM: invalid iteration count: '' @ e) (parse_u32 iters)) (\<lambda>n.
         bind_res (guard_res (n \<noteq> 0) ''SCRAM: iteration count must be > 0'') (\<lambda>_.
         bind_res (guard_res (unat n \<le> max_iterations)
             (''SCRAM: iteration count '' @ show_nat (unat n) @ '' exceeds maximum '' @ show_nat max_iterations)) (\<lambda>_.
         Inr (final_messages sf server_first bare combined password salt (unat n)))))))))))"

definition constant_time_eq :: "bytes \<Rightarrow> bytes \<Rightarrow> bool" where
  "constant_time_eq a b \<longleftrightarrow>
     length a = length b \<and>
     fold (\<lambda>(x, y) diff. diff OR (of_nat (byte_val x) XOR of_nat (byte_val y))) (zip a b) (0 :: u8) = 0"

definition verify_server :: "scram_crates \<Rightarrow> bytes \<Rightarrow> bytes \<Rightarrow> bool" where
  "verify_server sf server_final expected =
     (case strip_prefix ''v='' server_final of
        None \<Rightarrow> False
      | Some sig_b64 \<Rightarrow>
          (case sf_decode sf sig_b64 of Inl _ \<Rightarrow> False | Inr sig \<Rightarrow> constant_time_eq sig expected))"

text \<open>\<open>chunks(400)\<close>, and the text for AUTHENTICATE; \<open>None\<close> is the panic of \<open>from_utf8\<close>.\<close>

function chunks_of :: "nat \<Rightarrow> 'a list \<Rightarrow> 'a list list" where
  "chunks_of n xs = (if xs = [] \<or> n = 0 then [] else take n xs # chunks_of n (drop n xs))"
  by pat_completeness auto
termination by (relation "measure (\<lambda>(n, xs). length xs)") auto

declare chunks_of.simps [simp del]

definition chunk_authenticate :: "bytes \<Rightarrow> bytes list option" where
  "chunk_authenticate payload =
     (if payload = [] then Some [''+'']
      else
        let chunks = chunks_of 400 payload
        in if list_all utf8_valid chunks then
             Some (if length (last chunks) = 400 then chunks @ [''+''] else chunks)
           else None)"

section \<open>Lemmas\<close>

lemma byte_val_of_u8 [simp]: "unat (of_nat (byte_val c) :: u8) = byte_val c"
  by (simp add: unat_of_nat take_bit_eq_mod)

lemma byte_xor_val: "(of_nat (byte_val (byte_xor a b)) :: u8) = of_nat (byte_val a) XOR of_nat (byte_val b)"
proof -
  have "byte_val (byte_of (unat w)) = unat w" for w :: u8
    using unsigned_less [where 'a = nat, of w] by simp
  then show ?thesis by (simp add: byte_xor_def)
qed

lemma u8_byte_inject: "(of_nat (byte_val a) :: u8) = of_nat (byte_val b) \<longleftrightarrow> a = b"
  by (metis byte_val_of_u8 of_char_eq_iff)

lemma byte_xor_cancel [simp]: "byte_xor (byte_xor a b) b = a"
proof -
  have "(of_nat (byte_val (byte_xor (byte_xor a b) b)) :: u8) = of_nat (byte_val a)"
    by (simp add: byte_xor_val xor.assoc)
  then show ?thesis by (simp add: u8_byte_inject)
qed

lemma xor_bytes_cancel: "length a = length b \<Longrightarrow> xor_bytes (xor_bytes a b) b = a"
  by (induction a b rule: list_induct2) (simp_all add: xor_bytes_def)

lemma xor_zero: "(a :: u8) XOR b = 0 \<longleftrightarrow> a = b"
proof
  assume "a XOR b = 0"
  then have "(a XOR b) XOR b = 0 XOR b" by simp
  then show "a = b" by (simp add: xor.assoc)
qed simp

lemma diff_zero:
  "length a = length b \<Longrightarrow>
   fold (\<lambda>(x, y) diff. diff OR (of_nat (byte_val x) XOR of_nat (byte_val y))) (zip a b) (d :: u8) = 0 \<longleftrightarrow> d = 0 \<and> a = b"
proof (induction a b arbitrary: d rule: list_induct2)
  case (Cons x xs y ys)
  have "(of_nat (byte_val x) :: u8) XOR of_nat (byte_val y) = 0 \<longleftrightarrow> x = y"
    by (simp only: xor_zero u8_byte_inject)
  then show ?case using Cons(2) by (simp add: or_eq_0_iff)
qed simp

lemma constant_time_eq_iff [simp]: "constant_time_eq a b \<longleftrightarrow> a = b"
  by (auto simp: constant_time_eq_def diff_zero)

lemma concat_chunks [simp]: "0 < n \<Longrightarrow> concat (chunks_of n xs) = xs"
  by (induction n xs rule: chunks_of.induct) (subst chunks_of.simps, auto)

lemma chunks_bounded: "c \<in> set (chunks_of n xs) \<Longrightarrow> c \<noteq> [] \<and> length c \<le> n"
  by (induction n xs rule: chunks_of.induct) (subst (asm) (2) chunks_of.simps, auto split: if_splits)

lemma chunks_full: "i + 1 < length (chunks_of n xs) \<Longrightarrow> length (chunks_of n xs ! i) = n"
proof (induction n xs arbitrary: i rule: chunks_of.induct)
  case (1 n xs)
  show ?case
  proof (cases "xs = [] \<or> n = 0")
    case True
    then show ?thesis using 1(2) by (subst (asm) chunks_of.simps) auto
  next
    case False
    then have eq: "chunks_of n xs = take n xs # chunks_of n (drop n xs)" by (subst chunks_of.simps) simp
    show ?thesis
    proof (cases i)
      case 0
      then have "chunks_of n (drop n xs) \<noteq> []" using 1(2) by (simp add: eq)
      then have "drop n xs \<noteq> []" by (subst (asm) chunks_of.simps) (auto split: if_splits)
      then show ?thesis by (simp add: eq 0)
    next
      case (Suc j)
      then show ?thesis using 1(1) [OF False, of j] 1(2) by (simp add: eq)
    qed
  qed
qed

end
