(* ===== verification/Irc_Registration.thy ===== *)
theory Irc_Registration
  imports Irc_Scram Irc_Tokens Irc_Event
begin

text \<open>
  Connection set-up of \<open>src/src/irc/mod.rs\<close>: the configuration handed to the
  protocol crate, capability negotiation, the three SASL mechanisms and the
  reader task.  The server is a finite list of what the stream yields; it ends
  when the connection closes.  Sends go to the queue of the protocol crate and
  succeed.  The trace records sends and receipts in order.
\<close>

declare map_of_eq_Some_iff [simp del] show_nat.simps [simp del]

section \<open>Mechanisms\<close>

datatype sasl_mechanism = SaslPlain | SaslExternal | SaslScramSha256

fun show_mechanism :: "sasl_mechanism \<Rightarrow> bytes" where
  "show_mechanism SaslPlain = ''PLAIN''"
| "show_mechanism SaslExternal = ''EXTERNAL''"
| "show_mechanism SaslScramSha256 = ''SCRAM-SHA-256''"

definition server_has :: "bytes list \<Rightarrow> bytes \<Rightarrow> bool" where
  "server_has mechs mech = list_ex (\<lambda>m. eq_ignore_ascii_case m mech) mechs"

definition select_sasl_mechanism :: "bytes list \<Rightarrow> bytes option \<Rightarrow> bool \<Rightarrow> bool \<Rightarrow> sasl_mechanism option" where
  "select_sasl_mechanism mechs forced has_cert has_creds =
     (case forced of
        Some m \<Rightarrow>
          let name = ascii_upper m in
          if name = ''EXTERNAL'' \<and> server_has mechs ''EXTERNAL'' \<and> has_cert then Some SaslExternal
          else if name = ''SCRAM-SHA-256'' \<and> server_has mechs ''SCRAM-SHA-256'' \<and> has_creds then Some SaslScramSha256
          else if name = ''PLAIN'' \<and> server_has mechs ''PLAIN'' \<and> has_creds then Some SaslPlain
          else None
      | None \<Rightarrow>
          if has_cert \<and> server_has mechs ''EXTERNAL'' then Some SaslExternal
          else if has_creds \<and> server_has mechs ''SCRAM-SHA-256'' then Some SaslScramSha256
          else if has_creds \<and> server_has mechs ''PLAIN'' then Some SaslPlain
          else None)"

section \<open>The stream and the trace\<close>

abbreviation "RPL_WELCOME \<equiv> OtherResponse 1"
abbreviation "ERR_UNKNOWNCOMMAND \<equiv> OtherResponse 421"
abbreviation "RPL_SASLSUCCESS \<equiv> OtherResponse 903"
abbreviation "ERR_SASLFAIL \<equiv> OtherResponse 904"
abbreviation "ERR_SASLTOOLONG \<equiv> OtherResponse 905"
abbreviation "ERR_SASLABORT \<equiv> OtherResponse 906"

datatype cap_sub = CapLs | CapAck | CapNak | CapOther

text \<open>\<open>RegOther\<close> carries the line of any other message.\<close>

datatype reg_command =
    RegCap cap_sub "bytes option" "bytes option"
  | RegAuthenticate bytes
  | RegReply response "bytes list"
  | RegOther bytes

text \<open>\<open>StepTimeout\<close>: thirty seconds have passed since the timer of the current wait was set, if it has one.\<close>

datatype stream_item = Incoming reg_command | StreamError bytes | StepTimeout

datatype reg_out =
    OutCapLs302
  | OutPass bytes
  | OutNick bytes
  | OutUser bytes bytes
  | OutCapReq bytes
  | OutAuthenticate bytes
  | OutCapEnd

datatype reg_event = Sent reg_out | Got stream_item

datatype reg_error = Failed bytes | Panicked

record reg =
  rg_in :: "stream_item list"
  rg_trace :: "reg_event list"

type_synonym 'a reg_step = "reg \<Rightarrow> (reg_error + 'a) \<times> reg"

definition send_reg :: "reg_out \<Rightarrow> unit reg_step" where
  "send_reg m = modify_st (\<lambda>r. r\<lparr>rg_trace := rg_trace r @ [Sent m]\<rparr>)"

text \<open>\<open>while let Some(result) = stream.next().await\<close>: the body goes on with a new state or leaves with a value.\<close>

fun read_loop :: "('s \<Rightarrow> stream_item \<Rightarrow> 's + 'a) \<Rightarrow> ('s \<Rightarrow> 'a) \<Rightarrow> 's \<Rightarrow> stream_item list \<Rightarrow> 'a \<times> stream_item list" where
  "read_loop body closed s [] = (closed s, [])"
| "read_loop body closed s (m # ms) = (case body s m of Inl s' \<Rightarrow> read_loop body closed s' ms | Inr a \<Rightarrow> (a, ms))"

definition recv ::
  "('s \<Rightarrow> stream_item \<Rightarrow> 's + (reg_error + 'a)) \<Rightarrow> ('s \<Rightarrow> reg_error + 'a) \<Rightarrow> 's \<Rightarrow> 'a reg_step" where
  "recv body closed s r =
     (let (a, rest) = read_loop body closed s (rg_in r)
      in (a, \<lparr>rg_in = rest, rg_trace = rg_trace r @ map Got (take (length (rg_in r) - length rest) (rg_in r))\<rparr>))"

section \<open>SASL\<close>

definition await_plus_body :: "unit \<Rightarrow> stream_item \<Rightarrow> unit + (reg_error + unit)" where
  "await_plus_body u m =
     (case m of
        StreamError e \<Rightarrow> Inr (Inl (Failed e))
      | StepTimeout \<Rightarrow> Inr (Inl (Failed ''SASL authentication timed out waiting for AUTHENTICATE +''))
      | Incoming (RegAuthenticate p) \<Rightarrow> if p = ''+'' then Inr (Inr ()) else Inl ()
      | Incoming (RegReply resp _) \<Rightarrow>
          if resp = ERR_SASLFAIL then Inr (Inl (Failed ''SASL authentication failed''))
          else if resp = ERR_SASLABORT then Inr (Inl (Failed ''SASL authentication aborted''))
          else if resp = ERR_SASLTOOLONG then Inr (Inl (Failed ''SASL message too long''))
          else Inl ()
      | _ \<Rightarrow> Inl ())"

definition await_authenticate_plus :: "unit reg_step" where
  "await_authenticate_plus =
     recv await_plus_body (\<lambda>_. Inl (Failed ''connection closed waiting for AUTHENTICATE +'')) ()"

text \<open>The loop after the credentials of PLAIN and EXTERNAL; \<open>who\<close> is the prefix of the errors.\<close>

definition sasl_result_body :: "bytes \<Rightarrow> unit \<Rightarrow> stream_item \<Rightarrow> unit + (reg_error + unit)" where
  "sasl_result_body who u m =
     (case m of
        StreamError e \<Rightarrow> Inr (Inl (Failed e))
      | Incoming (RegReply resp _) \<Rightarrow>
          if resp = RPL_SASLSUCCESS then Inr (Inr ())
          else if resp = ERR_SASLFAIL then Inr (Inl (Failed (who @ '' authentication failed'')))
          else if resp = ERR_SASLTOOLONG then Inr (Inl (Failed (who @ '' message too long'')))
          else if resp = ERR_SASLABORT then Inr (Inl (Failed (who @ '' authentication aborted'')))
          else Inl ()
      | _ \<Rightarrow> Inl ())"

definition run_sasl_plain :: "scram_crates \<Rightarrow> bytes \<Rightarrow> bytes \<Rightarrow> unit reg_step" where
  "run_sasl_plain sf user pass =
     bind_st (send_reg (OutAuthenticate ''PLAIN'')) (\<lambda>_.
     bind_st await_authenticate_plus (\<lambda>_.
     bind_st (send_reg (OutAuthenticate (sf_encode sf (user @ [byte_of 0] @ user @ [byte_of 0] @ pass)))) (\<lambda>_.
     recv (sasl_result_body ''SASL'') (\<lambda>_. Inl (Failed ''SASL authentication: connection closed unexpectedly'')) ())))"

definition run_sasl_external :: "unit reg_step" where
  "run_sasl_external =
     bind_st (send_reg (OutAuthenticate ''EXTERNAL'')) (\<lambda>_.
     bind_st await_authenticate_plus (\<lambda>_.
     bind_st (send_reg (OutAuthenticate ''+'')) (\<lambda>_.
     recv (sasl_result_body ''SASL EXTERNAL'') (\<lambda>_. Inl (Failed ''SASL EXTERNAL: connection closed unexpectedly'')) ())))"

fun send_chunks :: "bytes list \<Rightarrow> unit reg_step" where
  "send_chunks [] = ret_st ()"
| "send_chunks (c # cs) = bind_st (send_reg (OutAuthenticate c)) (\<lambda>_. send_chunks cs)"

definition send_payload :: "scram_crates \<Rightarrow> bytes \<Rightarrow> unit reg_step" where
  "send_payload sf msg =
     (case chunk_authenticate (sf_encode sf msg) of None \<Rightarrow> fail_st Panicked | Some cs \<Rightarrow> send_chunks cs)"

text \<open>What a payload of the server says; \<open>which\<close> names it in the errors.\<close>

definition decode_payload :: "scram_crates \<Rightarrow> (bytes \<Rightarrow> bytes) \<Rightarrow> bytes \<Rightarrow> bytes \<Rightarrow> reg_error + bytes" where
  "decode_payload sf utf8_error which p =
     (case sf_decode sf p of
        Inl e \<Rightarrow> Inl (Failed (''SCRAM: invalid base64 in '' @ which @ '': '' @ e))
      | Inr d \<Rightarrow>
          if utf8_valid d then Inr d
          else Inl (Failed (''SCRAM: non-UTF-8 '' @ which @ '': '' @ utf8_error d)))"

definition server_first_body :: "scram_crates \<Rightarrow> (bytes \<Rightarrow> bytes) \<Rightarrow> unit \<Rightarrow> stream_item \<Rightarrow> unit + (reg_error + bytes)" where
  "server_first_body sf utf8_error u m =
     (case m of
        StreamError e \<Rightarrow> Inr (Inl (Failed e))
      | Incoming (RegAuthenticate p) \<Rightarrow>
          if p \<noteq> ''+'' then Inr (decode_payload sf utf8_error ''server-first'' p) else Inl ()
      | Incoming (RegReply resp _) \<Rightarrow>
          if resp = ERR_SASLFAIL then Inr (Inl (Failed ''SASL SCRAM-SHA-256 authentication failed''))
          else if resp = ERR_SASLABORT then Inr (Inl (Failed ''SASL SCRAM-SHA-256 authentication aborted''))
          else Inl ()
      | _ \<Rightarrow> Inl ())"

text \<open>The state is \<open>server_verified\<close>.\<close>

definition server_final_body ::
  "scram_crates \<Rightarrow> (bytes \<Rightarrow> bytes) \<Rightarrow> bytes \<Rightarrow> bool \<Rightarrow> stream_item \<Rightarrow> bool + (reg_error + unit)" where
  "server_final_body sf utf8_error expected verified m =
     (case m of
        StreamError e \<Rightarrow> Inr (Inl (Failed e))
      | Incoming (RegAuthenticate p) \<Rightarrow>
          if \<not> verified \<and> p \<noteq> ''+'' then
            (case decode_payload sf utf8_error ''server-final'' p of
               Inl e \<Rightarrow> Inr (Inl e)
             | Inr msg \<Rightarrow>
                 if verify_server sf msg expected then Inl True
                 else Inr (Inl (Failed (''SCRAM: server signature verification failed '' @ em_dash @ '' possible MITM''))))
          else Inl verified
      | Incoming (RegReply resp _) \<Rightarrow>
          if resp = RPL_SASLSUCCESS then Inr (Inr ())
          else if resp = ERR_SASLFAIL then Inr (Inl (Failed ''SASL SCRAM-SHA-256 authentication failed''))
          else if resp = ERR_SASLTOOLONG then Inr (Inl (Failed ''SASL SCRAM-SHA-256 message too long''))
          else if resp = ERR_SASLABORT then Inr (Inl (Failed ''SASL SCRAM-SHA-256 authentication aborted''))
          else Inl verified
      | _ \<Rightarrow> Inl verified)"

record reg_env =
  re_crates :: scram_crates
  re_utf8_error :: "bytes \<Rightarrow> bytes"
  re_nonce :: bytes
  re_upper :: "bytes \<Rightarrow> bytes"

definition run_sasl_scram :: "reg_env \<Rightarrow> bytes \<Rightarrow> bytes \<Rightarrow> unit reg_step" where
  "run_sasl_scram ev user pass =
     (let sf = re_crates ev; (bare, full, client_nonce) = client_first sf (re_nonce ev) user
      in bind_st (send_reg (OutAuthenticate ''SCRAM-SHA-256'')) (\<lambda>_.
         bind_st await_authenticate_plus (\<lambda>_.
         bind_st (send_payload sf full) (\<lambda>_.
         bind_st (recv (server_first_body sf (re_utf8_error ev))
             (\<lambda>_. Inl (Failed ''SASL SCRAM-SHA-256: connection closed waiting for server-first'')) ()) (\<lambda>server_first.
         bind_st (lift_st (\<lambda>_. map_err Failed (client_final sf server_first bare client_nonce pass))) (\<lambda>(final, expected).
         bind_st (send_payload sf final) (\<lambda>_.
         recv (server_final_body sf (re_utf8_error ev) expected)
           (\<lambda>_. Inl (Failed ''SASL SCRAM-SHA-256: connection closed unexpectedly'')) False)))))))"

section \<open>Capability negotiation\<close>

record reg_params =
  rp_nick :: bytes
  rp_username :: bytes
  rp_realname :: bytes
  rp_password :: "bytes option"
  rp_sasl_user :: "bytes option"
  rp_sasl_pass :: "bytes option"
  rp_mechanism :: "bytes option"
  rp_has_cert :: bool

record negotiate_result =
  ng_enabled :: "bytes list"
  ng_diagnostics :: "bytes list"
  ng_early :: "reg_command list"

text \<open>The loop that finds out whether the server knows capabilities.\<close>

record ls_state =
  ls_caps :: server_caps
  ls_diag :: "bytes list"
  ls_early :: "reg_command list"
  ls_supported :: bool

definition cap_ls_body :: "ls_state \<Rightarrow> stream_item \<Rightarrow> ls_state + (reg_error + ls_state)" where
  "cap_ls_body s m =
     (case m of
        StreamError e \<Rightarrow> Inr (Inl (Failed e))
      | StepTimeout \<Rightarrow> Inl s
      | Incoming msg \<Rightarrow>
          (case msg of
             RegReply resp args \<Rightarrow>
               if resp = ERR_UNKNOWNCOMMAND \<and> list_ex (\<lambda>a. eq_ignore_ascii_case a ''CAP'') args then
                 Inr (Inr (s\<lparr>ls_diag := ls_diag s @ [''CAP: server does not support IRCv3 capabilities'']\<rparr>))
               else if resp = RPL_WELCOME then
                 Inr (Inr (s\<lparr>ls_diag := ls_diag s @ [''CAP: server does not support IRCv3 (registered without CAP)''],
                            ls_early := ls_early s @ [msg]\<rparr>))
               else Inl (s\<lparr>ls_early := ls_early s @ [msg]\<rparr>)
           | RegCap CapLs f3 f4 \<Rightarrow>
               let more = (f3 = Some ''*'');
                   s1 = s\<lparr>ls_caps := caps_merge (unwrap_or [] (if more then f4 else f3)) (ls_caps s)\<rparr>
               in if more then Inl (s1\<lparr>ls_early := ls_early s1 @ [msg]\<rparr>)
                  else Inr (Inr (s1\<lparr>ls_supported := True\<rparr>))
           | _ \<Rightarrow> Inl (s\<lparr>ls_early := ls_early s @ [msg]\<rparr>)))"

definition cap_ls :: "ls_state reg_step" where
  "cap_ls = recv cap_ls_body Inr \<lparr>ls_caps = [], ls_diag = [], ls_early = [], ls_supported = False\<rparr>"

text \<open>The answer to the request: the capabilities enabled, and the line about it.\<close>

definition cap_ack_body :: "unit \<Rightarrow> stream_item \<Rightarrow> unit + (reg_error + bytes list \<times> bytes list)" where
  "cap_ack_body u m =
     (case m of
        StreamError e \<Rightarrow> Inr (Inl (Failed e))
      | Incoming (RegCap CapAck acked _) \<Rightarrow>
          let caps = (case acked of None \<Rightarrow> [] | Some a \<Rightarrow> fold (\<lambda>c. insert_once (ascii_lower c)) (split_whitespace a) [])
          in Inr (Inr (caps, [''CAP ACK: '' @ join_str '' '' caps]))
      | Incoming (RegCap CapNak naked _) \<Rightarrow> Inr (Inr ([], [''CAP NAK: '' @ unwrap_or ''(unknown)'' naked]))
      | _ \<Rightarrow> Inl ())"

definition wanted_caps :: "server_caps \<Rightarrow> bool \<Rightarrow> bytes list" where
  "wanted_caps caps want_sasl =
     (let req = negotiate caps desired_caps; req = (if want_sasl then req else filter (\<lambda>c. c \<noteq> ''sasl'') req)
      in if ''sasl'' \<in> set req then remove1 ''sasl'' req @ [''sasl''] else req)"

definition request_caps :: "bytes list \<Rightarrow> (bytes list \<times> bytes list) reg_step" where
  "request_caps req =
     (if req = [] then ret_st ([], [''CAP: no capabilities to request''])
      else
        let line = join_str '' '' req
        in bind_st (send_reg (OutCapReq line)) (\<lambda>_.
           bind_st (recv cap_ack_body (\<lambda>_. Inr ([], [])) ()) (\<lambda>(caps, diag).
           ret_st (caps, (''CAP REQ: '' @ line) # diag))))"

definition debug_mechanism :: "sasl_mechanism option \<Rightarrow> bytes" where
  "debug_mechanism m =
     (case m of None \<Rightarrow> ''None'' | Some SaslPlain \<Rightarrow> ''Some(Plain)'' | Some SaslExternal \<Rightarrow> ''Some(External)''
      | Some SaslScramSha256 \<Rightarrow> ''Some(ScramSha256)'')"

definition show_bool :: "bool \<Rightarrow> bytes" where "show_bool b = (if b then ''true'' else ''false'')"

text \<open>The mechanism is run; what fails inside becomes a line, a panic goes on.\<close>

definition run_mechanism :: "reg_env \<Rightarrow> reg_params \<Rightarrow> sasl_mechanism \<Rightarrow> bytes list \<times> unit reg_step" where
  "run_mechanism ev p m =
     (case m of
        SaslExternal \<Rightarrow> ([''SASL: authenticating via EXTERNAL''], run_sasl_external)
      | SaslScramSha256 \<Rightarrow>
          (case (rp_sasl_user p, rp_sasl_pass p) of
             (Some user, Some pass) \<Rightarrow> ([''SASL: authenticating via SCRAM-SHA-256 as '' @ user], run_sasl_scram ev user pass)
           | _ \<Rightarrow> ([], fail_st (Failed ''SASL SCRAM-SHA-256 selected but credentials missing'')))
      | SaslPlain \<Rightarrow>
          (case (rp_sasl_user p, rp_sasl_pass p) of
             (Some user, Some pass) \<Rightarrow> ([''SASL: authenticating via PLAIN as '' @ user], run_sasl_plain (re_crates ev) user pass)
           | _ \<Rightarrow> ([], fail_st (Failed ''SASL PLAIN selected but credentials missing''))))"

definition authenticate :: "reg_env \<Rightarrow> reg_params \<Rightarrow> sasl_mechanism \<Rightarrow> bytes list \<Rightarrow> (bytes list \<times> bytes list) reg_step" where
  "authenticate ev p m enabled r =
     (let (diag, run) = run_mechanism ev p m; (res, r1) = run r
      in case res of
           Inr _ \<Rightarrow> (Inr (enabled, diag @ [''SASL: '' @ show_mechanism m @ '' authentication successful'']), r1)
         | Inl (Failed e) \<Rightarrow>
             (Inr (filter (\<lambda>c. c \<noteq> ''sasl'') enabled, diag @ [''SASL: '' @ show_mechanism m @ '' authentication FAILED: '' @ e]), r1)
         | Inl Panicked \<Rightarrow> (Inl Panicked, r1))"

definition has_credentials :: "reg_params \<Rightarrow> bool" where
  "has_credentials p \<longleftrightarrow> rp_sasl_user p \<noteq> None \<and> rp_sasl_pass p \<noteq> None"

definition negotiate_known :: "reg_env \<Rightarrow> reg_params \<Rightarrow> ls_state \<Rightarrow> negotiate_result reg_step" where
  "negotiate_known ev p s =
     (let caps = ls_caps s;
          mech = select_sasl_mechanism (sasl_mechanisms (re_upper ev) caps) (rp_mechanism p) (rp_has_cert p) (has_credentials p);
          line = ''CAP: server advertises sasl='' @ show_bool (caps_has caps ''sasl'') @ '', has_credentials='' @
                 show_bool (has_credentials p) @ '', mechanism='' @ debug_mechanism mech;
          req = wanted_caps caps (mech \<noteq> None); requested = (''sasl'' \<in> set req)
      in bind_st (request_caps req) (\<lambda>(enabled, d1).
         bind_st
           (if requested \<and> ''sasl'' \<in> set enabled then
              (case mech of None \<Rightarrow> ret_st (enabled, []) | Some m \<Rightarrow> authenticate ev p m enabled)
            else ret_st (enabled,
              if requested then [''SASL: requested but server did not ACK'']
              else if has_credentials p then [''SASL: credentials available but server does not advertise sasl'']
              else [])) (\<lambda>(enabled, d2).
         bind_st (send_reg OutCapEnd) (\<lambda>_.
         ret_st \<lparr>ng_enabled = enabled, ng_diagnostics = ls_diag s @ [line] @ d1 @ d2, ng_early = ls_early s\<rparr>))))"

definition negotiate_caps :: "reg_env \<Rightarrow> reg_params \<Rightarrow> negotiate_result reg_step" where
  "negotiate_caps ev p =
     bind_st (send_reg OutCapLs302) (\<lambda>_.
     bind_st (case rp_password p of None \<Rightarrow> ret_st () | Some pass \<Rightarrow> send_reg (OutPass pass)) (\<lambda>_.
     bind_st (send_reg (OutNick (rp_nick p))) (\<lambda>_.
     bind_st (send_reg (OutUser (rp_username p) (rp_realname p))) (\<lambda>_.
     bind_st cap_ls (\<lambda>s.
     if ls_supported s then negotiate_known ev p s
     else ret_st \<lparr>ng_enabled = [], ng_diagnostics = ls_diag s, ng_early = ls_early s\<rparr>)))))"

section \<open>The connection\<close>

record server_config =
  sv_address :: bytes
  sv_port :: u16
  sv_tls :: bool
  sv_tls_verify :: bool
  sv_channels :: "bytes list"
  sv_nick :: "bytes option"
  sv_username :: "bytes option"
  sv_realname :: "bytes option"
  sv_password :: "bytes option"
  sv_sasl_user :: "bytes option"
  sv_sasl_pass :: "bytes option"
  sv_bind_ip :: "bytes option"
  sv_encoding :: "bytes option"
  sv_sasl_mechanism :: "bytes option"
  sv_client_cert_path :: "bytes option"

record general_config =
  gc_nick :: bytes
  gc_username :: bytes
  gc_realname :: bytes
  gc_flood_protection :: bool
  gc_ctcp_version :: bytes
  gc_default_bind_ip :: "bytes option"

definition resolve_bind_ip :: "server_config \<Rightarrow> bytes option \<Rightarrow> general_config \<Rightarrow> bytes option" where
  "resolve_bind_ip sv cli gc =
     (case sv_bind_ip sv of Some ip \<Rightarrow> Some ip | None \<Rightarrow> (case cli of Some ip \<Rightarrow> Some ip | None \<Rightarrow> gc_default_bind_ip gc))"

record crate_config =
  cc_nickname :: bytes
  cc_alt_nicks :: "bytes list"
  cc_username :: bytes
  cc_realname :: bytes
  cc_server :: bytes
  cc_port :: u16
  cc_use_tls :: bool
  cc_accept_invalid_certs :: bool
  cc_password :: "bytes option"
  cc_channels :: "bytes list"
  cc_channel_keys :: "(bytes, bytes) table"
  cc_encoding :: "bytes option"
  cc_version :: bytes
  cc_client_cert_path :: "bytes option"
  cc_bind_address :: "bytes option"
  cc_ping_timeout :: nat
  cc_flood_penalty_threshold :: nat

definition channel_name :: "bytes \<Rightarrow> bytes" where
  "channel_name e = (case split_once (CHR 0x20) e of None \<Rightarrow> e | Some (c, _) \<Rightarrow> c)"

text \<open>\<open>collect\<close> into a \<open>HashMap\<close>: the last key of a channel wins.\<close>

definition channel_keys :: "bytes list \<Rightarrow> (bytes, bytes) table" where
  "channel_keys es =
     fold (\<lambda>e t. case split_once (CHR 0x20) e of None \<Rightarrow> t | Some (c, k) \<Rightarrow> AList.update c k t) es []"

definition crate_config_of :: "server_config \<Rightarrow> general_config \<Rightarrow> crate_config" where
  "crate_config_of sv gc =
     (let nick = unwrap_or (gc_nick gc) (sv_nick sv)
      in \<lparr>cc_nickname = nick, cc_alt_nicks = map (\<lambda>i. nick @ replicate i (CHR ''_'')) [1..<5],
          cc_username = unwrap_or (gc_username gc) (sv_username sv), cc_realname = unwrap_or (gc_realname gc) (sv_realname sv),
          cc_server = sv_address sv, cc_port = sv_port sv, cc_use_tls = sv_tls sv,
          cc_accept_invalid_certs = (\<not> sv_tls_verify sv), cc_password = sv_password sv,
          cc_channels = map channel_name (sv_channels sv), cc_channel_keys = channel_keys (sv_channels sv),
          cc_encoding = sv_encoding sv, cc_version = gc_ctcp_version gc, cc_client_cert_path = sv_client_cert_path sv,
          cc_bind_address = sv_bind_ip sv, cc_ping_timeout = 60,
          cc_flood_penalty_threshold = (if gc_flood_protection gc then 10000 else 0)\<rparr>)"

definition params_of :: "server_config \<Rightarrow> general_config \<Rightarrow> reg_params" where
  "params_of sv gc =
     \<lparr>rp_nick = unwrap_or (gc_nick gc) (sv_nick sv), rp_username = unwrap_or (gc_username gc) (sv_username sv),
      rp_realname = unwrap_or (gc_realname gc) (sv_realname sv), rp_password = sv_password sv,
      rp_sasl_user = sv_sasl_user sv, rp_sasl_pass = sv_sasl_pass sv, rp_mechanism = sv_sasl_mechanism sv,
      rp_has_cert = (sv_client_cert_path sv \<noteq> None)\<rparr>"

datatype irc_event =
    EvNegotiationInfo "bytes list"
  | EvConnected "bytes list"
  | EvMessage reg_command
  | EvDisconnected "bytes option"

definition is_welcome :: "reg_command \<Rightarrow> bool" where
  "is_welcome m = (case m of RegReply resp _ \<Rightarrow> resp = RPL_WELCOME | _ \<Rightarrow> False)"

text \<open>The reader task; the flag is \<open>sent_connected\<close>, and the receiver is not dropped.\<close>

definition reader_message :: "bytes list \<Rightarrow> bool \<Rightarrow> reg_command \<Rightarrow> bool \<times> irc_event list" where
  "reader_message caps connected m =
     (if \<not> connected \<and> is_welcome m then (True, [EvConnected caps, EvMessage m]) else (connected, [EvMessage m]))"

fun replay_early :: "bytes list \<Rightarrow> bool \<Rightarrow> reg_command list \<Rightarrow> bool \<times> irc_event list" where
  "replay_early caps connected [] = (connected, [])"
| "replay_early caps connected (m # ms) =
     (let (c1, evs) = reader_message caps connected m; (c2, rest) = replay_early caps c1 ms in (c2, evs @ rest))"

fun reader_loop :: "bytes list \<Rightarrow> bool \<Rightarrow> stream_item list \<Rightarrow> irc_event list" where
  "reader_loop caps connected [] = [EvDisconnected None]"
| "reader_loop caps connected (StreamError e # _) = [EvDisconnected (Some e)]"
| "reader_loop caps connected (StepTimeout # ms) = reader_loop caps connected ms"
| "reader_loop caps connected (Incoming m # ms) =
     (let (c1, evs) = reader_message caps connected m in evs @ reader_loop caps c1 ms)"

definition reader_events :: "negotiate_result \<Rightarrow> stream_item list \<Rightarrow> irc_event list" where
  "reader_events neg rest =
     (let (connected, early) = replay_early (ng_enabled neg) False (ng_early neg)
      in EvNegotiationInfo (ng_diagnostics neg) # early @ reader_loop (ng_enabled neg) connected rest)"

text \<open>\<open>connect_server\<close> after the TCP connection: an error, or the events of the reader task.\<close>

definition connect_server ::
  "reg_env \<Rightarrow> server_config \<Rightarrow> general_config \<Rightarrow> stream_item list \<Rightarrow> (reg_error + irc_event list) \<times> reg_event list" where
  "connect_server ev sv gc items =
     (case negotiate_caps ev (params_of sv gc) \<lparr>rg_in = items, rg_trace = []\<rparr> of
        (Inl e, r) \<Rightarrow> (Inl e, rg_trace r)
      | (Inr neg, r) \<Rightarrow> (Inr (reader_events neg (rg_in r)), rg_trace r))"

end
