(* ===== verification/Irc_Auth.thy ===== *)
theory Irc_Auth
  imports Irc_Registration
begin

text \<open>
  Properties of connection set-up: the SCRAM exchange with an honest server and
  with one that does not know the password, what is sent in which order, when
  credentials may leave, and what the reader task tells the client.
\<close>

declare map_of_eq_Some_iff [simp del] show_nat.simps [simp del]

section \<open>SCRAM\<close>

definition server_first_of :: "scram_crates \<Rightarrow> bytes \<Rightarrow> bytes \<Rightarrow> bytes \<Rightarrow> nat \<Rightarrow> bytes" where
  "server_first_of sf client_nonce server_nonce salt n =
     ''r='' @ client_nonce @ server_nonce @ '',s='' @ sf_encode sf salt @ '',i='' @ show_nat n"

lemma parse_server_first_of:
  assumes "scram_laws sf" "CHR '','' \<notin> set cn" "CHR '','' \<notin> set sn"
  shows "parse_server_first (server_first_of sf cn sn salt n) =
    \<lparr>fld_nonce = Some (cn @ sn), fld_salt = Some (sf_encode sf salt), fld_iterations = Some (show_nat n)\<rparr>"
proof -
  have no: "CHR '','' \<notin> set (''r='' @ cn @ sn)" "CHR '','' \<notin> set (''s='' @ sf_encode sf salt)" "CHR '','' \<notin> set (''i='' @ show_nat n)"
    using assms show_nat_no_char [of "CHR '',''" n] by (auto simp: scram_laws_def in_range_def list_all_iff)
  have "server_first_of sf cn sn salt n =
      (''r='' @ cn @ sn) @ CHR '','' # (''s='' @ sf_encode sf salt) @ CHR '','' # (''i='' @ show_nat n)"
    by (simp add: server_first_of_def)
  then have "split_on (CHR '','') (server_first_of sf cn sn salt n) = [''r='' @ cn @ sn, ''s='' @ sf_encode sf salt, ''i='' @ show_nat n]"
    by (simp only: split_append [OF no(1)] split_append [OF no(2)] split_plain [OF no(3)])
  then show ?thesis by (simp add: parse_server_first_def take_field_def)
qed

lemma client_final_accepts:
  assumes "scram_laws sf" "CHR '','' \<notin> set cn" "CHR '','' \<notin> set sn" "0 < n" "n \<le> 100000"
  shows "client_final sf (server_first_of sf cn sn salt n) bare cn pw =
    Inr (final_messages sf (server_first_of sf cn sn salt n) bare (cn @ sn) pw salt n)"
proof -
  have n: "unat (of_nat n :: u32) = n" using assms(5) by (simp add: unat_of_nat take_bit_eq_mod)
  have "parse_u32 (show_nat n) = Inr (of_nat n)" using assms(5) by (simp add: parse_u32_def parse_unsigned_show)
  moreover have "(of_nat n :: u32) \<noteq> 0" using n assms(4) by (metis less_irrefl unat_0)
  ultimately show ?thesis using assms n
    by (simp add: client_final_def parse_server_first_of ok_or_def guard_res_def map_err_def scram_laws_def starts_with_def max_iterations_def)
qed

lemma verify_server_iff:
  "verify_server sf msg expected \<longleftrightarrow> (\<exists>s. msg = ''v='' @ s \<and> sf_decode sf s = Inr expected)"
  by (auto simp: verify_server_def strip_prefix_Some split: option.split sum.split)

text \<open>Crates for the examples: letters for base64, and constant hashes.\<close>

definition toy_crates :: scram_crates where
  "toy_crates = \<lparr>sf_encode = toy_encode, sf_decode = toy_decode, sf_hmac = (\<lambda>_ _. replicate 32 (CHR 0x01)),
     sf_sha256 = (\<lambda>_. replicate 32 (CHR 0x02)), sf_pbkdf2 = (\<lambda>_ _ _. [])\<rparr>"

lemma toy_no_comma: "CHR '','' \<notin> set (toy_encode b)"
proof (induction b)
  case (Cons c b)
  have "byte_val c div 16 < 16" by (simp add: less_mult_imp_div_less)
  then have "byte_of (97 + byte_val c div 16) \<noteq> byte_of 44" "byte_of (97 + byte_val c mod 16) \<noteq> byte_of 44"
    by (simp_all add: byte_of_inject)
  moreover have "byte_of 44 = CHR '',''" by code_simp
  ultimately show ?case using Cons by auto
qed simp

lemma toy_laws: "scram_laws toy_crates"
proof -
  have "list_all (\<lambda>c. plain_char c \<and> c \<noteq> CHR '','') (toy_encode x)" for x
    using toy_encode_plain [of x] toy_no_comma [of x] by (auto simp: list_all_iff)
  moreover have "toy_encode x \<noteq> ''+''" for x using toy_encode_length [of x] by auto
  ultimately show ?thesis by (simp add: scram_laws_def toy_crates_def toy_decode_encode)
qed

section \<open>Receiving\<close>

lemma read_loop_cases:
  obtains c where "items = c @ snd (read_loop body closed s items)"
    "snd (read_loop body closed s items) = [] \<and> (\<exists>s'. fst (read_loop body closed s items) = closed s') \<or>
     (\<exists>c0 m s'. c = c0 @ [m] \<and> body s' m = Inr (fst (read_loop body closed s items)))"
proof -
  have "\<exists>c. items = c @ snd (read_loop body closed s items) \<and>
    (snd (read_loop body closed s items) = [] \<and> (\<exists>s'. fst (read_loop body closed s items) = closed s') \<or>
     (\<exists>c0 m s'. c = c0 @ [m] \<and> body s' m = Inr (fst (read_loop body closed s items))))"
  proof (induction items arbitrary: s)
    case (Cons m items)
    show ?case
    proof (cases "body s m")
      case (Inl s')
      obtain c where "items = c @ snd (read_loop body closed s' items)"
        "snd (read_loop body closed s' items) = [] \<and> (\<exists>s''. fst (read_loop body closed s' items) = closed s'') \<or>
         (\<exists>c0 n s''. c = c0 @ [n] \<and> body s'' n = Inr (fst (read_loop body closed s' items)))"
        using Cons [of s'] by blast
      then show ?thesis using Inl by (intro exI [of _ "m # c"]) (simp, metis append_Cons)
    next
      case (Inr a)
      then show ?thesis by (intro exI [of _ "[m]"]) auto
    qed
  qed auto
  then show thesis using that by blast
qed

text \<open>A step only adds to the trace; what a receipt adds ends with the item that decided it.\<close>

lemma recv_cases:
  obtains c where "rg_in r = c @ rg_in (snd (recv body closed s r))"
    "rg_trace (snd (recv body closed s r)) = rg_trace r @ map Got c"
    "rg_in (snd (recv body closed s r)) = [] \<and> (\<exists>s'. fst (recv body closed s r) = closed s') \<or>
     (\<exists>m s'. m \<in> set c \<and> body s' m = Inr (fst (recv body closed s r)))"
proof -
  obtain c where c: "rg_in r = c @ snd (read_loop body closed s (rg_in r))"
    "snd (read_loop body closed s (rg_in r)) = [] \<and> (\<exists>s'. fst (read_loop body closed s (rg_in r)) = closed s') \<or>
     (\<exists>c0 m s'. c = c0 @ [m] \<and> body s' m = Inr (fst (read_loop body closed s (rg_in r))))"
    by (rule read_loop_cases)
  moreover have "take (length (rg_in r) - length (snd (read_loop body closed s (rg_in r)))) (rg_in r) = c"
    using c(1) by (metis append_eq_conv_conj diff_add_inverse2 length_append)
  moreover from c(2) have "snd (read_loop body closed s (rg_in r)) = [] \<and> (\<exists>s'. fst (read_loop body closed s (rg_in r)) = closed s') \<or>
     (\<exists>m s'. m \<in> set c \<and> body s' m = Inr (fst (read_loop body closed s (rg_in r))))" by fastforce
  ultimately show thesis by (intro that [of c]) (simp_all add: recv_def case_prod_beta)
qed

definition sends :: "reg_event list \<Rightarrow> reg_out list" where
  "sends t = concat (map (\<lambda>e. case e of Sent m \<Rightarrow> [m] | Got _ \<Rightarrow> []) t)"

lemma sends_simps [simp]: "sends [] = []" "sends (t @ u) = sends t @ sends u" "sends (Sent m # t) = m # sends t" "sends (Got i # t) = sends t"
  by (simp_all add: sends_def)

lemma sends_received [simp]: "sends (map Got c) = []"
  by (induction c) simp_all

text \<open>What a step adds to the trace satisfies \<open>P\<close>.\<close>

definition adds :: "(reg_event list \<Rightarrow> bool) \<Rightarrow> 'a reg_step \<Rightarrow> bool" where
  "adds P m \<longleftrightarrow> (\<forall>r. \<exists>t. rg_trace (snd (m r)) = rg_trace r @ t \<and> P t)"

definition only_auth :: "reg_event list \<Rightarrow> bool" where
  "only_auth t \<longleftrightarrow> (\<forall>m\<in>set (sends t). \<exists>x. m = OutAuthenticate x)"

lemma only_auth_simps [simp]: "only_auth []" "only_auth (t @ u) \<longleftrightarrow> only_auth t \<and> only_auth u" "only_auth (map Got c)"
  "only_auth [Sent (OutAuthenticate x)]"
  by (auto simp: only_auth_def)

named_theorems auth_steps "steps that send AUTHENTICATE only"

lemma auth_bind [auth_steps]:
  assumes "adds only_auth m" "\<And>x. adds only_auth (f x)"
  shows "adds only_auth (bind_st m f)"
  unfolding adds_def
proof
  fix r
  obtain t where t: "rg_trace (snd (m r)) = rg_trace r @ t" "only_auth t" using assms(1) by (auto simp: adds_def)
  show "\<exists>t. rg_trace (snd (bind_st m f r)) = rg_trace r @ t \<and> only_auth t"
  proof (cases "fst (m r)")
    case (Inl e)
    then show ?thesis using t by (auto simp: bind_st_def split: prod.splits)
  next
    case (Inr x)
    obtain u where u: "rg_trace (snd (f x (snd (m r)))) = rg_trace (snd (m r)) @ u" "only_auth u"
      using assms(2) [of x] by (auto simp: adds_def)
    then show ?thesis using t Inr by (auto simp: bind_st_def split: prod.splits intro!: exI [of _ "t @ u"])
  qed
qed

lemma auth_basic [auth_steps]:
  "adds only_auth (send_reg (OutAuthenticate x))" "adds only_auth (recv body closed s)" "adds only_auth (ret_st a)"
  "adds only_auth (fail_st e)" "adds only_auth (lift_st g)"
proof -
  show "adds only_auth (recv body closed s)"
    unfolding adds_def by (metis recv_cases only_auth_simps(3))
qed (auto simp: adds_def send_reg_def modify_st_def ret_st_def fail_st_def lift_st_def)

lemma auth_chunks [auth_steps]: "adds only_auth (send_chunks cs)"
  by (induction cs) (simp_all add: auth_steps)

lemma auth_payload [auth_steps]: "adds only_auth (send_payload sf msg)"
  by (simp add: send_payload_def auth_steps split: option.split)

lemma auth_runs [auth_steps]:
  "adds only_auth (run_sasl_plain sf user pass)" "adds only_auth run_sasl_external" "adds only_auth (run_sasl_scram ev user pass)"
  by (simp_all add: run_sasl_plain_def run_sasl_external_def run_sasl_scram_def await_authenticate_plus_def Let_def
      case_prod_beta auth_steps)

lemma auth_mechanism [auth_steps]: "adds only_auth (authenticate ev p m enabled)"
proof -
  have "adds only_auth (snd (run_mechanism ev p m))"
    by (simp add: run_mechanism_def auth_steps split: sasl_mechanism.split option.split)
  then show ?thesis
    by (auto simp: adds_def authenticate_def case_prod_beta split: sum.split reg_error.split)
qed

section \<open>What registration sends\<close>

definition preamble :: "reg_params \<Rightarrow> reg_out list" where
  "preamble p = [OutCapLs302] @ (case rp_password p of None \<Rightarrow> [] | Some pass \<Rightarrow> [OutPass pass]) @
     [OutNick (rp_nick p), OutUser (rp_username p) (rp_realname p)]"

lemma only_auth_sends: "only_auth t \<Longrightarrow> \<exists>xs. sends t = map OutAuthenticate xs"
  unfolding only_auth_def by (metis ex_map_conv)

definition sasl_acked :: "reg_event list \<Rightarrow> bool" where
  "sasl_acked t \<longleftrightarrow> (\<exists>acked f. Got (Incoming (RegCap CapAck (Some acked) f)) \<in> set t \<and>
     ''sasl'' \<in> ascii_lower ` set (split_whitespace acked))"

lemma fold_insert_lower: "set (fold (\<lambda>c. insert_once (ascii_lower c)) cs acc) = set acc \<union> ascii_lower ` set cs"
  by (induction cs arbitrary: acc) (auto simp: insert_once_def)

text \<open>The answer to the request can turn SASL on only if the server acknowledged it.\<close>

lemma request_caps_trace:
  obtains t reqs where "rg_trace (snd (request_caps req r)) = rg_trace r @ t" "sends t = map OutCapReq reqs" "length reqs \<le> 1"
    "\<And>enabled d. fst (request_caps req r) = Inr (enabled, d) \<Longrightarrow> ''sasl'' \<in> set enabled \<Longrightarrow> sasl_acked t"
proof (cases "req = []")
  case True
  then show thesis using that [of "[]" "[]"] by (simp add: request_caps_def ret_st_def)
next
  case False
  let ?line = "join_str '' '' req"
  let ?r1 = "r\<lparr>rg_trace := rg_trace r @ [Sent (OutCapReq ?line)]\<rparr>"
  let ?res = "recv cap_ack_body (\<lambda>_. Inr ([], [])) () ?r1"
  obtain c where c: "rg_trace (snd ?res) = rg_trace ?r1 @ map Got c"
    "(\<exists>s'. fst ?res = Inr ([], [])) \<or> (\<exists>m s'. m \<in> set c \<and> cap_ack_body s' m = Inr (fst ?res))"
    by (rule recv_cases [of ?r1 cap_ack_body "\<lambda>_. Inr ([], [])" "()"]) (erule meta_allE, blast)
  have run: "request_caps req r =
      (case ?res of (Inl e, s) \<Rightarrow> (Inl e, s) | (Inr x, s) \<Rightarrow> (Inr (fst x, (''CAP REQ: '' @ ?line) # snd x), s))"
    using False by (simp add: request_caps_def Let_def bind_st_def send_reg_def modify_st_def ret_st_def case_prod_beta split: prod.split sum.split)
  show thesis
  proof (rule that [of "Sent (OutCapReq ?line) # map Got c" "[?line]"])
    show "rg_trace (snd (request_caps req r)) = rg_trace r @ Sent (OutCapReq ?line) # map Got c"
      using c(1) run by (simp split: prod.splits sum.splits)
    fix enabled d
    assume "fst (request_caps req r) = Inr (enabled, d)" "''sasl'' \<in> set enabled"
    then obtain d0 where "fst ?res = Inr (enabled, d0)" using run by (auto split: prod.splits sum.splits)
    with c(2) \<open>''sasl'' \<in> set enabled\<close> obtain m s' where m: "m \<in> set c" "cap_ack_body s' m = Inr (Inr (enabled, d0))" by auto
    then obtain acked f where "m = Incoming (RegCap CapAck (Some acked) f)" "enabled = fold (\<lambda>c. insert_once (ascii_lower c)) (split_whitespace acked) []"
      using \<open>''sasl'' \<in> set enabled\<close> by (auto simp: cap_ack_body_def Let_def split: stream_item.splits reg_command.splits cap_sub.splits option.splits)
    then show "sasl_acked (Sent (OutCapReq ?line) # map Got c)"
      using m(1) \<open>''sasl'' \<in> set enabled\<close> by (auto simp: sasl_acked_def fold_insert_lower)
  qed simp_all
qed

text \<open>After the list of capabilities: at most one request, then SASL if it was acknowledged, then the end.\<close>

definition after_ls :: "reg_event list \<Rightarrow> bool \<Rightarrow> bool" where
  "after_ls t finished \<longleftrightarrow>
     (\<exists>t1 t2 reqs. t = t1 @ t2 @ (if finished then [Sent OutCapEnd] else []) \<and> sends t1 = map OutCapReq reqs \<and> length reqs \<le> 1 \<and>
       only_auth t2 \<and> (sends t2 \<noteq> [] \<longrightarrow> sasl_acked t1))"

lemma after_lsI:
  "t = t1 @ t2 @ (if finished then [Sent OutCapEnd] else []) \<Longrightarrow> sends t1 = map OutCapReq reqs \<Longrightarrow> length reqs \<le> 1 \<Longrightarrow>
   only_auth t2 \<Longrightarrow> (sends t2 \<noteq> [] \<Longrightarrow> sasl_acked t1) \<Longrightarrow> after_ls t finished"
  unfolding after_ls_def by blast

lemma negotiate_known_trace:
  "\<exists>t. rg_trace (snd (negotiate_known ev p s r)) = rg_trace r @ t \<and> after_ls t (\<exists>neg. fst (negotiate_known ev p s r) = Inr neg)"
proof -
  define mech where "mech = select_sasl_mechanism (sasl_mechanisms (re_upper ev) (ls_caps s)) (rp_mechanism p) (rp_has_cert p) (has_credentials p)"
  define req where "req = wanted_caps (ls_caps s) (mech \<noteq> None)"
  define second :: "bytes list \<Rightarrow> (bytes list \<times> bytes list) reg_step" where
    "second enabled = (if ''sasl'' \<in> set req \<and> ''sasl'' \<in> set enabled then
       (case mech of None \<Rightarrow> ret_st (enabled, []) | Some m \<Rightarrow> authenticate ev p m enabled)
     else ret_st (enabled, if ''sasl'' \<in> set req then [''SASL: requested but server did not ACK'']
       else if has_credentials p then [''SASL: credentials available but server does not advertise sasl''] else []))" for enabled
  obtain line where run: "negotiate_known ev p s =
    bind_st (request_caps req) (\<lambda>(enabled, d1). bind_st (second enabled) (\<lambda>(enabled, d2). bind_st (send_reg OutCapEnd) (\<lambda>_.
      ret_st \<lparr>ng_enabled = enabled, ng_diagnostics = ls_diag s @ [line] @ d1 @ d2, ng_early = ls_early s\<rparr>)))"
    unfolding negotiate_known_def Let_def mech_def [symmetric] req_def [symmetric] second_def by blast
  obtain t reqs where t: "rg_trace (snd (request_caps req r)) = rg_trace r @ t" "sends t = map OutCapReq reqs" "length reqs \<le> 1"
    "\<And>enabled d. fst (request_caps req r) = Inr (enabled, d) \<Longrightarrow> ''sasl'' \<in> set enabled \<Longrightarrow> sasl_acked t"
    using request_caps_trace [of req r] by blast
  show ?thesis
  proof (cases "request_caps req r")
    case (Pair res r1)
    show ?thesis
    proof (cases res)
      case (Inl e)
      then show ?thesis using t Pair by (auto simp: run bind_st_def intro!: after_lsI [of _ t "[]"])
    next
      case (Inr x)
      obtain enabled d1 where x: "x = (enabled, d1)" by (cases x)
      have "adds only_auth (second enabled)" by (simp add: second_def auth_steps split: option.split)
      then obtain u where u: "rg_trace (snd (second enabled r1)) = rg_trace r1 @ u" "only_auth u" by (auto simp: adds_def)
      have acked: "sasl_acked t" if "sends u \<noteq> []"
      proof -
        have "''sasl'' \<in> set enabled"
        proof (rule ccontr)
          assume "''sasl'' \<notin> set enabled"
          then have "rg_trace (snd (second enabled r1)) = rg_trace r1" by (simp add: second_def ret_st_def)
          with u that show False by simp
        qed
        then show ?thesis using t(4) Pair Inr x by simp
      qed
      show ?thesis
      proof (cases "second enabled r1")
        case (Pair res2 r2)
        show ?thesis
        proof (cases res2)
          case (Inl e)
          then show ?thesis using t u acked Pair \<open>request_caps req r = (res, r1)\<close> Inr x
            by (auto simp: run bind_st_def intro!: after_lsI [of _ t u])
        next
          case (Inr y)
          then show ?thesis using t u acked Pair \<open>request_caps req r = (res, r1)\<close> \<open>res = Inr x\<close> x
            by (auto simp: run bind_st_def send_reg_def modify_st_def ret_st_def case_prod_beta intro!: after_lsI [of _ t u])
        qed
      qed
    qed
  qed
qed

lemma preamble_trace:
  fixes k :: "unit \<Rightarrow> negotiate_result reg_step" and p :: reg_params and r :: reg
  defines "start \<equiv> bind_st (send_reg OutCapLs302) (\<lambda>_.
     bind_st (case rp_password p of None \<Rightarrow> ret_st () | Some pass \<Rightarrow> send_reg (OutPass pass)) (\<lambda>_.
     bind_st (send_reg (OutNick (rp_nick p))) (\<lambda>_.
     bind_st (send_reg (OutUser (rp_username p) (rp_realname p))) k)))"
  shows "start r = k () (r\<lparr>rg_trace := rg_trace r @ map Sent (preamble p)\<rparr>)"
  by (simp add: start_def bind_st_def send_reg_def modify_st_def ret_st_def preamble_def split: option.split)

text \<open>
  The whole trace: the preamble, what is received while the server's capabilities
  are read, and, if it knows capabilities, the rest.
\<close>

lemma negotiate_trace:
  obtains c t known where
    "rg_trace (snd (negotiate_caps ev p \<lparr>rg_in = items, rg_trace = []\<rparr>)) = map Sent (preamble p) @ map Got c @ t"
    "if known then after_ls t (\<exists>neg. fst (negotiate_caps ev p \<lparr>rg_in = items, rg_trace = []\<rparr>) = Inr neg) else t = []"
proof -
  let ?r1 = "\<lparr>rg_in = items, rg_trace = map Sent (preamble p)\<rparr>"
  have run: "negotiate_caps ev p \<lparr>rg_in = items, rg_trace = []\<rparr> =
      bind_st cap_ls (\<lambda>s. if ls_supported s then negotiate_known ev p s
        else ret_st \<lparr>ng_enabled = [], ng_diagnostics = ls_diag s, ng_early = ls_early s\<rparr>) ?r1"
    unfolding negotiate_caps_def preamble_trace by simp
  obtain c where c: "rg_trace (snd (cap_ls ?r1)) = map Sent (preamble p) @ map Got c"
    using recv_cases [of ?r1 cap_ls_body Inr] unfolding cap_ls_def by (metis reg.select_convs(2))
  show thesis
  proof (cases "cap_ls ?r1")
    case (Pair res r2)
    show thesis
    proof (cases res)
      case (Inl e)
      then show thesis using that [of c "[]" False] c Pair by (simp add: run bind_st_def)
    next
      case (Inr s)
      show thesis
      proof (cases "ls_supported s")
        case True
        obtain t where "rg_trace (snd (negotiate_known ev p s r2)) = rg_trace r2 @ t"
          "after_ls t (\<exists>neg. fst (negotiate_known ev p s r2) = Inr neg)"
          using negotiate_known_trace by blast
        then show thesis using that [of c t True] c Pair Inr True by (simp add: run bind_st_def)
      next
        case False
        then show thesis using that [of c "[]" False] c Pair Inr by (simp add: run bind_st_def ret_st_def)
      qed
    qed
  qed
qed

text \<open>
  C34: whatever the server sends, registration sends CAP LS, the password if there
  is one, NICK and USER, in this order and first; then nothing more, or at most
  one CAP REQ, the AUTHENTICATE lines, and CAP END unless the set-up failed.
\<close>

theorem registration_sends:
  "\<exists>reqs auths ends. sends (rg_trace (snd (negotiate_caps ev p \<lparr>rg_in = items, rg_trace = []\<rparr>))) =
      preamble p @ map OutCapReq reqs @ map OutAuthenticate auths @ ends \<and>
    length reqs \<le> 1 \<and> ends \<in> {[], [OutCapEnd]} \<and>
    (\<forall>neg. ends = [] \<and> fst (negotiate_caps ev p \<lparr>rg_in = items, rg_trace = []\<rparr>) = Inr neg \<longrightarrow> reqs = [] \<and> auths = [])"
proof -
  let ?run = "negotiate_caps ev p \<lparr>rg_in = items, rg_trace = []\<rparr>"
  have sent: "sends (map Sent ms) = ms" for ms by (induction ms) simp_all
  obtain c t known where t: "rg_trace (snd ?run) = map Sent (preamble p) @ map Got c @ t"
    "if known then after_ls t (\<exists>neg. fst ?run = Inr neg) else t = []" by (rule negotiate_trace)
  show ?thesis
  proof (cases known)
    case False
    then show ?thesis using t sent by (intro exI [of _ "[]"]) simp
  next
    case True
    then obtain t1 t2 reqs where u: "t = t1 @ t2 @ (if \<exists>neg. fst ?run = Inr neg then [Sent OutCapEnd] else [])"
      "sends t1 = map OutCapReq reqs" "length reqs \<le> 1" "only_auth t2" using t(2) by (auto simp: after_ls_def)
    obtain auths where "sends t2 = map OutAuthenticate auths" using only_auth_sends [OF u(4)] by blast
    then show ?thesis using t(1) u sent
      by (intro exI [of _ reqs] exI [of _ auths] exI [of _ "if \<exists>neg. fst ?run = Inr neg then [OutCapEnd] else []"]) simp
  qed
qed

definition demo_env :: reg_env where
  "demo_env = \<lparr>re_crates = toy_crates, re_utf8_error = id, re_nonce = ''r'', re_upper = ascii_upper\<rparr>"

definition demo_params :: reg_params where
  "demo_params = \<lparr>rp_nick = ''a'', rp_username = ''u'', rp_realname = ''r'', rp_password = None, rp_sasl_user = None,
     rp_sasl_pass = None, rp_mechanism = None, rp_has_cert = True\<rparr>"

lemma registration_sends_witness:
  "\<exists>reqs auths ends. sends (rg_trace (snd (negotiate_caps demo_env demo_params \<lparr>rg_in = [], rg_trace = []\<rparr>))) =
      [OutCapLs302, OutNick ''a'', OutUser ''u'' ''r''] @ map OutCapReq reqs @ map OutAuthenticate auths @ ends \<and> length reqs \<le> 1"
  using registration_sends [of demo_env demo_params "[]"] by (simp add: preamble_def demo_params_def) blast

lemma before_elem: "y \<notin> set u \<Longrightarrow> u @ v = a @ y # b \<Longrightarrow> \<exists>d. a = u @ d \<and> v = d @ y # b"
  by (induction u arbitrary: a) (auto simp: Cons_eq_append_conv)

text \<open>
  C35: nothing of an authentication leaves the client before the server has
  acknowledged \<open>sasl\<close>: every AUTHENTICATE sent comes after a CAP ACK that names it.
\<close>

theorem credentials_after_ack:
  assumes "rg_trace (snd (negotiate_caps ev p \<lparr>rg_in = items, rg_trace = []\<rparr>)) = a @ Sent (OutAuthenticate x) # b"
  shows "sasl_acked a"
proof -
  obtain c t known where t: "rg_trace (snd (negotiate_caps ev p \<lparr>rg_in = items, rg_trace = []\<rparr>)) = (map Sent (preamble p) @ map Got c) @ t"
    "if known then after_ls t (\<exists>neg. fst (negotiate_caps ev p \<lparr>rg_in = items, rg_trace = []\<rparr>) = Inr neg) else t = []"
    by (rule negotiate_trace) simp
  have early: "Sent (OutAuthenticate x) \<notin> set (map Sent (preamble p) @ map Got c)" by (auto simp: preamble_def split: option.split)
  show ?thesis
  proof (cases known)
    case False
    then have "map Sent (preamble p) @ map Got c = a @ Sent (OutAuthenticate x) # b" using t assms by simp
    then have "Sent (OutAuthenticate x) \<in> set (map Sent (preamble p) @ map Got c)" by (metis in_set_conv_decomp)
    then show ?thesis using early by blast
  next
    case True
    then obtain t1 t2 e reqs where u: "t = t1 @ t2 @ e" "e = [] \<or> e = [Sent OutCapEnd]" "sends t1 = map OutCapReq reqs"
      "sends t2 \<noteq> [] \<Longrightarrow> sasl_acked t1" using t(2) by (auto simp: after_ls_def split: if_splits) blast+
    have mem: "OutAuthenticate x \<in> set (sends l)" if "Sent (OutAuthenticate x) \<in> set l" for l
      using that by (force simp: sends_def)
    have "Sent (OutAuthenticate x) \<notin> set t1" using mem [of t1] u(3) by auto
    then have no: "Sent (OutAuthenticate x) \<notin> set ((map Sent (preamble p) @ map Got c) @ t1)" using early by auto
    have "((map Sent (preamble p) @ map Got c) @ t1) @ (t2 @ e) = a @ Sent (OutAuthenticate x) # b" using t(1) u(1) assms by simp
    then obtain d where d: "a = ((map Sent (preamble p) @ map Got c) @ t1) @ d" "t2 @ e = d @ Sent (OutAuthenticate x) # b"
      using before_elem [OF no] by blast
    then have "Sent (OutAuthenticate x) \<in> set (t2 @ e)" by simp
    then have "Sent (OutAuthenticate x) \<in> set t2" using u(2) by auto
    then have "sends t2 \<noteq> []" using mem [of t2] by auto
    then show ?thesis using u(4) d(1) by (auto simp: sasl_acked_def)
  qed
qed

text \<open>A server with EXTERNAL that acknowledges \<open>sasl\<close> and closes the connection.\<close>

lemma external_run:
  "rg_trace (snd (negotiate_caps demo_env demo_params
     \<lparr>rg_in = [Incoming (RegCap CapLs (Some ''sasl=EXTERNAL'') None), Incoming (RegCap CapAck (Some ''sasl'') None)], rg_trace = []\<rparr>)) =
   [Sent OutCapLs302, Sent (OutNick ''a''), Sent (OutUser ''u'' ''r''), Got (Incoming (RegCap CapLs (Some ''sasl=EXTERNAL'') None)),
    Sent (OutCapReq ''sasl''), Got (Incoming (RegCap CapAck (Some ''sasl'') None)), Sent (OutAuthenticate ''EXTERNAL''), Sent OutCapEnd]"
  by code_simp

lemma credentials_after_ack_witness:
  "sasl_acked [Sent OutCapLs302, Sent (OutNick ''a''), Sent (OutUser ''u'' ''r''), Got (Incoming (RegCap CapLs (Some ''sasl=EXTERNAL'') None)),
    Sent (OutCapReq ''sasl''), Got (Incoming (RegCap CapAck (Some ''sasl'') None))]"
  by (rule credentials_after_ack [where ev = demo_env and p = demo_params and x = "''EXTERNAL''" and b = "[Sent OutCapEnd]" and
      items = "[Incoming (RegCap CapLs (Some ''sasl=EXTERNAL'') None), Incoming (RegCap CapAck (Some ''sasl'') None)]"])
     (simp add: external_run)

section \<open>A whole SCRAM exchange\<close>

lemma recv_here: "body s m = Inr a \<Longrightarrow> recv body closed s \<lparr>rg_in = m # ms, rg_trace = t\<rparr> = (a, \<lparr>rg_in = ms, rg_trace = t @ [Got m]\<rparr>)"
  by (simp add: recv_def)

lemma send_chunks_in: "send_chunks cs r = (Inr (), r\<lparr>rg_trace := rg_trace r @ map (Sent \<circ> OutAuthenticate) cs\<rparr>)"
  by (induction cs arbitrary: r) (simp_all add: ret_st_def bind_st_def send_reg_def modify_st_def)

lemma chunk_part: "c \<in> set (chunks_of n xs) \<Longrightarrow> set c \<subseteq> set xs"
proof (induction n xs rule: chunks_of.induct)
  case (1 n xs)
  show ?case
  proof (cases "xs = [] \<or> n = 0")
    case True
    then show ?thesis using 1(2) by (subst (asm) chunks_of.simps) auto
  next
    case False
    then have "chunks_of n xs = take n xs # chunks_of n (drop n xs)" by (subst chunks_of.simps) simp
    then have "c = take n xs \<or> c \<in> set (chunks_of n (drop n xs))" using 1(2) by simp
    then show ?thesis using 1(1) [OF False] set_take_subset [of n xs] set_drop_subset [of n xs] by blast
  qed
qed

text \<open>
  How a payload is cut for AUTHENTICATE: lines of 400 bytes, then a shorter one,
  which is a plus sign when nothing is left.
\<close>

definition sasl_lines :: "bytes list \<Rightarrow> bytes \<Rightarrow> bool" where
  "sasl_lines cs payload \<longleftrightarrow>
     (\<exists>long rest. (\<forall>c\<in>set long. length c = 400) \<and> length rest < 400 \<and> payload = concat long @ rest \<and>
        cs = long @ [if rest = [] then ''+'' else rest])"

lemma chunks_split:
  "0 < n \<Longrightarrow> xs \<noteq> [] \<Longrightarrow> \<exists>long part. chunks_of n xs = long @ [part] \<and> (\<forall>c\<in>set long. length c = n) \<and> length part \<le> n \<and> part \<noteq> []"
proof -
  assume n: "0 < n" and xs: "xs \<noteq> []"
  have "chunks_of n xs \<noteq> []" using n xs by (subst chunks_of.simps) simp
  then obtain long part where eq: "chunks_of n xs = long @ [part]" by (metis append_butlast_last_id)
  have "length c = n" if "c \<in> set long" for c
  proof -
    obtain i where "i < length long" "c = long ! i" using \<open>c \<in> set long\<close> by (metis in_set_conv_nth)
    then show ?thesis using chunks_full [of i n xs] by (simp add: eq nth_append)
  qed
  moreover have "part \<noteq> [] \<and> length part \<le> n" using chunks_bounded [of part n xs] by (simp add: eq)
  ultimately show ?thesis using eq by blast
qed

lemma chunk_authenticate_lines: "chunk_authenticate payload = Some cs \<Longrightarrow> sasl_lines cs payload"
proof (cases "payload = []")
  case True
  moreover assume "chunk_authenticate payload = Some cs"
  ultimately show ?thesis by (auto simp: chunk_authenticate_def sasl_lines_def intro: exI [of _ "[]"])
next
  case False
  assume cs: "chunk_authenticate payload = Some cs"
  obtain long part where split: "chunks_of 400 payload = long @ [part]" "\<forall>c\<in>set long. length c = 400" "length part \<le> 400" "part \<noteq> []"
    using chunks_split [of 400 payload] False by auto
  have whole: "payload = concat long @ part" using concat_chunks [of 400 payload] split(1) by simp
  show ?thesis
  proof (cases "length part = 400")
    case True
    then have "cs = (long @ [part]) @ [''+'']" using cs False by (simp add: chunk_authenticate_def split(1) Let_def split: if_splits)
    then show ?thesis using split whole True unfolding sasl_lines_def
      by (intro exI [of _ "long @ [part]"] exI [of _ "[]"]) auto
  next
    case False
    then have "cs = long @ [part]" using cs \<open>payload \<noteq> []\<close> by (simp add: chunk_authenticate_def split(1) Let_def split: if_splits)
    then show ?thesis using split whole False unfolding sasl_lines_def
      by (intro exI [of _ long] exI [of _ part]) auto
  qed
qed

lemma payload_lines: "scram_laws sf \<Longrightarrow> \<exists>cs. send_payload sf msg = send_chunks cs \<and> sasl_lines cs (sf_encode sf msg)"
proof -
  assume "scram_laws sf"
  then have "\<And>c. c \<in> set (sf_encode sf msg) \<Longrightarrow> byte_val c < 128" by (simp add: scram_laws_def list_all_iff plain_char_def)
  then have "list_all utf8_valid (chunks_of 400 (sf_encode sf msg))"
    by (auto simp: list_all_iff intro!: ascii_valid dest!: chunk_part)
  then have "\<exists>cs. chunk_authenticate (sf_encode sf msg) = Some cs" by (simp add: chunk_authenticate_def Let_def)
  then obtain cs where "chunk_authenticate (sf_encode sf msg) = Some cs" by blast
  then show ?thesis using chunk_authenticate_lines by (auto simp: send_payload_def)
qed

lemma server_first_valid:
  assumes "scram_laws sf" "utf8_valid sn" "\<And>c. c \<in> set cn \<Longrightarrow> byte_val c < 128"
  shows "utf8_valid (server_first_of sf cn sn salt n)"
proof -
  have plain: "byte_val c < 128" if "c \<in> set (sf_encode sf x)" for c x
    using assms(1) that by (auto simp: scram_laws_def list_all_iff plain_char_def)
  have digits: "byte_val c < 128" if "c \<in> set (show_nat n)" for c using show_nat_digits [OF that] by (simp add: in_range_def)
  have parts: "utf8_valid (''r='' @ cn)" "utf8_valid ('',s='' @ sf_encode sf salt @ '',i='' @ show_nat n)"
    by (rule ascii_valid, use assms(3) plain digits in auto)+
  have "utf8_valid ((''r='' @ cn) @ sn @ ('',s='' @ sf_encode sf salt @ '',i='' @ show_nat n))"
    by (rule utf8_valid_append [OF parts(1) utf8_valid_append [OF assms(2) parts(2)]])
  then show ?thesis by (simp add: server_first_of_def)
qed

text \<open>The exchange itself, with everything that is received and sent.\<close>

lemma scram_run:
  fixes ev :: reg_env and salt sn user pass s :: bytes and n :: nat
  assumes "scram_laws (re_crates ev)" "0 < n" "n \<le> 100000" "CHR '','' \<notin> set sn" "utf8_valid sn"
    "client_first (re_crates ev) (re_nonce ev) user = (bare, full, cn)"
  defines "first \<equiv> server_first_of (re_crates ev) cn sn salt n"
  defines "auth \<equiv> bare @ '','' @ first @ '',c=biws,r='' @ cn @ sn" and "salted \<equiv> sf_pbkdf2 (re_crates ev) pass salt n"
  defines "final \<equiv> ''c=biws,r='' @ cn @ sn @ '',p='' @ sf_encode (re_crates ev) (client_proof (re_crates ev) salted auth)"
    and "signature \<equiv> server_signature (re_crates ev) salted auth"
    and "verifier \<equiv> RegAuthenticate (sf_encode (re_crates ev) (''v='' @ sf_encode (re_crates ev) s))"
    and "answer \<equiv> RegAuthenticate (sf_encode (re_crates ev) first)"
  assumes "utf8_valid (''v='' @ sf_encode (re_crates ev) s)"
  shows "\<exists>cs1 cs2. sasl_lines cs1 (sf_encode (re_crates ev) full) \<and> sasl_lines cs2 (sf_encode (re_crates ev) final) \<and>
    (\<exists>res r. run_sasl_scram ev user pass
      \<lparr>rg_in = map Incoming [RegAuthenticate ''+'', answer, verifier, RegReply RPL_SASLSUCCESS []], rg_trace = t\<rparr> = (res, r) \<and>
      (res = Inr () \<and> s = signature \<or> (\<exists>e. res = Inl (Failed e)) \<and> s \<noteq> signature) \<and>
      rg_trace r = t @ [Sent (OutAuthenticate ''SCRAM-SHA-256''), Got (Incoming (RegAuthenticate ''+''))] @
        map (Sent \<circ> OutAuthenticate) cs1 @ [Got (Incoming answer)] @ map (Sent \<circ> OutAuthenticate) cs2 @
        [Got (Incoming verifier)] @ (if s = signature then [Got (Incoming (RegReply RPL_SASLSUCCESS []))] else []))"
proof -
  let ?sf = "re_crates ev"
  have plain: "\<And>c x. c \<in> set (sf_encode ?sf x) \<Longrightarrow> byte_val c < 128" "\<And>x. CHR '','' \<notin> set (sf_encode ?sf x)"
    using assms(1) by (auto simp: scram_laws_def list_all_iff plain_char_def)
  have cn: "CHR '','' \<notin> set cn" "\<And>c. c \<in> set cn \<Longrightarrow> byte_val c < 128" using assms(6) plain by (auto simp: client_first_def Let_def)
  have valid: "utf8_valid first" unfolding first_def by (rule server_first_valid [OF assms(1,5) cn(2)])
  have dec: "sf_decode ?sf (sf_encode ?sf x) = Inr x" "sf_encode ?sf x \<noteq> ''+''" for x using assms(1) by (simp_all add: scram_laws_def)
  obtain cs1 where cs1: "send_payload ?sf full = send_chunks cs1" "sasl_lines cs1 (sf_encode ?sf full)" using payload_lines [OF assms(1)] by blast
  obtain cs2 where cs2: "send_payload ?sf final = send_chunks cs2" "sasl_lines cs2 (sf_encode ?sf final)" using payload_lines [OF assms(1)] by blast
  have final: "client_final ?sf first bare cn pass = Inr (final, signature)"
    unfolding first_def using client_final_accepts [OF assms(1) cn(1) assms(4,2,3)]
    by (simp add: final_messages_def Let_def auth_def salted_def first_def final_def signature_def)
  have verify: "verify_server ?sf (''v='' @ sf_encode ?sf s) signature \<longleftrightarrow> s = signature"
    by (simp add: verify_server_iff dec)
  define p q where "p = sf_encode ?sf first" and "q = sf_encode ?sf (''v='' @ sf_encode ?sf s)"
  have pq: "p \<noteq> ''+''" "q \<noteq> ''+''" "sf_decode ?sf p = Inr first" "sf_decode ?sf q = Inr (''v='' @ sf_encode ?sf s)" by (simp_all add: p_def q_def dec)
  have "run_sasl_scram ev user pass
      \<lparr>rg_in = map Incoming [RegAuthenticate ''+'', answer, verifier, RegReply RPL_SASLSUCCESS []], rg_trace = t\<rparr> =
    (if s = signature then Inr () else Inl (Failed (''SCRAM: server signature verification failed '' @ em_dash @ '' possible MITM'')),
     \<lparr>rg_in = (if s = signature then [] else [Incoming (RegReply RPL_SASLSUCCESS [])]),
      rg_trace = t @ [Sent (OutAuthenticate ''SCRAM-SHA-256''), Got (Incoming (RegAuthenticate ''+''))] @
        map (Sent \<circ> OutAuthenticate) cs1 @ [Got (Incoming answer)] @ map (Sent \<circ> OutAuthenticate) cs2 @
        [Got (Incoming verifier)] @ (if s = signature then [Got (Incoming (RegReply RPL_SASLSUCCESS []))] else [])\<rparr>)"
    using pq valid assms(14) verify
    unfolding verifier_def answer_def p_def [symmetric] q_def [symmetric]
    by (simp add: run_sasl_scram_def assms(6) cs1(1) Let_def bind_st_def send_reg_def modify_st_def await_authenticate_plus_def recv_here
        await_plus_body_def send_chunks_in server_first_body_def decode_payload_def lift_st_def final map_err_def cs2(1)
        server_final_body_def recv_def)
  then show ?thesis using cs1(2) cs2(2) by (intro exI [of _ cs1] exI [of _ cs2]) simp
qed

lemma preamble_run:
  "negotiate_caps ev p \<lparr>rg_in = items, rg_trace = []\<rparr> =
     bind_st cap_ls (\<lambda>s.
       if ls_supported s then negotiate_known ev p s
       else ret_st \<lparr>ng_enabled = [], ng_diagnostics = ls_diag s, ng_early = ls_early s\<rparr>)
     \<lparr>rg_in = items, rg_trace = map Sent (preamble p)\<rparr>"
  by (cases "rp_password p") (simp_all add: negotiate_caps_def preamble_def bind_st_def send_reg_def modify_st_def ret_st_def)

text \<open>
  C33: CAP negotiation with a server that offers SCRAM-SHA-256 (and answers with
  any salt, iteration count in range and nonce), acknowledges \<open>sasl\<close> and holds the
  keys derived from the password.  The client sends the registration lines, the
  request, the first message in AUTHENTICATE lines, then the final message: the
  joint nonce and a proof from which the server recovers a key whose hash is the
  stored key.  Whatever signature the server sends, negotiation ends with CAP END,
  and \<open>sasl\<close> is enabled if and only if it is the signature of this exchange.
\<close>

theorem scram_exchange:
  fixes ev :: reg_env and p :: reg_params and ls ack salt server_nonce user password s :: bytes and n :: nat
  assumes "scram_laws (re_crates ev)" "0 < n" "n \<le> 100000" "CHR '','' \<notin> set server_nonce" "utf8_valid server_nonce"
    and "rp_sasl_user p = Some user" "rp_sasl_pass p = Some password"
    and "ls \<noteq> ''*''" "''sasl'' \<in> set (wanted_caps (caps_parse ls) True)" "''sasl'' \<in> ascii_lower ` set (split_whitespace ack)"
    and "select_sasl_mechanism (sasl_mechanisms (re_upper ev) (caps_parse ls)) (rp_mechanism p) (rp_has_cert p) True = Some SaslScramSha256"
    and "client_first (re_crates ev) (re_nonce ev) user = (bare, full, client_nonce)"
  defines "encode \<equiv> sf_encode (re_crates ev)" and "hash \<equiv> sf_sha256 (re_crates ev)" and "hmac \<equiv> sf_hmac (re_crates ev)"
    and "salted \<equiv> sf_pbkdf2 (re_crates ev) password salt n"
  defines "server_first \<equiv> ''r='' @ client_nonce @ server_nonce @ '',s='' @ encode salt @ '',i='' @ show_nat n"
  defines "auth \<equiv> bare @ '','' @ server_first @ '',c=biws,r='' @ client_nonce @ server_nonce"
    and "stored_key \<equiv> hash (hmac salted ''Client Key'')"
  defines "signature \<equiv> hmac (hmac salted ''Server Key'') auth"
  shows "\<exists>pf first_lines final_lines neg r.
    hash (xor_bytes pf (hmac stored_key auth)) = stored_key \<and>
    sasl_lines first_lines (encode full) \<and>
    sasl_lines final_lines (encode (''c=biws,r='' @ client_nonce @ server_nonce @ '',p='' @ encode pf)) \<and>
    negotiate_caps ev p
      \<lparr>rg_in = map Incoming [RegCap CapLs (Some ls) None, RegCap CapAck (Some ack) None, RegAuthenticate ''+'',
         RegAuthenticate (encode server_first), RegAuthenticate (encode (''v='' @ encode s)), RegReply RPL_SASLSUCCESS []],
       rg_trace = []\<rparr> = (Inr neg, r) \<and>
    (''sasl'' \<in> set (ng_enabled neg) \<longleftrightarrow> s = signature) \<and>
    rg_trace r = map Sent (preamble p) @
      [Got (Incoming (RegCap CapLs (Some ls) None)), Sent (OutCapReq (join_str '' '' (wanted_caps (caps_parse ls) True))),
       Got (Incoming (RegCap CapAck (Some ack) None)),
       Sent (OutAuthenticate ''SCRAM-SHA-256''), Got (Incoming (RegAuthenticate ''+''))] @
      map (Sent \<circ> OutAuthenticate) first_lines @ [Got (Incoming (RegAuthenticate (encode server_first)))] @
      map (Sent \<circ> OutAuthenticate) final_lines @ [Got (Incoming (RegAuthenticate (encode (''v='' @ encode s))))] @
      (if s = signature then [Got (Incoming (RegReply RPL_SASLSUCCESS []))] else []) @ [Sent OutCapEnd]"
proof -
  let ?sf = "re_crates ev"
  let ?req = "wanted_caps (caps_parse ls) True"
  have valid: "utf8_valid (''v='' @ sf_encode ?sf s)"
    by (rule ascii_valid) (use assms(1) in \<open>auto simp: scram_laws_def list_all_iff plain_char_def\<close>)
  have len: "length (hmac k x) = length (hmac k' y)" for k x k' y using assms(1) by (simp add: scram_laws_def hmac_def)
  define pf where "pf = client_proof ?sf salted auth"
  have proof_ok: "hash (xor_bytes pf (hmac stored_key auth)) = stored_key"
    by (simp add: pf_def client_proof_def Let_def stored_key_def hash_def hmac_def xor_bytes_cancel [OF len [unfolded hmac_def]])
  have sfirst: "server_first = server_first_of ?sf client_nonce server_nonce salt n" by (simp add: server_first_def server_first_of_def encode_def)
  have sig: "signature = server_signature ?sf salted auth" by (simp add: signature_def server_signature_def hmac_def)
  let ?t = "map Sent (preamble p) @ [Got (Incoming (RegCap CapLs (Some ls) None)), Sent (OutCapReq (join_str '' '' ?req)),
       Got (Incoming (RegCap CapAck (Some ack) None))]"
  obtain cs1 cs2 res r1 where lines: "sasl_lines cs1 (encode full)"
      "sasl_lines cs2 (encode (''c=biws,r='' @ client_nonce @ server_nonce @ '',p='' @ encode pf))"
    and run: "run_sasl_scram ev user password \<lparr>rg_in = map Incoming [RegAuthenticate ''+'', RegAuthenticate (encode server_first),
        RegAuthenticate (encode (''v='' @ encode s)), RegReply RPL_SASLSUCCESS []], rg_trace = ?t\<rparr> = (res, r1)"
    and res: "res = Inr () \<and> s = signature \<or> (\<exists>e. res = Inl (Failed e)) \<and> s \<noteq> signature"
    and trace: "rg_trace r1 = ?t @ [Sent (OutAuthenticate ''SCRAM-SHA-256''), Got (Incoming (RegAuthenticate ''+''))] @
        map (Sent \<circ> OutAuthenticate) cs1 @ [Got (Incoming (RegAuthenticate (encode server_first)))] @ map (Sent \<circ> OutAuthenticate) cs2 @
        [Got (Incoming (RegAuthenticate (encode (''v='' @ encode s))))] @ (if s = signature then [Got (Incoming (RegReply RPL_SASLSUCCESS []))] else [])"
    using scram_run [OF assms(1-5,12) valid, where salt = salt and pass = password and t = ?t]
    unfolding pf_def sig sfirst auth_def salted_def encode_def by blast
  define enabled where "enabled = fold (\<lambda>c. insert_once (ascii_lower c)) (split_whitespace ack) []"
  have sasl: "''sasl'' \<in> set enabled" using assms(10) by (simp add: enabled_def fold_insert_lower)
  obtain diag where acked: "cap_ack_body () (Incoming (RegCap CapAck (Some ack) None)) = Inr (Inr (enabled, diag))"
    by (simp add: cap_ack_body_def Let_def enabled_def)
  have req: "?req \<noteq> []" using assms(9) by auto
  have creds: "has_credentials p" using assms(6,7) by (simp add: has_credentials_def)
  define rest where "rest = map Incoming [RegAuthenticate ''+'', RegAuthenticate (encode server_first), RegAuthenticate (encode (''v='' @ encode s)), RegReply RPL_SASLSUCCESS []]"
  have "\<exists>neg. negotiate_caps ev p \<lparr>rg_in = Incoming (RegCap CapLs (Some ls) None) # Incoming (RegCap CapAck (Some ack) None) # rest, rg_trace = []\<rparr> =
      (Inr neg, r1\<lparr>rg_trace := rg_trace r1 @ [Sent OutCapEnd]\<rparr>) \<and> (''sasl'' \<in> set (ng_enabled neg) \<longleftrightarrow> s = signature)"
    using res run [folded rest_def]
    by (auto simp: preamble_run cap_ls_def bind_st_def recv_here cap_ls_body_def Let_def assms(6-9,11) negotiate_known_def caps_merge_def
        creds request_caps_def req send_reg_def modify_st_def acked ret_st_def sasl authenticate_def run_mechanism_def)
  then show ?thesis using proof_ok lines trace unfolding rest_def
    by (intro exI [of _ pf] exI [of _ cs1] exI [of _ cs2]) auto
qed

definition scram_params :: reg_params where
  "scram_params = \<lparr>rp_nick = ''a'', rp_username = ''u'', rp_realname = ''r'', rp_password = None, rp_sasl_user = Some ''user'',
     rp_sasl_pass = Some ''pw'', rp_mechanism = None, rp_has_cert = False\<rparr>"

lemma scram_exchange_witness:
  "\<exists>neg r. negotiate_caps demo_env scram_params
      \<lparr>rg_in = map Incoming [RegCap CapLs (Some ''sasl=SCRAM-SHA-256'') None, RegCap CapAck (Some ''sasl'') None, RegAuthenticate ''+'',
         RegAuthenticate (toy_encode (''r='' @ toy_encode ''r'' @ ''s'' @ '',s='' @ toy_encode ''salt'' @ '',i='' @ show_nat 4096)),
         RegAuthenticate (toy_encode (''v='' @ toy_encode [])), RegReply RPL_SASLSUCCESS []], rg_trace = []\<rparr> = (Inr neg, r) \<and>
    ''sasl'' \<notin> set (ng_enabled neg)"
proof -
  have wanted: "wanted_caps (caps_parse ''sasl=SCRAM-SHA-256'') True = [''sasl'']" by code_simp
  have mech: "select_sasl_mechanism (sasl_mechanisms (re_upper demo_env) (caps_parse ''sasl=SCRAM-SHA-256'')) (rp_mechanism scram_params)
      (rp_has_cert scram_params) True = Some SaslScramSha256" by code_simp
  have ack: "split_whitespace ''sasl'' = [''sasl'']" "ascii_lower ''sasl'' = ''sasl''" "utf8_valid ''s''" by code_simp+
  have first: "client_first (re_crates demo_env) (re_nonce demo_env) ''user'' = (''n=user,r='' @ toy_encode ''r'', ''n,,n=user,r='' @ toy_encode ''r'', toy_encode ''r'')"
    by (simp add: client_first_def escape_username_def toy_crates_def demo_env_def Let_def)
  have env: "sf_encode (re_crates demo_env) = toy_encode" "sf_hmac (re_crates demo_env) k x = replicate 32 (CHR 0x01)" for k x
    by (simp_all add: demo_env_def toy_crates_def)
  have params: "(0 :: nat) < 4096" "(4096 :: nat) \<le> 100000" "CHR '','' \<notin> set ''s''" "utf8_valid ''s''" "rp_sasl_user scram_params = Some ''user''"
      "rp_sasl_pass scram_params = Some ''pw''" "''sasl=SCRAM-SHA-256'' \<noteq> ''*''" "''sasl'' \<in> set (wanted_caps (caps_parse ''sasl=SCRAM-SHA-256'') True)"
      "''sasl'' \<in> ascii_lower ` set (split_whitespace ''sasl'')"
    by (simp_all add: scram_params_def wanted ack)
  have laws: "scram_laws (re_crates demo_env)" by (simp add: demo_env_def toy_laws)
  have "[] \<noteq> replicate 32 (CHR 0x01)" by simp
  then show ?thesis
    using scram_exchange [OF laws params mech first, where s = "[]" and salt = "''salt''", unfolded env] by blast
qed

section \<open>A server that does not know the password\<close>

lemma payload_sent: "scram_laws sf \<Longrightarrow> \<exists>cs. send_payload sf msg = send_chunks cs"
  using payload_lines by blast

text \<open>
  C36: SCRAM does not authenticate the server: one that knows nothing of the
  password, answers the first message with any salt, count and nonce, and then
  reports success without a signature is accepted; the authentication counts as
  successful.
\<close>

theorem scram_accepts_unproven_server:
  fixes n :: nat
  assumes "scram_laws (re_crates ev)" "0 < n" "n \<le> 100000" "CHR '','' \<notin> set server_nonce" "utf8_valid server_nonce"
  shows "\<exists>first. fst (run_sasl_scram ev user pass
      \<lparr>rg_in = [Incoming (RegAuthenticate ''+''), Incoming (RegAuthenticate first), Incoming (RegReply RPL_SASLSUCCESS [])], rg_trace = tr\<rparr>) = Inr ()"
proof -
  let ?sf = "re_crates ev"
  obtain bare full cn where first: "client_first ?sf (re_nonce ev) user = (bare, full, cn)" by (metis prod_cases3)
  have plain: "\<And>c x. c \<in> set (sf_encode ?sf x) \<Longrightarrow> byte_val c < 128" "\<And>x. CHR '','' \<notin> set (sf_encode ?sf x)"
    using assms(1) by (auto simp: scram_laws_def list_all_iff plain_char_def)
  have cn: "CHR '','' \<notin> set cn" "\<And>c. c \<in> set cn \<Longrightarrow> byte_val c < 128" using first plain by (auto simp: client_first_def Let_def)
  let ?msg = "server_first_of ?sf cn server_nonce [] n"
  have valid: "utf8_valid ?msg" by (rule server_first_valid [OF assms(1,5) cn(2)])
  have dec: "sf_decode ?sf (sf_encode ?sf x) = Inr x" for x using assms(1) by (simp add: scram_laws_def)
  obtain cs where cs: "send_payload ?sf full = send_chunks cs" using payload_sent [OF assms(1)] by blast
  obtain final expected where final: "client_final ?sf ?msg bare cn pass = Inr (final, expected)"
    using client_final_accepts [OF assms(1) cn(1) assms(4,2,3)] by (metis surj_pair)
  obtain cs2 where cs2: "send_payload ?sf final = send_chunks cs2" using payload_sent [OF assms(1)] by blast
  define p where "p = sf_encode ?sf ?msg"
  have "p \<noteq> ''+''" using assms(1) by (simp add: scram_laws_def p_def)
  then have "fst (run_sasl_scram ev user pass
      \<lparr>rg_in = [Incoming (RegAuthenticate ''+''), Incoming (RegAuthenticate p), Incoming (RegReply RPL_SASLSUCCESS [])], rg_trace = tr\<rparr>) = Inr ()"
    using valid
    by (simp add: run_sasl_scram_def first cs Let_def bind_st_def send_reg_def modify_st_def await_authenticate_plus_def recv_here
        await_plus_body_def send_chunks_in server_first_body_def decode_payload_def p_def dec lift_st_def final map_err_def cs2
        server_final_body_def)
  then show ?thesis by blast
qed

lemma scram_accepts_unproven_server_witness:
  "\<exists>first. fst (run_sasl_scram demo_env ''user'' ''pw''
      \<lparr>rg_in = [Incoming (RegAuthenticate ''+''), Incoming (RegAuthenticate first), Incoming (RegReply RPL_SASLSUCCESS [])], rg_trace = []\<rparr>) = Inr ()"
  by (rule scram_accepts_unproven_server [where n = 1 and server_nonce = "[]"]) (simp_all add: toy_laws demo_env_def)

section \<open>The reader task\<close>

definition welcomes :: "stream_item list \<Rightarrow> bool" where
  "welcomes items \<longleftrightarrow> (\<exists>m. Incoming m \<in> set items \<and> is_welcome m)"

text \<open>What the client must be told, written down without a flag.\<close>

definition announce :: "bytes list \<Rightarrow> reg_command list \<Rightarrow> irc_event list" where
  "announce caps ms =
     map EvMessage (takeWhile (\<lambda>m. \<not> is_welcome m) ms) @
     (case dropWhile (\<lambda>m. \<not> is_welcome m) ms of [] \<Rightarrow> [] | w # rest \<Rightarrow> EvConnected caps # map EvMessage (w # rest))"

fun upto_error :: "stream_item list \<Rightarrow> reg_command list \<times> bytes option" where
  "upto_error [] = ([], None)"
| "upto_error (StreamError e # _) = ([], Some e)"
| "upto_error (StepTimeout # ms) = upto_error ms"
| "upto_error (Incoming m # ms) = (m # fst (upto_error ms), snd (upto_error ms))"

lemma reader_connected: "reader_loop caps True items = map EvMessage (fst (upto_error items)) @ [EvDisconnected (snd (upto_error items))]"
  by (induction items rule: upto_error.induct) (simp_all add: reader_message_def)

lemma reader_new: "reader_loop caps False items = announce caps (fst (upto_error items)) @ [EvDisconnected (snd (upto_error items))]"
  by (induction items rule: upto_error.induct) (simp_all add: reader_message_def announce_def reader_connected)

lemma replay_connected: "replay_early caps True ms = (True, map EvMessage ms)"
  by (induction ms) (simp_all add: reader_message_def)

lemma replay_new: "replay_early caps False ms = ((\<exists>m\<in>set ms. is_welcome m), announce caps ms)"
  by (induction ms) (auto simp: reader_message_def announce_def replay_connected)

lemma announce_append:
  "announce caps (ms @ ns) = announce caps ms @ (if \<exists>m\<in>set ms. is_welcome m then map EvMessage ns else announce caps ns)"
  by (induction ms) (auto simp: announce_def)

text \<open>
  C37: the reader task reports every message kept from the negotiation and every
  later one in order, the connection exactly once, directly before the first
  welcome, and the end of the connection last.
\<close>

theorem reader_reports:
  "reader_events neg rest = EvNegotiationInfo (ng_diagnostics neg) #
     announce (ng_enabled neg) (ng_early neg @ fst (upto_error rest)) @ [EvDisconnected (snd (upto_error rest))]"
  by (simp add: reader_events_def replay_new announce_append reader_new reader_connected)

end
