(* ===== verification/Theme.thy ===== *)
theory Theme
  imports Irc_Text
begin

text \<open>
  \<open>src/src/theme/parser.rs\<close> and the colours of \<open>src/src/theme/mod.rs\<close>: the
  variables, the abstractions and the format codes of themes and messages.
  \<open>None\<close> is a panic: a slice off a character boundary, or a padding width beyond
  the 65535 the formatting machinery takes.
\<close>

declare show_nat.simps [simp del]

section \<open>Colours\<close>

type_synonym rgb = "u8 \<times> u8 \<times> u8"

definition hex_digit :: "char \<Rightarrow> nat option" where
  "hex_digit c =
     (if in_range 48 57 c then Some (byte_val c - 48)
      else if in_range 97 102 c then Some (byte_val c - 87)
      else if in_range 65 70 c then Some (byte_val c - 55)
      else None)"

text \<open>\<open>u8::from_str_radix(.., 16)\<close> of two characters; a leading plus sign is taken.\<close>

definition hex_pair :: "char \<Rightarrow> char \<Rightarrow> u8 option" where
  "hex_pair a b =
     (if a = CHR ''+'' then map_option of_nat (hex_digit b)
      else (case (hex_digit a, hex_digit b) of (Some x, Some y) \<Rightarrow> Some (of_nat (16 * x + y)) | _ \<Rightarrow> None))"

text \<open>The outer option is the panic of the slices.\<close>

definition six_digits :: "bytes \<Rightarrow> rgb option option" where
  "six_digits h =
     (case h of
        [r1, r2, g1, g2, b1, b2] \<Rightarrow>
          if \<not> is_char_boundary h 2 then None
          else (case hex_pair r1 r2 of
                  None \<Rightarrow> Some None
                | Some r \<Rightarrow>
                    if \<not> is_char_boundary h 4 then None
                    else (case (hex_pair g1 g2, hex_pair b1 b2) of
                            (Some g, Some b) \<Rightarrow> Some (Some (r, g, b))
                          | _ \<Rightarrow> Some None))
      | _ \<Rightarrow> Some None)"

definition hex_to_color :: "bytes \<Rightarrow> rgb option option" where
  "hex_to_color s = six_digits (unwrap_or s (strip_prefix ''#'' s))"

definition hex_to_rgb_or :: "bytes \<Rightarrow> rgb \<Rightarrow> rgb option" where
  "hex_to_rgb_or h d = map_option (unwrap_or d) (hex_to_color h)"

definition color_map :: "char \<Rightarrow> bytes option" where
  "color_map c =
     (
      if c = CHR ''k'' then Some ''#000000''
      else if c = CHR ''K'' then Some ''#555555''
      else if c = CHR ''r'' then Some ''#aa0000''
      else if c = CHR ''R'' then Some ''#ff5555''
      else if c = CHR ''g'' then Some ''#00aa00''
      else if c = CHR ''G'' then Some ''#55ff55''
      else if c = CHR ''y'' then Some ''#aa5500''
      else if c = CHR ''Y'' then Some ''#ffff55''
      else if c = CHR ''b'' then Some ''#0000aa''
      else if c = CHR ''B'' then Some ''#5555ff''
      else if c = CHR ''m'' then Some ''#aa00aa''
      else if c = CHR ''M'' then Some ''#ff55ff''
      else if c = CHR ''c'' then Some ''#00aaaa''
      else if c = CHR ''C'' then Some ''#55ffff''
      else if c = CHR ''w'' then Some ''#aaaaaa''
      else if c = CHR ''W'' then Some ''#ffffff''
      else None)"

definition mirc_colors :: "bytes list" where
  "mirc_colors = [
     ''#ffffff'', ''#000000'', ''#00007f'', ''#009300'', ''#ff0000'', ''#7f0000'', ''#9c009c'', ''#fc7f00'', ''#ffff00'',
     ''#00fc00'', ''#009393'', ''#00ffff'', ''#0000fc'', ''#ff00ff'', ''#7f7f7f'', ''#d2d2d2'', ''#470000'', ''#472100'',
     ''#474700'', ''#324700'', ''#004700'', ''#00472c'', ''#004747'', ''#002747'', ''#000047'', ''#2e0047'', ''#470047'',
     ''#47002a'', ''#740000'', ''#743a00'', ''#747400'', ''#517400'', ''#007400'', ''#007449'', ''#007474'', ''#004074'',
     ''#000074'', ''#4b0074'', ''#740074'', ''#740045'', ''#b50000'', ''#b56300'', ''#b5b500'', ''#7db500'', ''#00b500'',
     ''#00b571'', ''#00b5b5'', ''#0063b5'', ''#0000b5'', ''#7500b5'', ''#b500b5'', ''#b5006b'', ''#ff0000'', ''#ff8c00'',
     ''#ffff00'', ''#b2ff00'', ''#00ff00'', ''#00ffa0'', ''#00ffff'', ''#008cff'', ''#0000ff'', ''#a500ff'', ''#ff00ff'',
     ''#ff0098'', ''#ff5959'', ''#ffb459'', ''#ffff71'', ''#cfff60'', ''#6fff6f'', ''#65ffc9'', ''#6dffff'', ''#59b4ff'',
     ''#5959ff'', ''#c459ff'', ''#ff66ff'', ''#ff59bc'', ''#ff9c9c'', ''#ffd39c'', ''#ffff9c'', ''#e2ff9c'', ''#9cff9c'',
     ''#9cffdb'', ''#9cffff'', ''#9cd3ff'', ''#9c9cff'', ''#dc9cff'', ''#ff9cff'', ''#ff94d3'', ''#000000'', ''#131313'',
     ''#282828'', ''#363636'', ''#4d4d4d'', ''#656565'', ''#818181'', ''#9f9f9f'', ''#bcbcbc'', ''#e2e2e2'', ''#ffffff'']"

section \<open>Spans\<close>

record style_state =
  ss_fg :: "rgb option"
  ss_bg :: "rgb option"
  ss_bold :: bool
  ss_italic :: bool
  ss_underline :: bool
  ss_dim :: bool

definition plain_style :: style_state where
  "plain_style = \<lparr>ss_fg = None, ss_bg = None, ss_bold = False, ss_italic = False, ss_underline = False, ss_dim = False\<rparr>"

record styled_span =
  sp_text :: bytes
  sp_style :: style_state

definition read_hex6 :: "bytes \<Rightarrow> bytes option" where
  "read_hex6 s = (if 6 \<le> length s \<and> list_all is_ascii_hexdigit (take 6 s) then Some (take 6 s) else None)"

section \<open>Variables\<close>

definition is_digit_char :: "bytes \<Rightarrow> bool" where
  "is_digit_char c \<longleftrightarrow> (case c of [b] \<Rightarrow> is_ascii_digit b | _ \<Rightarrow> False)"

definition param_at :: "bytes list \<Rightarrow> bytes list \<Rightarrow> bytes" where
  "param_at params digits =
     (case parse_unsigned (2 ^ 64 - 1) (concat digits) of
        Inl _ \<Rightarrow> unwrap_or [] (nth_opt params 0)
      | Inr n \<Rightarrow> unwrap_or [] (nth_opt params n))"

definition pad_width :: "bytes list \<Rightarrow> int" where
  "pad_width num = (case parse_signed 2147483647 (concat num) of Inl _ \<Rightarrow> 0 | Inr n \<Rightarrow> n)"

definition padded :: "int \<Rightarrow> bytes \<Rightarrow> bytes option" where
  "padded width v =
     (let w = nat \<bar>width\<bar>; fill = replicate (w - length (utf8_chars v)) (CHR 0x20)
      in if 65535 < w then None else Some (if width < 0 then fill @ v else v @ fill))"

lemma take_drop_While_length: "length (dropWhile P xs) \<le> length xs"
  by (induction xs) auto

text \<open>The characters of the text from left to right.\<close>

function substitute :: "bytes list \<Rightarrow> bytes list \<Rightarrow> bytes option" where
  "substitute params [] = Some []"
| "substitute params (c # cs) =
     (if c \<noteq> ''$'' then map_option ((@) c) (substitute params cs)
      else (case cs of
              [] \<Rightarrow> Some ''$''
            | d # ds \<Rightarrow>
                if d = ''*'' then map_option ((@) (join_str '' '' params)) (substitute params ds)
                else if d = ''['' then
                  (let rest = drop 1 (dropWhile (\<lambda>x. x \<noteq> '']'') ds)
                   in case padded (pad_width (takeWhile (\<lambda>x. x \<noteq> '']'') ds)) (param_at params (takeWhile is_digit_char rest)) of
                        None \<Rightarrow> None
                      | Some v \<Rightarrow> map_option ((@) v) (substitute params (dropWhile is_digit_char rest)))
                else if is_digit_char d then
                  map_option ((@) (param_at params (takeWhile is_digit_char cs))) (substitute params (dropWhile is_digit_char cs))
                else map_option ((@) (''$'' @ d)) (substitute params ds)))"
  by pat_completeness auto
termination
proof (relation "measure (\<lambda>(ps, cs). length cs)", goal_cases)
  case (4 params c cs d ds rest)
  have "length (dropWhile is_digit_char rest) \<le> length rest" by (rule take_drop_While_length)
  also have "\<dots> \<le> length ds" unfolding 4(5) using take_drop_While_length [of "\<lambda>x. x \<noteq> '']''" ds] by simp
  finally show ?case using 4(2) by simp
next
  case (5 params c cs d ds)
  then show ?case using take_drop_While_length [of is_digit_char cs] by (simp add: less_Suc_eq_le)
qed auto

definition substitute_vars :: "bytes \<Rightarrow> bytes list \<Rightarrow> bytes option" where
  "substitute_vars input params = substitute params (utf8_chars input)"

section \<open>Abstractions\<close>

text \<open>The text up to the matching brace and the text after it; \<open>depth\<close> counts the open braces.\<close>

fun matching_brace :: "nat \<Rightarrow> bytes list \<Rightarrow> (bytes list \<times> bytes list) option" where
  "matching_brace depth [] = None"
| "matching_brace depth (c # cs) =
     (if c = ''}'' \<and> depth \<le> 1 then Some ([], cs)
      else map_option (\<lambda>(inner, rest). (c # inner, rest))
        (matching_brace (if c = ''{'' then depth + 1 else if c = ''}'' then depth - 1 else depth) cs))"

lemma matching_brace_length: "matching_brace depth cs = Some (inner, rest) \<Longrightarrow> length rest < length cs"
  by (induction depth cs arbitrary: inner rest rule: matching_brace.induct) (auto split: if_splits simp: less_SucI)

fun split_args :: "int \<Rightarrow> bytes \<Rightarrow> bytes list \<Rightarrow> bytes list" where
  "split_args depth current [] = (if current = [] then [] else [current])"
| "split_args depth current (c # cs) =
     (let depth = (if c = ''{'' then depth + 1 else if c = ''}'' then depth - 1 else depth)
      in if c = '' '' \<and> depth = 0 then (if current = [] then [] else [current]) @ split_args depth [] cs
         else split_args depth (current @ c) cs)"

definition split_abstraction_args :: "bytes \<Rightarrow> bytes list" where
  "split_abstraction_args s = split_args 0 [] (utf8_chars s)"

definition max_abstraction_depth :: nat where "max_abstraction_depth = 10"

fun map_opt :: "('a \<Rightarrow> 'b option) \<Rightarrow> 'a list \<Rightarrow> 'b list option" where
  "map_opt f [] = Some []"
| "map_opt f (x # xs) = (case f x of None \<Rightarrow> None | Some y \<Rightarrow> map_option ((#) y) (map_opt f xs))"

lemma map_opt_cong [fundef_cong]: "xs = ys \<Longrightarrow> (\<And>x. x \<in> set ys \<Longrightarrow> f x = g x) \<Longrightarrow> map_opt f xs = map_opt g ys"
  by (induction xs arbitrary: ys) (auto split: option.split)

function resolve_chars :: "(bytes, bytes) table \<Rightarrow> nat \<Rightarrow> bytes list \<Rightarrow> bytes option" where
  "resolve_chars abstracts depth cs =
     (if max_abstraction_depth \<le> depth then Some (concat cs)
      else (case cs of
              [] \<Rightarrow> Some []
            | c # rest \<Rightarrow>
                if c \<noteq> ''{'' then map_option ((@) c) (resolve_chars abstracts depth rest)
                else (case matching_brace 1 rest of
                        None \<Rightarrow> map_option ((@) c) (resolve_chars abstracts depth rest)
                      | Some (inner_chars, rest2) \<Rightarrow>
                          let inner = concat inner_chars;
                              (name, args) = unwrap_or (inner, []) (split_once (CHR 0x20) inner)
                          in (case map_of abstracts name of
                                None \<Rightarrow> map_option ((@) (''{'' @ inner @ ''}'')) (resolve_chars abstracts depth rest2)
                              | Some template \<Rightarrow>
                                  (case map_opt (\<lambda>a. resolve_chars abstracts (depth + 1) (utf8_chars a)) (split_abstraction_args args) of
                                     None \<Rightarrow> None
                                   | Some params \<Rightarrow>
                                       (case substitute_vars template params of
                                          None \<Rightarrow> None
                                        | Some expanded \<Rightarrow>
                                            (case resolve_chars abstracts (depth + 1) (utf8_chars expanded) of
                                               None \<Rightarrow> None
                                             | Some r \<Rightarrow> map_option ((@) r) (resolve_chars abstracts depth rest2)))))))) "
  by pat_completeness auto
termination
  by (relation "measures [\<lambda>(ab, depth, cs). 10 - depth, \<lambda>(ab, depth, cs). length cs]")
     (auto simp: max_abstraction_depth_def less_Suc_eq dest!: matching_brace_length)

declare resolve_chars.simps [simp del]

definition resolve_abstractions :: "bytes \<Rightarrow> (bytes, bytes) table \<Rightarrow> nat \<Rightarrow> bytes option" where
  "resolve_abstractions input abstracts depth =
     (if max_abstraction_depth \<le> depth then Some input else resolve_chars abstracts depth (utf8_chars input))"

section \<open>Format codes\<close>

definition flush :: "style_state \<Rightarrow> bytes \<Rightarrow> styled_span list" where
  "flush st buf = (if buf = [] then [] else [\<lparr>sp_text = buf, sp_style = st\<rparr>])"

text \<open>A byte as a \<open>char\<close>: U+0080 to U+00FF take two bytes.\<close>

definition latin1 :: "char \<Rightarrow> bytes" where
  "latin1 c = (if byte_val c < 128 then [c] else [byte_of (192 + byte_val c div 64), byte_of (128 + byte_val c mod 64)])"

definition digit_of :: "char \<Rightarrow> nat" where "digit_of c = byte_val c - 48"

text \<open>One or two digits at the start of a text, and what follows.\<close>

fun read_digits :: "bytes \<Rightarrow> (nat \<times> bytes) option" where
  "read_digits (a # b # s) =
     (if \<not> is_ascii_digit a then None
      else if is_ascii_digit b then Some (digit_of a * 10 + digit_of b, s) else Some (digit_of a, b # s))"
| "read_digits [a] = (if is_ascii_digit a then Some (digit_of a, []) else None)"
| "read_digits [] = None"

definition read_background :: "bytes \<Rightarrow> (nat \<times> bytes) option" where
  "read_background s = (case s of c # r \<Rightarrow> if c = CHR '','' then read_digits r else None | [] \<Rightarrow> None)"

definition palette :: "nat \<Rightarrow> rgb option \<Rightarrow> rgb option option" where
  "palette n old = (case nth_opt mirc_colors n of None \<Rightarrow> Some old | Some h \<Rightarrow> hex_to_color h)"

text \<open>After \<open>0x03\<close> and after \<open>0x04\<close>: the new style and the text that follows.\<close>

definition mirc_colour :: "style_state \<Rightarrow> bytes \<Rightarrow> (style_state \<times> bytes) option" where
  "mirc_colour st s =
     (case read_digits s of
        None \<Rightarrow> Some (st\<lparr>ss_fg := None, ss_bg := None\<rparr>, s)
      | Some (n, r) \<Rightarrow>
          (case palette n (ss_fg st) of
             None \<Rightarrow> None
           | Some fg \<Rightarrow>
               (case read_background r of
                  None \<Rightarrow> Some (st\<lparr>ss_fg := fg\<rparr>, r)
                | Some (m, r2) \<Rightarrow> map_option (\<lambda>bg. (st\<lparr>ss_fg := fg, ss_bg := bg\<rparr>, r2)) (palette m (ss_bg st)))))"

definition hex_colour :: "style_state \<Rightarrow> bytes \<Rightarrow> (style_state \<times> bytes) option" where
  "hex_colour st s =
     (case read_hex6 s of
        None \<Rightarrow> Some (st\<lparr>ss_fg := None, ss_bg := None\<rparr>, s)
      | Some h \<Rightarrow>
          (case hex_to_color h of
             None \<Rightarrow> None
           | Some fg \<Rightarrow>
               (let r = drop 6 s
                in case (if starts_with '','' r then read_hex6 (drop 1 r) else None) of
                     None \<Rightarrow> Some (st\<lparr>ss_fg := fg\<rparr>, r)
                   | Some h2 \<Rightarrow> map_option (\<lambda>bg. (st\<lparr>ss_fg := fg, ss_bg := bg\<rparr>, drop 7 r)) (hex_to_color h2))))"

text \<open>The codes that only change the style: after \<open>%\<close>, and the control characters.\<close>

definition percent_toggle :: "char \<Rightarrow> style_state \<Rightarrow> style_state option" where
  "percent_toggle c st =
     (if c = CHR ''N'' \<or> c = CHR ''n'' then Some plain_style
      else if c = CHR ''_'' then Some (st\<lparr>ss_bold := \<not> ss_bold st\<rparr>)
      else if c = CHR ''u'' then Some (st\<lparr>ss_underline := \<not> ss_underline st\<rparr>)
      else if c = CHR ''i'' then Some (st\<lparr>ss_italic := \<not> ss_italic st\<rparr>)
      else if c = CHR ''d'' then Some (st\<lparr>ss_dim := \<not> ss_dim st\<rparr>)
      else None)"

definition control_toggle :: "char \<Rightarrow> style_state \<Rightarrow> style_state option" where
  "control_toggle c st =
     (if c = byte_of 2 then Some (st\<lparr>ss_bold := \<not> ss_bold st\<rparr>)
      else if c = byte_of 15 then Some plain_style
      else if c = byte_of 22 then Some (st\<lparr>ss_fg := ss_bg st, ss_bg := ss_fg st\<rparr>)
      else if c = byte_of 29 then Some (st\<lparr>ss_italic := \<not> ss_italic st\<rparr>)
      else if c = byte_of 30 then Some (st\<lparr>ss_dim := \<not> ss_dim st\<rparr>)
      else if c = byte_of 31 then Some (st\<lparr>ss_underline := \<not> ss_underline st\<rparr>)
      else None)"

lemma read_digits_length: "read_digits s = Some (n, r) \<Longrightarrow> length r < length s"
  by (induction s rule: read_digits.induct) (auto split: if_splits)

lemma mirc_colour_length: "mirc_colour st s = Some (st', r) \<Longrightarrow> length r \<le> length s"
  by (fastforce simp: mirc_colour_def read_background_def split: option.splits prod.splits list.splits if_splits
      dest: read_digits_length)

lemma hex_colour_length: "hex_colour st s = Some (st', r) \<Longrightarrow> length r \<le> length s"
  by (auto simp: hex_colour_def Let_def split: option.splits)

text \<open>\<open>walk st buf s\<close>: the spans from here on, with \<open>buf\<close> collected in the style \<open>st\<close>.\<close>

function walk :: "style_state \<Rightarrow> bytes \<Rightarrow> bytes \<Rightarrow> styled_span list option" where
  "walk st buf [] = Some (flush st buf)"
| "walk st buf (b # s) =
     (if b = CHR ''%'' then
        (case s of
           [] \<Rightarrow> Some (flush st (buf @ ''%''))
         | code # r \<Rightarrow>
             (case percent_toggle code st of
                Some st1 \<Rightarrow> map_option ((@) (flush st buf)) (walk st1 [] r)
              | None \<Rightarrow>
                  if code = CHR ''Z'' then
                    (case read_hex6 r of
                       None \<Rightarrow> map_option ((@) (flush st buf)) (walk st ''%Z'' r)
                     | Some h \<Rightarrow>
                         (case hex_to_color h of
                            None \<Rightarrow> None
                          | Some c \<Rightarrow> map_option ((@) (flush st buf)) (walk (st\<lparr>ss_fg := c\<rparr>) [] (drop 6 r))))
                  else if code = CHR ''z'' then
                    (case read_hex6 r of
                       None \<Rightarrow> map_option ((@) (flush st buf)) (walk st ''%z'' r)
                     | Some h \<Rightarrow>
                         (case hex_to_color h of
                            None \<Rightarrow> None
                          | Some c \<Rightarrow> map_option ((@) (flush st buf)) (walk (st\<lparr>ss_bg := c\<rparr>) [] (drop 6 r))))
                  else if code = CHR ''|'' then walk st buf r
                  else if code = CHR ''%'' then walk st (buf @ ''%'') r
                  else
                    (case color_map code of
                       None \<Rightarrow> walk st (buf @ ''%'' @ latin1 code) r
                     | Some h \<Rightarrow>
                         (case hex_to_color h of
                            None \<Rightarrow> None
                          | Some c \<Rightarrow> map_option ((@) (flush st buf)) (walk (st\<lparr>ss_fg := c\<rparr>) [] r)))))
      else if b = byte_of 3 then
        (case mirc_colour st s of
           None \<Rightarrow> None
         | Some (st1, r) \<Rightarrow> map_option ((@) (flush st buf)) (walk st1 [] r))
      else if b = byte_of 4 then
        (case hex_colour st s of
           None \<Rightarrow> None
         | Some (st1, r) \<Rightarrow> map_option ((@) (flush st buf)) (walk st1 [] r))
      else if b = byte_of 17 then walk st buf s
      else
        (case control_toggle b st of
           Some st1 \<Rightarrow> map_option ((@) (flush st buf)) (walk st1 [] s)
         | None \<Rightarrow>
             if is_cont b then None
             else let n = utf8_len (b # s) - 1 in walk st (buf @ b # take n s) (drop n s)))"
  by pat_completeness auto
termination
  by (relation "measure (\<lambda>(st, buf, s). length s)")
     (auto simp: less_Suc_eq_le dest!: mirc_colour_length hex_colour_length)

definition parse_spans :: "bytes \<Rightarrow> styled_span list option" where
  "parse_spans body =
     map_option (\<lambda>spans. if spans = [] then [\<lparr>sp_text = [], sp_style = plain_style\<rparr>] else spans) (walk plain_style [] body)"

definition parse_format_string :: "bytes \<Rightarrow> bytes list \<Rightarrow> styled_span list option" where
  "parse_format_string input params = Option.bind (substitute_vars input params) parse_spans"

section \<open>The fallback theme\<close>

record theme_meta =
  tm_name :: bytes
  tm_description :: bytes

record theme_colors =
  tc_bg :: bytes
  tc_bg_alt :: bytes
  tc_border :: bytes
  tc_fg :: bytes
  tc_fg_muted :: bytes
  tc_fg_dim :: bytes
  tc_accent :: bytes
  tc_cursor :: bytes

record theme_formats =
  tf_messages :: "(bytes, bytes) table"
  tf_events :: "(bytes, bytes) table"
  tf_sidepanel :: "(bytes, bytes) table"
  tf_nicklist :: "(bytes, bytes) table"

record theme_file =
  th_meta :: theme_meta
  th_colors :: theme_colors
  th_abstracts :: "(bytes, bytes) table"
  th_formats :: theme_formats

definition default_colors :: theme_colors where
  "default_colors = \<lparr>
     tc_bg = ''#1a1b26'', tc_bg_alt = ''#16161e'', tc_border = ''#292e42'', tc_fg = ''#a9b1d6'',
     tc_fg_muted = ''#565f89'', tc_fg_dim = ''#292e42'', tc_accent = ''#7aa2f7'', tc_cursor = ''#7aa2f7''\<rparr>"

definition default_formats :: theme_formats where
  "default_formats = \<lparr>
     tf_messages = [(''pubmsg'', ''$0 $1''), (''own_msg'', ''$0 $1''), (''notice'', ''-$0- $1'')],
     tf_events = [],
     tf_sidepanel = [(''header'', ''$0''), (''item'', ''$0. $1''), (''item_selected'', ''> $0. $1'')],
     tf_nicklist = [(''normal'', '' $0'')]\<rparr>"

definition default_theme :: theme_file where
  "default_theme = \<lparr>
     th_meta = \<lparr>tm_name = ''Fallback'', tm_description = ''Minimal fallback theme''\<rparr>,
     th_colors = default_colors,
     th_abstracts = [(''timestamp'', ''$*''), (''msgnick'', ''$0$1> ''), (''ownnick'', ''$*''), (''pubnick'', ''$*'')],
     th_formats = default_formats\<rparr>"

end
