(* ===== verification/Ui_Message.thy ===== *)
theory Ui_Message
  imports Theme Irc_Chat
begin

text \<open>
  The lines the terminal shows: \<open>src/src/ui/message_line.rs\<close>, the emote tokens of
  \<open>src/src/emotes/parse.rs\<close> with their placeholders (\<open>src/src/ui/emote_layout.rs\<close>),
  the nick list and the buffer list (\<open>src/src/ui/nick_list.rs\<close>, \<open>buffer_list.rs\<close>)
  up to the spans handed to the terminal library.  Display widths (the
  unicode-width crate), the registry of emotes, the formatted time and the colour
  of a nick are arguments.
\<close>

declare map_of_eq_Some_iff [simp del] show_nat.simps [simp del]

section \<open>Widths\<close>

record ui_env =
  ue_width :: "bytes \<Rightarrow> nat"
  ue_char_width :: "bytes \<Rightarrow> nat"
  ue_resolve :: "bytes \<Rightarrow> u32 option"

fun fitting :: "(bytes \<Rightarrow> nat) \<Rightarrow> nat \<Rightarrow> nat \<Rightarrow> bytes list \<Rightarrow> bytes list" where
  "fitting w budget used [] = []"
| "fitting w budget used (c # cs) = (if budget < used + w c then [] else c # fitting w budget (used + w c) cs)"

definition truncate_with_plus :: "ui_env \<Rightarrow> bytes \<Rightarrow> nat \<Rightarrow> bytes" where
  "truncate_with_plus ue s max_len =
     (if max_len = 0 then []
      else if ue_width ue s \<le> max_len then s
      else if max_len \<le> 1 then ''+''
      else concat (fitting (ue_char_width ue) (max_len - 1) 0 (utf8_chars s)) @ ''+'')"

definition visible_len :: "ui_env \<Rightarrow> styled_span list \<Rightarrow> nat" where
  "visible_len ue spans = sum_list (map (ue_width ue \<circ> sp_text) spans)"

section \<open>Emotes\<close>

datatype segment = TextSegment nat nat | EmoteSegment bytes

definition is_name_byte :: "char \<Rightarrow> bool" where
  "is_name_byte b \<longleftrightarrow> in_range 97 122 b \<or> is_ascii_digit b \<or> b = CHR ''_''"

definition name_at :: "bytes \<Rightarrow> nat \<Rightarrow> bytes" where
  "name_at body i = takeWhile is_name_byte (drop (i + 1) body)"

text \<open>The known emote that starts at a colon.\<close>

definition emote_at :: "(bytes \<Rightarrow> bool) \<Rightarrow> bytes \<Rightarrow> nat \<Rightarrow> bytes option" where
  "emote_at known body i =
     (let name = name_at body i; j = i + 1 + length name
      in if body ! i = CHR '':'' \<and> j < length body \<and> body ! j = CHR '':'' \<and> name \<noteq> [] \<and> known name then Some name else None)"

function tokenize_from :: "(bytes \<Rightarrow> bool) \<Rightarrow> bytes \<Rightarrow> nat \<Rightarrow> nat \<Rightarrow> segment list" where
  "tokenize_from known body text_start i =
     (if i < length body then
        (case emote_at known body i of
           Some name \<Rightarrow>
             (if text_start < i then [TextSegment text_start i] else []) @ EmoteSegment name #
             tokenize_from known body (i + length name + 2) (i + length name + 2)
         | None \<Rightarrow> tokenize_from known body text_start (i + 1))
      else if text_start < length body then [TextSegment text_start (length body)] else [])"
  by pat_completeness auto
termination by (relation "measure (\<lambda>(known, body, text_start, i). length body - i)") auto

declare tokenize_from.simps [simp del]

definition tokenize_with :: "(bytes \<Rightarrow> bool) \<Rightarrow> bytes \<Rightarrow> segment list" where
  "tokenize_with known body = tokenize_from known body 0 0"

text \<open>The UTF-8 bytes of a code point, and \<open>char::from_u32\<close> with its replacement.\<close>

definition utf8_encode :: "nat \<Rightarrow> bytes" where
  "utf8_encode cp =
     (if cp < 128 then [byte_of cp]
      else if cp < 2048 then [byte_of (192 + cp div 64), byte_of (128 + cp mod 64)]
      else if cp < 65536 then [byte_of (224 + cp div 4096), byte_of (128 + cp div 64 mod 64), byte_of (128 + cp mod 64)]
      else [byte_of (240 + cp div 262144), byte_of (128 + cp div 4096 mod 64), byte_of (128 + cp div 64 mod 64), byte_of (128 + cp mod 64)])"

definition char_from_u32 :: "nat \<Rightarrow> nat" where
  "char_from_u32 n = (if n \<le> 1114111 \<and> \<not> (55296 \<le> n \<and> n \<le> 57343) then n else 65533)"

definition emote_cols :: nat where "emote_cols = 2"
definition pua_base :: u32 where "pua_base = 983040"

definition placeholder_for_index :: "u32 \<Rightarrow> bytes" where
  "placeholder_for_index index = concat (replicate emote_cols (utf8_encode (char_from_u32 (unat (pua_base + index)))))"

definition show_segment :: "ui_env \<Rightarrow> bytes \<Rightarrow> segment \<Rightarrow> bytes" where
  "show_segment ue body seg =
     (case seg of
        TextSegment a b \<Rightarrow> take (b - a) (drop a body)
      | EmoteSegment name \<Rightarrow>
          (case ue_resolve ue name of Some idx \<Rightarrow> placeholder_for_index idx | None \<Rightarrow> '':'' @ name @ '':''))"

definition is_emote_segment :: "segment \<Rightarrow> bool" where
  "is_emote_segment seg \<longleftrightarrow> (case seg of EmoteSegment _ \<Rightarrow> True | TextSegment _ _ \<Rightarrow> False)"

definition emotify_message_text :: "ui_env \<Rightarrow> bytes \<Rightarrow> bool \<Rightarrow> bytes" where
  "emotify_message_text ue body graphical =
     (let segs = tokenize_with (\<lambda>n. ue_resolve ue n \<noteq> None) body
      in if \<not> graphical \<or> CHR '':'' \<notin> set body then body
         else if \<not> list_ex is_emote_segment segs then body
         else concat (map (show_segment ue body) segs))"

section \<open>Messages\<close>

datatype nick_alignment = AlignLeft | AlignRight | AlignCenter

record display_config =
  dy_nick_column_width :: nat
  dy_nick_max_length :: nat
  dy_nick_alignment :: nick_alignment
  dy_nick_truncation :: bool

definition spaces :: "nat \<Rightarrow> bytes" where "spaces n = replicate n (CHR 0x20)"

definition render_event :: "theme_file \<Rightarrow> message \<Rightarrow> styled_span list option" where
  "render_event th m =
     (case Option.bind (ms_event_key m) (map_of (tf_events (th_formats th))) of
        Some format \<Rightarrow>
          Option.bind (resolve_abstractions format (th_abstracts th) 0)
            (\<lambda>resolved. parse_format_string resolved (unwrap_or [] (ms_event_params m)))
      | None \<Rightarrow> parse_format_string (ms_text m) [])"

text \<open>The nick as shown, and the mode with its padding.\<close>

definition nick_column :: "ui_env \<Rightarrow> display_config \<Rightarrow> bytes \<Rightarrow> bytes \<Rightarrow> bytes \<times> bytes" where
  "nick_column ue dc nick mode =
     (let shown = (if dy_nick_truncation dc then truncate_with_plus ue nick (dy_nick_max_length dc - ue_width ue mode) else nick);
          pad = dy_nick_column_width dc - (ue_width ue mode + ue_width ue shown)
      in case dy_nick_alignment dc of
           AlignRight \<Rightarrow> (shown, spaces pad @ mode)
         | AlignCenter \<Rightarrow> (shown @ spaces (pad - pad div 2), spaces (pad div 2) @ mode)
         | AlignLeft \<Rightarrow> (shown @ spaces pad, mode))"

definition message_format_key :: "message \<Rightarrow> bool \<Rightarrow> bytes" where
  "message_format_key m is_own =
     (if ms_type m = MsgAction then ''action''
      else if ms_type m = MsgNotice then ''notice''
      else if is_own then ''own_msg''
      else if ms_highlight m then ''pubmsg_mention''
      else ''pubmsg'')"

definition recolour :: "rgb option \<Rightarrow> bytes \<Rightarrow> styled_span list \<Rightarrow> styled_span list" where
  "recolour colour nick spans =
     (case colour of
        None \<Rightarrow> spans
      | Some c \<Rightarrow>
          map (\<lambda>sp. if sp_text sp \<noteq> [] \<and> eq_ignore_ascii_case (trim (sp_text sp)) nick
                     then sp\<lparr>sp_style := (sp_style sp)\<lparr>ss_fg := Some c\<rparr>\<rparr> else sp) spans)"

definition render_chat_message ::
  "ui_env \<Rightarrow> display_config \<Rightarrow> theme_file \<Rightarrow> rgb option \<Rightarrow> bool \<Rightarrow> message \<Rightarrow> bool \<Rightarrow> styled_span list option" where
  "render_chat_message ue dc th colour graphical m is_own =
     (let (nick, mode) = nick_column ue dc (unwrap_or [] (ms_nick m)) (unwrap_or [] (ms_nick_mode m));
          format = unwrap_or ''$0 $1'' (map_of (tf_messages (th_formats th)) (message_format_key m is_own))
      in Option.bind (resolve_abstractions format (th_abstracts th) 0)
           (\<lambda>resolved. map_option (recolour colour nick)
             (parse_format_string resolved [nick, emotify_message_text ue (ms_text m) graphical, mode])))"

definition render_message ::
  "ui_env \<Rightarrow> display_config \<Rightarrow> theme_file \<Rightarrow> rgb option \<Rightarrow> bool \<Rightarrow> bytes \<Rightarrow> message \<Rightarrow> bool \<Rightarrow> styled_span list option" where
  "render_message ue dc th colour graphical ts m is_own =
     (if ms_type m = MsgMentionLog then parse_format_string (emotify_message_text ue (ms_text m) graphical) []
      else
        Option.bind (resolve_abstractions (unwrap_or ''$*'' (map_of (th_abstracts th) ''timestamp'')) (th_abstracts th) 0) (\<lambda>format.
        Option.bind (parse_format_string format [ts]) (\<lambda>ts_spans.
        map_option (\<lambda>spans. ts_spans @ [\<lparr>sp_text = '' '', sp_style = plain_style\<rparr>] @ spans)
          (if ms_type m = MsgEvent then render_event th m
           else render_chat_message ue dc th colour graphical m is_own))))"

definition topic_spans :: "bytes option \<Rightarrow> styled_span list option" where
  "topic_spans topic = (case topic of None \<Rightarrow> Some [] | Some t \<Rightarrow> parse_format_string t [])"

section \<open>Side panels\<close>

text \<open>A text is parsed in full, and parsed again with its name cut when it does not fit.\<close>

definition fit_name :: "ui_env \<Rightarrow> bytes \<Rightarrow> bytes list \<Rightarrow> bytes \<Rightarrow> nat \<Rightarrow> styled_span list option" where
  "fit_name ue resolved before name panel_width =
     (case parse_format_string resolved (before @ [name]) of
        None \<Rightarrow> None
      | Some full \<Rightarrow>
          let fixed = sum_list (map (length \<circ> utf8_chars) before); name_chars = length (utf8_chars name);
              overhead = visible_len ue full - (name_chars + fixed);
              max_len = panel_width - (1 + overhead + fixed)
          in if max_len < name_chars then parse_format_string resolved (before @ [truncate_with_plus ue name max_len])
             else Some full)"

definition nick_rank :: "bytes \<Rightarrow> bytes" where
  "nick_rank pfx =
     (case utf8_chars pfx of
        [] \<Rightarrow> ''normal''
      | c # _ \<Rightarrow>
          if c = ''~'' then ''owner'' else if c = ''&'' then ''admin'' else if c = ''@'' then ''op''
          else if c = ''%'' then ''halfop'' else if c = ''+'' then ''voice'' else ''normal'')"

definition nick_line :: "ui_env \<Rightarrow> theme_file \<Rightarrow> nat \<Rightarrow> rgb option \<Rightarrow> nick_entry \<Rightarrow> styled_span list option" where
  "nick_line ue th panel_width colour e =
     (let formats = tf_nicklist (th_formats th); rank = nick_rank (ne_prefix e); away_key = ''away_'' @ rank;
          key = (if ne_away e \<and> map_of formats away_key \<noteq> None then away_key else rank)
      in Option.bind (resolve_abstractions (unwrap_or '' $0'' (map_of formats key)) (th_abstracts th) 0)
           (\<lambda>resolved. map_option (recolour (if ne_away e then None else colour) (ne_nick e))
             (fit_name ue resolved [] (ne_nick e) panel_width)))"

definition nick_lines ::
  "ui_env \<Rightarrow> (bytes \<Rightarrow> bytes) \<Rightarrow> theme_file \<Rightarrow> nat \<Rightarrow> (bytes \<Rightarrow> rgb option) \<Rightarrow> buffer \<Rightarrow> styled_span list list option" where
  "nick_lines ue lower th panel_width colour b =
     map_opt (\<lambda>e. nick_line ue th panel_width (colour (ne_nick e)) e)
       (sort_nicks lower default_prefix_order (map snd (bf_users b)))"

definition buffer_format_key :: "buffer \<Rightarrow> bool \<Rightarrow> bytes" where
  "buffer_format_key b is_active =
     (let is_server = (bf_type b = Server)
      in if is_active then (if is_server then ''item_server_selected'' else ''item_selected'')
         else if is_server then ''item_server''
         else ''item_activity_'' @ show_nat (activity_num (bf_activity b)))"

definition buffer_line ::
  "ui_env \<Rightarrow> theme_file \<Rightarrow> nat \<Rightarrow> app_state \<Rightarrow> nat \<Rightarrow> buffer \<Rightarrow> styled_span list option" where
  "buffer_line ue th panel_width s num b =
     (let formats = tf_sidepanel (th_formats th); key = buffer_format_key b (st_active s = Some (bf_id b));
          format = (case map_of formats key of Some f \<Rightarrow> f | None \<Rightarrow> unwrap_or ''$0. $1'' (map_of formats ''item''));
          name = (if bf_type b = Server then connection_label s (bf_connection_id b) else bf_name b)
      in Option.bind (resolve_abstractions format (th_abstracts th) 0)
           (\<lambda>resolved. fit_name ue resolved [show_nat num] name panel_width))"

text \<open>The default status buffer is skipped and has no number.\<close>

definition buffer_lines :: "ui_env \<Rightarrow> (bytes \<Rightarrow> bytes) \<Rightarrow> theme_file \<Rightarrow> nat \<Rightarrow> app_state \<Rightarrow> styled_span list list option" where
  "buffer_lines ue lower th panel_width s =
     (let shown = filter (\<lambda>b. bf_connection_id b \<noteq> ''_default'')
            (List.map_filter (map_of (st_buffers s)) (sorted_buffer_ids lower s))
      in map_opt (\<lambda>(i, b). buffer_line ue th panel_width s i b) (zip [1..<length shown + 1] shown))"

end
