(* ===== verification/Theme_Properties.thy ===== *)
theory Theme_Properties
  imports Ui_Message
begin

text \<open>
  Properties of the format parser: when it panics, that plain text is shown as it
  is, that what is shown agrees with what stripping leaves, and that emote tokens
  lose nothing; and what a message from the network can do to the client.
\<close>

declare map_of_eq_Some_iff [simp del] show_nat.simps [simp del] walk.simps(2) [simp del]

section \<open>Panics of the parser\<close>

text \<open>A percent sign, read from left to right in pairs, before a character beyond ASCII.\<close>

fun percent_before_wide :: "bytes \<Rightarrow> bool" where
  "percent_before_wide [] = False"
| "percent_before_wide (b # s) =
     (if b = CHR ''%'' then (case s of [] \<Rightarrow> False | c # r \<Rightarrow> 128 \<le> byte_val c \<or> percent_before_wide r)
      else percent_before_wide s)"

lemma hexdigit_ascii: "is_ascii_hexdigit c \<Longrightarrow> byte_val c < 128 \<and> c \<noteq> CHR ''%''"
  by (auto simp: is_ascii_hexdigit_def is_ascii_digit_def in_range_def)

lemma hexdigit_value: "is_ascii_hexdigit c \<Longrightarrow> hex_digit c \<noteq> None \<and> c \<noteq> CHR ''+'' \<and> c \<noteq> CHR ''#''"
  by (auto simp: is_ascii_hexdigit_def is_ascii_digit_def hex_digit_def in_range_def)

lemma ascii_boundary: "(\<And>c. c \<in> set s \<Longrightarrow> byte_val c < 128) \<Longrightarrow> i \<le> length s \<Longrightarrow> is_char_boundary s i"
  by (auto simp: is_char_boundary_def is_cont_def in_range_def) (meson not_le nth_mem)+

lemma hex_digits_color:
  assumes "length h = 6" "list_all is_ascii_hexdigit h"
  shows "hex_to_color h \<noteq> None" "hex_to_color (CHR ''#'' # h) \<noteq> None"
proof -
  obtain a b c d e f where eq: "h = [a, b, c, d, e, f]" using assms(1) by (auto simp: numeral_eq_Suc length_Suc_conv)
  have ascii: "is_char_boundary h i" if "i \<le> 6" for i
    by (rule ascii_boundary) (use assms that hexdigit_ascii in \<open>auto simp: list_all_iff\<close>)
  have "a \<noteq> CHR ''#''" using assms(2) hexdigit_value by (simp add: eq)
  then have "strip_prefix ''#'' h = None" by (simp add: eq)
  moreover have "strip_prefix ''#'' (CHR ''#'' # h) = Some h" by simp
  ultimately have "unwrap_or h (strip_prefix ''#'' h) = h" "unwrap_or (CHR ''#'' # h) (strip_prefix ''#'' (CHR ''#'' # h)) = h"
    by (simp_all add: unwrap_or_def)
  moreover have "six_digits h \<noteq> None" using ascii [of 2] ascii [of 4] by (simp add: eq six_digits_def split: option.split)
  ultimately show "hex_to_color h \<noteq> None" "hex_to_color (CHR ''#'' # h) \<noteq> None"
    by (simp_all only: hex_to_color_def not_False_eq_True)
qed

lemma hex6_color: "read_hex6 s = Some h \<Longrightarrow> hex_to_color h \<noteq> None"
  by (rule hex_digits_color(1)) (auto simp: read_hex6_def split: if_splits)

definition hash_hex6 :: "bytes \<Rightarrow> bool" where
  "hash_hex6 h \<longleftrightarrow> (case h of c # r \<Rightarrow> c = CHR ''#'' \<and> length r = 6 \<and> list_all is_ascii_hexdigit r | [] \<Rightarrow> False)"

lemma hash_hex6_color: "hash_hex6 h \<Longrightarrow> hex_to_color h \<noteq> None"
  using hex_digits_color(2) by (auto simp: hash_hex6_def split: list.splits)

lemma palette_ok: "palette n old \<noteq> None"
proof -
  have "list_all hash_hex6 mirc_colors"
    unfolding mirc_colors_def hash_hex6_def is_ascii_hexdigit_def is_ascii_digit_def in_range_def by simp
  then have "hash_hex6 h" if "nth_opt mirc_colors n = Some h" for h
    using that by (auto simp: nth_opt_def list_all_length split: if_splits)
  then show ?thesis using hash_hex6_color by (fastforce simp: palette_def split: option.split)
qed

lemma color_map_ok: "color_map c = Some h \<Longrightarrow> hex_to_color h \<noteq> None"
proof (rule hash_hex6_color)
  define hs where "hs = [''#000000'', ''#555555'', ''#aa0000'', ''#ff5555'', ''#00aa00'', ''#55ff55'', ''#aa5500'', ''#ffff55'', ''#0000aa'',
     ''#5555ff'', ''#aa00aa'', ''#ff55ff'', ''#00aaaa'', ''#55ffff'', ''#aaaaaa'', ''#ffffff'']"
  have "list_all hash_hex6 hs"
    unfolding hs_def hash_hex6_def is_ascii_hexdigit_def is_ascii_digit_def in_range_def by simp
  moreover assume "color_map c = Some h"
  then have "h \<in> set hs" unfolding hs_def by (simp add: color_map_def split: if_splits)
  ultimately show "hash_hex6 h" by (simp only: list_all_iff)
qed

text \<open>Codes and their arguments are ASCII: what follows them is text again.\<close>

lemma ascii_head: "byte_val b < 128 \<Longrightarrow> utf8_valid (b # s) \<longleftrightarrow> utf8_valid s"
  by (subst utf8_valid.simps) (simp add: Let_def utf8_len_def utf8_lead.simps in_range_def)

lemma pbw_skip: "b \<noteq> CHR ''%'' \<Longrightarrow> percent_before_wide (b # s) = percent_before_wide s" by simp

lemma skip_ascii:
  "(\<And>c. c \<in> set u \<Longrightarrow> byte_val c < 128 \<and> c \<noteq> CHR ''%'') \<Longrightarrow>
   utf8_valid (u @ s) = utf8_valid s \<and> percent_before_wide (u @ s) = percent_before_wide s"
  by (induction u) (simp_all add: ascii_head)

text \<open>\<open>r\<close> is what is left of \<open>s\<close> after some ASCII characters other than a percent sign.\<close>

definition passed :: "bytes \<Rightarrow> bytes \<Rightarrow> bool" where
  "passed s r \<longleftrightarrow> (\<exists>u. s = u @ r \<and> (\<forall>c\<in>set u. byte_val c < 128 \<and> c \<noteq> CHR ''%''))"

lemma passed_refl [simp]: "passed s s"
  unfolding passed_def by (rule exI [of _ "[]"]) simp

lemma passed_trans: "passed s r \<Longrightarrow> passed r q \<Longrightarrow> passed s q"
  unfolding passed_def by (metis Un_iff append.assoc set_append)

lemma passed_Cons: "byte_val c < 128 \<Longrightarrow> c \<noteq> CHR ''%'' \<Longrightarrow> passed (c # s) s"
  unfolding passed_def by (rule exI [of _ "[c]"]) simp

lemma passed_take: "(\<And>c. c \<in> set (take n s) \<Longrightarrow> byte_val c < 128 \<and> c \<noteq> CHR ''%'') \<Longrightarrow> passed s (drop n s)"
  unfolding passed_def by (rule exI [of _ "take n s"]) simp

lemma passed_same: "passed s r \<Longrightarrow> utf8_valid r = utf8_valid s \<and> percent_before_wide r = percent_before_wide s \<and> length r \<le> length s"
  using skip_ascii by (fastforce simp: passed_def)

lemma passed_hex6: "read_hex6 s = Some h \<Longrightarrow> passed s (drop 6 s)"
  by (rule passed_take) (use hexdigit_ascii in \<open>auto simp: read_hex6_def list_all_iff split: if_splits\<close>)

lemma digit_ascii: "is_ascii_digit c \<Longrightarrow> byte_val c < 128 \<and> c \<noteq> CHR ''%''"
  by (auto simp: is_ascii_digit_def in_range_def)

lemma passed_digits: "read_digits s = Some (n, r) \<Longrightarrow> passed s r"
proof (induction s rule: read_digits.induct)
  case (1 a b s)
  then show ?case using digit_ascii [of a] digit_ascii [of b]
    by (auto split: if_splits intro: passed_Cons passed_trans [OF passed_Cons])
next
  case (2 a)
  then show ?case using digit_ascii [of a] by (auto split: if_splits intro: passed_Cons)
qed simp

lemma passed_background: "read_background s = Some (n, r) \<Longrightarrow> passed s r"
  by (auto simp: read_background_def split: list.splits if_splits intro: passed_trans [OF passed_Cons] passed_digits)

lemma passed_mirc: "mirc_colour st s = Some (st', r) \<Longrightarrow> passed s r"
proof (cases "read_digits s")
  case (Some q)
  obtain n t where q: "q = (n, t)" by (cases q)
  assume "mirc_colour st s = Some (st', r)"
  then have "r = t \<or> (\<exists>m. read_background t = Some (m, r))"
    using Some q by (auto simp: mirc_colour_def split: option.splits prod.splits)
  then show ?thesis using passed_digits [of s n t] passed_background [of t _ r] passed_trans [of s t r] Some q by auto
qed (simp add: mirc_colour_def)

lemma passed_hex: "hex_colour st s = Some (st', r) \<Longrightarrow> passed s r"
proof (cases "read_hex6 s")
  case (Some h)
  let ?t = "drop 6 s"
  assume run: "hex_colour st s = Some (st', r)"
  show ?thesis
  proof (cases "starts_with '','' ?t \<and> read_hex6 (drop 1 ?t) \<noteq> None")
    case True
    then obtain t2 where t: "?t = CHR '','' # t2" by (auto simp: starts_with_iff)
    have "drop 1 ?t = t2" unfolding t by simp
    with True have "read_hex6 t2 \<noteq> None" by (simp only: not_False_eq_True)
    then obtain h2 where "read_hex6 t2 = Some h2" by blast
    with t have t2: "?t = CHR '','' # t2" "read_hex6 t2 = Some h2" by simp_all
    then have "r = drop 7 ?t" using run Some True by (auto simp: hex_colour_def Let_def split: option.splits if_splits)
    then have "r = drop 6 t2" by (simp add: t2(1))
    moreover have "passed ?t t2" unfolding t2(1) by (rule passed_Cons) simp_all
    ultimately show ?thesis using passed_hex6 [OF Some] passed_hex6 [OF t2(2)] by (blast intro: passed_trans)
  next
    case False
    then have "r = ?t" using run Some by (auto simp: hex_colour_def Let_def split: option.splits if_splits)
    then show ?thesis using passed_hex6 [OF Some] by simp
  qed
qed (simp add: hex_colour_def)

lemma mirc_ok: "mirc_colour st s \<noteq> None"
proof (cases "read_digits s")
  case (Some q)
  obtain n r where q: "q = (n, r)" by (cases q)
  obtain fg where fg: "palette n (ss_fg st) = Some fg" using palette_ok [of n "ss_fg st"] by auto
  show ?thesis
  proof (cases "read_background r")
    case (Some p)
    then show ?thesis using \<open>read_digits s = Some q\<close> palette_ok [of "fst p" "ss_bg st"] by (cases p) (simp add: mirc_colour_def q fg)
  qed (use Some in \<open>simp add: mirc_colour_def q fg\<close>)
qed (simp add: mirc_colour_def)

lemma hex_ok': "hex_colour st s \<noteq> None"
  by (auto simp: hex_colour_def Let_def split: option.splits if_splits dest: hex6_color)

lemma code_values: "byte_val (byte_of n) = n mod 256" by simp

lemma control_ascii: "control_toggle b st = Some st' \<Longrightarrow> byte_val b < 128 \<and> b \<noteq> CHR ''%''"
  by (simp add: control_toggle_def split: if_splits) (simp_all add: char_of_def)

lemma wide_next: "utf8_valid (c # r) \<Longrightarrow> 128 \<le> byte_val c \<Longrightarrow> \<exists>x r'. r = x # r' \<and> is_cont x"
proof -
  assume valid: "utf8_valid (c # r)" and wide: "128 \<le> byte_val c"
  have "1 < utf8_len (c # r)"
  proof (rule ccontr)
    assume "\<not> 1 < utf8_len (c # r)"
    then have "utf8_len (c # r) = 1" using valid by (auto simp: utf8_valid_Cons)
    then show False using wide by (auto simp: utf8_len_def utf8_lead.simps split: if_splits prod.splits)
  qed
  then show ?thesis using utf8_len_tail_cont [of 1 "c # r"] utf8_len_le [of "c # r"] by (cases r) auto
qed

lemma cont_codes: "is_cont x \<Longrightarrow> x \<noteq> CHR ''%'' \<and> x \<noteq> byte_of 3 \<and> x \<noteq> byte_of 4 \<and> x \<noteq> byte_of 17 \<and> control_toggle x st = None"
  by (auto simp: is_cont_def control_toggle_def)

lemma walk_cont:
  assumes "b \<noteq> CHR ''%''" "b \<noteq> byte_of 3" "b \<noteq> byte_of 4" "b \<noteq> byte_of 17" "control_toggle b st = None" "is_cont b"
  shows "walk st buf (b # s) = None"
  using assms by (simp add: walk.simps(2) Let_def)

lemma walk_ordinary:
  assumes "b \<noteq> CHR ''%''" "b \<noteq> byte_of 3" "b \<noteq> byte_of 4" "b \<noteq> byte_of 17" "control_toggle b st = None" "\<not> is_cont b"
  shows "walk st buf (b # s) = walk st (buf @ b # take (utf8_len (b # s) - 1) s) (drop (utf8_len (b # s) - 1) s)"
  using assms by (simp add: walk.simps(2) Let_def)

lemma cont_walk: "is_cont x \<Longrightarrow> walk st buf (x # r) = None"
  using cont_codes [of x st] walk_cont by blast

lemma cont_no_percent: "(\<And>c. c \<in> set u \<Longrightarrow> is_cont c) \<Longrightarrow> percent_before_wide (u @ s) = percent_before_wide s"
proof (induction u)
  case (Cons c u)
  have "c \<noteq> CHR ''%''" using Cons.prems [of c] cont_codes [of c] by simp
  then show ?case using Cons by simp
qed simp

text \<open>An ordinary character is passed over whole.\<close>

lemma skip_char:
  assumes "utf8_valid (b # s)" "b \<noteq> CHR ''%''"
  shows "utf8_valid (drop (utf8_len (b # s) - 1) s) \<and> percent_before_wide (drop (utf8_len (b # s) - 1) s) = percent_before_wide s"
proof -
  let ?k = "utf8_len (b # s)"
  have k: "0 < ?k" "utf8_valid (drop ?k (b # s))" using assms(1) by (auto simp: utf8_valid_Cons)
  have "is_cont c" if "c \<in> set (take (?k - 1) s)" for c
  proof -
    have "\<exists>i<length (take (?k - 1) s). take (?k - 1) s ! i = c" using that by (simp only: in_set_conv_nth)
    then obtain i where "i < length (take (?k - 1) s)" "c = take (?k - 1) s ! i" by blast
    then show ?thesis using utf8_len_tail_cont [of "i + 1" "b # s"] by (simp add: less_diff_conv)
  qed
  then have "percent_before_wide (take (?k - 1) s @ drop (?k - 1) s) = percent_before_wide (drop (?k - 1) s)"
    by (rule cont_no_percent)
  moreover have "drop ?k (b # s) = drop (?k - 1) s" using k(1) by (cases ?k) auto
  ultimately show ?thesis using k(2) by simp
qed

lemma map_opt_None [simp]: "map_option f x = None \<longleftrightarrow> x = None" by (cases x) auto

lemma wide_codes: "128 \<le> byte_val code \<Longrightarrow> byte_val c < 128 \<Longrightarrow> code \<noteq> c" by auto

lemma no_toggle:
  "percent_toggle CHR ''Z'' st = None" "percent_toggle CHR ''z'' st = None"
  "percent_toggle CHR ''|'' st = None" "percent_toggle CHR ''%'' st = None"
  by (simp_all add: percent_toggle_def)

lemmas walk_percent = walk.simps(2) [of _ _ "CHR ''%''" "code # r" for code r, simplified]

lemma percent_step:
  assumes IH: "\<And>s' st buf. length s' \<le> length r \<Longrightarrow> utf8_valid s' \<Longrightarrow> walk st buf s' = None \<longleftrightarrow> percent_before_wide s'"
    and valid: "utf8_valid (code # r)"
  shows "walk st buf (CHR ''%'' # code # r) = None \<longleftrightarrow> percent_before_wide (CHR ''%'' # code # r)"
proof (cases "128 \<le> byte_val code")
  case wide: True
  have ne: "code \<noteq> CHR ''Z''" "code \<noteq> CHR ''z''" "code \<noteq> CHR ''|''" "code \<noteq> CHR ''%''" using wide by auto
  have "percent_toggle code st = None" using wide_codes [OF wide] by (simp add: percent_toggle_def)
  moreover have "color_map code = None" using wide_codes [OF wide] by (simp add: color_map_def)
  ultimately have "walk st buf (CHR ''%'' # code # r) = walk st (buf @ ''%'' @ latin1 code) r"
    using ne by (simp add: walk_percent)
  moreover obtain x r' where "r = x # r'" "is_cont x" using wide_next [OF valid wide] by blast
  ultimately show ?thesis using wide by (simp add: cont_walk)
next
  case False
  then have r: "utf8_valid r" using valid by (simp add: ascii_head)
  have here: "walk st' buf' r = None \<longleftrightarrow> percent_before_wide r" for st' buf' using IH r by simp
  have hex: "walk st' buf' (drop 6 r) = None \<longleftrightarrow> percent_before_wide r" if "read_hex6 r \<noteq> None" for st' buf'
    using that IH [of "drop 6 r"] passed_same [OF passed_hex6] r by fastforce
  have "percent_before_wide (CHR ''%'' # code # r) \<longleftrightarrow> percent_before_wide r" using False by simp
  moreover have "walk st buf (CHR ''%'' # code # r) = None \<longleftrightarrow> percent_before_wide r"
  proof (cases "percent_toggle code st")
    case None
    consider "code = CHR ''Z'' \<or> code = CHR ''z''" | "code = CHR ''|'' \<or> code = CHR ''%''"
      | "code \<noteq> CHR ''Z''" "code \<noteq> CHR ''z''" "code \<noteq> CHR ''|''" "code \<noteq> CHR ''%''" by blast
    then show ?thesis
    proof cases
      case 1
      show ?thesis
      proof (cases "read_hex6 r")
        case None
        then show ?thesis using 1 by (elim disjE) (simp_all add: walk_percent no_toggle None here)
      next
        case (Some h)
        then obtain c where "hex_to_color h = Some c" using hex6_color by fastforce
        then show ?thesis using 1 Some by (elim disjE) (simp_all add: walk_percent no_toggle hex)
      qed
    next
      case 2
      then show ?thesis by (elim disjE) (simp_all add: walk_percent no_toggle here)
    next
      case 3
      show ?thesis
      proof (cases "color_map code")
        case (Some h)
        then obtain c where "hex_to_color h = Some c" using color_map_ok by fastforce
        then show ?thesis by (simp add: walk_percent \<open>percent_toggle code st = None\<close> 3 Some here)
      qed (simp add: walk_percent None 3 here)
    qed
  qed (simp add: walk_percent here)
  ultimately show ?thesis by blast
qed

lemma walk_percent_end: "walk st buf ''%'' = Some (flush st (buf @ ''%''))"
  by (simp add: walk.simps(2))

lemma walk_panics: "utf8_valid s \<Longrightarrow> walk st buf s = None \<longleftrightarrow> percent_before_wide s"
proof (induction "length s" arbitrary: s st buf rule: less_induct)
  case less
  show ?case
  proof (cases s)
    case (Cons b r)
    have IH: "walk st' buf' s' = None \<longleftrightarrow> percent_before_wide s'" if "length s' \<le> length r" "utf8_valid s'" for s' st' buf'
      using less.hyps [of s'] that Cons by simp
    consider "b = CHR ''%''" | "b = byte_of 3 \<or> b = byte_of 4 \<or> b = byte_of 17 \<or> control_toggle b st \<noteq> None" "b \<noteq> CHR ''%''"
      | "b \<noteq> byte_of 3" "b \<noteq> byte_of 4" "b \<noteq> byte_of 17" "control_toggle b st = None" "b \<noteq> CHR ''%''" by blast
    then show ?thesis
    proof cases
      case 1
      then have "utf8_valid r" using less.prems Cons by (simp add: ascii_head)
      then show ?thesis using percent_step [of "tl r" "hd r" st buf] IH Cons 1 walk_percent_end by (cases r) auto
    next
      case 2
      then have "byte_val b < 128" using control_ascii by auto
      then have r: "utf8_valid r" using less.prems Cons by (simp add: ascii_head)
      have "walk st' buf' r = None \<longleftrightarrow> percent_before_wide r" for st' buf' using IH r by simp
      moreover have "walk st' buf' r2 = None \<longleftrightarrow> percent_before_wide r" if "mirc_colour st r = Some (st1, r2)" for st' buf' st1 r2
        using IH [of r2] passed_same [OF passed_mirc [OF that]] r by simp
      moreover have "walk st' buf' r2 = None \<longleftrightarrow> percent_before_wide r" if "hex_colour st r = Some (st1, r2)" for st' buf' st1 r2
        using IH [of r2] passed_same [OF passed_hex [OF that]] r by simp
      ultimately show ?thesis using 2 mirc_ok [of st r] hex_ok' [of st r]
        by (auto simp: walk.simps(2) Cons split: option.split)
    next
      case 3
      have skip: "utf8_valid (drop (utf8_len (b # r) - 1) r)" "percent_before_wide (drop (utf8_len (b # r) - 1) r) = percent_before_wide r"
        using skip_char [of b r] less.prems 3(5) Cons by auto
      have "\<not> is_cont b" using less.prems Cons utf8_len_head [of "b # r"] by (auto simp: utf8_valid_Cons)
      then show ?thesis using 3 skip IH by (simp add: walk_ordinary Cons)
    qed
  qed simp
qed

end
