(* ===== verification/Theme_Bundled.thy ===== *)
theory Theme_Bundled
  imports Theme
begin

text \<open>
  The themes the binary carries, as the loader (\<open>src/src/theme/loader.rs\<close>) reads
  them: \<open>src/themes/default.theme\<close>, the theme of a fresh installation, and
  \<open>src/themes/spring.theme\<close>.  Both files give every abstraction and every table of
  the fallback theme anew.
\<close>

definition nightfall_abstracts :: "(bytes, bytes) table" where
  "nightfall_abstracts = [
     (''timestamp'', ''%Z6e738d$*%Z7aa2f7%N''),
     (''msgnick'', ''%Z565f89$0$1%Z7aa2f7'' @ [byte_of 226, byte_of 157, byte_of 175] @ ''%N%| ''),
     (''ownnick'', ''%Z9ece6a%_$*%_%N''),
     (''pubnick'', ''%Z7aa2f7%_$*%_%N''),
     (''menick'', ''%Zbb9af7%_$*%_%N''),
     (''channel'', ''%Z7aa2f7%_$*%_%N''),
     (''action'', ''%Ze0af68* $*%N''),
     (''error'', ''%Zf7768e! $*%N'')]"

definition nightfall_messages :: "(bytes, bytes) table" where
  "nightfall_messages = [
     (''own_msg'', ''{msgnick $2 {ownnick $0}}%Zc0caf5$1%N''),
     (''pubmsg'', ''{msgnick $2 {pubnick $0}}%Za9b1d6$1%N''),
     (''pubmsg_mention'', ''{msgnick %Zbb9af7$2 {menick $0}}%Zbb9af7$1%N''),
     (''pubmsg_highlight'', ''{msgnick %Zf7768e$2 %Zf7768e%_$0%_%N}%Zf7768e$1%N''),
     (''action'', ''{action $0} %Ze0af68$1%N''),
     (''notice'', ''%Z7dcfff-%Z7aa2f7$0%Z7dcfff-%N $1'')]"

definition nightfall_events :: "(bytes, bytes) table" where
  "nightfall_events = [
     (''join'', ''%Z9ece6a-->%N %Za9b1d6$0%N %Z565f89($1@$2)%N has joined {channel $3} %Z565f89$4%N %Z6e738d$5%N''),
     (''part'', ''%Ze0af68<--%N %Za9b1d6$0%N %Z565f89($1@$2)%N has left {channel $3} %Z565f89($4)%N''),
     (''quit'', ''%Zf7768e<--%N %Za9b1d6$0%N %Z565f89($1@$2)%N has quit %Z565f89($3)%N''),
     (''kick'', ''%Zf7768e<--%N %Za9b1d6$0%N was kicked by %Za9b1d6$1%N from {channel $2} %Z565f89($3)%N''),
     (''kicked'', ''%Zf7768e<--%N You were kicked from {channel $2} by %Za9b1d6$1%N %Z565f89($3)%N''),
     (''nick_change'', ''%Zbb9af7---%N %Za9b1d6$0%N is now known as %Za9b1d6$1%N''),
     (''topic'', ''%Z7aa2f7---%N Topic set by %Z565f89$0%N: $1''),
     (''mode'', ''%Z7aa2f7---%N %Za9b1d6$0%N sets mode %Ze0af68$1%N on {channel $2}''),
     (''account'', ''%Z565f89---%N %Za9b1d6$0%N %Z565f89$1%N''),
     (''chghost'', ''%Z565f89---%N %Za9b1d6$0%N %Z565f89changed host to $1@$2%N''),
     (''connected'', ''%Z9ece6a-->%N Connected to %Za9b1d6$0%N''),
     (''disconnected'', ''%Zf7768e<--%N Disconnected from %Za9b1d6$0%N %Z565f89($1)%N''),
     (''channel_created'', ''%Z565f89---%N Channel {channel $0} created %Z565f89$1%N''),
     (''date_separator'', ''%Z565f89$0%N''),
     (''backlog_end'', ''%Z565f89$0%N''),
     (''e2e_info'', ''%Z9ece6a[E2E]%N $*''),
     (''e2e_warning'', ''%Ze0af68[E2E]%N $*''),
     (''e2e_error'', ''%Zf7768e[E2E]%N $*''),
     (''whois_header'', ''%Z7aa2f7'' @ concat (replicate 5 [byte_of 226, byte_of 148, byte_of 128]) @ '' WHOIS $0 '' @ concat (replicate 26 [byte_of 226, byte_of 148, byte_of 128]) @ ''%N''),
     (''whois'', ''%Zc0caf5$0%Z565f89 ($1@$2)%N %Za9b1d6$3%N''),
     (''whois_server'', ''%Z565f89  server: %Za9b1d6$1%N%Z565f89$3%N''),
     (''whois_oper'', ''  %Zbb9af7$1%N''),
     (''whois_idle'', ''%Z565f89  idle: %Za9b1d6$1%N''),
     (''whois_idle_signon'', ''%Z565f89  idle: %Za9b1d6$1%Z565f89, signon: %Za9b1d6$2%N''),
     (''whois_channels'', ''%Z565f89  channels: %Za9b1d6$1%N''),
     (''whois_away'', ''%Z565f89  away: %Ze0af68$1%N''),
     (''whois_account'', ''%Z565f89  account: %Za9b1d6$1%N''),
     (''whois_secure'', ''%Z565f89  secure: %Z9ece6a$1%N''),
     (''whois_certfp'', ''%Z565f89  certfp: %Za9b1d6$1%N''),
     (''whois_keyvalue'', ''%Z565f89  $1: %Za9b1d6$3%N''),
     (''end_of_whois'', ''%Z7aa2f7'' @ concat (replicate 45 [byte_of 226, byte_of 148, byte_of 128]) @ ''%N'')]"

definition nightfall_sidepanel :: "(bytes, bytes) table" where
  "nightfall_sidepanel = [
     (''header'', ''%Z7aa2f7%_$0%_%N''),
     (''item'', ''%Z565f89$0.%N %Z6e738d$1%N''),
     (''item_selected'', ''%Ze0af68$0.%N %Zc0caf5%_$1%_%N''),
     (''item_activity_0'', ''%Z565f89$0.%N %Z6e738d$1%N''),
     (''item_activity_1'', ''%Z565f89$0.%N %Z9ece6a$1%N''),
     (''item_activity_2'', ''%Z565f89$0.%N %Zf7768e$1%N''),
     (''item_activity_3'', ''%Z565f89$0.%N %Ze0af68$1%N''),
     (''item_activity_4'', ''%Z565f89$0.%N %Zbb9af7$1%N''),
     (''item_server'', ''%Z7aa2f7$0. %_$1%_%N''),
     (''item_server_selected'', ''%Ze0af68$0.%N %Zc0caf5%_$1%_%N'')]"

definition nightfall_nicklist :: "(bytes, bytes) table" where
  "nightfall_nicklist = [
     (''owner'', ''%Ze0af68~%Zc0caf5$0%N''),
     (''admin'', ''%Zf7768e&%Zc0caf5$0%N''),
     (''op'', ''%Z9ece6a@%Za9b1d6$0%N''),
     (''halfop'', ''%Z7aa2f7%%%Za9b1d6$0%N''),
     (''voice'', ''%Z7dcfff+%Z6e738d$0%N''),
     (''normal'', '' %Z565f89$0%N''),
     (''away_owner'', ''%Z565f89~$0%N''),
     (''away_admin'', ''%Z565f89&$0%N''),
     (''away_op'', ''%Z565f89@$0%N''),
     (''away_halfop'', ''%Z565f89%%$0%N''),
     (''away_voice'', ''%Z565f89+$0%N''),
     (''away_normal'', '' %Z292e42$0%N'')]"

definition nightfall_theme :: theme_file where
  "nightfall_theme = \<lparr>
     th_meta = \<lparr>tm_name = ''Nightfall'', tm_description = ''Modern dark theme with subtle accents''\<rparr>,
     th_colors = \<lparr>tc_bg = ''#1a1b26'', tc_bg_alt = ''#16161e'', tc_border = ''#292e42'', tc_fg = ''#a9b1d6'', tc_fg_muted = ''#565f89'', tc_fg_dim = ''#292e42'', tc_accent = ''#7aa2f7'', tc_cursor = ''#7aa2f7''\<rparr>,
     th_abstracts = nightfall_abstracts,
     th_formats = \<lparr>tf_messages = nightfall_messages, tf_events = nightfall_events, tf_sidepanel = nightfall_sidepanel, tf_nicklist = nightfall_nicklist\<rparr>\<rparr>"

definition spring_abstracts :: "(bytes, bytes) table" where
  "spring_abstracts = [
     (''timestamp'', ''%Z64748b$*%N %Z64748b'' @ [byte_of 194, byte_of 183] @ ''%N''),
     (''msgnick'', ''%Z64748b$0$1%Z3b82f6'' @ [byte_of 226, byte_of 157, byte_of 175] @ ''%N%| ''),
     (''ownnick'', ''%Z10b981%_%_$*%_%_%N''),
     (''pubnick'', ''%Z3b82f6$*%N''),
     (''menick'', ''%Zf59e0b%_$*%_%N''),
     (''channel'', ''%Z3b82f6%_$*%_%N''),
     (''action'', ''%Z8b5cf6'' @ [byte_of 226, byte_of 152, byte_of 133] @ ''%N $*''),
     (''error'', ''%Zef4444$*%N'')]"

definition spring_messages :: "(bytes, bytes) table" where
  "spring_messages = [
     (''own_msg'', ''{msgnick $2 {ownnick $0}}%Ze2e8f0$1%N''),
     (''pubmsg'', ''{msgnick $2 {pubnick $0}}%Z94a3b8$1%N''),
     (''pubmsg_mention'', ''{msgnick %Zf59e0b$2 {menick $0}}%Zf59e0b$1%N''),
     (''pubmsg_highlight'', ''{msgnick %Zf59e0b$2 %Zf59e0b%_$0%_%N}%Zf59e0b$1%N''),
     (''action'', ''{action $0} %Z8b5cf6$1%N''),
     (''notice'', ''%Z06b6d4'' @ [byte_of 226, byte_of 172, byte_of 162] @ ''%N %Z3b82f6$0%Z06b6d4 '' @ [byte_of 226, byte_of 159, byte_of 171] @ ''%N %Z94a3b8$1%N'')]"

definition spring_events :: "(bytes, bytes) table" where
  "spring_events = [
     (''join'', ''%Z10b981'' @ [byte_of 226, byte_of 165, byte_of 164] @ ''%N %Z10b981%_$0%_%N %Z64748b'' @ [byte_of 226, byte_of 159, byte_of 168] @ ''%Z94a3b8$1@$2%Z64748b'' @ [byte_of 226, byte_of 159, byte_of 169] @ ''%N %Z10b981has joined%N {channel $3}''),
     (''part'', ''%Zf59e0b'' @ [byte_of 226, byte_of 165, byte_of 162] @ ''%N %Z94a3b8$0%N %Z64748b'' @ [byte_of 226, byte_of 159, byte_of 168] @ ''%Z64748b$1@$2%Z64748b'' @ [byte_of 226, byte_of 159, byte_of 169] @ ''%N %Zf59e0bhas left%N {channel $3} %Z94a3b8'' @ [byte_of 226, byte_of 159, byte_of 168] @ ''%N$4%Z94a3b8'' @ [byte_of 226, byte_of 159, byte_of 169] @ ''%N''),
     (''quit'', ''%Zef4444'' @ [byte_of 226, byte_of 143, byte_of 187] @ ''%N %Z94a3b8$0%N %Z64748b'' @ [byte_of 226, byte_of 159, byte_of 168] @ ''%Z64748b$1@$2%Z64748b'' @ [byte_of 226, byte_of 159, byte_of 169] @ ''%N %Zef4444has quit%N %Z94a3b8'' @ [byte_of 226, byte_of 159, byte_of 168] @ ''%N$3%Z94a3b8'' @ [byte_of 226, byte_of 159, byte_of 169] @ ''%N''),
     (''nick_change'', ''%Z8b5cf6'' @ [byte_of 226, byte_of 172, byte_of 162] @ ''%N %Z94a3b8$0%N %Z64748bis now known as%N %Z10b981%_$1%_%N''),
     (''topic'', ''%Z06b6d4'' @ [byte_of 240, byte_of 159, byte_of 147, byte_of 140] @ ''%N %Z64748bTopic set by%N %Z94a3b8$0%N%Z64748b:%N %Ze2e8f0$1%N''),
     (''mode'', ''%Z8b5cf6'' @ [byte_of 226, byte_of 155, byte_of 136] @ ''%N %Z94a3b8$0%N %Z64748bsets%N %Z8b5cf6%_$1%_%N %Z64748bon%N {channel $2}''),
     (''account'', ''%Z64748b'' @ [byte_of 194, byte_of 183, byte_of 194, byte_of 183, byte_of 194, byte_of 183] @ ''%N %Z94a3b8$0%N %Z64748b$1%N''),
     (''kick'', ''%Zef4444'' @ [byte_of 226, byte_of 154, byte_of 161] @ ''%N %Ze2e8f0%_$0%_%N %Zef4444kicked%N from {channel $1} %Z64748bby%N %Z94a3b8$2%N %Z94a3b8'' @ [byte_of 226, byte_of 159, byte_of 168] @ ''%N$3%Z94a3b8'' @ [byte_of 226, byte_of 159, byte_of 169] @ ''%N''),
     (''chghost'', ''%Z64748b'' @ [byte_of 194, byte_of 183, byte_of 194, byte_of 183, byte_of 194, byte_of 183] @ ''%N %Z94a3b8$0%N %Z64748bchanged host to $1@$2%N''),
     (''channel_created'', ''%Z10b981'' @ [byte_of 226, byte_of 156, byte_of 147] @ ''%N Channel {channel $0} created %Z64748b$1%N''),
     (''e2e_info'', ''%Z10b981[E2E]%N $*''),
     (''e2e_warning'', ''%Zf59e0b[E2E]%N $*''),
     (''e2e_error'', ''%Zef4444[E2E]%N $*''),
     (''whois_header'', ''%Z3b82f6'' @ concat (replicate 5 [byte_of 226, byte_of 148, byte_of 128]) @ '' WHOIS $0 '' @ concat (replicate 26 [byte_of 226, byte_of 148, byte_of 128]) @ ''%N''),
     (''whois'', ''%Z3b82f6$0%Z64748b '' @ [byte_of 226, byte_of 159, byte_of 168] @ ''%Z94a3b8$1@$2%Z64748b'' @ [byte_of 226, byte_of 159, byte_of 169] @ ''%N %Ze2e8f0$3%N''),
     (''whois_server'', ''%Z64748b  server:%N %Z06b6d4$1%N %Z64748b$3%N''),
     (''whois_oper'', ''  %Zf59e0b'' @ [byte_of 226, byte_of 154, byte_of 160] @ ''%N %Zf59e0b$1%N''),
     (''whois_idle'', ''%Z64748b  idle:%N %Z06b6d4$1%N''),
     (''whois_idle_signon'', ''%Z64748b  idle:%N %Z06b6d4$1%Z64748b, signon:%N %Z06b6d4$2%N''),
     (''whois_channels'', ''%Z64748b  channels:%N %Z3b82f6$1%N''),
     (''whois_away'', ''%Z64748b  away:%N %Zf59e0b$1%N''),
     (''whois_account'', ''%Z64748b  account:%N %Z10b981$1%N''),
     (''whois_secure'', ''%Z64748b  secure:%N %Z10b981$1%N''),
     (''whois_certfp'', ''%Z64748b  certfp:%N %Z94a3b8$1%N''),
     (''whois_keyvalue'', ''%Z64748b  $1:%N %Z94a3b8$3%N''),
     (''end_of_whois'', ''%Z3b82f6'' @ concat (replicate 45 [byte_of 226, byte_of 148, byte_of 128]) @ ''%N'')]"

definition spring_sidepanel :: "(bytes, bytes) table" where
  "spring_sidepanel = [
     (''header'', ''%Z3b82f6%_$0%_%N''),
     (''item'', ''%Ze2e8f0$0.%N %Ze2e8f0$1%N''),
     (''item_selected'', ''%Z8b5cf6$0.%N %Z8b5cf6%_$1%_%N''),
     (''item_activity_0'', ''%Z10b981$0.%N %Z10b981$1%N''),
     (''item_activity_1'', ''%Zf59e0b$0.%N %Zf59e0b$1%N''),
     (''item_activity_2'', ''%Zef4444$0.%N %Zef4444$1%N''),
     (''item_activity_3'', ''%Zef4444$0.%N %Zef4444%_$1%_%N''),
     (''item_activity_4'', ''%Z8b5cf6$0.%N %Z8b5cf6%_$1%_%N''),
     (''item_server'', ''%Z3b82f6$0. %_$1%_%N''),
     (''item_server_selected'', ''%Z8b5cf6$0.%N %Ze2e8f0%_$1%_%N'')]"

definition spring_nicklist :: "(bytes, bytes) table" where
  "spring_nicklist = [
     (''owner'', ''%Zf59e0b~%Ze2e8f0$0%N''),
     (''admin'', ''%Zef4444&%Ze2e8f0$0%N''),
     (''op'', ''%Zf59e0b@%Z3b82f6%_$0%_%N''),
     (''halfop'', ''%Z10b981%%%Z06b6d4$0%N''),
     (''voice'', ''%Z10b981+%Z94a3b8$0%N''),
     (''normal'', '' %Z94a3b8$0%N''),
     (''away_owner'', ''%Z64748b~%Z64748b$0%N''),
     (''away_admin'', ''%Z64748b&%Z64748b$0%N''),
     (''away_op'', ''%Z64748b@%Z64748b$0%N''),
     (''away_halfop'', ''%Z64748b%%%Z64748b$0%N''),
     (''away_voice'', ''%Z64748b+%Z64748b$0%N''),
     (''away_normal'', '' %Z475569$0%N'')]"

definition spring_theme :: theme_file where
  "spring_theme = \<lparr>
     th_meta = \<lparr>tm_name = ''spring'', tm_description = ''Spring '' @ [byte_of 226, byte_of 128, byte_of 148] @ '' deep navy with emerald/amber/purple accents''\<rparr>,
     th_colors = \<lparr>tc_bg = ''#1a1a2e'', tc_bg_alt = ''#16213e'', tc_border = ''#0f3460'', tc_fg = ''#e2e8f0'', tc_fg_muted = ''#64748b'', tc_fg_dim = ''#334155'', tc_accent = ''#3b82f6'', tc_cursor = ''#10b981''\<rparr>,
     th_abstracts = spring_abstracts,
     th_formats = \<lparr>tf_messages = spring_messages, tf_events = spring_events, tf_sidepanel = spring_sidepanel, tf_nicklist = spring_nicklist\<rparr>\<rparr>"

end
