(* ===== verification/Ui_Properties.thy ===== *)
theory Ui_Properties
  imports Theme_Properties Theme_Bundled
begin

text \<open>
  What the terminal shows of a message: exactly when the format parser panics on
  it, that the text of the spans is what stripping leaves, and that cutting a
  text into emote tokens loses nothing.
\<close>

declare map_of_eq_Some_iff [simp del] show_nat.simps [simp del] walk.simps(2) [simp del]

definition spans_text :: "styled_span list \<Rightarrow> bytes" where
  "spans_text spans = concat (map sp_text spans)"

lemma spans_text_simps [simp]:
  "spans_text [] = []" "spans_text (xs @ ys) = spans_text xs @ spans_text ys"
  "spans_text (sp # xs) = sp_text sp @ spans_text xs" "spans_text (flush st buf) = buf"
  by (simp_all add: spans_text_def flush_def)

section \<open>The parser and stripping\<close>

lemma drop_class_2: "drop_class P 2 s =
    (case s of a # b # r \<Rightarrow> if P a then if P b then r else b # r else s | [a] \<Rightarrow> if P a then [] else s | [] \<Rightarrow> [])"
  by (auto simp: numeral_2_eq_2 split: list.split)

lemma mirc_drop:
  assumes "mirc_colour st s = Some (st', r)" "\<not> starts_with '','' s"
  shows "r = drop_colour is_ascii_digit 2 s"
proof -
  have background: "drop_colour is_ascii_digit 2 s = (case read_background t of None \<Rightarrow> t | Some (m, q) \<Rightarrow> q)"
    if "drop_class is_ascii_digit 2 s = t" for t
    using that drop_class_2 [of is_ascii_digit]
    by (auto simp: drop_colour_def Let_def read_background_def split: list.splits)
  show ?thesis
  proof (cases "read_digits s")
    case None
    then have "drop_class is_ascii_digit 2 s = s" unfolding drop_class_2
      by (cases s rule: read_digits.cases) (auto split: if_splits)
    moreover have "read_background s = None" using assms(2) by (auto simp: read_background_def starts_with_iff split: list.splits)
    ultimately show ?thesis using assms(1) background [of s] None by (simp add: mirc_colour_def)
  next
    case (Some q)
    obtain n t where q: "q = (n, t)" by (cases q)
    then have "drop_class is_ascii_digit 2 s = t" unfolding drop_class_2 using Some
      by (cases s rule: read_digits.cases) (auto split: if_splits)
    moreover have "r = (case read_background t of None \<Rightarrow> t | Some (m, u) \<Rightarrow> u)"
      using assms(1) Some q by (auto simp: mirc_colour_def split: option.splits prod.splits)
    ultimately show ?thesis using background by simp
  qed
qed

text \<open>The codes on which showing and stripping agree.\<close>

definition common_codes :: "bytes \<Rightarrow> bool" where
  "common_codes s \<longleftrightarrow> CHR ''%'' \<notin> set s \<and> byte_of 4 \<notin> set s \<and> byte_of 17 \<notin> set s \<and> \<not> sublist [byte_of 3, CHR '',''] s"

lemma common_codes_suffix: "common_codes (u @ s) \<Longrightarrow> common_codes s"
  unfolding common_codes_def by (auto simp: sublist_def) (metis append.assoc)+

lemma no_percent_runs: "CHR ''%'' \<notin> set s \<Longrightarrow> \<not> percent_before_wide s"
  by (induction s) auto

lemma char_run:
  assumes "utf8_valid (b # s)"
  shows "takeWhile is_cont s = take (utf8_len (b # s) - 1) s" "dropWhile is_cont s = drop (utf8_len (b # s) - 1) s"
proof -
  let ?k = "utf8_len (b # s)"
  have k: "0 < ?k" "utf8_valid (drop ?k (b # s))" using assms by (auto simp: utf8_valid_Cons)
  have cont: "is_cont c" if "c \<in> set (take (?k - 1) s)" for c
  proof -
    have "\<exists>i<length (take (?k - 1) s). take (?k - 1) s ! i = c" using that by (simp only: in_set_conv_nth)
    then obtain i where "i < length (take (?k - 1) s)" "c = take (?k - 1) s ! i" by blast
    then show ?thesis using utf8_len_tail_cont [of "i + 1" "b # s"] by (simp add: less_diff_conv)
  qed
  have rest: "utf8_valid (drop (?k - 1) s)" using k by (cases ?k) auto
  then have stop: "drop (?k - 1) s = [] \<or> \<not> is_cont (hd (drop (?k - 1) s))"
    using utf8_len_head [of "drop (?k - 1) s"] by (auto simp: utf8_valid_Cons)
  have "takeWhile is_cont (take (?k - 1) s @ drop (?k - 1) s) = take (?k - 1) s"
    using stop by (subst takeWhile_append2) (auto simp: cont takeWhile_eq_Nil_iff)
  then show "takeWhile is_cont s = take (?k - 1) s" by simp
  have "dropWhile is_cont (take (?k - 1) s @ drop (?k - 1) s) = drop (?k - 1) s"
    using stop by (subst dropWhile_append2) (auto simp: cont dropWhile_eq_self_iff)
  then show "dropWhile is_cont s = drop (?k - 1) s" by simp
qed

lemma control_toggle_codes: "control_toggle b st \<noteq> None \<longleftrightarrow> b \<in> set toggle_codes"
  by (simp add: control_toggle_def toggle_codes_def del: code_values)

lemma toggle_values: "b \<in> set toggle_codes \<Longrightarrow> byte_val b < 128 \<and> byte_val b \<notin> {37, 3, 4, 17}"
  by (auto simp: toggle_codes_def)

lemma other_code: "byte_val b \<noteq> byte_val c \<Longrightarrow> b \<noteq> c" by auto

lemma walk_colour:
  "walk st buf (byte_of 3 # s) =
     (case mirc_colour st s of None \<Rightarrow> None | Some (st1, r) \<Rightarrow> map_option ((@) (flush st buf)) (walk st1 [] r))"
proof -
  have "byte_of 3 \<noteq> CHR ''%''" by (rule other_code) simp
  then show ?thesis by (simp add: walk.simps(2))
qed

lemma walk_toggle:
  assumes "b \<in> set toggle_codes"
  shows "\<exists>st1. walk st buf (b # s) = map_option ((@) (flush st buf)) (walk st1 [] s)"
proof -
  have "b \<noteq> CHR ''%''" "b \<noteq> byte_of 3" "b \<noteq> byte_of 4" "b \<noteq> byte_of 17"
    using toggle_values [OF assms] by (intro other_code; simp)+
  moreover obtain st1 where "control_toggle b st = Some st1" using control_toggle_codes [of b st] assms by auto
  ultimately show ?thesis by (intro exI [of _ st1]) (simp add: walk.simps(2))
qed

lemma walk_text:
  "utf8_valid s \<Longrightarrow> common_codes s \<Longrightarrow> walk st buf s = Some spans \<Longrightarrow> spans_text spans = buf @ strip_irc_formatting s"
proof (induction "length s" arbitrary: s st buf spans rule: less_induct)
  case less
  show ?case
  proof (cases s)
    case (Cons b r)
    have codes: "common_codes r" using less.prems(2) common_codes_suffix [of "[b]" r] Cons by simp
    have b: "b \<noteq> CHR ''%''" "b \<noteq> byte_of 4" "b \<noteq> byte_of 17" using less.prems(2) Cons by (auto simp: common_codes_def)
    consider (toggle) "b \<in> set toggle_codes" | (colour) "b \<notin> set toggle_codes" "b = byte_of 3"
      | (plain) "b \<notin> set toggle_codes" "b \<noteq> byte_of 3" by blast
    then show ?thesis
    proof cases
      case toggle
      have "byte_val b < 128" using toggle_values [OF toggle] by simp
      then have "utf8_valid r" using less.prems(1) Cons by (simp add: ascii_head)
      moreover obtain st1 where w: "walk st buf (b # r) = map_option ((@) (flush st buf)) (walk st1 [] r)"
        using walk_toggle [OF toggle] by blast
      have "map_option ((@) (flush st buf)) (walk st1 [] r) = Some spans" using less.prems(3) Cons w by simp
      then obtain sp where "walk st1 [] r = Some sp" "spans = flush st buf @ sp" by auto
      ultimately show ?thesis using less.hyps [of r st1 "[]" sp] codes Cons toggle by simp
    next
      case colour
      then have valid: "utf8_valid r" using less.prems(1) Cons by (simp add: ascii_head)
      obtain st1 q sp where run: "mirc_colour st r = Some (st1, q)" "walk st1 [] q = Some sp" "spans = flush st buf @ sp"
        using less.prems(3) Cons colour by (auto simp: walk_colour split: option.splits)
      have "\<not> starts_with '','' r" using less.prems(2) Cons colour by (auto simp: common_codes_def starts_with_iff)
      then have "q = drop_colour is_ascii_digit 2 r" using mirc_drop [OF run(1)] by simp
      moreover have same: "utf8_valid q" "length q \<le> length r" using passed_same [OF passed_mirc [OF run(1)]] valid by simp_all
      moreover have "common_codes q" using codes passed_mirc [OF run(1)] common_codes_suffix by (auto simp: passed_def)
      ultimately show ?thesis using less.hyps [of q st1 "[]" sp] run Cons colour by (simp add: colour_code_def)
    next
      case plain
      let ?k = "utf8_len (b # r) - 1"
      have ctl: "control_toggle b st = None" using control_toggle_codes plain(1) by blast
      have "\<not> is_cont b" using less.prems(1) Cons utf8_len_head [of "b # r"] by (auto simp: utf8_valid_Cons)
      then have "walk st (buf @ b # take ?k r) (drop ?k r) = Some spans"
        using less.prems(3) Cons walk_ordinary [OF b(1) plain(2) b(2,3) ctl] by simp
      moreover have "utf8_valid (drop ?k r)" using skip_char [of b r] less.prems(1) Cons b by simp
      moreover have "common_codes (drop ?k r)" using common_codes_suffix [of "take ?k r" "drop ?k r"] codes by simp
      ultimately have "spans_text spans = (buf @ b # take ?k r) @ strip_irc_formatting (drop ?k r)"
        using less.hyps [of "drop ?k r"] Cons by simp
      moreover have "strip_irc_formatting (b # r) = (b # take ?k r) @ strip_irc_formatting (drop ?k r)"
        using char_run [of b r] less.prems(1) Cons plain b by (simp add: colour_code_def hex_colour_code_def)
      ultimately show ?thesis using Cons by simp
    qed
  qed (use less.prems in auto)
qed

lemma parse_spans_text:
  assumes "utf8_valid s" "common_codes s"
  shows "\<exists>spans. parse_spans s = Some spans \<and> spans_text spans = strip_irc_formatting s"
proof -
  have "walk plain_style [] s \<noteq> None"
    using walk_panics [OF assms(1)] no_percent_runs assms(2) by (simp add: common_codes_def)
  then obtain spans where spans: "walk plain_style [] s = Some spans" by blast
  then show ?thesis using walk_text [OF assms spans] by (auto simp: parse_spans_def)
qed

section \<open>Variables and abstractions in plain text\<close>

lemma utf8_chars_subset: "c \<in> set (utf8_chars s) \<Longrightarrow> set c \<subseteq> set s"
  using concat_utf8_chars [of s] by (metis UN_upper set_concat)

lemma substitute_plain: "[CHR ''$''] \<notin> set cs \<Longrightarrow> substitute params cs = Some (concat cs)"
  by (induction cs) auto

lemma substitute_vars_plain: "CHR ''$'' \<notin> set s \<Longrightarrow> substitute_vars s params = Some s"
  unfolding substitute_vars_def
  by (subst substitute_plain) (use utf8_chars_subset [of "''$''" s] in \<open>auto simp: concat_utf8_chars\<close>)

lemma resolve_plain: "[CHR ''{''] \<notin> set cs \<Longrightarrow> resolve_chars abstracts depth cs = Some (concat cs)"
proof (induction cs)
  case Nil
  show ?case by (subst resolve_chars.simps) simp
next
  case (Cons c cs)
  then have c: "c \<noteq> ''{''" "resolve_chars abstracts depth cs = Some (concat cs)" by auto
  show ?case by (subst resolve_chars.simps) (simp add: c)
qed

lemma resolve_abstractions_plain: "CHR ''{'' \<notin> set s \<Longrightarrow> resolve_abstractions s abstracts depth = Some s"
  unfolding resolve_abstractions_def
  by (subst resolve_plain) (use utf8_chars_subset [of "''{''" s] in \<open>auto simp: concat_utf8_chars\<close>)

lemma no_percent_prefix: "CHR ''%'' \<notin> set u \<Longrightarrow> percent_before_wide (u @ s) = percent_before_wide s"
  by (induction u) auto

lemma parse_spans_panics: "utf8_valid s \<Longrightarrow> parse_spans s = None \<longleftrightarrow> percent_before_wide s"
  using walk_panics [of s] by (simp add: parse_spans_def)

section \<open>Chat lines in the bundled themes\<close>

text \<open>The format of a chat line and its text, before the format codes are read.\<close>

definition message_format :: "theme_file \<Rightarrow> bytes \<Rightarrow> bytes" where
  "message_format th key = unwrap_or ''$0 $1'' (map_of (tf_messages (th_formats th)) key)"

definition line_text :: "theme_file \<Rightarrow> bytes \<Rightarrow> bytes list \<Rightarrow> bytes option" where
  "line_text th key params = Option.bind (resolve_abstractions (message_format th key) (th_abstracts th) 0) (\<lambda>r. substitute_vars r params)"

definition stamp_text :: "theme_file \<Rightarrow> bytes \<Rightarrow> bytes option" where
  "stamp_text th ts =
     Option.bind (resolve_abstractions (unwrap_or ''$*'' (map_of (th_abstracts th) ''timestamp'')) (th_abstracts th) 0) (\<lambda>r. substitute_vars r [ts])"

lemma cut_ascii: "byte_val c < 128 \<Longrightarrow> utf8_chars (c # s) = [c] # utf8_chars s"
  by (simp add: utf8_chars.simps utf8_len_def utf8_lead.simps in_range_def)

lemma cut_wide: "is_cont x \<Longrightarrow> is_cont y \<Longrightarrow> utf8_chars (byte_of 226 # x # y # s) = [byte_of 226, x, y] # utf8_chars s"
  by (simp add: utf8_chars.simps utf8_len_def utf8_lead.simps in_range_def is_cont_def)

lemma cut_dot: "utf8_chars (byte_of 194 # byte_of 183 # s) = [byte_of 194, byte_of 183] # utf8_chars s"
  by (simp add: utf8_chars.simps utf8_len_def utf8_lead.simps in_range_def is_cont_def)

lemma resolve_steps:
  assumes "d < 10"
  shows "resolve_chars ab d [] = Some []"
    and "c \<noteq> ''{'' \<Longrightarrow> resolve_chars ab d (c # cs) = map_option ((@) c) (resolve_chars ab d cs)"
    and "matching_brace 1 cs = Some (inner, rest) \<Longrightarrow> split_once (CHR 0x20) (concat inner) = Some (name, args) \<Longrightarrow> map_of ab name = Some template \<Longrightarrow>
      resolve_chars ab d (''{'' # cs) =
        Option.bind (map_opt (\<lambda>a. resolve_chars ab (d + 1) (utf8_chars a)) (split_abstraction_args args)) (\<lambda>params.
        Option.bind (substitute_vars template params) (\<lambda>expanded.
        Option.bind (resolve_chars ab (d + 1) (utf8_chars expanded)) (\<lambda>r. map_option ((@) r) (resolve_chars ab d rest))))"
  using assms by (subst resolve_chars.simps; simp add: max_abstraction_depth_def bind_eq_None_conv split: option.split)+

lemma digit_chars:
  "is_digit_char [c] = is_ascii_digit c" "is_digit_char (a # b # s) = False"
  by (simp_all add: is_digit_char_def)

lemma first_params:
  "param_at params [''0''] = unwrap_or [] (nth_opt params 0)" "param_at params [''1''] = unwrap_or [] (nth_opt params (Suc 0))"
  "param_at params [''2''] = unwrap_or [] (nth_opt params 2)"
  by (simp_all add: param_at_def parse_unsigned_def digit_val_def is_ascii_digit_def in_range_def flip: numeral_2_eq_2)

lemmas line_steps = cut_ascii cut_wide cut_dot is_cont_def resolve_steps resolve_abstractions_def max_abstraction_depth_def substitute_vars_def
  digit_chars first_params nth_opt_def split_abstraction_args_def is_ascii_digit_def in_range_def

lemma nightfall_lines:
  "line_text nightfall_theme ''own_msg'' [a, b, c] =
     Some (''%Z565f89'' @ c @ ''%Z9ece6a%_'' @ a @ ''%_%N%Z7aa2f7'' @ [byte_of 226, byte_of 157, byte_of 175] @ ''%N%| %Zc0caf5'' @ b @ ''%N'')"
  "line_text nightfall_theme ''pubmsg'' [a, b, c] =
     Some (''%Z565f89'' @ c @ ''%Z7aa2f7%_'' @ a @ ''%_%N%Z7aa2f7'' @ [byte_of 226, byte_of 157, byte_of 175] @ ''%N%| %Za9b1d6'' @ b @ ''%N'')"
  "line_text nightfall_theme ''pubmsg_mention'' [a, b, c] =
     Some (''%Z565f89%Zbb9af7'' @ c @ ''%Zbb9af7%_'' @ a @ ''%_%N%Z7aa2f7'' @ [byte_of 226, byte_of 157, byte_of 175] @ ''%N%| %Zbb9af7'' @ b @ ''%N'')"
  "line_text nightfall_theme ''action'' [a, b, c] =
     Some (''%Ze0af68* '' @ a @ ''%N %Ze0af68'' @ b @ ''%N'')"
  "line_text nightfall_theme ''notice'' [a, b, c] =
     Some (''%Z7dcfff-%Z7aa2f7'' @ a @ ''%Z7dcfff-%N '' @ b)"
  by (simp_all add: line_text_def message_format_def nightfall_theme_def nightfall_messages_def nightfall_abstracts_def line_steps)

lemma nightfall_stamp:
  "stamp_text nightfall_theme ts = Some (''%Z6e738d'' @ ts @ ''%Z7aa2f7%N'')"
  by (simp add: stamp_text_def nightfall_theme_def nightfall_abstracts_def line_steps)

lemma spring_lines:
  "line_text spring_theme ''own_msg'' [a, b, c] =
     Some (''%Z64748b'' @ c @ ''%Z10b981%_%_'' @ a @ ''%_%_%N%Z3b82f6'' @ [byte_of 226, byte_of 157, byte_of 175] @ ''%N%| %Ze2e8f0'' @ b @ ''%N'')"
  "line_text spring_theme ''pubmsg'' [a, b, c] =
     Some (''%Z64748b'' @ c @ ''%Z3b82f6'' @ a @ ''%N%Z3b82f6'' @ [byte_of 226, byte_of 157, byte_of 175] @ ''%N%| %Z94a3b8'' @ b @ ''%N'')"
  "line_text spring_theme ''pubmsg_mention'' [a, b, c] =
     Some (''%Z64748b%Zf59e0b'' @ c @ ''%Zf59e0b%_'' @ a @ ''%_%N%Z3b82f6'' @ [byte_of 226, byte_of 157, byte_of 175] @ ''%N%| %Zf59e0b'' @ b @ ''%N'')"
  "line_text spring_theme ''action'' [a, b, c] =
     Some (''%Z8b5cf6'' @ [byte_of 226, byte_of 152, byte_of 133] @ ''%N '' @ a @ '' %Z8b5cf6'' @ b @ ''%N'')"
  "line_text spring_theme ''notice'' [a, b, c] =
     Some (''%Z06b6d4'' @ [byte_of 226, byte_of 172, byte_of 162] @ ''%N %Z3b82f6'' @ a @ ''%Z06b6d4 '' @ [byte_of 226, byte_of 159, byte_of 171] @ ''%N %Z94a3b8'' @ b @ ''%N'')"
  by (simp_all add: line_text_def message_format_def spring_theme_def spring_messages_def spring_abstracts_def line_steps)

lemma spring_stamp:
  "stamp_text spring_theme ts = Some (''%Z64748b'' @ ts @ ''%N %Z64748b'' @ [byte_of 194, byte_of 183] @ ''%N'')"
  by (simp add: stamp_text_def spring_theme_def spring_abstracts_def line_steps)


lemma realign:
  assumes "list_all (\<lambda>x. byte_val x < 128) u" "percent_before_wide (CHR ''%'' # s) = percent_before_wide s"
  shows "percent_before_wide (u @ CHR ''%'' # s) = percent_before_wide s"
  using assms(1)
proof (induction u rule: percent_before_wide.induct)
  case (2 b u)
  then show ?case by (cases "b = CHR ''%''"; cases u) simp_all
qed (simp only: append_Nil assms(2))

lemma ascii_harmless: "list_all (\<lambda>x. byte_val x < 128) u \<Longrightarrow> \<not> percent_before_wide u"
proof (induction u rule: percent_before_wide.induct)
  case (2 b u)
  then show ?case by (cases "b = CHR ''%''"; cases u) simp_all
qed simp

lemma ascii_suffix: "list_all (\<lambda>x. byte_val x < 128) u \<Longrightarrow> percent_before_wide (s @ u) = percent_before_wide s"
proof (induction s rule: percent_before_wide.induct)
  case (2 b s)
  show ?case
  proof (cases "b = CHR ''%'' \<and> s = []")
    case True
    then show ?thesis using 2(3) ascii_harmless [of "tl u"] by (cases u) auto
  next
    case False
    then show ?thesis using 2 by (cases "b = CHR ''%''"; cases s) simp_all
  qed
qed (simp add: ascii_harmless)

lemma reset_suffix: "percent_before_wide (s @ ''%N'') = percent_before_wide s"
  by (rule ascii_suffix) simp

lemma byte_val_percent: "byte_val (CHR ''%'') = 37" by simp

lemma byte_percent: "(byte_of n = CHR ''%'') = (n mod 256 = 37)"
  by (metis of_char_eq_iff code_values byte_val_percent)

lemma three_bytes: "is_cont x \<Longrightarrow> is_cont y \<Longrightarrow> utf8_valid (byte_of 226 # x # y # s) = utf8_valid s"
  by (subst utf8_valid.simps) (simp add: Let_def utf8_len_def utf8_lead.simps in_range_def is_cont_def)

lemma middle_dot: "utf8_valid (byte_of 194 # byte_of 183 # s) = utf8_valid s"
  by (subst utf8_valid.simps) (simp add: Let_def utf8_len_def utf8_lead.simps in_range_def is_cont_def)

text \<open>In every theme of the program the line is text, and what surrounds the message does not matter to the panic.\<close>

definition own_themes :: "theme_file list" where
  "own_themes = [default_theme, nightfall_theme, spring_theme]"

definition line_keys :: "bytes list" where
  "line_keys = [''own_msg'', ''pubmsg'', ''pubmsg_mention'', ''action'', ''notice'']"

lemma fallback_lines:
  "line_text default_theme ''own_msg'' [a, b, c] = Some (a @ '' '' @ b)"
  "line_text default_theme ''pubmsg'' [a, b, c] = Some (a @ '' '' @ b)"
  "line_text default_theme ''pubmsg_mention'' [a, b, c] = Some (a @ '' '' @ b)"
  "line_text default_theme ''action'' [a, b, c] = Some (a @ '' '' @ b)"
  "line_text default_theme ''notice'' [a, b, c] = Some (''-'' @ a @ ''- '' @ b)"
  by (simp_all add: line_text_def message_format_def default_theme_def default_formats_def line_steps)

lemma fallback_stamp: "stamp_text default_theme ts = Some ts"
  by (simp add: stamp_text_def default_theme_def line_steps)

lemmas own_lines = fallback_lines nightfall_lines spring_lines
lemmas own_stamps = fallback_stamp nightfall_stamp spring_stamp

lemma bundled_line:
  assumes "th \<in> set own_themes" "key \<in> set line_keys" and a: "utf8_valid a" "CHR ''%'' \<notin> set a" and b: "utf8_valid b"
    and c: "list_all (\<lambda>x. byte_val x < 128) c"
  shows "\<exists>t. line_text th key [a, b, c] = Some t \<and> utf8_valid t \<and> percent_before_wide t = percent_before_wide b"
proof -
  have "utf8_valid c" using c ascii_valid by (simp add: list_all_iff)
  note facts = own_lines utf8_valid_append ascii_head three_bytes is_cont_def a(1) b this realign [OF c] no_percent_prefix [OF a(2)]
    reset_suffix byte_percent
  show ?thesis using assms(1,2) unfolding own_themes_def line_keys_def set_simps
    by (elim insertE emptyE; simp add: facts)
qed

lemma bundled_stamp:
  assumes "th \<in> set own_themes" "utf8_valid ts" "CHR ''%'' \<notin> set ts"
  shows "\<exists>t. stamp_text th ts = Some t \<and> utf8_valid t \<and> \<not> percent_before_wide t"
  using assms unfolding own_themes_def set_simps
  by (elim insertE emptyE; simp add: own_stamps utf8_valid_append ascii_head middle_dot no_percent_prefix no_percent_runs byte_percent)

lemma bundled_format:
  assumes "line_text th key ps = Some t" "utf8_valid t"
  shows "Option.bind (resolve_abstractions (message_format th key) (th_abstracts th) 0) (\<lambda>r. parse_format_string r ps) = None
    \<longleftrightarrow> percent_before_wide t"
  using assms by (auto simp: line_text_def parse_format_string_def parse_spans_panics bind_eq_Some_conv)

lemma message_key: "message_format_key m is_own \<in> set line_keys"
  by (simp add: message_format_key_def line_keys_def)

text \<open>
  C38: In each theme the program carries (the fallback, \<open>default.theme\<close> of a fresh
  installation and \<open>spring.theme\<close>), rendering the line of a message, an action or a
  notice panics exactly when the text shown for it has a percent sign before a
  character beyond ASCII, a percent sign being read together with the character
  after it (a doubled one is harmless).  The text shown is the message's text with
  the known emotes replaced by their placeholders, when images are drawn; nick and
  timestamp have no percent sign, and the nick's mode with its padding is ASCII.
\<close>

theorem message_line_panics:
  assumes "th \<in> set own_themes" "ms_type m \<in> {MsgMessage, MsgAction, MsgNotice}"
    "nick_column ue dc (unwrap_or [] (ms_nick m)) (unwrap_or [] (ms_nick_mode m)) = (shown, mode)"
    "utf8_valid ts" "CHR ''%'' \<notin> set ts" "utf8_valid shown" "CHR ''%'' \<notin> set shown" "list_all (\<lambda>x. byte_val x < 128) mode"
    "emotify_message_text ue (ms_text m) graphical = body" "utf8_valid body"
  shows "render_message ue dc th colour graphical ts m is_own = None \<longleftrightarrow> percent_before_wide body"
proof -
  obtain t where t: "line_text th (message_format_key m is_own) [shown, body, mode] = Some t" "utf8_valid t"
      "percent_before_wide t = percent_before_wide body"
    using bundled_line [OF assms(1) message_key assms(6,7,10,8)] by blast
  obtain u where u: "stamp_text th ts = Some u" "utf8_valid u" "\<not> percent_before_wide u"
    using bundled_stamp [OF assms(1,4,5)] by blast
  obtain stamp where "Option.bind (resolve_abstractions (unwrap_or ''$*'' (map_of (th_abstracts th) ''timestamp'')) (th_abstracts th) 0)
      (\<lambda>format. parse_format_string format [ts]) = Some stamp"
    using u parse_spans_panics [OF u(2)] by (auto simp: stamp_text_def parse_format_string_def bind_eq_Some_conv)
  then have "render_message ue dc th colour graphical ts m is_own = None \<longleftrightarrow> render_chat_message ue dc th colour graphical m is_own = None"
    using assms(2) by (auto simp: render_message_def bind_eq_Some_conv)
  also have "\<dots> \<longleftrightarrow> percent_before_wide body"
    using bundled_format [OF t(1,2)] t(3) by (simp add: render_chat_message_def assms(3,9) message_format_def [symmetric] bind_eq_None_conv)
  finally show ?thesis .
qed

lemma message_line_panics_witness:
  "\<exists>ue dc m. ms_text m = ''100%'' @ [byte_of 195, byte_of 169] \<and>
     render_message ue dc nightfall_theme None False ''12:00'' m False = None"
proof -
  let ?ue = "\<lparr>ue_width = length, ue_char_width = length, ue_resolve = \<lambda>n. None\<rparr> :: ui_env"
  let ?dc = "\<lparr>dy_nick_column_width = 0, dy_nick_max_length = 10, dy_nick_alignment = AlignLeft, dy_nick_truncation = False\<rparr> :: display_config"
  let ?body = "''100%'' @ [byte_of 195, byte_of 169]"
  let ?m = "\<lparr>ms_id = 1, ms_timestamp = 0, ms_type = MsgMessage, ms_nick = Some ''bob'', ms_nick_mode = Some ''@'', ms_text = ?body,
     ms_highlight = False, ms_event_key = None, ms_event_params = None, ms_tags = None\<rparr> :: message"
  have "nick_column ?ue ?dc (unwrap_or [] (ms_nick ?m)) (unwrap_or [] (ms_nick_mode ?m)) = (''bob'', ''@'')"
    by (simp add: nick_column_def spaces_def)
  moreover have "emotify_message_text ?ue (ms_text ?m) False = ?body" by (simp add: emotify_message_text_def)
  moreover have "utf8_valid ''12:00''" "utf8_valid ''bob''" by (rule ascii_valid; auto)+
  moreover have "utf8_valid ?body" by code_simp
  moreover have "percent_before_wide ?body" by simp
  ultimately have "render_message ?ue ?dc nightfall_theme None False ''12:00'' ?m False = None"
    using message_line_panics [of nightfall_theme ?m ?ue ?dc "''bob''" "''@''" "''12:00''" False ?body None False]
    by (simp add: own_themes_def)
  then show ?thesis by (intro exI [of _ ?ue] exI [of _ ?dc] exI [of _ ?m]) simp
qed

text \<open>
  A halfop's mode is a percent sign: in the default theme it takes the colour code
  after it for a second one, and the code is shown.
\<close>

lemma halfop_code_shown:
  "map_option spans_text (Option.bind (line_text nightfall_theme ''pubmsg'' [''bob'', ''hi'', ''%'']) parse_spans) =
     Some (''%Z7aa2f7bob'' @ [byte_of 226, byte_of 157, byte_of 175] @ '' hi'')"
  unfolding nightfall_lines by code_simp

text \<open>
  The topic bar panics on a topic without a dollar sign exactly when a percent
  sign stands before a character beyond ASCII.
\<close>

theorem topic_panics:
  assumes "utf8_valid t" "CHR ''$'' \<notin> set t"
  shows "topic_spans (Some t) = None \<longleftrightarrow> percent_before_wide t"
  using assms by (simp add: topic_spans_def parse_format_string_def substitute_vars_plain parse_spans_panics)

lemma topic_panics_witness: "topic_spans (Some (''5%'' @ [byte_of 226, byte_of 130, byte_of 172])) = None"
proof -
  let ?t = "''5%'' @ [byte_of 226, byte_of 130, byte_of 172]"
  have "utf8_valid ?t" by code_simp
  moreover have "CHR ''$'' \<notin> set ?t" by code_simp
  moreover have "percent_before_wide ?t" by simp
  ultimately show ?thesis using topic_panics [of ?t] by simp
qed

text \<open>
  C39: The topic bar shows what stripping the topic's format codes leaves, and so
  does the search for highlights in a message, for texts without percent and
  dollar signs, hexadecimal colours and the monospace code, in which no comma
  follows a bare colour code.
\<close>

theorem topic_text_stripped:
  assumes "utf8_valid t" "common_codes t" "CHR ''$'' \<notin> set t"
  shows "map_option spans_text (topic_spans (Some t)) = Some (strip_irc_formatting t)"
  using parse_spans_text [OF assms(1,2)] assms(3) by (auto simp: topic_spans_def parse_format_string_def substitute_vars_plain)

lemma topic_text_stripped_witness:
  "map_option spans_text (topic_spans (Some (byte_of 2 # ''a '' @ byte_of 3 # ''4,12b''))) = Some ''a b''"
proof -
  let ?t = "byte_of 2 # ''a '' @ byte_of 3 # ''4,12b''"
  have "utf8_valid ?t" by (rule ascii_valid) auto
  moreover have "common_codes ?t" unfolding common_codes_def by (intro conjI) code_simp+
  moreover have "CHR ''$'' \<notin> set ?t" by code_simp
  moreover have "strip_irc_formatting ?t = ''a b''" by code_simp
  ultimately show ?thesis using topic_text_stripped [of ?t] by simp
qed

section \<open>Emote tokens\<close>

definition segment_source :: "bytes \<Rightarrow> segment \<Rightarrow> bytes" where
  "segment_source body seg = (case seg of TextSegment a b \<Rightarrow> take (b - a) (drop a body) | EmoteSegment name \<Rightarrow> '':'' @ name @ '':'')"

lemma segment_source_simps [simp]:
  "segment_source body (TextSegment a b) = take (b - a) (drop a body)"
  "segment_source body (EmoteSegment name) = '':'' @ name @ '':''"
  by (simp_all add: segment_source_def)

lemma emote_at_source:
  assumes "emote_at known body i = Some name" "i < length body"
  shows "drop i body = '':'' @ name @ '':'' @ drop (i + length name + 2) body" "known name" "name \<noteq> []"
proof -
  have name: "name = name_at body i" and facts: "body ! i = CHR '':''" "i + 1 + length name < length body" "body ! (i + 1 + length name) = CHR '':''"
    "known name" "name \<noteq> []"
    using assms(1) by (auto simp: emote_at_def Let_def split: if_splits)
  have "take (length name) (drop (i + 1) body) = name"
    unfolding name name_at_def by (rule takeWhile_eq_take [symmetric])
  then have "drop (i + 1) body = name @ drop (i + 1 + length name) body"
    using append_take_drop_id [of "length name" "drop (i + 1) body"] by (simp add: add.commute)
  moreover have "drop i body = CHR '':'' # drop (i + 1) body" using Cons_nth_drop_Suc [OF assms(2)] facts(1) by simp
  moreover have "drop (i + 1 + length name) body = CHR '':'' # drop (i + length name + 2) body"
    using Cons_nth_drop_Suc [OF facts(2)] facts(3) by (simp add: add.assoc)
  ultimately show "drop i body = '':'' @ name @ '':'' @ drop (i + length name + 2) body" by simp
  show "known name" "name \<noteq> []" using facts by simp_all
qed

lemma drop_split: "a \<le> i \<Longrightarrow> drop a body = take (i - a) (drop a body) @ drop i body"
  using append_take_drop_id [of "i - a" "drop a body"] by simp

lemma tokenize_from_source:
  "text_start \<le> i \<Longrightarrow> concat (map (segment_source body) (tokenize_from known body text_start i)) = drop text_start body"
proof (induction known body text_start i rule: tokenize_from.induct)
  case (1 known body text_start i)
  show ?case
  proof (cases "i < length body")
    case inside: True
    show ?thesis
    proof (cases "emote_at known body i")
      case None
      then show ?thesis using 1 inside by (subst tokenize_from.simps) simp
    next
      case (Some name)
      have "drop text_start body = take (i - text_start) (drop text_start body) @ '':'' @ name @ '':'' @ drop (i + length name + 2) body"
        using drop_split [OF 1(3), of body] unfolding emote_at_source(1) [OF Some inside] .
      then show ?thesis using 1 inside Some by (subst tokenize_from.simps) auto
    qed
  qed (subst tokenize_from.simps, auto)
qed

lemma tokenize_from_known:
  "EmoteSegment name \<in> set (tokenize_from known body text_start i) \<Longrightarrow> known name \<and> name \<noteq> []"
proof (induction known body text_start i rule: tokenize_from.induct)
  case (1 known body text_start i)
  then show ?case
    by (subst (asm) (3) tokenize_from.simps) (auto split: if_splits option.splits dest: emote_at_source(2,3))
qed

text \<open>
  C40: Cutting a text into emotes and plain parts loses nothing: the parts, an emote
  written back between colons, are the text again, and every emote has a name
  the registry knows.  So where the registry has none of the names the text is shown as it is.
\<close>

theorem emote_tokens_lossless:
  "concat (map (segment_source body) (tokenize_with known body)) = body \<and>
   list_all (\<lambda>seg. case seg of EmoteSegment name \<Rightarrow> known name \<and> name \<noteq> [] | TextSegment a b \<Rightarrow> True) (tokenize_with known body)"
  using tokenize_from_source [of 0 0 body known] tokenize_from_known
  by (fastforce simp: tokenize_with_def list_all_iff split: segment.split)

end
