(* ===== verification/E2e_Genuine.thy ===== *)
theory E2e_Genuine
  imports E2e_Trust
begin

text \<open>
  Authenticity: a line that decryption hands to the user was sealed by the owner
  of the key for this very place, and a signed handshake message cannot be turned
  into another one that a client takes.
\<close>

section \<open>Genuine lines\<close>

text \<open>
  What was sealed under a key: the channel, the chunk and its text.  A cipher is
  unforgeable for the key when nothing else opens under it.
\<close>

definition seal_data :: "bytes \<Rightarrow> wire_chunk \<Rightarrow> bytes" where
  "seal_data channel w = build_aad channel (wc_msgid w) (wc_ts w) (wc_part w) (wc_total w)"

definition unforgeable :: "crypto \<Rightarrow> bytes \<Rightarrow> (bytes \<times> wire_chunk \<times> bytes) set \<Rightarrow> bool" where
  "unforgeable cr k sent \<longleftrightarrow>
     (\<forall>n aad ct p. cr_aead_decrypt cr k n aad ct = Inr p \<longrightarrow>
        (\<exists>c w. (c, w, p) \<in> sent \<and> n = wc_nonce w \<and> aad = seal_data c w \<and> ct = wc_ciphertext w))"

lemma parsed_fields_msgid: "hex_ok cr \<Longrightarrow> wire_parse_fields cr a b c d = Inr w \<Longrightarrow> length (wc_msgid w) = 8"
  by (auto simp: wire_parse_fields_def bind_res_Inr_iff hex_ok_def guard_res_def map_err_def
      split: if_splits sum.splits)

lemma parsed_msgid:
  assumes "hex_ok cr" "wire_parse cr line = Inr (Some w)"
  shows "length (wc_msgid w) = 8"
proof -
  from assms(2) obtain a b c d where "wire_parse_fields cr a b c d = Inr w"
    by (auto simp: wire_parse_def bind_res_Inr_iff split: option.splits list.splits)
  with assms(1) show ?thesis by (rule parsed_fields_msgid)
qed

lemma opens_iff: "aead_decrypt cr k n aad ct = Inr p \<longleftrightarrow> cr_aead_decrypt cr k n aad ct = Inr p"
  by (simp add: aead_decrypt_def map_err_def split: sum.split)

lemma seal_data_inject:
  "length (wc_msgid w) = 8 \<Longrightarrow> length (wc_msgid v) = 8 \<Longrightarrow> seal_data c w = seal_data d v \<longleftrightarrow>
     c = d \<and> wc_msgid w = wc_msgid v \<and> wc_ts w = wc_ts v \<and> wc_part w = wc_part v \<and> wc_total w = wc_total v"
  unfolding seal_data_def by (rule aad_injective)

lemma opened_was_sealed:
  assumes "unforgeable cr k sent" "\<forall>(c, w, p)\<in>sent. length (wc_msgid w) = 8" "length (wc_msgid w) = 8"
    and "aead_decrypt cr k (wc_nonce w) (seal_data channel w) (wc_ciphertext w) = Inr p"
  shows "(channel, w, p) \<in> sent"
proof -
  from assms(1,4) obtain c v where v: "(c, v, p) \<in> sent" "wc_nonce w = wc_nonce v"
    "seal_data channel w = seal_data c v" "wc_ciphertext w = wc_ciphertext v"
    unfolding unforgeable_def opens_iff by blast
  have "length (wc_msgid v) = 8" using assms(2) v(1) by auto
  from seal_data_inject [OF assms(3) this] v have "channel = c" "w = v" by auto
  with v(1) show ?thesis by simp
qed

text \<open>
  C4: what decryption hands to the user is genuine.  Suppose that under the key of
  the session nothing opens but what its owner sealed, and the owner's time stamps
  are less than 2^63 seconds from the clock.  A line with the prefix of the
  protocol yields a text only if the session of the handle on the channel is
  trusted, the owner sealed exactly this chunk for exactly this channel, message,
  time, part and total with exactly this text, and the owner's time stamp is at
  most the tolerance before or after the clock.  So a line is not read on another
  channel, at another position, or outside the replay window.  (Of a time stamp
  2^63 seconds away this does not hold: \<open>replay_window_wraps\<close>.)
\<close>

theorem decrypted_is_genuine:
  assumes "hex_ok cr" "unforgeable cr k sent"
    and owner: "\<forall>(c, w, p)\<in>sent. length (wc_msgid w) = 8 \<and> \<bar>sint (clock_of m) - sint (wc_ts w)\<bar> < 2 ^ 63"
    and session: "get_incoming_session cr (mg_keyring m) handle channel = Inr (Some s)" "is_sk s = k"
    and line: "starts_with wire_prefix line" "fst (decrypt_incoming cr handle channel line m) = Inr (Plaintext p)"
  shows "\<exists>w. wire_parse cr line = Inr (Some w) \<and> is_status s = Trusted \<and> (channel, w, p) \<in> sent \<and>
    \<bar>sint (clock_of m) - sint (wc_ts w)\<bar> \<le> sint (mg_tolerance m)"
proof -
  have "wire_parse cr line \<noteq> Inr None" using line(1)
    by (auto simp: wire_parse_def starts_with_def bind_res_Inr_iff split: option.splits list.splits)
  with line(2) session obtain w where w: "wire_parse cr line = Inr (Some w)" "is_status s = Trusted"
      "sint (i64_abs (clock_of m - wc_ts w)) \<le> sint (mg_tolerance m)"
      "aead_decrypt cr k (wc_nonce w) (seal_data channel w) (wc_ciphertext w) = Inr p"
    by (auto simp: decrypt_exec open_chunk_def Let_def not_less seal_data_def split: sum.splits option.splits if_splits)
  have "(channel, w, p) \<in> sent"
    using opened_was_sealed [OF assms(2) _ parsed_msgid [OF assms(1) w(1)] w(4)] owner by fast
  moreover have "\<bar>sint (clock_of m) - sint (wc_ts w)\<bar> < 2 ^ 63" using owner calculation by auto
  ultimately show ?thesis using w replay_window_exact by blast
qed

text \<open>A cipher that opens one line only.\<close>

definition example_sealed :: wire_chunk where
  "example_sealed = \<lparr>wc_msgid = ''abcdefgh'', wc_ts = 900, wc_part = 1, wc_total = 1, wc_nonce = replicate 24 CHR ''n'',
     wc_ciphertext = ''ct''\<rparr>"

definition one_line_crypto :: crypto where
  "one_line_crypto = toy_crypto\<lparr>cr_aead_decrypt := (\<lambda>k n aad ct.
     if n = wc_nonce example_sealed \<and> aad = seal_data ''#x'' example_sealed \<and> ct = ''ct'' then Inr ''hi'' else Inl ''bad tag'')\<rparr>"

definition example_reader :: e2e_manager where
  "example_reader = (example_manager (put_incoming \<lparr>is_handle = ''~a@h'', is_channel = ''#x'', is_fingerprint = replicate 16 CHR ''f'', is_sk = [],
     is_status = Trusted, is_created_at = 0\<rparr> (replicate 32 CHR ''k'') (keyring_new None)))"

lemma decrypted_is_genuine_witness:
  "\<exists>line s. fst (decrypt_incoming one_line_crypto ''~a@h'' ''#x'' line example_reader) = Inr (Plaintext ''hi'') \<and>
    get_incoming_session one_line_crypto (mg_keyring example_reader) ''~a@h'' ''#x'' = Inr (Some s) \<and> is_status s = Trusted \<and>
    \<bar>sint (clock_of example_reader) - 900\<bar> \<le> sint (mg_tolerance example_reader)"
proof -
  let ?cr = one_line_crypto and ?sent = "{(''#x'', example_sealed, ''hi'')}"
  define s where "s = \<lparr>is_handle = ''~a@h'', is_channel = ''#x'', is_fingerprint = replicate 16 CHR ''f'',
    is_sk = replicate 32 CHR ''k'', is_status = Trusted, is_created_at = 0\<rparr>"
  have laws: "hex_ok ?cr" "b64_ok ?cr"
    using toy_ok by (simp_all add: hex_ok_def b64_ok_def one_line_crypto_def)
  have unf: "unforgeable ?cr k ?sent" for k
    by (auto simp: unforgeable_def one_line_crypto_def example_sealed_def split: if_splits)
  obtain line where line: "wire_encode ?cr example_sealed = Inr line" "starts_with wire_prefix line"
    by (simp add: wire_encode_def example_sealed_def starts_with_iff max_chunks_def)
  have parse: "wire_parse ?cr line = Inr (Some example_sealed)"
    using wire_parse_encode [OF laws _ _ line(1)] by (simp add: example_sealed_def)
  have clock: "clock_of example_reader = 1000" "mg_tolerance example_reader = 300"
    by (simp_all add: example_reader_def example_manager_def manager_new_def clock_of_def example_env_def)
  have sess: "get_incoming_session ?cr (mg_keyring example_reader) ''~a@h'' ''#x'' = Inr (Some s)"
    by (simp add: s_def example_reader_def example_manager_def manager_new_def get_incoming_session_def row_to_incoming_def
        keyring_new_def put_incoming_def decode_secret_def trust_parse_def trust_as_str_def)
  have skew: "sint (i64_abs (1000 - 900)) \<le> sint (300 :: i64)" by code_simp
  have valid: "utf8_valid ''hi''" by (rule ascii_valid) auto
  have "cr_aead_decrypt ?cr k (wc_nonce example_sealed) (seal_data ''#x'' example_sealed) (wc_ciphertext example_sealed) = Inr ''hi''" for k
    by (simp add: one_line_crypto_def example_sealed_def)
  then have opened: "open_chunk ?cr k ''#x'' example_sealed = Plaintext ''hi''" for k
    using valid opens_iff by (simp add: open_chunk_def seal_data_def [symmetric] aead_decrypt_def map_err_def)
  have "wc_ts example_sealed = 900" by (simp add: example_sealed_def)
  then have run: "fst (decrypt_incoming ?cr ''~a@h'' ''#x'' line example_reader) = Inr (Plaintext ''hi'')"
    using skew by (simp add: decrypt_exec parse sess clock opened s_def Let_def not_less)
  from decrypted_is_genuine [OF laws(1) unf _ sess refl line(2) run] show ?thesis
    using sess run by (auto simp: example_sealed_def clock)
qed

section \<open>What a signature binds\<close>

text \<open>The cipher adds a tag of sixteen bytes (XChaCha20-Poly1305).\<close>

definition tag_ok :: "crypto \<Rightarrow> bool" where
  "tag_ok cr \<longleftrightarrow> (\<forall>k n a c p. cr_aead_decrypt cr k n a c = Inr p \<longrightarrow> length c = length p + 16)"

text \<open>A KEYRSP or REKEY carries a sealed key of 32 bytes, as the builders of the program make it.\<close>

definition wraps_key :: "crypto \<Rightarrow> handshake_msg \<Rightarrow> bool" where
  "wraps_key cr msg =
     (case msg of
        Req r \<Rightarrow> True
      | Rsp r \<Rightarrow> (\<exists>k sk. aead_decrypt cr k (kp_wrap_nonce r) (wrap_info (kp_channel r)) (kp_wrap_ct r) = Inr sk \<and> length sk = 32)
      | Rekey r \<Rightarrow> (\<exists>k sk. aead_decrypt cr k (kk_wrap_nonce r) (rekey_info (kk_channel r)) (kk_wrap_ct r) = Inr sk \<and> length sk = 32))"

text \<open>A client in some state takes the message.\<close>

definition taken :: "(bytes \<Rightarrow> bytes list) \<Rightarrow> crypto \<Rightarrow> bytes \<Rightarrow> handshake_msg \<Rightarrow> e2e_manager \<Rightarrow> bool" where
  "taken lower cr handle msg m =
     (case msg of
        Req r \<Rightarrow> (\<exists>x. fst (handle_keyreq lower cr handle r m) = Inr x)
      | Rsp r \<Rightarrow> fst (handle_keyrsp cr handle r m) = Inr ()
      | Rekey r \<Rightarrow> fst (handle_rekey cr handle r m) = Inr ())"

lemma find_unwrap_key:
  "find_unwrap cr rsp hs = Some (sk, key) \<Longrightarrow>
   \<exists>k. aead_decrypt cr k (kp_wrap_nonce rsp) (wrap_info (kp_channel rsp)) (kp_wrap_ct rsp) = Inr sk \<and> length sk = 32"
  by (induction hs) (auto simp: try_unwrap_def Let_def split: option.splits sum.splits if_splits)

lemma taken_wraps: "taken lower cr handle msg m \<Longrightarrow> wraps_key cr msg"
proof (cases msg)
  case (Rsp r)
  assume "taken lower cr handle msg m"
  then have "fst (handle_keyrsp cr handle r m) = Inr ()" by (simp add: taken_def Rsp)
  then obtain sk key where
    "find_unwrap cr r (filter (\<lambda>((c, _), _). c = kp_channel r) (mg_pending m)) = Some (sk, key)"
    by (auto simp: handle_keyrsp_def consume_matching_pending_for_keyrsp_def exec split: sum.splits if_splits option.splits)
  from find_unwrap_key [OF this] show ?thesis by (auto simp: wraps_key_def Rsp)
next
  case (Rekey r)
  assume "taken lower cr handle msg m"
  then show ?thesis
    by (auto simp: taken_def Rekey handle_rekey_def wraps_key_def reject_change_def record_trust_change_def exec Let_def split: sum.splits if_splits)
qed (simp add: wraps_key_def)

lemma wraps_length:
  assumes "tag_ok cr" "wraps_key cr msg"
  shows "wrap_len msg = (case msg of Req r \<Rightarrow> 0 | _ \<Rightarrow> 48)"
proof -
  have "length c = 48" if "aead_decrypt cr k n a c = Inr sk" "length sk = 32" for k n a c sk
    using that assms(1) by (auto simp: tag_ok_def aead_decrypt_def map_err_def split: sum.splits)
  with assms(2) show ?thesis by (auto simp: wraps_key_def wrap_len_def split: handshake_msg.split)
qed

text \<open>
  C23: a signature cannot be moved.  Let a message with the sizes its types fix
  be signed by a client that sealed a key in it as the program does, and let
  another message have the same signed bytes.  If any client in any state takes
  that other message, whatever channel, keys and wrapped bytes it was sent with,
  it agrees with the first one in its kind and in every field but the signature.
  Both conditions are needed: the payload does not say how long the channel and
  the wrapped key are (\<open>payload_ambiguous\<close>), so it is the opening of the wrapped
  key that fixes where the fields end.
\<close>

theorem signature_bound:
  assumes "tag_ok cr" "msg_wf orig" "msg_wf other" "wraps_key cr orig"
    and same: "payload_of other = payload_of orig" and accepted: "taken lower cr handle other m"
  shows "unsigned_part other = unsigned_part orig"
proof -
  have kinds: "(case other of Req r \<Rightarrow> 0 | Rsp r \<Rightarrow> 1 | Rekey r \<Rightarrow> (2 :: nat)) = (case orig of Req r \<Rightarrow> 0 | Rsp r \<Rightarrow> 1 | Rekey r \<Rightarrow> 2)"
    using same payload_domains by (cases other; cases orig) (auto simp: payload_of_def dest: sym)
  have "wrap_len other = wrap_len orig"
    using wraps_length [OF assms(1,4)] wraps_length [OF assms(1) taken_wraps [OF accepted]] kinds
    by (cases other; cases orig) auto
  from payload_binds_message [OF assms(3,2) this] same show ?thesis by simp
qed

definition colon_rsp :: "bytes \<Rightarrow> nat \<Rightarrow> key_rsp" where
  "colon_rsp channel n = \<lparr>kp_channel = channel, kp_pubkey = replicate 32 (CHR '':''), kp_ephemeral_pub = replicate 32 (CHR '':''),
     kp_wrap_nonce = replicate 24 (CHR '':''), kp_wrap_ct = replicate n (CHR '':''), kp_nonce = replicate 16 (CHR '':''),
     kp_sig = replicate 64 (CHR '':'')\<rparr>"

lemma payload_ambiguous:
  "msg_wf (Rsp (colon_rsp ''#x'' 2)) \<and> msg_wf (Rsp (colon_rsp ''#x:'' 1)) \<and>
   payload_of (Rsp (colon_rsp ''#x'' 2)) = payload_of (Rsp (colon_rsp ''#x:'' 1)) \<and>
   unsigned_part (Rsp (colon_rsp ''#x'' 2)) \<noteq> unsigned_part (Rsp (colon_rsp ''#x:'' 1))"
  by (simp add: msg_wf_def keyrsp_wf_def colon_rsp_def payload_of_def sig_payload_keyrsp_def unsigned_part_def numeral_eq_Suc)

text \<open>A cipher with a tag of the right length, and a KEYRSP that a waiting client takes.\<close>

definition tagged_crypto :: crypto where
  "tagged_crypto = toy_crypto\<lparr>cr_aead_encrypt := (\<lambda>k n a p. Inr (replicate 16 CHR ''t'' @ p)),
     cr_aead_decrypt := (\<lambda>k n a c. toy_open (replicate 16 CHR ''t'') c)\<rparr>"

definition example_rsp :: "bytes \<Rightarrow> key_rsp" where
  "example_rsp sg = \<lparr>kp_channel = ''#x'', kp_pubkey = replicate 32 CHR ''b'', kp_ephemeral_pub = replicate 32 CHR ''e'',
     kp_wrap_nonce = replicate 24 CHR ''n'', kp_wrap_ct = replicate 16 CHR ''t'' @ replicate 32 CHR ''k'',
     kp_nonce = replicate 16 CHR ''m'', kp_sig = sg\<rparr>"

definition example_waiting :: e2e_manager where
  "example_waiting = (example_manager (keyring_new None))\<lparr>mg_pending :=
     [((''#x'', ''n''), \<lparr>ph_channel = ''#x'', ph_peer_handle = None, ph_secret = replicate 32 CHR ''s''\<rparr>)]\<rparr>"

lemma tagged_ok: "tag_ok tagged_crypto"
  by (auto simp: tag_ok_def tagged_crypto_def toy_open_def strip_prefix_Some split: option.splits)

lemma example_rsp_taken: "taken ascii_lower_table tagged_crypto ''~b@h'' (Rsp (example_rsp (replicate 64 CHR ''b''))) example_waiting"
proof -
  let ?r = "example_rsp (replicate 64 CHR ''b'')"
  have sg: "sig_verify tagged_crypto (kp_pubkey ?r) p (kp_sig ?r) = Inr ()" for p
    by (simp add: sig_verify_def tagged_crypto_def toy_crypto_def toy_verify_def example_rsp_def replicate_add [symmetric])
  have "strip_prefix (replicate 16 CHR ''t'') (kp_wrap_ct ?r) = Some (replicate 32 CHR ''k'')"
    unfolding example_rsp_def by (simp only: key_rsp.select_convs strip_prefix_append)
  then have unwrap: "try_unwrap tagged_crypto ?r sec = Some (replicate 32 CHR ''k'')" for sec
    by (simp add: try_unwrap_def Let_def aead_decrypt_def tagged_crypto_def toy_open_def map_err_def)
  have state: "mg_pending example_waiting = [((''#x'', ''n''), \<lparr>ph_channel = ''#x'', ph_peer_handle = None, ph_secret = replicate 32 CHR ''s''\<rparr>)]"
    "mg_keyring example_waiting = keyring_new None"
    by (simp_all add: example_waiting_def example_manager_def manager_new_def)
  have chan: "kp_channel ?r = ''#x''" by (simp add: example_rsp_def)
  have new: "classify_peer_change (keyring_new None) fp h = Inr New" for fp h
    by (simp add: classify_New keyring_new_def)
  have install: "install_incoming_session_strict tagged_crypto iv se (upsert_peer r (keyring_new None)) =
      Inr (put_incoming se (is_sk se) (upsert_peer r (keyring_new None)))" for iv se r
    unfolding install_strict_Inr by (simp add: encode_secret_def keyring_new_def)
  show ?thesis
    by (simp add: taken_def handle_keyrsp_def consume_matching_pending_for_keyrsp_def exec sg unwrap state chan Let_def
        new install)
qed

lemma signature_bound_witness:
  "unsigned_part (Rsp (example_rsp (replicate 64 CHR ''b''))) = unsigned_part (Rsp (example_rsp (replicate 64 CHR ''z'')))"
proof (rule signature_bound [OF tagged_ok _ _ _ _ example_rsp_taken])
  show "wraps_key tagged_crypto (Rsp (example_rsp (replicate 64 CHR ''z'')))"
    using taken_wraps [OF example_rsp_taken] by (simp add: wraps_key_def example_rsp_def)
qed (simp_all add: msg_wf_def keyrsp_wf_def payload_of_def example_rsp_def)

end
