(* ===== verification/Spec2Isabelle.thy ===== *)
theory Spec2Isabelle
  imports E2e_Portable Irc_Properties Ui_Editor Dcc_Properties Irc_Auth Ui_Properties E2e_Genuine
begin

text \<open>
  A verification library for the Repartee IRC client (\<open>src/src/\<close>): a terminal
  client with its own end-to-end encryption (RPE2E), direct chats, themes and
  emotes.

  \<^bold>\<open>The program and its parts.\<close>  The main loop (\<open>src/src/app/\<close>, not modelled as such)
  waits for three kinds of events and hands each to synchronous code that works
  on one state.  (1) A connection reads messages (\<open>irc/mod.rs\<close>) and the
  dispatcher (\<open>irc/events.rs\<close>) runs a handler on the application state
  (\<open>state/\<close>); on the way a message may be taken by the end-to-end layer
  (\<open>e2e/\<close>), held in a batch (\<open>irc/batch.rs\<close>), counted by the antiflood checks
  (\<open>irc/flood.rs\<close>), collected as a netsplit (\<open>irc/netsplit.rs\<close>) or taken as an
  offer of a direct chat (\<open>dcc/\<close>).  (2) A key edits the input line
  (\<open>ui/input.rs\<close>); a finished line is a slash command (\<open>commands/\<close>) or text that
  is encrypted, cut and sent.  (3) Timers and tasks deliver events of their own
  (reconnect, netsplit tick, direct chats).  What the terminal then shows is
  computed from the state by the format parser (\<open>theme/\<close>) and the views
  (\<open>ui/\<close>).  The development follows this order: each part is a theory over the
  state it works on, and the theories named \<open>_Properties\<close>, \<open>_Trust\<close>, \<open>_Sessions\<close>,
  \<open>_Invariant\<close>, \<open>_Roster\<close>, \<open>_Session\<close> and \<open>_Laws\<close> hold what is proved of several
  parts together.

  \<^bold>\<open>How code is represented.\<close>  Bytes and strings are \<open>char list\<close>, a string being its
  UTF-8 bytes; a Rust \<open>char\<close> is the list of its bytes.  Structs are records,
  enums datatypes with the source's constructors.  \<open>Result\<close> is a sum, and code
  with a mutable state and \<open>?\<close> is written in the state-and-error monad of
  \<open>Prelude\<close>, where an early return keeps what was written before.  Where the
  source can panic (slices, indices, padding widths) the definition returns an
  option, and \<open>None\<close> is the panic; the release profile aborts on it.  Machine
  integers are words, or naturals with the wrap-around or saturation written out.  Hash
  maps and \<open>IndexMap\<close> are association lists in insertion order; SQL tables are
  lists of rows under their primary key, and a statement succeeds unless a
  constraint of the schema forbids it.  Clocks, random numbers and the file
  system are arguments.

  \<^bold>\<open>Theories.\<close>
  \<^item> \<open>Prelude\<close>, \<open>Rust_Str\<close>, \<open>Rust_Text\<close>: the two error-carrying combinators, what a
    stateful operation keeps, association lists and tables; the part of Rust's
    string library the sources call, on bytes.
  \<^item> \<open>E2e_Base\<close>, \<open>E2e_Chunker\<close>, \<open>E2e_Wire\<close>: errors, constants and wrappers of the
    cryptographic crates (\<open>e2e/mod.rs\<close>, \<open>error.rs\<close>, \<open>crypto/\<close>), the cutting of
    texts (\<open>chunker.rs\<close>) and the format of an encrypted line (\<open>wire.rs\<close>).
  \<^item> \<open>Limiter\<close>: the contract that the rate limiters share and the bound it gives;
    \<open>E2e_Handshake\<close> (\<open>handshake.rs\<close>) and \<open>Flood\<close> (\<open>irc/flood.rs\<close>) interpret it.
  \<^item> \<open>E2e_Keyring\<close> (\<open>keyring.rs\<close>, \<open>storage/crypto.rs\<close>), \<open>E2e_Manager\<close> (\<open>manager.rs\<close>):
    the tables and the manager on top; \<open>E2e_Network\<close> states what a predicate of
    the keyring needs so that no network traffic breaks it, and \<open>E2e_Trust\<close>
    interprets that for pins, peers, handles and trusted sessions.
    \<open>E2e_Genuine\<close>: what decrypted lines and accepted signatures say about who made
    them.  \<open>E2e_Sessions\<close>, \<open>E2e_Rotation\<close>: two honest clients; a rotation of the key.
  \<^item> \<open>E2e_Client\<close> (the encrypted lines in \<open>irc/events.rs\<close> and \<open>app/input.rs\<close>),
    \<open>E2e_Commands\<close> (\<open>commands/handlers_e2e.rs\<close>), \<open>E2e_Portable\<close> (\<open>portable.rs\<close>).
  \<^item> \<open>App_State\<close> (\<open>state/\<close>), \<open>Netsplit\<close>, \<open>Irc_Split\<close> (\<open>split_irc_message\<close>),
    \<open>Irc_Text\<close> (\<open>formatting.rs\<close>, \<open>ignore.rs\<close>, \<open>commands/parser.rs\<close>), \<open>Irc_Tokens\<close>
    (\<open>isupport.rs\<close>, \<open>cap.rs\<close>, \<open>extban.rs\<close>).
  \<^item> \<open>Irc_Event\<close>, \<open>Irc_Members\<close>, \<open>Irc_Modes\<close>, \<open>Irc_Chat\<close>, \<open>Irc_Numerics\<close>,
    \<open>Irc_Dispatch\<close>: \<open>irc/events.rs\<close> and \<open>batch.rs\<close>, handler by handler.
    \<open>Irc_View\<close>, \<open>Irc_Roster\<close>, \<open>Irc_Invariant\<close>, \<open>Irc_Session\<close>, \<open>Irc_Properties\<close>: what
    holds of them all, for every run of a session.
  \<^item> \<open>Irc_Scram\<close> (\<open>sasl_scram.rs\<close>), \<open>Irc_Registration\<close> (connection set-up and the
    reader task of \<open>irc/mod.rs\<close>), \<open>Irc_Auth\<close> (their properties).
  \<^item> \<open>Ui_Input\<close> (\<open>ui/input.rs\<close>, \<open>spellcheck/mod.rs\<close>, editing keys of
    \<open>app/input.rs\<close>) and \<open>Ui_Editor\<close>, its specification as the characters before
    and behind the cursor.
  \<^item> \<open>Dcc\<close>, \<open>Dcc_App\<close>, \<open>Dcc_Properties\<close>: direct chats (\<open>dcc/\<close>, \<open>app/dcc.rs\<close>,
    \<open>commands/handlers_dcc.rs\<close>).
  \<^item> \<open>Theme\<close> (\<open>theme/parser.rs\<close>, \<open>theme/mod.rs\<close>), \<open>Ui_Message\<close> (message lines, emote
    tokens, topic and side panels), \<open>Theme_Bundled\<close> (the theme files in
    \<open>src/themes/\<close> that the binary carries), \<open>Theme_Properties\<close>, \<open>Ui_Properties\<close>.

  \<^bold>\<open>What is shown.\<close>
  \<^item> Encryption: encrypted lines are read by the holder of the session, in any
    order; a handshake and a rotation deliver the key; with a cipher
    that cannot be forged, decryption yields only what the owner of a trusted
    session sealed for this channel, inside the replay window, and a signature
    binds all fields of a message; typed text leaves sealed, except for the
    two kinds named there; network traffic rebinds no pinned session and no recorded peer; who
    is handed a key; a revoked peer is cut off, and how a REKEY undoes that.
    Formats: parsing inverts encoding for lines, handshake messages and exports.
  \<^item> Bounds: accepted handshakes and antiflood events per window, DCC records,
    scrollback, ban lists, reconnect delays.
  \<^item> IRC: every message keeps the invariant of the interface state; which message
    panics; nick lists refine an abstract roster; a batch of QUITs has the effect
    of the single ones; a split message keeps every character, and a netsplit
    is announced with the names of its users; the dispatcher refines the transitions of \<open>E2e_Network\<close>.
  \<^item> Set-up: the whole of CAP negotiation with SCRAM against an honest server, and
    the exchange with a dishonest one; credentials only
    after the acknowledgement of \<open>sasl\<close>; what the reader task reports.
  \<^item> Interface: editing keys refine a line editor; exactly which input panics;
    which message texts crash the renderer under the fallback theme and under
    both bundled ones; the topic bar shows what stripping
    leaves; emote tokens lose nothing.

  \<^bold>\<open>Loops and bounds.\<close>  No definition uses fuel: every loop of the modelled code ends.
  Loops that are not structural are \<open>function\<close>s with a termination proof by a
  measure: the distance of a cursor from the end of its text (chunker, splitter,
  stripping, format parser, emote tokens, trimming), the rest of pattern and
  text with the last star (autotrust globs), the number of taken names (DCC
  ids).  Constants are the code's: sixteen chunks of 180 bytes, 350 bytes to a
  line, 500 ban-list entries, the windows and thresholds of the limiters.

  \<^bold>\<open>Parameters.\<close>  Code outside \<open>src/\<close> is an argument: cryptography (record \<open>crypto\<close>,
  laws in \<open>E2e_Base\<close>; \<open>scram_laws\<close> in \<open>Irc_Scram\<close>), regular expressions, JSON and TOML,
  dates, the protocol crate's message classes, dictionaries, display widths,
  IPv6 text, Unicode case mapping, the default hasher, the file system.  A
  theorem that relies on such code names the law as a hypothesis, and its
  witness instantiates it with concrete functions.

  \<^bold>\<open>Not modelled.\<close>  The main loop, sockets, tasks and threads; SQL text and the log
  writer; TOML and JSON text; Lua scripting (an embedded interpreter); the
  terminal library and what only draws with it; images, shells and the fetching
  of emotes; the web server and the separate desktop and web front ends, which
  are clients of the same state.  The command tables and most of the handlers of
  \<open>commands/handlers_irc.rs\<close>, \<open>handlers_ui.rs\<close> and \<open>handlers_admin.rs\<close> only format
  a line and send it.  Debug lines, log row ids, scripts and the messages to web
  clients are left out of the handlers that are modelled.  The colour of a nick
  is floating-point arithmetic and an argument.
\<close>

end
